(* ===== verification/Prelude.thy ===== *)
theory Prelude
  imports Main "HOL-Library.AList" "HOL-Library.Word" "HOL-Library.List_Lexorder"
    "HOL-Library.Char_ord" "HOL-Library.Product_Lexorder" "HOL-Library.Multiset"
begin

text \<open>
  What every component theory shares: the exceptions of \<^verbatim>\<open>exceptions.py\<close> as values, the
  result type of a routine that may raise, Python strings, Python dictionaries and
  \<^verbatim>\<open>sorted\<close>.

  A Python string is a list of code points below 256 (Isabelle's \<open>char\<close>), so the string
  operations below are exact on Latin-1 text; \<^verbatim>\<open>str.strip\<close>, \<^verbatim>\<open>str.lower\<close>,
  \<^verbatim>\<open>str.casefold\<close> and string comparison are written out for that range.
\<close>

named_theorems res_simps \<open>equations of the exception monad\<close>
named_theorems dict_simps \<open>equations of Python dictionaries as association lists\<close>

section \<open>Exceptions and results\<close>

text \<open>
  One constructor per exception class the modelled code raises; the messages are operator
  prose that no code reads back and are left out, the class name is what the code records
  (\<^verbatim>\<open>type(error).__name__\<close>). \<^verbatim>\<open>ValidationError\<close> is what a Pydantic constructor
  raises, a subclass of \<^verbatim>\<open>ValueError\<close>; \<^verbatim>\<open>PlaywrightError\<close> is the browser library's
  \<^verbatim>\<open>Error\<close>.
\<close>

datatype exn =
    ValueError | ValidationError | TypeError | RuntimeError | OSError | PermissionError | TimeoutError
  | AmbiguousTarget | OwnershipNotEstablished | RootOuNotConfirmed | StaleConfirmation
  | SelectorNotFound | SelectorAmbiguous | UnknownPageState | UnvalidatedUiContract
  | MutationOutcomeUnknown | AuditWriteFailure | PlannerFailure | RunLockUnavailable
  | AuditRetentionFailure | StateReadFailure | PlaywrightError | KeyError

text \<open>The subclasses of \<^verbatim>\<open>ComplianceAgentError\<close>.\<close>

fun is_compliance_error :: "exn \<Rightarrow> bool" where
  "is_compliance_error ValueError = False"
| "is_compliance_error ValidationError = False"
| "is_compliance_error TypeError = False"
| "is_compliance_error RuntimeError = False"
| "is_compliance_error TimeoutError = False"
| "is_compliance_error OSError = False"
| "is_compliance_error PermissionError = False"
| "is_compliance_error PlaywrightError = False"
| "is_compliance_error KeyError = False"
| "is_compliance_error _ = True"

text \<open>\<^verbatim>\<open>isinstance(error, ValueError)\<close> and \<^verbatim>\<open>isinstance(error, OSError)\<close>.\<close>

fun is_value_error :: "exn \<Rightarrow> bool" where
  "is_value_error ValueError = True"
| "is_value_error ValidationError = True"
| "is_value_error _ = False"

fun is_os_error :: "exn \<Rightarrow> bool" where
  "is_os_error OSError = True"
| "is_os_error PermissionError = True"
| "is_os_error TimeoutError = True"
| "is_os_error _ = False"

text \<open>\<^verbatim>\<open>type(error).__name__\<close>.\<close>

fun exn_name :: "exn \<Rightarrow> string" where
  "exn_name ValueError = ''ValueError''"
| "exn_name ValidationError = ''ValidationError''"
| "exn_name TypeError = ''TypeError''"
| "exn_name RuntimeError = ''RuntimeError''"
| "exn_name TimeoutError = ''TimeoutError''"
| "exn_name OSError = ''OSError''"
| "exn_name PermissionError = ''PermissionError''"
| "exn_name AmbiguousTarget = ''AmbiguousTarget''"
| "exn_name OwnershipNotEstablished = ''OwnershipNotEstablished''"
| "exn_name RootOuNotConfirmed = ''RootOuNotConfirmed''"
| "exn_name StaleConfirmation = ''StaleConfirmation''"
| "exn_name SelectorNotFound = ''SelectorNotFound''"
| "exn_name SelectorAmbiguous = ''SelectorAmbiguous''"
| "exn_name UnknownPageState = ''UnknownPageState''"
| "exn_name UnvalidatedUiContract = ''UnvalidatedUiContract''"
| "exn_name MutationOutcomeUnknown = ''MutationOutcomeUnknown''"
| "exn_name AuditWriteFailure = ''AuditWriteFailure''"
| "exn_name PlannerFailure = ''PlannerFailure''"
| "exn_name RunLockUnavailable = ''RunLockUnavailable''"
| "exn_name AuditRetentionFailure = ''AuditRetentionFailure''"
| "exn_name StateReadFailure = ''StateReadFailure''"
| "exn_name PlaywrightError = ''Error''"
| "exn_name KeyError = ''KeyError''"

type_synonym 'a res = "exn + 'a"

text \<open>Sequencing: a raised exception ends the routine.\<close>

definition and_then :: "'a res \<Rightarrow> ('a \<Rightarrow> 'b res) \<Rightarrow> 'b res" where
  "and_then m f = (case m of Inl e \<Rightarrow> Inl e | Inr x \<Rightarrow> f x)"

lemma and_then_simps [simp, res_simps]:
  "and_then (Inl e) f = Inl e"
  "and_then (Inr x) f = f x"
  by (simp_all add: and_then_def)

lemma and_then_Inr_iff [res_simps]:
  "and_then m f = Inr y \<longleftrightarrow> (\<exists>x. m = Inr x \<and> f x = Inr y)"
  by (cases m) auto

lemma and_then_Inl_iff [res_simps]:
  "and_then m f = Inl e \<longleftrightarrow> m = Inl e \<or> (\<exists>x. m = Inr x \<and> f x = Inl e)"
  by (cases m) auto

lemma and_thenE [elim]:
  assumes "and_then m f = Inr y"
  obtains x where "m = Inr x" and "f x = Inr y"
  using assms by (auto simp: and_then_Inr_iff)

text \<open>A loop that applies a raising body to each element, threading a state.\<close>

fun fold_res :: "('a \<Rightarrow> 's \<Rightarrow> 's res) \<Rightarrow> 'a list \<Rightarrow> 's \<Rightarrow> 's res" where
  "fold_res f [] s = Inr s"
| "fold_res f (x # xs) s = and_then (f x s) (fold_res f xs)"

lemma fold_res_append:
  "fold_res f (xs @ ys) s = and_then (fold_res f xs s) (fold_res f ys)"
  by (induction xs arbitrary: s) (auto simp: and_then_def split: sum.splits)

text \<open>An invariant of the body is an invariant of the loop.\<close>

lemma fold_res_invariant:
  assumes "fold_res f xs s = Inr t" and "P s"
    and "\<And>x s t. x \<in> set xs \<Longrightarrow> P s \<Longrightarrow> f x s = Inr t \<Longrightarrow> P t"
  shows "P t"
  using assms
proof (induction xs arbitrary: s)
  case Nil
  then show ?case by simp
next
  case (Cons x xs)
  from Cons.prems(1) obtain u where u: "f x s = Inr u" "fold_res f xs u = Inr t"
    by auto
  then have "P u" using Cons.prems(2,3) by auto
  with u(2) Cons.prems(3) show ?case by (intro Cons.IH) auto
qed

text \<open>A comprehension over a raising body.\<close>

fun map_res :: "('a \<Rightarrow> 'b res) \<Rightarrow> 'a list \<Rightarrow> 'b list res" where
  "map_res f [] = Inr []"
| "map_res f (x # xs) = and_then (f x) (\<lambda>y. and_then (map_res f xs) (\<lambda>ys. Inr (y # ys)))"

section \<open>Python strings\<close>

text \<open>\<^verbatim>\<open>str.isspace\<close> for the code points below 256.\<close>

definition py_space :: "char \<Rightarrow> bool" where
  "py_space c \<longleftrightarrow>
     (let n = (of_char c :: nat)
      in 9 \<le> n \<and> n \<le> 13 \<or> 28 \<le> n \<and> n \<le> 32 \<or> n = 133 \<or> n = 160)"

text \<open>\<^verbatim>\<open>str.strip()\<close> and \<^verbatim>\<open>str.rstrip()\<close>.\<close>

definition py_strip :: "string \<Rightarrow> string" where
  "py_strip s = rev (dropWhile py_space (rev (dropWhile py_space s)))"

definition py_rstrip :: "string \<Rightarrow> string" where
  "py_rstrip s = rev (dropWhile py_space (rev s))"

text \<open>
  \<^verbatim>\<open>str.lower\<close>: ASCII letters and the Latin-1 capitals (not the multiplication sign).
\<close>

definition py_lower_char :: "char \<Rightarrow> char" where
  "py_lower_char c =
     (let n = (of_char c :: nat)
      in if 65 \<le> n \<and> n \<le> 90 \<or> 192 \<le> n \<and> n \<le> 222 \<and> n \<noteq> 215 then char_of (n + 32) else c)"

definition py_lower :: "string \<Rightarrow> string" where
  "py_lower s = map py_lower_char s"

text \<open>
  \<^verbatim>\<open>str.casefold\<close>: as \<open>py_lower\<close>, and the sharp s becomes two letters. (The micro sign
  folds to a code point outside the range that no other character of the range folds to, so
  leaving it alone decides every comparison of folded strings the same way.)
\<close>

definition py_casefold :: "string \<Rightarrow> string" where
  "py_casefold s =
     concat (map (\<lambda>c. if c = CHR 0xDF then ''ss'' else [py_lower_char c]) s)"

text \<open>\<^verbatim>\<open>s.startswith(p)\<close>, \<^verbatim>\<open>s.endswith(p)\<close>, \<^verbatim>\<open>p in s\<close> and \<^verbatim>\<open>s.split(c)\<close>.\<close>

fun py_startswith :: "string \<Rightarrow> string \<Rightarrow> bool" where
  "py_startswith s [] = True"
| "py_startswith [] (p # ps) = False"
| "py_startswith (c # cs) (p # ps) = (c = p \<and> py_startswith cs ps)"

definition py_endswith :: "string \<Rightarrow> string \<Rightarrow> bool" where
  "py_endswith s p = py_startswith (rev s) (rev p)"

fun py_contains :: "string \<Rightarrow> string \<Rightarrow> bool" where
  "py_contains [] p = (p = [])"
| "py_contains (c # cs) p = (py_startswith (c # cs) p \<or> py_contains cs p)"

fun py_split :: "char \<Rightarrow> string \<Rightarrow> string list" where
  "py_split d [] = [[]]"
| "py_split d (c # cs) =
     (if c = d then [] # py_split d cs
      else case py_split d cs of [] \<Rightarrow> [[c]] | w # ws \<Rightarrow> (c # w) # ws)"

lemma py_startswith_iff: "py_startswith s p \<longleftrightarrow> (\<exists>r. s = p @ r)"
  by (induction s p rule: py_startswith.induct) auto

lemma py_startswith_append [simp]: "py_startswith (p @ r) p"
  by (auto simp: py_startswith_iff)

lemma py_contains_iff: "py_contains s p \<longleftrightarrow> (\<exists>a b. s = a @ p @ b)"
proof (induction s)
  case Nil
  then show ?case by auto
next
  case (Cons c cs)
  show ?case
  proof
    assume "py_contains (c # cs) p"
    then consider r where "c # cs = p @ r" | a b where "cs = a @ p @ b"
      using Cons.IH by (auto simp: py_startswith_iff simp del: py_startswith.simps)
    then show "\<exists>a b. c # cs = a @ p @ b"
    proof cases
      case 1
      then show ?thesis by (metis append_Nil)
    next
      case 2
      then show ?thesis by (metis append_Cons)
    qed
  next
    assume "\<exists>a b. c # cs = a @ p @ b"
    then obtain a b where ab: "c # cs = a @ p @ b" by blast
    show "py_contains (c # cs) p"
    proof (cases a)
      case Nil
      with ab have "py_startswith (c # cs) p" unfolding py_startswith_iff by auto
      then show ?thesis by (simp del: py_startswith.simps)
    next
      case (Cons d ds)
      with ab have "cs = ds @ p @ b" by simp
      then have "py_contains cs p" using Cons.IH \<open>cs = ds @ p @ b\<close> by blast
      then show ?thesis by simp
    qed
  qed
qed

lemma py_split_nonempty [simp]: "py_split d s \<noteq> []"
  by (cases s) (auto split: list.splits)

lemma py_split_no_sep: "w \<in> set (py_split d s) \<Longrightarrow> d \<notin> set w"
  by (induction s arbitrary: w) (auto split: if_splits list.splits)

lemma py_split_chars: "w \<in> set (py_split d s) \<Longrightarrow> set w \<subseteq> set s"
proof (induction s arbitrary: w)
  case Nil
  then show ?case by simp
next
  case (Cons c cs)
  obtain v vs where v: "py_split d cs = v # vs"
    by (cases "py_split d cs") auto
  show ?case
  proof (cases "c = d")
    case True
    with Cons show ?thesis by auto
  next
    case False
    with Cons.prems v consider "w = c # v" | "w \<in> set vs" by auto
    then show ?thesis
      using Cons.IH [of v] Cons.IH [of w] v by cases auto
  qed
qed

lemma dropWhile_idem [simp]: "dropWhile P (dropWhile P xs) = dropWhile P xs"
  by (induction xs) auto

lemma py_strip_hd: "py_strip s \<noteq> [] \<Longrightarrow> \<not> py_space (hd (py_strip s))"
proof -
  assume ne: "py_strip s \<noteq> []"
  let ?d = "dropWhile py_space s"
  have "\<exists>ys. ?d = rev (dropWhile py_space (rev ?d)) @ ys"
    by (metis append_take_drop_id dropWhile_eq_drop rev_append rev_rev_ident)
  then obtain ys where ys: "?d = py_strip s @ ys" by (auto simp: py_strip_def)
  with ne have "hd ?d = hd (py_strip s)" "?d \<noteq> []" by auto
  then show ?thesis using hd_dropWhile [of py_space s] by simp
qed

text \<open>\<^verbatim>\<open>strip\<close> is idempotent: no white space is left at either end.\<close>

lemma py_strip_idem [simp]: "py_strip (py_strip s) = py_strip s"
proof (cases "py_strip s")
  case Nil
  show ?thesis unfolding Nil by (simp add: py_strip_def)
next
  case (Cons c cs)
  then have "\<not> py_space c" using py_strip_hd [of s] by simp
  then have front: "dropWhile py_space (py_strip s) = py_strip s" using Cons by simp
  have tail: "dropWhile py_space (rev (py_strip s)) = rev (py_strip s)"
    by (simp add: py_strip_def)
  show ?thesis by (subst py_strip_def) (simp add: front tail)
qed

section \<open>Python dictionaries\<close>

text \<open>
  A dictionary is an association list in insertion order: assigning to a present key keeps
  its place, a new key goes to the end, \<^verbatim>\<open>del\<close> removes the entry.
\<close>

type_synonym ('k, 'v) dict = "('k \<times> 'v) list"

abbreviation dict_get :: "('k, 'v) dict \<Rightarrow> 'k \<Rightarrow> 'v option" where
  "dict_get d k \<equiv> map_of d k"

abbreviation dict_put :: "'k \<Rightarrow> 'v \<Rightarrow> ('k, 'v) dict \<Rightarrow> ('k, 'v) dict" where
  "dict_put k v d \<equiv> AList.update k v d"

abbreviation dict_del :: "'k \<Rightarrow> ('k, 'v) dict \<Rightarrow> ('k, 'v) dict" where
  "dict_del k d \<equiv> AList.delete k d"

abbreviation dict_keys :: "('k, 'v) dict \<Rightarrow> 'k list" where
  "dict_keys d \<equiv> map fst d"

abbreviation dict_values :: "('k, 'v) dict \<Rightarrow> 'v list" where
  "dict_values d \<equiv> map snd d"

text \<open>\<^verbatim>\<open>{key(item): item for item in items}\<close>.\<close>

definition dict_of :: "('v \<Rightarrow> 'k) \<Rightarrow> 'v list \<Rightarrow> ('k, 'v) dict" where
  "dict_of key items = fold (\<lambda>v d. dict_put (key v) v d) items []"

text \<open>A dictionary whose entries are filed under their own key.\<close>

definition keyed :: "('v \<Rightarrow> 'k) \<Rightarrow> ('k, 'v) dict \<Rightarrow> bool" where
  "keyed key d \<longleftrightarrow> distinct (dict_keys d) \<and> (\<forall>(k, v) \<in> set d. key v = k)"

lemma keyed_empty [simp, intro]: "keyed key []"
  by (simp add: keyed_def)

lemma keyed_distinct: "keyed key d \<Longrightarrow> distinct (dict_keys d)"
  by (simp add: keyed_def)

lemma set_dict_put:
  "set (dict_put k v d) \<subseteq> insert (k, v) (set d)"
  by (induction d) auto

lemma keyed_put:
  assumes "keyed key d" and "key v = k"
  shows "keyed key (dict_put k v d)"
  using assms set_dict_put [of k v d] by (auto simp: keyed_def distinct_update)

lemma keyed_del: "keyed key d \<Longrightarrow> keyed key (dict_del k d)"
  by (auto simp: keyed_def distinct_delete AList.delete_eq distinct_map_filter)

lemma keyed_dict_of: "keyed key (dict_of key items)"
proof -
  have "keyed key d \<Longrightarrow> keyed key (fold (\<lambda>v d. dict_put (key v) v d) items d)" for d
    by (induction items arbitrary: d) (auto intro: keyed_put)
  then show ?thesis by (simp add: dict_of_def)
qed

lemma keyed_get: "keyed key d \<Longrightarrow> dict_get d k = Some v \<Longrightarrow> key v = k"
  by (auto simp: keyed_def dest!: map_of_SomeD)

lemma keyed_get_value:
  "keyed key d \<Longrightarrow> v \<in> set (dict_values d) \<Longrightarrow> dict_get d (key v) = Some v"
  by (auto simp: keyed_def)

lemma keyed_values_iff:
  "keyed key d \<Longrightarrow> v \<in> set (dict_values d) \<longleftrightarrow> dict_get d (key v) = Some v"
  by (metis keyed_get_value map_of_SomeD image_eqI list.set_map snd_conv)

lemma keyed_keys_values: "keyed key d \<Longrightarrow> map key (dict_values d) = dict_keys d"
  by (induction d) (auto simp: keyed_def)

lemma keyed_distinct_values: "keyed key d \<Longrightarrow> distinct (map key (dict_values d))"
  by (simp only: keyed_keys_values keyed_distinct)

lemma keyed_distinct_value_list: "keyed key d \<Longrightarrow> distinct (dict_values d)"
  using keyed_distinct_values [of key d] unfolding distinct_map by blast

lemma dict_put_new: "k \<notin> set (dict_keys d) \<Longrightarrow> dict_put k v d = d @ [(k, v)]"
  by (induction d) auto

text \<open>On a list with distinct keys the comprehension keeps the list.\<close>

lemma dict_of_distinct:
  assumes "distinct (map key items)"
  shows "dict_of key items = map (\<lambda>v. (key v, v)) items"
proof -
  have "distinct (dict_keys d @ map key items) \<Longrightarrow>
      fold (\<lambda>v d. dict_put (key v) v d) items d = d @ map (\<lambda>v. (key v, v)) items" for d
  proof (induction items arbitrary: d)
    case Nil
    then show ?case by simp
  next
    case (Cons v vs)
    then have "dict_put (key v) v d = d @ [(key v, v)]"
      by (intro dict_put_new) auto
    with Cons show ?case by simp
  qed
  from this [of "[]"] assms show ?thesis by (simp add: dict_of_def)
qed

lemma dict_of_get: "distinct (map key items) \<Longrightarrow> v \<in> set items \<Longrightarrow> dict_get (dict_of key items) (key v) = Some v"
  by (simp add: dict_of_distinct o_def)

lemma map_res_set:
  "map_res f xs = Inr ys \<Longrightarrow> y \<in> set ys \<Longrightarrow> \<exists>x \<in> set xs. f x = Inr y"
  by (induction xs arbitrary: ys) (auto simp: res_simps)

end
