(* ===== verification/Identifiers.thy ===== *)
theory Identifiers
  imports Prelude
begin

text \<open>
  UUIDs: a 128-bit integer, its 32-digit lower-case hexadecimal form (\<^verbatim>\<open>UUID.hex\<close>) and
  its dashed form (\<^verbatim>\<open>str(uuid)\<close>). The code sorts resources by either form; the lemmas
  below show that both forms identify the UUID and that both orders are the numeric one.
\<close>

type_synonym uuid = "128 word"

definition hex_char :: "nat \<Rightarrow> char" where
  "hex_char n = (if n < 10 then char_of (48 + n) else char_of (87 + n))"

text \<open>The last \<open>k\<close> hexadecimal digits of \<open>n\<close>, most significant first.\<close>

fun hex_digits :: "nat \<Rightarrow> nat \<Rightarrow> string" where
  "hex_digits 0 n = []"
| "hex_digits (Suc k) n = hex_digits k (n div 16) @ [hex_char (n mod 16)]"

definition uuid_hex :: "uuid \<Rightarrow> string" where
  "uuid_hex u = hex_digits 32 (unat u)"

definition uuid_str :: "uuid \<Rightarrow> string" where
  "uuid_str u =
     (let h = uuid_hex u
      in take 8 h @ ''-'' @ take 4 (drop 8 h) @ ''-'' @ take 4 (drop 12 h) @ ''-'' @
         take 4 (drop 16 h) @ ''-'' @ drop 20 h)"

text \<open>\<^verbatim>\<open>ownership_id.hex[:8]\<close>.\<close>

definition short_id :: "uuid \<Rightarrow> string" where
  "short_id u = take 8 (uuid_hex u)"

section \<open>Both text forms identify the UUID\<close>

lemma length_hex_digits [simp]: "length (hex_digits k n) = k"
  by (induction k arbitrary: n) auto

lemma length_uuid_hex [simp]: "length (uuid_hex u) = 32"
  by (simp add: uuid_hex_def)

lemma of_char_hex_char:
  "n < 16 \<Longrightarrow> (of_char (hex_char n) :: nat) = (if n < 10 then 48 + n else 87 + n)"
  by (auto simp: hex_char_def)

lemma hex_char_less: "m < 16 \<Longrightarrow> n < 16 \<Longrightarrow> hex_char m < hex_char n \<longleftrightarrow> m < n"
  by (auto simp: less_char_def of_char_hex_char split: if_splits)

lemma hex_char_inj: "m < 16 \<Longrightarrow> n < 16 \<Longrightarrow> hex_char m = hex_char n \<longleftrightarrow> m = n"
  by (metis hex_char_less less_irrefl linorder_neqE_nat)

lemma append_snoc_less:
  fixes xs ys :: "'a::linorder list"
  assumes "length xs = length ys"
  shows "xs @ [a] < ys @ [b] \<longleftrightarrow> xs < ys \<or> xs = ys \<and> a < b"
  using assms by (induction xs ys rule: list_induct2) auto

lemma digit_order:
  fixes a b r s :: nat
  assumes "r < 16" and "s < 16"
  shows "a < b \<or> a = b \<and> r < s \<longleftrightarrow> 16 * a + r < 16 * b + s"
  using assms by linarith

lemma hex_digits_less:
  "m < 16 ^ k \<Longrightarrow> n < 16 ^ k \<Longrightarrow> hex_digits k m < hex_digits k n \<longleftrightarrow> m < n"
proof (induction k arbitrary: m n)
  case 0
  then show ?case by simp
next
  case (Suc k)
  have div: "m div 16 < 16 ^ k" "n div 16 < 16 ^ k"
    using Suc.prems by (simp_all add: less_mult_imp_div_less mult.commute)
  have eq: "hex_digits k (m div 16) = hex_digits k (n div 16) \<longleftrightarrow> m div 16 = n div 16"
    using Suc.IH [OF div] Suc.IH [OF div(2) div(1)] by (metis less_irrefl linorder_neqE_nat)
  have "hex_digits (Suc k) m < hex_digits (Suc k) n \<longleftrightarrow>
      m div 16 < n div 16 \<or> m div 16 = n div 16 \<and> m mod 16 < n mod 16"
    by (simp add: append_snoc_less hex_char_less Suc.IH [OF div] eq)
  also have "\<dots> \<longleftrightarrow> m < n"
    using digit_order [of "m mod 16" "n mod 16" "m div 16" "n div 16"] by simp
  finally show ?case .
qed

lemma unat_uuid: "unat (u :: uuid) < 16 ^ 32"
proof -
  have "unat u < 2 ^ LENGTH(128)" by (rule unsigned_less)
  then show ?thesis by simp
qed

text \<open>Sorting by \<^verbatim>\<open>hex\<close> is sorting by number.\<close>

lemma uuid_hex_less: "uuid_hex u < uuid_hex v \<longleftrightarrow> u < v"
  unfolding uuid_hex_def
  by (simp only: hex_digits_less [OF unat_uuid unat_uuid] word_less_nat_alt)

lemma uuid_hex_inj [simp]: "uuid_hex u = uuid_hex v \<longleftrightarrow> u = v"
  by (metis uuid_hex_less less_irrefl linorder_neq_iff)

lemma uuid_hex_le: "uuid_hex u \<le> uuid_hex v \<longleftrightarrow> u \<le> v"
  by (simp add: le_less uuid_hex_less)

lemma append_less_same_length:
  fixes xs ys :: "'a::linorder list"
  assumes "length xs = length ys"
  shows "xs @ zs < ys @ ws \<longleftrightarrow> xs < ys \<or> xs = ys \<and> zs < ws"
  using assms by (induction xs ys rule: list_induct2) auto

lemma take_drop_less:
  fixes xs ys :: "'a::linorder list"
  assumes "length xs = length ys"
  shows "xs < ys \<longleftrightarrow> take n xs < take n ys \<or> take n xs = take n ys \<and> drop n xs < drop n ys"
proof -
  have "xs < ys \<longleftrightarrow> take n xs @ drop n xs < take n ys @ drop n ys" by simp
  also have "\<dots> \<longleftrightarrow> take n xs < take n ys \<or> take n xs = take n ys \<and> drop n xs < drop n ys"
    using assms by (intro append_less_same_length) simp
  finally show ?thesis .
qed

text \<open>The dashes stand at fixed places, so they do not change the order.\<close>

lemma uuid_str_less: "uuid_str u < uuid_str v \<longleftrightarrow> u < v"
proof -
  let ?a = "uuid_hex u" and ?b = "uuid_hex v"
  have "?a < ?b \<longleftrightarrow> uuid_str u < uuid_str v"
    by (simp add: uuid_str_def Let_def append_less_same_length
        take_drop_less [of ?a ?b 8] take_drop_less [of "drop 8 ?a" "drop 8 ?b" 4]
        take_drop_less [of "drop 12 ?a" "drop 12 ?b" 4]
        take_drop_less [of "drop 16 ?a" "drop 16 ?b" 4])
  then show ?thesis by (simp add: uuid_hex_less)
qed

lemma uuid_str_inj [simp]: "uuid_str u = uuid_str v \<longleftrightarrow> u = v"
  by (metis uuid_str_less less_irrefl linorder_neq_iff)

lemma uuid_str_le: "uuid_str u \<le> uuid_str v \<longleftrightarrow> u \<le> v"
  by (simp add: le_less uuid_str_less)

section \<open>Sorting by a text form\<close>

lemma sort_key_cong_order:
  assumes "\<And>x y. x \<in> set xs \<Longrightarrow> y \<in> set xs \<Longrightarrow> f x \<le> f y \<longleftrightarrow> g x \<le> g y"
  shows "sort_key f xs = sort_key g xs"
  using assms
proof (induction xs)
  case Nil
  then show ?case by simp
next
  case (Cons x xs)
  have ins: "set ys \<subseteq> set xs \<Longrightarrow> insort_key f x ys = insort_key g x ys" for ys
    using Cons.prems by (induction ys) auto
  from Cons have "sort_key f xs = sort_key g xs" by simp
  then show ?case using ins [of "sort_key g xs"] by simp
qed

lemma sort_by_hex: "sort_key (\<lambda>x. uuid_hex (f x)) xs = sort_key f xs"
  by (rule sort_key_cong_order) (rule uuid_hex_le)

lemma sort_by_str: "sort_key (\<lambda>x. uuid_str (f x)) xs = sort_key f xs"
  by (rule sort_key_cong_order) (rule uuid_str_le)

lemma sort_uuid_str: "sort_key uuid_str xs = sort xs"
  using sort_by_str [of "\<lambda>x. x" xs] by simp

end
