(* ===== verification/Canonical_Json.thy ===== *)
theory Canonical_Json
  imports Identifiers
begin

text \<open>
  \<^verbatim>\<open>domain/hashing.py\<close>: the canonical JSON text of a model and its digest. A model enters
  as the JSON value \<^verbatim>\<open>model_dump(mode="json")\<close> gives (the \<open>dump_\<close> definitions of the
  component theories), \<^verbatim>\<open>json.dumps\<close> is written out, and the SHA-256 routine is the
  parameter \<open>H\<close> of \<open>canonical_hash\<close>. The lemmas show that \<open>json_dumps\<close> is injective,
  and that two values get the same canonical text exactly when they hold the same data up to
  the order of the sequences the code treats as unordered.
\<close>

datatype json =
    JNull
  | JBool bool
  | JInt int
  | JStr string
  | JArr "json list"
  | JObj "(string \<times> json) list"

section \<open>json.dumps\<close>

text \<open>\<^verbatim>\<open>str(int)\<close>.\<close>

fun show_nat :: "nat \<Rightarrow> string" where
  "show_nat n = (if n < 10 then [hex_char n] else show_nat (n div 10) @ [hex_char (n mod 10)])"

declare show_nat.simps [simp del]

definition show_int :: "int \<Rightarrow> string" where
  "show_int i = (if i < 0 then ''-'' @ show_nat (nat (- i)) else show_nat (nat i))"

text \<open>The escapes of \<^verbatim>\<open>json.dumps(..., ensure_ascii=False)\<close>.\<close>

definition json_escape :: "char \<Rightarrow> string" where
  "json_escape c =
     (let n = (of_char c :: nat)
      in if n = 34 then [CHR 0x5C, CHR 0x22]
         else if n = 92 then [CHR 0x5C, CHR 0x5C]
         else if n = 8 then [CHR 0x5C, CHR ''b'']
         else if n = 12 then [CHR 0x5C, CHR ''f'']
         else if n = 10 then [CHR 0x5C, CHR ''n'']
         else if n = 13 then [CHR 0x5C, CHR ''r'']
         else if n = 9 then [CHR 0x5C, CHR ''t'']
         else if n < 32 then CHR 0x5C # CHR ''u'' # hex_digits 4 n
         else [c])"

definition json_string :: "string \<Rightarrow> string" where
  "json_string s = CHR 0x22 # concat (map json_escape s) @ [CHR 0x22]"

text \<open>\<^verbatim>\<open>sep.join(items)\<close>.\<close>

fun py_join :: "string \<Rightarrow> string list \<Rightarrow> string" where
  "py_join sep [] = []"
| "py_join sep [x] = x"
| "py_join sep (x # y # ys) = x @ sep @ py_join sep (y # ys)"

text \<open>
  \<^verbatim>\<open>json.dumps(value, ensure_ascii=False, sort_keys=True, separators=(a, k))\<close>; the
  rendered members are sorted by key.
\<close>

fun json_dumps :: "string \<Rightarrow> string \<Rightarrow> json \<Rightarrow> string" where
  "json_dumps a k JNull = ''null''"
| "json_dumps a k (JBool b) = (if b then ''true'' else ''false'')"
| "json_dumps a k (JInt i) = show_int i"
| "json_dumps a k (JStr s) = json_string s"
| "json_dumps a k (JArr xs) = ''['' @ py_join a (map (json_dumps a k) xs) @ '']''"
| "json_dumps a k (JObj kvs) =
     ''{'' @ py_join a (map (\<lambda>(key, text). json_string key @ k @ text)
        (sort_key fst (map (\<lambda>(key, v). (key, json_dumps a k v)) kvs))) @ ''}''"

text \<open>
  The text of a value with its members in the order of the model's fields, as
  \<^verbatim>\<open>model_dump_json()\<close> writes it (with the separators \<^verbatim>\<open>","\<close> and \<^verbatim>\<open>":"\<close>).
\<close>

fun json_render :: "string \<Rightarrow> string \<Rightarrow> json \<Rightarrow> string" where
  "json_render a k JNull = ''null''"
| "json_render a k (JBool b) = (if b then ''true'' else ''false'')"
| "json_render a k (JInt i) = show_int i"
| "json_render a k (JStr s) = json_string s"
| "json_render a k (JArr xs) = ''['' @ py_join a (map (json_render a k) xs) @ '']''"
| "json_render a k (JObj kvs) =
     ''{'' @ py_join a (map (\<lambda>(key, v). json_string key @ k @ json_render a k v) kvs) @ ''}''"

definition model_json :: "json \<Rightarrow> string" where
  "model_json v = json_render '','' '':'' v"

text \<open>The separators \<^verbatim>\<open>json.dumps\<close> uses when none are given.\<close>

abbreviation json_default :: "json \<Rightarrow> string" where
  "json_default \<equiv> json_dumps '', '' '': ''"

section \<open>Canonical form\<close>

text \<open>
  \<^verbatim>\<open>_canonicalize\<close>: members sorted by key, sequences sorted by their default JSON text,
  except the value of a member named \<^verbatim>\<open>actions\<close>, which keeps its order. (NFC
  normalisation is the identity on code points below 256.)
\<close>

fun canonicalize :: "bool \<Rightarrow> json \<Rightarrow> json" where
  "canonicalize preserve (JObj kvs) =
     JObj (sort_key fst (map (\<lambda>(key, v). (key, canonicalize (key = ''actions'') v)) kvs))"
| "canonicalize preserve (JArr xs) =
     (let items = map (canonicalize False) xs
      in JArr (if preserve then items else sort_key json_default items))"
| "canonicalize preserve v = v"

definition canonical_json :: "json \<Rightarrow> string" where
  "canonical_json v = json_dumps '','' '':'' (canonicalize False v)"

text \<open>\<open>H\<close> is \<^verbatim>\<open>hashlib.sha256(text.encode("utf-8")).hexdigest()\<close>.\<close>

definition canonical_hash :: "(string \<Rightarrow> string) \<Rightarrow> json \<Rightarrow> string" where
  "canonical_hash H v = H (canonical_json v)"

section \<open>The text determines the value\<close>

definition is_digit_char :: "char \<Rightarrow> bool" where
  "is_digit_char c \<longleftrightarrow> (let n = (of_char c :: nat) in 48 \<le> n \<and> n \<le> 57)"

lemma digit_hex_char: "n < 10 \<Longrightarrow> is_digit_char (hex_char n)"
  by (simp add: is_digit_char_def of_char_hex_char)

lemma show_nat_digits: "\<forall>c \<in> set (show_nat n). is_digit_char c"
proof (induction n rule: show_nat.induct)
  case (1 n)
  show ?case
    using "1.IH" by (subst show_nat.simps) (auto simp: digit_hex_char)
qed

lemma show_nat_nonempty [simp]: "show_nat n \<noteq> []"
  by (subst show_nat.simps) simp

lemma show_nat_inj: "show_nat m = show_nat n \<Longrightarrow> m = n"
proof (induction m arbitrary: n rule: show_nat.induct)
  case (1 m)
  have len: "length (show_nat p) = 1 \<longleftrightarrow> p < 10" for p
    by (subst show_nat.simps) auto
  have iff: "m < 10 \<longleftrightarrow> n < 10" using len "1.prems" by metis
  show ?case
  proof (cases "m < 10")
    case True
    with iff "1.prems" show ?thesis
      by (simp add: show_nat.simps [of m] show_nat.simps [of n] hex_char_inj)
  next
    case False
    with iff "1.prems" have eqs: "show_nat (m div 10) = show_nat (n div 10)"
        "hex_char (m mod 10) = hex_char (n mod 10)"
      by (simp_all add: show_nat.simps [of m] show_nat.simps [of n])
    have "m mod 10 < 10" "n mod 10 < 10" by simp_all
    with eqs(2) have "m mod 10 = n mod 10"
      using hex_char_inj [of "m mod 10" "n mod 10"] by linarith
    moreover have "m div 10 = n div 10" using "1.IH" False eqs(1) by blast
    ultimately show ?thesis by (metis div_mult_mod_eq)
  qed
qed

text \<open>A text after a value starts with a comma or a closing bracket, or is empty.\<close>

definition stop :: "string \<Rightarrow> bool" where
  "stop s \<longleftrightarrow> s = [] \<or> hd s \<in> {CHR '','', CHR '']'', CHR ''}''}"

lemma stop_simps [simp]:
  "stop []" "stop (c # s) \<longleftrightarrow> c \<in> {CHR '','', CHR '']'', CHR ''}''}"
  by (simp_all add: stop_def)

lemma stop_not_digit: "stop s \<Longrightarrow> s = [] \<or> \<not> is_digit_char (hd s)"
  by (auto simp: stop_def is_digit_char_def)

lemma takeWhile_digits:
  "stop s \<Longrightarrow> takeWhile is_digit_char (show_nat n @ s) = show_nat n"
  using show_nat_digits [of n] stop_not_digit [of s]
  by (cases s) (auto simp: takeWhile_append)

lemma show_nat_stop:
  assumes "show_nat m @ s = show_nat n @ t" and "stop s" and "stop t"
  shows "m = n \<and> s = t"
proof -
  have "show_nat m = show_nat n" using takeWhile_digits assms by metis
  with assms(1) show ?thesis using show_nat_inj by simp
qed

lemma hd_show_nat: "is_digit_char (hd (show_nat n))"
  using show_nat_digits [of n] by simp

lemma show_nat_not_minus: "show_nat n @ s \<noteq> CHR ''-'' # t"
proof
  assume "show_nat n @ s = CHR ''-'' # t"
  then have "hd (show_nat n) = CHR ''-''" by (cases "show_nat n") auto
  then show False using hd_show_nat [of n] by (simp add: is_digit_char_def)
qed

lemma show_int_stop:
  assumes "show_int i @ s = show_int j @ t" and "stop s" and "stop t"
  shows "i = j \<and> s = t"
proof (cases "i < 0"; cases "j < 0")
  assume neg: "i < 0" "j < 0"
  with assms(1) have "show_nat (nat (- i)) @ s = show_nat (nat (- j)) @ t"
    by (simp add: show_int_def)
  then have "nat (- i) = nat (- j) \<and> s = t" using assms(2,3) by (rule show_nat_stop)
  with neg show ?thesis by linarith
next
  assume "i < 0" "\<not> j < 0"
  with assms(1) have "show_nat (nat j) @ t = CHR ''-'' # show_nat (nat (- i)) @ s"
    by (simp add: show_int_def)
  then show ?thesis using show_nat_not_minus by blast
next
  assume "\<not> i < 0" "j < 0"
  with assms(1) have "show_nat (nat i) @ s = CHR ''-'' # show_nat (nat (- j)) @ t"
    by (simp add: show_int_def)
  then show ?thesis using show_nat_not_minus by blast
next
  assume pos: "\<not> i < 0" "\<not> j < 0"
  with assms(1) have "show_nat (nat i) @ s = show_nat (nat j) @ t"
    by (simp add: show_int_def)
  then have "nat i = nat j \<and> s = t" using assms(2,3) by (rule show_nat_stop)
  with pos show ?thesis by linarith
qed

lemma json_escape_hd:
  "json_escape c \<noteq> []" "hd (json_escape c) \<noteq> CHR 0x22"
  by (auto simp: json_escape_def Let_def)

text \<open>The first two characters of an escape fix its length.\<close>

definition escape_length :: "string \<Rightarrow> nat" where
  "escape_length s =
     (if hd s \<noteq> CHR 0x5C then 1 else if hd (tl s) = CHR ''u'' then 6 else 2)"

lemma escape_length_append:
  "escape_length (json_escape c @ x) = length (json_escape c)"
  by (auto simp: escape_length_def json_escape_def Let_def)

lemma hex4_inj:
  assumes "m < 32" and "n < 32" and "hex_digits 4 m = hex_digits 4 n"
  shows "m = n"
proof -
  have "m < 16 ^ 4" "n < 16 ^ 4" using assms by simp_all
  then show ?thesis
    using assms(3) hex_digits_less [of m 4 n] hex_digits_less [of n 4 m]
    by (metis less_irrefl linorder_neqE_nat)
qed

lemma of_char_cong: "(of_char c :: nat) = n \<Longrightarrow> (of_char d :: nat) = n \<Longrightarrow> c = d"
  by (metis char_of_char)

lemma json_escape_inj:
  assumes "json_escape c = json_escape d"
  shows "c = d"
proof -
  let ?m = "of_char c :: nat" and ?n = "of_char d :: nat"
  consider "?m = ?n" | "?m < 32" "?n < 32" "hex_digits 4 ?m = hex_digits 4 ?n"
    using assms by (auto simp: json_escape_def Let_def split: if_splits intro: of_char_cong)
  then have "?m = ?n" using hex4_inj by cases blast+
  then show ?thesis by simp
qed

lemma json_escape_append:
  assumes "json_escape c @ x = json_escape d @ y"
  shows "c = d \<and> x = y"
proof -
  have "length (json_escape c) = length (json_escape d)"
    using escape_length_append assms by metis
  with assms have "json_escape c = json_escape d" "x = y" by simp_all
  then show ?thesis using json_escape_inj by simp
qed

lemma escapes_quote:
  "concat (map json_escape s) @ CHR 0x22 # x = concat (map json_escape t) @ CHR 0x22 # y
    \<Longrightarrow> s = t \<and> x = y"
proof (induction s arbitrary: t)
  case Nil
  show ?case
  proof (cases t)
    case Nil
    with Nil.prems show ?thesis by simp
  next
    case (Cons d t')
    with Nil.prems have "hd (json_escape d) = CHR 0x22"
      using json_escape_hd(1) [of d] by (cases "json_escape d") auto
    then show ?thesis using json_escape_hd(2) by blast
  qed
next
  case (Cons c s)
  show ?case
  proof (cases t)
    case Nil
    with Cons.prems have "hd (json_escape c) = CHR 0x22"
      using json_escape_hd(1) [of c] by (cases "json_escape c") auto
    then show ?thesis using json_escape_hd(2) by blast
  next
    case (Cons d t')
    with Cons.prems have "json_escape c @ concat (map json_escape s) @ CHR 0x22 # x =
        json_escape d @ concat (map json_escape t') @ CHR 0x22 # y" by simp
    then have "c = d" "concat (map json_escape s) @ CHR 0x22 # x =
        concat (map json_escape t') @ CHR 0x22 # y"
      using json_escape_append by blast+
    with Cons Cons.IH show ?thesis by blast
  qed
qed

lemma json_string_append:
  assumes "json_string s @ x = json_string t @ y"
  shows "s = t \<and> x = y"
proof -
  from assms have "concat (map json_escape s) @ CHR 0x22 # x =
      concat (map json_escape t) @ CHR 0x22 # y"
    by (simp add: json_string_def)
  then show ?thesis by (rule escapes_quote)
qed

section \<open>json.dumps is injective\<close>

text \<open>Values whose members are sorted by distinct keys, as canonical values are.\<close>

fun sorted_members :: "json \<Rightarrow> bool" where
  "sorted_members (JArr xs) = list_all sorted_members xs"
| "sorted_members (JObj kvs) =
     (sorted (map fst kvs) \<and> distinct (map fst kvs) \<and> list_all (\<lambda>(k, v). sorted_members v) kvs)"
| "sorted_members _ = True"

text \<open>Each constructor is recognised by the first character of its text.\<close>

fun json_kind :: "json \<Rightarrow> nat" where
  "json_kind JNull = 0"
| "json_kind (JBool b) = (if b then 1 else 2)"
| "json_kind (JInt i) = 3"
| "json_kind (JStr s) = 4"
| "json_kind (JArr xs) = 5"
| "json_kind (JObj kvs) = 6"

definition kind_of_char :: "char \<Rightarrow> nat" where
  "kind_of_char c =
     (if c = CHR ''n'' then 0 else if c = CHR ''t'' then 1 else if c = CHR ''f'' then 2
      else if c = CHR 0x22 then 4 else if c = CHR ''['' then 5 else if c = CHR ''{'' then 6
      else if is_digit_char c \<or> c = CHR ''-'' then 3 else 7)"

lemma kind_of_digit: "is_digit_char c \<Longrightarrow> kind_of_char c = 3"
  by (auto simp: kind_of_char_def is_digit_char_def)

lemma show_int_hd: "show_int i \<noteq> [] \<and> kind_of_char (hd (show_int i)) = 3"
  using kind_of_digit [OF hd_show_nat]
  by (auto simp: show_int_def) (simp add: kind_of_char_def)

lemma json_render_hd: "json_render a k v \<noteq> [] \<and> kind_of_char (hd (json_render a k v)) = json_kind v"
  using show_int_hd by (cases v) (auto simp: kind_of_char_def json_string_def)

lemma json_render_kind:
  assumes "json_render a k v @ s = json_render a k w @ t"
  shows "json_kind v = json_kind w"
  using assms json_render_hd [of a k v] json_render_hd [of a k w]
  by (metis hd_append2)

lemma json_render_not_close:
  "json_render a k v @ s \<noteq> CHR '']'' # t" "json_string key @ s \<noteq> CHR ''}'' # t"
proof -
  show "json_render a k v @ s \<noteq> CHR '']'' # t"
  proof
    assume "json_render a k v @ s = CHR '']'' # t"
    then have "hd (json_render a k v) = CHR '']''"
      using json_render_hd [of a k v] by (metis hd_append2 list.sel(1))
    then have "json_kind v = 7"
      using json_render_hd [of a k v] by (simp add: kind_of_char_def is_digit_char_def)
    then show False by (cases v) (auto split: if_splits)
  qed
  show "json_string key @ s \<noteq> CHR ''}'' # t"
    by (simp add: json_string_def)
qed

text \<open>
  A list of rendered elements: if each element's text and what follows it determine the
  element, the joined text up to its closing bracket determines the list.
\<close>

lemma py_join_Cons:
  "py_join sep (x # xs) = x @ concat (map (\<lambda>y. sep @ y) xs)"
  by (induction xs arbitrary: x) auto

lemma stop_tail:
  "c \<in> {CHR '']'', CHR ''}''} \<Longrightarrow> stop (concat (map (\<lambda>z. (CHR '','' # a) @ d z) zs) @ c # r)"
  by (cases zs) auto

lemma joined_tail_inj:
  assumes "\<forall>x \<in> set xs. \<forall>y \<in> set ys. \<forall>s t. stop s \<longrightarrow> stop t \<longrightarrow> d x @ s = d y @ t \<longrightarrow> x = y \<and> s = t"
    and "concat (map (\<lambda>x. (CHR '','' # a) @ d x) xs) @ c # s =
         concat (map (\<lambda>y. (CHR '','' # a) @ d y) ys) @ c # t"
    and "c \<in> {CHR '']'', CHR ''}''}"
  shows "xs = ys \<and> s = t"
  using assms
proof (induction xs arbitrary: ys)
  case Nil
  then show ?case by (cases ys) auto
next
  case (Cons x xs)
  show ?case
  proof (cases ys)
    case Nil
    with Cons.prems show ?thesis by auto
  next
    case ys: (Cons y ys')
    let ?tail = "\<lambda>zs r. concat (map (\<lambda>z. (CHR '','' # a) @ d z) zs) @ c # r"
    have stops: "stop (?tail xs s)" "stop (?tail ys' t)"
      using Cons.prems(3) by (rule stop_tail)+
    from Cons.prems(2) ys have "d x @ ?tail xs s = d y @ ?tail ys' t" by simp
    with Cons.prems(1) stops ys have "x = y" "?tail xs s = ?tail ys' t" by auto
    moreover have "xs = ys' \<and> s = t"
    proof (rule Cons.IH)
      show "\<forall>x \<in> set xs. \<forall>y \<in> set ys'. \<forall>s t. stop s \<longrightarrow> stop t \<longrightarrow> d x @ s = d y @ t \<longrightarrow> x = y \<and> s = t"
        using Cons.prems(1) ys by simp
    qed (use calculation Cons.prems(3) in auto)
    ultimately show ?thesis using ys by simp
  qed
qed

lemma joined_inj:
  assumes el: "\<forall>x \<in> set xs. \<forall>y \<in> set ys. \<forall>s t. stop s \<longrightarrow> stop t \<longrightarrow> d x @ s = d y @ t \<longrightarrow> x = y \<and> s = t"
    and eq: "py_join (CHR '','' # a) (map d xs) @ c # s = py_join (CHR '','' # a) (map d ys) @ c # t"
    and c: "c \<in> {CHR '']'', CHR ''}''}"
    and open_x: "\<And>x r r'. d x @ r \<noteq> c # r'"
  shows "xs = ys \<and> s = t"
proof (cases xs)
  case Nil
  with eq open_x show ?thesis
    by (cases ys) (auto simp: py_join_Cons simp del: py_join.simps(2,3), metis)
next
  case x: (Cons x xs')
  show ?thesis
  proof (cases ys)
    case Nil
    with eq x open_x show ?thesis
      by (auto simp: py_join_Cons simp del: py_join.simps(2,3))
  next
    case y: (Cons y ys')
    let ?tail = "\<lambda>zs r. concat (map (\<lambda>z. (CHR '','' # a) @ d z) zs) @ c # r"
    have stops: "stop (?tail xs' s)" "stop (?tail ys' t)"
      using c by (rule stop_tail)+
    from eq x y have "d x @ ?tail xs' s = d y @ ?tail ys' t"
      by (simp add: py_join_Cons comp_def del: py_join.simps(2,3))
    with el stops x y have "x = y" and tails: "?tail xs' s = ?tail ys' t" by auto
    moreover have "xs' = ys' \<and> s = t"
      by (rule joined_tail_inj [OF _ tails c]) (use el x y in simp)
    ultimately show ?thesis using x y by simp
  qed
qed


definition member_text :: "string \<Rightarrow> string \<Rightarrow> string \<times> json \<Rightarrow> string" where
  "member_text a k m = json_string (fst m) @ k @ json_render a k (snd m)"

lemma json_render_object:
  "json_render a k (JObj kvs) = ''{'' @ py_join a (map (member_text a k) kvs) @ ''}''"
  by (simp add: member_text_def [abs_def] case_prod_unfold comp_def)

theorem json_render_inj:
  assumes "json_render (CHR '','' # a) k v @ s = json_render (CHR '','' # a) k w @ t"
    and "stop s" and "stop t"
  shows "v = w \<and> s = t"
  using assms
proof (induction v arbitrary: w s t)
  case JNull
  then have "json_kind w = 0" using json_render_kind [OF JNull.prems(1)] by simp
  then have "w = JNull" by (cases w) (auto split: if_splits)
  with JNull.prems(1) show ?case by simp
next
  case (JBool b)
  then have "json_kind w = (if b then 1 else 2)" using json_render_kind [OF JBool.prems(1)] by simp
  then have "w = JBool b" by (cases w) (auto split: if_splits)
  with JBool.prems(1) show ?case by (simp split: if_splits)
next
  case (JInt i)
  then have "json_kind w = 3" using json_render_kind [OF JInt.prems(1)] by simp
  then obtain j where w: "w = JInt j" by (cases w) (auto split: if_splits)
  with JInt.prems(1) have "show_int i @ s = show_int j @ t" by simp
  then show ?case using show_int_stop JInt.prems(2,3) w by blast
next
  case (JStr x)
  then have "json_kind w = 4" using json_render_kind [OF JStr.prems(1)] by simp
  then obtain y where w: "w = JStr y" by (cases w) (auto split: if_splits)
  with JStr.prems(1) have "json_string x @ s = json_string y @ t" by simp
  then show ?case using json_string_append w by blast
next
  case (JArr xs)
  then have "json_kind w = 5" using json_render_kind [OF JArr.prems(1)] by simp
  then obtain ys where w: "w = JArr ys" by (cases w) (auto split: if_splits)
  have "xs = ys \<and> s = t"
  proof (rule joined_inj [where d = "json_render (CHR '','' # a) k" and c = "CHR '']''" and a = a])
    show "\<forall>x \<in> set xs. \<forall>y \<in> set ys. \<forall>s t. stop s \<longrightarrow> stop t \<longrightarrow>
        json_render (CHR '','' # a) k x @ s = json_render (CHR '','' # a) k y @ t \<longrightarrow> x = y \<and> s = t"
      using JArr.IH w by auto
    show "py_join (CHR '','' # a) (map (json_render (CHR '','' # a) k) xs) @ CHR '']'' # s =
        py_join (CHR '','' # a) (map (json_render (CHR '','' # a) k) ys) @ CHR '']'' # t"
      using JArr.prems(1) w by simp
  qed (use json_render_not_close(1) in auto)
  with w show ?case by simp
next
  case (JObj kvs)
  then have "json_kind w = 6" using json_render_kind [OF JObj.prems(1)] by simp
  then obtain mvs where w: "w = JObj mvs" by (cases w) (auto split: if_splits)
  have "kvs = mvs \<and> s = t"
  proof (rule joined_inj [where d = "member_text (CHR '','' # a) k" and c = "CHR ''}''" and a = a])
    show "\<forall>x \<in> set kvs. \<forall>y \<in> set mvs. \<forall>s t. stop s \<longrightarrow> stop t \<longrightarrow>
        member_text (CHR '','' # a) k x @ s = member_text (CHR '','' # a) k y @ t \<longrightarrow> x = y \<and> s = t"
    proof (intro ballI allI impI)
      fix x y s' t'
      assume xy: "x \<in> set kvs" "y \<in> set mvs" "stop s'" "stop t'"
        and eq: "member_text (CHR '','' # a) k x @ s' = member_text (CHR '','' # a) k y @ t'"
      from eq have "json_string (fst x) @ k @ json_render (CHR '','' # a) k (snd x) @ s' =
          json_string (fst y) @ k @ json_render (CHR '','' # a) k (snd y) @ t'"
        by (simp add: member_text_def)
      then have "fst x = fst y \<and> k @ json_render (CHR '','' # a) k (snd x) @ s' =
          k @ json_render (CHR '','' # a) k (snd y) @ t'"
        by (rule json_string_append)
      then have key: "fst x = fst y" and
        val: "json_render (CHR '','' # a) k (snd x) @ s' = json_render (CHR '','' # a) k (snd y) @ t'"
        by simp_all
      have "snd x \<in> Basic_BNFs.snds x" by (cases x) simp
      then have "snd x = snd y \<and> s' = t'"
        using val xy(3,4) by (intro JObj.IH [OF xy(1)])
      with key show "x = y \<and> s' = t'" by (simp add: prod_eq_iff)
    qed
    show "py_join (CHR '','' # a) (map (member_text (CHR '','' # a) k) kvs) @ CHR ''}'' # s =
        py_join (CHR '','' # a) (map (member_text (CHR '','' # a) k) mvs) @ CHR ''}'' # t"
      using JObj.prems(1) w by (simp add: json_render_object del: json_render.simps(6))
    show "member_text (CHR '','' # a) k x @ r \<noteq> CHR ''}'' # r'" for x r r'
      using json_render_not_close(2) by (simp add: member_text_def)
  qed auto
  with w show ?case by simp
qed

text \<open>On sorted members the sort of \<^verbatim>\<open>sort_keys=True\<close> does nothing.\<close>

lemma json_dumps_render: "sorted_members v \<Longrightarrow> json_dumps a k v = json_render a k v"
proof (induction v)
  case (JArr xs)
  then have "map (json_dumps a k) xs = map (json_render a k) xs" by (auto simp: list_all_iff)
  then show ?case by (simp only: json_dumps.simps json_render.simps)
next
  case (JObj kvs)
  have same: "json_dumps a k (snd m) = json_render a k (snd m)" if "m \<in> set kvs" for m
  proof -
    have "snd m \<in> Basic_BNFs.snds m" by (cases m) simp
    moreover have "sorted_members (snd m)" using JObj.prems that by (auto simp: list_all_iff)
    ultimately show ?thesis using JObj.IH [OF that] by blast
  qed
  have "sort_key fst (map (\<lambda>(key, v). (key, json_dumps a k v)) kvs) =
      map (\<lambda>(key, v). (key, json_dumps a k v)) kvs"
    using JObj.prems by (intro sort_key_id_if_sorted) (simp add: comp_def case_prod_unfold)
  then show ?case using same by (simp add: comp_def case_prod_unfold cong: map_cong)
qed auto

theorem json_dumps_inj:
  assumes "sorted_members v" and "sorted_members w"
    and "json_dumps (CHR '','' # a) k v @ s = json_dumps (CHR '','' # a) k w @ t"
    and "stop s" and "stop t"
  shows "v = w \<and> s = t"
  using json_render_inj assms(3-5) unfolding json_dumps_render [OF assms(1)] json_dumps_render [OF assms(2)]
  by blast

lemma model_json_inj [simp]: "model_json v = model_json w \<longleftrightarrow> v = w"
  using json_render_inj [of "[]" "'':''" v "[]" w "[]"] by (auto simp: model_json_def)

section \<open>Canonical equality is equality of the data\<close>

text \<open>Every object of the value has distinct member names, as a dump has.\<close>

fun wf_json :: "json \<Rightarrow> bool" where
  "wf_json (JArr xs) = list_all wf_json xs"
| "wf_json (JObj kvs) = (distinct (map fst kvs) \<and> list_all (\<lambda>(k, v). wf_json v) kvs)"
| "wf_json _ = True"

text \<open>
  The specification of canonical equality: equal values, with members in any order and, but
  for the sequence of a member named \<^verbatim>\<open>actions\<close>, sequences in any order.
\<close>

inductive same_data :: "bool \<Rightarrow> json \<Rightarrow> json \<Rightarrow> bool" where
  null: "same_data p JNull JNull"
| bool: "same_data p (JBool b) (JBool b)"
| int: "same_data p (JInt i) (JInt i)"
| str: "same_data p (JStr s) (JStr s)"
| ordered: "list_all2 (same_data False) xs ys \<Longrightarrow> same_data True (JArr xs) (JArr ys)"
| unordered: "mset zs = mset ys \<Longrightarrow> list_all2 (same_data False) xs zs \<Longrightarrow>
    same_data False (JArr xs) (JArr ys)"
| members: "mset nvs = mset mvs \<Longrightarrow>
    list_all2 (\<lambda>x y. fst x = fst y \<and> same_data (fst x = ''actions'') (snd x) (snd y)) kvs nvs \<Longrightarrow>
    same_data p (JObj kvs) (JObj mvs)"

lemma wf_json_perm:
  "mset xs = mset ys \<Longrightarrow> list_all P xs \<longleftrightarrow> list_all P ys"
  by (metis list_all_iff set_mset_mset)

lemma distinct_perm_map:
  "mset xs = mset ys \<Longrightarrow> distinct (map f xs) \<longleftrightarrow> distinct (map f ys)"
  by (metis mset_eq_imp_distinct_iff mset_map)

lemma set_sort_members:
  "set (sort_key fst (map (\<lambda>(k, v). (k, f k v)) kvs)) = (\<lambda>(k, v). (k, f k v)) ` set kvs"
  by simp

lemma map_insort_key: "map f (insort_key f x xs) = insort (f x) (map f xs)"
  by (induction xs) auto

lemma map_sort_key: "map f (sort_key f xs) = sort (map f xs)"
  by (induction xs) (auto simp: map_insort_key)


text \<open>Canonical values have their members sorted, so their text determines them.\<close>

lemma sorted_members_canonicalize: "wf_json v \<Longrightarrow> sorted_members (canonicalize p v)"
proof (induction p v rule: canonicalize.induct)
  case (1 p kvs)
  let ?f = "\<lambda>(key, v). (key, canonicalize (key = ''actions'') v)"
  have keys: "map fst (map ?f kvs) = map fst kvs" by auto
  have "map fst (sort_key fst (map ?f kvs)) = sort (map fst kvs)"
    unfolding map_sort_key keys ..
  moreover have "list_all (\<lambda>(k, v). sorted_members v) (sort_key fst (map ?f kvs))"
    using 1 by (fastforce simp: list_all_iff)
  ultimately show ?case using "1.prems" by simp
next
  case (2 p xs)
  then show ?case by (auto simp: Let_def list_all_iff)
qed auto

lemma json_dumps_eq:
  "sorted_members v \<Longrightarrow> sorted_members w \<Longrightarrow>
    json_dumps (CHR '','' # a) k v = json_dumps (CHR '','' # a) k w \<longleftrightarrow> v = w"
  using json_dumps_inj [of v w a k "[]" "[]"] by auto

lemma canonical_json_eq:
  "wf_json v \<Longrightarrow> wf_json w \<Longrightarrow>
    canonical_json v = canonical_json w \<longleftrightarrow> canonicalize False v = canonicalize False w"
  by (simp add: canonical_json_def json_dumps_eq sorted_members_canonicalize)

lemma sort_key_perm:
  assumes "mset xs = mset ys" and "inj_on f (set xs)"
  shows "sort_key f xs = sort_key f ys"
  using assms by (intro sort_key_inj_key_eq) simp_all


abbreviation canonical_member :: "string \<times> json \<Rightarrow> string \<times> json" where
  "canonical_member \<equiv> \<lambda>(key, v). (key, canonicalize (key = ''actions'') v)"

lemma map_eq_list_all2: "map f xs = map f ys \<longleftrightarrow> list_all2 (\<lambda>x y. f x = f y) xs ys"
  by (simp add: list_all2_conv_all_nth list_eq_iff_nth_eq) (metis nth_map length_map)

text \<open>Lists with the same images up to order: one is a permutation aligned with the other.\<close>

lemma mset_map_align:
  "mset (map f xs) = mset (map f ys) \<Longrightarrow> \<exists>zs. mset zs = mset ys \<and> map f xs = map f zs"
proof (induction xs arbitrary: ys)
  case Nil
  then show ?case by simp
next
  case (Cons x xs)
  then have "f x \<in> set (map f ys)" by (metis list.set_intros(1) list.simps(9) mset_eq_setD)
  then obtain y where y: "y \<in> set ys" "f y = f x" by auto
  then obtain as bs where ys: "ys = as @ y # bs" by (meson split_list)
  with Cons.prems y have "mset (map f xs) = mset (map f (as @ bs))" by simp
  from Cons.IH [OF this] obtain zs where "mset zs = mset (as @ bs)" "map f xs = map f zs" by blast
  with y ys have "mset (y # zs) = mset ys" "map f (x # xs) = map f (y # zs)" by simp_all
  then show ?case by blast
qed

lemma inj_json_default:
  "list_all wf_json xs \<Longrightarrow> inj_on json_default (set (map (canonicalize False) xs))"
  by (rule inj_onI) (auto simp: json_dumps_eq list_all_iff sorted_members_canonicalize)

lemma inj_fst_members:
  assumes "distinct (map fst kvs)"
  shows "inj_on fst (set (map canonical_member kvs))"
proof -
  have "map fst (map canonical_member kvs) = map fst kvs" by auto
  with assms have "distinct (map fst (map canonical_member kvs))" by (simp only:)
  then show ?thesis by (simp only: distinct_map)
qed

lemma same_data_canonicalize:
  "same_data p v w \<Longrightarrow> wf_json v \<Longrightarrow> wf_json w \<Longrightarrow> canonicalize p v = canonicalize p w"
proof (induction rule: same_data.induct)
  case (ordered xs ys)
  then have "map (canonicalize False) xs = map (canonicalize False) ys"
    by (auto simp: map_eq_list_all2 list_all_iff elim!: list.rel_mono_strong)
  then show ?case by (simp add: Let_def)
next
  case (unordered zs ys xs)
  then have "list_all wf_json zs" by (simp add: wf_json_perm [of zs ys])
  with unordered have eq: "map (canonicalize False) xs = map (canonicalize False) zs"
    by (auto simp: map_eq_list_all2 list_all_iff elim!: list.rel_mono_strong)
  have "sort_key json_default (map (canonicalize False) xs) =
      sort_key json_default (map (canonicalize False) ys)"
  proof (rule sort_key_perm)
    show "mset (map (canonicalize False) xs) = mset (map (canonicalize False) ys)"
      using eq unordered.hyps by simp
    show "inj_on json_default (set (map (canonicalize False) xs))"
      using unordered.prems(1) by (intro inj_json_default) simp
  qed
  then show ?case by (simp add: Let_def)
next
  case (members nvs mvs kvs p)
  have wf: "list_all (\<lambda>(k, v). wf_json v) nvs"
    using members.prems(2) members.hyps wf_json_perm [of nvs mvs] by simp
  have "list_all2 (\<lambda>x y. canonical_member x = canonical_member y) kvs nvs"
    using members.IH
  proof (rule list.rel_mono_strong)
    fix x y assume "x \<in> set kvs" "y \<in> set nvs"
    then show "fst x = fst y \<and> same_data (fst x = ''actions'') (snd x) (snd y) \<and>
        (wf_json (snd x) \<longrightarrow> wf_json (snd y) \<longrightarrow>
          canonicalize (fst x = ''actions'') (snd x) = canonicalize (fst x = ''actions'') (snd y))
        \<Longrightarrow> canonical_member x = canonical_member y"
      using wf members.prems(1) by (cases x; cases y) (auto simp: list_all_iff)
  qed
  then have eq: "map canonical_member kvs = map canonical_member nvs"
    by (simp only: map_eq_list_all2)
  have "sort_key fst (map canonical_member kvs) = sort_key fst (map canonical_member mvs)"
  proof (rule sort_key_perm)
    show "mset (map canonical_member kvs) = mset (map canonical_member mvs)"
      using eq members.hyps by (simp del: mset_map) (simp only: mset_map)
    show "inj_on fst (set (map canonical_member kvs))"
      using members.prems(1) by (intro inj_fst_members) simp
  qed
  then show ?case by simp
qed auto


lemma canonicalize_shape:
  "canonicalize p v = canonicalize p w \<Longrightarrow> json_kind v = json_kind w"
  by (cases v; cases w) (auto simp: Let_def)

lemma canonicalize_same_data:
  "canonicalize p v = canonicalize p w \<Longrightarrow> same_data p v w"
proof (induction v arbitrary: p w)
  case JNull
  then show ?case by (cases w) (auto simp: Let_def intro: same_data.intros)
next
  case (JBool b)
  then show ?case by (cases w) (auto simp: Let_def intro: same_data.intros)
next
  case (JInt i)
  then show ?case by (cases w) (auto simp: Let_def intro: same_data.intros)
next
  case (JStr s)
  then show ?case by (cases w) (auto simp: Let_def intro: same_data.intros)
next
  case (JArr xs)
  from canonicalize_shape [OF JArr.prems] obtain ys where w: "w = JArr ys"
    by (cases w) (auto split: if_splits)
  have step: "list_all2 (same_data False) xs zs"
    if "map (canonicalize False) xs = map (canonicalize False) zs" for zs
    using that unfolding map_eq_list_all2
    by (rule list.rel_mono_strong) (use JArr.IH in blast)
  show ?case
  proof (cases p)
    case True
    with JArr.prems w have "map (canonicalize False) xs = map (canonicalize False) ys"
      by (simp add: Let_def)
    then show ?thesis using True w step by (auto intro: same_data.ordered)
  next
    case False
    with JArr.prems w have "sort_key json_default (map (canonicalize False) xs) =
        sort_key json_default (map (canonicalize False) ys)" by (simp add: Let_def)
    then have "mset (map (canonicalize False) xs) = mset (map (canonicalize False) ys)"
      by (metis mset_sort)
    then obtain zs where "mset zs = mset ys"
        "map (canonicalize False) xs = map (canonicalize False) zs"
      using mset_map_align by blast
    then show ?thesis using False w step by (auto intro: same_data.unordered)
  qed
next
  case (JObj kvs)
  from canonicalize_shape [OF JObj.prems] obtain mvs where w: "w = JObj mvs"
    by (cases w) (auto split: if_splits)
  with JObj.prems have "sort_key fst (map canonical_member kvs) =
      sort_key fst (map canonical_member mvs)" by simp
  then have "mset (sort_key fst (map canonical_member kvs)) =
      mset (sort_key fst (map canonical_member mvs))" by (simp only:)
  then have "mset (map canonical_member kvs) = mset (map canonical_member mvs)"
    by (simp only: mset_sort)
  then obtain nvs where nvs: "mset nvs = mset mvs" "map canonical_member kvs = map canonical_member nvs"
    using mset_map_align by blast
  have "list_all2 (\<lambda>x y. fst x = fst y \<and> same_data (fst x = ''actions'') (snd x) (snd y)) kvs nvs"
    using nvs(2) unfolding map_eq_list_all2
  proof (rule list.rel_mono_strong)
    fix x y assume x: "x \<in> set kvs" and eq: "canonical_member x = canonical_member y"
    have "snd x \<in> Basic_BNFs.snds x" by (cases x) simp
    from eq have "fst x = fst y"
      and "canonicalize (fst x = ''actions'') (snd x) = canonicalize (fst x = ''actions'') (snd y)"
      by (cases x; cases y; simp)+
    with JObj.IH [OF x \<open>snd x \<in> Basic_BNFs.snds x\<close>]
    show "fst x = fst y \<and> same_data (fst x = ''actions'') (snd x) (snd y)" by simp
  qed
  with nvs(1) show ?case unfolding w by (rule same_data.members)
qed

theorem canonical_json_same_data:
  "wf_json v \<Longrightarrow> wf_json w \<Longrightarrow> canonical_json v = canonical_json w \<longleftrightarrow> same_data False v w"
  using canonical_json_eq canonicalize_same_data same_data_canonicalize by blast

lemma same_data_refl: "same_data p v v"
  by (rule canonicalize_same_data) simp

text \<open>A routine has no collision between the two texts it is applied to.\<close>

definition no_collision :: "(string \<Rightarrow> string) \<Rightarrow> json \<Rightarrow> json \<Rightarrow> bool" where
  "no_collision H v w \<longleftrightarrow> (H (canonical_json v) = H (canonical_json w) \<longrightarrow>
     canonical_json v = canonical_json w)"

lemma canonical_hash_same_data:
  assumes "wf_json v" and "wf_json w" and "no_collision H v w"
  shows "canonical_hash H v = canonical_hash H w \<longleftrightarrow> same_data False v w"
proof -
  have "canonical_hash H v = canonical_hash H w \<longleftrightarrow> canonical_json v = canonical_json w"
    using assms(3) by (auto simp: canonical_hash_def no_collision_def)
  then show ?thesis using canonical_json_same_data [OF assms(1,2)] by simp
qed

text \<open>Canonical form is a fixed point: canonicalizing again changes nothing.\<close>

lemma sort_key_sort_key: "sort_key f (sort_key f xs) = sort_key f xs"
  by (rule sort_key_id_if_sorted) simp

lemma canonicalize_idem: "canonicalize p (canonicalize p v) = canonicalize p v"
proof (induction p v rule: canonicalize.induct)
  case (1 p kvs)
  have "map canonical_member (sort_key fst (map canonical_member kvs)) =
      sort_key fst (map canonical_member kvs)"
    using "1.IH" by (intro map_idI) auto
  then show ?case by (simp only: canonicalize.simps sort_key_sort_key)
next
  case (2 p xs)
  have "map (canonicalize False) ys = ys" if "set ys \<subseteq> canonicalize False ` set xs" for ys
    using "2.IH" that by (intro map_idI) auto
  then show ?case by (auto simp: Let_def sort_key_sort_key)
qed auto

end
