(* ===== verification/Addresses.thy ===== *)
theory Addresses
  imports Canonical_Json
begin

text \<open>
  \<^verbatim>\<open>domain/normalization.py\<close> and \<^verbatim>\<open>AddressEntry\<close> of \<^verbatim>\<open>schemas/resources.py\<close>:
  conservative normalisation of domains and e-mail addresses, and the entry that pairs a
  display value with its comparison value. The third-party IDNA encoder is the parameter
  \<open>idna\<close>: \<open>None\<close> stands for \<^verbatim>\<open>IDNAError\<close>.
\<close>

section \<open>Normalisation\<close>

text \<open>Unicode categories \<^verbatim>\<open>Cc\<close> and \<^verbatim>\<open>Cf\<close> below 256.\<close>

definition is_control_or_format :: "char \<Rightarrow> bool" where
  "is_control_or_format c \<longleftrightarrow>
     (let n = (of_char c :: nat) in n < 32 \<or> 127 \<le> n \<and> n \<le> 159 \<or> n = 173)"

definition strip_and_validate_general :: "string \<Rightarrow> string res" where
  "strip_and_validate_general value =
     (let candidate = py_strip value
      in if candidate = [] then Inl ValueError
         else if list_ex is_control_or_format candidate then Inl ValueError
         else if py_contains candidate ''://'' then Inl ValueError
         else if list_ex (\<lambda>c. c \<in> set '',;'') candidate then Inl ValueError
         else Inr candidate)"

text \<open>\<^verbatim>\<open>[a-z0-9]\<close>, and the whole pattern \<^verbatim>\<open>_DOMAIN_LABEL\<close>.\<close>

definition is_lower_alnum :: "char \<Rightarrow> bool" where
  "is_lower_alnum c \<longleftrightarrow>
     (let n = (of_char c :: nat) in 97 \<le> n \<and> n \<le> 122 \<or> 48 \<le> n \<and> n \<le> 57)"

definition domain_label :: "string \<Rightarrow> bool" where
  "domain_label s \<longleftrightarrow> s \<noteq> [] \<and> length s \<le> 63 \<and> is_lower_alnum (hd s) \<and> is_lower_alnum (last s) \<and>
     list_all (\<lambda>c. is_lower_alnum c \<or> c = CHR ''-'') s"

text \<open>The characters of \<^verbatim>\<open>_LOCAL_PART\<close>, and the pattern: atoms separated by dots.\<close>

definition is_atom_char :: "char \<Rightarrow> bool" where
  "is_atom_char c \<longleftrightarrow>
     is_lower_alnum c \<or> (let n = (of_char c :: nat) in 65 \<le> n \<and> n \<le> 90) \<or>
     c \<in> set ''!#$%&*+/=?^_`{|}~-'' \<or> c = CHR 0x27"

definition local_part_pattern :: "string \<Rightarrow> bool" where
  "local_part_pattern s \<longleftrightarrow>
     list_all (\<lambda>atom. atom \<noteq> [] \<and> list_all is_atom_char atom) (py_split CHR ''.'' s)"

definition forbidden_address_characters :: "string" where
  "forbidden_address_characters = ''/,;:?*<>()[]{}'' @ [CHR 0x5C, CHR 0x22]"

definition minimum_domain_labels :: nat where "minimum_domain_labels = 2"
definition maximum_domain_length :: nat where "maximum_domain_length = 253"
definition maximum_local_part_length :: nat where "maximum_local_part_length = 64"
definition maximum_email_length :: nat where "maximum_email_length = 254"

definition normalize_domain :: "(string \<Rightarrow> string option) \<Rightarrow> bool \<Rightarrow> string \<Rightarrow> string res" where
  "normalize_domain idna allow_trailing_dot value =
     and_then (strip_and_validate_general value) (\<lambda>stripped.
     and_then (if py_endswith stripped ''.''
               then if \<not> allow_trailing_dot then Inl ValueError else Inr (butlast stripped)
               else Inr stripped) (\<lambda>candidate.
     if list_ex (\<lambda>c. c \<in> set forbidden_address_characters) candidate then Inl ValueError
     else if CHR ''@'' \<in> set candidate \<or> CHR '' '' \<in> set candidate then Inl ValueError
     else case idna candidate of
         None \<Rightarrow> Inl ValueError
       | Some encoded \<Rightarrow>
           (let ascii_domain = py_lower encoded;
                labels = py_split CHR ''.'' ascii_domain
            in if length labels < minimum_domain_labels \<or> list_ex (\<lambda>l. \<not> domain_label l) labels
               then Inl ValueError
               else if length ascii_domain > maximum_domain_length then Inl ValueError
               else Inr ascii_domain)))"

definition normalize_email :: "(string \<Rightarrow> string option) \<Rightarrow> string \<Rightarrow> string res" where
  "normalize_email idna value =
     and_then (strip_and_validate_general value) (\<lambda>candidate.
     if count_list candidate CHR ''@'' \<noteq> 1 then Inl ValueError
     else
       let local_part = takeWhile (\<lambda>c. c \<noteq> CHR ''@'') candidate;
           domain = tl (dropWhile (\<lambda>c. c \<noteq> CHR ''@'') candidate)
       in if \<not> local_part_pattern local_part \<or> length local_part > maximum_local_part_length
          then Inl ValueError
          else and_then (normalize_domain idna False domain) (\<lambda>normalized_domain.
            let normalized = py_lower local_part @ ''@'' @ normalized_domain
            in if length normalized > maximum_email_length then Inl ValueError
               else Inr normalized))"

definition normalize_address :: "(string \<Rightarrow> string option) \<Rightarrow> string \<Rightarrow> string \<Rightarrow> string res" where
  "normalize_address idna kind value =
     (if kind = ''domain'' then normalize_domain idna False value
      else if kind = ''email'' then normalize_email idna value
      else Inl ValueError)"

section \<open>Address entries\<close>

datatype address_kind = Email | Domain

fun kind_value :: "address_kind \<Rightarrow> string" where
  "kind_value Email = ''email''"
| "kind_value Domain = ''domain''"

record address_entry =
  ae_kind :: address_kind
  ae_value :: string
  ae_normalized_value :: string

text \<open>The constructor with its field bounds and \<^verbatim>\<open>calculate_normalized_value\<close>.\<close>

definition make_address_entry ::
    "(string \<Rightarrow> string option) \<Rightarrow> address_kind \<Rightarrow> string \<Rightarrow> string \<Rightarrow> address_entry res" where
  "make_address_entry idna kind value normalized_value =
     (if length value < 1 \<or> length value > 254 then Inl ValidationError
      else case normalize_address idna (kind_value kind) value of
          Inl e \<Rightarrow> Inl ValidationError
        | Inr normalized \<Rightarrow>
            if normalized_value \<noteq> [] \<and> normalized_value \<noteq> normalized then Inl ValidationError
            else Inr \<lparr>ae_kind = kind, ae_value = py_strip value, ae_normalized_value = normalized\<rparr>)"

definition dump_entry :: "address_entry \<Rightarrow> json" where
  "dump_entry e = JObj [(''kind'', JStr (kind_value (ae_kind e))), (''value'', JStr (ae_value e)),
     (''normalized_value'', JStr (ae_normalized_value e))]"

section \<open>What normalisation promises\<close>

text \<open>A canonical domain: at least two DNS labels, within the length limit.\<close>

definition canonical_domain :: "string \<Rightarrow> bool" where
  "canonical_domain d \<longleftrightarrow> length d \<le> 253 \<and> 2 \<le> length (py_split CHR ''.'' d) \<and>
     list_all domain_label (py_split CHR ''.'' d)"

lemma normalize_domain_Inr:
  assumes "normalize_domain idna b value = Inr d"
  shows "canonical_domain d"
  using assms
  by (auto simp: normalize_domain_def canonical_domain_def Let_def res_simps list_ex_iff
      list_all_iff minimum_domain_labels_def maximum_domain_length_def
      split: if_splits option.splits)

lemma kind_value_inj [simp]: "kind_value k = kind_value l \<longleftrightarrow> k = l"
  by (cases k; cases l) auto

lemma normalize_strip [simp]:
  "strip_and_validate_general (py_strip value) = strip_and_validate_general value"
  by (simp add: strip_and_validate_general_def)

lemma normalize_address_strip [simp]:
  "normalize_address idna kind (py_strip value) = normalize_address idna kind value"
  by (simp add: normalize_address_def normalize_domain_def normalize_email_def)


lemma py_split_covers: "set s \<subseteq> insert d (\<Union> (set ` set (py_split d s)))"
proof (induction s)
  case Nil
  then show ?case by simp
next
  case (Cons c cs)
  obtain w ws where "py_split d cs = w # ws" by (cases "py_split d cs") auto
  with Cons show ?case by auto
qed

text \<open>The characters a canonical domain is written with.\<close>

definition is_domain_char :: "char \<Rightarrow> bool" where
  "is_domain_char c \<longleftrightarrow> is_lower_alnum c \<or> c = CHR ''-'' \<or> c = CHR ''.''"

lemma canonical_domain_chars:
  assumes "canonical_domain d" and "c \<in> set d"
  shows "is_domain_char c"
proof -
  from assms(2) py_split_covers [of d "CHR ''.''"]
  consider "c = CHR ''.''" | w where "w \<in> set (py_split CHR ''.'' d)" "c \<in> set w" by blast
  then show ?thesis
  proof cases
    case 2
    then have "domain_label w" using assms(1) by (auto simp: canonical_domain_def list_all_iff)
    then show ?thesis using 2(2) by (auto simp: domain_label_def is_domain_char_def list_all_iff)
  qed (simp add: is_domain_char_def)
qed

lemma domain_char_code:
  "is_domain_char c \<longleftrightarrow> (let n = (of_char c :: nat) in 97 \<le> n \<and> n \<le> 122 \<or> 48 \<le> n \<and> n \<le> 57 \<or> n = 45 \<or> n = 46)"
proof -
  have "c = CHR ''-'' \<longleftrightarrow> (of_char c :: nat) = 45" "c = CHR ''.'' \<longleftrightarrow> (of_char c :: nat) = 46"
    by (auto intro: of_char_cong)
  then show ?thesis by (auto simp: is_domain_char_def is_lower_alnum_def Let_def)
qed

lemma domain_char_plain:
  assumes "is_domain_char c"
  shows "\<not> py_space c" "\<not> is_control_or_format c" "c \<notin> set forbidden_address_characters"
    "c \<noteq> CHR ''@''" "c \<noteq> CHR '' ''" "c \<notin> set '',;''" "c \<noteq> CHR '':''" "py_lower_char c = c"
  using assms
  by (auto simp: domain_char_code Let_def py_space_def is_control_or_format_def
      forbidden_address_characters_def py_lower_char_def)

lemma plain_strip: "(\<And>c. c \<in> set s \<Longrightarrow> \<not> py_space c) \<Longrightarrow> py_strip s = s"
proof -
  assume *: "\<And>c. c \<in> set s \<Longrightarrow> \<not> py_space c"
  have "dropWhile py_space t = t" if "set t \<subseteq> set s" for t
    using that * by (cases t) auto
  from this [of s] this [of "rev s"] show ?thesis by (simp add: py_strip_def)
qed

lemma last_label_end: "py_endswith (c # cs) ''.'' \<Longrightarrow> last (py_split CHR ''.'' (c # cs)) = []"
proof (induction cs arbitrary: c)
  case Nil
  then show ?case by (simp add: py_endswith_def)
next
  case (Cons b bs)
  then have "py_endswith (b # bs) ''.''"
    by (simp add: py_endswith_def py_startswith_iff append_eq_Cons_conv Cons_eq_append_conv) force
  from Cons.IH [OF this] show ?case
    by (cases "py_split CHR ''.'' (b # bs)") (auto split: if_splits list.splits)
qed

lemma canonical_domain_no_trailing_dot:
  assumes "canonical_domain d"
  shows "\<not> py_endswith d ''.''"
proof
  assume e: "py_endswith d ''.''"
  then obtain c cs where d: "d = c # cs" by (cases d) (auto simp: py_endswith_def)
  have "last (py_split CHR ''.'' d) \<in> set (py_split CHR ''.'' d)" by simp
  then have "domain_label (last (py_split CHR ''.'' d))"
    using assms by (auto simp: canonical_domain_def list_all_iff)
  with last_label_end [of c cs] e d show False by (simp add: domain_label_def)
qed

lemma canonical_domain_nonempty: "canonical_domain d \<Longrightarrow> d \<noteq> []"
  by (auto simp: canonical_domain_def)

lemma strip_canonical_domain:
  assumes "canonical_domain d"
  shows "strip_and_validate_general d = Inr d"
proof -
  have plain: "\<And>c. c \<in> set d \<Longrightarrow> is_domain_char c" using canonical_domain_chars [OF assms] .
  then have "py_strip d = d" by (intro plain_strip) (auto dest: domain_char_plain)
  moreover have "\<not> py_contains d ''://''"
    using plain domain_char_plain(7) by (fastforce simp: py_contains_iff)
  ultimately show ?thesis
    using plain domain_char_plain canonical_domain_nonempty [OF assms]
    by (auto simp: strip_and_validate_general_def list_ex_iff)
qed

text \<open>
  The documented behaviour of the encoder the next lemma relies on: an encoded domain, in
  lower case, encodes to itself.
\<close>

definition idna_stable :: "(string \<Rightarrow> string option) \<Rightarrow> bool" where
  "idna_stable idna \<longleftrightarrow> (\<forall>x y. idna x = Some y \<longrightarrow> idna (py_lower y) = Some (py_lower y))"

lemma normalize_domain_encoded:
  assumes "normalize_domain idna b value = Inr d"
  shows "\<exists>x y. idna x = Some y \<and> d = py_lower y"
  using assms by (auto simp: normalize_domain_def Let_def res_simps split: if_splits option.splits)

lemma canonical_domain_lower: "canonical_domain d \<Longrightarrow> py_lower d = d"
  unfolding py_lower_def by (rule map_idI) (auto dest: canonical_domain_chars domain_char_plain)

lemma normalize_canonical_domain:
  assumes "canonical_domain d" and "idna d = Some d"
  shows "normalize_domain idna b d = Inr d"
proof -
  have plain: "\<And>c. c \<in> set d \<Longrightarrow> is_domain_char c" using canonical_domain_chars [OF assms(1)] .
  have "\<not> list_ex (\<lambda>c. c \<in> set forbidden_address_characters) d"
      "CHR ''@'' \<notin> set d" "CHR '' '' \<notin> set d"
    using plain domain_char_plain(3,4,5) by (force simp: list_ex_iff)+
  then show ?thesis
    using assms canonical_domain_lower [OF assms(1)]
    by (auto simp: normalize_domain_def strip_canonical_domain canonical_domain_no_trailing_dot
        canonical_domain_def minimum_domain_labels_def maximum_domain_length_def list_all_iff
        list_ex_iff Let_def)
qed

lemma normalize_domain_idem:
  assumes "idna_stable idna" and "normalize_domain idna b value = Inr d"
  shows "normalize_domain idna b' d = Inr d"
proof -
  have "canonical_domain d" using normalize_domain_Inr [OF assms(2)] .
  moreover obtain x y where "idna x = Some y" "d = py_lower y"
    using normalize_domain_encoded [OF assms(2)] by blast
  ultimately show ?thesis
    using assms(1) by (intro normalize_canonical_domain) (auto simp: idna_stable_def)
qed


subsection \<open>E-mail addresses\<close>

lemma at_split:
  assumes "x \<notin> set l"
  shows "takeWhile (\<lambda>c. c \<noteq> x) (l @ x # d) = l" "dropWhile (\<lambda>c. c \<noteq> x) (l @ x # d) = x # d"
  using assms by (induction l) auto

lemma py_contains_set: "py_contains s p \<Longrightarrow> set p \<subseteq> set s"
  by (auto simp: py_contains_iff)

lemma atom_char_code:
  "is_atom_char c \<Longrightarrow> (let n = (of_char c :: nat) in
     33 \<le> n \<and> n \<le> 126 \<and> n \<noteq> 34 \<and> n \<noteq> 44 \<and> n \<noteq> 58 \<and> n \<noteq> 59 \<and> n \<noteq> 64 \<and> n \<noteq> 46)"
  by (auto simp: is_atom_char_def is_lower_alnum_def Let_def)

lemma lower_dot: "py_lower_char c = CHR ''.'' \<longleftrightarrow> c = CHR ''.''"
proof
  assume "py_lower_char c = CHR ''.''"
  then show "c = CHR ''.''"
    by (auto simp: py_lower_char_def Let_def split: if_splits dest!: arg_cong [where f = "of_char :: char \<Rightarrow> nat"])
qed (simp add: py_lower_char_def)

lemma py_split_lower: "py_split CHR ''.'' (py_lower s) = map py_lower (py_split CHR ''.'' s)"
proof (induction s)
  case Nil
  then show ?case by (simp add: py_lower_def)
next
  case (Cons c cs)
  then show ?case
    by (cases "py_split CHR ''.'' cs") (auto simp: py_lower_def lower_dot)
qed

lemma lower_atom_char: "is_atom_char c \<Longrightarrow> is_atom_char (py_lower_char c)"
proof (cases "65 \<le> (of_char c :: nat) \<and> (of_char c :: nat) \<le> 90")
  case True
  then show ?thesis
    by (auto simp: py_lower_char_def is_atom_char_def is_lower_alnum_def Let_def)
next
  case False
  assume a: "is_atom_char c"
  from atom_char_code [OF a] False have "py_lower_char c = c"
    by (auto simp: py_lower_char_def Let_def)
  with a show ?thesis by simp
qed

lemma py_lower_char_idem: "py_lower_char (py_lower_char c) = py_lower_char c"
  by (auto simp: py_lower_char_def Let_def)

lemma py_lower_idem [simp]: "py_lower (py_lower s) = py_lower s"
  by (simp add: py_lower_def py_lower_char_idem)

lemma local_part_lower: "local_part_pattern s \<Longrightarrow> local_part_pattern (py_lower s)"
  unfolding local_part_pattern_def py_split_lower
  by (auto simp: list_all_iff py_lower_def lower_atom_char)

lemma local_part_chars:
  assumes "local_part_pattern s" and "c \<in> set s"
  shows "is_atom_char c \<or> c = CHR ''.''"
  using assms py_split_covers [of s "CHR ''.''"]
  by (auto simp: local_part_pattern_def list_all_iff)

text \<open>What an accepted e-mail address is: a lower-case local part at a canonical domain.\<close>

definition canonical_email :: "string \<Rightarrow> string \<Rightarrow> bool" where
  "canonical_email l d \<longleftrightarrow> local_part_pattern l \<and> length l \<le> 64 \<and> py_lower l = l \<and>
     canonical_domain d \<and> length l + length d < 254"

lemma normalize_email_Inr:
  assumes "normalize_email idna value = Inr r"
  obtains l d x where "r = l @ ''@'' @ d" "canonical_email l d" "normalize_domain idna False x = Inr d"
proof -
  from assms obtain c where c: "strip_and_validate_general value = Inr c"
    unfolding normalize_email_def by (rule and_thenE)
  let ?l = "takeWhile (\<lambda>c. c \<noteq> CHR ''@'') c" and ?x = "tl (dropWhile (\<lambda>c. c \<noteq> CHR ''@'') c)"
  from assms c have l: "local_part_pattern ?l" "length ?l \<le> 64"
    by (simp_all add: normalize_email_def Let_def maximum_local_part_length_def split: if_splits)
  from assms c l have tail: "and_then (normalize_domain idna False ?x) (\<lambda>d.
      let normalized = py_lower ?l @ ''@'' @ d in
      if length normalized > maximum_email_length then Inl ValueError else Inr normalized) = Inr r"
    by (simp add: normalize_email_def Let_def maximum_local_part_length_def split: if_splits)
  obtain d where d: "normalize_domain idna False ?x = Inr d"
      "r = py_lower ?l @ ''@'' @ d" "length r \<le> 254"
    using tail by (rule and_thenE) (auto simp: Let_def maximum_email_length_def split: if_splits)
  have "canonical_email (py_lower ?l) d"
    using l d normalize_domain_Inr [OF d(1)] local_part_lower [OF l(1)]
    by (simp add: canonical_email_def py_lower_def py_lower_char_idem)
  with d show thesis by (intro that)
qed

lemma normalize_canonical_email:
  assumes e: "canonical_email l d" and d: "idna d = Some d"
  shows "normalize_email idna (l @ ''@'' @ d) = Inr (l @ ''@'' @ d)"
proof -
  let ?r = "l @ ''@'' @ d"
  from e have pat: "local_part_pattern l" "length l \<le> 64" "py_lower l = l" "canonical_domain d"
      "length l + length d < 254"
    by (auto simp: canonical_email_def)
  have lc: "\<And>c. c \<in> set l \<Longrightarrow> (33 \<le> (of_char c :: nat) \<and> (of_char c :: nat) \<le> 126
        \<and> c \<notin> set '',;:@'')"
    using local_part_chars [OF pat(1)] atom_char_code by (fastforce simp: Let_def)
  have dc: "\<And>c. c \<in> set d \<Longrightarrow> (33 \<le> (of_char c :: nat) \<and> (of_char c :: nat) \<le> 126
        \<and> c \<notin> set '',;:@'')"
    using canonical_domain_chars [OF pat(4)] by (fastforce simp: domain_char_code Let_def)
  have rc: "\<And>c. c \<in> set ?r \<Longrightarrow> (33 \<le> (of_char c :: nat) \<and> (of_char c :: nat) \<le> 126
        \<and> c \<notin> set '',;:'')"
    using lc dc by fastforce
  have "\<not> py_space c" if "c \<in> set ?r" for c
    using rc [OF that] by (auto simp: py_space_def Let_def)
  then have strip: "py_strip ?r = ?r" by (intro plain_strip)
  have noctl: "\<not> list_ex is_control_or_format ?r"
    unfolding list_ex_iff is_control_or_format_def Let_def using rc by fastforce
  have "CHR '':'' \<notin> set ?r" using rc by fastforce
  then have noscheme: "\<not> py_contains ?r ''://''" using py_contains_set [of ?r "''://''"] by force
  have nosep: "\<not> list_ex (\<lambda>c. c \<in> set '',;'') ?r" using rc by (fastforce simp: list_ex_iff)
  have general: "strip_and_validate_general ?r = Inr ?r"
    unfolding strip_and_validate_general_def Let_def strip using noctl noscheme nosep by simp
  have at: "CHR ''@'' \<notin> set l" "CHR ''@'' \<notin> set d" using lc dc by fastforce+
  have one: "count_list ?r CHR ''@'' = 1" using at by simp
  have lp: "takeWhile (\<lambda>c. c \<noteq> CHR ''@'') ?r = l" "tl (dropWhile (\<lambda>c. c \<noteq> CHR ''@'') ?r) = d"
    using at by (simp_all add: at_split)
  show ?thesis
    unfolding normalize_email_def general and_then_simps Let_def one lp
    using pat normalize_canonical_domain [where b = False and d = d and idna = idna, OF pat(4) d]
    by (simp add: maximum_local_part_length_def maximum_email_length_def)
qed

text \<open>A normalised value normalises to itself.\<close>

lemma normalize_address_again:
  assumes "idna_stable idna" and n: "normalize_address idna kind value = Inr r"
  shows "normalize_address idna kind r = Inr r"
proof (cases "kind = ''domain''")
  case True
  with assms show ?thesis using normalize_domain_idem by (auto simp: normalize_address_def)
next
  case False
  with n have kind: "kind = ''email''" and e: "normalize_email idna value = Inr r"
    by (auto simp: normalize_address_def split: if_splits)
  from e obtain l d x where r: "r = l @ ''@'' @ d" "canonical_email l d"
      "normalize_domain idna False x = Inr d"
    by (rule normalize_email_Inr)
  obtain y z where yz: "idna y = Some z" "d = py_lower z"
    using normalize_domain_encoded [OF r(3)] by blast
  with assms(1) have "idna d = Some d" by (simp add: idna_stable_def)
  then have "normalize_email idna r = Inr r" unfolding r(1) by (rule normalize_canonical_email [OF r(2)])
  with kind show ?thesis by (simp add: normalize_address_def)
qed

section \<open>Well-formed entries\<close>

text \<open>What every constructed entry satisfies; the invariant of entries.\<close>

definition wf_entry :: "(string \<Rightarrow> string option) \<Rightarrow> address_entry \<Rightarrow> bool" where
  "wf_entry idna e \<longleftrightarrow> ae_value e \<noteq> [] \<and> length (ae_value e) \<le> 254 \<and>
     normalize_address idna (kind_value (ae_kind e)) (ae_value e) = Inr (ae_normalized_value e)"

lemma py_strip_length: "length (py_strip s) \<le> length s"
  by (simp add: py_strip_def) (metis length_dropWhile_le length_rev order_trans)

lemma normalize_address_nonempty:
  "normalize_address idna kind value = Inr r \<Longrightarrow> py_strip value \<noteq> []"
  by (auto simp: normalize_address_def normalize_domain_def normalize_email_def
      strip_and_validate_general_def res_simps Let_def split: if_splits)

lemma make_address_entry_wf:
  assumes "make_address_entry idna kind value normalized = Inr e"
  shows "wf_entry idna e"
  using assms py_strip_length [of "value"] normalize_address_nonempty [of idna "kind_value kind" "value"]
  by (auto simp: make_address_entry_def wf_entry_def split: if_splits sum.splits)

text \<open>Reading an entry back from its own fields gives the entry.\<close>

lemma make_address_entry_again:
  assumes "make_address_entry idna kind value normalized = Inr e"
  shows "make_address_entry idna (ae_kind e) (ae_value e) (ae_normalized_value e) = Inr e"
proof -
  have "wf_entry idna e" using make_address_entry_wf [OF assms] .
  moreover have "py_strip (ae_value e) = ae_value e"
    using assms by (auto simp: make_address_entry_def split: if_splits sum.splits)
  ultimately show ?thesis
    by (auto simp: make_address_entry_def wf_entry_def not_less less_eq_Suc_le Suc_leI)
qed

end
