(* ===== verification/Blocked_State.thy ===== *)
theory Blocked_State
  imports Addresses
begin

text \<open>
  The blocked-sender resources: \<^verbatim>\<open>ManagedAddressList\<close> and
  \<^verbatim>\<open>ManagedBlockedSenderRule\<close> of \<^verbatim>\<open>schemas/resources.py\<close> and
  \<^verbatim>\<open>BlockedSenderState\<close> of \<^verbatim>\<open>schemas/state.py\<close>. A record holds the fields; the
  \<open>make_\<close> function is the validating constructor; a record update is
  \<^verbatim>\<open>model_copy(update=...)\<close>, which does not validate; \<open>dump_\<close> is
  \<^verbatim>\<open>model_dump(mode="json")\<close>. The \<open>wf_\<close> predicates state what a constructed value
  satisfies.
\<close>

section \<open>Address lists\<close>

record address_list =
  al_id :: uuid
  al_name :: string
  al_entries :: "address_entry list"

text \<open>The normalised values of a sequence of entries.\<close>

abbreviation entry_values :: "address_entry list \<Rightarrow> string list" where
  "entry_values entries \<equiv> map ae_normalized_value entries"

definition make_address_list :: "uuid \<Rightarrow> string \<Rightarrow> address_entry list \<Rightarrow> address_list res" where
  "make_address_list ownership_id display_name entries =
     (if length display_name < 1 \<or> length display_name > 200 then Inl ValidationError
      else if \<not> distinct (entry_values entries) then Inl ValidationError
      else Inr \<lparr>al_id = ownership_id, al_name = display_name, al_entries = entries\<rparr>)"

definition wf_address_list :: "address_list \<Rightarrow> bool" where
  "wf_address_list l \<longleftrightarrow> al_name l \<noteq> [] \<and> length (al_name l) \<le> 200 \<and>
     distinct (entry_values (al_entries l))"

lemma make_address_list_Inr_iff:
  "make_address_list i n es = Inr l \<longleftrightarrow>
     l = \<lparr>al_id = i, al_name = n, al_entries = es\<rparr> \<and> wf_address_list l"
  by (cases n) (auto simp: make_address_list_def wf_address_list_def)

lemma make_address_list_Inl: "make_address_list i n es = Inl e \<Longrightarrow> e = ValidationError"
  by (auto simp: make_address_list_def split: if_splits)

definition dump_address_list :: "address_list \<Rightarrow> json" where
  "dump_address_list l = JObj [(''ownership_id'', JStr (uuid_str (al_id l))),
     (''display_name'', JStr (al_name l)), (''entries'', JArr (map dump_entry (al_entries l)))]"

section \<open>Blocked-sender rules\<close>

record blocked_rule =
  br_id :: uuid
  br_name :: string
  br_ou :: string
  br_lists :: "string list"
  br_bypass :: "string list"
  br_notice :: "string option"
  br_enabled :: bool
  br_inherited :: bool

definition make_blocked_rule ::
    "uuid \<Rightarrow> string \<Rightarrow> string \<Rightarrow> string list \<Rightarrow> string list \<Rightarrow> string option \<Rightarrow> bool \<Rightarrow> bool \<Rightarrow>
      blocked_rule res" where
  "make_blocked_rule ownership_id display_name target_ou list_names bypass notice enabled inherited =
     (if length display_name < 1 \<or> length display_name > 200 then Inl ValidationError
      else if length target_ou < 1 \<or> length target_ou > 1000 then Inl ValidationError
      else if \<exists>n \<in> set_option notice. length n > 1000 then Inl ValidationError
      else if list_names = [] then Inl ValidationError
      else if \<not> distinct list_names then Inl ValidationError
      else if \<not> distinct bypass then Inl ValidationError
      else let ou = py_strip target_ou in
        if \<not> py_startswith ou ''/'' \<or> py_contains ou ''//'' then Inl ValidationError
        else if \<exists>n \<in> set_option notice. py_strip n = [] then Inl ValidationError
        else Inr \<lparr>br_id = ownership_id, br_name = display_name, br_ou = ou, br_lists = list_names,
               br_bypass = bypass, br_notice = map_option py_strip notice, br_enabled = enabled,
               br_inherited = inherited\<rparr>)"

definition wf_blocked_rule :: "blocked_rule \<Rightarrow> bool" where
  "wf_blocked_rule r \<longleftrightarrow> br_name r \<noteq> [] \<and> length (br_name r) \<le> 200 \<and> br_lists r \<noteq> [] \<and>
     distinct (br_lists r) \<and> distinct (br_bypass r) \<and>
     py_startswith (br_ou r) ''/'' \<and> \<not> py_contains (br_ou r) ''//'' \<and>
     length (br_ou r) \<le> 1000 \<and> py_strip (br_ou r) = br_ou r \<and>
     (\<forall>n \<in> set_option (br_notice r). n \<noteq> [] \<and> length n \<le> 1000 \<and> py_strip n = n)"

lemma py_strip_length_le: "length s \<le> n \<Longrightarrow> length (py_strip s) \<le> n"
  using py_strip_length [of s] by simp

lemma make_blocked_rule_Inr:
  assumes "make_blocked_rule i n ou ls bs notice en inh = Inr r"
  shows "wf_blocked_rule r"
    and "r = \<lparr>br_id = i, br_name = n, br_ou = py_strip ou, br_lists = ls, br_bypass = bs,
             br_notice = map_option py_strip notice, br_enabled = en, br_inherited = inh\<rparr>"
  using assms
  by (auto simp: make_blocked_rule_def wf_blocked_rule_def Let_def py_strip_length_le not_less
      split: if_splits)

lemma make_blocked_rule_Inl: "make_blocked_rule i n ou ls bs notice en inh = Inl e \<Longrightarrow> e = ValidationError"
  by (auto simp: make_blocked_rule_def Let_def split: if_splits)

text \<open>Re-reading a well-formed rule gives the rule.\<close>

lemma make_blocked_rule_again:
  assumes "wf_blocked_rule r"
  shows "make_blocked_rule (br_id r) (br_name r) (br_ou r) (br_lists r) (br_bypass r)
      (br_notice r) (br_enabled r) (br_inherited r) = Inr r"
proof -
  have "map_option py_strip (br_notice r) = br_notice r"
    using assms by (cases "br_notice r") (auto simp: wf_blocked_rule_def)
  moreover have "br_ou r \<noteq> []" using assms by (auto simp: wf_blocked_rule_def)
  ultimately show ?thesis
    using assms by (auto simp: make_blocked_rule_def wf_blocked_rule_def Let_def Suc_le_eq)
qed

fun dump_option :: "('a \<Rightarrow> json) \<Rightarrow> 'a option \<Rightarrow> json" where
  "dump_option f None = JNull"
| "dump_option f (Some x) = f x"

definition dump_blocked_rule :: "blocked_rule \<Rightarrow> json" where
  "dump_blocked_rule r = JObj [(''ownership_id'', JStr (uuid_str (br_id r))),
     (''display_name'', JStr (br_name r)), (''target_ou'', JStr (br_ou r)),
     (''address_list_names'', JArr (map JStr (br_lists r))),
     (''bypass_address_list_names'', JArr (map JStr (br_bypass r))),
     (''rejection_notice'', dump_option JStr (br_notice r)),
     (''enabled'', JBool (br_enabled r)), (''inherited'', JBool (br_inherited r))]"

section \<open>Blocked-sender states\<close>

record blocked_state =
  bs_ou :: string
  bs_rules :: "blocked_rule list"
  bs_lists :: "address_list list"
  bs_unmanaged :: "string list"

definition make_blocked_state ::
    "string \<Rightarrow> blocked_rule list \<Rightarrow> address_list list \<Rightarrow> string list \<Rightarrow> blocked_state res" where
  "make_blocked_state target_ou rules address_lists unmanaged =
     (if \<not> distinct (map br_id rules) then Inl ValidationError
      else if \<not> distinct (map al_id address_lists) then Inl ValidationError
      else Inr \<lparr>bs_ou = target_ou, bs_rules = rules, bs_lists = address_lists, bs_unmanaged = unmanaged\<rparr>)"

definition wf_blocked_state :: "blocked_state \<Rightarrow> bool" where
  "wf_blocked_state s \<longleftrightarrow> distinct (map br_id (bs_rules s)) \<and> distinct (map al_id (bs_lists s))"

lemma make_blocked_state_Inr_iff:
  "make_blocked_state ou rs ls us = Inr s \<longleftrightarrow>
     s = \<lparr>bs_ou = ou, bs_rules = rs, bs_lists = ls, bs_unmanaged = us\<rparr> \<and> wf_blocked_state s"
  by (auto simp: make_blocked_state_def wf_blocked_state_def)

lemma make_blocked_state_Inl: "make_blocked_state ou rs ls us = Inl e \<Longrightarrow> e = ValidationError"
  by (auto simp: make_blocked_state_def split: if_splits)

definition dump_blocked_state :: "blocked_state \<Rightarrow> json" where
  "dump_blocked_state s = JObj [(''schema_version'', JStr ''1.0''),
     (''target_ou'', JStr (bs_ou s)), (''rules'', JArr (map dump_blocked_rule (bs_rules s))),
     (''address_lists'', JArr (map dump_address_list (bs_lists s))),
     (''unmanaged_rule_names'', JArr (map JStr (bs_unmanaged s)))]"

section \<open>Dumps determine values\<close>

lemma dump_option_inj:
  assumes "\<And>x y. f x = f y \<longleftrightarrow> x = y" and "\<And>x. f x \<noteq> JNull"
  shows "dump_option f a = dump_option f b \<longleftrightarrow> a = b"
  using assms by (cases a; cases b; simp) metis

lemma map_inj_iff: "(\<And>x y. f x = f y \<longleftrightarrow> x = y) \<Longrightarrow> map f xs = map f ys \<longleftrightarrow> xs = ys"
  by (rule inj_map_eq_map) (simp add: inj_def)

lemma map_JStr_inj [simp]: "map JStr xs = map JStr ys \<longleftrightarrow> xs = ys"
  by (rule map_inj_iff) simp

lemma dump_option_JStr_inj [simp]: "dump_option JStr a = dump_option JStr b \<longleftrightarrow> a = b"
  by (rule dump_option_inj) auto

lemma dump_entry_inj [simp]: "dump_entry x = dump_entry y \<longleftrightarrow> x = y"
  by (cases x; cases y) (auto simp: dump_entry_def)

lemma dump_address_list_inj [simp]: "dump_address_list x = dump_address_list y \<longleftrightarrow> x = y"
  by (cases x; cases y) (auto simp: dump_address_list_def map_inj_iff)

lemma dump_blocked_rule_inj [simp]: "dump_blocked_rule x = dump_blocked_rule y \<longleftrightarrow> x = y"
  by (cases x; cases y) (auto simp: dump_blocked_rule_def)

lemma dump_blocked_state_inj [simp]: "dump_blocked_state x = dump_blocked_state y \<longleftrightarrow> x = y"
  by (cases x; cases y) (auto simp: dump_blocked_state_def map_inj_iff)

lemma wf_dump_option [simp]: "(\<And>x. wf_json (f x)) \<Longrightarrow> wf_json (dump_option f a)"
  by (cases a) auto

lemma wf_dump_entry [simp]: "wf_json (dump_entry e)"
  by (simp add: dump_entry_def)

lemma wf_dump_address_list [simp]: "wf_json (dump_address_list l)"
  by (simp add: dump_address_list_def list_all_iff)

lemma wf_dump_blocked_rule [simp]: "wf_json (dump_blocked_rule r)"
  by (simp add: dump_blocked_rule_def list_all_iff)

lemma wf_dump_blocked_state [simp]: "wf_json (dump_blocked_state s)"
  by (simp add: dump_blocked_state_def list_all_iff)

end
