(* ===== verification/Compliance_Schema.thy ===== *)
theory Compliance_Schema
  imports Blocked_State
begin

text \<open>
  \<^verbatim>\<open>schemas/compliance.py\<close>: the typed resources of Gmail content compliance, and
  \<^verbatim>\<open>domain/regex_validation.py\<close>. A \<open>check_\<close> function takes the raw fields of a model
  and returns the value its validating constructor builds; applied to a value that is already
  valid it is the identity (the \<open>_again\<close> lemmas), which is what re-reading a dump does. The
  RE2 compiler is the parameter \<open>re2_ok\<close>, true of the patterns it accepts.
\<close>

section \<open>Enumerations\<close>

datatype message_direction = Inbound | Outbound | Internal_Sending | Internal_Receiving

fun direction_value :: "message_direction \<Rightarrow> string" where
  "direction_value Inbound = ''inbound''"
| "direction_value Outbound = ''outbound''"
| "direction_value Internal_Sending = ''internal_sending''"
| "direction_value Internal_Receiving = ''internal_receiving''"

datatype combiner = Combine_Any | Combine_All

fun combiner_value :: "combiner \<Rightarrow> string" where
  "combiner_value Combine_Any = ''any''"
| "combiner_value Combine_All = ''all''"

datatype content_location = Headers_And_Body | Full_Headers | Body | Subject | Sender_Header
  | Recipient_Header | Envelope_Sender | Envelope_Recipient | Raw_Message

fun location_value :: "content_location \<Rightarrow> string" where
  "location_value Headers_And_Body = ''headers_and_body''"
| "location_value Full_Headers = ''full_headers''"
| "location_value Body = ''body''"
| "location_value Subject = ''subject''"
| "location_value Sender_Header = ''sender_header''"
| "location_value Recipient_Header = ''recipient_header''"
| "location_value Envelope_Sender = ''envelope_sender''"
| "location_value Envelope_Recipient = ''envelope_recipient''"
| "location_value Raw_Message = ''raw_message''"

datatype match_type = Starts_With | Ends_With | Contains | Not_Contains | Equals | Is_Empty
  | Matches_Regex | Not_Matches_Regex | Matches_Any_Word | Matches_All_Words

fun match_value :: "match_type \<Rightarrow> string" where
  "match_value Starts_With = ''starts_with''"
| "match_value Ends_With = ''ends_with''"
| "match_value Contains = ''contains''"
| "match_value Not_Contains = ''not_contains''"
| "match_value Equals = ''equals''"
| "match_value Is_Empty = ''is_empty''"
| "match_value Matches_Regex = ''matches_regex''"
| "match_value Not_Matches_Regex = ''not_matches_regex''"
| "match_value Matches_Any_Word = ''matches_any_word''"
| "match_value Matches_All_Words = ''matches_all_words''"

definition is_regex_match :: "match_type \<Rightarrow> bool" where
  "is_regex_match m \<longleftrightarrow> m = Matches_Regex \<or> m = Not_Matches_Regex"

datatype metadata_attribute = Message_Authentication | Source_IP | Secure_Transport
  | Smime_Encryption | Smime_Signature | Message_Size | Gmail_Confidential_Mode
  | Security_Sandbox_Malware

fun attribute_value :: "metadata_attribute \<Rightarrow> string" where
  "attribute_value Message_Authentication = ''message_authentication''"
| "attribute_value Source_IP = ''source_ip''"
| "attribute_value Secure_Transport = ''secure_transport''"
| "attribute_value Smime_Encryption = ''smime_encryption''"
| "attribute_value Smime_Signature = ''smime_signature''"
| "attribute_value Message_Size = ''message_size''"
| "attribute_value Gmail_Confidential_Mode = ''gmail_confidential_mode''"
| "attribute_value Security_Sandbox_Malware = ''security_sandbox_malware''"

fun metadata_operators :: "metadata_attribute \<Rightarrow> string list" where
  "metadata_operators Message_Authentication = [''authenticated'', ''not_authenticated'']"
| "metadata_operators Source_IP = [''within_range'', ''not_within_range'']"
| "metadata_operators Secure_Transport = [''tls'', ''not_tls'']"
| "metadata_operators Smime_Encryption = [''encrypted'', ''not_encrypted'']"
| "metadata_operators Smime_Signature = [''signed'', ''not_signed'']"
| "metadata_operators Message_Size = [''greater_than_mb'', ''less_than_mb'']"
| "metadata_operators Gmail_Confidential_Mode = [''confidential'', ''not_confidential'']"
| "metadata_operators Security_Sandbox_Malware = [''malware_detected'']"

definition attribute_takes_value :: "metadata_attribute \<Rightarrow> bool" where
  "attribute_takes_value a \<longleftrightarrow> a = Source_IP \<or> a = Message_Size"

lemma enum_values_inj [simp]:
  "direction_value d = direction_value d' \<longleftrightarrow> d = d'"
  "combiner_value c = combiner_value c' \<longleftrightarrow> c = c'"
  "location_value l = location_value l' \<longleftrightarrow> l = l'"
  "match_value m = match_value m' \<longleftrightarrow> m = m'"
  "attribute_value a = attribute_value a' \<longleftrightarrow> a = a'"
      apply (cases d; cases d'; simp)
     apply (cases c; cases c'; simp)
    apply (cases l; cases l'; simp)
   apply (cases m; cases m'; simp)
  by (cases a; cases a'; simp)

section \<open>Organizational units\<close>

record ou_ref =
  ou_path :: string
  ou_organization :: "string option"

text \<open>The path test shared by \<^verbatim>\<open>OrganizationalUnitRef\<close> and \<^verbatim>\<open>_normalized_ou\<close>.\<close>

definition ou_path_ok :: "string \<Rightarrow> bool" where
  "ou_path_ok path \<longleftrightarrow> py_startswith path ''/'' \<and> \<not> py_contains path ''//'' \<and>
     \<not> (py_endswith path ''/'' \<and> path \<noteq> ''/'') \<and>
     \<not> list_ex (\<lambda>part. part = ''.'' \<or> part = ''..'') (tl (py_split CHR ''/'' path))"

definition check_ou_ref :: "ou_ref \<Rightarrow> ou_ref res" where
  "check_ou_ref r =
     (if length (ou_path r) < 1 \<or> length (ou_path r) > 1000 then Inl ValidationError
      else if \<exists>o' \<in> set_option (ou_organization r). length o' < 1 \<or> length o' > 256
        then Inl ValidationError
      else if \<not> ou_path_ok (py_strip (ou_path r)) then Inl ValidationError
      else Inr (r\<lparr>ou_path := py_strip (ou_path r)\<rparr>))"

lemma check_ou_ref_Inr:
  assumes "check_ou_ref r = Inr s"
  shows "s = r\<lparr>ou_path := py_strip (ou_path r)\<rparr>" "ou_path_ok (ou_path s)"
    "length (ou_path s) \<le> 1000" "\<forall>o' \<in> set_option (ou_organization s). length o' \<ge> 1 \<and> length o' \<le> 256"
  using assms by (auto simp: check_ou_ref_def not_less Suc_le_eq py_strip_length_le split: if_splits)

lemma ou_path_ok_nonempty: "ou_path_ok p \<Longrightarrow> p \<noteq> []"
  by (auto simp: ou_path_ok_def)

lemma check_ou_ref_again: "check_ou_ref r = Inr s \<Longrightarrow> check_ou_ref s = Inr s"
proof -
  assume r: "check_ou_ref r = Inr s"
  note s = check_ou_ref_Inr [OF r]
  have "py_strip (ou_path s) = ou_path s" using s(1) by simp
  moreover have "\<not> length (ou_path s) < 1" using ou_path_ok_nonempty [OF s(2)] by (cases "ou_path s") auto
  ultimately show ?thesis using s(2,3,4) by (auto simp: check_ou_ref_def)
qed

section \<open>Expressions\<close>

datatype confidence = Low | Medium | High

fun confidence_value :: "confidence \<Rightarrow> string" where
  "confidence_value Low = ''low''"
| "confidence_value Medium = ''medium''"
| "confidence_value High = ''high''"

lemma confidence_value_inj [simp]: "confidence_value c = confidence_value d \<longleftrightarrow> c = d"
  by (cases c; cases d; simp)

datatype expression =
    Simple_Match string
  | Advanced_Match content_location match_type "string option" "string option" int
  | Metadata_Match metadata_attribute string "string option"
  | Predefined_Match string int "confidence option" string

text \<open>\<^verbatim>\<open>bool(value)\<close> of an optional string.\<close>

definition given :: "string option \<Rightarrow> bool" where
  "given v \<longleftrightarrow> v \<noteq> None \<and> v \<noteq> Some []"

definition within :: "string option \<Rightarrow> nat \<Rightarrow> bool" where
  "within v n \<longleftrightarrow> (\<forall>s \<in> set_option v. length s \<le> n)"

fun check_expression :: "expression \<Rightarrow> expression res" where
  "check_expression (Simple_Match content) =
     (if length content < 1 \<or> length content > 10000 then Inl ValidationError
      else Inr (Simple_Match content))"
| "check_expression (Advanced_Match location mt value0 description minimum) =
     (if \<not> within value0 10000 \<or> \<not> within description 1000 \<or> minimum < 1 \<or> minimum > 10000
      then Inl ValidationError
      else let v = map_option py_strip value0 in
        if mt = Is_Empty \<and> given v then Inl ValidationError
        else if mt \<noteq> Is_Empty \<and> \<not> given v then Inl ValidationError
        else if \<not> is_regex_match mt \<and> (given description \<or> minimum \<noteq> 1) then Inl ValidationError
        else Inr (Advanced_Match location mt v description minimum))"
| "check_expression (Metadata_Match attribute operator value0) =
     (if length operator < 1 \<or> length operator > 100 \<or> \<not> within value0 1000
      then Inl ValidationError
      else if operator \<notin> set (metadata_operators attribute) then Inl ValidationError
      else let v = map_option py_strip value0 in
        if attribute_takes_value attribute \<noteq> given v then Inl ValidationError
        else Inr (Metadata_Match attribute operator v))"
| "check_expression (Predefined_Match detector minimum conf capability) =
     (if length detector < 1 \<or> length detector > 500 \<or> minimum < 1 \<or> minimum > 10000 \<or>
         length capability < 1 \<or> length capability > 200 then Inl ValidationError
      else Inr (Predefined_Match detector minimum conf capability))"

lemma map_option_strip [simp]: "map_option py_strip (map_option py_strip v) = map_option py_strip v"
  by (cases v) auto

lemma within_strip [simp]: "within v n \<Longrightarrow> within (map_option py_strip v) n"
  by (cases v) (auto simp: within_def py_strip_length_le)

lemma check_expression_again: "check_expression e = Inr f \<Longrightarrow> check_expression f = Inr f"
  by (cases e) (auto simp: Let_def split: if_splits)

text \<open>\<^verbatim>\<open>getattr(expression, "required_edition_capability", None)\<close>.\<close>

fun required_capability :: "expression \<Rightarrow> string option" where
  "required_capability (Predefined_Match detector minimum conf capability) = Some capability"
| "required_capability _ = None"

subsection \<open>Regular expressions\<close>

definition max_google_regex_characters :: nat where "max_google_regex_characters = 10000"

definition validate_google_regex :: "(string \<Rightarrow> bool) \<Rightarrow> string \<Rightarrow> string res" where
  "validate_google_regex re2_ok pattern =
     (if pattern = [] \<or> length pattern > max_google_regex_characters then Inl ValueError
      else if \<not> re2_ok pattern then Inl ValueError
      else Inr pattern)"

fun validate_expression_regex :: "(string \<Rightarrow> bool) \<Rightarrow> expression \<Rightarrow> expression res" where
  "validate_expression_regex re2_ok (Advanced_Match location mt v description minimum) =
     (if is_regex_match mt then
        (case v of
           None \<Rightarrow> Inl ValueError
         | Some pattern \<Rightarrow> and_then (validate_google_regex re2_ok pattern)
             (\<lambda>_. Inr (Advanced_Match location mt v description minimum)))
      else Inr (Advanced_Match location mt v description minimum))"
| "validate_expression_regex re2_ok e = Inr e"

fun dump_expression :: "expression \<Rightarrow> json" where
  "dump_expression (Simple_Match content) =
     JObj [(''type'', JStr ''simple''), (''content'', JStr content)]"
| "dump_expression (Advanced_Match location mt v description minimum) =
     JObj [(''type'', JStr ''advanced''), (''location'', JStr (location_value location)),
       (''match_type'', JStr (match_value mt)), (''value'', dump_option JStr v),
       (''regex_description'', dump_option JStr description), (''minimum_match_count'', JInt minimum)]"
| "dump_expression (Metadata_Match attribute operator v) =
     JObj [(''type'', JStr ''metadata''), (''attribute'', JStr (attribute_value attribute)),
       (''operator'', JStr operator), (''value'', dump_option JStr v)]"
| "dump_expression (Predefined_Match detector minimum conf capability) =
     JObj [(''type'', JStr ''predefined''), (''detector'', JStr detector),
       (''minimum_match_count'', JInt minimum),
       (''confidence'', dump_option (\<lambda>c. JStr (confidence_value c)) conf),
       (''required_edition_capability'', JStr capability)]"

lemma dump_confidence_inj [simp]:
  "dump_option (\<lambda>c. JStr (confidence_value c)) a = dump_option (\<lambda>c. JStr (confidence_value c)) b
     \<longleftrightarrow> a = b"
  by (rule dump_option_inj) auto

lemma dump_expression_inj [simp]: "dump_expression e = dump_expression f \<longleftrightarrow> e = f"
  by (cases e; cases f) auto

lemma wf_dump_expression [simp]: "wf_json (dump_expression e)"
  by (cases e) auto

section \<open>Conditions, filters and notices\<close>

datatype condition_mode = Mode_Bypass | Mode_Only_Apply

fun condition_mode_value :: "condition_mode \<Rightarrow> string" where
  "condition_mode_value Mode_Bypass = ''bypass''"
| "condition_mode_value Mode_Only_Apply = ''only_apply''"

record list_condition =
  lc_mode :: condition_mode
  lc_names :: "string list"

definition check_list_condition :: "list_condition \<Rightarrow> list_condition res" where
  "check_list_condition c =
     (let normalized = filter (\<lambda>n. n \<noteq> []) (map py_strip (lc_names c))
      in if normalized = [] \<or> \<not> distinct normalized then Inl ValidationError
         else Inr (c\<lparr>lc_names := normalized\<rparr>))"

lemma check_list_condition_again: "check_list_condition c = Inr d \<Longrightarrow> check_list_condition d = Inr d"
proof -
  assume "check_list_condition c = Inr d"
  moreover have "map py_strip (filter P (map py_strip xs)) = filter P (map py_strip xs)" for P xs
    by (induction xs) auto
  ultimately show ?thesis
    by (auto simp: check_list_condition_def Let_def simp del: filter_map split: if_splits)
qed

datatype envelope_party = Party_Sender | Party_Recipient
datatype envelope_selector = Single_Address | Pattern | Group_Membership

fun party_value :: "envelope_party \<Rightarrow> string" where
  "party_value Party_Sender = ''sender''"
| "party_value Party_Recipient = ''recipient''"

fun selector_value :: "envelope_selector \<Rightarrow> string" where
  "selector_value Single_Address = ''single_address''"
| "selector_value Pattern = ''pattern''"
| "selector_value Group_Membership = ''group_membership''"

record envelope_filter =
  ef_party :: envelope_party
  ef_selector :: envelope_selector
  ef_value :: string

definition check_envelope_filter :: "envelope_filter \<Rightarrow> envelope_filter res" where
  "check_envelope_filter f =
     (if length (ef_value f) < 1 \<or> length (ef_value f) > 10000 then Inl ValidationError else Inr f)"

record persona =
  pe_role :: string
  pe_traits :: "string list"
  pe_voice :: string
  pe_motif :: string
  pe_seed :: int
  pe_age :: "int option"
  pe_occupation :: string
  pe_location :: string
  pe_goals :: "string list"
  pe_personality :: string
  pe_time_period :: string
  pe_mood :: string
  pe_alignment :: string
  pe_delivery :: string

definition check_persona :: "persona \<Rightarrow> persona res" where
  "check_persona p =
     (if length (pe_role p) < 1 \<or> length (pe_role p) > 120 \<or>
         length (pe_traits p) < 1 \<or> length (pe_traits p) > 6 \<or>
         length (pe_voice p) < 1 \<or> length (pe_voice p) > 200 \<or>
         length (pe_motif p) < 1 \<or> length (pe_motif p) > 200 \<or> pe_seed p < 0 \<or>
         (\<exists>a \<in> set_option (pe_age p). a < 21 \<or> a > 79) \<or>
         length (pe_occupation p) > 120 \<or> length (pe_location p) > 160 \<or>
         length (pe_goals p) > 2 \<or> length (pe_personality p) > 200 \<or>
         length (pe_time_period p) > 120 \<or> length (pe_mood p) > 80 \<or>
         length (pe_alignment p) > 40 \<or> length (pe_delivery p) > 40
      then Inl ValidationError else Inr p)"

record generated_notice =
  gn_text :: string
  gn_category :: string
  gn_policy_id :: string
  gn_persona :: persona
  gn_fallback :: bool

text \<open>The pattern \<^verbatim>\<open>^[A-Z][A-Z0-9-]{2,63}$\<close>.\<close>

definition is_upper :: "char \<Rightarrow> bool" where
  "is_upper c \<longleftrightarrow> (let n = (of_char c :: nat) in 65 \<le> n \<and> n \<le> 90)"

definition policy_id_ok :: "string \<Rightarrow> bool" where
  "policy_id_ok s \<longleftrightarrow> 3 \<le> length s \<and> length s \<le> 64 \<and> is_upper (hd s) \<and>
     list_all (\<lambda>c. is_upper c \<or> is_digit_char c \<or> c = CHR ''-'') (tl s)"

definition check_notice :: "generated_notice \<Rightarrow> generated_notice res" where
  "check_notice g =
     (if length (gn_text g) < 1 \<or> length (gn_text g) > 1000 \<or>
         length (gn_category g) < 1 \<or> length (gn_category g) > 120 \<or>
         \<not> policy_id_ok (gn_policy_id g) then Inl ValidationError
      else and_then (check_persona (gn_persona g)) (\<lambda>p.
        if py_contains (py_casefold (gn_text g)) (py_casefold (gn_policy_id g))
        then Inl ValidationError
        else Inr (g\<lparr>gn_persona := p\<rparr>)))"

lemma check_persona_Inr: "check_persona p = Inr q \<Longrightarrow> q = p"
  by (simp add: check_persona_def split: if_splits)

lemma check_notice_Inr: "check_notice g = Inr h \<Longrightarrow> h = g"
  by (auto simp: check_notice_def and_then_Inr_iff dest: check_persona_Inr split: if_splits)

lemma check_notice_again: "check_notice g = Inr h \<Longrightarrow> check_notice h = Inr h"
  using check_notice_Inr by blast

text \<open>The internal policy identifier never reaches the senders.\<close>

lemma check_notice_hides_policy_id:
  "check_notice g = Inr h \<Longrightarrow> \<not> py_contains (py_casefold (gn_text h)) (py_casefold (gn_policy_id h))"
  by (auto simp: check_notice_def and_then_Inr_iff split: if_splits)

section \<open>Rules and states\<close>

record compliance_draft =
  cr_ou :: ou_ref
  cr_directions :: "message_direction list"
  cr_combiner :: combiner
  cr_expressions :: "expression list"
  cr_notice :: generated_notice
  cr_condition :: "list_condition option"
  cr_filters :: "envelope_filter list"
  cr_enabled :: bool
  cr_inherited :: bool

record compliance_rule = compliance_draft +
  cr_id :: uuid
  cr_name :: string

fun check_option :: "('a \<Rightarrow> 'b res) \<Rightarrow> 'a option \<Rightarrow> 'b option res" where
  "check_option f None = Inr None"
| "check_option f (Some x) = and_then (f x) (\<lambda>y. Inr (Some y))"

definition max_compliance_expressions :: nat where "max_compliance_expressions = 10"

definition check_draft :: "'a compliance_draft_scheme \<Rightarrow> 'a compliance_draft_scheme res" where
  "check_draft d =
     and_then (check_ou_ref (cr_ou d)) (\<lambda>ou.
     and_then (map_res check_expression (cr_expressions d)) (\<lambda>expressions.
     and_then (check_notice (cr_notice d)) (\<lambda>notice.
     and_then (check_option check_list_condition (cr_condition d)) (\<lambda>condition.
     and_then (map_res check_envelope_filter (cr_filters d)) (\<lambda>filters.
     if cr_directions d = [] \<or> \<not> distinct (cr_directions d) then Inl ValidationError
     else if expressions = [] \<or> length expressions > max_compliance_expressions
       then Inl ValidationError
     else Inr (d\<lparr>cr_ou := ou, cr_expressions := expressions, cr_notice := notice,
            cr_condition := condition, cr_filters := filters,
            cr_enabled := cr_enabled d \<or> cr_inherited d\<rparr>))))))"

definition check_compliance_rule :: "compliance_rule \<Rightarrow> compliance_rule res" where
  "check_compliance_rule r =
     (if length (cr_name r) < 1 \<or> length (cr_name r) > 200 then Inl ValidationError
      else check_draft r)"

record compliance_state =
  cs_rules :: "compliance_rule list"
  cs_unmanaged :: "string list"
  cs_capabilities :: "string list"

text \<open>The capabilities are a set; it is kept as its sorted elements.\<close>

definition make_compliance_state ::
    "compliance_rule list \<Rightarrow> string list \<Rightarrow> string list \<Rightarrow> compliance_state res" where
  "make_compliance_state rules unmanaged capabilities =
     (let names = map cr_name rules @ unmanaged
      in if \<not> distinct (map cr_id rules) \<or> \<not> distinct names then Inl ValidationError
         else Inr \<lparr>cs_rules = rules, cs_unmanaged = unmanaged,
                cs_capabilities = sort (remdups capabilities)\<rparr>)"

record gmail_policy_state =
  gp_blocked :: "blocked_state list"
  gp_compliance :: compliance_state

lemma map_res_again:
  assumes "map_res f xs = Inr ys" and "\<And>x y. f x = Inr y \<Longrightarrow> f y = Inr y"
  shows "map_res f ys = Inr ys"
  using assms by (induction xs arbitrary: ys) (auto simp: and_then_Inr_iff)

lemma check_option_again:
  assumes "check_option f a = Inr b" and "\<And>x y. f x = Inr y \<Longrightarrow> f y = Inr y"
  shows "check_option f b = Inr b"
  using assms by (cases a) (auto simp: and_then_Inr_iff)

text \<open>A draft read back from its own dump is the same draft.\<close>

lemma check_draft_again:
  assumes "check_draft d = Inr e"
  shows "check_draft e = Inr e"
proof -
  from assms obtain ou es n c fs where
    ok: "check_ou_ref (cr_ou d) = Inr ou" "map_res check_expression (cr_expressions d) = Inr es"
      "check_notice (cr_notice d) = Inr n" "check_option check_list_condition (cr_condition d) = Inr c"
      "map_res check_envelope_filter (cr_filters d) = Inr fs"
    and rest: "cr_directions d \<noteq> []" "distinct (cr_directions d)" "es \<noteq> []"
      "length es \<le> max_compliance_expressions"
    and e: "e = d\<lparr>cr_ou := ou, cr_expressions := es, cr_notice := n, cr_condition := c,
        cr_filters := fs, cr_enabled := cr_enabled d \<or> cr_inherited d\<rparr>"
    unfolding check_draft_def by (elim and_thenE) (simp split: if_splits)
  have filters: "check_envelope_filter x = Inr y \<Longrightarrow> check_envelope_filter y = Inr y" for x y
    by (auto simp: check_envelope_filter_def split: if_splits)
  note again = check_ou_ref_again [OF ok(1)] map_res_again [OF ok(2) check_expression_again]
    check_notice_again [OF ok(3)] check_option_again [OF ok(4) check_list_condition_again]
    map_res_again [OF ok(5) filters]
  show ?thesis unfolding e check_draft_def using again rest by simp
qed

text \<open>What a validated draft satisfies.\<close>

definition wf_draft :: "'a compliance_draft_scheme \<Rightarrow> bool" where
  "wf_draft d \<longleftrightarrow> check_draft d = Inr d"

lemma wf_draft_facts:
  assumes "wf_draft d"
  shows "cr_directions d \<noteq> []" "distinct (cr_directions d)" "cr_expressions d \<noteq> []"
    "length (cr_expressions d) \<le> 10" "cr_inherited d \<Longrightarrow> cr_enabled d"
    "ou_path_ok (ou_path (cr_ou d))"
    "\<not> py_contains (py_casefold (gn_text (cr_notice d))) (py_casefold (gn_policy_id (cr_notice d)))"
proof -
  from assms obtain ou es n c fs where
    ok: "check_ou_ref (cr_ou d) = Inr ou" "map_res check_expression (cr_expressions d) = Inr es"
      "check_notice (cr_notice d) = Inr n"
    and rest: "cr_directions d \<noteq> []" "distinct (cr_directions d)" "es \<noteq> []"
      "length es \<le> max_compliance_expressions"
    and e: "d\<lparr>cr_ou := ou, cr_expressions := es, cr_notice := n, cr_condition := c,
        cr_filters := fs, cr_enabled := cr_enabled d \<or> cr_inherited d\<rparr> = d"
    unfolding wf_draft_def check_draft_def by (elim and_thenE) (simp split: if_splits)
  have parts: "cr_ou d = ou" "cr_expressions d = es" "cr_notice d = n"
      "cr_enabled d = (cr_enabled d \<or> cr_inherited d)"
    using arg_cong [OF e, of cr_ou] arg_cong [OF e, of cr_expressions]
      arg_cong [OF e, of cr_notice] arg_cong [OF e, of cr_enabled] by simp_all
  show "cr_directions d \<noteq> []" "distinct (cr_directions d)" "cr_expressions d \<noteq> []"
    "length (cr_expressions d) \<le> 10" "cr_inherited d \<Longrightarrow> cr_enabled d"
    using rest parts by (auto simp: max_compliance_expressions_def)
  show "ou_path_ok (ou_path (cr_ou d))"
    using check_ou_ref_Inr(2) [OF ok(1)] parts(1) by simp
  show "\<not> py_contains (py_casefold (gn_text (cr_notice d))) (py_casefold (gn_policy_id (cr_notice d)))"
    using check_notice_hides_policy_id [OF ok(3)] parts(3) by simp
qed

lemma make_compliance_state_Inr:
  assumes "make_compliance_state rs us caps = Inr s"
  shows "distinct (map cr_id (cs_rules s))" "distinct (map cr_name (cs_rules s) @ cs_unmanaged s)"
    "cs_rules s = rs" "cs_unmanaged s = us" "set (cs_capabilities s) = set caps"
  using assms by (auto simp: make_compliance_state_def Let_def split: if_splits) blast

subsection \<open>Dumps\<close>

definition dump_ou_ref :: "ou_ref \<Rightarrow> json" where
  "dump_ou_ref r = JObj [(''path'', JStr (ou_path r)),
     (''organization_id'', dump_option JStr (ou_organization r))]"

definition dump_persona :: "persona \<Rightarrow> json" where
  "dump_persona p = JObj [(''fictional_role'', JStr (pe_role p)),
     (''traits'', JArr (map JStr (pe_traits p))), (''voice'', JStr (pe_voice p)),
     (''motif'', JStr (pe_motif p)), (''seed'', JInt (pe_seed p)),
     (''age'', dump_option JInt (pe_age p)), (''occupation'', JStr (pe_occupation p)),
     (''location'', JStr (pe_location p)), (''goals'', JArr (map JStr (pe_goals p))),
     (''personality'', JStr (pe_personality p)), (''time_period'', JStr (pe_time_period p)),
     (''current_mood'', JStr (pe_mood p)), (''alignment'', JStr (pe_alignment p)),
     (''delivery_style'', JStr (pe_delivery p))]"

definition dump_notice :: "generated_notice \<Rightarrow> json" where
  "dump_notice g = JObj [(''text'', JStr (gn_text g)), (''policy_category'', JStr (gn_category g)),
     (''policy_id'', JStr (gn_policy_id g)), (''persona'', dump_persona (gn_persona g)),
     (''disclosure'', JStr ''category_only''), (''used_fallback'', JBool (gn_fallback g))]"

definition dump_list_condition :: "list_condition \<Rightarrow> json" where
  "dump_list_condition c = JObj [(''mode'', JStr (condition_mode_value (lc_mode c))),
     (''address_list_names'', JArr (map JStr (lc_names c)))]"

definition dump_envelope_filter :: "envelope_filter \<Rightarrow> json" where
  "dump_envelope_filter f = JObj [(''party'', JStr (party_value (ef_party f))),
     (''selector'', JStr (selector_value (ef_selector f))), (''value'', JStr (ef_value f))]"

definition draft_members :: "'a compliance_draft_scheme \<Rightarrow> (string \<times> json) list" where
  "draft_members d = [(''target_ou'', dump_ou_ref (cr_ou d)),
     (''directions'', JArr (map (\<lambda>x. JStr (direction_value x)) (cr_directions d))),
     (''combiner'', JStr (combiner_value (cr_combiner d))),
     (''expressions'', JArr (map dump_expression (cr_expressions d))),
     (''rejection_notice'', dump_notice (cr_notice d)),
     (''address_list_condition'', dump_option dump_list_condition (cr_condition d)),
     (''envelope_filters'', JArr (map dump_envelope_filter (cr_filters d))),
     (''enabled'', JBool (cr_enabled d)), (''inherited'', JBool (cr_inherited d))]"

definition dump_draft :: "compliance_draft \<Rightarrow> json" where
  "dump_draft d = JObj (draft_members d)"

definition dump_compliance_rule :: "compliance_rule \<Rightarrow> json" where
  "dump_compliance_rule r = JObj (draft_members r @
     [(''ownership_id'', JStr (uuid_str (cr_id r))), (''display_name'', JStr (cr_name r))])"

definition dump_compliance_state :: "compliance_state \<Rightarrow> json" where
  "dump_compliance_state s = JObj [(''schema_version'', JStr ''2.0''),
     (''rules'', JArr (map dump_compliance_rule (cs_rules s))),
     (''unmanaged_rule_names'', JArr (map JStr (cs_unmanaged s))),
     (''available_capabilities'', JArr (map JStr (cs_capabilities s)))]"

definition dump_gmail_policy_state :: "gmail_policy_state \<Rightarrow> json" where
  "dump_gmail_policy_state s = JObj [(''schema_version'', JStr ''2.0''),
     (''blocked_sender_states'', JArr (map dump_blocked_state (gp_blocked s))),
     (''content_compliance'', dump_compliance_state (gp_compliance s))]"

lemma compliance_enums_inj [simp]:
  "condition_mode_value m = condition_mode_value n \<longleftrightarrow> m = n"
  "party_value p = party_value q \<longleftrightarrow> p = q"
  "selector_value s = selector_value t \<longleftrightarrow> s = t"
    apply (cases m; cases n; simp)
   apply (cases p; cases q; simp)
  by (cases s; cases t; simp)

lemma dump_parts_inj [simp]:
  "dump_ou_ref a = dump_ou_ref b \<longleftrightarrow> a = b"
  "dump_list_condition c = dump_list_condition d \<longleftrightarrow> c = d"
  "dump_envelope_filter e = dump_envelope_filter f \<longleftrightarrow> e = f"
    apply (cases a; cases b; simp add: dump_ou_ref_def)
   apply (cases c; cases d; simp add: dump_list_condition_def)
  by (cases e; cases f; simp add: dump_envelope_filter_def)

lemma dump_persona_inj [simp]: "dump_persona p = dump_persona q \<longleftrightarrow> p = q"
proof -
  have "dump_option JInt a = dump_option JInt b \<longleftrightarrow> a = b" for a b
    by (rule dump_option_inj) auto
  then show ?thesis by (cases p; cases q) (simp add: dump_persona_def)
qed

lemma dump_notice_inj [simp]: "dump_notice g = dump_notice h \<longleftrightarrow> g = h"
  by (cases g; cases h) (simp add: dump_notice_def)

lemma dump_condition_inj [simp]:
  "dump_option dump_list_condition a = dump_option dump_list_condition b \<longleftrightarrow> a = b"
  by (rule dump_option_inj) (auto simp: dump_list_condition_def [of _])

lemma dump_compliance_rule_inj [simp]:
  "dump_compliance_rule r = dump_compliance_rule s \<longleftrightarrow> r = s"
proof -
  have "map (\<lambda>x. JStr (direction_value x)) a = map (\<lambda>x. JStr (direction_value x)) b \<longleftrightarrow> a = b"
    "map dump_expression c = map dump_expression d \<longleftrightarrow> c = d"
    "map dump_envelope_filter e = map dump_envelope_filter f \<longleftrightarrow> e = f" for a b c d e f
    by (auto simp: map_inj_iff)
  then show ?thesis
    by (cases r; cases s) (auto simp: dump_compliance_rule_def draft_members_def)
qed

lemma wf_dump_compliance [simp]:
  "wf_json (dump_compliance_rule r)" "wf_json (dump_compliance_state s)"
  "wf_json (dump_gmail_policy_state t)"
  by (simp_all add: dump_compliance_rule_def dump_compliance_state_def dump_gmail_policy_state_def
      draft_members_def dump_ou_ref_def dump_notice_def dump_persona_def dump_list_condition_def
      dump_envelope_filter_def list_all_iff)

end
