(* ===== verification/Task_Plan.thy ===== *)
theory Task_Plan
  imports Compliance_Schema
begin

text \<open>
  \<^verbatim>\<open>schemas/plan.py\<close>: the thirteen typed actions and the \<^verbatim>\<open>TaskPlan\<close> that is the
  boundary between the language model and the application, and the direct-command plans of
  \<^verbatim>\<open>application/planning_service.py\<close>. \<open>check_action\<close> is the validating constructor
  of an action, \<open>make_task_plan\<close> that of a plan (whose actions are already constructed).
\<close>

section \<open>Actions\<close>

datatype action =
    Add_Blocked_Entries "address_entry list" "string option" "uuid option" string
  | Remove_Blocked_Entries "address_entry list" uuid
  | Set_Rejection_Notice uuid string
  | Create_Blocked_Sender_Rule "address_entry list" "string option" string "address_entry list" bool
  | Update_Blocked_Sender_Rule uuid "address_entry list" "address_entry list" "string option" bool
  | Remove_Blocked_Sender_Rule uuid bool
  | Set_Blocked_Sender_Rule_Enabled uuid bool
  | List_Blocked_Sender_Rules
  | Create_Content_Compliance_Rule compliance_draft
  | Update_Content_Compliance_Rule uuid compliance_rule
  | Remove_Content_Compliance_Rule uuid
  | Set_Content_Compliance_Rule_Enabled uuid bool
  | List_Content_Compliance_Rules

fun action_type :: "action \<Rightarrow> string" where
  "action_type (Add_Blocked_Entries _ _ _ _) = ''add_blocked_entries''"
| "action_type (Remove_Blocked_Entries _ _) = ''remove_blocked_entries''"
| "action_type (Set_Rejection_Notice _ _) = ''set_rejection_notice''"
| "action_type (Create_Blocked_Sender_Rule _ _ _ _ _) = ''create_blocked_sender_rule''"
| "action_type (Update_Blocked_Sender_Rule _ _ _ _ _) = ''update_blocked_sender_rule''"
| "action_type (Remove_Blocked_Sender_Rule _ _) = ''remove_blocked_sender_rule''"
| "action_type (Set_Blocked_Sender_Rule_Enabled _ _) = ''set_blocked_sender_rule_enabled''"
| "action_type List_Blocked_Sender_Rules = ''list_blocked_sender_rules''"
| "action_type (Create_Content_Compliance_Rule _) = ''create_content_compliance_rule''"
| "action_type (Update_Content_Compliance_Rule _ _) = ''update_content_compliance_rule''"
| "action_type (Remove_Content_Compliance_Rule _) = ''remove_content_compliance_rule''"
| "action_type (Set_Content_Compliance_Rule_Enabled _ _) = ''set_content_compliance_rule_enabled''"
| "action_type List_Content_Compliance_Rules = ''list_content_compliance_rules''"

definition normalized_ou :: "string \<Rightarrow> string res" where
  "normalized_ou v = (if ou_path_ok (py_strip v) then Inr (py_strip v) else Inl ValueError)"

text \<open>\<^verbatim>\<open>_NoticeAction\<close>: an optional notice, stripped, never blank.\<close>

definition check_optional_notice :: "string option \<Rightarrow> string option res" where
  "check_optional_notice notice =
     (case notice of
        None \<Rightarrow> Inr None
      | Some n \<Rightarrow> if length n > 1000 \<or> py_strip n = [] then Inl ValidationError
                  else Inr (Some (py_strip n)))"

definition disjoint_entries :: "address_entry list \<Rightarrow> address_entry list \<Rightarrow> bool" where
  "disjoint_entries blocked bypassed \<longleftrightarrow>
     \<not> list_ex (\<lambda>v. v \<in> set (entry_values bypassed)) (entry_values blocked)"

text \<open>A \<^verbatim>\<open>ValueError\<close> raised in a validator is reported as a \<^verbatim>\<open>ValidationError\<close>.\<close>

fun validated :: "'a res \<Rightarrow> 'a res" where
  "validated (Inl e) = Inl ValidationError"
| "validated (Inr x) = Inr x"

fun check_action :: "action \<Rightarrow> action res" where
  "check_action (Add_Blocked_Entries entries notice target ou) =
     and_then (check_optional_notice notice) (\<lambda>n.
     and_then (validated (normalized_ou ou)) (\<lambda>u. Inr (Add_Blocked_Entries entries n target u)))"
| "check_action (Remove_Blocked_Entries entries target) = Inr (Remove_Blocked_Entries entries target)"
| "check_action (Set_Rejection_Notice target notice) =
     (if length notice < 1 \<or> length notice > 1000 \<or> py_strip notice = [] then Inl ValidationError
      else Inr (Set_Rejection_Notice target (py_strip notice)))"
| "check_action (Create_Blocked_Sender_Rule entries notice ou bypass enabled) =
     and_then (check_optional_notice notice) (\<lambda>n.
     and_then (validated (normalized_ou ou)) (\<lambda>u.
     if \<not> disjoint_entries entries bypass then Inl ValidationError
     else Inr (Create_Blocked_Sender_Rule entries n u bypass enabled)))"
| "check_action (Update_Blocked_Sender_Rule target entries bypass notice enabled) =
     and_then (check_optional_notice notice) (\<lambda>n.
     if \<not> disjoint_entries entries bypass then Inl ValidationError
     else Inr (Update_Blocked_Sender_Rule target entries bypass n enabled))"
| "check_action (Update_Content_Compliance_Rule target rule) =
     (if cr_id rule \<noteq> target then Inl ValidationError
      else if cr_inherited rule then Inl ValidationError
      else Inr (Update_Content_Compliance_Rule target rule))"
| "check_action a = Inr a"

text \<open>\<^verbatim>\<open>getattr(action, "entries", ...)\<close>: the four actions that have entries.\<close>

fun action_entries :: "action \<Rightarrow> address_entry list option" where
  "action_entries (Add_Blocked_Entries entries _ _ _) = Some entries"
| "action_entries (Remove_Blocked_Entries entries _) = Some entries"
| "action_entries (Create_Blocked_Sender_Rule entries _ _ _ _) = Some entries"
| "action_entries (Update_Blocked_Sender_Rule _ entries _ _ _) = Some entries"
| "action_entries _ = None"

text \<open>\<^verbatim>\<open>getattr(action, "target_ou", ...)\<close>.\<close>

fun action_ou :: "action \<Rightarrow> string option" where
  "action_ou (Add_Blocked_Entries _ _ _ ou) = Some ou"
| "action_ou (Create_Blocked_Sender_Rule _ _ ou _ _) = Some ou"
| "action_ou _ = None"

fun is_list_action :: "action \<Rightarrow> bool" where
  "is_list_action List_Blocked_Sender_Rules = True"
| "is_list_action List_Content_Compliance_Rules = True"
| "is_list_action _ = False"

fun is_compliance_action :: "action \<Rightarrow> bool" where
  "is_compliance_action (Create_Content_Compliance_Rule _) = True"
| "is_compliance_action (Update_Content_Compliance_Rule _ _) = True"
| "is_compliance_action (Remove_Content_Compliance_Rule _) = True"
| "is_compliance_action (Set_Content_Compliance_Rule_Enabled _ _) = True"
| "is_compliance_action List_Content_Compliance_Rules = True"
| "is_compliance_action _ = False"

section \<open>Plans\<close>

datatype plan_status = Plan | Clarification_Needed | Unsupported_Request

fun plan_status_value :: "plan_status \<Rightarrow> string" where
  "plan_status_value Plan = ''plan''"
| "plan_status_value Clarification_Needed = ''clarification_needed''"
| "plan_status_value Unsupported_Request = ''unsupported''"

record task_plan =
  tp_schema :: string
  tp_status :: plan_status
  tp_actions :: "action list"
  tp_question :: "string option"
  tp_reason :: "string option"

text \<open>\<^verbatim>\<open>not text or not text.strip()\<close>.\<close>

definition blank :: "string option \<Rightarrow> bool" where
  "blank v \<longleftrightarrow> (case v of None \<Rightarrow> True | Some s \<Rightarrow> py_strip s = [])"

definition validate_status :: "task_plan \<Rightarrow> unit res" where
  "validate_status p =
     (if tp_status p = Plan then
        (if tp_actions p = [] then Inl ValueError
         else if given (tp_question p) \<or> given (tp_reason p) then Inl ValueError
         else Inr ())
      else if tp_actions p \<noteq> [] then Inl ValueError
      else if tp_status p = Clarification_Needed then
        (if blank (tp_question p) then Inl ValueError
         else if given (tp_reason p) then Inl ValueError
         else Inr ())
      else if blank (tp_reason p) then Inl ValueError
      else if given (tp_question p) then Inl ValueError
      else Inr ())"

definition make_task_plan :: "task_plan \<Rightarrow> task_plan res" where
  "make_task_plan p =
     (if tp_schema p \<noteq> ''1.0'' \<and> tp_schema p \<noteq> ''2.0'' then Inl ValidationError
      else and_then (validated (validate_status p)) (\<lambda>_.
        if list_ex is_list_action (tp_actions p) \<and> length (tp_actions p) \<noteq> 1
        then Inl ValidationError
        else if list_ex is_compliance_action (tp_actions p) \<and> tp_schema p \<noteq> ''2.0''
        then Inl ValidationError
        else if list_ex (\<lambda>a. action_entries a = Some [] \<or>
            (\<exists>es \<in> set_option (action_entries a). \<not> distinct (entry_values es))) (tp_actions p)
        then Inl ValidationError
        else Inr p))"

section \<open>Direct commands\<close>

text \<open>\<^verbatim>\<open>TaskPlan(status="plan", actions=(action,))\<close> of a constructed action.\<close>

definition single_action_plan :: "action \<Rightarrow> task_plan res" where
  "single_action_plan a =
     and_then (check_action a) (\<lambda>b. make_task_plan \<lparr>tp_schema = ''2.0'', tp_status = Plan,
       tp_actions = [b], tp_question = None, tp_reason = None\<rparr>)"

definition direct_add_plan ::
    "address_entry list \<Rightarrow> string option \<Rightarrow> uuid option \<Rightarrow> string \<Rightarrow> address_entry list \<Rightarrow>
      task_plan res" where
  "direct_add_plan entries notice target_rule_id target_ou bypass_entries =
     (if bypass_entries \<noteq> [] then
        (if target_rule_id \<noteq> None then Inl ValueError
         else single_action_plan
           (Create_Blocked_Sender_Rule entries notice target_ou bypass_entries True))
      else single_action_plan (Add_Blocked_Entries entries notice target_rule_id target_ou))"

definition direct_remove_entries_plan :: "address_entry list \<Rightarrow> uuid \<Rightarrow> task_plan res" where
  "direct_remove_entries_plan entries target = single_action_plan (Remove_Blocked_Entries entries target)"

definition direct_list_plan :: "task_plan res" where
  "direct_list_plan = single_action_plan List_Blocked_Sender_Rules"

definition direct_set_notice_plan :: "uuid \<Rightarrow> string \<Rightarrow> task_plan res" where
  "direct_set_notice_plan target notice = single_action_plan (Set_Rejection_Notice target notice)"

definition direct_remove_rule_plan :: "uuid \<Rightarrow> bool \<Rightarrow> task_plan res" where
  "direct_remove_rule_plan target remove_list =
     single_action_plan (Remove_Blocked_Sender_Rule target remove_list)"

section \<open>What a plan promises\<close>

text \<open>The abstract contract of the boundary: what the rest of the program may rely on.\<close>

definition wf_plan :: "task_plan \<Rightarrow> bool" where
  "wf_plan p \<longleftrightarrow>
     (tp_status p = Plan \<longleftrightarrow> tp_actions p \<noteq> []) \<and>
     (tp_status p = Plan \<longrightarrow> \<not> given (tp_question p) \<and> \<not> given (tp_reason p)) \<and>
     (tp_status p = Clarification_Needed \<longleftrightarrow> given (tp_question p)) \<and>
     (tp_status p = Unsupported_Request \<longleftrightarrow> given (tp_reason p)) \<and>
     (\<forall>a \<in> set (tp_actions p). is_list_action a \<longrightarrow> tp_actions p = [a]) \<and>
     (\<forall>a \<in> set (tp_actions p). is_compliance_action a \<longrightarrow> tp_schema p = ''2.0'') \<and>
     (\<forall>a \<in> set (tp_actions p). \<forall>es. action_entries a = Some es \<longrightarrow>
        es \<noteq> [] \<and> distinct (entry_values es))"

lemma validated_Inr [simp]: "validated m = Inr x \<longleftrightarrow> m = Inr x"
  by (cases m) auto

lemma blank_given: "\<not> blank v \<Longrightarrow> given v"
  by (cases v) (auto simp: blank_def given_def py_strip_def)

lemma validate_status_Inr:
  "validate_status p = Inr () \<longleftrightarrow>
     (case tp_status p of
        Plan \<Rightarrow> tp_actions p \<noteq> [] \<and> \<not> given (tp_question p) \<and> \<not> given (tp_reason p)
      | Clarification_Needed \<Rightarrow> tp_actions p = [] \<and> \<not> blank (tp_question p) \<and> \<not> given (tp_reason p)
      | Unsupported_Request \<Rightarrow> tp_actions p = [] \<and> \<not> blank (tp_reason p) \<and> \<not> given (tp_question p))"
  by (cases "tp_status p") (auto simp: validate_status_def)

lemma make_task_plan_Inr_iff:
  "make_task_plan p = Inr q \<longleftrightarrow> q = p \<and> tp_schema p \<in> {''1.0'', ''2.0''} \<and>
     validate_status p = Inr () \<and>
     (list_ex is_list_action (tp_actions p) \<longrightarrow> length (tp_actions p) = 1) \<and>
     (list_ex is_compliance_action (tp_actions p) \<longrightarrow> tp_schema p = ''2.0'') \<and>
     (\<forall>a \<in> set (tp_actions p). \<forall>es. action_entries a = Some es \<longrightarrow>
        es \<noteq> [] \<and> distinct (entry_values es))"
proof -
  have "list_ex (\<lambda>a. action_entries a = Some [] \<or>
            (\<exists>es \<in> set_option (action_entries a). \<not> distinct (entry_values es))) as \<longleftrightarrow>
        \<not> (\<forall>a \<in> set as. \<forall>es. action_entries a = Some es \<longrightarrow> es \<noteq> [] \<and> distinct (entry_values es))"
    for as by (auto simp: list_ex_iff)
  then show ?thesis
    by (auto simp: make_task_plan_def and_then_Inr_iff split: if_splits)
qed

lemma make_task_plan_wf:
  assumes "make_task_plan p = Inr q"
  shows "wf_plan q"
proof -
  note facts = assms [unfolded make_task_plan_Inr_iff]
  have single: "tp_actions p = [a]"
    if "a \<in> set (tp_actions p)" "is_list_action a" for a
  proof -
    have "length (tp_actions p) = 1" using facts that by (auto simp: list_ex_iff)
    then obtain b where "tp_actions p = [b]" by (cases "tp_actions p") auto
    with that(1) show ?thesis by simp
  qed
  from facts show ?thesis
    unfolding wf_plan_def validate_status_Inr
    by (cases "tp_status p") (auto simp: list_ex_iff single intro: blank_given)
qed

lemma make_task_plan_again: "make_task_plan p = Inr q \<Longrightarrow> make_task_plan q = Inr q"
  by (simp add: make_task_plan_Inr_iff)

lemma normalized_ou_again: "normalized_ou v = Inr u \<Longrightarrow> normalized_ou u = Inr u"
  by (auto simp: normalized_ou_def split: if_splits)

lemma check_optional_notice_facts:
  "check_optional_notice n = Inr m \<Longrightarrow>
     \<forall>s \<in> set_option m. s \<noteq> [] \<and> length s \<le> 1000 \<and> py_strip s = s"
  by (cases n) (auto simp: check_optional_notice_def not_less py_strip_length_le split: if_splits)

lemma check_optional_notice_again:
  "check_optional_notice n = Inr m \<Longrightarrow> check_optional_notice m = Inr m"
  using check_optional_notice_facts [of n m]
  by (cases m) (auto simp: check_optional_notice_def split: option.splits if_splits)

lemma check_set_notice_again:
  "check_action (Set_Rejection_Notice t n) = Inr b \<Longrightarrow> check_action b = Inr b"
proof -
  assume b: "check_action (Set_Rejection_Notice t n) = Inr b"
  then have n: "length n \<le> 1000" "py_strip n \<noteq> []" "b = Set_Rejection_Notice t (py_strip n)"
    by (simp_all split: if_splits)
  moreover have "\<not> length (py_strip n) < 1" using n(2) by (cases "py_strip n") auto
  ultimately show ?thesis using py_strip_length_le [OF n(1)] by simp
qed

lemma check_action_again: "check_action a = Inr b \<Longrightarrow> check_action b = Inr b"
proof (cases a)
  case (Set_Rejection_Notice t n)
  assume "check_action a = Inr b"
  then show ?thesis unfolding Set_Rejection_Notice by (rule check_set_notice_again)
qed (auto simp: and_then_Inr_iff split: if_splits
    dest: normalized_ou_again check_optional_notice_again)

section \<open>Dumps\<close>

definition dump_uuid :: "uuid \<Rightarrow> json" where
  "dump_uuid u = JStr (uuid_str u)"

fun action_members :: "action \<Rightarrow> (string \<times> json) list" where
  "action_members (Add_Blocked_Entries entries notice target ou) =
     [(''rejection_notice'', dump_option JStr notice), (''entries'', JArr (map dump_entry entries)),
      (''target_rule_id'', dump_option dump_uuid target), (''target_ou'', JStr ou)]"
| "action_members (Remove_Blocked_Entries entries target) =
     [(''entries'', JArr (map dump_entry entries)), (''target_rule_id'', dump_uuid target)]"
| "action_members (Set_Rejection_Notice target notice) =
     [(''target_rule_id'', dump_uuid target), (''rejection_notice'', JStr notice)]"
| "action_members (Create_Blocked_Sender_Rule entries notice ou bypass enabled) =
     [(''rejection_notice'', dump_option JStr notice), (''entries'', JArr (map dump_entry entries)),
      (''target_ou'', JStr ou), (''bypass_entries'', JArr (map dump_entry bypass)),
      (''enabled'', JBool enabled)]"
| "action_members (Update_Blocked_Sender_Rule target entries bypass notice enabled) =
     [(''rejection_notice'', dump_option JStr notice), (''target_rule_id'', dump_uuid target),
      (''entries'', JArr (map dump_entry entries)), (''bypass_entries'', JArr (map dump_entry bypass)),
      (''enabled'', JBool enabled)]"
| "action_members (Remove_Blocked_Sender_Rule target remove_list) =
     [(''target_rule_id'', dump_uuid target), (''remove_owned_address_list'', JBool remove_list)]"
| "action_members (Set_Blocked_Sender_Rule_Enabled target enabled) =
     [(''target_rule_id'', dump_uuid target), (''enabled'', JBool enabled)]"
| "action_members List_Blocked_Sender_Rules = []"
| "action_members (Create_Content_Compliance_Rule rule) = [(''rule'', dump_draft rule)]"
| "action_members (Update_Content_Compliance_Rule target rule) =
     [(''target_rule_id'', dump_uuid target), (''rule'', dump_compliance_rule rule)]"
| "action_members (Remove_Content_Compliance_Rule target) = [(''target_rule_id'', dump_uuid target)]"
| "action_members (Set_Content_Compliance_Rule_Enabled target enabled) =
     [(''target_rule_id'', dump_uuid target), (''enabled'', JBool enabled)]"
| "action_members List_Content_Compliance_Rules = []"

definition dump_action :: "action \<Rightarrow> json" where
  "dump_action a = JObj ((''type'', JStr (action_type a)) # action_members a)"

definition dump_task_plan :: "task_plan \<Rightarrow> json" where
  "dump_task_plan p = JObj [(''schema_version'', JStr (tp_schema p)),
     (''status'', JStr (plan_status_value (tp_status p))),
     (''actions'', JArr (map dump_action (tp_actions p))),
     (''clarification_question'', dump_option JStr (tp_question p)),
     (''unsupported_reason'', dump_option JStr (tp_reason p))]"

lemma wf_dump_action [simp]: "wf_json (dump_action a)"
  by (cases a) (auto simp: dump_action_def dump_uuid_def dump_draft_def draft_members_def
      dump_ou_ref_def dump_notice_def dump_persona_def dump_list_condition_def
      dump_envelope_filter_def list_all_iff)

lemma wf_dump_task_plan [simp]: "wf_json (dump_task_plan p)"
  by (simp add: dump_task_plan_def list_all_iff)

text \<open>The order of the actions is part of the data a plan is hashed by.\<close>

lemma same_data_plan_actions:
  assumes "same_data False (dump_task_plan p) (dump_task_plan q)"
  shows "list_all2 (same_data False) (map dump_action (tp_actions p)) (map dump_action (tp_actions q))"
proof -
  let ?ps = "[(''schema_version'', JStr (tp_schema p)),
     (''status'', JStr (plan_status_value (tp_status p))),
     (''actions'', JArr (map dump_action (tp_actions p))),
     (''clarification_question'', dump_option JStr (tp_question p)),
     (''unsupported_reason'', dump_option JStr (tp_reason p))]"
  from assms obtain nvs mvs where q: "dump_task_plan q = JObj mvs" "mset nvs = mset mvs"
    and rel: "list_all2 (\<lambda>x y. fst x = fst y \<and> same_data (fst x = ''actions'') (snd x) (snd y)) ?ps nvs"
    unfolding dump_task_plan_def [of p] by (cases rule: same_data.cases) auto
  let ?a = "(''actions'', JArr (map dump_action (tp_actions p)))"
  obtain y where y: "y \<in> set nvs" "fst y = ''actions''"
      "same_data True (JArr (map dump_action (tp_actions p))) (snd y)"
    using rel by (auto simp: list_all2_Cons1)
  have "y \<in> set mvs" using y(1) q(2) by (metis mset_eq_setD)
  then have "snd y = JArr (map dump_action (tp_actions q))"
    using q(1) y(2) by (auto simp: dump_task_plan_def)
  with y(3) show ?thesis by (auto elim: same_data.cases)
qed

end
