(* ===== verification/Ownership.thy ===== *)
theory Ownership
  imports Task_Plan
begin

text \<open>
  \<^verbatim>\<open>domain/ownership.py\<close>: the local ownership registry and the dual-evidence tests. A
  managed resource is changed only when the visible marker in its display name and the local
  record agree; \<open>owned_rule\<close>, \<open>owned_list\<close> and \<open>owned_compliance\<close> state that
  agreement, the \<open>require_\<close> functions are the code's tests of it.
\<close>

section \<open>Records\<close>

text \<open>
  A \<^verbatim>\<open>datetime\<close>: naive, or aware with the instant it denotes in microseconds (two aware
  times are equal when their instants are).
\<close>

datatype py_datetime = Naive int | Aware int

fun is_aware :: "py_datetime \<Rightarrow> bool" where
  "is_aware (Naive _) = False"
| "is_aware (Aware _) = True"

record ownership_record =
  or_id :: uuid
  or_rule_name :: string
  or_list_name :: string
  or_ou :: string
  or_created :: py_datetime
  or_rule_snapshot :: "blocked_rule option"
  or_list_snapshot :: "address_list option"

datatype list_purpose = For_Bypass | For_Condition

record list_record =
  lr_id :: uuid
  lr_name :: string
  lr_ou :: string
  lr_purpose :: list_purpose
  lr_created :: py_datetime
  lr_snapshot :: "address_list option"

record compliance_record =
  co_id :: uuid
  co_name :: string
  co_ou :: string
  co_created :: py_datetime
  co_snapshot :: "compliance_rule option"

definition check_ownership_record :: "ownership_record \<Rightarrow> ownership_record res" where
  "check_ownership_record r =
     (if length (or_rule_name r) < 1 \<or> length (or_list_name r) < 1 \<or>
         length (or_ou r) < 1 \<or> length (or_ou r) > 1000 \<or> \<not> is_aware (or_created r)
      then Inl ValidationError else Inr r)"

definition check_list_record :: "list_record \<Rightarrow> list_record res" where
  "check_list_record r =
     (if length (lr_name r) < 1 \<or> length (lr_name r) > 200 \<or>
         length (lr_ou r) < 1 \<or> length (lr_ou r) > 1000 \<or> \<not> is_aware (lr_created r)
      then Inl ValidationError else Inr r)"

definition check_compliance_record :: "compliance_record \<Rightarrow> compliance_record res" where
  "check_compliance_record r =
     (if length (co_name r) < 1 \<or> length (co_name r) > 200 \<or>
         length (co_ou r) < 1 \<or> length (co_ou r) > 1000 \<or> \<not> is_aware (co_created r)
      then Inl ValidationError else Inr r)"

section \<open>The registry\<close>

record registry =
  rg_schema :: string
  rg_resources :: "ownership_record list"
  rg_lists :: "list_record list"
  rg_compliance :: "compliance_record list"

definition registry_ids :: "registry \<Rightarrow> uuid list" where
  "registry_ids g = map or_id (rg_resources g) @ map lr_id (rg_lists g) @ map co_id (rg_compliance g)"

definition make_registry ::
    "ownership_record list \<Rightarrow> list_record list \<Rightarrow> compliance_record list \<Rightarrow> registry res" where
  "make_registry resources address_lists compliance_rules =
     (let g = \<lparr>rg_schema = ''2.0'', rg_resources = resources, rg_lists = address_lists,
        rg_compliance = compliance_rules\<rparr>
      in if \<not> distinct (registry_ids g) then Inl ValidationError else Inr g)"

definition wf_registry :: "registry \<Rightarrow> bool" where
  "wf_registry g \<longleftrightarrow> distinct (registry_ids g)"

definition find_record :: "registry \<Rightarrow> uuid \<Rightarrow> ownership_record option" where
  "find_record g i = find (\<lambda>r. or_id r = i) (rg_resources g)"

text \<open>The evidence for a list: its rule's record, or a record of its own.\<close>

datatype list_evidence = Paired ownership_record | Independent list_record

fun evidence_name :: "list_evidence \<Rightarrow> string" where
  "evidence_name (Paired r) = or_list_name r"
| "evidence_name (Independent r) = lr_name r"

fun evidence_id :: "list_evidence \<Rightarrow> uuid" where
  "evidence_id (Paired r) = or_id r"
| "evidence_id (Independent r) = lr_id r"

definition find_address_list :: "registry \<Rightarrow> uuid \<Rightarrow> list_evidence option" where
  "find_address_list g i =
     (case find_record g i of
        Some r \<Rightarrow> Some (Paired r)
      | None \<Rightarrow> map_option Independent (find (\<lambda>r. lr_id r = i) (rg_lists g)))"

definition find_compliance :: "registry \<Rightarrow> uuid \<Rightarrow> compliance_record option" where
  "find_compliance g i = find (\<lambda>r. co_id r = i) (rg_compliance g)"

section \<open>Visible names\<close>

definition managed_resource_names :: "string \<Rightarrow> uuid \<Rightarrow> string \<times> string" where
  "managed_resource_names prefix i =
     (prefix @ '' Block rule '' @ short_id i, prefix @ '' Addresses '' @ short_id i)"

definition managed_compliance_rule_name :: "string \<Rightarrow> uuid \<Rightarrow> string" where
  "managed_compliance_rule_name prefix i = prefix @ '' Compliance rule '' @ short_id i"

section \<open>Dual evidence\<close>

definition require_owned_rule :: "blocked_rule \<Rightarrow> registry \<Rightarrow> string \<Rightarrow> ownership_record res" where
  "require_owned_rule rule g prefix =
     (let is_visible = py_startswith (br_name rule) (prefix @ '' '')
      in case find_record g (br_id rule) of
           None \<Rightarrow> Inl OwnershipNotEstablished
         | Some record \<Rightarrow>
             if \<not> is_visible \<or> or_rule_name record \<noteq> br_name rule \<or> or_ou record \<noteq> br_ou rule
             then Inl OwnershipNotEstablished else Inr record)"

definition require_owned_address_list ::
    "address_list \<Rightarrow> registry \<Rightarrow> string \<Rightarrow> list_evidence res" where
  "require_owned_address_list l g prefix =
     (let is_visible = py_startswith (al_name l) (prefix @ '' '')
      in case find_address_list g (al_id l) of
           None \<Rightarrow> Inl OwnershipNotEstablished
         | Some record \<Rightarrow>
             if \<not> is_visible \<or> evidence_name record \<noteq> al_name l
             then Inl OwnershipNotEstablished else Inr record)"

definition require_owned_compliance_rule ::
    "compliance_rule \<Rightarrow> registry \<Rightarrow> string \<Rightarrow> compliance_record res" where
  "require_owned_compliance_rule rule g prefix =
     (case find_compliance g (cr_id rule) of
        None \<Rightarrow> Inl OwnershipNotEstablished
      | Some record \<Rightarrow>
          if \<not> py_startswith (cr_name rule) (prefix @ '' '') \<or> co_name record \<noteq> cr_name rule \<or>
             co_ou record \<noteq> ou_path (cr_ou rule)
          then Inl OwnershipNotEstablished else Inr record)"

text \<open>The specification: visible marker and local record agree on the identity.\<close>

definition owned_rule :: "registry \<Rightarrow> string \<Rightarrow> blocked_rule \<Rightarrow> bool" where
  "owned_rule g prefix rule \<longleftrightarrow> py_startswith (br_name rule) (prefix @ '' '') \<and>
     (\<exists>r \<in> set (rg_resources g). or_id r = br_id rule \<and> or_rule_name r = br_name rule \<and>
        or_ou r = br_ou rule)"

definition owned_list :: "registry \<Rightarrow> string \<Rightarrow> address_list \<Rightarrow> bool" where
  "owned_list g prefix l \<longleftrightarrow> py_startswith (al_name l) (prefix @ '' '') \<and>
     ((\<exists>r \<in> set (rg_resources g). or_id r = al_id l \<and> or_list_name r = al_name l) \<or>
      (\<exists>r \<in> set (rg_lists g). lr_id r = al_id l \<and> lr_name r = al_name l))"

definition owned_compliance :: "registry \<Rightarrow> string \<Rightarrow> compliance_rule \<Rightarrow> bool" where
  "owned_compliance g prefix rule \<longleftrightarrow> py_startswith (cr_name rule) (prefix @ '' '') \<and>
     (\<exists>r \<in> set (rg_compliance g). co_id r = cr_id rule \<and> co_name r = cr_name rule \<and>
        co_ou r = ou_path (cr_ou rule))"

lemma find_Some: "find P xs = Some x \<Longrightarrow> x \<in> set xs \<and> P x"
  by (induction xs) (auto split: if_splits)

lemma find_unique:
  assumes "distinct (map f xs)" and "x \<in> set xs" and "f x = i"
  shows "find (\<lambda>y. f y = i) xs = Some x"
  using assms by (induction xs) force+

lemma wf_registry_parts:
  assumes "wf_registry g"
  shows "distinct (map or_id (rg_resources g))" "distinct (map lr_id (rg_lists g))"
    "distinct (map co_id (rg_compliance g))"
    "r \<in> set (rg_resources g) \<Longrightarrow> l \<in> set (rg_lists g) \<Longrightarrow> or_id r \<noteq> lr_id l"
  using assms by (fastforce simp: wf_registry_def registry_ids_def)+

lemma make_registry_Inr_iff:
  "make_registry rs ls cs = Inr g \<longleftrightarrow>
     g = \<lparr>rg_schema = ''2.0'', rg_resources = rs, rg_lists = ls, rg_compliance = cs\<rparr> \<and> wf_registry g"
  by (auto simp: make_registry_def wf_registry_def Let_def)

lemma find_record_Some:
  "find_record g i = Some r \<Longrightarrow> r \<in> set (rg_resources g) \<and> or_id r = i"
  unfolding find_record_def by (drule find_Some) simp

lemma find_record_iff:
  assumes "wf_registry g"
  shows "find_record g i = Some r \<longleftrightarrow> r \<in> set (rg_resources g) \<and> or_id r = i"
  using find_record_Some find_unique [OF wf_registry_parts(1) [OF assms]]
  unfolding find_record_def by metis

lemma find_address_list_Some:
  "find_address_list g i = Some e \<Longrightarrow> evidence_id e = i \<and>
     (case e of Paired r \<Rightarrow> r \<in> set (rg_resources g) | Independent r \<Rightarrow> r \<in> set (rg_lists g))"
  by (auto simp: find_address_list_def split: option.splits list_evidence.splits
      dest: find_record_Some find_Some)

text \<open>The tests raise \<open>OwnershipNotEstablished\<close> and nothing else.\<close>

lemma require_owned_Inl:
  "require_owned_rule r g p = Inl e \<Longrightarrow> e = OwnershipNotEstablished"
  "require_owned_address_list l g p = Inl e \<Longrightarrow> e = OwnershipNotEstablished"
  "require_owned_compliance_rule c g p = Inl e \<Longrightarrow> e = OwnershipNotEstablished"
  by (auto simp: require_owned_rule_def require_owned_address_list_def
      require_owned_compliance_rule_def Let_def split: option.splits if_splits)

lemma require_owned_rule_sound: "require_owned_rule rule g prefix = Inr r \<Longrightarrow> owned_rule g prefix rule"
  by (auto simp: require_owned_rule_def owned_rule_def Let_def dest!: find_record_Some
      split: option.splits if_splits)

lemma require_owned_rule_Inr:
  "require_owned_rule rule g prefix = Inr r \<Longrightarrow>
     r \<in> set (rg_resources g) \<and> or_id r = br_id rule \<and> or_rule_name r = br_name rule \<and> or_ou r = br_ou rule"
  by (auto simp: require_owned_rule_def Let_def dest!: find_record_Some split: option.splits if_splits)

text \<open>On a registry the constructor accepts, the tests decide the specification.\<close>

lemma require_owned_rule_iff:
  assumes "wf_registry g"
  shows "(\<exists>r. require_owned_rule rule g prefix = Inr r) \<longleftrightarrow> owned_rule g prefix rule"
proof
  assume "owned_rule g prefix rule"
  then obtain r where r: "r \<in> set (rg_resources g)" "or_id r = br_id rule"
      "or_rule_name r = br_name rule" "or_ou r = br_ou rule"
      "py_startswith (br_name rule) (prefix @ '' '')"
    by (auto simp: owned_rule_def)
  then have "find_record g (br_id rule) = Some r" using find_record_iff [OF assms] by simp
  with r show "\<exists>r. require_owned_rule rule g prefix = Inr r"
    by (simp add: require_owned_rule_def)
qed (auto dest: require_owned_rule_sound)

lemma require_owned_list_sound:
  "require_owned_address_list l g prefix = Inr e \<Longrightarrow> owned_list g prefix l"
  by (auto simp: require_owned_address_list_def owned_list_def Let_def
      dest!: find_address_list_Some split: option.splits if_splits list_evidence.splits)

lemma require_owned_list_iff:
  assumes g: "wf_registry g"
  shows "(\<exists>e. require_owned_address_list l g prefix = Inr e) \<longleftrightarrow> owned_list g prefix l"
proof
  assume o: "owned_list g prefix l"
  note parts = wf_registry_parts [OF g]
  have "\<exists>e. find_address_list g (al_id l) = Some e \<and> evidence_name e = al_name l"
  proof (cases "\<exists>r \<in> set (rg_resources g). or_id r = al_id l \<and> or_list_name r = al_name l")
    case True
    then obtain r where "r \<in> set (rg_resources g)" "or_id r = al_id l" "or_list_name r = al_name l"
      by blast
    then have "find_record g (al_id l) = Some r" using find_record_iff [OF g] by simp
    with \<open>or_list_name r = al_name l\<close> show ?thesis by (simp add: find_address_list_def)
  next
    case False
    with o obtain r where r: "r \<in> set (rg_lists g)" "lr_id r = al_id l" "lr_name r = al_name l"
      by (auto simp: owned_list_def)
    then have "find_record g (al_id l) = None"
      using parts(4) find_record_Some by (metis not_None_eq)
    moreover have "find (\<lambda>r. lr_id r = al_id l) (rg_lists g) = Some r"
      using find_unique [OF parts(2) r(1,2)] .
    ultimately show ?thesis using r(3) by (simp add: find_address_list_def)
  qed
  with o show "\<exists>e. require_owned_address_list l g prefix = Inr e"
    by (auto simp: require_owned_address_list_def owned_list_def)
qed (auto dest: require_owned_list_sound)

lemma require_owned_compliance_sound:
  "require_owned_compliance_rule r g prefix = Inr c \<Longrightarrow> owned_compliance g prefix r"
  by (auto simp: require_owned_compliance_rule_def owned_compliance_def find_compliance_def
      dest!: find_Some split: option.splits if_splits)

section \<open>Managed names carry the marker\<close>

lemma managed_names_visible [simp]:
  "py_startswith (fst (managed_resource_names prefix i)) (prefix @ '' '')"
  "py_startswith (snd (managed_resource_names prefix i)) (prefix @ '' '')"
  "py_startswith (managed_compliance_rule_name prefix i) (prefix @ '' '')"
  by (auto simp: managed_resource_names_def managed_compliance_rule_name_def py_startswith_iff)

lemma managed_names_distinct:
  "fst (managed_resource_names prefix i) \<noteq> snd (managed_resource_names prefix j)"
  by (simp add: managed_resource_names_def)

lemma managed_names_inj:
  "managed_resource_names prefix i = managed_resource_names prefix j \<longleftrightarrow> short_id i = short_id j"
  by (simp add: managed_resource_names_def)

section \<open>Dumps\<close>

text \<open>\<open>isofmt\<close> is \<^verbatim>\<open>datetime.isoformat\<close> as Pydantic writes it.\<close>

fun purpose_value :: "list_purpose \<Rightarrow> string" where
  "purpose_value For_Bypass = ''bypass''"
| "purpose_value For_Condition = ''condition''"

definition dump_ownership_record :: "(py_datetime \<Rightarrow> string) \<Rightarrow> ownership_record \<Rightarrow> json" where
  "dump_ownership_record isofmt r = JObj [(''ownership_id'', JStr (uuid_str (or_id r))),
     (''rule_display_name'', JStr (or_rule_name r)),
     (''address_list_display_name'', JStr (or_list_name r)), (''target_ou'', JStr (or_ou r)),
     (''created_at'', JStr (isofmt (or_created r))),
     (''rule_snapshot'', dump_option dump_blocked_rule (or_rule_snapshot r)),
     (''address_list_snapshot'', dump_option dump_address_list (or_list_snapshot r))]"

definition dump_list_record :: "(py_datetime \<Rightarrow> string) \<Rightarrow> list_record \<Rightarrow> json" where
  "dump_list_record isofmt r = JObj [(''ownership_id'', JStr (uuid_str (lr_id r))),
     (''display_name'', JStr (lr_name r)), (''target_ou'', JStr (lr_ou r)),
     (''purpose'', JStr (purpose_value (lr_purpose r))), (''created_at'', JStr (isofmt (lr_created r))),
     (''address_list_snapshot'', dump_option dump_address_list (lr_snapshot r))]"

definition dump_compliance_record :: "(py_datetime \<Rightarrow> string) \<Rightarrow> compliance_record \<Rightarrow> json" where
  "dump_compliance_record isofmt r = JObj [(''ownership_id'', JStr (uuid_str (co_id r))),
     (''display_name'', JStr (co_name r)), (''target_ou'', JStr (co_ou r)),
     (''created_at'', JStr (isofmt (co_created r))),
     (''rule_snapshot'', dump_option dump_compliance_rule (co_snapshot r))]"

definition dump_registry :: "(py_datetime \<Rightarrow> string) \<Rightarrow> registry \<Rightarrow> json" where
  "dump_registry isofmt g = JObj [(''schema_version'', JStr (rg_schema g)),
     (''resources'', JArr (map (dump_ownership_record isofmt) (rg_resources g))),
     (''address_lists'', JArr (map (dump_list_record isofmt) (rg_lists g))),
     (''compliance_rules'', JArr (map (dump_compliance_record isofmt) (rg_compliance g)))]"

end
