(* ===== verification/Desired_State.thy ===== *)
theory Desired_State
  imports Ownership
begin

text \<open>
  \<^verbatim>\<open>domain/desired_state.py\<close>: the pure translation of a plan into the blocked-sender
  state it asks for. The mutable locals of \<^verbatim>\<open>calculate_desired_state\<close> (the two
  dictionaries and the iterator of fresh ownership identifiers) are the record
  \<open>working\<close>; every helper takes it and returns it, or raises, and a raise discards it as
  the code discards its locals.
\<close>

section \<open>The working sets\<close>

record working =
  ws_rules :: "(uuid, blocked_rule) dict"
  ws_lists :: "(uuid, address_list) dict"
  ws_ids :: "uuid list"

definition start_working :: "blocked_state \<Rightarrow> uuid list \<Rightarrow> working" where
  "start_working current new_ids =
     \<lparr>ws_rules = dict_of br_id (bs_rules current), ws_lists = dict_of al_id (bs_lists current),
      ws_ids = new_ids\<rparr>"

definition put_rule :: "blocked_rule \<Rightarrow> working \<Rightarrow> working" where
  "put_rule r w = w\<lparr>ws_rules := dict_put (br_id r) r (ws_rules w)\<rparr>"

definition put_list :: "address_list \<Rightarrow> working \<Rightarrow> working" where
  "put_list l w = w\<lparr>ws_lists := dict_put (al_id l) l (ws_lists w)\<rparr>"

definition drop_rule :: "uuid \<Rightarrow> working \<Rightarrow> working" where
  "drop_rule i w = w\<lparr>ws_rules := dict_del i (ws_rules w)\<rparr>"

definition drop_list :: "uuid \<Rightarrow> working \<Rightarrow> working" where
  "drop_list i w = w\<lparr>ws_lists := dict_del i (ws_lists w)\<rparr>"

definition sorted_entries :: "address_entry list \<Rightarrow> address_entry list" where
  "sorted_entries entries = sort_key (\<lambda>e. (ae_normalized_value e, kind_value (ae_kind e))) entries"

text \<open>\<^verbatim>\<open>next(identifiers)\<close>; \<^verbatim>\<open>StopIteration\<close> becomes a \<^verbatim>\<open>ValueError\<close>.\<close>

definition next_id :: "working \<Rightarrow> (uuid \<times> working) res" where
  "next_id w = (case ws_ids w of [] \<Rightarrow> Inl ValueError | i # is \<Rightarrow> Inr (i, w\<lparr>ws_ids := is\<rparr>))"

section \<open>Lookups\<close>

definition require_rule :: "uuid \<Rightarrow> working \<Rightarrow> blocked_rule res" where
  "require_rule i w =
     (case dict_get (ws_rules w) i of None \<Rightarrow> Inl AmbiguousTarget | Some r \<Rightarrow> Inr r)"

definition matching_lists :: "string \<Rightarrow> working \<Rightarrow> address_list list" where
  "matching_lists name w = filter (\<lambda>l. al_name l = name) (dict_values (ws_lists w))"

definition require_rule_list ::
    "blocked_rule \<Rightarrow> working \<Rightarrow> registry \<Rightarrow> string \<Rightarrow> address_list res" where
  "require_rule_list rule w g prefix =
     (case br_lists rule of
        [name] \<Rightarrow>
          (case matching_lists name w of
             [l] \<Rightarrow> if al_id l \<noteq> br_id rule then Inl AmbiguousTarget
                    else and_then (require_owned_address_list l g prefix) (\<lambda>_. Inr l)
           | _ \<Rightarrow> Inl AmbiguousTarget)
      | _ \<Rightarrow> Inl AmbiguousTarget)"

definition owned_bypass_list :: "working \<Rightarrow> registry \<Rightarrow> string \<Rightarrow> string \<Rightarrow> address_list res" where
  "owned_bypass_list w g prefix name =
     (case matching_lists name w of
        [l] \<Rightarrow> and_then (require_owned_address_list l g prefix) (\<lambda>_. Inr l)
      | _ \<Rightarrow> Inl AmbiguousTarget)"

definition owned_bypass_lists ::
    "blocked_rule \<Rightarrow> working \<Rightarrow> registry \<Rightarrow> string \<Rightarrow> address_list list res" where
  "owned_bypass_lists rule w g prefix = map_res (owned_bypass_list w g prefix) (br_bypass rule)"

section \<open>The actions\<close>

definition make_bypass_list ::
    "address_entry list \<Rightarrow> string \<Rightarrow> working \<Rightarrow> (string list \<times> working) res" where
  "make_bypass_list entries prefix w =
     and_then (next_id w) (\<lambda>(bypass_id, w).
       let bypass_name = snd (managed_resource_names prefix bypass_id) @ '' bypass''
       in and_then (make_address_list bypass_id bypass_name (sorted_entries entries)) (\<lambda>l.
            Inr ([bypass_name], put_list l w)))"

definition create_rule ::
    "address_entry list \<Rightarrow> string option \<Rightarrow> string \<Rightarrow> address_entry list \<Rightarrow> bool \<Rightarrow> string \<Rightarrow>
      working \<Rightarrow> working res" where
  "create_rule entries notice target_ou bypass_entries enabled prefix w =
     and_then (next_id w) (\<lambda>(i, w).
     if i \<in> set (dict_keys (ws_rules w)) \<or> i \<in> set (dict_keys (ws_lists w)) then Inl ValueError
     else let (rule_name, list_name) = managed_resource_names prefix i in
       and_then (make_address_list i list_name (sorted_entries entries)) (\<lambda>l.
       let w = put_list l w in
       and_then (if bypass_entries \<noteq> [] then make_bypass_list bypass_entries prefix w else Inr ([], w))
         (\<lambda>(bypass_names, w).
       and_then (make_blocked_rule i rule_name target_ou [list_name] bypass_names notice enabled False)
         (\<lambda>r. Inr (put_rule r w)))))"

fun add_candidates ::
    "registry \<Rightarrow> string \<Rightarrow> string option \<Rightarrow> working \<Rightarrow> blocked_rule list \<Rightarrow>
      (blocked_rule \<times> address_list) list res" where
  "add_candidates g prefix notice w [] = Inr []"
| "add_candidates g prefix notice w (r # rs) =
     (if br_notice r \<noteq> notice then add_candidates g prefix notice w rs
      else and_then (require_owned_rule r g prefix) (\<lambda>_.
           and_then (require_rule_list r w g prefix) (\<lambda>l.
           and_then (add_candidates g prefix notice w rs) (\<lambda>rest. Inr ((r, l) # rest)))))"

definition resolve_add_target ::
    "string option \<Rightarrow> uuid option \<Rightarrow> working \<Rightarrow> registry \<Rightarrow> string \<Rightarrow>
      (blocked_rule \<times> address_list) option res" where
  "resolve_add_target notice target w g prefix =
     (case target of
        Some i \<Rightarrow>
          and_then (require_rule i w) (\<lambda>r.
          and_then (require_owned_rule r g prefix) (\<lambda>_.
          and_then (require_rule_list r w g prefix) (\<lambda>l. Inr (Some (r, l)))))
      | None \<Rightarrow>
          and_then (add_candidates g prefix notice w (dict_values (ws_rules w))) (\<lambda>cs.
            case cs of [] \<Rightarrow> Inr None | [c] \<Rightarrow> Inr (Some c) | _ \<Rightarrow> Inl AmbiguousTarget))"

text \<open>The entries of a list with those of an action that are new to it.\<close>

definition combine_entries :: "address_entry list \<Rightarrow> address_entry list \<Rightarrow> address_entry list" where
  "combine_entries existing added =
     existing @ filter (\<lambda>e. ae_normalized_value e \<notin> set (entry_values existing)) added"

definition add_entries ::
    "address_entry list \<Rightarrow> string option \<Rightarrow> uuid option \<Rightarrow> string \<Rightarrow> registry \<Rightarrow> string \<Rightarrow>
      working \<Rightarrow> working res" where
  "add_entries entries notice target target_ou g prefix w =
     and_then (resolve_add_target notice target w g prefix) (\<lambda>found.
       case found of
         None \<Rightarrow> create_rule entries notice target_ou [] True prefix w
       | Some (r, l) \<Rightarrow>
           if notice \<noteq> None \<and> notice \<noteq> br_notice r
           then create_rule entries notice target_ou [] True prefix w
           else Inr (put_list (l\<lparr>al_entries := sorted_entries (combine_entries (al_entries l) entries)\<rparr>) w))"

definition remove_entries ::
    "address_entry list \<Rightarrow> uuid \<Rightarrow> registry \<Rightarrow> string \<Rightarrow> working \<Rightarrow> working res" where
  "remove_entries entries target g prefix w =
     and_then (require_rule target w) (\<lambda>r.
     and_then (require_owned_rule r g prefix) (\<lambda>_.
     and_then (require_rule_list r w g prefix) (\<lambda>l.
       let remaining = filter (\<lambda>e. ae_normalized_value e \<notin> set (entry_values entries)) (al_entries l)
       in Inr (put_list (l\<lparr>al_entries := sorted_entries remaining\<rparr>) w))))"

definition set_notice ::
    "uuid \<Rightarrow> string \<Rightarrow> registry \<Rightarrow> string \<Rightarrow> working \<Rightarrow> (nat \<times> working) res" where
  "set_notice target notice g prefix w =
     and_then (require_rule target w) (\<lambda>r.
     and_then (require_owned_rule r g prefix) (\<lambda>_.
     and_then (require_rule_list r w g prefix) (\<lambda>l.
       if br_notice r = Some notice then Inr (0, w)
       else Inr (length (al_entries l), put_rule (r\<lparr>br_notice := Some notice\<rparr>) w))))"

definition set_enabled :: "uuid \<Rightarrow> bool \<Rightarrow> registry \<Rightarrow> string \<Rightarrow> working \<Rightarrow> working res" where
  "set_enabled target enabled g prefix w =
     and_then (require_rule target w) (\<lambda>r.
     and_then (require_owned_rule r g prefix) (\<lambda>_.
       if br_inherited r then Inl AmbiguousTarget
       else Inr (put_rule (r\<lparr>br_enabled := enabled\<rparr>) w)))"

text \<open>The lists of the rule's bypass names that the update gives the rule.\<close>

definition update_bypass ::
    "address_entry list \<Rightarrow> address_list list \<Rightarrow> string \<Rightarrow> working \<Rightarrow> (string list \<times> working) res" where
  "update_bypass bypass_entries existing prefix w =
     (if bypass_entries \<noteq> [] \<and> existing \<noteq> [] then
        (let bypass = hd existing;
             w = put_list (bypass\<lparr>al_entries := sorted_entries bypass_entries\<rparr>) w
         in Inr ([al_name bypass], fold (\<lambda>l. drop_list (al_id l)) (tl existing) w))
      else if bypass_entries \<noteq> [] then make_bypass_list bypass_entries prefix w
      else Inr ([], fold (\<lambda>l. drop_list (al_id l)) existing w))"

definition update_rule ::
    "uuid \<Rightarrow> address_entry list \<Rightarrow> address_entry list \<Rightarrow> string option \<Rightarrow> bool \<Rightarrow> registry \<Rightarrow>
      string \<Rightarrow> working \<Rightarrow> working res" where
  "update_rule target entries bypass_entries notice enabled g prefix w =
     and_then (require_rule target w) (\<lambda>r.
     and_then (require_owned_rule r g prefix) (\<lambda>_.
     if br_inherited r then Inl AmbiguousTarget
     else
       and_then (require_rule_list r w g prefix) (\<lambda>primary.
       let w = put_list (primary\<lparr>al_entries := sorted_entries entries\<rparr>) w in
       and_then (owned_bypass_lists r w g prefix) (\<lambda>existing.
       and_then (update_bypass bypass_entries existing prefix w) (\<lambda>(bypass_names, w).
       Inr (put_rule (r\<lparr>br_bypass := bypass_names, br_notice := notice, br_enabled := enabled\<rparr>) w))))))"

definition remove_bypass :: "registry \<Rightarrow> string \<Rightarrow> string \<Rightarrow> working \<Rightarrow> working res" where
  "remove_bypass g prefix name w =
     (case matching_lists name w of
        [l] \<Rightarrow>
          and_then (require_owned_address_list l g prefix) (\<lambda>_.
            if list_ex (\<lambda>r. name \<in> set (br_bypass r)) (dict_values (ws_rules w))
            then Inl AmbiguousTarget
            else Inr (drop_list (al_id l) w))
      | _ \<Rightarrow> Inl AmbiguousTarget)"

definition remove_rule :: "uuid \<Rightarrow> bool \<Rightarrow> registry \<Rightarrow> string \<Rightarrow> working \<Rightarrow> working res" where
  "remove_rule target remove_list g prefix w =
     and_then (require_rule target w) (\<lambda>r.
     and_then (require_owned_rule r g prefix) (\<lambda>_.
     and_then (require_rule_list r w g prefix) (\<lambda>l.
     let w = drop_rule (br_id r) w in
     if \<not> remove_list then Inr w
     else if list_ex (\<lambda>other. al_name l \<in> set (br_lists other)) (dict_values (ws_rules w))
     then Inl AmbiguousTarget
     else fold_res (remove_bypass g prefix) (br_bypass r) (drop_list (al_id l) w))))"

section \<open>Dispatch\<close>

text \<open>One action: the number of entries a notice change affects, and the working sets.\<close>

fun apply_action :: "registry \<Rightarrow> string \<Rightarrow> action \<Rightarrow> working \<Rightarrow> (nat \<times> working) res" where
  "apply_action g prefix (Create_Blocked_Sender_Rule entries notice ou bypass enabled) w =
     and_then (create_rule entries notice ou bypass enabled prefix w) (\<lambda>w. Inr (0, w))"
| "apply_action g prefix (Add_Blocked_Entries entries notice target ou) w =
     and_then (add_entries entries notice target ou g prefix w) (\<lambda>w. Inr (0, w))"
| "apply_action g prefix (Remove_Blocked_Entries entries target) w =
     and_then (remove_entries entries target g prefix w) (\<lambda>w. Inr (0, w))"
| "apply_action g prefix (Update_Blocked_Sender_Rule target entries bypass notice enabled) w =
     and_then (update_rule target entries bypass notice enabled g prefix w) (\<lambda>w. Inr (0, w))"
| "apply_action g prefix (Set_Rejection_Notice target notice) w = set_notice target notice g prefix w"
| "apply_action g prefix (Set_Blocked_Sender_Rule_Enabled target enabled) w =
     and_then (set_enabled target enabled g prefix w) (\<lambda>w. Inr (0, w))"
| "apply_action g prefix (Remove_Blocked_Sender_Rule target remove_list) w =
     and_then (remove_rule target remove_list g prefix w) (\<lambda>w. Inr (0, w))"
| "apply_action g prefix _ w = Inr (0, w)"

definition plan_step ::
    "string \<Rightarrow> registry \<Rightarrow> string \<Rightarrow> action \<Rightarrow> nat \<times> working \<Rightarrow> (nat \<times> working) res" where
  "plan_step current_ou g prefix a s =
     (if (case action_ou a of None \<Rightarrow> False | Some ou \<Rightarrow> ou \<noteq> current_ou) then Inl AmbiguousTarget
      else and_then (apply_action g prefix a (snd s)) (\<lambda>(n, w). Inr (fst s + n, w)))"

definition names_unique :: "working \<Rightarrow> string list \<Rightarrow> bool" where
  "names_unique w unmanaged \<longleftrightarrow>
     distinct (map br_name (dict_values (ws_rules w)) @ unmanaged) \<and>
     distinct (map al_name (dict_values (ws_lists w)))"

record desired_state_result =
  dr_state :: blocked_state
  dr_notice_affected :: nat

definition calculate_desired_state ::
    "blocked_state \<Rightarrow> task_plan \<Rightarrow> registry \<Rightarrow> uuid list \<Rightarrow> string \<Rightarrow> desired_state_result res" where
  "calculate_desired_state current plan g new_ids prefix =
     and_then (fold_res (plan_step (bs_ou current) g prefix) (tp_actions plan)
         (0, start_working current new_ids)) (\<lambda>(affected, w).
     if \<not> names_unique w (bs_unmanaged current) then Inl AmbiguousTarget
     else and_then (make_blocked_state (bs_ou current)
              (sort_key (\<lambda>r. uuid_hex (br_id r)) (dict_values (ws_rules w)))
              (sort_key (\<lambda>l. uuid_hex (al_id l)) (dict_values (ws_lists w)))
              (sort (bs_unmanaged current)))
            (\<lambda>desired. Inr \<lparr>dr_state = desired, dr_notice_affected = affected\<rparr>))"


section \<open>Ownership is the only licence to change a resource\<close>

text \<open>
  The invariant of the working sets against the observed state: the dictionaries are filed by
  ownership identifier, and an observed resource that is not as it was observed is one the
  registry and its visible name show to be owned.
\<close>

definition guarded :: "registry \<Rightarrow> string \<Rightarrow> blocked_state \<Rightarrow> working \<Rightarrow> bool" where
  "guarded g prefix s w \<longleftrightarrow> keyed br_id (ws_rules w) \<and> keyed al_id (ws_lists w) \<and>
     set (ws_ids w) \<inter> al_id ` set (bs_lists s) = {} \<and>
     (\<forall>r \<in> set (bs_rules s). dict_get (ws_rules w) (br_id r) = Some r \<or> owned_rule g prefix r) \<and>
     (\<forall>l \<in> set (bs_lists s). dict_get (ws_lists w) (al_id l) = Some l \<or> owned_list g prefix l)"

named_theorems guarded_intros \<open>steps that keep the working sets guarded\<close>

lemma guarded_keyed:
  "guarded g prefix s w \<Longrightarrow> keyed br_id (ws_rules w)" "guarded g prefix s w \<Longrightarrow> keyed al_id (ws_lists w)"
  by (simp_all add: guarded_def)

lemma guarded_start:
  assumes "wf_blocked_state s" and "set new_ids \<inter> al_id ` set (bs_lists s) = {}"
  shows "guarded g prefix s (start_working s new_ids)"
  using assms
  by (auto simp: guarded_def start_working_def keyed_dict_of wf_blocked_state_def dict_of_get)

lemma guarded_put_rule [guarded_intros]:
  assumes "guarded g prefix s w"
    and "\<And>r0. dict_get (ws_rules w) (br_id r) = Some r0 \<Longrightarrow> owned_rule g prefix r0"
  shows "guarded g prefix s (put_rule r w)"
  using assms by (fastforce simp: guarded_def put_rule_def keyed_put update_conv')

lemma guarded_drop_rule [guarded_intros]:
  assumes "guarded g prefix s w"
    and "\<And>r0. dict_get (ws_rules w) i = Some r0 \<Longrightarrow> owned_rule g prefix r0"
  shows "guarded g prefix s (drop_rule i w)"
  using assms by (fastforce simp: guarded_def drop_rule_def keyed_del delete_conv')

lemma guarded_put_list [guarded_intros]:
  assumes "guarded g prefix s w"
    and "\<And>l0. l0 \<in> set (bs_lists s) \<Longrightarrow> dict_get (ws_lists w) (al_id l) = Some l0 \<Longrightarrow>
      al_id l0 = al_id l \<Longrightarrow> owned_list g prefix l0"
  shows "guarded g prefix s (put_list l w)"
  using assms by (fastforce simp: guarded_def put_list_def keyed_put update_conv')

lemma guarded_drop_list [guarded_intros]:
  assumes "guarded g prefix s w"
    and "\<And>l0. dict_get (ws_lists w) i = Some l0 \<Longrightarrow> owned_list g prefix l0"
  shows "guarded g prefix s (drop_list i w)"
  using assms by (fastforce simp: guarded_def drop_list_def keyed_del delete_conv')

text \<open>What the lookups return is in the working sets and owned.\<close>

lemma require_rule_Inr: "require_rule i w = Inr r \<longleftrightarrow> dict_get (ws_rules w) i = Some r"
  by (auto simp: require_rule_def split: option.splits)

lemma matching_list_get:
  assumes "keyed al_id (ws_lists w)" and "l \<in> set (matching_lists name w)"
  shows "dict_get (ws_lists w) (al_id l) = Some l" "al_name l = name"
  using assms keyed_get_value [of al_id "ws_lists w" l] by (auto simp: matching_lists_def)

lemma require_rule_list_Inr:
  assumes "require_rule_list r w g prefix = Inr l"
  shows "br_lists r = [al_name l]" "matching_lists (al_name l) w = [l]" "al_id l = br_id r"
    "owned_list g prefix l"
proof -
  from assms obtain name where n: "br_lists r = [name]" "matching_lists name w = [l]"
      "al_id l = br_id r" "owned_list g prefix l"
    by (auto simp: require_rule_list_def res_simps split: list.splits if_splits
        dest!: require_owned_list_sound)
  then have "l \<in> set (matching_lists name w)" by simp
  then have "al_name l = name" by (simp add: matching_lists_def)
  with n show "br_lists r = [al_name l]" "matching_lists (al_name l) w = [l]" "al_id l = br_id r"
    "owned_list g prefix l" by simp_all
qed

lemma require_rule_list_get:
  assumes "keyed al_id (ws_lists w)" and "require_rule_list r w g prefix = Inr l"
  shows "dict_get (ws_lists w) (al_id l) = Some l"
  using require_rule_list_Inr(2) [OF assms(2)] matching_list_get(1) [OF assms(1), of l "al_name l"]
  by simp

lemma owned_bypass_list_Inr:
  assumes "owned_bypass_list w g prefix name = Inr l"
  shows "matching_lists name w = [l]" "owned_list g prefix l"
  using assms by (auto simp: owned_bypass_list_def res_simps split: list.splits
      dest!: require_owned_list_sound)

lemma owned_bypass_lists_Inr:
  assumes "keyed al_id (ws_lists w)" and "owned_bypass_lists r w g prefix = Inr ls" and "l \<in> set ls"
  shows "dict_get (ws_lists w) (al_id l) = Some l" "owned_list g prefix l" "al_name l \<in> set (br_bypass r)"
proof -
  obtain name where n: "name \<in> set (br_bypass r)" "owned_bypass_list w g prefix name = Inr l"
    using map_res_set [OF assms(2) [unfolded owned_bypass_lists_def] assms(3)] by blast
  then have "l \<in> set (matching_lists name w)" using owned_bypass_list_Inr(1) by simp
  from matching_list_get [OF assms(1) this] n owned_bypass_list_Inr(2) [OF n(2)]
  show "dict_get (ws_lists w) (al_id l) = Some l" "owned_list g prefix l"
    "al_name l \<in> set (br_bypass r)" by simp_all
qed

text \<open>A fresh identifier is one no observed list has.\<close>

lemma next_id_Inr:
  "next_id w = Inr (i, w') \<longleftrightarrow> ws_ids w = i # ws_ids w' \<and> w' = w\<lparr>ws_ids := ws_ids w'\<rparr>"
  by (cases w; cases w') (auto simp: next_id_def split: list.splits)

lemma guarded_next_id:
  assumes "guarded g prefix s w" and "next_id w = Inr (i, w')"
  shows "guarded g prefix s w'" "\<And>l. l \<in> set (bs_lists s) \<Longrightarrow> al_id l \<noteq> i"
    "ws_rules w' = ws_rules w" "ws_lists w' = ws_lists w"
  using assms by (auto simp: next_id_def guarded_def split: list.splits)

lemma guarded_make_bypass_list:
  assumes "guarded g prefix s w" and "make_bypass_list es prefix w = Inr (names, w')"
  shows "guarded g prefix s w'" "ws_rules w' = ws_rules w"
proof -
  from assms(2) obtain i u l where u: "next_id w = Inr (i, u)"
      "make_address_list i (snd (managed_resource_names prefix i) @ '' bypass'') (sorted_entries es) = Inr l"
      "w' = put_list l u"
    by (auto simp: make_bypass_list_def res_simps Let_def)
  note next_facts = guarded_next_id [OF assms(1) u(1)]
  have "al_id l = i" using u(2) by (auto simp: make_address_list_Inr_iff)
  with next_facts show "guarded g prefix s w'" unfolding u(3) by (intro guarded_intros) auto
  show "ws_rules w' = ws_rules w" using next_facts(3) u(3) by (simp add: put_list_def)
qed

lemma create_rule_Inr:
  assumes "create_rule es notice ou bs en prefix w = Inr w'"
  obtains i u l names v r where
    "next_id w = Inr (i, u)" "i \<notin> set (dict_keys (ws_rules u))" "i \<notin> set (dict_keys (ws_lists u))"
    "make_address_list i (snd (managed_resource_names prefix i)) (sorted_entries es) = Inr l"
    "(if bs \<noteq> [] then make_bypass_list bs prefix (put_list l u) else Inr ([], put_list l u)) = Inr (names, v)"
    "make_blocked_rule i (fst (managed_resource_names prefix i)) ou
       [snd (managed_resource_names prefix i)] names notice en False = Inr r"
    "w' = put_rule r v"
proof -
  note def = assms [unfolded create_rule_def case_prod_unfold Let_def]
  from def obtain iu where iu: "next_id w = Inr iu" by (rule and_thenE)
  from def iu have fresh: "fst iu \<notin> set (dict_keys (ws_rules (snd iu)))"
      "fst iu \<notin> set (dict_keys (ws_lists (snd iu)))"
    and step: "and_then (make_address_list (fst iu) (snd (managed_resource_names prefix (fst iu))) (sorted_entries es))
      (\<lambda>l. and_then (if bs \<noteq> [] then make_bypass_list bs prefix (put_list l (snd iu))
          else Inr ([], put_list l (snd iu)))
        (\<lambda>nv. and_then (make_blocked_rule (fst iu) (fst (managed_resource_names prefix (fst iu))) ou
          [snd (managed_resource_names prefix (fst iu))] (fst nv) notice en False)
          (\<lambda>r. Inr (put_rule r (snd nv))))) = Inr w'"
    by (simp_all split: if_splits)
  from step show thesis
  proof (elim and_thenE)
    fix l nv r
    assume "make_address_list (fst iu) (snd (managed_resource_names prefix (fst iu))) (sorted_entries es) = Inr l"
      "(if bs \<noteq> [] then make_bypass_list bs prefix (put_list l (snd iu)) else Inr ([], put_list l (snd iu))) = Inr nv"
      "make_blocked_rule (fst iu) (fst (managed_resource_names prefix (fst iu))) ou
          [snd (managed_resource_names prefix (fst iu))] (fst nv) notice en False = Inr r"
      "Inr (put_rule r (snd nv)) = Inr w'"
    then show thesis
      using iu fresh by (intro that [of "fst iu" "snd iu" l "fst nv" "snd nv" r]) simp_all
  qed
qed

lemma guarded_create_rule:
  assumes "guarded g prefix s w" and "create_rule es notice ou bs en prefix w = Inr w'"
  shows "guarded g prefix s w'"
proof -
  from assms(2) obtain i u l names v r where
    u: "next_id w = Inr (i, u)" "i \<notin> set (dict_keys (ws_rules u))" "i \<notin> set (dict_keys (ws_lists u))"
      "make_address_list i (snd (managed_resource_names prefix i)) (sorted_entries es) = Inr l"
      "(if bs \<noteq> [] then make_bypass_list bs prefix (put_list l u) else Inr ([], put_list l u)) = Inr (names, v)"
      "make_blocked_rule i (fst (managed_resource_names prefix i)) ou
         [snd (managed_resource_names prefix i)] names notice en False = Inr r"
      "w' = put_rule r v"
    by (rule create_rule_Inr)
  note next_facts = guarded_next_id [OF assms(1) u(1)]
  have id: "al_id l = i" "br_id r = i"
    using u(4) make_blocked_rule_Inr(2) [OF u(6)] by (auto simp: make_address_list_Inr_iff)
  have l: "guarded g prefix s (put_list l u)"
    using next_facts(1,2) id by (intro guarded_intros) auto
  have v: "guarded g prefix s v" "ws_rules v = ws_rules u"
    using u(5) l guarded_make_bypass_list [OF l] by (auto simp: put_list_def split: if_splits)
  have "dict_get (ws_rules v) i = None" using u(2) v(2) by (simp add: map_of_eq_None_iff)
  then show ?thesis unfolding u(7) using v(1) id by (intro guarded_intros) auto
qed

lemma add_candidates_Inr:
  assumes "add_candidates g prefix notice w rs = Inr cs" and "(r, l) \<in> set cs"
  shows "r \<in> set rs" "br_notice r = notice" "owned_rule g prefix r" "require_rule_list r w g prefix = Inr l"
  using assms
  by (induction rs arbitrary: cs) (auto simp: res_simps split: if_splits dest: require_owned_rule_sound)

lemma resolve_add_target_Inr:
  assumes "resolve_add_target notice target w g prefix = Inr (Some (r, l))"
  shows "owned_rule g prefix r" "require_rule_list r w g prefix = Inr l"
    "target = Some i \<Longrightarrow> dict_get (ws_rules w) i = Some r"
    "target = None \<Longrightarrow> br_notice r = notice \<and> r \<in> set (dict_values (ws_rules w))"
proof -
  have *: "owned_rule g prefix r \<and> require_rule_list r w g prefix = Inr l \<and>
     (target = Some i \<longrightarrow> dict_get (ws_rules w) i = Some r) \<and>
     (target = None \<longrightarrow> br_notice r = notice \<and> r \<in> set (dict_values (ws_rules w)))"
  proof (cases target)
    case None
    with assms obtain cs where cs: "add_candidates g prefix notice w (dict_values (ws_rules w)) = Inr cs"
        "(case cs of [] \<Rightarrow> Inr None | [c] \<Rightarrow> Inr (Some c) | _ \<Rightarrow> Inl AmbiguousTarget) = Inr (Some (r, l))"
      unfolding resolve_add_target_def by (auto elim: and_thenE)
    then have "(r, l) \<in> set cs" by (cases cs) (auto split: list.splits)
    from add_candidates_Inr [OF cs(1) this] None show ?thesis by blast
  next
    case (Some j)
    with assms show ?thesis
      by (auto simp: resolve_add_target_def res_simps require_rule_Inr dest: require_owned_rule_sound)
  qed
  then show "owned_rule g prefix r" "require_rule_list r w g prefix = Inr l"
    "target = Some i \<Longrightarrow> dict_get (ws_rules w) i = Some r"
    "target = None \<Longrightarrow> br_notice r = notice \<and> r \<in> set (dict_values (ws_rules w))" by blast+
qed

lemma guarded_add_entries:
  assumes "guarded g prefix s w" and "add_entries es notice target ou g prefix w = Inr w'"
  shows "guarded g prefix s w'"
proof -
  from assms(2) obtain found where f: "resolve_add_target notice target w g prefix = Inr found"
    unfolding add_entries_def by (rule and_thenE)
  show ?thesis
  proof (cases "\<exists>r l. found = Some (r, l) \<and> (notice = None \<or> notice = br_notice r)")
    case False
    with assms(2) f have "create_rule es notice ou [] True prefix w = Inr w'"
      by (auto simp: add_entries_def split: option.splits prod.splits if_splits)
    then show ?thesis using guarded_create_rule [OF assms(1)] by blast
  next
    case True
    then obtain r l where rl: "found = Some (r, l)" "notice = None \<or> notice = br_notice r" by blast
    have l: "require_rule_list r w g prefix = Inr l" using resolve_add_target_Inr(2) f rl(1) by blast
    have "w' = put_list (l\<lparr>al_entries := sorted_entries (combine_entries (al_entries l) es)\<rparr>) w"
      using assms(2) f rl by (auto simp: add_entries_def)
    then show ?thesis
      using assms(1) require_rule_list_Inr(4) [OF l]
        require_rule_list_get [OF guarded_keyed(2) [OF assms(1)] l]
      by (auto intro!: guarded_intros)
  qed
qed

lemma guarded_remove_entries:
  assumes "guarded g prefix s w" and "remove_entries es target g prefix w = Inr w'"
  shows "guarded g prefix s w'"
  using assms require_rule_list_Inr(4) require_rule_list_get [OF guarded_keyed(2) [OF assms(1)]]
  by (fastforce simp: remove_entries_def res_simps Let_def intro!: guarded_intros)

lemma require_owned_rule_get:
  assumes "guarded g prefix s w" and "require_rule i w = Inr r" and "require_owned_rule r g prefix = Inr x"
  shows "dict_get (ws_rules w) (br_id r) = Some r" "owned_rule g prefix r" "br_id r = i"
proof -
  have "br_id r = i" using keyed_get [OF guarded_keyed(1) [OF assms(1)]] assms(2)
    by (simp add: require_rule_Inr)
  with assms(2,3) show "dict_get (ws_rules w) (br_id r) = Some r" "owned_rule g prefix r" "br_id r = i"
    by (simp_all add: require_rule_Inr require_owned_rule_sound)
qed

lemma guarded_set_notice:
  assumes "guarded g prefix s w" and "set_notice target notice g prefix w = Inr (n, w')"
  shows "guarded g prefix s w'"
  using assms require_owned_rule_get [OF assms(1)]
  by (fastforce simp: set_notice_def res_simps intro!: guarded_intros split: if_splits)

lemma guarded_set_enabled:
  assumes "guarded g prefix s w" and "set_enabled target en g prefix w = Inr w'"
  shows "guarded g prefix s w'"
  using assms require_owned_rule_get [OF assms(1)]
  by (fastforce simp: set_enabled_def res_simps intro!: guarded_intros split: if_splits)

text \<open>Dropping owned lists, none of which was observed with other evidence.\<close>

lemma drop_list_get: "dict_get (ws_lists (drop_list i w)) k = (if k = i then None else dict_get (ws_lists w) k)"
  by (simp add: drop_list_def delete_conv')

lemma guarded_drop_lists:
  assumes "guarded g prefix s w"
    and "\<And>l. l \<in> set ls \<Longrightarrow> dict_get (ws_lists w) (al_id l) = None \<or>
      (\<exists>l'. dict_get (ws_lists w) (al_id l) = Some l' \<and> owned_list g prefix l')"
  shows "guarded g prefix s (fold (\<lambda>l. drop_list (al_id l)) ls w)"
  using assms
proof (induction ls arbitrary: w)
  case (Cons l ls)
  have "guarded g prefix s (drop_list (al_id l) w)"
    by (rule guarded_drop_list [OF Cons.prems(1)]) (use Cons.prems(2) [of l] in auto)
  then have "guarded g prefix s (fold (\<lambda>l. drop_list (al_id l)) ls (drop_list (al_id l) w))"
  proof (rule Cons.IH)
    fix k assume "k \<in> set ls"
    then show "dict_get (ws_lists (drop_list (al_id l) w)) (al_id k) = None \<or>
        (\<exists>l'. dict_get (ws_lists (drop_list (al_id l) w)) (al_id k) = Some l' \<and> owned_list g prefix l')"
      using Cons.prems(2) [of k] by (simp add: drop_list_get)
  qed
  then show ?case by simp
qed simp

lemma drop_lists_rules [simp]: "ws_rules (fold (\<lambda>l. drop_list (al_id l)) ls w) = ws_rules w"
  by (induction ls arbitrary: w) (auto simp: drop_list_def)

lemma put_list_get:
  "dict_get (ws_lists (put_list l w)) k = (if k = al_id l then Some l else dict_get (ws_lists w) k)"
  by (simp add: put_list_def update_conv')

lemma put_list_rules [simp]: "ws_rules (put_list l w) = ws_rules w"
  by (simp add: put_list_def)

lemma owned_list_copy [simp]:
  "owned_list g prefix (l\<lparr>al_entries := es\<rparr>) \<longleftrightarrow> owned_list g prefix l"
  by (simp add: owned_list_def)

lemma guarded_update_bypass:
  assumes "guarded g prefix s w" and "update_bypass es existing prefix w = Inr (names, w')"
    and owned: "\<And>l. l \<in> set existing \<Longrightarrow> dict_get (ws_lists w) (al_id l) = Some l \<and> owned_list g prefix l"
  shows "guarded g prefix s w'" "ws_rules w' = ws_rules w"
proof -
  consider "es \<noteq> []" "existing \<noteq> []" | "es \<noteq> []" "existing = []" | "es = []" by blast
  then have "guarded g prefix s w' \<and> ws_rules w' = ws_rules w"
  proof cases
    case 1
    let ?b = "hd existing\<lparr>al_entries := sorted_entries es\<rparr>"
    have b: "guarded g prefix s (put_list ?b w)"
      using assms(1) owned [of "hd existing"] 1 by (intro guarded_intros) auto
    have "guarded g prefix s (fold (\<lambda>l. drop_list (al_id l)) (tl existing) (put_list ?b w))"
    proof (rule guarded_drop_lists [OF b])
      fix l assume "l \<in> set (tl existing)"
      then have "l \<in> set existing" using 1(2) by (cases existing) auto
      then show "dict_get (ws_lists (put_list ?b w)) (al_id l) = None \<or>
          (\<exists>l'. dict_get (ws_lists (put_list ?b w)) (al_id l) = Some l' \<and> owned_list g prefix l')"
        using owned [of l] owned [of "hd existing"] 1(2) by (simp add: put_list_get)
    qed
    with assms(2) 1 show ?thesis by (auto simp: update_bypass_def Let_def)
  next
    case 2
    with assms(2) have "make_bypass_list es prefix w = Inr (names, w')" by (simp add: update_bypass_def)
    then show ?thesis using guarded_make_bypass_list [OF assms(1)] by blast
  next
    case 3
    then show ?thesis
      using assms(2) owned by (auto simp: update_bypass_def intro!: guarded_drop_lists [OF assms(1)])
  qed
  then show "guarded g prefix s w'" "ws_rules w' = ws_rules w" by blast+
qed

lemma guarded_update_rule:
  assumes "guarded g prefix s w" and "update_rule target es bs notice en g prefix w = Inr w'"
  shows "guarded g prefix s w'"
proof -
  from assms(2) obtain r x primary existing names v where
    r: "require_rule target w = Inr r" "require_owned_rule r g prefix = Inr x"
    and p: "require_rule_list r w g prefix = Inr primary"
    and e: "owned_bypass_lists r (put_list (primary\<lparr>al_entries := sorted_entries es\<rparr>) w) g prefix = Inr existing"
    and u: "update_bypass bs existing prefix (put_list (primary\<lparr>al_entries := sorted_entries es\<rparr>) w) = Inr (names, v)"
    and w': "w' = put_rule (r\<lparr>br_bypass := names, br_notice := notice, br_enabled := en\<rparr>) v"
    by (auto simp: update_rule_def res_simps Let_def split: if_splits)
  let ?w = "put_list (primary\<lparr>al_entries := sorted_entries es\<rparr>) w"
  have g: "guarded g prefix s ?w"
    using assms(1) require_rule_list_Inr(4) [OF p]
      require_rule_list_get [OF guarded_keyed(2) [OF assms(1)] p]
    by (intro guarded_intros) auto
  have v: "guarded g prefix s v" "ws_rules v = ws_rules ?w"
    using guarded_update_bypass [OF g u] owned_bypass_lists_Inr [OF guarded_keyed(2) [OF g] e] by blast+
  show ?thesis
    unfolding w' using v require_owned_rule_get [OF assms(1) r] by (intro guarded_intros) auto
qed

lemma guarded_remove_bypass:
  assumes "remove_bypass g prefix name w = Inr w'" and "guarded g prefix s w"
  shows "guarded g prefix s w'"
proof -
  from assms(1) obtain l x where l: "matching_lists name w = [l]"
      "require_owned_address_list l g prefix = Inr x" "w' = drop_list (al_id l) w"
    by (auto simp: remove_bypass_def res_simps split: list.splits if_splits)
  then have "dict_get (ws_lists w) (al_id l) = Some l"
    using matching_list_get(1) [OF guarded_keyed(2) [OF assms(2)], of l name] by simp
  with l show ?thesis using assms(2) require_owned_list_sound by (auto intro!: guarded_intros)
qed

lemma guarded_remove_rule:
  assumes "guarded g prefix s w" and "remove_rule target del g prefix w = Inr w'"
  shows "guarded g prefix s w'"
proof -
  from assms(2) obtain r x l where r: "require_rule target w = Inr r" "require_owned_rule r g prefix = Inr x"
    and l: "require_rule_list r w g prefix = Inr l"
    and w': "w' = drop_rule (br_id r) w \<or>
      fold_res (remove_bypass g prefix) (br_bypass r) (drop_list (al_id l) (drop_rule (br_id r) w)) = Inr w'"
    by (auto simp: remove_rule_def res_simps Let_def split: if_splits)
  have d: "guarded g prefix s (drop_rule (br_id r) w)"
    using assms(1) require_owned_rule_get [OF assms(1) r] by (intro guarded_intros) auto
  have "guarded g prefix s (drop_list (al_id l) (drop_rule (br_id r) w))"
    using d require_rule_list_Inr(4) [OF l] require_rule_list_get [OF guarded_keyed(2) [OF assms(1)] l]
    by (intro guarded_drop_list [OF d]) (auto simp: drop_rule_def)
  then show ?thesis
    using w' d fold_res_invariant [where P = "guarded g prefix s"] guarded_remove_bypass by metis
qed

lemma guarded_apply_action:
  assumes "guarded g prefix s w" and "apply_action g prefix a w = Inr (n, w')"
  shows "guarded g prefix s w'"
  using assms
  by (cases a) (auto simp: res_simps dest: guarded_create_rule guarded_add_entries
      guarded_remove_entries guarded_update_rule guarded_set_notice guarded_set_enabled
      guarded_remove_rule)

lemma guarded_plan:
  assumes "wf_blocked_state s" and "set new_ids \<inter> al_id ` set (bs_lists s) = {}"
    and "fold_res (plan_step (bs_ou s) g prefix) as (0, start_working s new_ids) = Inr (n, w)"
  shows "guarded g prefix s w"
proof -
  have "guarded g prefix s (snd (n, w))"
    using assms(3)
    by (rule fold_res_invariant [where P = "\<lambda>t. guarded g prefix s (snd t)"])
      (auto simp: guarded_start [OF assms(1,2)] plan_step_def res_simps dest: guarded_apply_action
        split: if_splits)
  then show ?thesis by simp
qed

end
