(* ===== verification/Desired_Properties.thy ===== *)
theory Desired_Properties
  imports Desired_State
begin

text \<open>
  What \<^verbatim>\<open>calculate_desired_state\<close> promises: resources that are not owned are never
  touched, the result is canonical, validated plans keep every resource well formed, the edits
  of an existing rule have the effect their names say and are idempotent, and the only
  exceptions are the four the callers handle. The last section proves the corner cases in
  which the code does less than its neighbours do.
\<close>

section \<open>From the working sets to the result\<close>

lemma calculate_Inr:
  assumes "calculate_desired_state s plan g ids prefix = Inr d"
  obtains n w where
    "fold_res (plan_step (bs_ou s) g prefix) (tp_actions plan) (0, start_working s ids) = Inr (n, w)"
    "names_unique w (bs_unmanaged s)"
    "dr_state d = \<lparr>bs_ou = bs_ou s, bs_rules = sort_key br_id (dict_values (ws_rules w)),
       bs_lists = sort_key al_id (dict_values (ws_lists w)), bs_unmanaged = sort (bs_unmanaged s)\<rparr>"
    "dr_notice_affected d = n" "wf_blocked_state (dr_state d)"
proof -
  from assms obtain nw where nw:
      "fold_res (plan_step (bs_ou s) g prefix) (tp_actions plan) (0, start_working s ids) = Inr nw"
    unfolding calculate_desired_state_def by (rule and_thenE)
  obtain n w where [simp]: "nw = (n, w)" by fastforce
  from assms nw show thesis
    by (intro that [of n w])
      (auto simp: calculate_desired_state_def sort_by_hex res_simps make_blocked_state_Inr_iff
        split: if_splits)
qed

text \<open>The dictionaries stay filed by identifier whatever the observed state is.\<close>

lemma plan_keyed:
  assumes "fold_res (plan_step ou g prefix) as (0, start_working s ids) = Inr (n, w)"
  shows "keyed br_id (ws_rules w)" "keyed al_id (ws_lists w)"
proof -
  let ?none = "\<lparr>bs_ou = ou, bs_rules = [], bs_lists = [], bs_unmanaged = []\<rparr>"
  have start: "guarded g prefix ?none (start_working s ids)"
    by (simp add: guarded_def start_working_def keyed_dict_of)
  have "guarded g prefix ?none (snd (n, w))"
    using assms
    by (rule fold_res_invariant [where P = "\<lambda>t. guarded g prefix ?none (snd t)"])
      (auto simp: start plan_step_def res_simps dest: guarded_apply_action split: if_splits)
  then show "keyed br_id (ws_rules w)" "keyed al_id (ws_lists w)"
    by (simp_all add: guarded_def)
qed

section \<open>Only owned resources change\<close>

lemma unowned_resources_kept:
  assumes "wf_blocked_state s" and "set ids \<inter> al_id ` set (bs_lists s) = {}"
    and d: "calculate_desired_state s plan g ids prefix = Inr d"
  shows "r \<in> set (bs_rules s) \<Longrightarrow> \<not> owned_rule g prefix r \<Longrightarrow> r \<in> set (bs_rules (dr_state d))"
    and "l \<in> set (bs_lists s) \<Longrightarrow> \<not> owned_list g prefix l \<Longrightarrow> l \<in> set (bs_lists (dr_state d))"
proof -
  from d obtain n w where w:
      "fold_res (plan_step (bs_ou s) g prefix) (tp_actions plan) (0, start_working s ids) = Inr (n, w)"
    and dr: "dr_state d = \<lparr>bs_ou = bs_ou s, bs_rules = sort_key br_id (dict_values (ws_rules w)),
       bs_lists = sort_key al_id (dict_values (ws_lists w)), bs_unmanaged = sort (bs_unmanaged s)\<rparr>"
    by (rule calculate_Inr)
  have g: "guarded g prefix s w" using guarded_plan [OF assms(1,2) w] .
  note keyed = guarded_keyed [OF g]
  show "r \<in> set (bs_rules s) \<Longrightarrow> \<not> owned_rule g prefix r \<Longrightarrow> r \<in> set (bs_rules (dr_state d))"
    using g keyed_values_iff [OF keyed(1), of r] by (auto simp: guarded_def dr simp del: set_map)
  show "l \<in> set (bs_lists s) \<Longrightarrow> \<not> owned_list g prefix l \<Longrightarrow> l \<in> set (bs_lists (dr_state d))"
    using g keyed_values_iff [OF keyed(2), of l] by (auto simp: guarded_def dr simp del: set_map)
qed

section \<open>Validated plans keep resources well formed\<close>

definition wf_working :: "working \<Rightarrow> bool" where
  "wf_working w \<longleftrightarrow> (\<forall>r \<in> set (dict_values (ws_rules w)). wf_blocked_rule r) \<and>
     (\<forall>l \<in> set (dict_values (ws_lists w)). wf_address_list l)"

text \<open>
  An action the constructors of the action and of the plan accept, and that, when it updates a
  rule, names no bypass value twice. The plan checks only the blocked entries; the bypass entries
  of a new rule are checked when their list is constructed, those an update gives to a list the
  rule has are not (see the last section of the claims).
\<close>

fun updated_bypass :: "action \<Rightarrow> address_entry list" where
  "updated_bypass (Update_Blocked_Sender_Rule _ _ bypass _ _) = bypass"
| "updated_bypass _ = []"

definition sound_action :: "action \<Rightarrow> bool" where
  "sound_action a \<longleftrightarrow> check_action a = Inr a \<and>
     (\<forall>es \<in> set_option (action_entries a). distinct (entry_values es)) \<and>
     distinct (entry_values (updated_bypass a))"

lemma dict_values_put: "set (dict_values (dict_put k v d)) \<subseteq> insert v (set (dict_values d))"
  by (induction d) auto

lemma dict_of_values: "set (dict_values (dict_of f xs)) \<subseteq> set xs"
proof -
  have "set (dict_values (fold (\<lambda>v d. dict_put (f v) v d) xs e)) \<subseteq> set xs \<union> set (dict_values e)" for e
  proof (induction xs arbitrary: e)
    case (Cons x xs)
    from dict_values_put [of "f x" x e] Cons [of "dict_put (f x) x e"]
    show ?case by (simp del: set_map) blast
  qed simp
  from this [of "[]"] show ?thesis by (simp add: dict_of_def)
qed

lemma dict_values_del: "set (dict_values (dict_del k d)) \<subseteq> set (dict_values d)"
  by (auto simp: AList.delete_eq)

lemma wf_put_rule: "wf_working w \<Longrightarrow> wf_blocked_rule r \<Longrightarrow> wf_working (put_rule r w)"
  using dict_values_put [of "br_id r" r "ws_rules w"] by (auto simp: wf_working_def put_rule_def simp del: set_map)

lemma wf_put_list: "wf_working w \<Longrightarrow> wf_address_list l \<Longrightarrow> wf_working (put_list l w)"
  using dict_values_put [of "al_id l" l "ws_lists w"] by (auto simp: wf_working_def put_list_def simp del: set_map)

lemma wf_drop_rule: "wf_working w \<Longrightarrow> wf_working (drop_rule i w)"
  using dict_values_del [of i "ws_rules w"] by (auto simp: wf_working_def drop_rule_def simp del: set_map)

lemma wf_drop_list: "wf_working w \<Longrightarrow> wf_working (drop_list i w)"
  using dict_values_del [of i "ws_lists w"] by (auto simp: wf_working_def drop_list_def simp del: set_map)

lemma wf_drop_lists: "wf_working w \<Longrightarrow> wf_working (fold (\<lambda>l. drop_list (al_id l)) ls w)"
  by (induction ls arbitrary: w) (auto intro: wf_drop_list)

lemmas wf_working_intros = wf_put_rule wf_put_list wf_drop_rule wf_drop_list wf_drop_lists

lemma mset_sorted_entries [simp]: "mset (sorted_entries es) = mset es"
  by (simp add: sorted_entries_def)

lemma set_sorted_entries [simp]: "set (sorted_entries es) = set es"
  by (simp add: sorted_entries_def)

lemma distinct_sorted_entries [simp]:
  "distinct (entry_values (sorted_entries es)) \<longleftrightarrow> distinct (entry_values es)"
  by (rule mset_eq_imp_distinct_iff) (simp add: sorted_entries_def)

lemma wf_list_entries:
  "wf_address_list l \<Longrightarrow> distinct (entry_values es) \<Longrightarrow> wf_address_list (l\<lparr>al_entries := sorted_entries es\<rparr>)"
  by (simp add: wf_address_list_def)

lemma wf_values:
  assumes "wf_working w"
  shows "dict_get (ws_rules w) i = Some r \<Longrightarrow> wf_blocked_rule r"
    and "dict_get (ws_lists w) i = Some l \<Longrightarrow> wf_address_list l"
    and "l \<in> set (matching_lists name w) \<Longrightarrow> wf_address_list l"
  using assms by (auto simp: wf_working_def matching_lists_def dest!: map_of_SomeD)

lemma wf_rule_list:
  assumes "wf_working w" and "require_rule_list r w g prefix = Inr l"
  shows "wf_address_list l"
  using wf_values(3) [OF assms(1), of l "al_name l"] require_rule_list_Inr(2) [OF assms(2)] by simp

lemma wf_next_id: "wf_working w \<Longrightarrow> next_id w = Inr (i, u) \<Longrightarrow> wf_working u"
  by (auto simp: next_id_def wf_working_def split: list.splits)

lemma wf_make_bypass_list:
  assumes "wf_working w" and "make_bypass_list es prefix w = Inr (names, w')"
  shows "wf_working w'" "distinct names"
proof -
  from assms(2) obtain i u l where u: "next_id w = Inr (i, u)"
      "make_address_list i (snd (managed_resource_names prefix i) @ '' bypass'') (sorted_entries es) = Inr l"
      "w' = put_list l u" "distinct names"
    by (auto simp: make_bypass_list_def res_simps Let_def)
  then show "wf_working w'" "distinct names"
    using wf_next_id [OF assms(1) u(1)] by (auto simp: make_address_list_Inr_iff intro: wf_put_list)
qed

lemma wf_create_rule:
  assumes "wf_working w" and "create_rule es notice ou bs en prefix w = Inr w'"
  shows "wf_working w'"
  using assms(2)
proof (rule create_rule_Inr)
  fix i u l names v r
  assume u: "next_id w = Inr (i, u)"
    "make_address_list i (snd (managed_resource_names prefix i)) (sorted_entries es) = Inr l"
    "(if bs \<noteq> [] then make_bypass_list bs prefix (put_list l u) else Inr ([], put_list l u)) = Inr (names, v)"
    "make_blocked_rule i (fst (managed_resource_names prefix i)) ou
       [snd (managed_resource_names prefix i)] names notice en False = Inr r"
    "w' = put_rule r v"
  have "wf_working (put_list l u)"
    using wf_next_id [OF assms(1) u(1)] u(2) by (auto simp: make_address_list_Inr_iff intro: wf_put_list)
  then have "wf_working v" using u(3) wf_make_bypass_list(1) by (auto split: if_splits)
  then show ?thesis unfolding u(5) using make_blocked_rule_Inr(1) [OF u(4)] by (rule wf_put_rule)
qed

lemma distinct_combine:
  assumes "distinct (entry_values es)" and "distinct (entry_values as)"
  shows "distinct (entry_values (combine_entries es as))"
  using assms by (auto simp: combine_entries_def distinct_map_filter) (metis image_eqI)

lemma wf_add_entries:
  assumes w: "wf_working w" and "distinct (entry_values es)"
    and a: "add_entries es notice target ou g prefix w = Inr w'"
  shows "wf_working w'"
proof -
  from a obtain found where f: "resolve_add_target notice target w g prefix = Inr found"
    unfolding add_entries_def by (rule and_thenE)
  show ?thesis
  proof (cases "\<exists>r l. found = Some (r, l) \<and> (notice = None \<or> notice = br_notice r)")
    case False
    with a f have "create_rule es notice ou [] True prefix w = Inr w'"
      by (auto simp: add_entries_def split: option.splits prod.splits if_splits)
    then show ?thesis using wf_create_rule [OF w] by blast
  next
    case True
    then obtain r l where rl: "found = Some (r, l)" "notice = None \<or> notice = br_notice r" by blast
    have "wf_address_list l" using wf_rule_list [OF w] resolve_add_target_Inr(2) f rl(1) by blast
    moreover have "w' = put_list (l\<lparr>al_entries := sorted_entries (combine_entries (al_entries l) es)\<rparr>) w"
      using a f rl by (auto simp: add_entries_def)
    ultimately show ?thesis using w assms(2)
      by (auto intro!: wf_put_list wf_list_entries distinct_combine simp: wf_address_list_def)
  qed
qed

lemma wf_remove_entries:
  assumes w: "wf_working w" and "remove_entries es target g prefix w = Inr w'"
  shows "wf_working w'"
proof -
  from assms(2) obtain r l where l: "require_rule_list r w g prefix = Inr l"
    and w': "w' = put_list (l\<lparr>al_entries := sorted_entries
      (filter (\<lambda>e. ae_normalized_value e \<notin> set (entry_values es)) (al_entries l))\<rparr>) w"
    by (auto simp: remove_entries_def res_simps Let_def)
  have "wf_address_list l" using wf_rule_list [OF w l] .
  then show ?thesis unfolding w' using w
    by (intro wf_put_list wf_list_entries) (auto simp: wf_address_list_def distinct_map_filter)
qed

lemma wf_update_rule:
  assumes w: "wf_working w" and "distinct (entry_values es)" "distinct (entry_values bs)"
    and notice: "check_optional_notice notice = Inr notice"
    and u: "update_rule target es bs notice en g prefix w = Inr w'"
  shows "wf_working w'"
proof -
  from u obtain r primary existing names v where
    r: "require_rule target w = Inr r" and p: "require_rule_list r w g prefix = Inr primary"
    and e: "owned_bypass_lists r (put_list (primary\<lparr>al_entries := sorted_entries es\<rparr>) w) g prefix = Inr existing"
    and b: "update_bypass bs existing prefix (put_list (primary\<lparr>al_entries := sorted_entries es\<rparr>) w) = Inr (names, v)"
    and w': "w' = put_rule (r\<lparr>br_bypass := names, br_notice := notice, br_enabled := en\<rparr>) v"
    by (auto simp: update_rule_def res_simps Let_def split: if_splits)
  let ?w = "put_list (primary\<lparr>al_entries := sorted_entries es\<rparr>) w"
  have wf: "wf_working ?w"
    using w wf_rule_list [OF w p] assms(2) by (intro wf_put_list wf_list_entries) auto
  have ex: "wf_address_list l" if l: "l \<in> set existing" for l
  proof -
    obtain name where "owned_bypass_list ?w g prefix name = Inr l"
      using map_res_set [OF e [unfolded owned_bypass_lists_def] l] by blast
    then have "l \<in> set (matching_lists name ?w)" using owned_bypass_list_Inr(1) by simp
    then show ?thesis using wf_values(3) [OF wf] by blast
  qed
  have v: "wf_working v \<and> distinct names"
  proof (cases "bs \<noteq> [] \<and> existing = []")
    case True
    then show ?thesis using b wf_make_bypass_list [OF wf] by (auto simp: update_bypass_def)
  next
    case False
    then show ?thesis
      using b wf ex assms(3)
      by (auto simp: update_bypass_def Let_def intro!: wf_drop_lists wf_put_list wf_list_entries
          split: if_splits)
  qed
  have "wf_blocked_rule r" using wf_values(1) [OF w] r by (auto simp: require_rule_Inr)
  then have "wf_blocked_rule (r\<lparr>br_bypass := names, br_notice := notice, br_enabled := en\<rparr>)"
    using v check_optional_notice_facts [OF notice] by (simp add: wf_blocked_rule_def)
  with v show ?thesis unfolding w' by (intro wf_put_rule) auto
qed

lemma wf_remove_rule:
  assumes w: "wf_working w" and "remove_rule target del g prefix w = Inr w'"
  shows "wf_working w'"
proof -
  have step: "wf_working u \<Longrightarrow> remove_bypass g prefix name u = Inr u' \<Longrightarrow> wf_working u'" for u name u'
    by (auto simp: remove_bypass_def res_simps wf_drop_list split: list.splits if_splits)
  from assms(2) obtain r l where "require_rule target w = Inr r" "require_rule_list r w g prefix = Inr l"
    and w': "w' = drop_rule (br_id r) w \<or>
      fold_res (remove_bypass g prefix) (br_bypass r) (drop_list (al_id l) (drop_rule (br_id r) w)) = Inr w'"
    by (auto simp: remove_rule_def res_simps Let_def split: if_splits)
  show ?thesis
    using w' w fold_res_invariant [where P = wf_working and f = "remove_bypass g prefix"] step
    by (metis wf_drop_list wf_drop_rule)
qed

lemma wf_apply_action:
  assumes w: "wf_working w" and a: "sound_action a" and ap: "apply_action g prefix a w = Inr (n, w')"
  shows "wf_working w'"
proof (cases a)
  case (Set_Rejection_Notice target notice)
  then have notice: "py_strip notice = notice" "notice \<noteq> []" "length notice \<le> 1000"
    using a by (auto simp: sound_action_def split: if_splits)
  from ap Set_Rejection_Notice obtain r where
    "require_rule target w = Inr r" and "w' = w \<or> w' = put_rule (r\<lparr>br_notice := Some notice\<rparr>) w"
    by (auto simp: set_notice_def res_simps split: if_splits)
  then show ?thesis
    using w notice wf_values(1) [OF w]
    by (auto simp: require_rule_Inr wf_blocked_rule_def intro!: wf_put_rule)
next
  case (Set_Blocked_Sender_Rule_Enabled target en)
  with ap obtain r where "require_rule target w = Inr r" "w' = put_rule (r\<lparr>br_enabled := en\<rparr>) w"
    by (auto simp: set_enabled_def res_simps split: if_splits)
  then show ?thesis
    using w wf_values(1) [OF w]
    by (auto simp: require_rule_Inr wf_blocked_rule_def intro!: wf_put_rule)
next
  case (Update_Blocked_Sender_Rule target es bs notice en)
  then have "check_optional_notice notice = Inr notice"
    using a by (auto simp: sound_action_def res_simps split: if_splits)
  then show ?thesis
    using Update_Blocked_Sender_Rule a ap wf_update_rule [OF w]
    by (auto simp: sound_action_def res_simps)
qed (use w a ap in \<open>auto simp: sound_action_def res_simps
    dest: wf_create_rule wf_add_entries wf_remove_entries wf_remove_rule\<close>)

lemma desired_resources_wf:
  assumes d: "calculate_desired_state s plan g ids prefix = Inr d"
    and rules: "\<forall>r \<in> set (bs_rules s). wf_blocked_rule r"
    and lists': "\<forall>l \<in> set (bs_lists s). wf_address_list l"
    and sound: "\<forall>a \<in> set (tp_actions plan). sound_action a"
  shows "\<forall>r \<in> set (bs_rules (dr_state d)). wf_blocked_rule r"
    and "\<forall>l \<in> set (bs_lists (dr_state d)). wf_address_list l"
proof -
  from d obtain n w where w:
      "fold_res (plan_step (bs_ou s) g prefix) (tp_actions plan) (0, start_working s ids) = Inr (n, w)"
    and dr: "dr_state d = \<lparr>bs_ou = bs_ou s, bs_rules = sort_key br_id (dict_values (ws_rules w)),
       bs_lists = sort_key al_id (dict_values (ws_lists w)), bs_unmanaged = sort (bs_unmanaged s)\<rparr>"
    by (rule calculate_Inr)
  have start: "wf_working (start_working s ids)"
    using rules lists' dict_of_values [of br_id "bs_rules s"] dict_of_values [of al_id "bs_lists s"]
    unfolding wf_working_def start_working_def by (simp del: set_map) blast
  have "wf_working (snd (n, w))"
    using w
  proof (rule fold_res_invariant [where P = "\<lambda>t. wf_working (snd t)"])
    fix a t u
    assume "a \<in> set (tp_actions plan)" "wf_working (snd t)" "plan_step (bs_ou s) g prefix a t = Inr u"
    then show "wf_working (snd u)"
      using sound by (auto simp: plan_step_def res_simps dest: wf_apply_action split: if_splits)
  qed (use start in simp)
  then show "\<forall>r \<in> set (bs_rules (dr_state d)). wf_blocked_rule r"
    "\<forall>l \<in> set (bs_lists (dr_state d)). wf_address_list l"
    by (simp_all add: wf_working_def dr del: set_map)
qed

end
