(* ===== verification/Desired_Order.thy ===== *)
theory Desired_Order
  imports Desired_Properties
begin

text \<open>
  The desired state does not depend on the order in which the observed rules and lists were
  read, and an edit of an existing rule is idempotent: applied to the state it asks for it
  asks for that state. Both follow from one simulation: working sets that hold the same
  resources under the same identifiers stay so under every action.
\<close>

definition same_working :: "working \<Rightarrow> working \<Rightarrow> bool" where
  "same_working w u \<longleftrightarrow> keyed br_id (ws_rules w) \<and> keyed br_id (ws_rules u) \<and>
     keyed al_id (ws_lists w) \<and> keyed al_id (ws_lists u) \<and> ws_ids w = ws_ids u \<and>
     map_of (ws_rules w) = map_of (ws_rules u) \<and> map_of (ws_lists w) = map_of (ws_lists u)"

lemma keyed_same_values:
  assumes "keyed key d" and "keyed key e" and "map_of d = map_of e"
  shows "mset (dict_values d) = mset (dict_values e)"
proof -
  have "set (dict_values d) = set (dict_values e)"
    using keyed_values_iff [OF assms(1)] keyed_values_iff [OF assms(2)] assms(3) by (simp add: set_eq_iff)
  then show ?thesis
    using keyed_distinct_value_list [OF assms(1)] keyed_distinct_value_list [OF assms(2)]
    by (metis set_eq_iff_mset_eq_distinct)
qed

lemma same_values:
  assumes "same_working w u"
  shows "mset (dict_values (ws_rules w)) = mset (dict_values (ws_rules u))"
    "mset (dict_values (ws_lists w)) = mset (dict_values (ws_lists u))"
  using assms keyed_same_values unfolding same_working_def by blast+

lemma same_values_set:
  assumes "same_working w u"
  shows "set (dict_values (ws_rules w)) = set (dict_values (ws_rules u))"
    "set (dict_values (ws_lists w)) = set (dict_values (ws_lists u))"
  using same_values [OF assms] by (metis mset_eq_setD)+

lemma same_mapped:
  assumes "same_working w u"
  shows "mset (map f (dict_values (ws_rules u))) = mset (map f (dict_values (ws_rules w)))"
    "mset (map h (dict_values (ws_lists u))) = mset (map h (dict_values (ws_lists w)))"
  using same_values [OF assms] by (metis mset_map)+

lemma same_names_unique:
  assumes "same_working w u" and "mset us = mset ts" and "names_unique w us"
  shows "names_unique u ts"
proof -
  have "mset (map br_name (dict_values (ws_rules u)) @ ts) =
      mset (map br_name (dict_values (ws_rules w)) @ us)"
    using same_mapped(1) [OF assms(1), of br_name] assms(2) by (simp only: mset_append)
  then show ?thesis
    using assms(3) same_mapped(2) [OF assms(1), of al_name]
    unfolding names_unique_def by (metis mset_eq_imp_distinct_iff)
qed

lemma same_sym: "same_working w u \<Longrightarrow> same_working u w"
  by (auto simp: same_working_def)

lemma same_put_rule: "same_working w u \<Longrightarrow> same_working (put_rule r w) (put_rule r u)"
  by (simp add: same_working_def put_rule_def keyed_put update_conv')

lemma same_put_list: "same_working w u \<Longrightarrow> same_working (put_list l w) (put_list l u)"
  by (simp add: same_working_def put_list_def keyed_put update_conv')

lemma same_drop_rule: "same_working w u \<Longrightarrow> same_working (drop_rule i w) (drop_rule i u)"
  by (simp add: same_working_def drop_rule_def keyed_del delete_conv')

lemma same_drop_list: "same_working w u \<Longrightarrow> same_working (drop_list i w) (drop_list i u)"
  by (simp add: same_working_def drop_list_def keyed_del delete_conv')

lemma same_drop_lists:
  "same_working w u \<Longrightarrow>
     same_working (fold (\<lambda>l. drop_list (al_id l)) ls w) (fold (\<lambda>l. drop_list (al_id l)) ls u)"
  by (induction ls arbitrary: w u) (auto intro: same_drop_list)

lemmas same_working_intros = same_put_rule same_put_list same_drop_rule same_drop_list same_drop_lists

lemma same_require_rule: "same_working w u \<Longrightarrow> require_rule i u = require_rule i w"
  by (simp add: require_rule_def same_working_def)

lemma case_singleton_same:
  assumes "mset xs = mset ys"
  shows "(case xs of [x] \<Rightarrow> f x | _ \<Rightarrow> c) = (case ys of [x] \<Rightarrow> f x | _ \<Rightarrow> c)"
proof (cases "length xs = 1")
  case True
  then obtain x where "xs = [x]" by (cases xs) auto
  with assms have "ys = [x]" by simp
  with \<open>xs = [x]\<close> show ?thesis by simp
next
  case False
  then have "length ys \<noteq> 1" using assms by (metis size_mset)
  with False show ?thesis by (auto split: list.splits)
qed

lemma same_matching: "same_working w u \<Longrightarrow> mset (matching_lists n w) = mset (matching_lists n u)"
  using same_values(2) by (simp add: matching_lists_def)

lemma same_require_rule_list:
  "same_working w u \<Longrightarrow> require_rule_list r u g prefix = require_rule_list r w g prefix"
  unfolding require_rule_list_def
  by (simp only: case_singleton_same [OF same_matching [OF same_sym]])

lemma same_owned_bypass:
  assumes "same_working w u"
  shows "owned_bypass_lists r u g prefix = owned_bypass_lists r w g prefix"
proof -
  have "owned_bypass_list u g prefix = owned_bypass_list w g prefix"
    unfolding owned_bypass_list_def
    by (intro ext) (rule case_singleton_same [OF same_matching [OF same_sym [OF assms]]])
  then show ?thesis by (simp add: owned_bypass_lists_def)
qed

lemma same_list_ex:
  "same_working w u \<Longrightarrow> list_ex P (dict_values (ws_rules u)) = list_ex P (dict_values (ws_rules w))"
  using same_values_set(1) by (auto simp: list_ex_iff simp del: set_map)

text \<open>A routine that succeeds on the one succeeds on the other with the same working sets.\<close>

definition same_result :: "('a \<times> working) res \<Rightarrow> ('a \<times> working) res \<Rightarrow> bool" where
  "same_result x y \<longleftrightarrow> (\<forall>a w. x = Inr (a, w) \<longrightarrow> (\<exists>u. y = Inr (a, u) \<and> same_working w u))"

definition same_res :: "working res \<Rightarrow> working res \<Rightarrow> bool" where
  "same_res x y \<longleftrightarrow> (\<forall>w. x = Inr w \<longrightarrow> (\<exists>u. y = Inr u \<and> same_working w u))"

lemma same_result_simps [simp]:
  "same_result (Inl e) y"
  "same_result (Inr (a, w)) (Inr (b, u)) \<longleftrightarrow> a = b \<and> same_working w u"
  "same_res (Inl e) z"
  "same_res (Inr w) (Inr u) \<longleftrightarrow> same_working w u"
  by (auto simp: same_result_def same_res_def)

lemma same_and_then:
  assumes "same_result x y"
    and "\<And>a w u. same_working w u \<Longrightarrow> same_result (f (a, w)) (h (a, u))"
  shows "same_result (and_then x f) (and_then y h)"
  using assms by (cases x) (fastforce simp: same_result_def)+

lemma same_and_then_res:
  assumes "same_result x y"
    and "\<And>a w u. same_working w u \<Longrightarrow> same_res (f (a, w)) (h (a, u))"
  shows "same_res (and_then x f) (and_then y h)"
  using assms by (cases x) (fastforce simp: same_result_def same_res_def)+

lemma same_result_value:
  assumes "\<And>a. m = Inr a \<Longrightarrow> same_res (f a) (h a)"
  shows "same_res (and_then m f) (and_then m h)"
  using assms by (cases m) auto

lemma same_next_id: "same_working w u \<Longrightarrow> same_result (next_id w) (next_id u)"
  by (auto simp: next_id_def same_working_def split: list.splits)

lemma same_result_value_pair:
  assumes "\<And>a. m = Inr a \<Longrightarrow> same_result (f a) (h a)"
  shows "same_result (and_then m f) (and_then m h)"
  using assms by (cases m) auto

lemma same_make_bypass:
  "same_working w u \<Longrightarrow> same_result (make_bypass_list es prefix w) (make_bypass_list es prefix u)"
  unfolding make_bypass_list_def Let_def
  by (rule same_and_then [OF same_next_id])
    (auto intro!: same_result_value_pair same_working_intros)

lemma same_create_rule:
  assumes "same_working w u"
  shows "same_res (create_rule es notice ou bs en prefix w) (create_rule es notice ou bs en prefix u)"
  unfolding create_rule_def case_prod_unfold Let_def
proof (rule same_and_then_res [OF same_next_id [OF assms]])
  fix a v t assume same: "same_working v t"
  then have keys: "set (dict_keys (ws_rules v)) = set (dict_keys (ws_rules t))"
      "set (dict_keys (ws_lists v)) = set (dict_keys (ws_lists t))"
    unfolding same_working_def by (metis dom_map_of_conv_image_fst list.set_map)+
  have put: "same_result (if bs \<noteq> [] then make_bypass_list bs prefix (put_list l v) else Inr ([], put_list l v))
      (if bs \<noteq> [] then make_bypass_list bs prefix (put_list l t) else Inr ([], put_list l t))" for l
    using same by (auto intro: same_make_bypass same_put_list)
  show "same_res
     (if fst (a, v) \<in> set (dict_keys (ws_rules (snd (a, v)))) \<or> fst (a, v) \<in> set (dict_keys (ws_lists (snd (a, v))))
      then Inl ValueError
      else and_then (make_address_list (fst (a, v)) (snd (managed_resource_names prefix (fst (a, v)))) (sorted_entries es))
        (\<lambda>l. and_then (if bs \<noteq> [] then make_bypass_list bs prefix (put_list l (snd (a, v))) else Inr ([], put_list l (snd (a, v))))
          (\<lambda>p. and_then (make_blocked_rule (fst (a, v)) (fst (managed_resource_names prefix (fst (a, v)))) ou
               [snd (managed_resource_names prefix (fst (a, v)))] (fst p) notice en False)
             (\<lambda>r. Inr (put_rule r (snd p))))))
     (if fst (a, t) \<in> set (dict_keys (ws_rules (snd (a, t)))) \<or> fst (a, t) \<in> set (dict_keys (ws_lists (snd (a, t))))
      then Inl ValueError
      else and_then (make_address_list (fst (a, t)) (snd (managed_resource_names prefix (fst (a, t)))) (sorted_entries es))
        (\<lambda>l. and_then (if bs \<noteq> [] then make_bypass_list bs prefix (put_list l (snd (a, t))) else Inr ([], put_list l (snd (a, t))))
          (\<lambda>p. and_then (make_blocked_rule (fst (a, t)) (fst (managed_resource_names prefix (fst (a, t)))) ou
               [snd (managed_resource_names prefix (fst (a, t)))] (fst p) notice en False)
             (\<lambda>r. Inr (put_rule r (snd p))))))"
    unfolding fst_conv snd_conv keys
    by (auto intro!: same_result_value same_and_then_res [OF put] same_put_rule
        simp del: if_image_distrib)
qed


text \<open>
  A list action, removal, notice and so on read the working sets through \<open>require_rule\<close>,
  \<open>require_rule_list\<close> and the bypass lookup only.
\<close>

lemma same_remove_entries:
  assumes "same_working w u"
  shows "same_res (remove_entries es target g prefix w) (remove_entries es target g prefix u)"
  unfolding remove_entries_def Let_def same_require_rule [OF assms] same_require_rule_list [OF assms]
  by (intro same_result_value) (simp add: assms same_put_list)

lemma same_set_notice:
  assumes "same_working w u"
  shows "same_result (set_notice target notice g prefix w) (set_notice target notice g prefix u)"
  unfolding set_notice_def same_require_rule [OF assms] same_require_rule_list [OF assms]
  by (intro same_result_value_pair) (simp add: assms same_put_rule)

lemma same_set_enabled:
  assumes "same_working w u"
  shows "same_res (set_enabled target en g prefix w) (set_enabled target en g prefix u)"
  unfolding set_enabled_def same_require_rule [OF assms]
  by (intro same_result_value) (simp add: assms same_put_rule)

lemma same_update_bypass:
  "same_working w u \<Longrightarrow> same_result (update_bypass es existing prefix w) (update_bypass es existing prefix u)"
  by (auto simp: update_bypass_def Let_def intro!: same_drop_lists same_put_list same_make_bypass)

lemma same_update_rule:
  assumes "same_working w u"
  shows "same_res (update_rule target es bs notice en g prefix w) (update_rule target es bs notice en g prefix u)"
proof -
  have tail: "same_res
      (and_then (owned_bypass_lists r (put_list l w) g prefix) (\<lambda>existing.
         and_then (update_bypass bs existing prefix (put_list l w)) (\<lambda>(names, w).
           Inr (put_rule (r\<lparr>br_bypass := names, br_notice := notice, br_enabled := en\<rparr>) w))))
      (and_then (owned_bypass_lists r (put_list l u) g prefix) (\<lambda>existing.
         and_then (update_bypass bs existing prefix (put_list l u)) (\<lambda>(names, w).
           Inr (put_rule (r\<lparr>br_bypass := names, br_notice := notice, br_enabled := en\<rparr>) w))))" for r l
  proof -
    have put: "same_working (put_list l w) (put_list l u)" using assms by (rule same_put_list)
    show ?thesis
      unfolding same_owned_bypass [OF put]
      by (intro same_result_value same_and_then_res [OF same_update_bypass [OF put]])
        (simp add: same_put_rule)
  qed
  show ?thesis
    unfolding update_rule_def Let_def same_require_rule [OF assms] same_require_rule_list [OF assms]
    by (intro same_result_value) (auto intro!: same_result_value tail)
qed

lemma same_remove_bypass:
  assumes "same_working w u"
  shows "same_res (remove_bypass g prefix name w) (remove_bypass g prefix name u)"
proof (cases "\<exists>l. matching_lists name w = [l]")
  case True
  then obtain l where l: "matching_lists name w = [l]" by blast
  then have "matching_lists name u = [l]" using same_matching [OF assms, of name] by simp
  with l show ?thesis
    unfolding remove_bypass_def
    by (auto intro!: same_result_value simp: same_list_ex [OF assms] same_drop_list [OF assms])
next
  case False
  then have "remove_bypass g prefix name w = Inl AmbiguousTarget"
    by (auto simp: remove_bypass_def split: list.splits)
  then show ?thesis by simp
qed

lemma same_fold_res:
  assumes "\<And>x w u. same_working w u \<Longrightarrow> same_res (f x w) (f x u)" and "same_working w u"
  shows "same_res (fold_res f xs w) (fold_res f xs u)"
  using assms(2)
proof (induction xs arbitrary: w u)
  case (Cons x xs)
  have "same_res (f x w) (f x u)" using assms(1) Cons.prems .
  then show ?case
    using Cons.IH by (cases "f x w") (fastforce simp: same_res_def)+
qed simp

lemma same_remove_rule:
  assumes "same_working w u"
  shows "same_res (remove_rule target del g prefix w) (remove_rule target del g prefix u)"
proof -
  have drop: "same_working (drop_rule i w) (drop_rule i u)" for i
    using assms by (rule same_drop_rule)
  show ?thesis
    unfolding remove_rule_def Let_def same_require_rule [OF assms] same_require_rule_list [OF assms]
      same_list_ex [OF drop]
    by (intro same_result_value)
      (auto simp: drop intro!: same_fold_res same_remove_bypass same_drop_list)
qed

text \<open>The candidates for an untargeted addition are the same up to order.\<close>

lemma candidates_of:
  assumes "add_candidates g prefix notice w rs = Inr cs"
  shows "map fst cs = filter (\<lambda>r. br_notice r = notice) rs"
    and "\<forall>r \<in> set rs. br_notice r = notice \<longrightarrow>
      (\<exists>x. require_owned_rule r g prefix = Inr x) \<and> (\<exists>l. require_rule_list r w g prefix = Inr l)"
  using assms by (induction rs arbitrary: cs) (auto simp: res_simps split: if_splits)

lemma candidates_exist:
  assumes "\<forall>r \<in> set rs. br_notice r = notice \<longrightarrow>
      (\<exists>x. require_owned_rule r g prefix = Inr x) \<and> (\<exists>l. require_rule_list r w g prefix = Inr l)"
  shows "\<exists>cs. add_candidates g prefix notice w rs = Inr cs"
  using assms by (induction rs) (auto simp: res_simps)

lemma same_resolve:
  assumes same: "same_working w u" and "resolve_add_target notice target w g prefix = Inr found"
  shows "resolve_add_target notice target u g prefix = Inr found"
proof (cases target)
  case (Some i)
  then show ?thesis
    using assms(2) by (simp add: resolve_add_target_def same_require_rule [OF same]
        same_require_rule_list [OF same])
next
  case None
  let ?rs = "dict_values (ws_rules w)" and ?us = "dict_values (ws_rules u)"
  from assms(2) None obtain cs where cs: "add_candidates g prefix notice w ?rs = Inr cs"
      "(case cs of [] \<Rightarrow> Inr None | [c] \<Rightarrow> Inr (Some c) | _ \<Rightarrow> Inl AmbiguousTarget) = Inr found"
    unfolding resolve_add_target_def by (auto elim: and_thenE)
  have set: "set ?us = set ?rs" using same_values_set(1) [OF same] by simp
  obtain ds where ds: "add_candidates g prefix notice u ?us = Inr ds"
    using candidates_exist [of ?us notice g prefix u] candidates_of(2) [OF cs(1)]
    unfolding set same_require_rule_list [OF same] by blast
  have "mset (map fst ds) = mset (map fst cs)"
    unfolding candidates_of(1) [OF cs(1)] candidates_of(1) [OF ds] using same_values(1) [OF same]
    by simp
  then have len: "length ds = length cs" and firsts: "mset (map fst ds) = mset (map fst cs)"
    by (metis length_map mset_eq_length)+
  show ?thesis
  proof (cases cs)
    case Nil
    with len cs(2) ds None show ?thesis by (simp add: resolve_add_target_def)
  next
    case (Cons c cs')
    then have "cs' = []" using cs(2) by (cases cs') auto
    then obtain e where e: "ds = [e]" "fst e = fst c" "cs = [c]"
      using len firsts Cons by (cases ds) auto
    have "require_rule_list (fst c) w g prefix = Inr (snd c)"
      using add_candidates_Inr(4) [OF cs(1), of "fst c" "snd c"] e by simp
    moreover have "require_rule_list (fst e) u g prefix = Inr (snd e)"
      using add_candidates_Inr(4) [OF ds, of "fst e" "snd e"] e(1) by simp
    ultimately have "e = c" using e(2) same_require_rule_list [OF same] by (simp add: prod_eq_iff)
    with e cs(2) ds None show ?thesis by (simp add: resolve_add_target_def)
  qed
qed

lemma same_add_entries:
  assumes "same_working w u"
  shows "same_res (add_entries es notice target ou g prefix w) (add_entries es notice target ou g prefix u)"
proof (cases "resolve_add_target notice target w g prefix")
  case (Inr found)
  then show ?thesis
    unfolding add_entries_def same_resolve [OF assms Inr]
    by (auto split: option.splits prod.splits intro!: same_create_rule same_put_list assms)
qed (simp add: add_entries_def)

lemma same_res_pair:
  "same_res x y \<Longrightarrow> same_result (and_then x (\<lambda>w. Inr (n, w))) (and_then y (\<lambda>w. Inr (n, w)))"
  by (cases x) (auto simp: same_res_def)

lemma same_apply_action:
  assumes "same_working w u"
  shows "same_result (apply_action g prefix a w) (apply_action g prefix a u)"
  by (cases a) (use assms in \<open>auto intro!: same_res_pair same_create_rule same_add_entries
      same_remove_entries same_update_rule same_set_notice same_set_enabled same_remove_rule\<close>)

lemma same_plan:
  assumes "same_working w u" and "fold_res (plan_step ou g prefix) as (k, w) = Inr (n, w')"
  shows "\<exists>u'. fold_res (plan_step ou g prefix) as (k, u) = Inr (n, u') \<and> same_working w' u'"
  using assms
proof (induction as arbitrary: k w u)
  case (Cons a as)
  from Cons.prems(2) obtain m v where step: "apply_action g prefix a w = Inr (m, v)"
    and ok: "\<not> (case action_ou a of None \<Rightarrow> False | Some o' \<Rightarrow> o' \<noteq> ou)"
    and rest: "fold_res (plan_step ou g prefix) as (k + m, v) = Inr (n, w')"
    by (auto simp: plan_step_def [of ou g prefix a "(k, w)"] res_simps split: if_splits)
  obtain t where t: "apply_action g prefix a u = Inr (m, t)" "same_working v t"
    using same_apply_action [OF Cons.prems(1), of g prefix a] step by (auto simp: same_result_def)
  from Cons.IH [OF t(2) rest] t(1) ok show ?case
    by (auto simp: plan_step_def [of ou g prefix a "(k, u)"])
qed simp

text \<open>Equal working sets give the same result, whatever the order they are in.\<close>

lemma same_sorted:
  assumes "keyed key d" and "keyed key e" and "map_of d = map_of e"
  shows "sort_key key (dict_values d) = sort_key key (dict_values e)"
  by (rule sort_key_perm [OF keyed_same_values [OF assms]])
    (use keyed_distinct_values [OF assms(1)] distinct_map in blast)

text \<open>Two observations of the same resources.\<close>

definition same_resources :: "blocked_state \<Rightarrow> blocked_state \<Rightarrow> bool" where
  "same_resources s t \<longleftrightarrow> bs_ou s = bs_ou t \<and> mset (bs_rules s) = mset (bs_rules t) \<and>
     mset (bs_lists s) = mset (bs_lists t) \<and> mset (bs_unmanaged s) = mset (bs_unmanaged t)"

lemma map_of_perm:
  assumes "mset xs = mset ys" and "distinct (map f xs)"
  shows "map_of (dict_of f xs) = map_of (dict_of f ys)"
proof -
  have d: "distinct (map f ys)" using assms by (metis mset_map mset_eq_imp_distinct_iff)
  have fst_map: "map (fst \<circ> (\<lambda>v. (f v, v))) zs = map f zs" for zs by simp
  have "mset (map (\<lambda>v. (f v, v)) xs) = mset (map (\<lambda>v. (f v, v)) ys)" using assms(1) by simp
  then have "set (map (\<lambda>v. (f v, v)) xs) = set (map (\<lambda>v. (f v, v)) ys)" by (rule mset_eq_setD)
  then show ?thesis
    unfolding dict_of_distinct [OF assms(2)] dict_of_distinct [OF d]
    by (rule map_of_inject_set [THEN iffD2, rotated -1])
      (simp_all only: map_map fst_map assms(2) d)
qed

lemma calculate_same_resources:
  assumes wf: "wf_blocked_state s" and same: "same_resources s t"
    and d: "calculate_desired_state s plan g ids prefix = Inr d"
  shows "calculate_desired_state t plan g ids prefix = Inr d"
proof -
  from d obtain n w where w:
      "fold_res (plan_step (bs_ou s) g prefix) (tp_actions plan) (0, start_working s ids) = Inr (n, w)"
    and names: "names_unique w (bs_unmanaged s)"
    and dr: "dr_state d = \<lparr>bs_ou = bs_ou s, bs_rules = sort_key br_id (dict_values (ws_rules w)),
       bs_lists = sort_key al_id (dict_values (ws_lists w)), bs_unmanaged = sort (bs_unmanaged s)\<rparr>"
      "dr_notice_affected d = n" "wf_blocked_state (dr_state d)"
    by (rule calculate_Inr)
  have ou: "bs_ou t = bs_ou s" using same by (simp add: same_resources_def)
  have start: "same_working (start_working s ids) (start_working t ids)"
    using wf same map_of_perm [of "bs_rules s" "bs_rules t" br_id]
      map_of_perm [of "bs_lists s" "bs_lists t" al_id]
    by (simp add: same_working_def start_working_def keyed_dict_of wf_blocked_state_def
        same_resources_def)
  obtain u where u:
      "fold_res (plan_step (bs_ou s) g prefix) (tp_actions plan) (0, start_working t ids) = Inr (n, u)"
      "same_working w u"
    using same_plan [OF start w] by blast
  have unmanaged: "mset (bs_unmanaged t) = mset (bs_unmanaged s)" "sort (bs_unmanaged t) = sort (bs_unmanaged s)"
    using same by (auto simp: same_resources_def intro: properties_for_sort)
  have names': "names_unique u (bs_unmanaged t)"
    using same_names_unique [OF u(2) unmanaged(1) [symmetric] names] .
  have sorted: "sort_key br_id (dict_values (ws_rules u)) = sort_key br_id (dict_values (ws_rules w))"
      "sort_key al_id (dict_values (ws_lists u)) = sort_key al_id (dict_values (ws_lists w))"
    using u(2) same_sorted unfolding same_working_def by metis+
  have "make_blocked_state (bs_ou s) (sort_key br_id (dict_values (ws_rules w)))
      (sort_key al_id (dict_values (ws_lists w))) (sort (bs_unmanaged s)) = Inr (dr_state d)"
    using dr(1,3) by (simp add: make_blocked_state_Inr_iff)
  then show ?thesis
    using dr(2) unfolding calculate_desired_state_def ou u(1)
    by (simp add: names' sort_by_hex sorted unmanaged(2))
qed

section \<open>Edits are idempotent\<close>

text \<open>An edit of one existing rule, whose effect a second application repeats.\<close>

fun is_edit :: "action \<Rightarrow> bool" where
  "is_edit (Add_Blocked_Entries entries notice target ou) = (target \<noteq> None \<and> notice = None)"
| "is_edit (Remove_Blocked_Entries entries target) = True"
| "is_edit (Set_Rejection_Notice target notice) = True"
| "is_edit (Set_Blocked_Sender_Rule_Enabled target enabled) = True"
| "is_edit _ = False"

lemma sorted_entries_idem [simp]: "sorted_entries (sorted_entries es) = sorted_entries es"
  by (simp only: sorted_entries_def sort_key_sort_key)

lemma put_list_twice: "put_list l (put_list l' w) = put_list l w" if "al_id l = al_id l'"
  using that by (simp add: put_list_def update_last)

lemma put_rule_twice: "put_rule l (put_rule l' w) = put_rule l w" if "br_id l = br_id l'"
  using that by (simp add: put_rule_def update_last)

text \<open>Rewriting the entries of the rule's own list does not change what is found.\<close>

lemma matching_put_list:
  assumes "keyed al_id (ws_lists w)" and "dict_get (ws_lists w) (al_id l) = Some l" and "al_name l' = al_name l"
    and "al_id l' = al_id l" and "matching_lists n w = [l]"
  shows "matching_lists n (put_list l' w) = [l']"
proof -
  have k: "keyed al_id (ws_lists (put_list l' w))" using assms(1) by (simp add: put_list_def keyed_put)
  have "set (matching_lists n (put_list l' w)) = {l'}"
  proof (intro set_eqI iffI)
    fix x assume x: "x \<in> set (matching_lists n (put_list l' w))"
    then have g: "dict_get (ws_lists (put_list l' w)) (al_id x) = Some x" "al_name x = n"
      using matching_list_get [OF k] by auto
    show "x \<in> {l'}"
    proof (cases "al_id x = al_id l'")
      case True
      with g(1) show ?thesis by (simp add: put_list_get)
    next
      case False
      then have "dict_get (ws_lists w) (al_id x) = Some x" using g(1) by (simp add: put_list_get)
      then have "x \<in> set (matching_lists n w)"
        using g(2) keyed_values_iff [OF assms(1), of x] by (simp add: matching_lists_def del: set_map)
      with assms(5) False assms(4) show ?thesis by simp
    qed
  next
    fix x assume "x \<in> {l'}"
    have "al_name l = n" using matching_list_get(2) [OF assms(1), of l n] assms(5) by simp
    moreover have "l' \<in> set (dict_values (ws_lists (put_list l' w)))"
      using keyed_values_iff [OF k, of l'] by (simp add: put_list_get del: set_map)
    ultimately show "x \<in> set (matching_lists n (put_list l' w))"
      using \<open>x \<in> {l'}\<close> assms(3) by (simp add: matching_lists_def)
  qed
  moreover have "distinct (matching_lists n (put_list l' w))"
    using keyed_distinct_value_list [OF k] by (simp add: matching_lists_def)
  ultimately show ?thesis
    by (metis distinct_card card.insert empty_iff finite.emptyI card.empty One_nat_def length_0_conv
        length_Suc_conv list.set_intros(1) singletonD)
qed

lemma require_list_copy [simp]:
  "require_owned_address_list (l\<lparr>al_entries := es\<rparr>) g prefix = require_owned_address_list l g prefix"
  by (simp add: require_owned_address_list_def split: option.splits)

lemma require_rule_put_list [simp]: "require_rule i (put_list l w) = require_rule i w"
  by (simp add: require_rule_def)

lemma require_rule_list_owned:
  "require_rule_list r w g prefix = Inr l \<Longrightarrow> \<exists>x. require_owned_address_list l g prefix = Inr x"
  by (auto simp: require_rule_list_def res_simps split: list.splits if_splits)

text \<open>After its entries are rewritten the rule's list is found again.\<close>

lemma require_rule_list_put:
  assumes k: "keyed al_id (ws_lists w)" and l: "require_rule_list r w g prefix = Inr l"
  shows "require_rule_list r (put_list (l\<lparr>al_entries := es\<rparr>) w) g prefix = Inr (l\<lparr>al_entries := es\<rparr>)"
proof -
  note facts = require_rule_list_Inr [OF l]
  have "matching_lists (al_name l) (put_list (l\<lparr>al_entries := es\<rparr>) w) = [l\<lparr>al_entries := es\<rparr>]"
    by (rule matching_put_list [OF k require_rule_list_get [OF k l]]) (simp_all add: facts(2))
  with facts require_rule_list_owned [OF l] show ?thesis
    by (auto simp: require_rule_list_def)
qed

lemma combine_again:
  assumes "set (entry_values as) \<subseteq> set (entry_values es)"
  shows "combine_entries es as = es"
proof -
  have "filter (\<lambda>e. ae_normalized_value e \<notin> set (entry_values es)) as = []"
    using assms by (auto simp: filter_empty_conv)
  then show ?thesis by (simp only: combine_entries_def append_Nil2)
qed

lemma combine_values:
  "set (entry_values (combine_entries es as)) = set (entry_values es) \<union> set (entry_values as)"
  by (auto simp: combine_entries_def)

lemma add_target_idem:
  assumes k: "keyed al_id (ws_lists w)" and "target = Some i"
    and a: "add_entries es None target ou g prefix w = Inr w1"
  shows "add_entries es None target ou g prefix w1 = Inr w1 \<and> ws_ids w1 = ws_ids w"
proof -
  from a obtain r x l where r: "require_rule i w = Inr r" "require_owned_rule r g prefix = Inr x"
    and l: "require_rule_list r w g prefix = Inr l"
    and w1: "w1 = put_list (l\<lparr>al_entries := sorted_entries (combine_entries (al_entries l) es)\<rparr>) w"
    unfolding assms(2) add_entries_def resolve_add_target_def by (auto simp: res_simps)
  let ?es = "sorted_entries (combine_entries (al_entries l) es)"
  have "combine_entries ?es es = ?es"
    by (rule combine_again) (use combine_values [of "al_entries l" es] in auto)
  then show ?thesis
    unfolding assms(2) add_entries_def resolve_add_target_def w1
    using r require_rule_list_put [OF k l, of ?es] by (simp add: put_list_twice) (simp add: put_list_def)
qed

lemma remove_entries_idem:
  assumes k: "keyed al_id (ws_lists w)" and "remove_entries es target g prefix w = Inr w1"
  shows "remove_entries es target g prefix w1 = Inr w1 \<and> ws_ids w1 = ws_ids w"
proof -
  let ?keep = "filter (\<lambda>e. ae_normalized_value e \<notin> set (entry_values es))"
  from assms(2) obtain r x l where r: "require_rule target w = Inr r" "require_owned_rule r g prefix = Inr x"
    and l: "require_rule_list r w g prefix = Inr l"
    and w1: "w1 = put_list (l\<lparr>al_entries := sorted_entries (?keep (al_entries l))\<rparr>) w"
    by (auto simp: remove_entries_def res_simps Let_def)
  have "?keep (sorted_entries (?keep (al_entries l))) = sorted_entries (?keep (al_entries l))"
    by (rule filter_True) simp
  then show ?thesis
    unfolding remove_entries_def Let_def w1
    using r require_rule_list_put [OF k l, of "sorted_entries (?keep (al_entries l))"]
    by (simp add: put_list_twice) (simp add: put_list_def)
qed

lemma require_owned_rule_copy [simp]:
  "require_owned_rule (r\<lparr>br_notice := n\<rparr>) g prefix = require_owned_rule r g prefix"
  "require_owned_rule (r\<lparr>br_enabled := e\<rparr>) g prefix = require_owned_rule r g prefix"
  by (simp_all add: require_owned_rule_def split: option.splits)

lemma require_rule_list_copy [simp]:
  "require_rule_list (r\<lparr>br_notice := n\<rparr>) w g prefix = require_rule_list r w g prefix"
  "require_rule_list r (put_rule r' w) g prefix = require_rule_list r w g prefix"
  by (simp_all add: require_rule_list_def matching_lists_def put_rule_def cong: list.case_cong)

lemma require_rule_put:
  "require_rule i (put_rule r w) = (if br_id r = i then Inr r else require_rule i w)"
  by (auto simp: require_rule_def put_rule_def update_conv')

lemma require_rule_id: "keyed br_id (ws_rules w) \<Longrightarrow> require_rule i w = Inr r \<Longrightarrow> br_id r = i"
  unfolding require_rule_Inr by (rule keyed_get)

lemma set_notice_idem:
  assumes k: "keyed br_id (ws_rules w)" and "set_notice target notice g prefix w = Inr (n, w1)"
  shows "set_notice target notice g prefix w1 = Inr (0, w1) \<and> ws_ids w1 = ws_ids w"
proof -
  from assms(2) obtain r x l where r: "require_rule target w = Inr r" "require_owned_rule r g prefix = Inr x"
    and l: "require_rule_list r w g prefix = Inr l"
    and end_case: "(if br_notice r = Some notice then Inr (0, w)
       else Inr (length (al_entries l), put_rule (r\<lparr>br_notice := Some notice\<rparr>) w)) =
       (Inr (n, w1) :: (nat \<times> working) res)"
    unfolding set_notice_def by (elim and_thenE) (rule that)
  from end_case have w1: "(br_notice r = Some notice \<and> w1 = w) \<or>
      w1 = put_rule (r\<lparr>br_notice := Some notice\<rparr>) w"
    by (simp split: if_splits)
  note id = require_rule_id [OF k r(1)]
  from w1 show ?thesis
  proof
    assume "br_notice r = Some notice \<and> w1 = w"
    then show ?thesis using r l by (simp add: set_notice_def)
  next
    assume w1: "w1 = put_rule (r\<lparr>br_notice := Some notice\<rparr>) w"
    have "require_rule target w1 = Inr (r\<lparr>br_notice := Some notice\<rparr>)"
      using id unfolding w1 by (simp add: require_rule_put)
    moreover have "require_rule_list (r\<lparr>br_notice := Some notice\<rparr>) w1 g prefix = Inr l"
      using l unfolding w1 by simp
    moreover have "ws_ids w1 = ws_ids w" unfolding w1 by (simp add: put_rule_def)
    ultimately show ?thesis using r by (simp add: set_notice_def)
  qed
qed

lemma set_enabled_idem:
  assumes k: "keyed br_id (ws_rules w)" and "set_enabled target en g prefix w = Inr w1"
  shows "set_enabled target en g prefix w1 = Inr w1 \<and> ws_ids w1 = ws_ids w"
proof -
  from assms(2) obtain r x where r: "require_rule target w = Inr r" "require_owned_rule r g prefix = Inr x"
      "\<not> br_inherited r" and w1: "w1 = put_rule (r\<lparr>br_enabled := en\<rparr>) w"
    by (auto simp: set_enabled_def res_simps split: if_splits)
  have "require_rule target w1 = Inr (r\<lparr>br_enabled := en\<rparr>)"
    using require_rule_id [OF k r(1)] unfolding w1 by (simp add: require_rule_put)
  moreover have "put_rule (r\<lparr>br_enabled := en\<rparr>) w1 = w1"
    unfolding w1 by (simp add: put_rule_twice)
  moreover have "ws_ids w1 = ws_ids w" unfolding w1 by (simp add: put_rule_def)
  ultimately show ?thesis using r by (simp add: set_enabled_def)
qed

lemma edit_idem:
  assumes "keyed br_id (ws_rules w)" and "keyed al_id (ws_lists w)" and "is_edit a"
    and "apply_action g prefix a w = Inr (n, w1)"
  shows "\<exists>m. apply_action g prefix a w1 = Inr (m, w1)" "ws_ids w1 = ws_ids w"
  using assms
  by (cases a; auto simp: res_simps dest: add_target_idem remove_entries_idem set_notice_idem
      set_enabled_idem)+

lemma keyed_rebuild:
  assumes "keyed key d"
  shows "map_of (dict_of key (sort_key key (dict_values d))) = map_of d"
proof -
  have vals: "distinct (map key (dict_values d))" using keyed_distinct_values [OF assms] .
  have "map (\<lambda>v. (key v, v)) (dict_values d) = d"
    using assms by (auto simp: keyed_def intro!: map_idI)
  then have "dict_of key (dict_values d) = d" using dict_of_distinct [OF vals] by simp
  moreover have "map_of (dict_of key (dict_values d)) = map_of (dict_of key (sort_key key (dict_values d)))"
    by (rule map_of_perm) (simp_all add: vals del: map_map)
  ultimately show ?thesis by simp
qed

lemma calculate_edit_twice:
  assumes a: "tp_actions plan = [a]" "is_edit a"
    and d: "calculate_desired_state s plan g ids prefix = Inr d"
  shows "\<exists>d'. calculate_desired_state (dr_state d) plan g ids prefix = Inr d' \<and> dr_state d' = dr_state d"
proof -
  from d obtain n w1 where w1:
      "fold_res (plan_step (bs_ou s) g prefix) (tp_actions plan) (0, start_working s ids) = Inr (n, w1)"
    and names: "names_unique w1 (bs_unmanaged s)"
    and dr: "dr_state d = \<lparr>bs_ou = bs_ou s, bs_rules = sort_key br_id (dict_values (ws_rules w1)),
       bs_lists = sort_key al_id (dict_values (ws_lists w1)), bs_unmanaged = sort (bs_unmanaged s)\<rparr>"
      "wf_blocked_state (dr_state d)"
    by (rule calculate_Inr)
  let ?w = "start_working s ids"
  from w1 a(1) have step: "apply_action g prefix a ?w = Inr (n, w1)"
    and ok: "\<not> (case action_ou a of None \<Rightarrow> False | Some o' \<Rightarrow> o' \<noteq> bs_ou s)"
    by (auto simp: plan_step_def res_simps split: if_splits)
  have start: "keyed br_id (ws_rules ?w)" "keyed al_id (ws_lists ?w)" "ws_ids ?w = ids"
    by (simp_all add: start_working_def keyed_dict_of)
  obtain m where again: "apply_action g prefix a w1 = Inr (m, w1)"
    using edit_idem(1) [OF start(1,2) a(2) step] by blast
  note k = plan_keyed [OF w1]
  have same: "same_working w1 (start_working (dr_state d) ids)"
    using k keyed_rebuild [OF k(1)] keyed_rebuild [OF k(2)] edit_idem(2) [OF start(1,2) a(2) step] start(3)
    by (simp add: same_working_def start_working_def keyed_dict_of dr(1))
  obtain u where u: "apply_action g prefix a (start_working (dr_state d) ids) = Inr (m, u)"
      "same_working w1 u"
    using same_apply_action [OF same, of g prefix a] again by (auto simp: same_result_def)
  have ou: "bs_ou (dr_state d) = bs_ou s" and un: "bs_unmanaged (dr_state d) = sort (bs_unmanaged s)"
    by (simp_all add: dr(1))
  have fold: "fold_res (plan_step (bs_ou (dr_state d)) g prefix) (tp_actions plan)
      (0, start_working (dr_state d) ids) = Inr (m, u)"
    using u(1) a(1) ok by (simp add: plan_step_def ou)
  have names': "names_unique u (sort (bs_unmanaged s))"
    using same_names_unique [OF u(2) _ names] by simp
  have sorted: "sort_key br_id (dict_values (ws_rules u)) = sort_key br_id (dict_values (ws_rules w1))"
      "sort_key al_id (dict_values (ws_lists u)) = sort_key al_id (dict_values (ws_lists w1))"
    using u(2) same_sorted unfolding same_working_def by metis+
  have made: "make_blocked_state (bs_ou s) (sort_key br_id (dict_values (ws_rules w1)))
      (sort_key al_id (dict_values (ws_lists w1))) (sort (bs_unmanaged s)) = Inr (dr_state d)"
    using dr by (simp add: make_blocked_state_Inr_iff)
  show ?thesis
    unfolding calculate_desired_state_def un fold [unfolded ou] ou
    by (simp add: names' sort_by_hex sorted made sorted_sort_id)
qed

end
