(* ===== verification/Change_Sets.thy ===== *)
theory Change_Sets
  imports Desired_Order
begin

text \<open>
  \<^verbatim>\<open>domain/diff.py\<close> and \<^verbatim>\<open>schemas/changes.py\<close>: the exact difference between an
  observed and a desired state. The code's generic \<^verbatim>\<open>_partition\<close> is \<open>partition_by\<close>;
  the locale \<open>identity_diff\<close> states what a partition of two keyed collections must give,
  and proves once that applying it to the one collection gives the other and that it is empty
  exactly when they agree. It is interpreted for each of the three kinds of resource.
\<close>

section \<open>The partition\<close>

type_synonym 'a partition = "'a list \<times> 'a list \<times> 'a list"

text \<open>\<open>pick d ks\<close> is \<^verbatim>\<open>tuple(d[key] for key in ks)\<close>.\<close>

definition pick :: "(uuid, 'a) dict \<Rightarrow> uuid list \<Rightarrow> 'a list" where
  "pick d ks = List.map_filter (dict_get d) ks"

definition partition_by :: "('a \<Rightarrow> uuid) \<Rightarrow> 'a list \<Rightarrow> 'a list \<Rightarrow> 'a partition" where
  "partition_by identity current desired =
     (let current_by_id = dict_of identity current;
          desired_by_id = dict_of identity desired;
          created = pick desired_by_id
            (sort_key uuid_str (filter (\<lambda>k. k \<notin> set (dict_keys current_by_id)) (dict_keys desired_by_id)));
          removed = pick current_by_id
            (sort_key uuid_str (filter (\<lambda>k. k \<notin> set (dict_keys desired_by_id)) (dict_keys current_by_id)));
          updated = pick desired_by_id
            (filter (\<lambda>k. dict_get desired_by_id k \<noteq> dict_get current_by_id k)
              (sort_key uuid_str (filter (\<lambda>k. k \<in> set (dict_keys desired_by_id)) (dict_keys current_by_id))))
      in (created, updated, removed))"

section \<open>Change sets\<close>

record change_set =
  ch_before :: blocked_state
  ch_after :: blocked_state
  ch_rules_create :: "blocked_rule list"
  ch_rules_update :: "blocked_rule list"
  ch_rules_remove :: "blocked_rule list"
  ch_lists_create :: "address_list list"
  ch_lists_update :: "address_list list"
  ch_lists_remove :: "address_list list"

definition has_mutations :: "change_set \<Rightarrow> bool" where
  "has_mutations c \<longleftrightarrow> ch_rules_create c \<noteq> [] \<or> ch_rules_update c \<noteq> [] \<or> ch_rules_remove c \<noteq> [] \<or>
     ch_lists_create c \<noteq> [] \<or> ch_lists_update c \<noteq> [] \<or> ch_lists_remove c \<noteq> []"

definition calculate_change_set :: "blocked_state \<Rightarrow> blocked_state \<Rightarrow> change_set" where
  "calculate_change_set current desired =
     (let (rc, ru, rr) = partition_by br_id (bs_rules current) (bs_rules desired);
          (lc, lu, lr) = partition_by al_id (bs_lists current) (bs_lists desired)
      in \<lparr>ch_before = current, ch_after = desired, ch_rules_create = rc, ch_rules_update = ru,
          ch_rules_remove = rr, ch_lists_create = lc, ch_lists_update = lu, ch_lists_remove = lr\<rparr>)"

record compliance_change_set =
  cc_before :: compliance_state
  cc_after :: compliance_state
  cc_create :: "compliance_rule list"
  cc_update :: "compliance_rule list"
  cc_remove :: "compliance_rule list"

definition has_compliance_mutations :: "compliance_change_set \<Rightarrow> bool" where
  "has_compliance_mutations c \<longleftrightarrow> cc_create c \<noteq> [] \<or> cc_update c \<noteq> [] \<or> cc_remove c \<noteq> []"

definition calculate_compliance_change_set ::
    "compliance_state \<Rightarrow> compliance_state \<Rightarrow> compliance_change_set" where
  "calculate_compliance_change_set current desired =
     (let (c, u, r) = partition_by cr_id (cs_rules current) (cs_rules desired)
      in \<lparr>cc_before = current, cc_after = desired, cc_create = c, cc_update = u, cc_remove = r\<rparr>)"

definition dump_change_set :: "change_set \<Rightarrow> json" where
  "dump_change_set c = JObj [(''schema_version'', JStr ''1.0''),
     (''before_state'', dump_blocked_state (ch_before c)),
     (''expected_after'', dump_blocked_state (ch_after c)),
     (''rules_to_create'', JArr (map dump_blocked_rule (ch_rules_create c))),
     (''rules_to_update'', JArr (map dump_blocked_rule (ch_rules_update c))),
     (''rules_to_remove'', JArr (map dump_blocked_rule (ch_rules_remove c))),
     (''address_lists_to_create'', JArr (map dump_address_list (ch_lists_create c))),
     (''address_lists_to_update'', JArr (map dump_address_list (ch_lists_update c))),
     (''address_lists_to_remove'', JArr (map dump_address_list (ch_lists_remove c)))]"

definition dump_compliance_change_set :: "compliance_change_set \<Rightarrow> json" where
  "dump_compliance_change_set c = JObj [(''schema_version'', JStr ''2.0''),
     (''before_state'', dump_compliance_state (cc_before c)),
     (''expected_after'', dump_compliance_state (cc_after c)),
     (''rules_to_create'', JArr (map dump_compliance_rule (cc_create c))),
     (''rules_to_update'', JArr (map dump_compliance_rule (cc_update c))),
     (''rules_to_remove'', JArr (map dump_compliance_rule (cc_remove c)))]"

lemma wf_dump_change_set [simp]: "wf_json (dump_change_set c)" "wf_json (dump_compliance_change_set d)"
  by (simp_all add: dump_change_set_def dump_compliance_change_set_def list_all_iff)

section \<open>The contract of a difference\<close>

text \<open>
  What a client of the difference needs of it: on collections with distinct identifiers, the
  created resources are those of the desired collection whose identifier is new, the removed
  those of the current one whose identifier is gone, the updated the desired versions of those
  that differ.
\<close>

locale identity_diff =
  fixes identity :: "'a \<Rightarrow> uuid"
    and diff :: "'a list \<Rightarrow> 'a list \<Rightarrow> 'a partition"
  assumes created: "distinct (map identity current) \<Longrightarrow> distinct (map identity desired) \<Longrightarrow>
      set (fst (diff current desired)) = {x \<in> set desired. identity x \<notin> identity ` set current}"
    and updated: "distinct (map identity current) \<Longrightarrow> distinct (map identity desired) \<Longrightarrow>
      set (fst (snd (diff current desired))) =
        {x \<in> set desired. identity x \<in> identity ` set current \<and> x \<notin> set current}"
    and removed: "distinct (map identity current) \<Longrightarrow> distinct (map identity desired) \<Longrightarrow>
      set (snd (snd (diff current desired))) = {x \<in> set current. identity x \<notin> identity ` set desired}"
begin

text \<open>What an exact writer makes of a collection: removed out, updated replaced, created in.\<close>

definition applied :: "'a list \<Rightarrow> 'a partition \<Rightarrow> 'a set" where
  "applied current p =
     {x \<in> set current. identity x \<notin> identity ` (set (snd (snd p)) \<union> set (fst (snd p)))} \<union>
     set (fst (snd p)) \<union> set (fst p)"

lemma same_identity:
  "distinct (map identity xs) \<Longrightarrow> x \<in> set xs \<Longrightarrow> y \<in> set xs \<Longrightarrow> identity x = identity y \<Longrightarrow> x = y"
  by (auto simp: distinct_map dest: inj_onD)

lemma applied_is_desired:
  assumes c: "distinct (map identity current)" and d: "distinct (map identity desired)"
  shows "applied current (diff current desired) = set desired"
proof -
  have keep: "x \<in> set desired"
    if x: "x \<in> set current" "identity x \<in> identity ` set desired"
      and no: "identity x \<notin> identity ` {y \<in> set desired. identity y \<in> identity ` set current \<and> y \<notin> set current}"
    for x
  proof -
    from x(2) obtain y where y: "y \<in> set desired" "identity y = identity x" by auto
    have "y \<in> set current"
    proof (rule ccontr)
      assume "y \<notin> set current"
      then have "identity y \<in> identity ` {y \<in> set desired. identity y \<in> identity ` set current \<and> y \<notin> set current}"
        using y x(1) by (intro imageI) simp
      with no y(2) show False by simp
    qed
    then show ?thesis using same_identity [OF c _ x(1) y(2)] y by simp
  qed
  show ?thesis
    unfolding applied_def created [OF c d] updated [OF c d] removed [OF c d]
  proof (intro set_eqI iffI)
    fix x assume x: "x \<in> set desired"
    show "x \<in> {x \<in> set current. identity x \<notin> identity ` ({x \<in> set current. identity x \<notin> identity ` set desired} \<union>
        {x \<in> set desired. identity x \<in> identity ` set current \<and> x \<notin> set current})} \<union>
      {x \<in> set desired. identity x \<in> identity ` set current \<and> x \<notin> set current} \<union>
      {x \<in> set desired. identity x \<notin> identity ` set current}"
    proof (cases "x \<in> set current")
      case True
      then have "identity x \<notin> identity ` {x \<in> set desired. identity x \<in> identity ` set current \<and> x \<notin> set current}"
        using same_identity [OF d x] by auto
      moreover have "identity x \<notin> identity ` {x \<in> set current. identity x \<notin> identity ` set desired}"
        using imageI [OF x, of identity] by auto
      ultimately show ?thesis using True by (simp add: image_Un)
    qed (use x in auto)
  next
    fix x
    assume "x \<in> {x \<in> set current. identity x \<notin> identity ` ({x \<in> set current. identity x \<notin> identity ` set desired} \<union>
        {x \<in> set desired. identity x \<in> identity ` set current \<and> x \<notin> set current})} \<union>
      {x \<in> set desired. identity x \<in> identity ` set current \<and> x \<notin> set current} \<union>
      {x \<in> set desired. identity x \<notin> identity ` set current}"
    then consider "x \<in> set desired"
      | "x \<in> set current" "identity x \<notin> identity ` {x \<in> set current. identity x \<notin> identity ` set desired}"
        "identity x \<notin> identity ` {x \<in> set desired. identity x \<in> identity ` set current \<and> x \<notin> set current}"
      by (auto simp only: image_Un Un_iff mem_Collect_eq)
    then show "x \<in> set desired"
    proof cases
      case 2
      then have "identity x \<in> identity ` set desired" by blast
      with keep 2 show ?thesis by blast
    qed
  qed
qed

lemma empty_iff_same:
  assumes c: "distinct (map identity current)" and d: "distinct (map identity desired)"
  shows "diff current desired = ([], [], []) \<longleftrightarrow> set current = set desired"
proof -
  have "diff current desired = ([], [], []) \<longleftrightarrow>
      set (fst (diff current desired)) = {} \<and> set (fst (snd (diff current desired))) = {} \<and>
      set (snd (snd (diff current desired))) = {}"
    by (cases "diff current desired") auto
  also have "\<dots> \<longleftrightarrow> set current = set desired"
    unfolding created [OF c d] updated [OF c d] removed [OF c d]
  proof
    assume none: "{x \<in> set desired. identity x \<notin> identity ` set current} = {} \<and>
      {x \<in> set desired. identity x \<in> identity ` set current \<and> x \<notin> set current} = {} \<and>
      {x \<in> set current. identity x \<notin> identity ` set desired} = {}"
    then have sub: "set desired \<subseteq> set current" by blast
    have "x \<in> set desired" if x: "x \<in> set current" for x
    proof -
      from none x obtain y where "y \<in> set desired" "identity x = identity y" by blast
      with sub same_identity [OF c x] show ?thesis by auto
    qed
    with sub show "set current = set desired" by blast
  qed auto
  finally show ?thesis .
qed

lemma disjoint_identities:
  assumes c: "distinct (map identity current)" and d: "distinct (map identity desired)"
  shows "identity ` set (fst (diff current desired)) \<inter> identity ` set (snd (snd (diff current desired))) = {}"
    "identity ` set (fst (snd (diff current desired))) \<inter> identity ` set (snd (snd (diff current desired))) = {}"
    "identity ` set (fst (diff current desired)) \<inter> identity ` set (fst (snd (diff current desired))) = {}"
  unfolding created [OF c d] updated [OF c d] removed [OF c d] by (fastforce simp: image_iff)+

end

section \<open>The code meets the contract\<close>

lemma set_pick: "x \<in> set (pick d ks) \<longleftrightarrow> (\<exists>k \<in> set ks. dict_get d k = Some x)"
  by (auto simp: pick_def List.map_filter_def image_iff)

lemma dict_of_get_iff:
  assumes "distinct (map key items)"
  shows "dict_get (dict_of key items) k = Some v \<longleftrightarrow> v \<in> set items \<and> key v = k"
proof -
  have "distinct (map fst (dict_of key items))"
    using keyed_dict_of by (rule keyed_distinct)
  then show ?thesis by (auto simp: map_of_eq_Some_iff dict_of_distinct [OF assms])
qed

lemma dict_of_keys:
  "distinct (map key items) \<Longrightarrow> set (dict_keys (dict_of key items)) = key ` set items"
  by (auto simp: dict_of_distinct)

lemma mem_pick_keys:
  assumes "distinct (map key items)"
  shows "x \<in> set (pick (dict_of key items) ks) \<longleftrightarrow> x \<in> set items \<and> key x \<in> set ks"
  unfolding set_pick dict_of_get_iff [OF assms] by blast

lemma partition_created:
  assumes "distinct (map identity current)" and "distinct (map identity desired)"
  shows "set (fst (partition_by identity current desired)) =
    {x \<in> set desired. identity x \<notin> identity ` set current}"
  unfolding partition_by_def Let_def fst_conv set_eq_iff mem_pick_keys [OF assms(2)] set_sort set_filter
    dict_of_keys [OF assms(1)] dict_of_keys [OF assms(2)] by blast

lemma partition_removed:
  assumes "distinct (map identity current)" and "distinct (map identity desired)"
  shows "set (snd (snd (partition_by identity current desired))) =
    {x \<in> set current. identity x \<notin> identity ` set desired}"
  unfolding partition_by_def Let_def snd_conv set_eq_iff mem_pick_keys [OF assms(1)] set_sort set_filter
    dict_of_keys [OF assms(1)] dict_of_keys [OF assms(2)] by blast

lemma partition_updated:
  assumes c: "distinct (map identity current)" and d: "distinct (map identity desired)"
  shows "set (fst (snd (partition_by identity current desired))) =
    {x \<in> set desired. identity x \<in> identity ` set current \<and> x \<notin> set current}"
proof -
  have differ: "dict_get (dict_of identity desired) (identity x) \<noteq> dict_get (dict_of identity current) (identity x)
      \<longleftrightarrow> x \<notin> set current" if "x \<in> set desired" for x
  proof -
    have "dict_get (dict_of identity desired) (identity x) = Some x"
      using that dict_of_get_iff [OF d] by blast
    then have "dict_get (dict_of identity desired) (identity x) \<noteq> dict_get (dict_of identity current) (identity x)
        \<longleftrightarrow> dict_get (dict_of identity current) (identity x) \<noteq> Some x" by (simp add: eq_commute)
    then show ?thesis using dict_of_get_iff [OF c, of "identity x" x] by blast
  qed
  show ?thesis
    unfolding partition_by_def Let_def fst_conv snd_conv set_eq_iff mem_pick_keys [OF d] set_sort
      set_filter dict_of_keys [OF c] dict_of_keys [OF d]
    using differ by blast
qed

lemma partition_by_contract: "identity_diff identity (partition_by identity)"
  by unfold_locales (rule partition_created partition_updated partition_removed; assumption)+

interpretation rule_diff: identity_diff br_id "partition_by br_id"
  by (rule partition_by_contract)

interpretation list_diff: identity_diff al_id "partition_by al_id"
  by (rule partition_by_contract)

interpretation compliance_diff: identity_diff cr_id "partition_by cr_id"
  by (rule partition_by_contract)

lemma distinct_pick: "keyed key d \<Longrightarrow> distinct ks \<Longrightarrow> distinct (map key (pick d ks))"
proof (induction ks)
  case (Cons k ks)
  have "k \<notin> key ` set (pick d ks)" using Cons.prems by (auto simp: set_pick dest: keyed_get)
  with Cons show ?case by (auto simp: pick_def List.map_filter_simps dest: keyed_get split: option.splits)
qed (simp add: pick_def List.map_filter_simps)

lemma rule_diff_created_distinct:
  assumes "distinct (map identity current)" and "distinct (map identity desired)"
  shows "distinct (map identity (fst (partition_by identity current desired)))"
  unfolding partition_by_def Let_def fst_conv
  by (rule distinct_pick [OF keyed_dict_of]) (simp add: keyed_distinct [OF keyed_dict_of])

text \<open>What an exact writer makes of the observed state.\<close>

definition rules_after :: "blocked_state \<Rightarrow> change_set \<Rightarrow> blocked_rule set" where
  "rules_after s c = {r \<in> set (bs_rules s).
       br_id r \<notin> br_id ` (set (ch_rules_remove c) \<union> set (ch_rules_update c))} \<union>
     set (ch_rules_update c) \<union> set (ch_rules_create c)"

definition lists_after :: "blocked_state \<Rightarrow> change_set \<Rightarrow> address_list set" where
  "lists_after s c = {l \<in> set (bs_lists s).
       al_id l \<notin> al_id ` (set (ch_lists_remove c) \<union> set (ch_lists_update c))} \<union>
     set (ch_lists_update c) \<union> set (ch_lists_create c)"

lemma calculate_change_set_fields:
  "ch_before (calculate_change_set s t) = s" "ch_after (calculate_change_set s t) = t"
  "ch_rules_create (calculate_change_set s t) = fst (partition_by br_id (bs_rules s) (bs_rules t))"
  "ch_rules_update (calculate_change_set s t) = fst (snd (partition_by br_id (bs_rules s) (bs_rules t)))"
  "ch_rules_remove (calculate_change_set s t) = snd (snd (partition_by br_id (bs_rules s) (bs_rules t)))"
  "ch_lists_create (calculate_change_set s t) = fst (partition_by al_id (bs_lists s) (bs_lists t))"
  "ch_lists_update (calculate_change_set s t) = fst (snd (partition_by al_id (bs_lists s) (bs_lists t)))"
  "ch_lists_remove (calculate_change_set s t) = snd (snd (partition_by al_id (bs_lists s) (bs_lists t)))"
  by (simp_all add: calculate_change_set_def case_prod_unfold Let_def)

lemma change_set_applied:
  assumes "wf_blocked_state s" and "wf_blocked_state t"
  shows "rules_after s (calculate_change_set s t) = set (bs_rules t)"
    "lists_after s (calculate_change_set s t) = set (bs_lists t)"
  unfolding rules_after_def lists_after_def calculate_change_set_fields
  using assms
  by (auto simp only: wf_blocked_state_def intro!: rule_diff.applied_is_desired [unfolded rule_diff.applied_def]
      list_diff.applied_is_desired [unfolded list_diff.applied_def])

lemma no_mutations_iff:
  assumes "wf_blocked_state s" and "wf_blocked_state t"
  shows "has_mutations (calculate_change_set s t) \<longleftrightarrow>
    set (bs_rules s) \<noteq> set (bs_rules t) \<or> set (bs_lists s) \<noteq> set (bs_lists t)"
proof -
  have d: "distinct (map br_id (bs_rules s))" "distinct (map br_id (bs_rules t))"
    "distinct (map al_id (bs_lists s))" "distinct (map al_id (bs_lists t))"
    using assms by (simp_all add: wf_blocked_state_def)
  have "\<not> has_mutations (calculate_change_set s t) \<longleftrightarrow>
      partition_by br_id (bs_rules s) (bs_rules t) = ([], [], []) \<and>
      partition_by al_id (bs_lists s) (bs_lists t) = ([], [], [])"
    by (auto simp: has_mutations_def calculate_change_set_fields prod_eq_iff)
  then show ?thesis
    using rule_diff.empty_iff_same [OF d(1,2)] list_diff.empty_iff_same [OF d(3,4)] by blast
qed

text \<open>The collections are listed in the order of their identifiers.\<close>

lemma partition_sorted:
  "partition_by identity current desired =
     (let c = dict_of identity current; d = dict_of identity desired
      in (pick d (sort (filter (\<lambda>k. k \<notin> set (dict_keys c)) (dict_keys d))),
          pick d (filter (\<lambda>k. dict_get d k \<noteq> dict_get c k)
            (sort (filter (\<lambda>k. k \<in> set (dict_keys d)) (dict_keys c)))),
          pick c (sort (filter (\<lambda>k. k \<notin> set (dict_keys d)) (dict_keys c)))))"
  by (simp add: partition_by_def Let_def sort_uuid_str)

end
