(* ===== verification/Verification.thy ===== *)
theory Verification
  imports Change_Sets
begin

text \<open>
  \<^verbatim>\<open>domain/verification.py\<close>, \<^verbatim>\<open>domain/reconciliation.py\<close>,
  \<^verbatim>\<open>domain/reporting.py\<close> and the result models of \<^verbatim>\<open>schemas/results.py\<close> and
  \<^verbatim>\<open>schemas/status.py\<close>: the independent comparison of desired and observed state, the
  decision after an uncertain mutation and the terminal status of a run. The constructors
  validate, so each function returns a result or a \<^verbatim>\<open>ValidationError\<close>; that the functions
  below only build results the validators accept is proved.
\<close>

section \<open>repr\<close>

text \<open>\<^verbatim>\<open>str.isprintable\<close> below 256, and \<^verbatim>\<open>repr\<close> of a string and of a list of strings.\<close>

definition py_printable :: "char \<Rightarrow> bool" where
  "py_printable c \<longleftrightarrow> (let n = (of_char c :: nat) in 32 \<le> n \<and> n \<le> 126 \<or> 161 \<le> n \<and> n \<noteq> 173)"

definition repr_char :: "char \<Rightarrow> char \<Rightarrow> string" where
  "repr_char quote c =
     (if c = quote \<or> c = CHR 0x5C then [CHR 0x5C, c]
      else if c = CHR 0x09 then [CHR 0x5C, CHR ''t'']
      else if c = CHR 0x0A then [CHR 0x5C, CHR ''n'']
      else if c = CHR 0x0D then [CHR 0x5C, CHR ''r'']
      else if py_printable c then [c]
      else CHR 0x5C # CHR ''x'' # hex_digits 2 (of_char c))"

definition py_repr :: "string \<Rightarrow> string" where
  "py_repr s =
     (let quote = if CHR 0x27 \<in> set s \<and> CHR 0x22 \<notin> set s then CHR 0x22 else CHR 0x27
      in [quote] @ concat (map (repr_char quote) s) @ [quote])"

definition py_repr_list :: "string list \<Rightarrow> string" where
  "py_repr_list xs = ''['' @ py_join '', '' (map py_repr xs) @ '']''"

section \<open>Results\<close>

datatype difference_kind = Missing | Unexpected | Changed | Duplicate | Unreadable

record state_difference =
  sd_path :: string
  sd_kind :: difference_kind
  sd_expected :: "string option"
  sd_observed :: "string option"

datatype mutation_status = Completed | Unchanged | Uncertain | Partial

record mutation_result =
  mr_status :: mutation_status
  mr_operation :: string
  mr_ids :: "string list"
  mr_error :: "string option"

definition make_mutation_result :: "mutation_result \<Rightarrow> mutation_result res" where
  "make_mutation_result m =
     (if length (mr_operation m) < 1 \<or> length (mr_operation m) > 200 then Inl ValidationError
      else if mr_status m \<in> {Uncertain, Partial} \<and> \<not> given (mr_error m) then Inl ValidationError
      else if mr_status m \<in> {Completed, Unchanged} \<and> given (mr_error m) then Inl ValidationError
      else Inr m)"

datatype verification_status = Matched | Mismatched | Target_Missing | Duplicate_Target
  | Verification_Indeterminate

record verification_result =
  vr_status :: verification_status
  vr_desired :: blocked_state
  vr_observed :: "blocked_state option"
  vr_differences :: "state_difference list"

definition make_verification_result :: "verification_result \<Rightarrow> verification_result res" where
  "make_verification_result v =
     (if vr_status v = Matched then
        (if vr_observed v = None \<or> vr_differences v \<noteq> [] then Inl ValidationError else Inr v)
      else if vr_differences v = [] then Inl ValidationError
      else if vr_status v = Verification_Indeterminate then
        (if vr_observed v \<noteq> None then Inl ValidationError else Inr v)
      else if vr_observed v = None then Inl ValidationError
      else Inr v)"

datatype reconciliation_outcome = Desired_State_Present | Mutation_Not_Applied | Partially_Applied_Outcome
  | Outcome_Indeterminate

record reconciliation_decision =
  rd_outcome :: reconciliation_outcome
  rd_retry :: bool
  rd_observed :: "blocked_state option"
  rd_code :: string

definition make_decision :: "reconciliation_decision \<Rightarrow> reconciliation_decision res" where
  "make_decision d =
     (if rd_retry d \<and> rd_outcome d \<noteq> Mutation_Not_Applied then Inl ValidationError
      else if rd_observed d = None \<and> rd_outcome d \<noteq> Outcome_Indeterminate then Inl ValidationError
      else Inr d)"

datatype compliance_verification_status = C_Matched | C_Mismatched | C_Indeterminate

record compliance_verification =
  cv_status :: compliance_verification_status
  cv_desired :: compliance_state
  cv_observed :: "compliance_state option"
  cv_differences :: "state_difference list"

definition make_compliance_verification :: "compliance_verification \<Rightarrow> compliance_verification res" where
  "make_compliance_verification v =
     (if cv_status v = C_Matched then
        (if cv_observed v = None \<or> cv_differences v \<noteq> [] then Inl ValidationError else Inr v)
      else if cv_differences v = [] then Inl ValidationError
      else if cv_status v = C_Indeterminate \<and> cv_observed v \<noteq> None then Inl ValidationError
      else Inr v)"

datatype run_status = No_Change_Required | Dry_Run_Preview_Ready | Confirmation_Rejected
  | Applied_UI_Verified | Applied_Pending_Propagation | Partially_Applied | Failed_Unchanged
  | Indeterminate | Unsupported

fun run_status_value :: "run_status \<Rightarrow> string" where
  "run_status_value No_Change_Required = ''no_change_required''"
| "run_status_value Dry_Run_Preview_Ready = ''dry_run_preview_ready''"
| "run_status_value Confirmation_Rejected = ''confirmation_rejected''"
| "run_status_value Applied_UI_Verified = ''applied_ui_verified''"
| "run_status_value Applied_Pending_Propagation = ''applied_pending_propagation''"
| "run_status_value Partially_Applied = ''partially_applied''"
| "run_status_value Failed_Unchanged = ''failed_unchanged''"
| "run_status_value Indeterminate = ''indeterminate''"
| "run_status_value Unsupported = ''unsupported''"

record run_result =
  rr_status :: run_status
  rr_requested :: "string list"
  rr_verified :: "string list"
  rr_warnings :: "string list"
  rr_error :: "string option"
  rr_pending :: bool

definition make_run_result :: "run_result \<Rightarrow> run_result res" where
  "make_run_result r =
     (if rr_pending r \<noteq> (rr_status r = Applied_Pending_Propagation) then Inl ValidationError else Inr r)"

section \<open>Verification\<close>

definition duplicate_rule_names :: "blocked_state \<Rightarrow> string list" where
  "duplicate_rule_names s =
     (let names = map br_name (bs_rules s)
      in sort (remdups (filter (\<lambda>n. count_list names n > 1) names)))"

definition resource_differences ::
    "string \<Rightarrow> ('a \<Rightarrow> uuid) \<Rightarrow> ('a \<Rightarrow> json) \<Rightarrow> 'a list \<Rightarrow> 'a list \<Rightarrow> state_difference list" where
  "resource_differences path identity dump desired observed =
     (let desired_by_id = dict_of identity desired;
          observed_by_id = dict_of identity observed;
          at = (\<lambda>i. path @ ''.'' @ uuid_str i)
      in map (\<lambda>i. \<lparr>sd_path = at i, sd_kind = Missing, sd_expected = Some ''present'', sd_observed = None\<rparr>)
           (sort_key uuid_str (filter (\<lambda>k. k \<notin> set (dict_keys observed_by_id)) (dict_keys desired_by_id))) @
         map (\<lambda>i. \<lparr>sd_path = at i, sd_kind = Unexpected, sd_expected = None, sd_observed = Some ''present''\<rparr>)
           (sort_key uuid_str (filter (\<lambda>k. k \<notin> set (dict_keys desired_by_id)) (dict_keys observed_by_id))) @
         map (\<lambda>i. \<lparr>sd_path = at i, sd_kind = Changed,
             sd_expected = map_option (\<lambda>x. model_json (dump x)) (dict_get desired_by_id i),
             sd_observed = map_option (\<lambda>x. model_json (dump x)) (dict_get observed_by_id i)\<rparr>)
           (filter (\<lambda>k. dict_get desired_by_id k \<noteq> dict_get observed_by_id k)
             (sort_key uuid_str (filter (\<lambda>k. k \<in> set (dict_keys observed_by_id)) (dict_keys desired_by_id)))))"

definition state_differences :: "blocked_state \<Rightarrow> blocked_state \<Rightarrow> state_difference list" where
  "state_differences desired observed =
     resource_differences ''rules'' br_id dump_blocked_rule (bs_rules desired) (bs_rules observed) @
     resource_differences ''address_lists'' al_id dump_address_list (bs_lists desired) (bs_lists observed) @
     (if sort (bs_unmanaged desired) \<noteq> sort (bs_unmanaged observed)
      then [\<lparr>sd_path = ''unmanaged_rule_names'', sd_kind = Changed,
              sd_expected = Some (py_repr_list (sort (bs_unmanaged desired))),
              sd_observed = Some (py_repr_list (sort (bs_unmanaged observed)))\<rparr>]
      else [])"

definition verify_state :: "blocked_state \<Rightarrow> blocked_state option \<Rightarrow> verification_result res" where
  "verify_state desired observed_state =
     (case observed_state of
        None \<Rightarrow> make_verification_result \<lparr>vr_status = Verification_Indeterminate, vr_desired = desired,
            vr_observed = None,
            vr_differences = [\<lparr>sd_path = ''state'', sd_kind = Unreadable,
              sd_expected = Some ''readable blocked-sender state'', sd_observed = None\<rparr>]\<rparr>
      | Some observed \<Rightarrow>
          if duplicate_rule_names observed \<noteq> [] then
            make_verification_result \<lparr>vr_status = Duplicate_Target, vr_desired = desired,
              vr_observed = Some observed,
              vr_differences = map (\<lambda>n. \<lparr>sd_path = ''rules'', sd_kind = Duplicate, sd_expected = None,
                sd_observed = Some n\<rparr>) (duplicate_rule_names observed)\<rparr>
          else
            let differences = state_differences desired observed
            in if differences = [] then
                 make_verification_result \<lparr>vr_status = Matched, vr_desired = desired,
                   vr_observed = Some observed, vr_differences = []\<rparr>
               else
                 make_verification_result
                   \<lparr>vr_status = (if list_ex (\<lambda>i. i \<notin> set (map br_id (bs_rules observed)))
                        (map br_id (bs_rules desired)) then Target_Missing else Mismatched),
                    vr_desired = desired, vr_observed = Some observed, vr_differences = differences\<rparr>)"

text \<open>The comparison is total: its results are ones the validator accepts.\<close>

lemma verify_state_total: "\<exists>v. verify_state desired observed = Inr v"
  by (cases observed)
    (auto simp: verify_state_def make_verification_result_def Let_def)

text \<open>No difference is reported exactly when the collections hold the same resources.\<close>

lemma pick_empty_iff:
  assumes "set ks \<subseteq> set (dict_keys d)"
  shows "pick d ks = [] \<longleftrightarrow> ks = []"
proof (cases ks)
  case (Cons k ks')
  then have "dict_get d k \<noteq> None" using assms by (auto simp: map_of_eq_None_iff)
  then show ?thesis using Cons by (auto simp: pick_def List.map_filter_def)
qed (simp add: pick_def List.map_filter_def)

lemma filter_keys_swap:
  assumes "distinct xs" and "distinct ys"
  shows "sort_key uuid_str (filter (\<lambda>k. k \<in> set ys) xs) = sort_key uuid_str (filter (\<lambda>k. k \<in> set xs) ys)"
proof -
  have "set (filter (\<lambda>k. k \<in> set ys) xs) = set (filter (\<lambda>k. k \<in> set xs) ys)" by auto
  then have "mset (filter (\<lambda>k. k \<in> set ys) xs) = mset (filter (\<lambda>k. k \<in> set xs) ys)"
    by (rule iffD1 [OF set_eq_iff_mset_eq_distinct, rotated 2]) (simp_all add: assms)
  then show ?thesis by (rule sort_key_perm) (simp add: inj_on_def)
qed

lemma resource_differences_empty:
  assumes "distinct (map identity desired)" and "distinct (map identity observed)"
  shows "resource_differences path identity dump desired observed = [] \<longleftrightarrow> set desired = set observed"
proof -
  let ?d = "dict_of identity desired" and ?o = "dict_of identity observed"
  have k: "distinct (dict_keys ?d)" "distinct (dict_keys ?o)"
    using keyed_dict_of by (blast intro: keyed_distinct)+
  have "resource_differences path identity dump desired observed = [] \<longleftrightarrow>
      partition_by identity observed desired = ([], [], [])"
    unfolding resource_differences_def partition_by_def Let_def append_is_Nil_conv map_is_Nil_conv prod.inject
      filter_keys_swap [OF k]
    by (subst (1 2 3) pick_empty_iff) (auto simp del: map_eq_conv)
  then show ?thesis
    using identity_diff.empty_iff_same [OF partition_by_contract assms(2,1)] by auto
qed

lemma duplicate_rule_names_empty:
  "duplicate_rule_names s = [] \<longleftrightarrow> distinct (map br_name (bs_rules s))"
proof -
  have "filter (\<lambda>n. count_list ns n > 1) ns = [] \<longleftrightarrow> distinct ns" for ns :: "string list"
  proof -
    have "count_list ns n \<noteq> 0" if "n \<in> set ns" for n using that by (simp add: count_list_0_iff)
    then show ?thesis
      by (auto simp: filter_empty_conv distinct_count_atmost_1 count_mset not_less le_Suc_eq
          count_list_0_iff)
  qed
  moreover have "sort xs = [] \<longleftrightarrow> xs = []" for xs :: "string list"
    by (metis length_0_conv length_sort)
  ultimately show ?thesis
    unfolding duplicate_rule_names_def Let_def by (simp only: remdups_eq_nil_iff)
qed

text \<open>What the comparison calls the same.\<close>

definition same_configuration :: "blocked_state \<Rightarrow> blocked_state \<Rightarrow> bool" where
  "same_configuration s t \<longleftrightarrow> set (bs_rules s) = set (bs_rules t) \<and> set (bs_lists s) = set (bs_lists t) \<and>
     mset (bs_unmanaged s) = mset (bs_unmanaged t)"

lemma sort_eq_iff_mset: "sort xs = sort ys \<longleftrightarrow> mset xs = mset ys" for xs :: "'a :: linorder list"
  by (metis mset_sort properties_for_sort sorted_sort)

lemma state_differences_empty:
  assumes "wf_blocked_state s" and "wf_blocked_state t"
  shows "state_differences s t = [] \<longleftrightarrow> same_configuration s t"
  using assms by (auto simp: state_differences_def resource_differences_empty same_configuration_def
      wf_blocked_state_def sort_eq_iff_mset)

lemma verify_state_matched:
  assumes "wf_blocked_state desired" and "\<forall>t \<in> set_option observed. wf_blocked_state t"
  shows "(\<exists>v. verify_state desired observed = Inr v \<and> vr_status v = Matched) \<longleftrightarrow>
    (\<exists>t. observed = Some t \<and> distinct (map br_name (bs_rules t)) \<and> same_configuration desired t)"
proof (cases observed)
  case None
  then show ?thesis by (auto simp: verify_state_def make_verification_result_def)
next
  case (Some t)
  have "wf_blocked_state t" using assms(2) Some by simp
  note empty = state_differences_empty [OF assms(1) this]
  show ?thesis
    using Some by (auto simp: verify_state_def make_verification_result_def Let_def
        duplicate_rule_names_empty empty)
qed

lemma verify_state_fields:
  "verify_state desired observed = Inr v \<Longrightarrow> vr_desired v = desired \<and> vr_observed v = observed"
  by (cases observed) (auto simp: verify_state_def make_verification_result_def Let_def split: if_splits)

section \<open>Reconciliation\<close>

record reconciliation_context =
  rx_retry_count :: int
  rx_idempotent :: bool
  rx_ownership :: bool
  rx_root_ou :: bool
  rx_confirmation :: bool

definition retry_preconditions_hold :: "reconciliation_context \<Rightarrow> bool" where
  "retry_preconditions_hold x \<longleftrightarrow> rx_retry_count x = 0 \<and> rx_idempotent x \<and> rx_ownership x \<and>
     rx_root_ou x \<and> rx_confirmation x"

definition resource_json :: "blocked_state \<Rightarrow> (string, string) dict" where
  "resource_json s =
     fold (\<lambda>l. dict_put (''list:'' @ uuid_str (al_id l)) (model_json (dump_address_list l))) (bs_lists s)
       (fold (\<lambda>r. dict_put (''rule:'' @ uuid_str (br_id r)) (model_json (dump_blocked_rule r))) (bs_rules s) [])"

definition has_any_desired_change :: "blocked_state \<Rightarrow> blocked_state \<Rightarrow> blocked_state \<Rightarrow> bool" where
  "has_any_desired_change before desired observed =
     (let b = resource_json before; d = resource_json desired; ob = resource_json observed;
          changed_keys = filter (\<lambda>k. dict_get b k \<noteq> dict_get d k) (dict_keys b @ dict_keys d)
      in list_ex (\<lambda>k. dict_get ob k = dict_get d k) changed_keys)"

definition reconcile_mutation ::
    "(string \<Rightarrow> string) \<Rightarrow> blocked_state \<Rightarrow> blocked_state \<Rightarrow> blocked_state option \<Rightarrow>
      reconciliation_context \<Rightarrow> reconciliation_decision res" where
  "reconcile_mutation H before desired observed_state context =
     (case observed_state of
        None \<Rightarrow> make_decision \<lparr>rd_outcome = Outcome_Indeterminate, rd_retry = False, rd_observed = None,
            rd_code = ''read_back_unavailable''\<rparr>
      | Some observed \<Rightarrow>
          and_then (verify_state desired (Some observed)) (\<lambda>v.
          if vr_status v = Matched then
            make_decision \<lparr>rd_outcome = Desired_State_Present, rd_retry = False,
              rd_observed = Some observed, rd_code = ''mutation_present_after_read_back''\<rparr>
          else if canonical_hash H (dump_blocked_state before) = canonical_hash H (dump_blocked_state observed) then
            make_decision \<lparr>rd_outcome = Mutation_Not_Applied, rd_retry = retry_preconditions_hold context,
              rd_observed = Some observed, rd_code = ''before_state_unchanged''\<rparr>
          else if has_any_desired_change before desired observed then
            make_decision \<lparr>rd_outcome = Partially_Applied_Outcome, rd_retry = False,
              rd_observed = Some observed, rd_code = ''some_but_not_all_desired_resources_present''\<rparr>
          else
            make_decision \<lparr>rd_outcome = Outcome_Indeterminate, rd_retry = False,
              rd_observed = Some observed, rd_code = ''state_changed_outside_expected_mutation''\<rparr>))"

lemma reconcile_total: "\<exists>d. reconcile_mutation H b s ob x = Inr d"
proof (cases ob)
  case None
  then show ?thesis by (simp add: reconcile_mutation_def make_decision_def)
next
  case (Some t)
  obtain v where "verify_state s (Some t) = Inr v" using verify_state_total by blast
  then show ?thesis using Some by (simp add: reconcile_mutation_def make_decision_def)
qed

text \<open>
  A retry is authorised only for a read-back that has the digest of the state before, and
  only once, for an idempotent operation, with ownership, root unit and confirmation intact.
\<close>

lemma reconcile_retry:
  assumes "reconcile_mutation H b s ob x = Inr d" and "rd_retry d"
  shows "rd_outcome d = Mutation_Not_Applied" "retry_preconditions_hold x"
    "\<exists>t. ob = Some t \<and> canonical_hash H (dump_blocked_state b) = canonical_hash H (dump_blocked_state t)"
  using assms
  by (auto simp: reconcile_mutation_def make_decision_def res_simps split: option.splits if_splits)

lemma reconcile_observed:
  "reconcile_mutation H b s ob x = Inr d \<Longrightarrow> rd_observed d = ob"
  by (auto simp: reconcile_mutation_def make_decision_def res_simps split: option.splits if_splits)

section \<open>The terminal status\<close>

definition propagation_warning :: string where
  "propagation_warning =
     ''The configuration was saved and confirmed through a fresh Admin console read-back. '' @
     ''Gmail enforcement may still be propagating.''"

definition plain_result :: "run_status \<Rightarrow> string option \<Rightarrow> run_result" where
  "plain_result status err = \<lparr>rr_status = status, rr_requested = [], rr_verified = [], rr_warnings = [],
     rr_error = err, rr_pending = False\<rparr>"

definition determine_run_result ::
    "mutation_result option \<Rightarrow> verification_result option \<Rightarrow> bool \<Rightarrow> bool \<Rightarrow> bool \<Rightarrow> run_result res" where
  "determine_run_result mutation verification confirmation_rejected unsupported no_change_required =
     (if unsupported then make_run_result (plain_result Unsupported None)
      else if confirmation_rejected then make_run_result (plain_result Confirmation_Rejected None)
      else if no_change_required then make_run_result (plain_result No_Change_Required None)
      else case mutation of
          None \<Rightarrow> make_run_result (plain_result Failed_Unchanged (Some ''mutation_not_attempted''))
        | Some m \<Rightarrow>
            if mr_status m = Partial then make_run_result (plain_result Partially_Applied (mr_error m))
            else if mr_status m = Uncertain \<and> verification = None then
              make_run_result (plain_result Indeterminate (mr_error m))
            else (case verification of
                None \<Rightarrow> make_run_result (plain_result Indeterminate (Some ''verification_missing''))
              | Some v \<Rightarrow>
                  if vr_status v = Matched then
                    make_run_result ((plain_result Applied_Pending_Propagation None)
                      \<lparr>rr_warnings := [propagation_warning], rr_pending := True\<rparr>)
                  else if mr_status m = Unchanged then
                    make_run_result (plain_result Failed_Unchanged (Some ''verification_mismatch''))
                  else make_run_result (plain_result Indeterminate (Some ''verification_mismatch''))))"

lemma determine_run_result_total: "\<exists>r. determine_run_result m v c u n = Inr r"
  by (cases m; cases v) (auto simp: determine_run_result_def make_run_result_def plain_result_def)

text \<open>Success is reported only on a matched verification of an attempted mutation.\<close>

lemma determine_run_result_applied:
  assumes "determine_run_result m v c u n = Inr r" and "rr_status r = Applied_Pending_Propagation"
  shows "\<exists>m' v'. m = Some m' \<and> v = Some v' \<and> vr_status v' = Matched \<and> mr_status m' \<noteq> Partial"
    "\<not> c \<and> \<not> u \<and> \<not> n"
  using assms
  by (cases m; cases v; auto simp: determine_run_result_def make_run_result_def plain_result_def
      split: if_splits)+

lemma determine_run_result_never_verified:
  "determine_run_result m v c u n = Inr r \<Longrightarrow> rr_status r \<noteq> Applied_UI_Verified \<and> rr_status r \<noteq> Dry_Run_Preview_Ready"
  by (cases m; cases v; auto simp: determine_run_result_def make_run_result_def plain_result_def
      split: if_splits)


section \<open>What a partial application is\<close>

text \<open>The resource of an identifier, if the state has one.\<close>

definition rule_at :: "blocked_state \<Rightarrow> uuid \<Rightarrow> blocked_rule option" where
  "rule_at s i = dict_get (dict_of br_id (bs_rules s)) i"

definition list_at :: "blocked_state \<Rightarrow> uuid \<Rightarrow> address_list option" where
  "list_at s i = dict_get (dict_of al_id (bs_lists s)) i"

lemma fold_put_get:
  assumes "distinct (map f xs)"
  shows "dict_get (fold (\<lambda>x. dict_put (f x) (g x)) xs d) k =
    (case find (\<lambda>x. f x = k) xs of None \<Rightarrow> dict_get d k | Some x \<Rightarrow> Some (g x))"
  using assms
proof (induction xs arbitrary: d)
  case (Cons x xs)
  then have "find (\<lambda>y. f y = f x) xs = None" by (simp add: find_None_iff) (metis imageI)
  with Cons show ?case by (auto simp: update_conv' split: option.splits)
qed simp

lemma find_dict_of:
  assumes "distinct (map f xs)"
  shows "find (\<lambda>x. f x = k) xs = dict_get (dict_of f xs) k"
proof (cases "find (\<lambda>x. f x = k) xs")
  case None
  then have "k \<notin> set (map f xs)" by (auto simp: find_None_iff)
  then show ?thesis unfolding None
    using dict_of_get_iff [OF assms] by (metis image_eqI list.set_map not_None_eq)
next
  case (Some x)
  then show ?thesis using find_Some [OF Some] dict_of_get_iff [OF assms, of k x] by simp
qed

lemma resource_json_rule:
  assumes "wf_blocked_state s"
  shows "dict_get (resource_json s) (''rule:'' @ uuid_str i) =
    map_option (\<lambda>r. model_json (dump_blocked_rule r)) (rule_at s i)"
    and "dict_get (resource_json s) (''list:'' @ uuid_str i) =
    map_option (\<lambda>l. model_json (dump_address_list l)) (list_at s i)"
proof -
  have ids: "distinct (map br_id (bs_rules s))" "distinct (map al_id (bs_lists s))"
    using assms by (simp_all add: wf_blocked_state_def)
  have keys: "distinct (map (\<lambda>r. ''rule:'' @ uuid_str (br_id r)) (bs_rules s))"
    "distinct (map (\<lambda>l. ''list:'' @ uuid_str (al_id l)) (bs_lists s))"
    using ids by (auto simp: distinct_map inj_on_def)
  have same: "(\<lambda>x. ''rule:'' @ uuid_str (br_id x) = ''rule:'' @ uuid_str i) = (\<lambda>x. br_id x = i)"
    "(\<lambda>x. ''list:'' @ uuid_str (al_id x) = ''list:'' @ uuid_str i) = (\<lambda>x. al_id x = i)"
    "find (\<lambda>x. ''list:'' @ uuid_str (al_id x) = ''rule:'' @ uuid_str i) (bs_lists s) = None"
    "find (\<lambda>x. ''rule:'' @ uuid_str (br_id x) = ''list:'' @ uuid_str i) (bs_rules s) = None"
    by (auto simp: fun_eq_iff find_None_iff)
  show "dict_get (resource_json s) (''rule:'' @ uuid_str i) =
      map_option (\<lambda>r. model_json (dump_blocked_rule r)) (rule_at s i)"
    unfolding resource_json_def fold_put_get [OF keys(2)] fold_put_get [OF keys(1)] same
      find_dict_of [OF ids(1)] rule_at_def by (simp split: option.splits)
  show "dict_get (resource_json s) (''list:'' @ uuid_str i) =
      map_option (\<lambda>l. model_json (dump_address_list l)) (list_at s i)"
    unfolding resource_json_def fold_put_get [OF keys(2)] fold_put_get [OF keys(1)] same
      find_dict_of [OF ids(2)] list_at_def by (simp split: option.splits)
qed

lemma resource_json_keys:
  assumes "k \<in> set (dict_keys (resource_json s))"
  shows "(\<exists>i. k = ''rule:'' @ uuid_str i) \<or> (\<exists>i. k = ''list:'' @ uuid_str i)"
proof -
  have *: "set (dict_keys (fold (\<lambda>x. dict_put (f x) (g x)) xs d)) \<subseteq> f ` set xs \<union> set (dict_keys d)"
    for f :: "'z \<Rightarrow> string" and g :: "'z \<Rightarrow> string" and xs d
  proof (induction xs arbitrary: d)
    case (Cons x xs)
    have "set (dict_keys (dict_put (f x) (g x) d)) = insert (f x) (set (dict_keys d))"
      by (simp add: dom_map_of_conv_image_fst [symmetric] update_conv' del: dom_map_of_conv_image_fst)
    with Cons [of "dict_put (f x) (g x) d"] show ?case by auto
  qed simp
  show ?thesis using assms unfolding resource_json_def
    by (auto simp del: set_map dest!: subsetD [OF *])
qed

lemma changed_option:
  "map_option (\<lambda>x. model_json (f x)) a = map_option (\<lambda>x. model_json (f x)) b \<longleftrightarrow> a = b"
  if "\<And>x y. f x = f y \<longleftrightarrow> x = y"
  using that by (cases a; cases b) auto

lemma has_any_desired_change_iff:
  assumes "wf_blocked_state b" and "wf_blocked_state d" and "wf_blocked_state ob"
  shows "has_any_desired_change b d ob \<longleftrightarrow>
    (\<exists>i. rule_at b i \<noteq> rule_at d i \<and> rule_at ob i = rule_at d i) \<or>
    (\<exists>i. list_at b i \<noteq> list_at d i \<and> list_at ob i = list_at d i)"
proof -
  let ?b = "dict_get (resource_json b)" and ?d = "dict_get (resource_json d)" and ?o = "dict_get (resource_json ob)"
  have "has_any_desired_change b d ob \<longleftrightarrow> (\<exists>k. ?b k \<noteq> ?d k \<and> ?o k = ?d k)"
  proof
    assume "\<exists>k. ?b k \<noteq> ?d k \<and> ?o k = ?d k"
    then obtain k where k: "?b k \<noteq> ?d k" "?o k = ?d k" by blast
    then have "k \<in> set (dict_keys (resource_json b) @ dict_keys (resource_json d))"
      by (metis Un_iff list.set_map map_of_eq_None_iff set_append)
    with k show "has_any_desired_change b d ob"
      unfolding has_any_desired_change_def Let_def list_ex_iff by auto
  qed (auto simp: has_any_desired_change_def Let_def list_ex_iff)
  also have "\<dots> \<longleftrightarrow> (\<exists>i. rule_at b i \<noteq> rule_at d i \<and> rule_at ob i = rule_at d i) \<or>
      (\<exists>i. list_at b i \<noteq> list_at d i \<and> list_at ob i = list_at d i)"
  proof
    assume "\<exists>k. ?b k \<noteq> ?d k \<and> ?o k = ?d k"
    then obtain k where k: "?b k \<noteq> ?d k" "?o k = ?d k" by blast
    then have "k \<in> set (dict_keys (resource_json b)) \<or> k \<in> set (dict_keys (resource_json d))"
      by (metis list.set_map map_of_eq_None_iff)
    then consider i where "k = ''rule:'' @ uuid_str i" | i where "k = ''list:'' @ uuid_str i"
      using resource_json_keys by blast
    then show "(\<exists>i. rule_at b i \<noteq> rule_at d i \<and> rule_at ob i = rule_at d i) \<or>
        (\<exists>i. list_at b i \<noteq> list_at d i \<and> list_at ob i = list_at d i)"
      by cases (use k in \<open>auto simp only: resource_json_rule assms changed_option dump_blocked_rule_inj
        dump_address_list_inj\<close>)
  next
    assume "(\<exists>i. rule_at b i \<noteq> rule_at d i \<and> rule_at ob i = rule_at d i) \<or>
        (\<exists>i. list_at b i \<noteq> list_at d i \<and> list_at ob i = list_at d i)"
    then consider i where "rule_at b i \<noteq> rule_at d i" "rule_at ob i = rule_at d i"
      | i where "list_at b i \<noteq> list_at d i" "list_at ob i = list_at d i" by blast
    then show "\<exists>k. ?b k \<noteq> ?d k \<and> ?o k = ?d k"
    proof cases
      case (1 i)
      then show ?thesis
        by (intro exI [of _ "''rule:'' @ uuid_str i"])
          (simp only: resource_json_rule(1) assms changed_option dump_blocked_rule_inj dump_address_list_inj
            not_False_eq_True simp_thms)
    next
      case (2 i)
      then show ?thesis
        by (intro exI [of _ "''list:'' @ uuid_str i"])
          (simp only: resource_json_rule(2) assms changed_option dump_blocked_rule_inj dump_address_list_inj
            not_False_eq_True simp_thms)
    qed
  qed
  finally show ?thesis .
qed

end
