(* ===== verification/Compliance_Desired.thy ===== *)
theory Compliance_Desired
  imports Change_Sets
begin

text \<open>
  \<^verbatim>\<open>domain/compliance_desired_state.py\<close>: the state a plan's content-compliance actions
  ask for. The locale \<open>owned_store\<close> is the contract the two desired-state calculations
  share: a step of either leaves every resource that is not owned as it is.
\<close>

section \<open>Stores whose steps change owned resources only\<close>

locale owned_store =
  fixes view :: "'s \<Rightarrow> (uuid, 'r) dict"
    and owned :: "'r \<Rightarrow> bool"
    and valid :: "'a \<Rightarrow> bool"
    and invar :: "'s \<Rightarrow> bool"
    and step :: "'a \<Rightarrow> 's \<Rightarrow> 's res"
  assumes step_invar: "invar s \<Longrightarrow> valid a \<Longrightarrow> step a s = Inr t \<Longrightarrow> invar t"
    and step_frame: "invar s \<Longrightarrow> valid a \<Longrightarrow> step a s = Inr t \<Longrightarrow> dict_get (view s) i = Some r \<Longrightarrow>
      \<not> owned r \<Longrightarrow> dict_get (view t) i = Some r"
begin

lemma run_invar:
  "fold_res step as s = Inr t \<Longrightarrow> invar s \<Longrightarrow> list_all valid as \<Longrightarrow> invar t"
proof (induction as arbitrary: s)
  case (Cons a as)
  from Cons.prems(1) obtain u where u: "step a s = Inr u" "fold_res step as u = Inr t" by auto
  with Cons.prems show ?case by (intro Cons.IH [OF u(2)]) (auto intro: step_invar)
qed simp

lemma run_frame:
  "fold_res step as s = Inr t \<Longrightarrow> invar s \<Longrightarrow> list_all valid as \<Longrightarrow> dict_get (view s) i = Some r \<Longrightarrow>
     \<not> owned r \<Longrightarrow> dict_get (view t) i = Some r"
proof (induction as arbitrary: s)
  case (Cons a as)
  from Cons.prems(1) obtain u where u: "step a s = Inr u" "fold_res step as u = Inr t" by auto
  with Cons.prems show ?case
    by (intro Cons.IH [OF u(2)]) (auto intro: step_invar step_frame)
qed simp

text \<open>Hence an unowned resource is lost by no run, whatever its actions.\<close>

lemma lost_is_owned:
  assumes "fold_res step as s = Inr t" and "invar s" and "list_all valid as"
    and "dict_get (view s) i = Some r" and "dict_get (view t) i \<noteq> Some r"
  shows "owned r"
  using run_frame [OF assms(1-4)] assms(5) by blast

end

section \<open>The calculation\<close>

record compliance_working =
  cw_rules :: "(uuid, compliance_rule) dict"
  cw_ids :: "uuid list"

definition validate_rule :: "(string \<Rightarrow> bool) \<Rightarrow> compliance_rule \<Rightarrow> string list \<Rightarrow> unit res" where
  "validate_rule re2_ok rule capabilities =
     fold_res (\<lambda>e _. and_then (validate_expression_regex re2_ok e) (\<lambda>_.
       case required_capability e of
         None \<Rightarrow> Inr ()
       | Some required \<Rightarrow> if required \<notin> set capabilities then Inl AmbiguousTarget else Inr ()))
       (cr_expressions rule) ()"

definition managed_rule :: "compliance_draft \<Rightarrow> uuid \<Rightarrow> string \<Rightarrow> compliance_rule" where
  "managed_rule d i n = compliance_draft.extend d (compliance_rule.fields i n)"

definition create_compliance_rule ::
    "(string \<Rightarrow> bool) \<Rightarrow> compliance_draft \<Rightarrow> string \<Rightarrow> string list \<Rightarrow> compliance_working \<Rightarrow>
      compliance_working res" where
  "create_compliance_rule re2_ok draft prefix capabilities w =
     (case cw_ids w of
        [] \<Rightarrow> Inl ValueError
      | i # is \<Rightarrow>
          if i \<in> set (dict_keys (cw_rules w)) then Inl ValueError
          else and_then (check_compliance_rule (managed_rule draft i (managed_compliance_rule_name prefix i)))
            (\<lambda>rule. and_then (validate_rule re2_ok rule capabilities) (\<lambda>_.
              Inr (w\<lparr>cw_rules := dict_put i rule (cw_rules w), cw_ids := is\<rparr>))))"

definition require_compliance_rule :: "uuid \<Rightarrow> compliance_working \<Rightarrow> compliance_rule res" where
  "require_compliance_rule i w =
     (case dict_get (cw_rules w) i of None \<Rightarrow> Inl AmbiguousTarget | Some r \<Rightarrow> Inr r)"

text \<open>The lookup, ownership test and inheritance test three of the actions begin with.\<close>

definition require_editable :: "uuid \<Rightarrow> registry \<Rightarrow> string \<Rightarrow> compliance_working \<Rightarrow> compliance_rule res" where
  "require_editable i g prefix w =
     and_then (require_compliance_rule i w) (\<lambda>current.
     and_then (require_owned_compliance_rule current g prefix) (\<lambda>_.
     if cr_inherited current then Inl AmbiguousTarget else Inr current))"

fun compliance_step ::
    "(string \<Rightarrow> bool) \<Rightarrow> registry \<Rightarrow> string \<Rightarrow> string list \<Rightarrow> action \<Rightarrow> compliance_working \<Rightarrow>
      compliance_working res" where
  "compliance_step re2_ok g prefix caps (Create_Content_Compliance_Rule draft) w =
     create_compliance_rule re2_ok draft prefix caps w"
| "compliance_step re2_ok g prefix caps (Update_Content_Compliance_Rule target rule) w =
     and_then (require_editable target g prefix w) (\<lambda>current.
     if cr_ou rule \<noteq> cr_ou current then Inl AmbiguousTarget
     else let replacement = rule\<lparr>cr_name := cr_name current\<rparr> in
       and_then (validate_rule re2_ok replacement caps) (\<lambda>_.
         Inr (w\<lparr>cw_rules := dict_put (cr_id current) replacement (cw_rules w)\<rparr>)))"
| "compliance_step re2_ok g prefix caps (Remove_Content_Compliance_Rule target) w =
     and_then (require_editable target g prefix w) (\<lambda>current.
       Inr (w\<lparr>cw_rules := dict_del (cr_id current) (cw_rules w)\<rparr>))"
| "compliance_step re2_ok g prefix caps (Set_Content_Compliance_Rule_Enabled target enabled) w =
     and_then (require_editable target g prefix w) (\<lambda>current.
       Inr (w\<lparr>cw_rules := dict_put (cr_id current) (current\<lparr>cr_enabled := enabled\<rparr>) (cw_rules w)\<rparr>))"
| "compliance_step re2_ok g prefix caps _ w = Inr w"

definition calculate_compliance_desired_state ::
    "(string \<Rightarrow> bool) \<Rightarrow> compliance_state \<Rightarrow> task_plan \<Rightarrow> registry \<Rightarrow> uuid list \<Rightarrow> string \<Rightarrow>
      compliance_state res" where
  "calculate_compliance_desired_state re2_ok current plan g new_ids prefix =
     and_then (fold_res (compliance_step re2_ok g prefix (cs_capabilities current)) (tp_actions plan)
         \<lparr>cw_rules = dict_of cr_id (cs_rules current), cw_ids = new_ids\<rparr>) (\<lambda>w.
     if \<not> distinct (map cr_name (dict_values (cw_rules w)) @ cs_unmanaged current) then Inl AmbiguousTarget
     else make_compliance_state (sort_key (\<lambda>r. uuid_hex (cr_id r)) (dict_values (cw_rules w)))
       (sort (cs_unmanaged current)) (cs_capabilities current))"

section \<open>The contract holds of the content-compliance steps\<close>

definition valid_action :: "action \<Rightarrow> bool" where
  "valid_action a \<longleftrightarrow> check_action a = Inr a"

text \<open>A rule that may be changed: owned, and not inherited from a parent unit.\<close>

definition editable_compliance :: "registry \<Rightarrow> string \<Rightarrow> compliance_rule \<Rightarrow> bool" where
  "editable_compliance g prefix r \<longleftrightarrow> owned_compliance g prefix r \<and> \<not> cr_inherited r"

lemma require_editable_Inr:
  assumes "keyed cr_id (cw_rules w)" and "require_editable i g prefix w = Inr r"
  shows "dict_get (cw_rules w) (cr_id r) = Some r" "editable_compliance g prefix r" "cr_id r = i"
proof -
  from assms(2) have r: "dict_get (cw_rules w) i = Some r" "owned_compliance g prefix r" "\<not> cr_inherited r"
    by (auto simp: require_editable_def require_compliance_rule_def res_simps
        dest: require_owned_compliance_sound split: option.splits if_splits)
  then have "cr_id r = i" using keyed_get [OF assms(1)] by blast
  with r show "dict_get (cw_rules w) (cr_id r) = Some r" "editable_compliance g prefix r" "cr_id r = i"
    by (simp_all add: editable_compliance_def)
qed

lemma require_editableE:
  assumes "require_editable i g prefix w = Inr r" and "keyed cr_id (cw_rules w)"
  obtains "dict_get (cw_rules w) i = Some r" "editable_compliance g prefix r" "cr_id r = i"
  using require_editable_Inr [OF assms(2,1)] that by metis

lemma check_compliance_rule_identity:
  "check_compliance_rule r = Inr s \<Longrightarrow> cr_id s = cr_id r \<and> cr_name s = cr_name r"
  by (auto simp: check_compliance_rule_def check_draft_def res_simps split: if_splits)

lemma managed_rule_simps [simp]:
  "cr_id (managed_rule d i n) = i" "cr_name (managed_rule d i n) = n"
  by (simp_all add: managed_rule_def compliance_draft.defs compliance_rule.defs)

lemma create_compliance_Inr:
  assumes "create_compliance_rule re2_ok d prefix caps w = Inr t"
  obtains i rest r where "cw_ids w = i # rest" "i \<notin> set (dict_keys (cw_rules w))" "cr_id r = i"
    "cr_name r = managed_compliance_rule_name prefix i"
    "check_compliance_rule (managed_rule d i (managed_compliance_rule_name prefix i)) = Inr r"
    "validate_rule re2_ok r caps = Inr ()"
    "t = w\<lparr>cw_rules := dict_put i r (cw_rules w), cw_ids := rest\<rparr>"
proof -
  from assms obtain i rest where i: "cw_ids w = i # rest" "i \<notin> set (dict_keys (cw_rules w))"
    by (auto simp: create_compliance_rule_def split: list.splits if_splits)
  with assms obtain r where
    "check_compliance_rule (managed_rule d i (managed_compliance_rule_name prefix i)) = Inr r"
    "validate_rule re2_ok r caps = Inr ()"
    "t = w\<lparr>cw_rules := dict_put i r (cw_rules w), cw_ids := rest\<rparr>"
    by (auto simp: create_compliance_rule_def res_simps)
  with i check_compliance_rule_identity [OF this(1)] show thesis by (intro that [of i rest r]) simp_all
qed

lemma compliance_step_keyed:
  assumes k: "keyed cr_id (cw_rules w)" and a: "valid_action a"
    and s: "compliance_step re2_ok g prefix caps a w = Inr t"
  shows "keyed cr_id (cw_rules t)"
proof (cases a)
  case (Create_Content_Compliance_Rule d)
  with s show ?thesis using k by (auto elim!: create_compliance_Inr intro: keyed_put)
next
  case (Update_Content_Compliance_Rule i r)
  then have "cr_id r = i" using a by (auto simp: valid_action_def split: if_splits)
  with s Update_Content_Compliance_Rule show ?thesis
    using k by (auto simp: res_simps Let_def elim!: require_editableE [OF _ k] intro!: keyed_put split: if_splits)
qed (use s k in \<open>auto simp: res_simps elim!: require_editableE [OF _ k] intro!: keyed_put keyed_del\<close>)

lemma compliance_step_frame:
  assumes k: "keyed cr_id (cw_rules w)" and a: "valid_action a"
    and s: "compliance_step re2_ok g prefix caps a w = Inr t"
    and i: "dict_get (cw_rules w) i = Some r" and "\<not> editable_compliance g prefix r"
  shows "dict_get (cw_rules t) i = Some r"
proof (cases a)
  case (Create_Content_Compliance_Rule d)
  have "i \<in> set (dict_keys (cw_rules w))" using i by (metis list.set_map map_of_eq_None_iff option.distinct(1))
  with s i Create_Content_Compliance_Rule show ?thesis
    by (auto elim!: create_compliance_Inr simp: update_conv' simp del: set_map)
qed (use s i assms(5) in \<open>auto simp: res_simps Let_def update_conv' delete_conv' split: if_splits
    elim!: require_editableE [OF _ k]\<close>)

interpretation compliance_store: owned_store cw_rules "editable_compliance g prefix" valid_action
    "\<lambda>w. keyed cr_id (cw_rules w)" "compliance_step re2_ok g prefix caps"
  by unfold_locales (auto intro: compliance_step_keyed compliance_step_frame)

section \<open>The contract holds of the blocked-sender steps\<close>

text \<open>The same contract for the rules of \<open>Desired_State\<close>, seen through their working sets.\<close>

definition fresh_working :: "working \<Rightarrow> bool" where
  "fresh_working w \<longleftrightarrow> keyed br_id (ws_rules w) \<and> keyed al_id (ws_lists w)"

lemma fresh_guarded:
  "fresh_working w \<Longrightarrow> guarded g prefix \<lparr>bs_ou = [], bs_rules = dict_values (ws_rules w), bs_lists = [],
     bs_unmanaged = []\<rparr> w"
  using keyed_get_value [of br_id "ws_rules w"] by (auto simp: guarded_def fresh_working_def)

lemma plan_step_frame:
  assumes w: "fresh_working (snd s)" and "plan_step ou g prefix a s = Inr t"
  shows "fresh_working (snd t)"
    and "dict_get (ws_rules (snd s)) i = Some r \<Longrightarrow> \<not> owned_rule g prefix r \<Longrightarrow>
      dict_get (ws_rules (snd t)) i = Some r"
proof -
  have g: "guarded g prefix \<lparr>bs_ou = [], bs_rules = dict_values (ws_rules (snd s)), bs_lists = [],
      bs_unmanaged = []\<rparr> (snd t)"
    using assms(2) guarded_apply_action [OF fresh_guarded [OF w]]
    by (auto simp: plan_step_def res_simps split: if_splits)
  then show "fresh_working (snd t)" by (simp add: guarded_def fresh_working_def)
  assume r: "dict_get (ws_rules (snd s)) i = Some r" "\<not> owned_rule g prefix r"
  have k: "keyed br_id (ws_rules (snd s))" using w by (simp add: fresh_working_def)
  have "br_id r = i" using keyed_get [OF k r(1)] .
  moreover have "r \<in> set (dict_values (ws_rules (snd s)))"
    using r(1) \<open>br_id r = i\<close> keyed_values_iff [OF k, of r] by simp
  ultimately show "dict_get (ws_rules (snd t)) i = Some r"
    using g r(2) by (auto simp: guarded_def simp del: set_map)
qed

interpretation blocked_store: owned_store "\<lambda>s. ws_rules (snd s)" "owned_rule g prefix" "\<lambda>_. True"
    "\<lambda>s. fresh_working (snd s)" "plan_step ou g prefix"
  by unfold_locales (auto intro: plan_step_frame)

section \<open>What the calculation promises\<close>

lemma calculate_compliance_Inr:
  assumes "calculate_compliance_desired_state re2_ok s plan g ids prefix = Inr d"
  obtains w where
    "fold_res (compliance_step re2_ok g prefix (cs_capabilities s)) (tp_actions plan)
       \<lparr>cw_rules = dict_of cr_id (cs_rules s), cw_ids = ids\<rparr> = Inr w"
    "cs_rules d = sort_key cr_id (dict_values (cw_rules w))" "cs_unmanaged d = sort (cs_unmanaged s)"
    "set (cs_capabilities d) = set (cs_capabilities s)" "distinct (map cr_id (cs_rules d))"
    "distinct (map cr_name (cs_rules d) @ cs_unmanaged d)"
proof -
  from assms obtain w where w:
      "fold_res (compliance_step re2_ok g prefix (cs_capabilities s)) (tp_actions plan)
       \<lparr>cw_rules = dict_of cr_id (cs_rules s), cw_ids = ids\<rparr> = Inr w"
    unfolding calculate_compliance_desired_state_def by (rule and_thenE)
  with assms have "make_compliance_state (sort_key (\<lambda>r. uuid_hex (cr_id r)) (dict_values (cw_rules w)))
       (sort (cs_unmanaged s)) (cs_capabilities s) = Inr d"
    by (simp add: calculate_compliance_desired_state_def split: if_splits)
  note d = make_compliance_state_Inr [OF this]
  show thesis by (rule that [OF w]) (use d in \<open>simp_all only: sort_by_hex\<close>)
qed

lemma compliance_unowned_kept:
  assumes "distinct (map cr_id (cs_rules s))" and "list_all valid_action (tp_actions plan)"
    and d: "calculate_compliance_desired_state re2_ok s plan g ids prefix = Inr d"
    and r: "r \<in> set (cs_rules s)" "\<not> editable_compliance g prefix r"
  shows "r \<in> set (cs_rules d)"
proof -
  let ?w = "\<lparr>cw_rules = dict_of cr_id (cs_rules s), cw_ids = ids\<rparr>"
  from d obtain w where
    w: "fold_res (compliance_step re2_ok g prefix (cs_capabilities s)) (tp_actions plan) ?w = Inr w"
    and rules: "cs_rules d = sort_key cr_id (dict_values (cw_rules w))"
    by (rule calculate_compliance_Inr)
  have k: "keyed cr_id (cw_rules ?w)" by (simp add: keyed_dict_of)
  have "dict_get (cw_rules ?w) (cr_id r) = Some r" using dict_of_get [OF assms(1) r(1)] by simp
  from compliance_store.run_frame [OF w k assms(2) this r(2)]
  have "dict_get (cw_rules w) (cr_id r) = Some r" .
  then have "r \<in> set (dict_values (cw_rules w))"
    using keyed_values_iff [OF compliance_store.run_invar [OF w k assms(2)]] by blast
  then show ?thesis unfolding rules by simp
qed

end
