(* ===== verification/Preconditions.thy ===== *)
theory Preconditions
  imports Verification Compliance_Desired
begin

text \<open>
  \<^verbatim>\<open>domain/preflight.py\<close>, \<^verbatim>\<open>schemas/preflight.py\<close>, \<^verbatim>\<open>domain/preconditions.py\<close>,
  \<^verbatim>\<open>schemas/hitl.py\<close>, \<^verbatim>\<open>application/change_service.py\<close> and
  \<^verbatim>\<open>application/failure_mapping.py\<close>: who may change what, on whose approval.
\<close>

section \<open>Preflight\<close>

datatype login_reason = Login_Required | Account_Chooser | Two_Step_Verification | Session_Expired
  | Identity_Absent

datatype authentication_state = Authenticated | Auth_Login_Required | Auth_Account_Chooser
  | Auth_Two_Step_Verification | Auth_Session_Expired

text \<open>The reason a state that is not authenticated gives: the same literal.\<close>

fun login_reason_of :: "authentication_state \<Rightarrow> login_reason option" where
  "login_reason_of Authenticated = None"
| "login_reason_of Auth_Login_Required = Some Login_Required"
| "login_reason_of Auth_Account_Chooser = Some Account_Chooser"
| "login_reason_of Auth_Two_Step_Verification = Some Two_Step_Verification"
| "login_reason_of Auth_Session_Expired = Some Session_Expired"

record console_observation =
  ob_host :: string
  ob_auth :: authentication_state
  ob_email :: "string option"
  ob_domain :: "string option"
  ob_privilege :: "bool option"
  ob_gmail_context :: bool
  ob_senders_context :: bool
  ob_ou :: "string option"

record preflight_identity =
  pi_email :: string
  pi_domain :: string
  pi_ou :: string

datatype preflight_status = Ready | Needs_Login | Preflight_Failed

record preflight_result =
  pf_status :: preflight_status
  pf_identity :: "preflight_identity option"
  pf_reason :: "string option"
  pf_login :: "login_reason option"

definition make_preflight_result :: "preflight_result \<Rightarrow> preflight_result res" where
  "make_preflight_result r =
     (if pf_status r = Ready then
        (if pf_identity r = None \<or> given (pf_reason r) \<or> pf_login r \<noteq> None then Inl ValidationError
         else Inr r)
      else if pf_identity r \<noteq> None then Inl ValidationError
      else if pf_status r = Needs_Login then
        (if pf_login r = None \<or> given (pf_reason r) then Inl ValidationError else Inr r)
      else if \<not> given (pf_reason r) \<or> pf_login r \<noteq> None then Inl ValidationError
      else Inr r)"

definition failed_preflight :: "string \<Rightarrow> preflight_result res" where
  "failed_preflight reason =
     make_preflight_result \<lparr>pf_status = Preflight_Failed, pf_identity = None, pf_reason = Some reason,
       pf_login = None\<rparr>"

definition login_preflight :: "login_reason option \<Rightarrow> preflight_result res" where
  "login_preflight reason =
     make_preflight_result \<lparr>pf_status = Needs_Login, pf_identity = None, pf_reason = None,
       pf_login = reason\<rparr>"

definition evaluate_preflight :: "console_observation \<Rightarrow> string \<Rightarrow> string \<Rightarrow> preflight_result res" where
  "evaluate_preflight ob expected_email expected_domain =
     (if ob_auth ob \<noteq> Authenticated then login_preflight (login_reason_of (ob_auth ob))
      else if py_lower (ob_host ob) \<noteq> ''admin.google.com'' then failed_preflight ''unexpected_admin_console_host''
      else case ob_email ob of
        None \<Rightarrow> login_preflight (Some Identity_Absent)
      | Some email \<Rightarrow>
        if py_casefold email \<noteq> py_casefold expected_email then failed_preflight ''wrong_administrator''
        else (case ob_domain ob of
          None \<Rightarrow> failed_preflight ''workspace_identity_absent''
        | Some domain \<Rightarrow>
          if py_casefold domain \<noteq> py_casefold expected_domain then failed_preflight ''workspace_identity_mismatch''
          else if ob_privilege ob \<noteq> Some True then failed_preflight ''insufficient_gmail_settings_privilege''
          else if \<not> ob_gmail_context ob then failed_preflight ''gmail_settings_context_not_confirmed''
          else if \<not> ob_senders_context ob then failed_preflight ''blocked_senders_context_not_confirmed''
          else if ob_ou ob \<noteq> Some ''/'' then failed_preflight ''root_ou_not_confirmed''
          else make_preflight_result \<lparr>pf_status = Ready,
                 pf_identity = Some \<lparr>pi_email = email, pi_domain = domain, pi_ou = ''/''\<rparr>,
                 pf_reason = None, pf_login = None\<rparr>))"

lemma preflight_constructors [simp]:
  "failed_preflight r = Inr x \<longleftrightarrow> r \<noteq> [] \<and> x = \<lparr>pf_status = Preflight_Failed, pf_identity = None,
     pf_reason = Some r, pf_login = None\<rparr>"
  "login_preflight (Some l) = Inr \<lparr>pf_status = Needs_Login, pf_identity = None, pf_reason = None,
     pf_login = Some l\<rparr>"
  by (auto simp: failed_preflight_def login_preflight_def make_preflight_result_def given_def)

lemma evaluate_preflight_total: "\<exists>r. evaluate_preflight ob email domain = Inr r"
  by (cases "ob_auth ob")
    (simp_all add: evaluate_preflight_def make_preflight_result_def given_def split: option.splits)

text \<open>Every piece of evidence is needed, and together they suffice.\<close>

definition complete_evidence :: "console_observation \<Rightarrow> string \<Rightarrow> string \<Rightarrow> bool" where
  "complete_evidence ob email domain \<longleftrightarrow>
     ob_auth ob = Authenticated \<and> py_lower (ob_host ob) = ''admin.google.com'' \<and>
     (\<exists>e. ob_email ob = Some e \<and> py_casefold e = py_casefold email) \<and>
     (\<exists>d. ob_domain ob = Some d \<and> py_casefold d = py_casefold domain) \<and>
     ob_privilege ob = Some True \<and> ob_gmail_context ob \<and> ob_senders_context ob \<and> ob_ou ob = Some ''/''"

lemma evaluate_preflight_ready:
  assumes "evaluate_preflight ob email domain = Inr r"
  shows "pf_status r = Ready \<longleftrightarrow> complete_evidence ob email domain"
proof (cases "ob_auth ob = Authenticated")
  case False
  then show ?thesis using assms
    by (cases "ob_auth ob") (auto simp: evaluate_preflight_def complete_evidence_def)
next
  case True
  show ?thesis
  proof (cases "ob_email ob")
    case None
    then show ?thesis using assms True by (auto simp: evaluate_preflight_def complete_evidence_def split: if_splits)
  next
    case (Some e)
    note email = this
    show ?thesis
    proof (cases "ob_domain ob")
      case None
      then show ?thesis using assms True email
        by (auto simp: evaluate_preflight_def complete_evidence_def split: if_splits)
    next
      case (Some d)
      show ?thesis using assms True email Some
        by (auto simp: evaluate_preflight_def complete_evidence_def make_preflight_result_def given_def
            split: if_splits)
    qed
  qed
qed

section \<open>Approval\<close>

record confirmation_response =
  cf_approved :: bool
  cf_approval_id :: string
  cf_plan_hash :: string
  cf_before_hash :: string
  cf_change_hash :: string

record confirmation_request =
  cq_email :: string
  cq_domain :: string
  cq_ou :: string
  cq_plan_hash :: string
  cq_before_hash :: string
  cq_change_hash :: string
  cq_change_set :: change_set
  cq_notice_affected :: nat
  cq_audit_directory :: string

definition require_root_ou :: "string \<Rightarrow> unit res" where
  "require_root_ou target_ou = (if target_ou \<noteq> ''/'' then Inl RootOuNotConfirmed else Inr ())"

definition validate_confirmation ::
    "(string \<Rightarrow> string) \<Rightarrow> confirmation_response \<Rightarrow> task_plan \<Rightarrow> blocked_state \<Rightarrow> change_set \<Rightarrow> unit res" where
  "validate_confirmation H approval plan current_state cs =
     and_then (require_root_ou (bs_ou current_state)) (\<lambda>_.
     let expected = (canonical_hash H (dump_task_plan plan), canonical_hash H (dump_blocked_state current_state),
           canonical_hash H (dump_change_set cs));
         supplied = (cf_plan_hash approval, cf_before_hash approval, cf_change_hash approval)
     in if \<not> cf_approved approval then Inl StaleConfirmation
        else if supplied \<noteq> expected then Inl StaleConfirmation
        else Inr ())"

definition state_has_drifted :: "(string \<Rightarrow> string) \<Rightarrow> string \<Rightarrow> blocked_state \<Rightarrow> bool" where
  "state_has_drifted H confirmed_state_hash observed_state \<longleftrightarrow>
     confirmed_state_hash \<noteq> canonical_hash H (dump_blocked_state observed_state)"

lemma validate_confirmation_iff:
  "validate_confirmation H a plan s c = Inr () \<longleftrightarrow>
     bs_ou s = ''/'' \<and> cf_approved a \<and> cf_plan_hash a = canonical_hash H (dump_task_plan plan) \<and>
     cf_before_hash a = canonical_hash H (dump_blocked_state s) \<and>
     cf_change_hash a = canonical_hash H (dump_change_set c)"
  by (auto simp: validate_confirmation_def require_root_ou_def Let_def)

lemma validate_confirmation_Inl:
  "validate_confirmation H a plan s c = Inl e \<Longrightarrow> e = StaleConfirmation \<or> e = RootOuNotConfirmed \<and> bs_ou s \<noteq> ''/''"
  by (auto simp: validate_confirmation_def require_root_ou_def Let_def split: if_splits)

section \<open>The change service\<close>

text \<open>
  Identifiers come from an injected generator: \<open>supply n\<close> is the \<open>n\<close>-th it hands out. Each
  call returns its result and the number handed out after it.
\<close>

fun needs_rule_id :: "action \<Rightarrow> bool" where
  "needs_rule_id (Create_Blocked_Sender_Rule _ _ _ _ _) = True"
| "needs_rule_id (Add_Blocked_Entries _ _ _ _) = True"
| "needs_rule_id _ = False"

fun needs_bypass_id :: "action \<Rightarrow> bool" where
  "needs_bypass_id (Create_Blocked_Sender_Rule _ _ _ bypass _) = (bypass \<noteq> [])"
| "needs_bypass_id (Update_Blocked_Sender_Rule _ _ bypass _ _) = (bypass \<noteq> [])"
| "needs_bypass_id _ = False"

fun needs_compliance_id :: "action \<Rightarrow> bool" where
  "needs_compliance_id (Create_Content_Compliance_Rule _) = True"
| "needs_compliance_id _ = False"

definition identifiers_needed :: "task_plan \<Rightarrow> nat" where
  "identifiers_needed plan =
     length (filter needs_rule_id (tp_actions plan)) + length (filter needs_bypass_id (tp_actions plan))"

definition change_service_calculate ::
    "(nat \<Rightarrow> uuid) \<Rightarrow> string \<Rightarrow> task_plan \<Rightarrow> blocked_state \<Rightarrow> registry \<Rightarrow> nat \<Rightarrow>
      nat \<times> (desired_state_result \<times> change_set) res" where
  "change_service_calculate supply prefix plan current_state g n =
     (let proposed = map supply [n ..< n + identifiers_needed plan]
      in (n + identifiers_needed plan,
          and_then (calculate_desired_state current_state plan g proposed prefix) (\<lambda>desired.
            Inr (desired, calculate_change_set current_state (dr_state desired)))))"

definition change_service_compliance ::
    "(string \<Rightarrow> bool) \<Rightarrow> (nat \<Rightarrow> uuid) \<Rightarrow> string \<Rightarrow> task_plan \<Rightarrow> compliance_state \<Rightarrow> registry \<Rightarrow> nat \<Rightarrow>
      nat \<times> (compliance_state \<times> compliance_change_set) res" where
  "change_service_compliance re2_ok supply prefix plan current_state g n =
     (let needed = length (filter needs_compliance_id (tp_actions plan));
          proposed = map supply [n ..< n + needed]
      in (n + needed,
          and_then (calculate_compliance_desired_state re2_ok current_state plan g proposed prefix) (\<lambda>desired.
            Inr (desired, calculate_compliance_change_set current_state desired))))"

section \<open>Failures of the adapters\<close>

text \<open>
  \<^verbatim>\<open>_error_code\<close>: the class name in snake case. The class names of the modelled
  exceptions are letters only, so the second substitution and the fallback are the identity.
\<close>

definition is_capital :: "char \<Rightarrow> bool" where
  "is_capital c \<longleftrightarrow> (let n = (of_char c :: nat) in 65 \<le> n \<and> n \<le> 90)"

fun snake_words :: "string \<Rightarrow> string" where
  "snake_words [] = []"
| "snake_words (c # cs) = (if is_capital c then CHR ''_'' # c # snake_words cs else c # snake_words cs)"

definition error_code :: "exn \<Rightarrow> string" where
  "error_code e =
     (case exn_name e of [] \<Rightarrow> ''unknown_error'' | c # cs \<Rightarrow> py_lower (c # snake_words cs))"

definition expected_adapter_error :: "exn \<Rightarrow> bool" where
  "expected_adapter_error e \<longleftrightarrow>
     is_compliance_error e \<or> is_os_error e \<or> e = PlaywrightError \<or> e = ValidationError"

end
