(* ===== verification/Effects.thy ===== *)
theory Effects
  imports Prelude
begin

text \<open>
  Routines with state that may raise: an action takes the state of the objects it works on
  and returns its result or exception together with the state it leaves, also when it
  raises. Components built on files and on in-memory records are written in these terms.
\<close>

type_synonym ('s, 'a) act = "'s \<Rightarrow> 'a res \<times> 's"

named_theorems act_simps \<open>equations of the actions\<close>

definition return :: "'a \<Rightarrow> ('s, 'a) act" where
  "return x s = (Inr x, s)"

definition raise :: "exn \<Rightarrow> ('s, 'a) act" where
  "raise e s = (Inl e, s)"

definition lift :: "'a res \<Rightarrow> ('s, 'a) act" where
  "lift r s = (r, s)"

definition bind :: "('s, 'a) act \<Rightarrow> ('a \<Rightarrow> ('s, 'b) act) \<Rightarrow> ('s, 'b) act" where
  "bind m f s = (case m s of (Inl e, t) \<Rightarrow> (Inl e, t) | (Inr x, t) \<Rightarrow> f x t)"

definition andthen :: "('s, 'a) act \<Rightarrow> ('s, 'b) act \<Rightarrow> ('s, 'b) act" where
  "andthen m n = bind m (\<lambda>_. n)"

definition update :: "('s \<Rightarrow> 's) \<Rightarrow> ('s, unit) act" where
  "update f s = (Inr (), f s)"

definition get :: "('s \<Rightarrow> 'a) \<Rightarrow> ('s, 'a) act" where
  "get f s = (Inr (f s), s)"

text \<open>\<^verbatim>\<open>try: m except E: h\<close>; the handler returns the exception it does not take.\<close>

definition catch :: "('s, 'a) act \<Rightarrow> (exn \<Rightarrow> bool) \<Rightarrow> (exn \<Rightarrow> ('s, 'a) act) \<Rightarrow> ('s, 'a) act" where
  "catch m takes h s = (case m s of (Inl e, t) \<Rightarrow> if takes e then h e t else (Inl e, t) | (Inr x, t) \<Rightarrow> (Inr x, t))"

text \<open>A loop over a list.\<close>

fun each :: "('x \<Rightarrow> ('s, unit) act) \<Rightarrow> 'x list \<Rightarrow> ('s, unit) act" where
  "each f [] = return ()"
| "each f (x # xs) = andthen (f x) (each f xs)"

lemmas act_defs = return_def raise_def lift_def bind_def andthen_def update_def get_def catch_def

lemma return_simp [simp, act_simps]: "return x s = (Inr x, s)" by (simp add: return_def)
lemma raise_simp [simp, act_simps]: "raise e s = (Inl e, s)" by (simp add: raise_def)
lemma lift_simp [simp, act_simps]: "lift r s = (r, s)" by (simp add: lift_def)
lemma update_simp [simp, act_simps]: "update f s = (Inr (), f s)" by (simp add: update_def)
lemma get_simp [simp, act_simps]: "get f s = (Inr (f s), s)" by (simp add: get_def)

lemma bind_Inr_iff [act_simps]:
  "bind m f s = (Inr y, u) \<longleftrightarrow> (\<exists>x t. m s = (Inr x, t) \<and> f x t = (Inr y, u))"
  by (auto simp: bind_def split: prod.splits sum.splits)

lemma bind_Inl_iff [act_simps]:
  "bind m f s = (Inl e, u) \<longleftrightarrow> m s = (Inl e, u) \<or> (\<exists>x t. m s = (Inr x, t) \<and> f x t = (Inl e, u))"
  by (auto simp: bind_def split: prod.splits sum.splits)

lemma andthen_Inr_iff [act_simps]:
  "andthen m n s = (Inr y, u) \<longleftrightarrow> (\<exists>x t. m s = (Inr x, t) \<and> n t = (Inr y, u))"
  by (simp add: andthen_def bind_Inr_iff)

lemma andthen_Inl_iff [act_simps]:
  "andthen m n s = (Inl e, u) \<longleftrightarrow> m s = (Inl e, u) \<or> (\<exists>x t. m s = (Inr x, t) \<and> n t = (Inl e, u))"
  by (simp add: andthen_def bind_Inl_iff)

text \<open>What every step keeps, the composition keeps; the state after an exception included.\<close>

definition keeps :: "('s \<Rightarrow> bool) \<Rightarrow> ('s, 'a) act \<Rightarrow> bool" where
  "keeps P m \<longleftrightarrow> (\<forall>s. P s \<longrightarrow> P (snd (m s)))"

lemma keepsD: "keeps P m \<Longrightarrow> P s \<Longrightarrow> m s = (r, t) \<Longrightarrow> P t"
  by (force simp: keeps_def)

lemma keepsI: "(\<And>s r t. P s \<Longrightarrow> m s = (r, t) \<Longrightarrow> P t) \<Longrightarrow> keeps P m"
  unfolding keeps_def by (metis prod.collapse)

lemma keeps_basic [simp, intro]: "keeps P (return x)" "keeps P (raise e)" "keeps P (lift r)" "keeps P (get f)"
  by (simp_all add: keeps_def)

lemma keeps_bind: "keeps P m \<Longrightarrow> (\<And>x. keeps P (f x)) \<Longrightarrow> keeps P (bind m f)"
  unfolding keeps_def bind_def by (auto split: prod.splits sum.splits)

lemma keeps_andthen: "keeps P m \<Longrightarrow> keeps P n \<Longrightarrow> keeps P (andthen m n)"
  unfolding andthen_def by (rule keeps_bind)

lemma keeps_catch: "keeps P m \<Longrightarrow> (\<And>e. keeps P (h e)) \<Longrightarrow> keeps P (catch m takes h)"
  unfolding keeps_def catch_def by (auto split: prod.splits sum.splits)

lemma keeps_each: "(\<And>x. x \<in> set xs \<Longrightarrow> keeps P (f x)) \<Longrightarrow> keeps P (each f xs)"
  by (induction xs) (auto intro: keeps_andthen)

lemmas keeps_intros = keeps_basic keeps_bind keeps_andthen keeps_catch keeps_each

text \<open>The exceptions a routine can raise.\<close>

definition raises :: "exn set \<Rightarrow> ('s, 'a) act \<Rightarrow> bool" where
  "raises E m \<longleftrightarrow> (\<forall>s e t. m s = (Inl e, t) \<longrightarrow> e \<in> E)"

lemma raises_basic [simp, intro]: "raises E (return x)" "raises E (get f)" "raises E (update g)"
  by (simp_all add: raises_def)

lemma raises_bind: "raises E m \<Longrightarrow> (\<And>x. raises E (f x)) \<Longrightarrow> raises E (bind m f)"
  unfolding raises_def bind_Inl_iff by blast

lemma raises_andthen: "raises E m \<Longrightarrow> raises E n \<Longrightarrow> raises E (andthen m n)"
  unfolding andthen_def by (rule raises_bind)

lemma raises_each: "(\<And>x. x \<in> set xs \<Longrightarrow> raises E (f x)) \<Longrightarrow> raises E (each f xs)"
  by (induction xs) (auto intro: raises_andthen)

section \<open>Weakest preconditions\<close>

text \<open>What holds of the result of a routine and of the state it leaves.\<close>

definition wp :: "('s, 'a) act \<Rightarrow> ('a res \<Rightarrow> 's \<Rightarrow> bool) \<Rightarrow> 's \<Rightarrow> bool" where
  "wp m Q s \<longleftrightarrow> Q (fst (m s)) (snd (m s))"

named_theorems wp_simps \<open>the calculus of preconditions\<close>

lemma wp_return [wp_simps]: "wp (return x) Q s \<longleftrightarrow> Q (Inr x) s" by (simp add: wp_def)
lemma wp_raise [wp_simps]: "wp (raise e) Q s \<longleftrightarrow> Q (Inl e) s" by (simp add: wp_def)
lemma wp_lift [wp_simps]: "wp (lift r) Q s \<longleftrightarrow> Q r s" by (simp add: wp_def)
lemma wp_get [wp_simps]: "wp (get f) Q s \<longleftrightarrow> Q (Inr (f s)) s" by (simp add: wp_def)
lemma wp_update [wp_simps]: "wp (update g) Q s \<longleftrightarrow> Q (Inr ()) (g s)" by (simp add: wp_def)

lemma wp_bind [wp_simps]:
  "wp (bind m f) Q s \<longleftrightarrow> wp m (\<lambda>r t. case r of Inl e \<Rightarrow> Q (Inl e) t | Inr x \<Rightarrow> wp (f x) Q t) s"
  by (simp add: wp_def bind_def split: prod.splits sum.splits)

lemma wp_andthen [wp_simps]:
  "wp (andthen m n) Q s \<longleftrightarrow> wp m (\<lambda>r t. case r of Inl e \<Rightarrow> Q (Inl e) t | Inr _ \<Rightarrow> wp n Q t) s"
  by (simp add: andthen_def wp_bind)

lemma wp_catch [wp_simps]:
  "wp (catch m takes h) Q s \<longleftrightarrow>
     wp m (\<lambda>r t. case r of Inl e \<Rightarrow> if takes e then wp (h e) Q t else Q (Inl e) t | Inr x \<Rightarrow> Q (Inr x) t) s"
  by (simp add: wp_def catch_def split: prod.splits sum.splits)

lemma wp_each: "(\<And>x s. x \<in> set xs \<Longrightarrow> P s \<Longrightarrow> wp (f x) (\<lambda>_. P) s) \<Longrightarrow> P s \<Longrightarrow> wp (each f xs) (\<lambda>_. P) s"
proof (induction xs arbitrary: s)
  case (Cons x xs)
  then have "wp (f x) (\<lambda>_. P) s" by simp
  then show ?case using Cons.IH Cons.prems(1)
    by (auto simp: wp_simps wp_def [of "f x"] split: sum.splits)
qed (simp add: wp_simps)

lemma wp_mono: "wp m Q s \<Longrightarrow> (\<And>r t. Q r t \<Longrightarrow> R r t) \<Longrightarrow> wp m R s"
  by (simp add: wp_def)

lemma wpD: "wp m Q s \<Longrightarrow> m s = (r, t) \<Longrightarrow> Q r t"
  by (simp add: wp_def)

end
