(* ===== verification/Ownership_Lifecycle.thy ===== *)
theory Ownership_Lifecycle
  imports Effects Verification
begin

text \<open>
  \<^verbatim>\<open>application/ownership_service.py\<close>,
  \<^verbatim>\<open>application/compliance_ownership_service.py\<close> and
  \<^verbatim>\<open>infrastructure/filesystem.py\<close>: local ownership evidence is added and removed only
  after a matched read-back. The store holds the registry file; every load and save consumes
  the next of a list of faults the environment supplies (\<open>None\<close> is a call that succeeds,
  and so is every call once the list is used up). A save may also fail after the file was
  replaced, when its permissions cannot be set. \<open>clock n\<close> is the \<open>n\<close>-th reading of the
  injected clock.
\<close>

section \<open>The store\<close>

datatype store_fault = Fails exn | Fails_Replaced exn

fun fault_error :: "store_fault \<Rightarrow> exn" where
  "fault_error (Fails e) = e"
| "fault_error (Fails_Replaced e) = e"

record store =
  st_registry :: "registry option"
  st_faults :: "store_fault option list"
  st_ticks :: nat

definition empty_registry :: registry where
  "empty_registry = \<lparr>rg_schema = ''2.0'', rg_resources = [], rg_lists = [], rg_compliance = []\<rparr>"

definition next_fault :: "(store, unit) act" where
  "next_fault s = (case st_faults s of
       [] \<Rightarrow> (Inr (), s)
     | None # fs \<Rightarrow> (Inr (), s\<lparr>st_faults := fs\<rparr>)
     | Some f # fs \<Rightarrow> (Inl (fault_error f), s\<lparr>st_faults := fs\<rparr>))"

definition load_registry :: "(store, registry) act" where
  "load_registry = andthen next_fault
     (get (\<lambda>s. case st_registry s of None \<Rightarrow> empty_registry | Some g \<Rightarrow> g))"

definition save_registry :: "registry \<Rightarrow> (store, unit) act" where
  "save_registry g s = (case st_faults s of
       Some (Fails_Replaced e) # fs \<Rightarrow> (Inl e, s\<lparr>st_registry := Some g, st_faults := fs\<rparr>)
     | _ \<Rightarrow> andthen next_fault (update (\<lambda>s. s\<lparr>st_registry := Some g\<rparr>)) s)"

definition clock_now :: "(nat \<Rightarrow> py_datetime) \<Rightarrow> (store, py_datetime) act" where
  "clock_now clock = bind (get st_ticks) (\<lambda>n. andthen (update (\<lambda>s. s\<lparr>st_ticks := Suc n\<rparr>)) (return (clock n)))"

section \<open>What a change set created and removed\<close>

record ownership_update =
  ou_added :: "uuid list"
  ou_removed :: "uuid list"

definition no_update :: ownership_update where
  "no_update = \<lparr>ou_added = [], ou_removed = []\<rparr>"

text \<open>One created rule, and the bypass names seen so far, each with the rule's unit.\<close>

definition created_pair ::
    "(uuid, blocked_rule) dict \<Rightarrow> (uuid, address_list) dict \<Rightarrow> uuid \<Rightarrow>
      (uuid \<times> string \<times> string \<times> string) list \<times> (string, string) dict \<Rightarrow>
      ((uuid \<times> string \<times> string \<times> string) list \<times> (string, string) dict) res" where
  "created_pair rules alists i acc =
     (case (dict_get rules i, dict_get alists i) of
        (Some rule, Some l) \<Rightarrow>
          if br_lists rule \<noteq> [al_name l] then Inl OwnershipNotEstablished
          else Inr (fst acc @ [(i, br_name rule, al_name l, br_ou rule)],
                    fold (\<lambda>n. dict_put n (br_ou rule)) (br_bypass rule) (snd acc))
      | _ \<Rightarrow> Inl OwnershipNotEstablished)"

definition created_auxiliary ::
    "(uuid, address_list) dict \<Rightarrow> (string, string) dict \<Rightarrow> uuid \<Rightarrow> (uuid \<times> string \<times> string) res" where
  "created_auxiliary alists bypass_names i =
     (case dict_get alists i of
        None \<Rightarrow> Inl OwnershipNotEstablished
      | Some l \<Rightarrow>
          (case dict_get bypass_names (al_name l) of
             None \<Rightarrow> Inl OwnershipNotEstablished
           | Some target_ou \<Rightarrow> Inr (i, al_name l, target_ou)))"

definition created_resources ::
    "change_set \<Rightarrow> ((uuid \<times> string \<times> string \<times> string) list \<times> (uuid \<times> string \<times> string) list) res" where
  "created_resources c =
     (let rules = dict_of br_id (ch_rules_create c); alists = dict_of al_id (ch_lists_create c)
      in if \<not> set (dict_keys rules) \<subseteq> set (dict_keys alists) then Inl OwnershipNotEstablished
         else and_then (fold_res (created_pair rules alists) (sort_key uuid_str (dict_keys rules)) ([], []))
           (\<lambda>(pairs, bypass_names).
             and_then (map_res (created_auxiliary alists bypass_names)
                 (sort_key uuid_str (filter (\<lambda>k. k \<notin> set (dict_keys rules)) (dict_keys alists))))
               (\<lambda>auxiliary. Inr (pairs, auxiliary))))"

definition fully_removed_ids :: "change_set \<Rightarrow> uuid list res" where
  "fully_removed_ids c =
     (let removed_rules = map br_id (ch_rules_remove c);
          removed_lists = map al_id (ch_lists_remove c);
          allowed_names = concat (map br_bypass (ch_rules_remove c));
          allowed_ids = map al_id (filter (\<lambda>l. al_name l \<in> set allowed_names) (ch_lists_remove c))
      in if set removed_lists - set removed_rules - set allowed_ids \<noteq> {} then Inl OwnershipNotEstablished
         else Inr (sort_key uuid_str (remdups (filter (\<lambda>i. i \<in> set removed_lists) removed_rules))))"

definition same_resource_names :: "ownership_record \<Rightarrow> ownership_record \<Rightarrow> bool" where
  "same_resource_names a b \<longleftrightarrow> or_rule_name a = or_rule_name b \<and> or_list_name a = or_list_name b \<and>
     or_ou a = or_ou b"

definition same_address_list_resource :: "list_record \<Rightarrow> list_record \<Rightarrow> bool" where
  "same_address_list_resource a b \<longleftrightarrow> lr_name a = lr_name b \<and> lr_ou a = lr_ou b \<and> lr_purpose a = lr_purpose b"

section \<open>Committing verified changes\<close>

text \<open>The records while a commit is built: paired records, list records, added identifiers.\<close>

type_synonym evidence = "(uuid, ownership_record) dict \<times> (uuid, list_record) dict \<times> uuid list"

definition commit_pair ::
    "(nat \<Rightarrow> py_datetime) \<Rightarrow> uuid \<times> string \<times> string \<times> string \<Rightarrow> evidence \<Rightarrow> (store, evidence) act" where
  "commit_pair clock p ev = (case p of (i, rule_name, list_name, target_ou) \<Rightarrow>
     case ev of (records, alists, added) \<Rightarrow>
     bind (clock_now clock) (\<lambda>now.
     bind (lift (check_ownership_record \<lparr>or_id = i, or_rule_name = rule_name, or_list_name = list_name,
         or_ou = target_ou, or_created = now, or_rule_snapshot = None, or_list_snapshot = None\<rparr>)) (\<lambda>proposed.
     case dict_get records i of
       Some existing \<Rightarrow>
         if \<not> same_resource_names existing proposed then raise OwnershipNotEstablished else return ev
     | None \<Rightarrow> return (dict_put i proposed records, alists, added @ [i]))))"

definition commit_auxiliary ::
    "(nat \<Rightarrow> py_datetime) \<Rightarrow> uuid \<times> string \<times> string \<Rightarrow> evidence \<Rightarrow> (store, evidence) act" where
  "commit_auxiliary clock p ev = (case p of (i, name, target_ou) \<Rightarrow>
     case ev of (records, alists, added) \<Rightarrow>
     bind (clock_now clock) (\<lambda>now.
     bind (lift (check_list_record \<lparr>lr_id = i, lr_name = name, lr_ou = target_ou, lr_purpose = For_Bypass,
         lr_created = now, lr_snapshot = None\<rparr>)) (\<lambda>proposed.
     case dict_get alists i of
       Some existing \<Rightarrow>
         if \<not> same_address_list_resource existing proposed then raise OwnershipNotEstablished else return ev
     | None \<Rightarrow> return (records, dict_put i proposed alists, added @ [i]))))"

fun fold_act :: "('x \<Rightarrow> 'b \<Rightarrow> ('s, 'b) act) \<Rightarrow> 'x list \<Rightarrow> 'b \<Rightarrow> ('s, 'b) act" where
  "fold_act f [] b = return b"
| "fold_act f (x # xs) b = bind (f x b) (fold_act f xs)"

text \<open>The end of a commit: what is removed, and the registry written if anything changed.\<close>

definition settle_commit ::
    "change_set \<Rightarrow> registry \<Rightarrow> uuid list \<Rightarrow> evidence \<Rightarrow> (store, ownership_update) act" where
  "settle_commit c g removed_ids ev = (case ev of (records, alists, added) \<Rightarrow>
     let removed_auxiliary = remdups (filter (\<lambda>i. i \<in> set (dict_keys (dict_of lr_id (rg_lists g))))
           (map al_id (ch_lists_remove c)));
         removed_existing = filter (\<lambda>i. i \<in> set (dict_keys records)) removed_ids;
         records' = fold dict_del removed_existing records;
         removed = removed_existing @ filter (\<lambda>i. i \<in> set (dict_keys alists)) removed_auxiliary;
         alists' = fold dict_del removed_auxiliary alists;
         u = \<lparr>ou_added = sort_key uuid_str added, ou_removed = sort_key uuid_str removed\<rparr>
     in if ou_added u \<noteq> [] \<or> ou_removed u \<noteq> []
        then bind (lift (make_registry (sort_key (\<lambda>r. uuid_hex (or_id r)) (dict_values records'))
             (sort_key (\<lambda>r. uuid_hex (lr_id r)) (dict_values alists')) (rg_compliance g)))
           (\<lambda>g'. andthen (save_registry g') (return u))
        else return u)"

definition commit_verified ::
    "(nat \<Rightarrow> py_datetime) \<Rightarrow> change_set \<Rightarrow> verification_result \<Rightarrow> (store, ownership_update) act" where
  "commit_verified clock c v =
     (if vr_status v \<noteq> Matched then return no_update
      else if vr_desired v \<noteq> ch_after c \<or> vr_observed v \<noteq> Some (ch_after c) then raise OwnershipNotEstablished
      else bind load_registry (\<lambda>g.
        bind (lift (created_resources c)) (\<lambda>created.
        bind (lift (fully_removed_ids c)) (\<lambda>removed_ids.
        bind (fold_act (commit_pair clock) (fst created)
          (dict_of or_id (rg_resources g), dict_of lr_id (rg_lists g), [])) (\<lambda>ev.
        bind (fold_act (commit_auxiliary clock) (snd created) ev) (settle_commit c g removed_ids))))))"

section \<open>Content compliance\<close>

type_synonym compliance_evidence = "(uuid, compliance_record) dict \<times> uuid list"

definition commit_compliance_rule ::
    "(nat \<Rightarrow> py_datetime) \<Rightarrow> compliance_rule \<Rightarrow> compliance_evidence \<Rightarrow> (store, compliance_evidence) act" where
  "commit_compliance_rule clock rule ev = (case ev of (records, added) \<Rightarrow>
     bind (clock_now clock) (\<lambda>now.
     bind (lift (check_compliance_record \<lparr>co_id = cr_id rule, co_name = cr_name rule,
         co_ou = ou_path (cr_ou rule), co_created = now, co_snapshot = None\<rparr>)) (\<lambda>proposed.
     case dict_get records (cr_id rule) of
       Some existing \<Rightarrow>
         if co_name existing \<noteq> co_name proposed \<or> co_ou existing \<noteq> co_ou proposed
         then raise OwnershipNotEstablished else return ev
     | None \<Rightarrow> return (dict_put (cr_id rule) proposed records, added @ [cr_id rule]))))"

definition commit_compliance_verified ::
    "(nat \<Rightarrow> py_datetime) \<Rightarrow> compliance_change_set \<Rightarrow> compliance_verification \<Rightarrow> (store, ownership_update) act" where
  "commit_compliance_verified clock c v =
     (if cv_status v \<noteq> C_Matched then return no_update
      else if cv_desired v \<noteq> cc_after c \<or> cv_observed v \<noteq> Some (cc_after c) then raise OwnershipNotEstablished
      else bind load_registry (\<lambda>g.
        bind (fold_act (commit_compliance_rule clock) (cc_create c) (dict_of co_id (rg_compliance g), []))
          (\<lambda>(records, added).
        let removed = filter (\<lambda>i. i \<in> set (dict_keys records)) (map cr_id (cc_remove c));
            records' = fold dict_del removed records;
            u = \<lparr>ou_added = sort_key uuid_str added, ou_removed = sort_key uuid_str removed\<rparr>
        in if ou_added u \<noteq> [] \<or> ou_removed u \<noteq> []
           then bind (lift (make_registry (rg_resources g) (rg_lists g)
                (sort_key (\<lambda>r. uuid_hex (co_id r)) (dict_values records'))))
              (\<lambda>g'. andthen (save_registry g') (return u))
           else return u)))"

end
