(* ===== verification/Lifecycle_Properties.thy ===== *)
theory Lifecycle_Properties
  imports Ownership_Lifecycle
begin

text \<open>What the ownership commits do to the registry, branch by branch.\<close>

section \<open>The registry is written once, at the end\<close>

lemma fold_act_keeps: "(\<And>x b. x \<in> set xs \<Longrightarrow> keeps P (f x b)) \<Longrightarrow> keeps P (fold_act f xs b)"
  by (induction xs arbitrary: b) (auto intro: keeps_bind)

lemma keeps_registry_basic:
  "keeps (\<lambda>s. st_registry s = g) next_fault"
  "keeps (\<lambda>s. st_registry s = g) load_registry"
  "keeps (\<lambda>s. st_registry s = g) (clock_now clock)"
  by (auto simp: keeps_def next_fault_def load_registry_def clock_now_def act_defs split: list.splits option.splits)

lemma keeps_registry_commit [simp, intro]:
  "keeps (\<lambda>s. st_registry s = g) (commit_pair clock p ev)"
  "keeps (\<lambda>s. st_registry s = g) (commit_auxiliary clock q ev)"
  "keeps (\<lambda>s. st_registry s = g) (commit_compliance_rule clock rule cev)"
  unfolding commit_pair_def commit_auxiliary_def commit_compliance_rule_def
  by (auto intro!: keeps_bind keeps_registry_basic split: prod.splits option.splits)

lemma keeps_registryD:
  "keeps (\<lambda>s. st_registry s = g) m \<Longrightarrow> m s = (r, t) \<Longrightarrow> st_registry s = g \<Longrightarrow> st_registry t = g"
  by (drule keepsD; simp)

lemma keeps_registry_loops:
  "keeps (\<lambda>s. st_registry s = g) (fold_act (commit_pair clock) ps e)"
  "keeps (\<lambda>s. st_registry s = g) (fold_act (commit_auxiliary clock) qs e)"
  "keeps (\<lambda>s. st_registry s = g) (fold_act (commit_compliance_rule clock) rules f)"
  by (intro fold_act_keeps keeps_registry_commit)+

lemma fold_act_Inr:
  assumes "fold_act f xs b s = (Inr c, t)" and "I b"
    and "\<And>x b s c t. x \<in> set xs \<Longrightarrow> I b \<Longrightarrow> f x b s = (Inr c, t) \<Longrightarrow> I c \<and> Q x c \<and> (\<forall>y. Q y b \<longrightarrow> Q y c)"
  shows "I c \<and> (\<forall>x \<in> set xs. Q x c) \<and> (\<forall>y. Q y b \<longrightarrow> Q y c)"
  using assms
proof (induction xs arbitrary: b s)
  case (Cons x xs)
  from Cons.prems(1) obtain d u where d: "f x b s = (Inr d, u)" "fold_act f xs d u = (Inr c, t)"
    by (auto simp: bind_Inr_iff)
  have x: "I d \<and> Q x d \<and> (\<forall>y. Q y b \<longrightarrow> Q y d)" using Cons.prems(2) d(1) by (intro Cons.prems(3)) auto
  have "I c \<and> (\<forall>x \<in> set xs. Q x c) \<and> (\<forall>y. Q y d \<longrightarrow> Q y c)"
  proof (rule Cons.IH [OF d(2)])
    show "I d" using x by simp
    fix z b s c t
    assume "z \<in> set xs" "I b" "f z b s = (Inr c, t)"
    then show "I c \<and> Q z c \<and> (\<forall>y. Q y b \<longrightarrow> Q y c)" by (intro Cons.prems(3)) auto
  qed
  with x show ?case by auto
qed simp

text \<open>A commit that returns went through these steps.\<close>

lemma commit_verifiedE:
  assumes "commit_verified clock c v s = (Inr u, s')" and "vr_status v = Matched"
  obtains g s1 created removed_ids ev s2 ev' s3 where
    "vr_desired v = ch_after c" "vr_observed v = Some (ch_after c)"
    "load_registry s = (Inr g, s1)" "created_resources c = Inr created"
    "fully_removed_ids c = Inr removed_ids"
    "fold_act (commit_pair clock) (fst created)
       (dict_of or_id (rg_resources g), dict_of lr_id (rg_lists g), []) s1 = (Inr ev, s2)"
    "fold_act (commit_auxiliary clock) (snd created) ev s2 = (Inr ev', s3)"
    "settle_commit c g removed_ids ev' s3 = (Inr u, s')"
proof -
  from assms have v: "vr_desired v = ch_after c" "vr_observed v = Some (ch_after c)"
    by (auto simp: commit_verified_def split: if_splits)
  with assms have "\<exists>g s1 created removed_ids ev s2 ev' s3. load_registry s = (Inr g, s1) \<and>
      created_resources c = Inr created \<and> fully_removed_ids c = Inr removed_ids \<and>
      fold_act (commit_pair clock) (fst created)
        (dict_of or_id (rg_resources g), dict_of lr_id (rg_lists g), []) s1 = (Inr ev, s2) \<and>
      fold_act (commit_auxiliary clock) (snd created) ev s2 = (Inr ev', s3) \<and>
      settle_commit c g removed_ids ev' s3 = (Inr u, s')"
    by (fastforce simp: commit_verified_def bind_Inr_iff)
  then show thesis using that v by blast
qed

lemma load_registry_Inr:
  "load_registry s = (Inr g, s1) \<Longrightarrow> g = (case st_registry s of None \<Rightarrow> empty_registry | Some g \<Rightarrow> g) \<and>
     st_registry s1 = st_registry s"
  by (auto simp: load_registry_def next_fault_def act_defs split: list.splits option.splits)

text \<open>A save that fails leaves the registry as it was or as it was to be.\<close>

lemma save_registry_cases:
  "save_registry g s = (r, t) \<Longrightarrow> st_registry t = Some g \<or> st_registry t = st_registry s \<and> (\<exists>e. r = Inl e)"
  by (auto simp: save_registry_def next_fault_def act_defs split: list.splits option.splits store_fault.splits)

lemma save_registry_Inr: "save_registry g s = (Inr u, t) \<Longrightarrow> st_registry t = Some g"
  by (drule save_registry_cases) simp

lemma settle_commit_Inr:
  assumes "settle_commit c g rem (records, alists, added) s = (Inr u, s')"
  defines "gone \<equiv> filter (\<lambda>i. i \<in> set (dict_keys records)) rem"
    and "aux \<equiv> remdups (filter (\<lambda>i. i \<in> set (dict_keys (dict_of lr_id (rg_lists g)))) (map al_id (ch_lists_remove c)))"
  shows "added = [] \<and> gone = [] \<and> filter (\<lambda>i. i \<in> set (dict_keys alists)) aux = [] \<and> st_registry s' = st_registry s \<or>
    (\<exists>g'. make_registry (sort_key or_id (dict_values (fold dict_del gone records)))
        (sort_key lr_id (dict_values (fold dict_del aux alists))) (rg_compliance g) = Inr g' \<and>
      st_registry s' = Some g')"
proof -
  have sort_empty: "sort_key uuid_str xs = [] \<longleftrightarrow> xs = []" for xs
    by (metis length_0_conv length_sort)
  show ?thesis
    using assms(1) unfolding settle_commit_def Let_def prod.case gone_def [symmetric] aux_def [symmetric]
    by (auto simp: sort_empty sort_by_hex act_simps dest: save_registry_Inr split: if_splits)
qed

section \<open>What the loops gather\<close>

lemma fold_res_Inr:
  assumes "fold_res f xs b = Inr c" and "I b"
    and "\<And>x b c. x \<in> set xs \<Longrightarrow> I b \<Longrightarrow> f x b = Inr c \<Longrightarrow> I c \<and> Q x c \<and> (\<forall>y. Q y b \<longrightarrow> Q y c)"
  shows "I c \<and> (\<forall>x \<in> set xs. Q x c) \<and> (\<forall>y. Q y b \<longrightarrow> Q y c)"
  using assms
proof (induction xs arbitrary: b)
  case (Cons x xs)
  from Cons.prems(1) obtain d where d: "f x b = Inr d" "fold_res f xs d = Inr c" by auto
  have x: "I d \<and> Q x d \<and> (\<forall>y. Q y b \<longrightarrow> Q y d)" using Cons.prems(2) d(1) by (intro Cons.prems(3)) auto
  have "I c \<and> (\<forall>x \<in> set xs. Q x c) \<and> (\<forall>y. Q y d \<longrightarrow> Q y c)"
  proof (rule Cons.IH [OF d(2)])
    show "I d" using x by simp
    fix z b c
    assume "z \<in> set xs" "I b" "f z b = Inr c"
    then show "I c \<and> Q z c \<and> (\<forall>y. Q y b \<longrightarrow> Q y c)" by (intro Cons.prems(3)) auto
  qed
  with x show ?case by auto
qed simp

lemma created_pairs:
  assumes "fold_res (created_pair rules alists) is ([], []) = Inr (pairs, names)"
    and "i \<in> set is" and "dict_get rules i = Some r"
  shows "\<exists>l. dict_get alists i = Some l \<and> br_lists r = [al_name l] \<and> (i, br_name r, al_name l, br_ou r) \<in> set pairs"
proof -
  define Q where "Q = (\<lambda>i (acc :: (uuid \<times> string \<times> string \<times> string) list \<times> (string, string) dict).
    \<exists>r l. dict_get rules i = Some r \<and> dict_get alists i = Some l \<and> br_lists r = [al_name l] \<and>
      (i, br_name r, al_name l, br_ou r) \<in> set (fst acc))"
  have "True \<and> (\<forall>i \<in> set is. Q i (pairs, names)) \<and> (\<forall>y. Q y ([], []) \<longrightarrow> Q y (pairs, names))"
    by (rule fold_res_Inr [OF assms(1)]) (auto simp: created_pair_def Q_def split: option.splits if_splits)
  then show ?thesis using assms(2,3) by (auto simp: Q_def)
qed

lemma created_resources_pair:
  assumes "created_resources c = Inr created" and "distinct (map br_id (ch_rules_create c))"
    and "r \<in> set (ch_rules_create c)"
  shows "\<exists>l \<in> set (ch_lists_create c). al_id l = br_id r \<and> br_lists r = [al_name l] \<and>
    (br_id r, br_name r, al_name l, br_ou r) \<in> set (fst created)"
proof -
  let ?rules = "dict_of br_id (ch_rules_create c)" and ?lists = "dict_of al_id (ch_lists_create c)"
  from assms(1) obtain pairs names where
    f: "fold_res (created_pair ?rules ?lists) (sort_key uuid_str (dict_keys ?rules)) ([], []) = Inr (pairs, names)"
    and "fst created = pairs"
    by (auto simp: created_resources_def Let_def and_then_Inr_iff split: if_splits)
  have r: "dict_get ?rules (br_id r) = Some r" using dict_of_get [OF assms(2,3)] .
  then have "br_id r \<in> set (dict_keys ?rules)" by (metis list.set_map map_of_eq_None_iff option.distinct(1))
  then obtain l where l: "dict_get ?lists (br_id r) = Some l" "br_lists r = [al_name l]"
      "(br_id r, br_name r, al_name l, br_ou r) \<in> set pairs"
    using created_pairs [OF f _ r] by auto
  have "al_id l = br_id r" using keyed_get [OF keyed_dict_of l(1)] .
  moreover have "l \<in> set (ch_lists_create c)"
    using dict_of_values [of al_id "ch_lists_create c"] map_of_SomeD [OF l(1)] by force
  ultimately show ?thesis using l \<open>fst created = pairs\<close> by blast
qed

text \<open>The evidence a created pair leaves.\<close>

definition paired :: "uuid \<times> string \<times> string \<times> string \<Rightarrow> (uuid, ownership_record) dict \<Rightarrow> bool" where
  "paired p records \<longleftrightarrow> (case p of (i, rule_name, list_name, target_ou) \<Rightarrow>
     \<exists>r. dict_get records i = Some r \<and> or_rule_name r = rule_name \<and> or_list_name r = list_name \<and> or_ou r = target_ou)"

lemma commit_pair_Inr:
  assumes "commit_pair clock p ev s = (Inr ev', t)" and "keyed or_id (fst ev)"
  shows "keyed or_id (fst ev') \<and> paired p (fst ev') \<and> (\<forall>q. paired q (fst ev) \<longrightarrow> paired q (fst ev')) \<and>
    fst (snd ev') = fst (snd ev) \<and> (\<forall>i r. dict_get (fst ev) i = Some r \<longrightarrow> dict_get (fst ev') i = Some r) \<and>
    (fst ev' = fst ev \<or> snd (snd ev') \<noteq> []) \<and> (snd (snd ev) \<noteq> [] \<longrightarrow> snd (snd ev') \<noteq> [])"
proof (cases ev; cases p)
  fix records alists added i rn ln ou
  assume ev: "ev = (records, alists, added)" and p: "p = (i, rn, ln, ou)"
  then obtain now proposed where new: "proposed = \<lparr>or_id = i, or_rule_name = rn, or_list_name = ln,
      or_ou = ou, or_created = now, or_rule_snapshot = None, or_list_snapshot = None\<rparr>"
    and outcome: "case dict_get records i of
       Some existing \<Rightarrow> same_resource_names existing proposed \<and> ev' = ev
     | None \<Rightarrow> ev' = (dict_put i proposed records, alists, added @ [i])"
    using assms(1) by (fastforce simp: commit_pair_def act_simps check_ownership_record_def split: option.splits if_splits)
  show ?thesis
  proof (cases "dict_get records i")
    case None
    then have "i \<notin> set (dict_keys records)" by (simp add: map_of_eq_None_iff)
    then show ?thesis using None outcome assms(2) unfolding ev p
      by (auto simp: paired_def new update_conv' intro!: keyed_put split: prod.splits)
  next
    case (Some r)
    then show ?thesis using outcome assms(2) unfolding ev p
      by (auto simp: paired_def new same_resource_names_def)
  qed
qed

lemma commit_auxiliary_Inr:
  assumes "commit_auxiliary clock p ev s = (Inr ev', t)" and "keyed lr_id (fst (snd ev))"
  shows "fst ev' = fst ev \<and> keyed lr_id (fst (snd ev')) \<and>
    (\<forall>i r. dict_get (fst (snd ev)) i = Some r \<longrightarrow> dict_get (fst (snd ev')) i = Some r) \<and>
    (snd (snd ev) \<noteq> [] \<longrightarrow> snd (snd ev') \<noteq> [])"
proof (cases ev; cases p)
  fix records alists added i name ou
  assume ev: "ev = (records, alists, added)" and p: "p = (i, name, ou)"
  then obtain now proposed where new: "proposed = \<lparr>lr_id = i, lr_name = name, lr_ou = ou,
      lr_purpose = For_Bypass, lr_created = now, lr_snapshot = None\<rparr>"
    and outcome: "ev' = ev \<or> dict_get alists i = None \<and> ev' = (records, dict_put i proposed alists, added @ [i])"
    using assms(1) by (fastforce simp: commit_auxiliary_def act_simps check_list_record_def split: option.splits if_splits)
  then show ?thesis
    using assms(2) unfolding ev by (auto simp: update_conv' new intro!: keyed_put)
qed

lemma get_fold_del: "dict_get (fold dict_del ks d) k = (if k \<in> set ks then None else dict_get d k)"
  by (induction ks arbitrary: d) (auto simp: delete_conv')

lemma keyed_fold_del: "keyed key d \<Longrightarrow> keyed key (fold dict_del ks d)"
  by (induction ks arbitrary: d) (auto intro: keyed_del)

text \<open>The state of the evidence when it is settled.\<close>

lemma commit_evidence:
  assumes "fold_act (commit_pair clock) pairs (records, alists, []) s1 = (Inr ev, s2)"
    and "fold_act (commit_auxiliary clock) auxiliary ev s2 = (Inr (records', alists', added), s3)"
    and "keyed or_id records" and "keyed lr_id alists"
  shows "keyed or_id records' \<and> keyed lr_id alists' \<and> (\<forall>p \<in> set pairs. paired p records') \<and>
    (\<forall>i r. dict_get records i = Some r \<longrightarrow> dict_get records' i = Some r) \<and> (added = [] \<longrightarrow> records' = records)"
proof -
  define I where "I = (\<lambda>ev :: evidence. keyed or_id (fst ev) \<and> keyed lr_id (fst (snd ev)) \<and>
    (\<forall>i r. dict_get records i = Some r \<longrightarrow> dict_get (fst ev) i = Some r) \<and>
    (snd (snd ev) = [] \<longrightarrow> fst ev = records))"
  have one: "I ev \<and> (\<forall>p \<in> set pairs. paired p (fst ev)) \<and> (\<forall>q. paired q (fst ((records, alists, []) :: evidence)) \<longrightarrow> paired q (fst ev))"
  proof (rule fold_act_Inr [OF assms(1), where I = I and Q = "\<lambda>p ev. paired p (fst ev)"])
    show "I (records, alists, [])" using assms(3,4) by (simp add: I_def)
    fix p b s and c :: evidence and t
    assume b: "I b" and c: "commit_pair clock p b s = (Inr c, t)"
    have k: "keyed or_id (fst b)" using b by (simp add: I_def)
    note step = commit_pair_Inr [OF c k]
    have "I c" using b step unfolding I_def by (intro conjI) (auto simp: eq_commute)
    with step show "I c \<and> paired p (fst c) \<and> (\<forall>q. paired q (fst b) \<longrightarrow> paired q (fst c))" by blast
  qed
  have two: "I (records', alists', added) \<and> fst (records', alists', added) = fst ev"
  proof (rule fold_act_Inr [OF assms(2), where I = "\<lambda>e. I e \<and> fst e = fst ev" and Q = "\<lambda>_ _. True", THEN conjunct1])
    show "I ev \<and> fst ev = fst ev" using one by simp
    fix p b s c t
    assume b: "I b \<and> fst b = fst ev" and c: "commit_auxiliary clock p b s = (Inr c, t)"
    have k: "keyed lr_id (fst (snd b))" using b by (simp add: I_def)
    have "I c \<and> fst c = fst ev" using b commit_auxiliary_Inr [OF c k] unfolding I_def by auto
    then show "(I c \<and> fst c = fst ev) \<and> True \<and> (\<forall>y. True \<longrightarrow> True)" by simp
  qed
  then show ?thesis using one by (auto simp: I_def)
qed

section \<open>What a commit promises\<close>

lemma keyed_find:
  assumes "keyed key d" and "dict_get d i = Some r"
  shows "r \<in> set (sort_key key (dict_values d)) \<and> key r = i"
  using assms keyed_get keyed_values_iff [OF assms(1), of r] by fastforce

lemma fully_removed_from: "fully_removed_ids c = Inr ks \<Longrightarrow> set ks \<subseteq> br_id ` set (ch_rules_remove c) \<inter> al_id ` set (ch_lists_remove c)"
  by (auto simp: fully_removed_ids_def Let_def split: if_splits)

lemma commit_keeps_or_owns:
  assumes "wf_blocked_state a" and "wf_blocked_state b" and c: "c = calculate_change_set a b"
    and run: "commit_verified clock c v s = (Inr u, s')" and m: "vr_status v = Matched"
    and g: "st_registry s = Some g" and wf: "wf_registry g"
  shows "\<exists>g'. st_registry s' = Some g' \<and> wf_registry g' \<and> rg_compliance g' = rg_compliance g \<and>
    (\<forall>x \<in> set (rg_resources g). or_id x \<notin> br_id ` set (ch_rules_remove c) \<longrightarrow> x \<in> set (rg_resources g')) \<and>
    (\<forall>r \<in> set (ch_rules_create c). \<exists>l \<in> set (ch_lists_create c). \<exists>x \<in> set (rg_resources g').
       al_id l = br_id r \<and> br_lists r = [al_name l] \<and> or_id x = br_id r \<and> or_rule_name x = br_name r \<and>
       or_list_name x = al_name l \<and> or_ou x = br_ou r)"
proof -
  have ids: "distinct (map br_id (bs_rules a))" "distinct (map br_id (bs_rules b))"
    using assms(1,2) by (simp_all add: wf_blocked_state_def)
  have create: "distinct (map br_id (ch_rules_create c))"
    unfolding c calculate_change_set_fields using rule_diff_created_distinct [OF ids] .
  have disjoint: "br_id r \<notin> br_id ` set (ch_rules_remove c)" if "r \<in> set (ch_rules_create c)" for r
    using rule_diff.disjoint_identities(1) [OF ids] that unfolding c calculate_change_set_fields by blast
  from run m obtain g0 s1 created ks ev s2 ev' s3 where
    load: "load_registry s = (Inr g0, s1)" and res: "created_resources c = Inr created"
    and rem: "fully_removed_ids c = Inr ks"
    and pairs: "fold_act (commit_pair clock) (fst created) (dict_of or_id (rg_resources g0), dict_of lr_id (rg_lists g0), []) s1 = (Inr ev, s2)"
    and aux: "fold_act (commit_auxiliary clock) (snd created) ev s2 = (Inr ev', s3)"
    and settle: "settle_commit c g0 ks ev' s3 = (Inr u, s')"
    by (rule commit_verifiedE)
  obtain records alists added where ev': "ev' = (records, alists, added)" by (cases ev')
  have g0: "g0 = g" "st_registry s1 = Some g" using load_registry_Inr [OF load] g by auto
  have kept: "st_registry s3 = Some g"
    using keeps_registryD [OF keeps_registry_loops(2) aux keeps_registryD [OF keeps_registry_loops(1) pairs g0(2)]] .
  have distinct_ids: "distinct (map or_id (rg_resources g))" "distinct (map lr_id (rg_lists g))"
    using wf_registry_parts [OF wf] by simp_all
  note evidence = commit_evidence [OF pairs aux [unfolded ev'] keyed_dict_of keyed_dict_of, unfolded g0(1)]
  let ?gone = "filter (\<lambda>i. i \<in> set (dict_keys records)) ks"
  have new: "\<exists>l \<in> set (ch_lists_create c). al_id l = br_id r \<and> br_lists r = [al_name l] \<and>
      paired (br_id r, br_name r, al_name l, br_ou r) records" if r: "r \<in> set (ch_rules_create c)" for r
    using created_resources_pair [OF res create r] evidence by blast
  have old: "dict_get records (or_id x) = Some x" if "x \<in> set (rg_resources g)" for x
    using dict_of_get [OF distinct_ids(1) that] evidence by blast
  have gone: "set ?gone \<subseteq> br_id ` set (ch_rules_remove c)" using fully_removed_from [OF rem] by auto
  from settle_commit_Inr [OF settle [unfolded ev' g0(1)]] consider
      "added = []" "?gone = []" "st_registry s' = st_registry s3"
    | g' ls where "make_registry (sort_key or_id (dict_values (fold dict_del ?gone records))) ls (rg_compliance g) = Inr g'"
      "st_registry s' = Some g'" by blast
  then show ?thesis
  proof cases
    case 1
    have "records = dict_of or_id (rg_resources g)" using evidence 1(1) by blast
    then have "r \<in> set (rg_resources g)" if "dict_get records i = Some r" for i r
      using that dict_of_get_iff [OF distinct_ids(1)] by simp
    then show ?thesis using 1(3) kept wf new by (fastforce simp: paired_def dest: keyed_get [rotated] intro: evidence [THEN conjunct1])
  next
    case (2 g' ls)
    from 2(1) have g': "rg_resources g' = sort_key or_id (dict_values (fold dict_del ?gone records))"
      "rg_compliance g' = rg_compliance g" "wf_registry g'"
      by (auto simp: make_registry_Inr_iff)
    have keyed: "keyed or_id (fold dict_del ?gone records)" using evidence keyed_fold_del by blast
    have found: "r \<in> set (rg_resources g') \<and> or_id r = i" if "dict_get records i = Some r" "i \<notin> set ?gone" for i r
      unfolding g'(1) by (rule keyed_find [OF keyed]) (simp only: get_fold_del that if_False)
    have "x \<in> set (rg_resources g')" if "x \<in> set (rg_resources g)" "or_id x \<notin> br_id ` set (ch_rules_remove c)" for x
      using found [OF old [OF that(1)]] gone that(2) by blast
    moreover have "\<exists>l \<in> set (ch_lists_create c). \<exists>x \<in> set (rg_resources g').
       al_id l = br_id r \<and> br_lists r = [al_name l] \<and> or_id x = br_id r \<and> or_rule_name x = br_name r \<and>
       or_list_name x = al_name l \<and> or_ou x = br_ou r" if r: "r \<in> set (ch_rules_create c)" for r
    proof -
      from new [OF r] obtain l x where "l \<in> set (ch_lists_create c)" "al_id l = br_id r" "br_lists r = [al_name l]"
        "dict_get records (br_id r) = Some x" "or_rule_name x = br_name r" "or_list_name x = al_name l" "or_ou x = br_ou r"
        by (auto simp: paired_def)
      moreover from this(4) have "x \<in> set (rg_resources g') \<and> or_id x = br_id r"
        using found gone disjoint [OF r] by blast
      ultimately show ?thesis by blast
    qed
    ultimately show ?thesis using 2(2) g'(2,3) by blast
  qed
qed

end
