(* ===== verification/Audit_Log.thy ===== *)
theory Audit_Log
  imports Effects Task_Plan Ownership
begin

text \<open>
  \<^verbatim>\<open>audit/writer.py\<close> and \<^verbatim>\<open>schemas/events.py\<close>: the hash-chained event stream of a
  run directory and its verification. Every call to the file system consumes the next of a
  list of outcomes the environment supplies, so a failure can strike at any of them; when the
  list is used up every further call succeeds.
\<close>

section \<open>Events\<close>

record audit_event =
  ev_run_id :: string
  ev_sequence :: int
  ev_timestamp :: py_datetime
  ev_type :: string
  ev_component :: string
  ev_outcome :: string
  ev_plan_hash :: "string option"
  ev_before_hash :: "string option"
  ev_change_hash :: "string option"
  ev_ownership_id :: "string option"
  ev_ou :: "string option"
  ev_error :: "string option"
  ev_correlation :: "string option"
  ev_previous :: "string option"
  ev_hash :: "string option"

definition is_hex_char :: "char \<Rightarrow> bool" where
  "is_hex_char c \<longleftrightarrow> (let n = (of_char c :: nat) in 48 \<le> n \<and> n \<le> 57 \<or> 97 \<le> n \<and> n \<le> 102)"

definition sha256_digest :: "string \<Rightarrow> bool" where
  "sha256_digest s \<longleftrightarrow> length s = 64 \<and> list_all is_hex_char s"

definition digest_or_none :: "string option \<Rightarrow> bool" where
  "digest_or_none v = (case v of None \<Rightarrow> True | Some s \<Rightarrow> sha256_digest s)"

definition bounded_text :: "string \<Rightarrow> bool" where
  "bounded_text s \<longleftrightarrow> 1 \<le> length s \<and> length s \<le> 100"

definition make_event :: "audit_event \<Rightarrow> audit_event res" where
  "make_event e =
     (if bounded_text (ev_run_id e) \<and> 1 \<le> ev_sequence e \<and> bounded_text (ev_type e) \<and>
         bounded_text (ev_component e) \<and> bounded_text (ev_outcome e) \<and>
         digest_or_none (ev_plan_hash e) \<and> digest_or_none (ev_before_hash e) \<and>
         digest_or_none (ev_change_hash e) \<and> digest_or_none (ev_previous e) \<and>
         digest_or_none (ev_hash e) \<and> is_aware (ev_timestamp e)
      then Inr e else Inl ValidationError)"

abbreviation dump_text :: "string option \<Rightarrow> json" where
  "dump_text \<equiv> dump_option JStr"

text \<open>The members of a dump without \<^verbatim>\<open>event_hash\<close>, and the whole dump.\<close>

definition event_members :: "(py_datetime \<Rightarrow> string) \<Rightarrow> audit_event \<Rightarrow> (string \<times> json) list" where
  "event_members isofmt e =
     [(''run_id'', JStr (ev_run_id e)), (''sequence'', JInt (ev_sequence e)),
      (''timestamp'', JStr (isofmt (ev_timestamp e))), (''event_type'', JStr (ev_type e)),
      (''component'', JStr (ev_component e)), (''outcome'', JStr (ev_outcome e)),
      (''plan_hash'', dump_text (ev_plan_hash e)), (''before_state_hash'', dump_text (ev_before_hash e)),
      (''change_set_hash'', dump_text (ev_change_hash e)), (''ownership_id'', dump_text (ev_ownership_id e)),
      (''target_ou'', dump_text (ev_ou e)), (''error_code'', dump_text (ev_error e)),
      (''correlation_id'', dump_text (ev_correlation e)), (''previous_event_hash'', dump_text (ev_previous e))]"

definition canonical_event_json :: "(py_datetime \<Rightarrow> string) \<Rightarrow> audit_event \<Rightarrow> string" where
  "canonical_event_json isofmt e = json_dumps '','' '':'' (JObj (event_members isofmt e))"

text \<open>\<^verbatim>\<open>event.model_dump_json(exclude_none=False)\<close>, without the newline.\<close>

definition event_line :: "(py_datetime \<Rightarrow> string) \<Rightarrow> audit_event \<Rightarrow> string" where
  "event_line isofmt e = model_json (JObj (event_members isofmt e @ [(''event_hash'', dump_text (ev_hash e))]))"

section \<open>The writer\<close>

text \<open>
  What a call to the file system does: it succeeds; it raises after some text has reached the
  file (for an append) or only the temporary file (for a replacement); it raises after the
  file was written or replaced; or the directory cannot be made and nothing is written.
\<close>

datatype disk_outcome = Done | Torn string | Written_Then_Failed | No_Directory

record audit_writer =
  aw_stream :: string
  aw_artifacts :: "(string, string) dict"
  aw_last_sequence :: int
  aw_last_hash :: "string option"
  aw_run_id :: "string option"
  aw_disk :: "disk_outcome list"

text \<open>\<^verbatim>\<open>__init__\<close>: the directory must be new.\<close>

definition new_writer :: "bool \<Rightarrow> disk_outcome list \<Rightarrow> audit_writer res" where
  "new_writer directory_exists disk =
     (if directory_exists then Inl OSError
      else Inr \<lparr>aw_stream = [], aw_artifacts = [], aw_last_sequence = 0, aw_last_hash = None,
        aw_run_id = None, aw_disk = disk\<rparr>)"

definition next_disk :: "(audit_writer, disk_outcome) act" where
  "next_disk w = (case aw_disk w of [] \<Rightarrow> (Inr Done, w) | d # ds \<Rightarrow> (Inr d, w\<lparr>aw_disk := ds\<rparr>))"

fun append_text :: "string \<Rightarrow> disk_outcome \<Rightarrow> (audit_writer, unit) act" where
  "append_text line Done = update (\<lambda>w. w\<lparr>aw_stream := aw_stream w @ line\<rparr>)"
| "append_text line (Torn part) =
     andthen (update (\<lambda>w. w\<lparr>aw_stream := aw_stream w @ part\<rparr>)) (raise AuditWriteFailure)"
| "append_text line Written_Then_Failed =
     andthen (update (\<lambda>w. w\<lparr>aw_stream := aw_stream w @ line\<rparr>)) (raise AuditWriteFailure)"
| "append_text line No_Directory = raise AuditWriteFailure"

definition append_event ::
    "(string \<Rightarrow> string) \<Rightarrow> (py_datetime \<Rightarrow> string) \<Rightarrow> audit_event \<Rightarrow> (audit_writer, audit_event) act" where
  "append_event H isofmt e = bind (get id) (\<lambda>w.
     if ev_sequence e \<noteq> aw_last_sequence w + 1 then raise AuditWriteFailure
     else if aw_run_id w \<noteq> None \<and> Some (ev_run_id e) \<noteq> aw_run_id w then raise AuditWriteFailure
     else if ev_previous e \<noteq> None \<and> ev_previous e \<noteq> aw_last_hash w then raise AuditWriteFailure
     else
       let unhashed = e\<lparr>ev_previous := aw_last_hash w, ev_hash := None\<rparr>;
           event_hash = H (canonical_event_json isofmt unhashed);
           finalized = unhashed\<lparr>ev_hash := Some event_hash\<rparr>
       in bind next_disk (\<lambda>d.
          andthen (append_text (event_line isofmt finalized @ [CHR 0x0A]) d)
          (andthen (update (\<lambda>w. w\<lparr>aw_last_sequence := ev_sequence finalized,
              aw_last_hash := Some event_hash, aw_run_id := Some (ev_run_id finalized)\<rparr>))
          (return finalized))))"

definition next_sequence :: "audit_writer \<Rightarrow> int" where
  "next_sequence w = aw_last_sequence w + 1"

text \<open>
  \<^verbatim>\<open>_safe_target\<close> on a POSIX path and a run directory without symbolic links: the path's
  parts are its components without the empty ones and the dots; the target is below the run
  directory when there is a part.
\<close>

definition path_parts :: "string \<Rightarrow> string list" where
  "path_parts p = filter (\<lambda>c. c \<noteq> [] \<and> c \<noteq> ''.'') (py_split (CHR 0x2F) p)"

definition safe_target :: "string \<Rightarrow> string list res" where
  "safe_target p =
     (if py_startswith p ''/'' \<or> ''..'' \<in> set (path_parts p) then Inl AuditWriteFailure
      else if path_parts p = [] then Inl AuditWriteFailure
      else Inr (path_parts p))"

definition write_text :: "string \<Rightarrow> string \<Rightarrow> (audit_writer, string) act" where
  "write_text p content = bind (lift (safe_target p)) (\<lambda>parts.
     let target = py_join ''/'' parts;
         put = update (\<lambda>w. w\<lparr>aw_artifacts := dict_put target content (aw_artifacts w)\<rparr>)
     in bind next_disk (\<lambda>d. case d of
          Done \<Rightarrow> andthen put (return target)
        | No_Directory \<Rightarrow> raise OSError
        | Torn _ \<Rightarrow> raise AuditWriteFailure
        | Written_Then_Failed \<Rightarrow> andthen put (raise AuditWriteFailure)))"

section \<open>Verification of a stream\<close>

datatype chain_error = Cannot_Read | Empty_Stream | Invalid_Event nat | Run_Id_Mismatch nat
  | Unexpected_Sequence nat int | Previous_Hash_Mismatch nat | Event_Hash_Mismatch nat

text \<open>
  \<^verbatim>\<open>str.splitlines\<close> for code points below 256. (Reading in text mode turns a carriage
  return into a line feed first; the lines are the same.)
\<close>

definition is_line_break :: "char \<Rightarrow> bool" where
  "is_line_break c \<longleftrightarrow> (of_char c :: nat) \<in> {10, 11, 12, 13, 28, 29, 30, 133}"

fun split_lines :: "string \<Rightarrow> string list" where
  "split_lines [] = []"
| "split_lines [c] = (if is_line_break c then [[]] else [[c]])"
| "split_lines (c # d # cs) =
     (if c = CHR 0x0D \<and> d = CHR 0x0A then [] # split_lines cs
      else if is_line_break c then [] # split_lines (d # cs)
      else case split_lines (d # cs) of [] \<Rightarrow> [[c]] | l # ls \<Rightarrow> (c # l) # ls)"

text \<open>
  The loop over the lines. \<open>read\<close> is \<^verbatim>\<open>AuditEvent.model_validate_json\<close>: the event a line
  holds, or \<open>None\<close> when the library rejects it.
\<close>

record chain_state =
  kv_run_id :: "string option"
  kv_sequence :: int
  kv_previous :: "string option"

definition check_event ::
    "(string \<Rightarrow> string) \<Rightarrow> (py_datetime \<Rightarrow> string) \<Rightarrow> nat \<Rightarrow> audit_event \<Rightarrow> chain_state \<Rightarrow>
      chain_error list \<times> chain_state" where
  "check_event H isofmt n e k =
     ((if kv_run_id k \<noteq> None \<and> Some (ev_run_id e) \<noteq> kv_run_id k then [Run_Id_Mismatch n] else []) @
      (if ev_sequence e \<noteq> kv_sequence k then [Unexpected_Sequence n (ev_sequence e)] else []) @
      (if ev_previous e \<noteq> kv_previous k then [Previous_Hash_Mismatch n] else []) @
      (if ev_hash e \<noteq> Some (H (canonical_event_json isofmt (e\<lparr>ev_hash := None\<rparr>)))
       then [Event_Hash_Mismatch n] else []),
      \<lparr>kv_run_id = (case kv_run_id k of None \<Rightarrow> Some (ev_run_id e) | Some r \<Rightarrow> Some r),
       kv_sequence = ev_sequence e + 1, kv_previous = ev_hash e\<rparr>)"

fun check_lines ::
    "(string \<Rightarrow> string) \<Rightarrow> (py_datetime \<Rightarrow> string) \<Rightarrow> (string \<Rightarrow> audit_event option) \<Rightarrow> nat \<Rightarrow>
      string list \<Rightarrow> chain_state \<Rightarrow> chain_error list" where
  "check_lines H isofmt read n [] k = []"
| "check_lines H isofmt read n (l # ls) k =
     (case read l of
        None \<Rightarrow> Invalid_Event n # check_lines H isofmt read (Suc n) ls k
      | Some e \<Rightarrow> (case check_event H isofmt n e k of (errors, k') \<Rightarrow>
          errors @ check_lines H isofmt read (Suc n) ls k'))"

text \<open>
  \<open>None\<close> is a stream whose reading raises \<^verbatim>\<open>OSError\<close>; \<open>Some\<close> holds the text of
  a stream that is UTF-8. A stream that is not UTF-8 has no value here: reading it raises
  \<^verbatim>\<open>UnicodeDecodeError\<close>, which the code does not catch.
\<close>

definition verify_event_chain ::
    "(string \<Rightarrow> string) \<Rightarrow> (py_datetime \<Rightarrow> string) \<Rightarrow> (string \<Rightarrow> audit_event option) \<Rightarrow>
      string option \<Rightarrow> chain_error list" where
  "verify_event_chain H isofmt read stream =
     (case stream of
        None \<Rightarrow> [Cannot_Read]
      | Some text \<Rightarrow>
          let lines = split_lines text
          in if lines = [] then [Empty_Stream]
             else check_lines H isofmt read 1 lines \<lparr>kv_run_id = None, kv_sequence = 1, kv_previous = None\<rparr>)"

end
