(* ===== verification/Ownership_Recovery.thy ===== *)
theory Ownership_Recovery
  imports Lifecycle_Properties Audit_Log
begin

text \<open>
  \<^verbatim>\<open>audit/manifest.py\<close>, \<^verbatim>\<open>application/ownership_recovery_service.py\<close> and
  \<^verbatim>\<open>application/ownership_health_service.py\<close>: the manifest of a run directory, the recovery
  of one ownership record from an intact audit, and the read-only health report.
\<close>

section \<open>The manifest\<close>

record artifact_digest =
  ad_path :: string
  ad_sha :: string
  ad_size :: nat

text \<open>\<^verbatim>\<open>PurePosixPath.parts\<close> without the root.\<close>

definition safe_relative_path :: "string \<Rightarrow> bool" where
  "safe_relative_path p \<longleftrightarrow> \<not> py_startswith p ''/'' \<and> path_parts p \<noteq> [] \<and> ''..'' \<notin> set (path_parts p) \<and>
     CHR 0x5C \<notin> set p"

definition make_artifact_digest :: "string \<Rightarrow> string \<Rightarrow> nat \<Rightarrow> artifact_digest res" where
  "make_artifact_digest p sha size_bytes =
     (if \<not> sha256_digest sha \<or> \<not> safe_relative_path p then Inl ValidationError
      else Inr \<lparr>ad_path = p, ad_sha = sha, ad_size = size_bytes\<rparr>)"

record run_manifest =
  mn_start :: py_datetime
  mn_end :: py_datetime
  mn_status :: run_status
  mn_artifacts :: "artifact_digest list"

fun instant :: "py_datetime \<Rightarrow> int" where
  "instant (Naive i) = i"
| "instant (Aware i) = i"

definition make_manifest :: "run_manifest \<Rightarrow> run_manifest res" where
  "make_manifest m =
     (if \<not> is_aware (mn_start m) \<or> \<not> is_aware (mn_end m) \<or> instant (mn_end m) < instant (mn_start m) \<or>
         \<not> distinct (map ad_path (mn_artifacts m))
      then Inl ValidationError else Inr m)"

text \<open>
  The regular files of a run directory, by their POSIX path relative to it; links and what
  they lead to are not among them. \<open>H\<close> is the hex digest of a file's bytes.
\<close>

type_synonym run_files = "(string, string) dict"

definition is_manifest_file :: "string \<Rightarrow> bool" where
  "is_manifest_file p \<longleftrightarrow> last (py_split (CHR 0x2F) p) = ''manifest.json''"

definition digest_artifacts :: "(string \<Rightarrow> string) \<Rightarrow> run_files \<Rightarrow> artifact_digest list res" where
  "digest_artifacts H files =
     map_res (\<lambda>(p, content). make_artifact_digest p (H content) (length content))
       (sort_key (\<lambda>(p, content). py_split (CHR 0x2F) p) (filter (\<lambda>(p, content). \<not> is_manifest_file p) files))"

definition verify_manifest :: "(string \<Rightarrow> string) \<Rightarrow> run_files \<Rightarrow> run_manifest \<Rightarrow> string list res" where
  "verify_manifest H files manifest =
     and_then (digest_artifacts H files) (\<lambda>digests.
       let current = dict_of ad_path digests; expected = dict_of ad_path (mn_artifacts manifest)
       in Inr (sort (filter (\<lambda>p. case (dict_get current p, dict_get expected p) of
              (Some c, Some e) \<Rightarrow> ad_sha c \<noteq> ad_sha e \<or> ad_size c \<noteq> ad_size e
            | _ \<Rightarrow> True) (remdups (dict_keys current @ dict_keys expected)))))"

section \<open>Recovery\<close>

text \<open>
  What the recovery reads from an audit directory: each part is \<open>None\<close> when the file is
  missing or its model rejects it.
\<close>

record audit_run =
  ar_manifest :: "run_manifest option"
  ar_files :: run_files
  ar_stream :: "string option"
  ar_after :: "blocked_state option"
  ar_report :: "run_result option"
  ar_change :: "change_set option"

definition validated_manifest ::
    "(string \<Rightarrow> string) \<Rightarrow> (py_datetime \<Rightarrow> string) \<Rightarrow> (string \<Rightarrow> audit_event option) \<Rightarrow> audit_run \<Rightarrow> run_manifest res" where
  "validated_manifest H isofmt read a =
     (case ar_manifest a of
        None \<Rightarrow> Inl OwnershipNotEstablished
      | Some manifest \<Rightarrow>
          and_then (verify_manifest H (ar_files a) manifest) (\<lambda>errors.
          if errors \<noteq> [] \<or> verify_event_chain H isofmt read (ar_stream a) \<noteq> []
          then Inl OwnershipNotEstablished else Inr manifest))"

definition audited_after_state :: "audit_run \<Rightarrow> blocked_state res" where
  "audited_after_state a = (case ar_after a of None \<Rightarrow> Inl OwnershipNotEstablished | Some s \<Rightarrow> Inr s)"

definition exact_pair :: "blocked_state \<Rightarrow> uuid \<Rightarrow> (blocked_rule \<times> address_list) res" where
  "exact_pair s i =
     (case (filter (\<lambda>r. br_id r = i) (bs_rules s), filter (\<lambda>l. al_id l = i) (bs_lists s)) of
        ([rule], [l]) \<Rightarrow> if br_lists rule \<noteq> [al_name l] then Inl OwnershipNotEstablished else Inr (rule, l)
      | _ \<Rightarrow> Inl OwnershipNotEstablished)"

definition has_exact_pair :: "blocked_state \<Rightarrow> uuid \<Rightarrow> bool" where
  "has_exact_pair s i = (case exact_pair s i of Inl _ \<Rightarrow> False | Inr _ \<Rightarrow> True)"

definition verified_creation_pair ::
    "audit_run \<Rightarrow> run_manifest \<Rightarrow> blocked_state \<Rightarrow> uuid \<Rightarrow> (blocked_rule \<times> address_list) res" where
  "verified_creation_pair a manifest audited i =
     (if mn_status manifest \<notin> {Applied_UI_Verified, Applied_Pending_Propagation} then Inl OwnershipNotEstablished
      else case (ar_report a, ar_change a) of
        (Some report, Some c) \<Rightarrow>
          if rr_status report \<noteq> mn_status manifest \<or> ch_after c \<noteq> audited then Inl OwnershipNotEstablished
          else (case (filter (\<lambda>r. br_id r = i) (ch_rules_create c), filter (\<lambda>l. al_id l = i) (ch_lists_create c)) of
              ([rule], [l]) \<Rightarrow>
                and_then (exact_pair audited i) (\<lambda>pair.
                  if pair \<noteq> (rule, l) then Inl OwnershipNotEstablished else Inr pair)
            | _ \<Rightarrow> Inl OwnershipNotEstablished)
      | _ \<Rightarrow> Inl OwnershipNotEstablished)"

definition has_verified_creation ::
    "(string \<Rightarrow> string) \<Rightarrow> (py_datetime \<Rightarrow> string) \<Rightarrow> (string \<Rightarrow> audit_event option) \<Rightarrow> audit_run \<Rightarrow>
      blocked_state \<Rightarrow> uuid \<Rightarrow> bool res" where
  "has_verified_creation H isofmt read a observed i =
     (case and_then (validated_manifest H isofmt read a) (\<lambda>manifest.
           and_then (audited_after_state a) (\<lambda>audited.
           and_then (verified_creation_pair a manifest audited i) (\<lambda>audited_pair.
           and_then (exact_pair observed i) (\<lambda>observed_pair. Inr (audited_pair = observed_pair))))) of
        Inl e \<Rightarrow> if e = OwnershipNotEstablished then Inr False else Inl e
      | Inr b \<Rightarrow> Inr b)"

text \<open>\<^verbatim>\<open>str.upper\<close> of a hexadecimal string.\<close>

definition hex_upper :: "string \<Rightarrow> string" where
  "hex_upper = map (\<lambda>c. let n = (of_char c :: nat) in if 97 \<le> n \<and> n \<le> 122 then char_of (n - 32) else c)"

definition recovery_phrase :: "uuid \<Rightarrow> string" where
  "recovery_phrase i = ''RECOVER '' @ hex_upper (take 8 (uuid_hex i))"

definition recover ::
    "(string \<Rightarrow> string) \<Rightarrow> (py_datetime \<Rightarrow> string) \<Rightarrow> (string \<Rightarrow> audit_event option) \<Rightarrow> uuid \<Rightarrow> blocked_state \<Rightarrow>
      audit_run \<Rightarrow> string \<Rightarrow> (store, ownership_record) act" where
  "recover H isofmt read i current_state a confirmation =
     (if py_strip confirmation \<noteq> recovery_phrase i then raise OwnershipNotEstablished
      else bind (lift (validated_manifest H isofmt read a)) (\<lambda>manifest.
        bind (lift (audited_after_state a)) (\<lambda>audited.
        bind (lift (verified_creation_pair a manifest audited i)) (\<lambda>audited_pair.
        bind (lift (exact_pair current_state i)) (\<lambda>current_pair.
        if audited_pair \<noteq> current_pair then raise OwnershipNotEstablished
        else bind load_registry (\<lambda>g.
          if find_record g i \<noteq> None then raise OwnershipNotEstablished
          else bind (lift (check_ownership_record \<lparr>or_id = i, or_rule_name = br_name (fst current_pair),
              or_list_name = al_name (snd current_pair), or_ou = ''/'', or_created = mn_end manifest,
              or_rule_snapshot = None, or_list_snapshot = None\<rparr>)) (\<lambda>record.
            bind (lift (make_registry (sort_key (\<lambda>r. uuid_hex (or_id r)) (rg_resources g @ [record])) [] [])) (\<lambda>g'.
            andthen (save_registry g') (return record)))))))))"

section \<open>Health\<close>

datatype health_status = Healthy | Missing_In_Ui | Registry_Missing | Relationship_Changed | Partial_Creation
  | Unmanaged

record ownership_health =
  oh_id :: "uuid option"
  oh_name :: string
  oh_status :: health_status

definition record_health :: "(uuid, blocked_rule) dict \<Rightarrow> (uuid, address_list) dict \<Rightarrow> ownership_record \<Rightarrow> ownership_health" where
  "record_health rules alists record =
     (case (dict_get rules (or_id record), dict_get alists (or_id record)) of
        (None, None) \<Rightarrow> \<lparr>oh_id = Some (or_id record), oh_name = or_rule_name record, oh_status = Missing_In_Ui\<rparr>
      | (Some rule, Some l) \<Rightarrow>
          \<lparr>oh_id = Some (or_id record), oh_name = br_name rule,
           oh_status = (if br_name rule \<noteq> or_rule_name record \<or> al_name l \<noteq> or_list_name record \<or>
               br_lists rule \<noteq> [al_name l] then Relationship_Changed else Healthy)\<rparr>
      | _ \<Rightarrow> \<lparr>oh_id = Some (or_id record), oh_name = or_rule_name record, oh_status = Partial_Creation\<rparr>)"

definition visible_health :: "(uuid, blocked_rule) dict \<Rightarrow> (uuid, address_list) dict \<Rightarrow> string \<Rightarrow> uuid \<Rightarrow> ownership_health" where
  "visible_health rules alists prefix i =
     (let name = (case dict_get rules i of Some rule \<Rightarrow> br_name rule
            | None \<Rightarrow> (case dict_get alists i of Some l \<Rightarrow> al_name l | None \<Rightarrow> []))
      in \<lparr>oh_id = Some i, oh_name = name,
          oh_status = (if py_startswith name (prefix @ '' '') then Registry_Missing else Unmanaged)\<rparr>)"

definition assess_ownership_health :: "blocked_state \<Rightarrow> registry \<Rightarrow> string \<Rightarrow> ownership_health list" where
  "assess_ownership_health s g prefix =
     (let rules = dict_of br_id (bs_rules s); alists = dict_of al_id (bs_lists s);
          records = dict_of or_id (rg_resources g)
      in map (record_health rules alists) (List.map_filter (dict_get records) (sort_key uuid_str (dict_keys records))) @
         map (visible_health rules alists prefix) (sort_key uuid_str
           (filter (\<lambda>i. i \<notin> set (dict_keys records)) (remdups (dict_keys rules @ dict_keys alists)))) @
         map (\<lambda>n. \<lparr>oh_id = None, oh_name = n, oh_status = Unmanaged\<rparr>) (bs_unmanaged s))"

end
