(* ===== verification/Reports.thy ===== *)
theory Reports
  imports Preconditions Ownership_Recovery
begin

text \<open>
  \<^verbatim>\<open>audit/report.py\<close>, the indented JSON text of the audit artifacts
  (\<^verbatim>\<open>_model_json\<close> of \<^verbatim>\<open>application/workflow_audit_service.py\<close>), and the run manifest
  as it is written. The dumps follow the fields of the result models.
\<close>

section \<open>Indented JSON\<close>

text \<open>The text with an indent of two spaces per level, \<open>n\<close> the level of the value.\<close>

definition new_line :: "nat \<Rightarrow> string" where
  "new_line n = CHR 0x0A # replicate (2 * n) (CHR '' '')"

fun json_pretty :: "nat \<Rightarrow> json \<Rightarrow> string" where
  "json_pretty n JNull = ''null''"
| "json_pretty n (JBool b) = (if b then ''true'' else ''false'')"
| "json_pretty n (JInt i) = show_int i"
| "json_pretty n (JStr s) = json_string s"
| "json_pretty n (JArr xs) =
     (if xs = [] then ''[]''
      else ''['' @ new_line (Suc n) @ py_join ('','' @ new_line (Suc n)) (map (json_pretty (Suc n)) xs) @
        new_line n @ '']'')"
| "json_pretty n (JObj kvs) =
     (if kvs = [] then ''{}''
      else ''{'' @ new_line (Suc n) @
        py_join ('','' @ new_line (Suc n)) (map (\<lambda>(key, v). json_string key @ '': '' @ json_pretty (Suc n) v) kvs) @
        new_line n @ ''}'')"

text \<open>\<^verbatim>\<open>sort_keys=True\<close>.\<close>

fun sort_members :: "json \<Rightarrow> json" where
  "sort_members (JObj kvs) = JObj (sort_key fst (map (\<lambda>(key, v). (key, sort_members v)) kvs))"
| "sort_members (JArr xs) = JArr (map sort_members xs)"
| "sort_members v = v"

definition json_text :: "json \<Rightarrow> string" where
  "json_text v = json_pretty 0 (sort_members v) @ [CHR 0x0A]"

section \<open>Dumps of the results\<close>

fun login_reason_value :: "login_reason \<Rightarrow> string" where
  "login_reason_value Login_Required = ''login_required''"
| "login_reason_value Account_Chooser = ''account_chooser''"
| "login_reason_value Two_Step_Verification = ''two_step_verification''"
| "login_reason_value Session_Expired = ''session_expired''"
| "login_reason_value Identity_Absent = ''identity_absent''"

fun preflight_status_value :: "preflight_status \<Rightarrow> string" where
  "preflight_status_value Ready = ''ready''"
| "preflight_status_value Needs_Login = ''login_required''"
| "preflight_status_value Preflight_Failed = ''failed''"

definition dump_identity :: "preflight_identity \<Rightarrow> json" where
  "dump_identity i = JObj [(''administrator_email'', JStr (pi_email i)),
     (''workspace_domain'', JStr (pi_domain i)), (''target_ou'', JStr (pi_ou i))]"

definition dump_preflight :: "preflight_result \<Rightarrow> json" where
  "dump_preflight r = JObj [(''status'', JStr (preflight_status_value (pf_status r))),
     (''identity'', dump_option dump_identity (pf_identity r)),
     (''reason_code'', dump_option JStr (pf_reason r)),
     (''login_reason'', dump_option (\<lambda>l. JStr (login_reason_value l)) (pf_login r))]"

definition dump_confirmation :: "confirmation_response \<Rightarrow> json" where
  "dump_confirmation c = JObj [(''approved'', JBool (cf_approved c)),
     (''approval_id'', JStr (cf_approval_id c)), (''plan_hash'', JStr (cf_plan_hash c)),
     (''before_state_hash'', JStr (cf_before_hash c)), (''change_set_hash'', JStr (cf_change_hash c))]"

definition dump_desired_result :: "desired_state_result \<Rightarrow> json" where
  "dump_desired_result d = JObj [(''desired_state'', dump_blocked_state (dr_state d)),
     (''notice_affected_entry_count'', JInt (int (dr_notice_affected d)))]"

fun mutation_status_value :: "mutation_status \<Rightarrow> string" where
  "mutation_status_value Completed = ''completed''"
| "mutation_status_value Unchanged = ''unchanged''"
| "mutation_status_value Uncertain = ''uncertain''"
| "mutation_status_value Partial = ''partial''"

definition dump_mutation :: "mutation_result \<Rightarrow> json" where
  "dump_mutation m = JObj [(''status'', JStr (mutation_status_value (mr_status m))),
     (''operation'', JStr (mr_operation m)),
     (''resource_ownership_ids'', JArr (map JStr (mr_ids m))),
     (''error_code'', dump_option JStr (mr_error m))]"

fun difference_kind_value :: "difference_kind \<Rightarrow> string" where
  "difference_kind_value Missing = ''missing''"
| "difference_kind_value Unexpected = ''unexpected''"
| "difference_kind_value Changed = ''changed''"
| "difference_kind_value Duplicate = ''duplicate''"
| "difference_kind_value Unreadable = ''indeterminate''"

definition dump_difference :: "state_difference \<Rightarrow> json" where
  "dump_difference d = JObj [(''path'', JStr (sd_path d)),
     (''kind'', JStr (difference_kind_value (sd_kind d))),
     (''expected'', dump_option JStr (sd_expected d)), (''observed'', dump_option JStr (sd_observed d))]"

fun verification_status_value :: "verification_status \<Rightarrow> string" where
  "verification_status_value Matched = ''matched''"
| "verification_status_value Mismatched = ''mismatched''"
| "verification_status_value Target_Missing = ''target_missing''"
| "verification_status_value Duplicate_Target = ''duplicate_target''"
| "verification_status_value Verification_Indeterminate = ''indeterminate''"

definition dump_verification :: "verification_result \<Rightarrow> json" where
  "dump_verification v = JObj [(''status'', JStr (verification_status_value (vr_status v))),
     (''desired_state'', dump_blocked_state (vr_desired v)),
     (''observed_state'', dump_option dump_blocked_state (vr_observed v)),
     (''differences'', JArr (map dump_difference (vr_differences v)))]"

fun outcome_value :: "reconciliation_outcome \<Rightarrow> string" where
  "outcome_value Desired_State_Present = ''desired_state_present''"
| "outcome_value Mutation_Not_Applied = ''mutation_not_applied''"
| "outcome_value Partially_Applied_Outcome = ''partially_applied''"
| "outcome_value Outcome_Indeterminate = ''indeterminate''"

definition dump_decision :: "reconciliation_decision \<Rightarrow> json" where
  "dump_decision d = JObj [(''outcome'', JStr (outcome_value (rd_outcome d))),
     (''retry_is_safe'', JBool (rd_retry d)),
     (''observed_state'', dump_option dump_blocked_state (rd_observed d)),
     (''explanation_code'', JStr (rd_code d))]"

definition dump_ownership_update :: "ownership_update \<Rightarrow> json" where
  "dump_ownership_update u = JObj [(''added'', JArr (map dump_uuid (ou_added u))),
     (''removed'', JArr (map dump_uuid (ou_removed u)))]"

definition dump_run_result :: "run_result \<Rightarrow> json" where
  "dump_run_result r = JObj [(''status'', JStr (run_status_value (rr_status r))),
     (''requested_changes'', JArr (map JStr (rr_requested r))),
     (''verified_changes'', JArr (map JStr (rr_verified r))),
     (''warnings'', JArr (map JStr (rr_warnings r))),
     (''error_code'', dump_option JStr (rr_error r)),
     (''propagation_pending'', JBool (rr_pending r))]"

section \<open>Reports\<close>

definition render_report_json :: "run_result \<Rightarrow> string" where
  "render_report_json r = json_text (dump_run_result r)"

definition report_section :: "string \<Rightarrow> string list \<Rightarrow> string list" where
  "report_section heading xs = (if xs = [] then [] else [[], ''## '' @ heading, []] @ map (\<lambda>x. ''- '' @ x) xs)"

definition code_quoted :: "string \<Rightarrow> string" where
  "code_quoted s = CHR 0x60 # s @ [CHR 0x60]"

definition render_report_markdown :: "run_result \<Rightarrow> string" where
  "render_report_markdown r =
     (let head_lines = [''# Compliance agent run report'', [],
            ''Status: '' @ code_quoted (run_status_value (rr_status r))];
          error_lines = (case rr_error r of
              Some code \<Rightarrow> if code = [] then [] else [[], ''Error code: '' @ code_quoted code]
            | None \<Rightarrow> [])
      in py_join [CHR 0x0A] (head_lines @ error_lines @ report_section ''Requested changes'' (rr_requested r) @
           report_section ''Verified changes'' (rr_verified r) @ report_section ''Warnings'' (rr_warnings r)) @
         [CHR 0x0A])"

section \<open>The manifest that is written\<close>

record manifest_metadata =
  mm_application_version :: string
  mm_commit :: "string option"
  mm_dirty :: "bool option"
  mm_python_version :: string
  mm_framework_version :: string
  mm_playwright_version :: string
  mm_browser_version :: "string option"
  mm_pydantic_version :: string
  mm_ollama_version :: "string option"
  mm_model_tag :: "string option"
  mm_model_digest :: "string option"
  mm_contract_digest :: "string option"
  mm_system :: string
  mm_start :: py_datetime

definition make_metadata :: "manifest_metadata \<Rightarrow> manifest_metadata res" where
  "make_metadata m =
     (if digest_or_none (mm_contract_digest m) \<and> is_aware (mm_start m) then Inr m else Inl ValidationError)"

definition dump_artifact :: "artifact_digest \<Rightarrow> json" where
  "dump_artifact a = JObj [(''path'', JStr (ad_path a)), (''sha256'', JStr (ad_sha a)),
     (''size_bytes'', JInt (int (ad_size a)))]"

definition dump_manifest :: "(py_datetime \<Rightarrow> string) \<Rightarrow> manifest_metadata \<Rightarrow> run_manifest \<Rightarrow> json" where
  "dump_manifest isofmt d m = JObj [(''application_version'', JStr (mm_application_version d)),
     (''git_commit'', dump_option JStr (mm_commit d)),
     (''dirty_working_tree'', dump_option JBool (mm_dirty d)),
     (''python_version'', JStr (mm_python_version d)),
     (''agent_framework_version'', JStr (mm_framework_version d)),
     (''playwright_version'', JStr (mm_playwright_version d)),
     (''browser_version'', dump_option JStr (mm_browser_version d)),
     (''pydantic_version'', JStr (mm_pydantic_version d)),
     (''ollama_version'', dump_option JStr (mm_ollama_version d)),
     (''model_tag'', dump_option JStr (mm_model_tag d)),
     (''model_digest'', dump_option JStr (mm_model_digest d)),
     (''ui_contract_digest'', dump_option JStr (mm_contract_digest d)),
     (''operating_system'', JStr (mm_system d)),
     (''start_time'', JStr (isofmt (mn_start m))),
     (''end_time'', JStr (isofmt (mn_end m))),
     (''final_status'', JStr (run_status_value (mn_status m))),
     (''artifacts'', JArr (map dump_artifact (mn_artifacts m)))]"

text \<open>
  The regular files of the writer's directory, as bytes: the artifacts and, once an event
  reached it, the stream. Texts are written in UTF-8.
\<close>

definition utf8_char :: "char \<Rightarrow> string" where
  "utf8_char c =
     (let n = (of_char c :: nat)
      in if n < 128 then [c] else [char_of (192 + n div 64), char_of (128 + n mod 64)])"

definition utf8_bytes :: "string \<Rightarrow> string" where
  "utf8_bytes s = concat (map utf8_char s)"

definition writer_files :: "audit_writer \<Rightarrow> run_files" where
  "writer_files w =
     map (\<lambda>(p, content). (p, utf8_bytes content))
       (aw_artifacts w @ (if aw_stream w = [] then [] else [(''run.jsonl'', aw_stream w)]))"

end
