(* ===== verification/Audit_Chain.thy ===== *)
theory Audit_Chain
  imports Audit_Log
begin

text \<open>
  What the hash chain gives: a stream verifies exactly when it holds a chain, a chain is
  determined by its last hash, and what the writer appends is a chain.
\<close>

section \<open>Chains\<close>

definition event_digest :: "(string \<Rightarrow> string) \<Rightarrow> (py_datetime \<Rightarrow> string) \<Rightarrow> audit_event \<Rightarrow> string" where
  "event_digest H isofmt e = H (canonical_event_json isofmt e)"

lemma canonical_event_json_hash [simp]:
  "canonical_event_json isofmt (e\<lparr>ev_hash := h\<rparr>) = canonical_event_json isofmt e"
  by (simp add: canonical_event_json_def event_members_def)

fun linked ::
    "(string \<Rightarrow> string) \<Rightarrow> (py_datetime \<Rightarrow> string) \<Rightarrow> string \<Rightarrow> int \<Rightarrow> string option \<Rightarrow> audit_event list \<Rightarrow> bool" where
  "linked H isofmt run n prev [] = True"
| "linked H isofmt run n prev (e # es) =
     (ev_run_id e = run \<and> ev_sequence e = n \<and> ev_previous e = prev \<and>
      ev_hash e = Some (event_digest H isofmt e) \<and> linked H isofmt run (n + 1) (ev_hash e) es)"

definition last_hash :: "audit_event list \<Rightarrow> string option \<Rightarrow> string option" where
  "last_hash es prev = (if es = [] then prev else ev_hash (last es))"

lemma linked_snoc:
  "linked H isofmt run n prev (es @ [e]) \<longleftrightarrow> linked H isofmt run n prev es \<and> ev_run_id e = run \<and>
     ev_sequence e = n + int (length es) \<and> ev_previous e = last_hash es prev \<and>
     ev_hash e = Some (event_digest H isofmt e)"
  by (induction es arbitrary: n prev) (auto simp: last_hash_def)

lemma linked_sequences_from:
  "linked H isofmt run (int n) prev es \<Longrightarrow> map ev_sequence es = map int [n ..< n + length es]"
proof (induction es arbitrary: n prev)
  case (Cons e es)
  from Cons.prems have "linked H isofmt run (int (Suc n)) (ev_hash e) es" by (auto simp: add.commute)
  from Cons.IH [OF this] Cons.prems show ?case by (simp add: upt_conv_Cons del: upt_Suc)
qed simp

lemma linked_sequences:
  "linked H isofmt run 1 prev (e # es) \<Longrightarrow> map ev_sequence (e # es) = map int [1 ..< 2 + length es]"
  using linked_sequences_from [of H isofmt run 1 prev "e # es"]
  by (simp only: of_nat_1 list.size numeral_2_eq_2 plus_1_eq_Suc add_Suc_right add_Suc add_0 add_0_right)

lemma check_event_ok:
  "fst (check_event H isofmt n e k) = [] \<longleftrightarrow>
     (kv_run_id k = None \<or> kv_run_id k = Some (ev_run_id e)) \<and> ev_sequence e = kv_sequence k \<and>
     ev_previous e = kv_previous k \<and> ev_hash e = Some (event_digest H isofmt e)"
  by (auto simp: check_event_def event_digest_def)

lemma check_event_state:
  "kv_run_id (snd (check_event H isofmt n e k)) = (case kv_run_id k of None \<Rightarrow> Some (ev_run_id e) | Some r \<Rightarrow> Some r)"
  "kv_sequence (snd (check_event H isofmt n e k)) = ev_sequence e + 1"
  "kv_previous (snd (check_event H isofmt n e k)) = ev_hash e"
  by (simp_all add: check_event_def)

lemma ex_map_Some_Cons:
  "(\<exists>es. map f (x # xs) = map Some es \<and> P es) \<longleftrightarrow>
     (\<exists>e es. f x = Some e \<and> map f xs = map Some es \<and> P (e # es))"
proof
  assume "\<exists>es. map f (x # xs) = map Some es \<and> P es"
  then obtain es where es: "map f (x # xs) = map Some es" "P es" by blast
  then show "\<exists>e es. f x = Some e \<and> map f xs = map Some es \<and> P (e # es)" by (cases es) auto
next
  assume "\<exists>e es. f x = Some e \<and> map f xs = map Some es \<and> P (e # es)"
  then obtain e es where "f x = Some e" "map f xs = map Some es" "P (e # es)" by blast
  then show "\<exists>es. map f (x # xs) = map Some es \<and> P es" by (intro exI [of _ "e # es"]) simp
qed

lemma check_lines_ok:
  assumes "kv_run_id k = Some run"
  shows "check_lines H isofmt read n ls k = [] \<longleftrightarrow>
    (\<exists>es. map read ls = map Some es \<and> linked H isofmt run (kv_sequence k) (kv_previous k) es)"
  using assms
proof (induction ls arbitrary: n k)
  case (Cons l ls)
  show ?case
  proof (cases "read l")
    case (Some e)
    let ?k = "snd (check_event H isofmt n e k)"
    have "kv_run_id ?k = Some run" using Cons.prems by (simp add: check_event_state)
    note IH = Cons.IH [OF this]
    have "check_lines H isofmt read n (l # ls) k = [] \<longleftrightarrow>
        fst (check_event H isofmt n e k) = [] \<and> check_lines H isofmt read (Suc n) ls ?k = []"
      using Some by (simp add: case_prod_unfold)
    then show ?thesis
      using Some Cons.prems unfolding IH check_event_ok check_event_state ex_map_Some_Cons by auto
  qed (auto simp: ex_map_Some_Cons)
qed simp

lemma verify_event_chain_ok:
  "verify_event_chain H isofmt read stream = [] \<longleftrightarrow>
     (\<exists>text e es. stream = Some text \<and> map read (split_lines text) = map Some (e # es) \<and>
        linked H isofmt (ev_run_id e) 1 None (e # es))"
proof (cases stream)
  case (Some t)
  show ?thesis
  proof (cases "split_lines t")
    case (Cons l ls)
    let ?k = "\<lparr>kv_run_id = None, kv_sequence = 1, kv_previous = None\<rparr>"
    show ?thesis
    proof (cases "read l")
      case (Some e)
      let ?k' = "snd (check_event H isofmt 1 e ?k)"
      have run: "kv_run_id ?k' = Some (ev_run_id e)" by (simp add: check_event_state)
      have "verify_event_chain H isofmt read stream = [] \<longleftrightarrow>
          fst (check_event H isofmt 1 e ?k) = [] \<and> check_lines H isofmt read (Suc 1) ls ?k' = []"
        using \<open>stream = Some t\<close> Cons Some
        by (simp add: verify_event_chain_def case_prod_unfold)
      then show ?thesis
        using \<open>stream = Some t\<close> Cons Some unfolding check_lines_ok [OF run] check_event_ok check_event_state
        by auto
    qed (use Some Cons in \<open>simp add: verify_event_chain_def\<close>)
  qed (use Some in \<open>simp add: verify_event_chain_def\<close>)
qed (simp add: verify_event_chain_def)

section \<open>A chain is determined by its last hash\<close>

text \<open>The canonical text determines every field of the event but the hash.\<close>

fun flat :: "json \<Rightarrow> bool" where
  "flat (JArr xs) = False"
| "flat (JObj kvs) = False"
| "flat _ = True"

lemma flat_sorted: "flat v \<Longrightarrow> sorted_members v"
  by (cases v) auto

lemma sort_key_map_same:
  assumes "\<And>x. key' (g x) = key x"
  shows "sort_key key' (map g xs) = map g (sort_key key xs)"
proof -
  have insort: "insort_key key' (g x) (map g ys) = map g (insort_key key x ys)" for x ys
    by (induction ys) (auto simp: assms)
  show ?thesis by (induction xs) (simp_all add: insort)
qed

lemma json_dumps_flat:
  assumes "distinct (map fst kvs)" and "list_all (\<lambda>(key, v). flat v) kvs"
  shows "json_dumps a k (JObj kvs) = json_render a k (JObj (sort_key fst kvs))"
proof -
  let ?g = "\<lambda>m. (fst m, json_dumps a k (snd m))"
  have texts: "sort_key fst (map ?g kvs) = map ?g (sort_key fst kvs)"
    by (rule sort_key_map_same) simp
  have "json_dumps a k (snd m) = json_render a k (snd m)" if "m \<in> set (sort_key fst kvs)" for m
    using that assms(2) by (auto simp: list_all_iff intro!: json_dumps_render flat_sorted)
  then have "map (\<lambda>m. json_string (fst m) @ k @ json_dumps a k (snd m)) (sort_key fst kvs) =
      map (\<lambda>m. json_string (fst m) @ k @ json_render a k (snd m)) (sort_key fst kvs)" by simp
  then show ?thesis by (simp add: case_prod_unfold texts comp_def del: map_eq_conv)
qed

lemma json_dumps_flat_inj:
  assumes "distinct (map fst kvs)" "list_all (\<lambda>(key, v). flat v) kvs"
    and "distinct (map fst kvs')" "list_all (\<lambda>(key, v). flat v) kvs'"
    and "json_dumps '','' '':'' (JObj kvs) = json_dumps '','' '':'' (JObj kvs')"
  shows "set kvs = set kvs'"
proof -
  have "JObj (sort_key fst kvs) = JObj (sort_key fst kvs')"
    using json_render_inj [of "[]" "'':''" "JObj (sort_key fst kvs)" "[]" "JObj (sort_key fst kvs')" "[]"]
      assms(5) unfolding json_dumps_flat [OF assms(1,2)] json_dumps_flat [OF assms(3,4)] by simp
  then have "set (sort_key fst kvs) = set (sort_key fst kvs')" by simp
  then show ?thesis by simp
qed

lemma flat_dump_text [simp]: "flat (dump_text v)"
  by (cases v) simp_all

lemma event_members_flat:
  "distinct (map fst (event_members isofmt e))" "list_all (\<lambda>(key, v). flat v) (event_members isofmt e)"
  by (simp_all add: event_members_def)

lemma canonical_event_json_inj:
  assumes "inj isofmt" and "canonical_event_json isofmt e = canonical_event_json isofmt f"
  shows "e\<lparr>ev_hash := None\<rparr> = f\<lparr>ev_hash := None\<rparr>"
proof -
  have "set (event_members isofmt e) = set (event_members isofmt f)"
    using assms(2) unfolding canonical_event_json_def
    by (rule json_dumps_flat_inj [OF event_members_flat event_members_flat])
  then have same: "m \<in> set (event_members isofmt e) \<Longrightarrow> m \<in> set (event_members isofmt f)" for m by simp
  have member: "v = w" if "(k, v) \<in> set (event_members isofmt e)" "(k, w) \<in> set (event_members isofmt f)" for k v w
    using same [OF that(1)] that(2) event_members_flat(1) [of isofmt f]
    by (meson eq_key_imp_eq_value)
  note m = member [of _ _ _, simplified event_members_def]
  have "ev_run_id e = ev_run_id f" using member [of "''run_id''"] by (simp add: event_members_def)
  moreover have "ev_sequence e = ev_sequence f" using member [of "''sequence''"] by (simp add: event_members_def)
  moreover have "ev_timestamp e = ev_timestamp f"
    using member [of "''timestamp''"] assms(1) by (simp add: event_members_def inj_eq)
  moreover have "ev_type e = ev_type f" using member [of "''event_type''"] by (simp add: event_members_def)
  moreover have "ev_component e = ev_component f" using member [of "''component''"] by (simp add: event_members_def)
  moreover have "ev_outcome e = ev_outcome f" using member [of "''outcome''"] by (simp add: event_members_def)
  moreover have "ev_plan_hash e = ev_plan_hash f" using member [of "''plan_hash''"] by (simp add: event_members_def)
  moreover have "ev_before_hash e = ev_before_hash f"
    using member [of "''before_state_hash''"] by (simp add: event_members_def)
  moreover have "ev_change_hash e = ev_change_hash f"
    using member [of "''change_set_hash''"] by (simp add: event_members_def)
  moreover have "ev_ownership_id e = ev_ownership_id f"
    using member [of "''ownership_id''"] by (simp add: event_members_def)
  moreover have "ev_ou e = ev_ou f" using member [of "''target_ou''"] by (simp add: event_members_def)
  moreover have "ev_error e = ev_error f" using member [of "''error_code''"] by (simp add: event_members_def)
  moreover have "ev_correlation e = ev_correlation f"
    using member [of "''correlation_id''"] by (simp add: event_members_def)
  moreover have "ev_previous e = ev_previous f"
    using member [of "''previous_event_hash''"] by (simp add: event_members_def)
  ultimately show ?thesis by simp
qed

text \<open>
  Two chains that end in the same hash are the same chain, when the digest has no collision
  among their events.
\<close>

definition collision_free :: "(string \<Rightarrow> string) \<Rightarrow> string set \<Rightarrow> bool" where
  "collision_free H texts \<longleftrightarrow> inj_on H texts"

lemma same_event:
  assumes "inj isofmt" and "collision_free H texts"
    and "canonical_event_json isofmt e \<in> texts" and "canonical_event_json isofmt f \<in> texts"
    and "ev_hash e = Some (event_digest H isofmt e)" and "ev_hash f = Some (event_digest H isofmt f)"
    and "ev_hash e = ev_hash f"
  shows "e = f"
proof -
  have "canonical_event_json isofmt e = canonical_event_json isofmt f"
    using assms(2-7) by (auto simp: collision_free_def event_digest_def dest: inj_onD)
  from canonical_event_json_inj [OF assms(1) this] have "e\<lparr>ev_hash := None\<rparr> = f\<lparr>ev_hash := None\<rparr>" .
  note same = this
  have "e = (e\<lparr>ev_hash := None\<rparr>)\<lparr>ev_hash := ev_hash e\<rparr>" by simp
  also have "\<dots> = (f\<lparr>ev_hash := None\<rparr>)\<lparr>ev_hash := ev_hash f\<rparr>" by (simp only: same assms(7))
  also have "\<dots> = f" by simp
  finally show ?thesis .
qed

lemma linked_determined:
  assumes "inj isofmt" and "collision_free H texts"
    and "linked H isofmt r 1 None es" and "linked H isofmt r' 1 None fs"
    and "canonical_event_json isofmt ` set es \<subseteq> texts" and "canonical_event_json isofmt ` set fs \<subseteq> texts"
    and "last_hash es None = last_hash fs None"
  shows "es = fs"
  using assms(3-7)
proof (induction es arbitrary: fs rule: rev_induct)
  case Nil
  then show ?case by (cases fs rule: rev_cases) (auto simp: linked_snoc last_hash_def)
next
  case (snoc e es)
  show ?case
  proof (cases fs rule: rev_cases)
    case Nil
    then show ?thesis using snoc.prems by (auto simp: linked_snoc last_hash_def)
  next
    case (snoc gs g)
    note fs = snoc
    have "e = g"
      using snoc.prems unfolding fs
      by (intro same_event [OF assms(1,2)]) (simp_all add: linked_snoc last_hash_def)
    moreover have "es = gs"
      using snoc.prems \<open>e = g\<close> unfolding fs by (intro snoc.IH) (auto simp: linked_snoc)
    ultimately show ?thesis using fs by simp
  qed
qed

section \<open>Lines\<close>

definition control :: "char \<Rightarrow> bool" where
  "control c \<longleftrightarrow> (of_char c :: nat) < 32"

lemma hex_char_not_control: "n < 16 \<Longrightarrow> \<not> control (hex_char n)"
  by (simp add: control_def of_char_hex_char)

lemma hex_digits_not_control: "c \<in> set (hex_digits k n) \<Longrightarrow> \<not> control c"
  by (induction k arbitrary: n) (auto simp: hex_char_not_control)

lemma show_nat_not_control: "c \<in> set (show_nat n) \<Longrightarrow> \<not> control c"
proof (induction n rule: show_nat.induct)
  case (1 n)
  show ?case
  proof (cases "n < 10")
    case True
    then show ?thesis using 1 by (simp add: show_nat.simps [of n] hex_char_not_control)
  next
    case False
    then have "c \<in> set (show_nat (n div 10)) \<or> c = hex_char (n mod 10)"
      using 1(2) by (auto simp: show_nat.simps [of n])
    moreover have "n mod 10 < 16" by (rule less_trans [of _ 10]) simp_all
    ultimately show ?thesis using 1(1) [OF False] hex_char_not_control [of "n mod 10"] by blast
  qed
qed

lemma json_escape_not_control: "c \<in> set (json_escape d) \<Longrightarrow> \<not> control c"
  by (auto simp: json_escape_def control_def Let_def dest: hex_digits_not_control [unfolded control_def]
      split: if_splits)

lemma json_string_not_control: "c \<in> set (json_string t) \<Longrightarrow> \<not> control c"
  by (auto simp: json_string_def control_def dest: json_escape_not_control [unfolded control_def])

lemma set_py_join: "c \<in> set (py_join sep xs) \<Longrightarrow> c \<in> set sep \<or> (\<exists>x \<in> set xs. c \<in> set x)"
  by (induction sep xs rule: py_join.induct) auto

lemma json_render_not_control:
  assumes "\<forall>c \<in> set a \<union> set k. \<not> control c" and "c \<in> set (json_render a k v)"
  shows "\<not> control c"
  using assms(2)
proof (induction v)
  case (JInt i)
  then show ?case by (auto simp: show_int_def control_def dest: show_nat_not_control [unfolded control_def] split: if_splits)
next
  case (JArr xs)
  then show ?case using assms(1) by (auto simp: control_def dest!: set_py_join)
next
  case (JObj kvs)
  have "\<not> control c" if c: "c \<in> set (py_join a (map (\<lambda>(key, v). json_string key @ k @ json_render a k v) kvs))"
  proof -
    from set_py_join [OF c] assms(1) consider "\<not> control c"
      | m where "m \<in> set kvs" "c \<in> set (json_string (fst m)) \<or> c \<in> set k \<or> c \<in> set (json_render a k (snd m))"
      by (auto simp: case_prod_unfold)
    then show ?thesis
    proof cases
      case (2 m)
      have "snd m \<in> Basic_BNFs.snds m" by (cases m) simp
      then show ?thesis using 2 JObj.IH [OF 2(1)] assms(1) json_string_not_control by blast
    qed
  qed
  then show ?case using JObj.prems by (auto simp: control_def)
qed (auto simp: control_def dest: json_string_not_control [unfolded control_def] split: if_splits)

text \<open>A line of the stream holds no line break but, possibly, U+0085.\<close>

definition line_safe :: "(py_datetime \<Rightarrow> string) \<Rightarrow> audit_event \<Rightarrow> bool" where
  "line_safe isofmt e \<longleftrightarrow> CHR 0x85 \<notin> set (event_line isofmt e)"

text \<open>It holds none when no string of the event does.\<close>

fun plain_json :: "json \<Rightarrow> bool" where
  "plain_json (JStr s) = (CHR 0x85 \<notin> set s)"
| "plain_json (JArr xs) = list_all plain_json xs"
| "plain_json (JObj kvs) = list_all (\<lambda>(key, v). CHR 0x85 \<notin> set key \<and> plain_json v) kvs"
| "plain_json _ = True"

lemma hex_char_plain: "n < 16 \<Longrightarrow> hex_char n \<noteq> CHR 0x85"
  using of_char_hex_char [of n] by (auto dest!: arg_cong [of _ _ "of_char :: char \<Rightarrow> nat"] split: if_splits)

lemma hex_digits_plain: "CHR 0x85 \<notin> set (hex_digits k n)"
proof (induction k arbitrary: n)
  case (Suc k)
  then show ?case using hex_char_plain [of "n mod 16"] by auto
qed simp

lemma show_nat_plain: "CHR 0x85 \<notin> set (show_nat n)"
  using show_nat_digits [of n] by (auto simp: is_digit_char_def)

lemma json_string_plain: "CHR 0x85 \<notin> set s \<Longrightarrow> CHR 0x85 \<notin> set (json_string s)"
  by (auto simp: json_string_def json_escape_def Let_def hex_digits_plain split: if_splits)

lemma json_render_plain:
  assumes "CHR 0x85 \<notin> set a \<union> set k" and "plain_json v"
  shows "CHR 0x85 \<notin> set (json_render a k v)"
  using assms(2)
proof (induction v)
  case (JObj kvs)
  have "CHR 0x85 \<notin> set (json_string (fst m) @ k @ json_render a k (snd m))" if m: "m \<in> set kvs" for m
  proof -
    have "snd m \<in> Basic_BNFs.snds m" by (cases m) simp
    moreover have "plain_json (snd m)" "CHR 0x85 \<notin> set (fst m)" using JObj.prems m by (auto simp: list_all_iff)
    ultimately show ?thesis using JObj.IH [OF m] json_string_plain assms(1) by auto
  qed
  then show ?case using assms(1) by (auto simp: case_prod_unfold dest!: set_py_join)
qed (use assms(1) in \<open>auto simp: show_int_def show_nat_plain json_string_plain list_all_iff dest!: set_py_join\<close>)

lemma line_safe_plain: "plain_json (JObj (event_members isofmt e @ [(''event_hash'', dump_text (ev_hash e))])) \<Longrightarrow> line_safe isofmt e"
  unfolding line_safe_def event_line_def model_json_def by (rule json_render_plain) simp

lemma event_line_inj:
  assumes "inj isofmt" and "event_line isofmt e = event_line isofmt f"
  shows "e = f"
proof -
  have "event_members isofmt e = event_members isofmt f \<and> ev_hash e = ev_hash f"
    using assms(2) unfolding event_line_def model_json_inj by simp
  then show ?thesis
    using assms(1) by (intro audit_event.equality) (auto simp: event_members_def inj_eq)
qed

lemma line_break_iff: "is_line_break c \<Longrightarrow> control c \<or> c = CHR 0x85"
  using of_char_eq_iff [of c "CHR 0x85"] by (auto simp: is_line_break_def control_def)

lemma line_safe_no_break:
  assumes "line_safe isofmt e" and "c \<in> set (event_line isofmt e)"
  shows "\<not> is_line_break c"
proof -
  have "\<not> control c"
    using assms(2) unfolding event_line_def model_json_def
    by (rule json_render_not_control [rotated]) (simp add: control_def)
  then show ?thesis using assms line_break_iff unfolding line_safe_def by blast
qed

lemma split_lines_Cons_safe:
  "\<not> is_line_break c \<Longrightarrow> split_lines (c # cs) = (case split_lines cs of [] \<Rightarrow> [[c]] | l # ls \<Rightarrow> (c # l) # ls)"
  by (cases cs) (auto simp: is_line_break_def)

lemma split_lines_line:
  assumes "\<forall>c \<in> set l. \<not> is_line_break c"
  shows "split_lines (l @ CHR 0x0A # rest) = l # split_lines rest"
  using assms
proof (induction l)
  case Nil
  then show ?case by (cases rest) (auto simp: is_line_break_def)
qed (simp add: split_lines_Cons_safe)

definition stream_of :: "(py_datetime \<Rightarrow> string) \<Rightarrow> audit_event list \<Rightarrow> string" where
  "stream_of isofmt es = concat (map (\<lambda>e. event_line isofmt e @ [CHR 0x0A]) es)"

lemma split_stream_of: "list_all (line_safe isofmt) es \<Longrightarrow> split_lines (stream_of isofmt es) = map (event_line isofmt) es"
proof (induction es)
  case (Cons e es)
  then have "\<forall>c \<in> set (event_line isofmt e). \<not> is_line_break c" using line_safe_no_break by auto
  from split_lines_line [OF this] Cons show ?case by (simp add: stream_of_def)
qed (simp add: stream_of_def)

lemma split_stream_append:
  "list_all (line_safe isofmt) es \<Longrightarrow> split_lines (stream_of isofmt es @ rest) = map (event_line isofmt) es @ split_lines rest"
proof (induction es)
  case (Cons e es)
  then have "\<forall>c \<in> set (event_line isofmt e). \<not> is_line_break c" using line_safe_no_break by auto
  from split_lines_line [OF this] Cons show ?case by (simp add: stream_of_def)
qed (simp add: stream_of_def)

section \<open>What the writer appends is a chain\<close>

definition consistent ::
    "(string \<Rightarrow> string) \<Rightarrow> (py_datetime \<Rightarrow> string) \<Rightarrow> audit_event list \<Rightarrow> audit_writer \<Rightarrow> bool" where
  "consistent H isofmt es w \<longleftrightarrow> aw_stream w = stream_of isofmt es \<and> aw_last_sequence w = int (length es) \<and>
     aw_last_hash w = last_hash es None \<and> aw_run_id w = (if es = [] then None else Some (ev_run_id (hd es))) \<and>
     linked H isofmt (ev_run_id (hd es)) 1 None es"

lemma consistent_new: "new_writer x ds = Inr w \<Longrightarrow> consistent H isofmt [] w"
  by (auto simp: new_writer_def consistent_def stream_of_def last_hash_def split: if_splits)

lemma next_disk_fields:
  assumes "next_disk w = (r, w')"
  obtains d where "r = Inr d" "w' = w\<lparr>aw_disk := tl (aw_disk w)\<rparr>" "aw_disk w = [] \<and> d = Done \<or> d \<in> set (aw_disk w)"
  using assms by (cases "aw_disk w") (auto simp: next_disk_def)

definition finalized :: "(string \<Rightarrow> string) \<Rightarrow> (py_datetime \<Rightarrow> string) \<Rightarrow> audit_event \<Rightarrow> audit_writer \<Rightarrow> audit_event" where
  "finalized H isofmt e w = e\<lparr>ev_previous := aw_last_hash w,
     ev_hash := Some (H (canonical_event_json isofmt (e\<lparr>ev_previous := aw_last_hash w\<rparr>)))\<rparr>"

lemma finalized_simps [simp]:
  "ev_sequence (finalized H isofmt e w) = ev_sequence e" "ev_run_id (finalized H isofmt e w) = ev_run_id e"
  "ev_previous (finalized H isofmt e w) = aw_last_hash w"
  "ev_hash (finalized H isofmt e w) = Some (event_digest H isofmt (finalized H isofmt e w))"
  by (simp_all add: finalized_def event_digest_def)

definition acceptable :: "audit_event \<Rightarrow> audit_writer \<Rightarrow> bool" where
  "acceptable e w \<longleftrightarrow> ev_sequence e = aw_last_sequence w + 1 \<and>
     (aw_run_id w = None \<or> Some (ev_run_id e) = aw_run_id w) \<and>
     (ev_previous e = None \<or> ev_previous e = aw_last_hash w)"

text \<open>One append, its checks and its two effects apart.\<close>

lemma append_event_unfold:
  "append_event H isofmt e w =
     (if \<not> acceptable e w then (Inl AuditWriteFailure, w)
      else bind next_disk (\<lambda>d. andthen (append_text (event_line isofmt (finalized H isofmt e w) @ [CHR 0x0A]) d)
        (\<lambda>v. (Inr (finalized H isofmt e w), v\<lparr>aw_last_sequence := ev_sequence e,
           aw_last_hash := ev_hash (finalized H isofmt e w), aw_run_id := Some (ev_run_id e)\<rparr>))) w)"
proof -
  have "e\<lparr>ev_previous := aw_last_hash w, ev_hash := None,
      ev_hash := Some (H (canonical_event_json isofmt (e\<lparr>ev_previous := aw_last_hash w, ev_hash := None\<rparr>)))\<rparr> =
      finalized H isofmt e w" by (simp add: finalized_def)
  moreover have "ev_hash (finalized H isofmt e w) =
      Some (H (canonical_event_json isofmt (e\<lparr>ev_previous := aw_last_hash w, ev_hash := None\<rparr>)))"
    by (simp add: finalized_def)
  ultimately show ?thesis
    by (auto simp: append_event_def acceptable_def Let_def act_defs split: prod.splits sum.splits)
qed

text \<open>An append that returns adds its event; one that raises before any text is left adds none.\<close>

lemma append_text_Inr:
  "append_text l d v = (Inr u, v') \<Longrightarrow> v' = v\<lparr>aw_stream := aw_stream v @ l\<rparr>"
  by (cases d) (auto simp: act_simps)

lemma append_event_Inr:
  assumes "append_event H isofmt e w = (Inr f, w')"
  shows "acceptable e w" "f = finalized H isofmt e w"
    "w' = w\<lparr>aw_stream := aw_stream w @ event_line isofmt f @ [CHR 0x0A], aw_disk := tl (aw_disk w),
      aw_last_sequence := ev_sequence e, aw_last_hash := ev_hash f, aw_run_id := Some (ev_run_id e)\<rparr>"
proof -
  show ok: "acceptable e w" using assms by (auto simp: append_event_unfold split: if_splits)
  with assms obtain d w1 u w2 where d: "next_disk w = (Inr d, w1)"
    and t: "append_text (event_line isofmt (finalized H isofmt e w) @ [CHR 0x0A]) d w1 = (Inr u, w2)"
    and f: "f = finalized H isofmt e w"
    and w': "w' = w2\<lparr>aw_last_sequence := ev_sequence e, aw_last_hash := ev_hash (finalized H isofmt e w),
      aw_run_id := Some (ev_run_id e)\<rparr>"
    by (auto simp: append_event_unfold bind_Inr_iff andthen_Inr_iff simp del: finalized_simps)
  show "f = finalized H isofmt e w" by (rule f)
  show "w' = w\<lparr>aw_stream := aw_stream w @ event_line isofmt f @ [CHR 0x0A], aw_disk := tl (aw_disk w),
      aw_last_sequence := ev_sequence e, aw_last_hash := ev_hash f, aw_run_id := Some (ev_run_id e)\<rparr>"
    using append_text_Inr [OF t] d unfolding w' f by (auto elim: next_disk_fields)
qed

lemma append_event_consistent:
  assumes w: "consistent H isofmt es w" and a: "append_event H isofmt e w = (Inr f, w')"
  shows "consistent H isofmt (es @ [f]) w'"
proof -
  have f: "ev_sequence f = int (length es) + 1" "ev_previous f = last_hash es None"
    "ev_hash f = Some (event_digest H isofmt f)" "es \<noteq> [] \<Longrightarrow> ev_run_id f = ev_run_id (hd es)"
    "ev_sequence e = ev_sequence f" "ev_run_id e = ev_run_id f"
    using append_event_Inr(1,2) [OF a] w
    by (auto simp: acceptable_def consistent_def)
  have "linked H isofmt (ev_run_id (hd (es @ [f]))) 1 None (es @ [f])"
    using w f unfolding consistent_def linked_snoc by (cases "es = []") (simp_all add: last_hash_def)
  then show ?thesis
    using w f unfolding consistent_def append_event_Inr(3) [OF a]
    by (cases "es = []") (simp_all add: stream_of_def last_hash_def)
qed

definition clean :: "disk_outcome \<Rightarrow> bool" where
  "clean d \<longleftrightarrow> d = Done \<or> d = No_Directory \<or> d = Torn []"

lemma append_text_Inl:
  "append_text l d v = (Inl y, u) \<Longrightarrow> y = AuditWriteFailure \<and> (clean d \<longrightarrow> u = v)"
  by (cases d) (auto simp: act_simps clean_def)

lemma append_event_raised:
  assumes w: "consistent H isofmt es w" and a: "append_event H isofmt e w = (Inl x, w')"
    and c: "list_all clean (aw_disk w)"
  shows "consistent H isofmt es w'" "x = AuditWriteFailure"
proof -
  consider "x = AuditWriteFailure" "w' = w"
    | d w1 where "next_disk w = (Inr d, w1)"
      "append_text (event_line isofmt (finalized H isofmt e w) @ [CHR 0x0A]) d w1 = (Inl x, w')"
    using a by (auto simp: append_event_unfold bind_Inl_iff andthen_Inl_iff simp del: finalized_simps
        elim: next_disk_fields split: if_splits)
  then have "x = AuditWriteFailure \<and> (w' = w \<or> w' = w\<lparr>aw_disk := tl (aw_disk w)\<rparr>)"
  proof cases
    case (2 d w1)
    then have "clean d" "w1 = w\<lparr>aw_disk := tl (aw_disk w)\<rparr>"
      using c by (auto elim!: next_disk_fields simp: clean_def list_all_iff)
    then show ?thesis using append_text_Inl [OF 2(2)] by simp
  qed simp
  then show "consistent H isofmt es w'" "x = AuditWriteFailure" using w by (auto simp: consistent_def)
qed

section \<open>A run of appends\<close>

text \<open>The events a caller that goes on after a refused append gets written.\<close>

fun append_each ::
    "(string \<Rightarrow> string) \<Rightarrow> (py_datetime \<Rightarrow> string) \<Rightarrow> audit_event list \<Rightarrow> audit_writer \<Rightarrow>
      audit_event list \<times> audit_writer" where
  "append_each H isofmt [] w = ([], w)"
| "append_each H isofmt (e # es) w =
     (case append_event H isofmt e w of
        (Inl x, v) \<Rightarrow> append_each H isofmt es v
      | (Inr f, v) \<Rightarrow> (case append_each H isofmt es v of (fs, u) \<Rightarrow> (f # fs, u)))"

lemma next_disk_clean: "next_disk w = (r, v) \<Longrightarrow> list_all clean (aw_disk w) \<Longrightarrow> list_all clean (aw_disk v)"
  by (cases "aw_disk w") (auto simp: next_disk_def)

lemma append_event_clean:
  assumes "append_event H isofmt e w = (r, v)" and "list_all clean (aw_disk w)"
  shows "list_all clean (aw_disk v)"
proof -
  have io: "append_text l d u = (q, u') \<Longrightarrow> aw_disk u' = aw_disk u" for l d u q u'
    by (cases d) (auto simp: act_defs)
  from assms show ?thesis
    by (auto simp: append_event_unfold bind_def andthen_def dest!: next_disk_clean io split: if_splits prod.splits sum.splits)
qed

lemma append_each_consistent:
  assumes "append_each H isofmt es w = (fs, v)" and "consistent H isofmt ds w" and "list_all clean (aw_disk w)"
  shows "consistent H isofmt (ds @ fs) v"
  using assms
proof (induction es arbitrary: ds w fs)
  case (Cons e es)
  obtain r u where r: "append_event H isofmt e w = (r, u)" by fastforce
  note c = append_event_clean [OF r Cons.prems(3)]
  show ?case
  proof (cases r)
    case (Inl x)
    then show ?thesis
      using Cons.prems r c append_event_raised(1) [of H isofmt ds w e x u] by (auto intro: Cons.IH)
  next
    case (Inr f)
    obtain gs where gs: "append_each H isofmt es u = (gs, v)" "fs = f # gs"
      using Cons.prems(1) r Inr by (auto split: prod.splits)
    have "consistent H isofmt (ds @ [f]) u" using append_event_consistent Cons.prems(2) r Inr by blast
    from Cons.IH [OF gs(1) this c] gs(2) show ?thesis by simp
  qed
qed simp

text \<open>Whatever is refused and whatever fails, the stream only grows.\<close>

lemma append_event_extends: "\<exists>rest. aw_stream (snd (append_event H isofmt e w)) = aw_stream w @ rest"
proof -
  have "\<exists>rest. aw_stream (snd (append_text line d v)) = aw_stream v @ rest" for line d v
    by (cases d) (simp_all add: andthen_def bind_def)
  then show ?thesis
    by (auto simp: append_event_unfold bind_def andthen_def next_disk_def split: list.splits prod.splits sum.splits)
      (metis snd_conv audit_writer.select_convs(1) audit_writer.surjective audit_writer.update_convs(6))+
qed

lemma append_each_extends: "\<exists>rest. aw_stream (snd (append_each H isofmt es w)) = aw_stream w @ rest"
proof (induction es arbitrary: w)
  case (Cons e es)
  obtain r v where v: "append_event H isofmt e w = (r, v)" by fastforce
  with append_event_extends [of H isofmt e w] obtain rest where "aw_stream v = aw_stream w @ rest" by auto
  moreover obtain more where "aw_stream (snd (append_each H isofmt es v)) = aw_stream v @ more"
    using Cons.IH by blast
  ultimately show ?case using v by (auto split: sum.splits prod.splits)
qed simp

end
