(* ===== verification/Workflow_Audit.thy ===== *)
theory Workflow_Audit
  imports Reports Audit_Chain
begin

text \<open>
  \<^verbatim>\<open>application/workflow_audit_service.py\<close> and \<^verbatim>\<open>application/audit_service.py\<close>: what a
  run records, when a failed record stops the run and when it is only a warning, and the
  terminal evidence. Both services work on one writer; \<open>en_clock n\<close> is the \<open>n\<close>-th reading
  of their clock, \<open>en_schema\<close> the JSON schema the model library generates for the plan and
  \<open>en_sha\<close> the hex digest of a file's bytes.
\<close>

record audit_env =
  en_hash :: "string \<Rightarrow> string"
  en_sha :: "string \<Rightarrow> string"
  en_iso :: "py_datetime \<Rightarrow> string"
  en_clock :: "nat \<Rightarrow> py_datetime"
  en_run_id :: string
  en_schema :: json
  en_metadata :: manifest_metadata

record auditor =
  au_writer :: audit_writer
  au_started :: bool
  au_warnings :: "string list"
  au_ticks :: nat

definition new_auditor :: "audit_writer \<Rightarrow> auditor" where
  "new_auditor w = \<lparr>au_writer = w, au_started = False, au_warnings = [], au_ticks = 0\<rparr>"

definition on_writer :: "(audit_writer, 'a) act \<Rightarrow> (auditor, 'a) act" where
  "on_writer m a = (case m (au_writer a) of (r, w) \<Rightarrow> (r, a\<lparr>au_writer := w\<rparr>))"

definition audit_now :: "audit_env \<Rightarrow> (auditor, py_datetime) act" where
  "audit_now env a = (Inr (en_clock env (au_ticks a)), a\<lparr>au_ticks := Suc (au_ticks a)\<rparr>)"

definition post_mutation_warning :: string where
  "post_mutation_warning =
     ''One or more protected audit writes failed after mutation began; verification continued.''"

text \<open>\<^verbatim>\<open>warnings\<close>: the set, sorted.\<close>

definition audit_warnings :: "auditor \<Rightarrow> string list" where
  "audit_warnings a = sort (remdups (au_warnings a))"

section \<open>One record\<close>

text \<open>The fields of an event that depend on what is recorded.\<close>

record event_facts =
  ef_type :: string
  ef_component :: string
  ef_outcome :: string
  ef_plan_hash :: "string option"
  ef_before_hash :: "string option"
  ef_change_hash :: "string option"
  ef_ou :: "string option"
  ef_error :: "string option"
  ef_correlation :: "string option"

definition facts :: "string \<Rightarrow> string \<Rightarrow> string \<Rightarrow> event_facts" where
  "facts event_type component outcome = \<lparr>ef_type = event_type, ef_component = component,
     ef_outcome = outcome, ef_plan_hash = None, ef_before_hash = None, ef_change_hash = None,
     ef_ou = None, ef_error = None, ef_correlation = None\<rparr>"

definition with_hashes :: "string \<Rightarrow> string \<Rightarrow> string \<Rightarrow> event_facts \<Rightarrow> event_facts" where
  "with_hashes plan_hash before_hash change_hash f =
     f\<lparr>ef_plan_hash := Some plan_hash, ef_before_hash := Some before_hash, ef_change_hash := Some change_hash\<rparr>"

definition event_of :: "audit_env \<Rightarrow> event_facts \<Rightarrow> int \<Rightarrow> py_datetime \<Rightarrow> audit_event" where
  "event_of env f n now = \<lparr>ev_run_id = en_run_id env, ev_sequence = n, ev_timestamp = now,
     ev_type = ef_type f, ev_component = ef_component f, ev_outcome = ef_outcome f,
     ev_plan_hash = ef_plan_hash f, ev_before_hash = ef_before_hash f, ev_change_hash = ef_change_hash f,
     ev_ownership_id = None, ev_ou = ef_ou f, ev_error = ef_error f, ev_correlation = ef_correlation f,
     ev_previous = None, ev_hash = None\<rparr>"

text \<open>The event is stamped, validated and appended.\<close>

definition append_facts :: "audit_env \<Rightarrow> event_facts \<Rightarrow> (auditor, audit_event) act" where
  "append_facts env f =
     bind (get (\<lambda>a. next_sequence (au_writer a))) (\<lambda>n.
     bind (audit_now env) (\<lambda>now.
     bind (lift (make_event (event_of env f n now))) (\<lambda>e.
     on_writer (append_event (en_hash env) (en_iso env) e))))"

definition put_artifact :: "string \<times> string \<Rightarrow> (auditor, unit) act" where
  "put_artifact pc = andthen (on_writer (write_text (fst pc) (snd pc))) (return ())"

definition record_attempt :: "audit_env \<Rightarrow> event_facts \<Rightarrow> (string \<times> string) list \<Rightarrow> (auditor, unit) act" where
  "record_attempt env f artifacts =
     andthen (each put_artifact artifacts) (andthen (append_facts env f) (return ()))"

definition audit_record :: "audit_env \<Rightarrow> event_facts \<Rightarrow> (string \<times> string) list \<Rightarrow> (auditor, unit) act" where
  "audit_record env f artifacts =
     catch (record_attempt env f artifacts) (\<lambda>e. e = AuditWriteFailure)
       (\<lambda>e. bind (get au_started) (\<lambda>started.
          if \<not> started then raise e
          else update (\<lambda>a. a\<lparr>au_warnings := post_mutation_warning # au_warnings a\<rparr>)))"

section \<open>What a run records\<close>

definition line_end :: string where
  "line_end = [CHR 0x0A]"

definition record_request :: "audit_env \<Rightarrow> string \<Rightarrow> (auditor, unit) act" where
  "record_request env request_text =
     audit_record env (facts ''request_received'' ''planner'' ''recorded'')
       [(''request.txt'', py_rstrip request_text @ line_end)]"

definition record_plan :: "audit_env \<Rightarrow> task_plan \<Rightarrow> (auditor, unit) act" where
  "record_plan env plan =
     audit_record env (facts ''plan_validated'' ''planner'' (plan_status_value (tp_status plan)))
       [(''plan.json'', json_text (dump_task_plan plan)), (''plan.schema.json'', json_text (en_schema env))]"

definition record_preflight :: "audit_env \<Rightarrow> preflight_result \<Rightarrow> (auditor, unit) act" where
  "record_preflight env r =
     audit_record env ((facts ''preflight_completed'' ''preflight'' (preflight_status_value (pf_status r)))
         \<lparr>ef_error := pf_reason r, ef_ou := map_option pi_ou (pf_identity r)\<rparr>)
       [(''preflight.json'', json_text (dump_preflight r))]"

datatype audit_stage = Before_Stage | Prewrite_Stage | After_Stage

fun stage_name :: "audit_stage \<Rightarrow> string" where
  "stage_name Before_Stage = ''before''"
| "stage_name Prewrite_Stage = ''prewrite''"
| "stage_name After_Stage = ''after''"

definition record_state :: "audit_env \<Rightarrow> audit_stage \<Rightarrow> blocked_state \<Rightarrow> (auditor, unit) act" where
  "record_state env stage s =
     audit_record env ((facts (stage_name stage @ ''_state_observed'') ''state_reader'' ''recorded'')
         \<lparr>ef_ou := Some (bs_ou s)\<rparr>)
       [(stage_name stage @ ''.json'', json_text (dump_blocked_state s))]"

record prepared_change =
  pc_plan :: task_plan
  pc_current :: blocked_state
  pc_desired :: desired_state_result
  pc_change :: change_set
  pc_plan_hash :: string
  pc_before_hash :: string
  pc_change_hash :: string

definition record_prepared_change :: "audit_env \<Rightarrow> prepared_change \<Rightarrow> (auditor, unit) act" where
  "record_prepared_change env p =
     audit_record env (with_hashes (pc_plan_hash p) (pc_before_hash p) (pc_change_hash p)
         ((facts ''change_set_prepared'' ''change_service''
            (if has_mutations (pc_change p) then ''mutation_required'' else ''no_change''))
           \<lparr>ef_ou := Some (bs_ou (pc_current p))\<rparr>))
       [(''plan.json'', json_text (dump_task_plan (pc_plan p))),
        (''before.json'', json_text (dump_blocked_state (pc_current p))),
        (''desired.json'', json_text (dump_blocked_state (dr_state (pc_desired p)))),
        (''desired-result.json'', json_text (dump_desired_result (pc_desired p))),
        (''expected_after.json'', json_text (dump_blocked_state (ch_after (pc_change p)))),
        (''change_set.json'', json_text (dump_change_set (pc_change p)))]"

definition record_confirmation :: "audit_env \<Rightarrow> confirmation_response \<Rightarrow> (auditor, unit) act" where
  "record_confirmation env r =
     audit_record env (with_hashes (cf_plan_hash r) (cf_before_hash r) (cf_change_hash r)
         ((facts ''confirmation_received'' ''confirmation''
            (if cf_approved r then ''approved'' else ''rejected''))\<lparr>ef_correlation := Some (cf_approval_id r)\<rparr>))
       [(''confirmation.json'', json_text (dump_confirmation r))]"

text \<open>The hashes of the prepared change accompany every record of its mutation.\<close>

definition hashes_of :: "prepared_change \<Rightarrow> event_facts \<Rightarrow> event_facts" where
  "hashes_of p = with_hashes (pc_plan_hash p) (pc_before_hash p) (pc_change_hash p)"

definition numbered :: "string \<Rightarrow> nat \<Rightarrow> string" where
  "numbered stem attempt = stem @ show_nat attempt @ ''.json''"

definition record_mutation_started :: "audit_env \<Rightarrow> prepared_change \<Rightarrow> nat \<Rightarrow> (auditor, unit) act" where
  "record_mutation_started env p attempt =
     andthen (audit_record env (hashes_of p
           ((facts ''mutation_attempted'' ''mutation_service'' (''attempt_'' @ show_nat attempt))
             \<lparr>ef_ou := Some (bs_ou (ch_before (pc_change p)))\<rparr>))
         [(numbered ''mutation-command-'' attempt, json_text (dump_change_set (pc_change p)))])
       (update (\<lambda>a. a\<lparr>au_started := True\<rparr>))"

definition record_mutation_result ::
    "audit_env \<Rightarrow> prepared_change \<Rightarrow> nat \<Rightarrow> mutation_result \<Rightarrow> (auditor, unit) act" where
  "record_mutation_result env p attempt m =
     audit_record env (hashes_of p
         ((facts ''mutation_observed'' ''mutation_service'' (mutation_status_value (mr_status m)))
           \<lparr>ef_error := mr_error m\<rparr>))
       [(numbered ''mutation-result-'' attempt, json_text (dump_mutation m))]"

definition record_reconciliation ::
    "audit_env \<Rightarrow> prepared_change \<Rightarrow> nat \<Rightarrow> reconciliation_decision \<Rightarrow> (auditor, unit) act" where
  "record_reconciliation env p attempt d =
     audit_record env (hashes_of p
         ((facts ''mutation_reconciled'' ''reconciliation'' (outcome_value (rd_outcome d)))
           \<lparr>ef_error := Some (rd_code d)\<rparr>))
       ((numbered ''reconciliation-'' attempt, json_text (dump_decision d)) #
        (case rd_observed d of None \<Rightarrow> []
         | Some s \<Rightarrow> [(numbered ''reconciliation-after-'' attempt, json_text (dump_blocked_state s))]))"

definition record_verification :: "audit_env \<Rightarrow> prepared_change \<Rightarrow> verification_result \<Rightarrow> (auditor, unit) act" where
  "record_verification env p v =
     audit_record env (hashes_of p
         ((facts ''verification_completed'' ''verification_service'' (verification_status_value (vr_status v)))
           \<lparr>ef_ou := Some (bs_ou (vr_desired v))\<rparr>))
       ((''verification.json'', json_text (dump_verification v)) #
        (case vr_observed v of None \<Rightarrow> []
         | Some s \<Rightarrow> [(''after.json'', json_text (dump_blocked_state s))]))"

definition record_ownership_update :: "audit_env \<Rightarrow> ownership_update \<Rightarrow> (auditor, unit) act" where
  "record_ownership_update env u =
     audit_record env (facts ''ownership_registry_reconciled'' ''ownership_lifecycle_service''
         (if ou_added u \<noteq> [] \<or> ou_removed u \<noteq> [] then ''updated'' else ''unchanged''))
       [(''ownership-update.json'', json_text (dump_ownership_update u))]"

section \<open>The terminal evidence\<close>

definition manifest_of :: "manifest_metadata \<Rightarrow> py_datetime \<Rightarrow> run_result \<Rightarrow> artifact_digest list \<Rightarrow> run_manifest" where
  "manifest_of d end_time r digests =
     \<lparr>mn_start = mm_start d, mn_end = end_time, mn_status = rr_status r, mn_artifacts = digests\<rparr>"

definition finalize :: "audit_env \<Rightarrow> run_result \<Rightarrow> (auditor, unit) act" where
  "finalize env r =
     andthen (put_artifact (''report.json'', render_report_json r))
     (andthen (put_artifact (''report.md'', render_report_markdown r))
     (bind (audit_now env) (\<lambda>end_time.
      bind (get (\<lambda>a. next_sequence (au_writer a))) (\<lambda>n.
      bind (lift (make_event (event_of env ((facts ''run_finalized'' ''audit_finalization_service''
          (run_status_value (rr_status r)))\<lparr>ef_error := rr_error r\<rparr>) n end_time))) (\<lambda>e.
      andthen (on_writer (append_event (en_hash env) (en_iso env) e))
      (bind (get (\<lambda>a. writer_files (au_writer a))) (\<lambda>files.
       bind (lift (digest_artifacts (en_sha env) files)) (\<lambda>digests.
       bind (lift (make_manifest (manifest_of (en_metadata env) end_time r digests))) (\<lambda>m.
       put_artifact (''manifest.json'',
         json_pretty 0 (dump_manifest (en_iso env) (en_metadata env) m) @ line_end))))))))))"

end
