(* ===== verification/Workflow.thy ===== *)
theory Workflow
  imports Workflow_Audit
begin

text \<open>
  \<^verbatim>\<open>workflow/messages.py\<close>, \<^verbatim>\<open>workflow/contracts.py\<close>, \<^verbatim>\<open>workflow/executors.py\<close> and
  \<^verbatim>\<open>workflow/build.py\<close>: the typed graph of one run. Each executor is an action on the world
  the run works on: the auditor, the ownership store, the identifiers handed out and the log
  of what was asked of the planner, the browser and the operator. What these answer is the
  argument \<open>an\<close> of an executor, so a step can be taken with any answer; the graph framework
  itself is represented by the delivery of each message along the edges.
\<close>

section \<open>Messages\<close>

definition make_request_text :: "string \<Rightarrow> string res" where
  "make_request_text t =
     (let s = py_strip t in if length s < 1 \<or> length s > 10000 then Inl ValidationError else Inr s)"

record prepared_message = prepared_change +
  pm_identity :: preflight_identity
  pm_directory :: string

record approved_change =
  ap_prepared :: prepared_message
  ap_response :: confirmation_response

record mutation_command =
  cm_approved :: approved_change
  cm_retry :: nat

record mutation_observed =
  mo_command :: mutation_command
  mo_result :: mutation_result

datatype message =
    User_Request string
  | Planned_Task string task_plan
  | is_clarification: Clarification_Pause string string
  | is_preflight_request: Preflight_Request task_plan
  | is_login_pause: Login_Pause task_plan login_reason string
  | is_preflight_ready: Preflight_Ready task_plan preflight_identity
  | is_current_state: Current_State task_plan preflight_identity blocked_state
  | is_prepared: Prepared prepared_message
  | is_approved: Approved approved_change
  | is_fresh: Fresh approved_change blocked_state
  | is_command: Command mutation_command
  | is_reconciliation: Reconciliation_Request mutation_observed
  | is_verification: Verification_Request mutation_observed
  | is_verified: Verification_Outcome prepared_message mutation_result verification_result
  | is_terminal: Terminal run_result

text \<open>What the operator is asked, with the state the run continues from.\<close>

datatype pause =
    Ask_Clarification string string
  | Ask_Login task_plan login_reason string
  | Ask_Confirmation confirmation_request prepared_message

text \<open>What an executor ends with: one message, one question, or the output of the run.\<close>

datatype outcome = Send message | Pause pause | Output run_result

section \<open>The world of a run\<close>

datatype call =
    Plan_Call string "task_plan res"
  | Preflight_Call "preflight_result res"
  | Read_Call "blocked_state res"
  | Apply_Call change_set "mutation_result res"
  | Verification_Read_Call "blocked_state res"
  | Confirmation_Call confirmation_request confirmation_response

record world =
  wd_auditor :: auditor
  wd_store :: store
  wd_ids :: nat
  wd_calls :: "call list"

datatype lifecycle = Null_Lifecycle | Local_Lifecycle

record workflow_env =
  we_audit :: audit_env
  we_supply :: "nat \<Rightarrow> uuid"
  we_prefix :: string
  we_registry :: registry
  we_email :: string
  we_domain :: string
  we_directory :: string
  we_lifecycle :: lifecycle
  we_clock :: "nat \<Rightarrow> py_datetime"

record answers =
  an_plan :: "task_plan res"
  an_preflight :: "preflight_result res"
  an_state :: "blocked_state res"
  an_mutation :: "mutation_result res"

abbreviation text_hash :: "workflow_env \<Rightarrow> string \<Rightarrow> string" where
  "text_hash env \<equiv> en_hash (we_audit env)"

definition on_auditor :: "(auditor, 'a) act \<Rightarrow> (world, 'a) act" where
  "on_auditor m w = (case m (wd_auditor w) of (r, a) \<Rightarrow> (r, w\<lparr>wd_auditor := a\<rparr>))"

definition on_store :: "(store, 'a) act \<Rightarrow> (world, 'a) act" where
  "on_store m w = (case m (wd_store w) of (r, s) \<Rightarrow> (r, w\<lparr>wd_store := s\<rparr>))"

text \<open>A call to an adapter: it is logged with its answer, which is returned or raised.\<close>

definition ask :: "('a res \<Rightarrow> call) \<Rightarrow> 'a res \<Rightarrow> (world, 'a) act" where
  "ask c r = andthen (update (\<lambda>w. w\<lparr>wd_calls := wd_calls w @ [c r]\<rparr>)) (lift r)"

definition send :: "message \<Rightarrow> (world, outcome) act" where
  "send m = return (Send m)"

definition send_result :: "run_status \<Rightarrow> string option \<Rightarrow> (world, outcome) act" where
  "send_result status code = send (Terminal (plain_result status code))"

text \<open>\<^verbatim>\<open>dict.fromkeys(...)\<close> as a list, and \<^verbatim>\<open>_with_warnings\<close>.\<close>

definition first_of_each :: "'a list \<Rightarrow> 'a list" where
  "first_of_each xs = rev (remdups (rev xs))"

definition with_warnings :: "run_result \<Rightarrow> string list \<Rightarrow> run_result" where
  "with_warnings r ws = r\<lparr>rr_warnings := first_of_each (rr_warnings r @ ws)\<rparr>"

section \<open>Executors before the change\<close>

definition planner_handle :: "workflow_env \<Rightarrow> answers \<Rightarrow> string \<Rightarrow> (world, outcome) act" where
  "planner_handle env an request_text =
     andthen (on_auditor (record_request (we_audit env) request_text))
     (bind (ask (Plan_Call request_text) (an_plan an)) (\<lambda>plan.
      andthen (on_auditor (record_plan (we_audit env) plan))
      (bind (lift (make_request_text request_text)) (\<lambda>t. send (Planned_Task t plan)))))"

definition plan_decision_handle :: "string \<Rightarrow> task_plan \<Rightarrow> (world, outcome) act" where
  "plan_decision_handle request_text plan =
     (case tp_status plan of
        Clarification_Needed \<Rightarrow>
          (case tp_question plan of
             None \<Rightarrow> send_result Failed_Unchanged (Some ''planner_clarification_missing_question'')
           | Some question \<Rightarrow>
               if length question < 1 \<or> length question > 2000 then raise ValidationError
               else bind (lift (make_request_text request_text)) (\<lambda>t. send (Clarification_Pause t question)))
      | Unsupported_Request \<Rightarrow>
          send (Terminal ((plain_result Unsupported (Some ''unsupported_request''))
            \<lparr>rr_warnings := [case tp_reason plan of
                None \<Rightarrow> ''Unsupported request''
              | Some reason \<Rightarrow> if reason = [] then ''Unsupported request'' else reason]\<rparr>))
      | Plan \<Rightarrow> send (Preflight_Request plan))"

definition clarification_resume :: "string \<Rightarrow> string \<Rightarrow> (world, outcome) act" where
  "clarification_resume original response =
     (let stripped = py_strip response;
          clarified = (if stripped = [] then ''No clarification was provided.'' else stripped)
      in bind (lift (make_request_text (original @ [CHR 0x0A] @ ''Clarification: '' @ clarified))) (\<lambda>t.
         send (User_Request t)))"

definition failed_preflight_message :: "string \<Rightarrow> (world, outcome) act" where
  "failed_preflight_message code = send_result Failed_Unchanged (Some code)"

definition preflight_handle :: "workflow_env \<Rightarrow> answers \<Rightarrow> task_plan \<Rightarrow> (world, outcome) act" where
  "preflight_handle env an plan =
     bind (ask Preflight_Call (an_preflight an)) (\<lambda>result.
     andthen (on_auditor (record_preflight (we_audit env) result))
     (case pf_status result of
        Ready \<Rightarrow>
          (case pf_identity result of
             None \<Rightarrow> failed_preflight_message ''preflight_ready_missing_identity''
           | Some identity \<Rightarrow>
               if py_casefold (pi_email identity) \<noteq> py_casefold (we_email env) then
                 failed_preflight_message ''wrong_administrator''
               else if py_casefold (pi_domain identity) \<noteq> py_casefold (we_domain env) then
                 failed_preflight_message ''workspace_identity_mismatch''
               else send (Preflight_Ready plan identity))
      | Needs_Login \<Rightarrow>
          (case pf_login result of
             None \<Rightarrow> failed_preflight_message ''preflight_login_reason_missing''
           | Some reason \<Rightarrow> send (Login_Pause plan reason (we_email env)))
      | Preflight_Failed \<Rightarrow>
          failed_preflight_message (case pf_reason result of
              None \<Rightarrow> ''preflight_failed''
            | Some code \<Rightarrow> if code = [] then ''preflight_failed'' else code)))"

definition login_resume :: "task_plan \<Rightarrow> bool \<Rightarrow> (world, outcome) act" where
  "login_resume plan response =
     (if response then send (Preflight_Request plan)
      else send_result Failed_Unchanged (Some ''manual_login_not_completed''))"

text \<open>
  A read of the console: a trusted state, or \<open>None\<close> when the reader raised
  \<^verbatim>\<open>StateReadFailure\<close>; other exceptions end the run.
\<close>

definition read_console ::
    "(blocked_state res \<Rightarrow> call) \<Rightarrow> answers \<Rightarrow> (world, blocked_state option) act" where
  "read_console c an =
     catch (bind (ask c (an_state an)) (\<lambda>s. return (Some s))) (\<lambda>e. e = StateReadFailure) (\<lambda>_. return None)"

definition read_current_handle ::
    "workflow_env \<Rightarrow> answers \<Rightarrow> task_plan \<Rightarrow> preflight_identity \<Rightarrow> (world, outcome) act" where
  "read_current_handle env an plan identity =
     bind (read_console Read_Call an) (\<lambda>observed. case observed of
        None \<Rightarrow> send_result Failed_Unchanged (Some ''initial_state_read_failed'')
      | Some current_state \<Rightarrow>
          andthen (on_auditor (record_state (we_audit env) Before_Stage current_state))
            (send (Current_State plan identity current_state)))"

definition calculate_change ::
    "workflow_env \<Rightarrow> task_plan \<Rightarrow> blocked_state \<Rightarrow> (world, desired_state_result \<times> change_set) act" where
  "calculate_change env plan current_state w =
     (case change_service_calculate (we_supply env) (we_prefix env) plan current_state (we_registry env) (wd_ids w) of
        (n, r) \<Rightarrow> (r, w\<lparr>wd_ids := n\<rparr>))"

definition compute_handle ::
    "workflow_env \<Rightarrow> task_plan \<Rightarrow> preflight_identity \<Rightarrow> blocked_state \<Rightarrow> (world, outcome) act" where
  "compute_handle env plan identity current_state =
     bind (catch (bind (calculate_change env plan current_state) (\<lambda>c. return (Inr c)))
         (\<lambda>e. is_compliance_error e \<or> is_value_error e) (\<lambda>e. return (Inl e))) (\<lambda>calculated.
     case calculated of
       Inl e \<Rightarrow> send_result Failed_Unchanged (Some (exn_name e))
     | Inr (desired, change) \<Rightarrow>
         let prepared = \<lparr>pc_plan = plan, pc_current = current_state, pc_desired = desired,
               pc_change = change, pc_plan_hash = canonical_hash (text_hash env) (dump_task_plan plan),
               pc_before_hash = canonical_hash (text_hash env) (dump_blocked_state current_state),
               pc_change_hash = canonical_hash (text_hash env) (dump_change_set change)\<rparr>
         in andthen (on_auditor (record_prepared_change (we_audit env) prepared))
            (if \<not> has_mutations change then send_result No_Change_Required None
             else send (Prepared (prepared_change.extend prepared
               (prepared_message.fields identity (we_directory env))))))"

section \<open>Approval\<close>

definition make_confirmation_request :: "confirmation_request \<Rightarrow> confirmation_request res" where
  "make_confirmation_request q =
     (if sha256_digest (cq_plan_hash q) \<and> sha256_digest (cq_before_hash q) \<and> sha256_digest (cq_change_hash q)
      then Inr q else Inl ValidationError)"

definition confirmation_request_handle :: "prepared_message \<Rightarrow> (world, outcome) act" where
  "confirmation_request_handle p =
     bind (lift (make_confirmation_request \<lparr>cq_email = pi_email (pm_identity p),
         cq_domain = pi_domain (pm_identity p), cq_ou = ''/'', cq_plan_hash = pc_plan_hash p,
         cq_before_hash = pc_before_hash p, cq_change_hash = pc_change_hash p,
         cq_change_set = pc_change p, cq_notice_affected = dr_notice_affected (pc_desired p),
         cq_audit_directory = pm_directory p\<rparr>)) (\<lambda>presentation.
     return (Pause (Ask_Confirmation presentation p)))"

definition confirmation_resume ::
    "workflow_env \<Rightarrow> confirmation_request \<Rightarrow> prepared_message \<Rightarrow> confirmation_response \<Rightarrow> (world, outcome) act" where
  "confirmation_resume env expected p response =
     andthen (ask (\<lambda>_. Confirmation_Call expected response) (Inr ()))
     (andthen (on_auditor (record_confirmation (we_audit env) response))
     (let hashes_match = (cf_plan_hash response = cq_plan_hash expected \<and>
            cf_before_hash response = cq_before_hash expected \<and>
            cf_change_hash response = cq_change_hash expected)
      in if \<not> cf_approved response then send_result Confirmation_Rejected None
         else if \<not> hashes_match then send_result Failed_Unchanged (Some ''stale_confirmation'')
         else send (Approved \<lparr>ap_prepared = p, ap_response = response\<rparr>)))"

definition reread_handle :: "workflow_env \<Rightarrow> answers \<Rightarrow> approved_change \<Rightarrow> (world, outcome) act" where
  "reread_handle env an approved =
     bind (read_console Read_Call an) (\<lambda>observed. case observed of
        None \<Rightarrow> send_result Failed_Unchanged (Some ''prewrite_state_read_failed'')
      | Some s \<Rightarrow>
          andthen (on_auditor (record_state (we_audit env) Prewrite_Stage s)) (send (Fresh approved s)))"

definition drift_handle :: "workflow_env \<Rightarrow> approved_change \<Rightarrow> blocked_state \<Rightarrow> (world, outcome) act" where
  "drift_handle env approved observed =
     (let p = ap_prepared approved
      in if state_has_drifted (text_hash env) (pc_before_hash p) observed then
           send (Current_State (pc_plan p) (pm_identity p) observed)
         else catch
           (andthen (lift (validate_confirmation (text_hash env) (ap_response approved) (pc_plan p) observed (pc_change p)))
             (send (Command \<lparr>cm_approved = approved, cm_retry = 0\<rparr>)))
           (\<lambda>e. e = StaleConfirmation)
           (\<lambda>_. send_result Failed_Unchanged (Some ''stale_confirmation'')))"

section \<open>Mutation, reconciliation and verification\<close>

abbreviation command_change :: "mutation_command \<Rightarrow> prepared_message" where
  "command_change c \<equiv> ap_prepared (cm_approved c)"

abbreviation audited :: "prepared_message \<Rightarrow> prepared_change" where
  "audited p \<equiv> prepared_change.truncate p"

definition mutation_handle :: "workflow_env \<Rightarrow> answers \<Rightarrow> mutation_command \<Rightarrow> (world, outcome) act" where
  "mutation_handle env an command =
     (let p = command_change command; attempt = cm_retry command + 1
      in andthen (on_auditor (record_mutation_started (we_audit env) (audited p) attempt))
         (bind (ask (Apply_Call (pc_change p)) (an_mutation an)) (\<lambda>m.
          andthen (on_auditor (record_mutation_result (we_audit env) (audited p) attempt m))
          (let observed = \<lparr>mo_command = command, mo_result = m\<rparr>
           in if mr_status m = Partial then send_result Partially_Applied (mr_error m)
              else if mr_status m = Uncertain then send (Reconciliation_Request observed)
              else send (Verification_Request observed)))))"

definition confirmation_remains_valid :: "workflow_env \<Rightarrow> mutation_command \<Rightarrow> blocked_state \<Rightarrow> bool res" where
  "confirmation_remains_valid env command observed =
     (case validate_confirmation (text_hash env) (ap_response (cm_approved command))
          (pc_plan (command_change command)) observed (pc_change (command_change command)) of
        Inr _ \<Rightarrow> Inr True
      | Inl e \<Rightarrow> if e = StaleConfirmation then Inr False else Inl e)"

definition reconciliation_context_of :: "mutation_command \<Rightarrow> blocked_state \<Rightarrow> bool \<Rightarrow> reconciliation_context" where
  "reconciliation_context_of command observed valid =
     \<lparr>rx_retry_count = int (cm_retry command), rx_idempotent = True, rx_ownership = valid,
      rx_root_ou = (pi_ou (pm_identity (command_change command)) = ''/'' \<and> bs_ou observed = ''/''),
      rx_confirmation = valid\<rparr>"

definition route_decision ::
    "mutation_observed \<Rightarrow> blocked_state \<Rightarrow> reconciliation_decision \<Rightarrow> (world, outcome) act" where
  "route_decision mutation observed decision =
     (let command = mo_command mutation; p = command_change command
      in case rd_outcome decision of
           Desired_State_Present \<Rightarrow>
             bind (lift (verify_state (dr_state (pc_desired p)) (Some observed))) (\<lambda>v.
               send (Verification_Outcome p (mo_result mutation) v))
         | Mutation_Not_Applied \<Rightarrow>
             if rd_retry decision then send (Command \<lparr>cm_approved = cm_approved command, cm_retry = 1\<rparr>)
             else send_result Failed_Unchanged (Some (rd_code decision))
         | Partially_Applied_Outcome \<Rightarrow> send_result Partially_Applied (Some (rd_code decision))
         | Outcome_Indeterminate \<Rightarrow> send_result Indeterminate (Some (rd_code decision)))"

definition reconciliation_handle :: "workflow_env \<Rightarrow> answers \<Rightarrow> mutation_observed \<Rightarrow> (world, outcome) act" where
  "reconciliation_handle env an mutation =
     (let command = mo_command mutation; p = command_change command
      in bind (read_console Verification_Read_Call an) (\<lambda>read. case read of
           None \<Rightarrow> send_result Indeterminate (Some ''reconciliation_state_read_failed'')
         | Some observed \<Rightarrow>
             bind (lift (confirmation_remains_valid env command observed)) (\<lambda>valid.
             bind (lift (reconcile_mutation (text_hash env) (pc_current p) (dr_state (pc_desired p))
                 (Some observed) (reconciliation_context_of command observed valid))) (\<lambda>decision.
             andthen (on_auditor (record_reconciliation (we_audit env) (audited p) (cm_retry command + 1) decision))
               (route_decision mutation observed decision)))))"

text \<open>\<^verbatim>\<open>VerificationService.verify\<close> is the read and the comparison.\<close>

definition verification_handle :: "workflow_env \<Rightarrow> answers \<Rightarrow> mutation_observed \<Rightarrow> (world, outcome) act" where
  "verification_handle env an mutation =
     (let p = command_change (mo_command mutation)
      in bind (read_console Verification_Read_Call an) (\<lambda>read. case read of
           None \<Rightarrow> send_result Indeterminate (Some ''verification_state_read_failed'')
         | Some observed \<Rightarrow>
             bind (lift (verify_state (dr_state (pc_desired p)) (Some observed))) (\<lambda>v.
             andthen (on_auditor (record_verification (we_audit env) (audited p) v))
               (send (Verification_Outcome p (mo_result mutation) v)))))"

definition registry_warning :: string where
  "registry_warning =
     ''Verified UI state was not committed to the local ownership registry; '' @
     ''the affected resource remains read-only until reconciled.''"

definition lifecycle_commit ::
    "workflow_env \<Rightarrow> change_set \<Rightarrow> verification_result \<Rightarrow> (world, ownership_update) act" where
  "lifecycle_commit env change v =
     (case we_lifecycle env of
        Null_Lifecycle \<Rightarrow> return no_update
      | Local_Lifecycle \<Rightarrow> on_store (commit_verified (we_clock env) change v))"

definition decision_handle ::
    "workflow_env \<Rightarrow> prepared_message \<Rightarrow> mutation_result \<Rightarrow> verification_result \<Rightarrow> (world, outcome) act" where
  "decision_handle env p m v =
     bind (lift (determine_run_result (Some m) (Some v) False False False)) (\<lambda>result.
     bind (catch
         (bind (lifecycle_commit env (pc_change p) v) (\<lambda>u.
            andthen (on_auditor (record_ownership_update (we_audit env) u)) (return result)))
         (\<lambda>e. is_os_error e \<or> e = OwnershipNotEstablished)
         (\<lambda>_. return (with_warnings result [registry_warning]))) (\<lambda>reported.
     send (Terminal reported)))"

section \<open>Finalisation\<close>

definition finalization_warning :: string where
  "finalization_warning = ''Terminal audit finalization failed; protected evidence may be incomplete.''"

definition audit_handle :: "workflow_env \<Rightarrow> run_result \<Rightarrow> (world, outcome) act" where
  "audit_handle env message =
     bind (get (\<lambda>w. with_warnings message (audit_warnings (wd_auditor w)))) (\<lambda>result.
     bind (catch (andthen (on_auditor (finalize (we_audit env) result)) (return result))
         (\<lambda>e. e = AuditWriteFailure)
         (\<lambda>_. bind (get (\<lambda>w. au_started (wd_auditor w))) (\<lambda>started.
            return (if started then with_warnings result [finalization_warning]
              else (plain_result Failed_Unchanged (Some ''audit_finalization_failed''))
                \<lparr>rr_warnings := rr_warnings result\<rparr>)))) (\<lambda>reported.
     return (Output reported)))"

section \<open>The graph\<close>

datatype node = Planner | Plan_Decision | Clarification | Preflight | Login | Read_Current | Compute
  | Confirmation | Reread | Drift | Mutation | Reconciliation | Verification | Verification_Decision
  | Audit_Finalization

definition edges :: "(node \<times> node \<times> (message \<Rightarrow> bool)) list" where
  "edges =
     [(Planner, Plan_Decision, \<lambda>_. True),
      (Plan_Decision, Clarification, is_clarification),
      (Plan_Decision, Preflight, is_preflight_request),
      (Plan_Decision, Audit_Finalization, is_terminal),
      (Clarification, Planner, \<lambda>_. True),
      (Preflight, Read_Current, is_preflight_ready),
      (Preflight, Login, is_login_pause),
      (Preflight, Audit_Finalization, is_terminal),
      (Login, Preflight, is_preflight_request),
      (Login, Audit_Finalization, is_terminal),
      (Read_Current, Compute, is_current_state),
      (Read_Current, Audit_Finalization, is_terminal),
      (Compute, Confirmation, is_prepared),
      (Compute, Audit_Finalization, is_terminal),
      (Confirmation, Reread, is_approved),
      (Confirmation, Audit_Finalization, is_terminal),
      (Reread, Drift, is_fresh),
      (Reread, Audit_Finalization, is_terminal),
      (Drift, Compute, is_current_state),
      (Drift, Mutation, is_command),
      (Drift, Audit_Finalization, is_terminal),
      (Mutation, Reconciliation, is_reconciliation),
      (Mutation, Verification, is_verification),
      (Mutation, Audit_Finalization, is_terminal),
      (Reconciliation, Mutation, is_command),
      (Reconciliation, Verification_Decision, is_verified),
      (Reconciliation, Audit_Finalization, is_terminal),
      (Verification, Verification_Decision, is_verified),
      (Verification, Audit_Finalization, is_terminal),
      (Verification_Decision, Audit_Finalization, \<lambda>_. True)]"

definition targets :: "node \<Rightarrow> message \<Rightarrow> node list" where
  "targets n m = map (\<lambda>(s, t, c). t) (filter (\<lambda>(s, t, c). s = n \<and> c m) edges)"

text \<open>
  The executor of a node on a message of the type it declares. There is no handler for a
  message of another type; none is ever delivered (theorem \<open>messages_reach_one_handler\<close>).
\<close>

definition run_node :: "workflow_env \<Rightarrow> answers \<Rightarrow> node \<Rightarrow> message \<Rightarrow> (world, outcome) act option" where
  "run_node env an n m = (case n of
       Planner \<Rightarrow> (case m of User_Request t \<Rightarrow> Some (planner_handle env an t) | _ \<Rightarrow> None)
     | Plan_Decision \<Rightarrow> (case m of Planned_Task t plan \<Rightarrow> Some (plan_decision_handle t plan) | _ \<Rightarrow> None)
     | Clarification \<Rightarrow> (case m of Clarification_Pause t q \<Rightarrow> Some (return (Pause (Ask_Clarification t q))) | _ \<Rightarrow> None)
     | Preflight \<Rightarrow> (case m of Preflight_Request plan \<Rightarrow> Some (preflight_handle env an plan) | _ \<Rightarrow> None)
     | Login \<Rightarrow> (case m of Login_Pause plan reason email \<Rightarrow> Some (return (Pause (Ask_Login plan reason email))) | _ \<Rightarrow> None)
     | Read_Current \<Rightarrow> (case m of Preflight_Ready plan identity \<Rightarrow> Some (read_current_handle env an plan identity) | _ \<Rightarrow> None)
     | Compute \<Rightarrow> (case m of Current_State plan identity s \<Rightarrow> Some (compute_handle env plan identity s) | _ \<Rightarrow> None)
     | Confirmation \<Rightarrow> (case m of Prepared p \<Rightarrow> Some (confirmation_request_handle p) | _ \<Rightarrow> None)
     | Reread \<Rightarrow> (case m of Approved a \<Rightarrow> Some (reread_handle env an a) | _ \<Rightarrow> None)
     | Drift \<Rightarrow> (case m of Fresh a s \<Rightarrow> Some (drift_handle env a s) | _ \<Rightarrow> None)
     | Mutation \<Rightarrow> (case m of Command c \<Rightarrow> Some (mutation_handle env an c) | _ \<Rightarrow> None)
     | Reconciliation \<Rightarrow> (case m of Reconciliation_Request m \<Rightarrow> Some (reconciliation_handle env an m) | _ \<Rightarrow> None)
     | Verification \<Rightarrow> (case m of Verification_Request m \<Rightarrow> Some (verification_handle env an m) | _ \<Rightarrow> None)
     | Verification_Decision \<Rightarrow> (case m of Verification_Outcome p m v \<Rightarrow> Some (decision_handle env p m v) | _ \<Rightarrow> None)
     | Audit_Finalization \<Rightarrow> (case m of Terminal r \<Rightarrow> Some (audit_handle env r) | _ \<Rightarrow> None))"

section \<open>Runs\<close>

text \<open>
  Where a run is: a message on its way to a node, a question to the operator, its output, an
  exception that left an executor, or a message no executor takes.
\<close>

datatype pending =
    Deliver node message
  | Paused pause
  | Finished run_result
  | Failed exn
  | Undelivered message

definition deliver :: "node \<Rightarrow> message \<Rightarrow> pending" where
  "deliver n m = (case targets n m of [t] \<Rightarrow> Deliver t m | _ \<Rightarrow> Undelivered m)"

fun after_node :: "node \<Rightarrow> outcome res \<Rightarrow> pending" where
  "after_node n (Inl e) = Failed e"
| "after_node n (Inr (Send m)) = deliver n m"
| "after_node n (Inr (Pause p)) = Paused p"
| "after_node n (Inr (Output r)) = Finished r"

type_synonym config = "pending \<times> world"

definition after_act :: "node \<Rightarrow> outcome res \<times> world \<Rightarrow> config" where
  "after_act n rw = (after_node n (fst rw), snd rw)"

definition run_deliver :: "workflow_env \<Rightarrow> answers \<Rightarrow> node \<Rightarrow> message \<Rightarrow> world \<Rightarrow> config" where
  "run_deliver env an n m w =
     (case run_node env an n m of None \<Rightarrow> (Undelivered m, w) | Some act \<Rightarrow> after_act n (act w))"

inductive step :: "workflow_env \<Rightarrow> config \<Rightarrow> config \<Rightarrow> bool" for env where
  handled: "step env (Deliver n m, w) (run_deliver env an n m w)"
| clarified: "step env (Paused (Ask_Clarification original question), w)
     (after_act Clarification (clarification_resume original response w))"
| logged_in: "step env (Paused (Ask_Login plan reason email), w)
     (after_act Login (login_resume plan completed w))"
| confirmed: "step env (Paused (Ask_Confirmation presentation p), w)
     (after_act Confirmation (confirmation_resume env presentation p response w))"

inductive_cases stepE [elim]: "step env c d"
inductive_simps step_final [simp]:
  "step env (Finished r, w) d" "step env (Failed e, w) d" "step env (Undelivered m, w) d"

definition starts :: "config \<Rightarrow> bool" where
  "starts c \<longleftrightarrow> (\<exists>t r w. c = (Deliver Planner (User_Request t), w) \<and> make_request_text r = Inr t \<and>
     wd_calls w = [] \<and> \<not> au_started (wd_auditor w))"

inductive reachable :: "workflow_env \<Rightarrow> config \<Rightarrow> bool" for env where
  reachable_start: "starts c \<Longrightarrow> reachable env c"
| reachable_step: "reachable env c \<Longrightarrow> step env c d \<Longrightarrow> reachable env d"

end
