(* ===== verification/Previews.thy ===== *)
theory Previews
  imports Workflow
begin

text \<open>
  Read-only previews: \<^verbatim>\<open>schemas/operations.py\<close>, \<^verbatim>\<open>schemas/compliance_operations.py\<close>,
  \<^verbatim>\<open>application/impact_service.py\<close>, \<^verbatim>\<open>application/change_presentation.py\<close>,
  \<^verbatim>\<open>application/dry_run_service.py\<close>, \<^verbatim>\<open>application/dry_run_audit_service.py\<close> and
  \<^verbatim>\<open>CompliancePreviewService\<close>. A preview works on the world of a run; its preflight and its
  reader answer as those of the workflow do.
\<close>

section \<open>Impact\<close>

datatype impact_level = Standard | Broad | Destructive

fun impact_level_value :: "impact_level \<Rightarrow> string" where
  "impact_level_value Standard = ''standard''"
| "impact_level_value Broad = ''broad''"
| "impact_level_value Destructive = ''destructive''"

record impact_assessment =
  im_level :: impact_level
  im_rules_created :: nat
  im_rules_updated :: nat
  im_rules_removed :: nat
  im_lists_created :: nat
  im_lists_updated :: nat
  im_lists_removed :: nat
  im_entries :: nat
  im_root_ou :: bool
  im_ownership :: bool

text \<open>The values of a list by its identifier; the symmetric difference of two sets of values.\<close>

definition values_at :: "(uuid, address_list) dict \<Rightarrow> uuid \<Rightarrow> string list" where
  "values_at d i = (case dict_get d i of None \<Rightarrow> [] | Some l \<Rightarrow> entry_values (al_entries l))"

definition entry_change :: "string list \<Rightarrow> string list \<Rightarrow> nat" where
  "entry_change before after =
     length (remdups (filter (\<lambda>v. v \<notin> set after) before)) +
     length (remdups (filter (\<lambda>v. v \<notin> set before) after))"

definition affected_entry_count :: "change_set \<Rightarrow> nat" where
  "affected_entry_count c =
     (let before = dict_of al_id (bs_lists (ch_before c));
          after = dict_of al_id (bs_lists (ch_after c))
      in sum_list (map (\<lambda>i. entry_change (values_at before i) (values_at after i))
           (remdups (dict_keys before @ dict_keys after))))"

definition assess_impact :: "change_set \<Rightarrow> desired_state_result \<Rightarrow> bool \<Rightarrow> impact_assessment" where
  "assess_impact c desired ownership_verified =
     (let destructive = ch_rules_remove c \<noteq> [] \<or> ch_lists_remove c \<noteq> [];
          touched_rule_ids = remdups (map br_id (ch_rules_create c @ ch_rules_update c @ ch_rules_remove c));
          affected = affected_entry_count c;
          broad = length touched_rule_ids > 1 \<or> dr_notice_affected desired > 1
      in \<lparr>im_level = (if destructive then Destructive else if broad then Broad else Standard),
          im_rules_created = length (ch_rules_create c), im_rules_updated = length (ch_rules_update c),
          im_rules_removed = length (ch_rules_remove c), im_lists_created = length (ch_lists_create c),
          im_lists_updated = length (ch_lists_update c), im_lists_removed = length (ch_lists_remove c),
          im_entries = max affected (dr_notice_affected desired),
          im_root_ou = (bs_ou (ch_before c) = ''/''), im_ownership = ownership_verified\<rparr>)"

section \<open>The presented differences of the address lists\<close>

record list_delta =
  ld_added :: "address_entry list"
  ld_removed :: "address_entry list"

definition list_delta_of :: "(uuid, address_list) dict \<Rightarrow> address_list \<Rightarrow> list_delta" where
  "list_delta_of before updated =
     (let previous_entries = (case dict_get before (al_id updated) of None \<Rightarrow> [] | Some l \<Rightarrow> al_entries l)
      in \<lparr>ld_added = filter (\<lambda>e. ae_normalized_value e \<notin> set (entry_values previous_entries)) (al_entries updated),
          ld_removed = filter (\<lambda>e. ae_normalized_value e \<notin> set (entry_values (al_entries updated))) previous_entries\<rparr>)"

definition address_list_deltas :: "change_set \<Rightarrow> (string, list_delta) dict" where
  "address_list_deltas c =
     (let before = dict_of al_id (bs_lists (ch_before c))
      in fold (\<lambda>l d. dict_put (uuid_hex (al_id l)) (list_delta_of before l) d) (ch_lists_update c) [])"

section \<open>Dry runs\<close>

datatype preview_status = Preview_Ready | Preview_No_Change | Preview_Blocked

fun preview_status_value :: "preview_status \<Rightarrow> string" where
  "preview_status_value Preview_Ready = ''preview_ready''"
| "preview_status_value Preview_No_Change = ''no_change''"
| "preview_status_value Preview_Blocked = ''blocked''"

record dry_run_result =
  dy_status :: preview_status
  dy_plan :: task_plan
  dy_current :: "blocked_state option"
  dy_desired :: "blocked_state option"
  dy_change :: "change_set option"
  dy_impact :: "impact_assessment option"
  dy_plan_hash :: string
  dy_before_hash :: "string option"
  dy_change_hash :: "string option"
  dy_reason :: "string option"

definition make_dry_run_result :: "dry_run_result \<Rightarrow> dry_run_result res" where
  "make_dry_run_result r =
     (if \<not> sha256_digest (dy_plan_hash r) \<or> \<not> digest_or_none (dy_before_hash r) \<or>
         \<not> digest_or_none (dy_change_hash r) then Inl ValidationError
      else if dy_status r = Preview_Blocked then
        (if \<not> given (dy_reason r) then Inl ValidationError else Inr r)
      else if dy_current r = None \<or> dy_desired r = None \<or> dy_change r = None \<or> dy_impact r = None \<or>
         dy_before_hash r = None \<or> dy_change_hash r = None then Inl ValidationError
      else Inr r)"

definition blocked_preview :: "task_plan \<Rightarrow> string \<Rightarrow> string \<Rightarrow> dry_run_result res" where
  "blocked_preview plan plan_hash reason =
     make_dry_run_result \<lparr>dy_status = Preview_Blocked, dy_plan = plan, dy_current = None, dy_desired = None,
       dy_change = None, dy_impact = None, dy_plan_hash = plan_hash, dy_before_hash = None,
       dy_change_hash = None, dy_reason = Some reason\<rparr>"

definition preflight_block_reason :: "string \<Rightarrow> string \<Rightarrow> preflight_result \<Rightarrow> string option" where
  "preflight_block_reason expected_email expected_domain result =
     (case pf_identity result of
        None \<Rightarrow> Some ''dry_run_preflight_not_ready''
      | Some identity \<Rightarrow>
          if pf_status result \<noteq> Ready then Some ''dry_run_preflight_not_ready''
          else if py_casefold (pi_email identity) \<noteq> py_casefold expected_email then Some ''wrong_administrator''
          else if py_casefold (pi_domain identity) \<noteq> py_casefold expected_domain
            then Some ''workspace_identity_mismatch''
          else None)"

definition ownership_is_complete :: "change_set \<Rightarrow> registry \<Rightarrow> bool" where
  "ownership_is_complete c g =
     list_all (\<lambda>i. find_record g i \<noteq> None)
       (map br_id (ch_rules_update c @ ch_rules_remove c) @ map al_id (ch_lists_update c @ ch_lists_remove c))"

text \<open>
  The body of the \<^verbatim>\<open>try\<close>: a reason to stop, or the state read, the registry and the
  calculation on them.
\<close>

type_synonym dry_run_calculation = "blocked_state \<times> registry \<times> desired_state_result \<times> change_set"

definition dry_run_calculation ::
    "workflow_env \<Rightarrow> answers \<Rightarrow> task_plan \<Rightarrow> (world, string + dry_run_calculation) act" where
  "dry_run_calculation env an plan =
     bind (ask Preflight_Call (an_preflight an)) (\<lambda>preflight.
     andthen (on_auditor (record_preflight (we_audit env) preflight))
     (case preflight_block_reason (we_email env) (we_domain env) preflight of
        Some reason \<Rightarrow> return (Inl reason)
      | None \<Rightarrow>
          bind (ask Read_Call (an_state an)) (\<lambda>current.
          andthen (on_auditor (record_state (we_audit env) Before_Stage current))
          (bind (on_store load_registry) (\<lambda>g.
           bind (calculate_change (env\<lparr>we_registry := g\<rparr>) plan current) (\<lambda>(desired, change).
           return (Inr (current, g, desired, change))))))))"

definition dry_run_preview :: "workflow_env \<Rightarrow> answers \<Rightarrow> task_plan \<Rightarrow> (world, dry_run_result) act" where
  "dry_run_preview env an plan =
     (let plan_hash = canonical_hash (text_hash env) (dump_task_plan plan)
      in andthen (on_auditor (record_plan (we_audit env) plan))
         (bind (catch (dry_run_calculation env an plan) (\<lambda>e. is_compliance_error e \<or> is_os_error e)
             (\<lambda>e. return (Inl (exn_name e)))) (\<lambda>calculated.
          case calculated of
            Inl reason \<Rightarrow> lift (blocked_preview plan plan_hash reason)
          | Inr (current, g, desired, change) \<Rightarrow>
              let prepared = \<lparr>pc_plan = plan, pc_current = current, pc_desired = desired,
                    pc_change = change, pc_plan_hash = plan_hash,
                    pc_before_hash = canonical_hash (text_hash env) (dump_blocked_state current),
                    pc_change_hash = canonical_hash (text_hash env) (dump_change_set change)\<rparr>
              in andthen (on_auditor (record_prepared_change (we_audit env) prepared))
                 (lift (make_dry_run_result
                   \<lparr>dy_status = (if has_mutations change then Preview_Ready else Preview_No_Change),
                    dy_plan = plan, dy_current = Some current, dy_desired = Some (dr_state desired),
                    dy_change = Some change,
                    dy_impact = Some (assess_impact change desired (ownership_is_complete change g)),
                    dy_plan_hash = plan_hash, dy_before_hash = Some (pc_before_hash prepared),
                    dy_change_hash = Some (pc_change_hash prepared), dy_reason = None\<rparr>)))))"

section \<open>The terminal evidence of a dry run\<close>

definition dump_impact :: "impact_assessment \<Rightarrow> json" where
  "dump_impact m = JObj [(''level'', JStr (impact_level_value (im_level m))),
     (''rules_created'', JInt (int (im_rules_created m))), (''rules_updated'', JInt (int (im_rules_updated m))),
     (''rules_removed'', JInt (int (im_rules_removed m))),
     (''address_lists_created'', JInt (int (im_lists_created m))),
     (''address_lists_updated'', JInt (int (im_lists_updated m))),
     (''address_lists_removed'', JInt (int (im_lists_removed m))),
     (''affected_entries'', JInt (int (im_entries m))), (''root_ou_confirmed'', JBool (im_root_ou m)),
     (''ownership_verified'', JBool (im_ownership m))]"

definition dump_dry_run :: "dry_run_result \<Rightarrow> json" where
  "dump_dry_run r = JObj [(''status'', JStr (preview_status_value (dy_status r))),
     (''plan'', dump_task_plan (dy_plan r)), (''current_state'', dump_option dump_blocked_state (dy_current r)),
     (''desired_state'', dump_option dump_blocked_state (dy_desired r)),
     (''change_set'', dump_option dump_change_set (dy_change r)),
     (''impact'', dump_option dump_impact (dy_impact r)), (''plan_hash'', JStr (dy_plan_hash r)),
     (''before_state_hash'', dump_option JStr (dy_before_hash r)),
     (''change_set_hash'', dump_option JStr (dy_change_hash r)), (''reason_code'', dump_option JStr (dy_reason r))]"

definition dry_run_status :: "dry_run_result \<Rightarrow> run_status" where
  "dry_run_status r =
     (case dy_status r of Preview_Ready \<Rightarrow> Dry_Run_Preview_Ready | Preview_No_Change \<Rightarrow> No_Change_Required
      | Preview_Blocked \<Rightarrow> Failed_Unchanged)"

text \<open>The clock, the sequence number and the writer are those of the auditor of the run.\<close>

definition finalize_dry_run :: "audit_env \<Rightarrow> dry_run_result \<Rightarrow> (auditor, unit) act" where
  "finalize_dry_run env r =
     andthen (put_artifact (''dry-run.json'', json_pretty 0 (dump_dry_run r) @ line_end))
     (bind (audit_now env) (\<lambda>end_time.
      bind (get (\<lambda>a. next_sequence (au_writer a))) (\<lambda>n.
      bind (lift (make_event (event_of env ((facts ''dry_run_finalized'' ''dry_run_audit_finalization_service''
          (preview_status_value (dy_status r)))\<lparr>ef_error := dy_reason r\<rparr>) n end_time))) (\<lambda>e.
      andthen (on_writer (append_event (en_hash env) (en_iso env) e))
      (bind (get (\<lambda>a. writer_files (au_writer a))) (\<lambda>files.
       bind (lift (digest_artifacts (en_sha env) files)) (\<lambda>digests.
       bind (lift (make_manifest (manifest_of (en_metadata env) end_time
           (plain_result (dry_run_status r) None) digests))) (\<lambda>m.
       put_artifact (''manifest.json'',
         json_pretty 0 (dump_manifest (en_iso env) (en_metadata env) m) @ line_end)))))))))"

section \<open>Previews of content compliance\<close>

record compliance_impact =
  ci_level :: impact_level
  ci_created :: nat
  ci_updated :: nat
  ci_removed :: nat
  ci_ous :: "string list"
  ci_directions :: "string list"
  ci_expressions :: nat

record compliance_dry_run =
  cd_status :: preview_status
  cd_plan :: task_plan
  cd_current :: "compliance_state option"
  cd_desired :: "compliance_state option"
  cd_change :: "compliance_change_set option"
  cd_impact :: "compliance_impact option"
  cd_plan_hash :: string
  cd_before_hash :: "string option"
  cd_change_hash :: "string option"
  cd_reason :: "string option"

definition make_compliance_dry_run :: "compliance_dry_run \<Rightarrow> compliance_dry_run res" where
  "make_compliance_dry_run r =
     (if \<not> sha256_digest (cd_plan_hash r) \<or> \<not> digest_or_none (cd_before_hash r) \<or>
         \<not> digest_or_none (cd_change_hash r) then Inl ValidationError
      else if cd_status r = Preview_Blocked then
        (if \<not> given (cd_reason r) then Inl ValidationError else Inr r)
      else if cd_current r = None \<or> cd_desired r = None \<or> cd_change r = None \<or> cd_impact r = None \<or>
         cd_before_hash r = None \<or> cd_change_hash r = None then Inl ValidationError
      else Inr r)"

definition touched_rules :: "compliance_change_set \<Rightarrow> compliance_rule list" where
  "touched_rules c = cc_create c @ cc_update c @ cc_remove c"

definition assess_compliance_impact :: "compliance_change_set \<Rightarrow> compliance_impact" where
  "assess_compliance_impact c =
     (let touched = touched_rules c;
          ous = sort (remdups (map (\<lambda>r. ou_path (cr_ou r)) touched));
          removals = length (cc_remove c)
      in \<lparr>ci_level = (if removals > 0 then Destructive else if length ous > 1 then Broad else Standard),
          ci_created = length (cc_create c), ci_updated = length (cc_update c), ci_removed = removals,
          ci_ous = ous,
          ci_directions = sort (remdups (concat (map (\<lambda>r. map direction_value (cr_directions r)) touched))),
          ci_expressions = sum_list (map (\<lambda>r. length (cr_expressions r)) touched)\<rparr>)"

text \<open>\<^verbatim>\<open>CompliancePreviewService.preview\<close>; the number is that of the identifiers handed out.\<close>

definition compliance_preview ::
    "(string \<Rightarrow> string) \<Rightarrow> (string \<Rightarrow> bool) \<Rightarrow> (nat \<Rightarrow> uuid) \<Rightarrow> string \<Rightarrow> task_plan \<Rightarrow> compliance_state \<Rightarrow>
      registry \<Rightarrow> (nat, compliance_dry_run) act" where
  "compliance_preview H re2_ok supply prefix plan current g =
     bind (\<lambda>n. prod.swap (change_service_compliance re2_ok supply prefix plan current g n)) (\<lambda>(desired, change).
     lift (make_compliance_dry_run
       \<lparr>cd_status = (if has_compliance_mutations change then Preview_Ready else Preview_No_Change),
        cd_plan = plan, cd_current = Some current, cd_desired = Some desired, cd_change = Some change,
        cd_impact = Some (assess_compliance_impact change),
        cd_plan_hash = canonical_hash H (dump_task_plan plan),
        cd_before_hash = Some (canonical_hash H (dump_compliance_state current)),
        cd_change_hash = Some (canonical_hash H (dump_compliance_change_set change)), cd_reason = None\<rparr>))"

section \<open>What an impact says\<close>

lemma entry_change_0: "entry_change xs ys = 0 \<longleftrightarrow> set xs = set ys"
  by (auto simp: entry_change_def filter_empty_conv)

text \<open>
  No entry is affected exactly when every list has the same values before and after; a list
  that does not exist has none.
\<close>

lemma affected_entry_count_0:
  "affected_entry_count c = 0 \<longleftrightarrow>
     (\<forall>i. set (values_at (dict_of al_id (bs_lists (ch_before c))) i) =
          set (values_at (dict_of al_id (bs_lists (ch_after c))) i))"
proof -
  have absent: "dict_get d i = None" if "i \<notin> set (dict_keys d)" for d :: "(uuid, address_list) dict" and i
    using that by (metis dom_map_of_conv_image_fst domIff set_map)
  define b a where "b = dict_of al_id (bs_lists (ch_before c))" and "a = dict_of al_id (bs_lists (ch_after c))"
  have "affected_entry_count c = 0 \<longleftrightarrow>
      (\<forall>i \<in> set (dict_keys b @ dict_keys a). set (values_at b i) = set (values_at a i))"
    by (simp add: affected_entry_count_def entry_change_0 sum_list_eq_0_iff flip: a_def b_def)
  moreover have "set (values_at b i) = set (values_at a i)" if "i \<notin> set (dict_keys b @ dict_keys a)" for i
    using that absent [of i b] absent [of i a] by (simp add: values_at_def)
  ultimately show ?thesis unfolding a_def b_def by blast
qed

text \<open>The presented difference of a list leads from its old values to its new ones.\<close>

lemma list_delta_exact:
  "(set (entry_values (case dict_get before (al_id l) of None \<Rightarrow> [] | Some p \<Rightarrow> al_entries p)) -
      set (entry_values (ld_removed (list_delta_of before l)))) \<union> set (entry_values (ld_added (list_delta_of before l))) =
   set (entry_values (al_entries l))"
  by (fastforce simp: list_delta_of_def Let_def intro: rev_image_eqI)

lemma assess_impact_level:
  "im_level (assess_impact c d v) = Destructive \<longleftrightarrow> ch_rules_remove c \<noteq> [] \<or> ch_lists_remove c \<noteq> []"
  "im_level (assess_impact c d v) = Standard \<Longrightarrow>
     length (remdups (map br_id (ch_rules_create c @ ch_rules_update c))) \<le> 1 \<and> dr_notice_affected d \<le> 1"
  by (auto simp: assess_impact_def Let_def split: if_splits)

section \<open>What a preview says\<close>

lemma make_dry_run_result_Inr:
  "make_dry_run_result r = Inr x \<longleftrightarrow> x = r \<and> sha256_digest (dy_plan_hash r) \<and> digest_or_none (dy_before_hash r) \<and>
     digest_or_none (dy_change_hash r) \<and>
     (if dy_status r = Preview_Blocked then given (dy_reason r)
      else dy_current r \<noteq> None \<and> dy_desired r \<noteq> None \<and> dy_change r \<noteq> None \<and> dy_impact r \<noteq> None \<and>
        dy_before_hash r \<noteq> None \<and> dy_change_hash r \<noteq> None)"
  by (auto simp: make_dry_run_result_def)

text \<open>
  A dry run asks for a preflight and at most one read, and nothing else: no change set reaches
  the console and no confirmation is asked for.
\<close>

definition read_only :: "call list \<Rightarrow> bool" where
  "read_only cs \<longleftrightarrow> (\<exists>p r. cs = [] \<or> cs = [Preflight_Call p] \<or> cs = [Preflight_Call p, Read_Call r])"

lemma on_auditor_calls: "on_auditor m w = (r, v) \<Longrightarrow> wd_calls v = wd_calls w \<and> wd_store v = wd_store w \<and> wd_ids v = wd_ids w"
  by (auto simp: on_auditor_def split: prod.splits)

lemma on_store_calls: "on_store m w = (r, v) \<Longrightarrow> wd_calls v = wd_calls w"
  by (auto simp: on_store_def split: prod.splits)

lemma calculate_change_calls:
  "calculate_change env plan s w = (r, v) \<Longrightarrow> wd_calls v = wd_calls w \<and> wd_store v = wd_store w \<and>
     r = snd (change_service_calculate (we_supply env) (we_prefix env) plan s (we_registry env) (wd_ids w))"
  by (auto simp: calculate_change_def split: prod.splits)

text \<open>
  What a successful calculation rests on: the answers of the adapters, the registry of the
  store, and the calculation on them.
\<close>

lemma dry_run_calculation_cases:
  assumes "dry_run_calculation env an plan w = (r, v)"
  shows "\<exists>cs. wd_calls v = wd_calls w @ cs \<and> read_only cs \<and>
    (\<forall>s g d c. r = Inr (Inr (s, g, d, c)) \<longrightarrow>
       cs = [Preflight_Call (an_preflight an), Read_Call (Inr s)] \<and> an_state an = Inr s \<and>
       (\<exists>p. an_preflight an = Inr p \<and> preflight_block_reason (we_email env) (we_domain env) p = None) \<and>
       g = (case st_registry (wd_store w) of None \<Rightarrow> empty_registry | Some g \<Rightarrow> g) \<and>
       (\<exists>n. snd (change_service_calculate (we_supply env) (we_prefix env) plan s g n) = Inr (d, c)))"
  using assms
  by (auto simp: dry_run_calculation_def bind_def andthen_def ask_def read_only_def on_store_def load_registry_def
      next_fault_def get_def
      split: prod.splits sum.splits option.splits if_splits list.splits
      dest!: on_auditor_calls calculate_change_calls)

text \<open>The evidence of a preview that is not blocked, from the state read and the registry.\<close>

definition exact_evidence :: "(string \<Rightarrow> string) \<Rightarrow> registry \<Rightarrow> blocked_state \<Rightarrow> desired_state_result \<Rightarrow> change_set \<Rightarrow> dry_run_result \<Rightarrow> bool" where
  "exact_evidence H g s d c r \<longleftrightarrow>
     dy_status r = (if has_mutations c then Preview_Ready else Preview_No_Change) \<and>
     dy_current r = Some s \<and> dy_desired r = Some (dr_state d) \<and> dy_change r = Some c \<and>
     dy_impact r = Some (assess_impact c d (ownership_is_complete c g)) \<and>
     dy_before_hash r = Some (canonical_hash H (dump_blocked_state s)) \<and>
     dy_change_hash r = Some (canonical_hash H (dump_change_set c)) \<and> dy_reason r = None"

lemma dry_run_preview_cases:
  assumes "dry_run_preview env an plan w = (Inr r, v)"
  shows "\<exists>cs. wd_calls v = wd_calls w @ cs \<and> read_only cs \<and> dy_plan r = plan \<and>
    dy_plan_hash r = canonical_hash (text_hash env) (dump_task_plan plan) \<and>
    (if dy_status r = Preview_Blocked then dy_change r = None \<and> given (dy_reason r)
     else \<exists>s g d c. exact_evidence (text_hash env) g s d c r \<and> an_state an = Inr s \<and>
       cs = [Preflight_Call (an_preflight an), Read_Call (Inr s)] \<and>
       (\<exists>p. an_preflight an = Inr p \<and> preflight_block_reason (we_email env) (we_domain env) p = None) \<and>
       g = (case st_registry (wd_store w) of None \<Rightarrow> empty_registry | Some g \<Rightarrow> g) \<and>
       (\<exists>n. snd (change_service_calculate (we_supply env) (we_prefix env) plan s g n) = Inr (d, c)))"
proof -
  obtain u where u: "on_auditor (record_plan (we_audit env) plan) w = (Inr (), u)"
    using assms by (auto simp: dry_run_preview_def Let_def andthen_Inr_iff)
  note same = on_auditor_calls [OF u]
  obtain x t where x: "dry_run_calculation env an plan u = (x, t)" by fastforce
  from dry_run_calculation_cases [OF x] obtain cs where cs: "wd_calls t = wd_calls w @ cs" "read_only cs"
    and more: "\<And>s g d c. x = Inr (Inr (s, g, d, c)) \<Longrightarrow>
       cs = [Preflight_Call (an_preflight an), Read_Call (Inr s)] \<and> an_state an = Inr s \<and>
       (\<exists>p. an_preflight an = Inr p \<and> preflight_block_reason (we_email env) (we_domain env) p = None) \<and>
       g = (case st_registry (wd_store w) of None \<Rightarrow> empty_registry | Some g \<Rightarrow> g) \<and>
       (\<exists>n. snd (change_service_calculate (we_supply env) (we_prefix env) plan s g n) = Inr (d, c))"
    using same by auto
  consider (stop) reason where "lift (blocked_preview plan (canonical_hash (text_hash env) (dump_task_plan plan)) reason) t = (Inr r, v)"
    | (go) s g d c where "x = Inr (Inr (s, g, d, c))"
    using assms u x
    by (auto simp: dry_run_preview_def Let_def andthen_def bind_def catch_def return_def
        split: sum.splits prod.splits if_splits)
  then show ?thesis
  proof cases
    case stop
    then show ?thesis using cs by (auto simp: blocked_preview_def make_dry_run_result_Inr)
  next
    case go
    from assms u x go have "wd_calls v = wd_calls t \<and> dy_plan r = plan \<and> exact_evidence (text_hash env) g s d c r \<and>
        dy_plan_hash r = canonical_hash (text_hash env) (dump_task_plan plan)"
      by (auto simp: dry_run_preview_def Let_def andthen_def bind_def catch_def lift_def make_dry_run_result_Inr exact_evidence_def
          split: sum.splits prod.splits dest!: on_auditor_calls)
    then show ?thesis using cs more [OF go]
      by (intro exI [of _ cs]) (auto simp: exact_evidence_def)
  qed
qed

end
