(* ===== verification/Approvals.thy ===== *)
theory Approvals
  imports Previews
begin

text \<open>
  One-time approvals: \<^verbatim>\<open>application/approval_service.py\<close>, \<^verbatim>\<open>ComplianceApprovalService\<close>
  of \<^verbatim>\<open>application/compliance_preview_service.py\<close>, the permit of
  \<^verbatim>\<open>browser/pages/content_compliance.py\<close> and
  \<^verbatim>\<open>application/compliance_browser_service.py\<close>. The state of a service is its dictionary
  of pending approvals by run identifier. What both services promise is the locale
  \<open>one_time_approval\<close>.
\<close>

section \<open>Times and phrases\<close>

text \<open>
  \<^verbatim>\<open>a >= b\<close> on times raises when one is naive and the other aware; times are counted in
  microseconds.
\<close>

fun time_reached :: "py_datetime \<Rightarrow> py_datetime \<Rightarrow> bool res" where
  "time_reached (Aware a) (Aware b) = Inr (b \<le> a)"
| "time_reached (Naive a) (Naive b) = Inr (b \<le> a)"
| "time_reached _ _ = Inl TypeError"

fun plus_seconds :: "py_datetime \<Rightarrow> int \<Rightarrow> py_datetime" where
  "plus_seconds (Aware a) n = Aware (a + n * 1000000)"
| "plus_seconds (Naive a) n = Naive (a + n * 1000000)"

text \<open>\<^verbatim>\<open>hmac.compare_digest\<close> takes only ASCII strings.\<close>

definition is_ascii :: "string \<Rightarrow> bool" where
  "is_ascii s \<longleftrightarrow> list_all (\<lambda>c. (of_char c :: nat) < 128) s"

definition compare_digest :: "string \<Rightarrow> string \<Rightarrow> bool res" where
  "compare_digest a b = (if is_ascii a \<and> is_ascii b then Inr (a = b) else Inl TypeError)"

definition apply_phrase :: "string \<Rightarrow> string" where
  "apply_phrase run_id = ''APPLY '' @ hex_upper (take 4 run_id)"

text \<open>\<^verbatim>\<open>not acknowledged or not hmac.compare_digest(phrase.strip(), expected)\<close>.\<close>

definition phrase_accepted :: "bool \<Rightarrow> string \<Rightarrow> string \<Rightarrow> bool res" where
  "phrase_accepted acknowledged phrase expected =
     (if \<not> acknowledged then Inr False else compare_digest (py_strip phrase) expected)"

section \<open>Approvals of blocked-sender previews\<close>

record pending_approval =
  pn_run_id :: string
  pn_plan_hash :: string
  pn_before_hash :: string
  pn_change_hash :: string
  pn_phrase :: string
  pn_expires :: py_datetime

type_synonym 'a pending = "(string, 'a) dict"

definition make_pending_approval :: "pending_approval \<Rightarrow> pending_approval res" where
  "make_pending_approval a =
     (if sha256_digest (pn_plan_hash a) \<and> sha256_digest (pn_before_hash a) \<and> sha256_digest (pn_change_hash a)
      then Inr a else Inl ValidationError)"

definition make_confirmation_response :: "confirmation_response \<Rightarrow> confirmation_response res" where
  "make_confirmation_response r =
     (if 1 \<le> length (cf_approval_id r) \<and> length (cf_approval_id r) \<le> 200 \<and> sha256_digest (cf_plan_hash r) \<and>
         sha256_digest (cf_before_hash r) \<and> sha256_digest (cf_change_hash r)
      then Inr r else Inl ValidationError)"

definition issue_approval ::
    "int \<Rightarrow> string \<Rightarrow> dry_run_result \<Rightarrow> py_datetime \<Rightarrow> (pending_approval pending, pending_approval) act" where
  "issue_approval ttl run_id preview now =
     (if dy_status preview \<noteq> Preview_Ready \<or> dy_before_hash preview = None \<or> dy_change_hash preview = None \<or>
         dy_change preview = None then raise ValueError
      else bind (lift (make_pending_approval \<lparr>pn_run_id = run_id, pn_plan_hash = dy_plan_hash preview,
          pn_before_hash = the (dy_before_hash preview), pn_change_hash = the (dy_change_hash preview),
          pn_phrase = apply_phrase run_id, pn_expires = plus_seconds now ttl\<rparr>)) (\<lambda>a.
        andthen (update (dict_put run_id a)) (return a)))"

definition approve_run ::
    "string \<Rightarrow> string \<Rightarrow> bool \<Rightarrow> string \<Rightarrow> py_datetime \<Rightarrow> (pending_approval pending, confirmation_response) act" where
  "approve_run run_id phrase acknowledged approval_id now =
     bind (get (\<lambda>d. dict_get d run_id)) (\<lambda>approval. case approval of
        None \<Rightarrow> andthen (update (dict_del run_id)) (raise ValueError)
      | Some a \<Rightarrow>
          bind (lift (time_reached now (pn_expires a))) (\<lambda>expired.
          if expired then andthen (update (dict_del run_id)) (raise ValueError)
          else bind (lift (phrase_accepted acknowledged phrase (pn_phrase a))) (\<lambda>accepted.
          if \<not> accepted then raise ValueError
          else andthen (update (dict_del run_id))
            (lift (make_confirmation_response \<lparr>cf_approved = True, cf_approval_id = approval_id,
               cf_plan_hash = pn_plan_hash a, cf_before_hash = pn_before_hash a,
               cf_change_hash = pn_change_hash a\<rparr>)))))"

definition get_approval :: "string \<Rightarrow> py_datetime \<Rightarrow> (pending_approval pending, pending_approval option) act" where
  "get_approval run_id now =
     bind (get (\<lambda>d. dict_get d run_id)) (\<lambda>approval. case approval of
        None \<Rightarrow> return None
      | Some a \<Rightarrow> bind (lift (time_reached now (pn_expires a))) (\<lambda>expired.
          if expired then andthen (update (dict_del run_id)) (return None) else return (Some a)))"

definition cancel_approval :: "string \<Rightarrow> (pending_approval pending, unit) act" where
  "cancel_approval run_id = update (dict_del run_id)"

section \<open>Approvals of content-compliance previews\<close>

datatype compliance_operation = Op_Create | Op_Update | Op_Remove | Op_Set_Enabled

record compliance_pending = pending_approval +
  cn_ou :: string
  cn_rule_hash :: string
  cn_target :: uuid
  cn_operation :: compliance_operation

fun compliance_operation_of :: "action \<Rightarrow> compliance_operation option" where
  "compliance_operation_of (Create_Content_Compliance_Rule _) = Some Op_Create"
| "compliance_operation_of (Update_Content_Compliance_Rule _ _) = Some Op_Update"
| "compliance_operation_of (Remove_Content_Compliance_Rule _) = Some Op_Remove"
| "compliance_operation_of (Set_Content_Compliance_Rule_Enabled _ _) = Some Op_Set_Enabled"
| "compliance_operation_of _ = None"

definition mutation_operations :: "task_plan \<Rightarrow> compliance_operation list" where
  "mutation_operations plan = List.map_filter compliance_operation_of (tp_actions plan)"

text \<open>Of the digests of a pending compliance approval only that of the rule is validated.\<close>

definition issue_compliance_approval ::
    "(string \<Rightarrow> string) \<Rightarrow> int \<Rightarrow> string \<Rightarrow> compliance_dry_run \<Rightarrow> py_datetime \<Rightarrow>
      (compliance_pending pending, compliance_pending) act" where
  "issue_compliance_approval H ttl run_id preview now =
     (case (cd_impact preview, cd_change preview, cd_before_hash preview, cd_change_hash preview) of
        (Some impact, Some change, Some before_hash, Some change_hash) \<Rightarrow>
          if cd_status preview \<noteq> Preview_Ready \<or> length (ci_ous impact) \<noteq> 1 then raise ValueError
          else (case (touched_rules change, mutation_operations (cd_plan preview)) of
            ([rule], [operation]) \<Rightarrow>
              let rule_hash = canonical_hash H (dump_compliance_rule rule);
                  a = \<lparr>pn_run_id = run_id, pn_plan_hash = cd_plan_hash preview, pn_before_hash = before_hash,
                    pn_change_hash = change_hash, pn_phrase = apply_phrase run_id, pn_expires = plus_seconds now ttl,
                    cn_ou = hd (ci_ous impact), cn_rule_hash = rule_hash, cn_target = cr_id rule,
                    cn_operation = operation\<rparr>
              in if \<not> sha256_digest rule_hash then raise ValidationError
                 else andthen (update (dict_put run_id a)) (return a)
          | _ \<Rightarrow> raise ValueError)
      | _ \<Rightarrow> raise ValueError)"

record compliance_permit =
  pe_approval_id :: string
  pe_plan_hash :: string
  pe_before_hash :: string
  pe_change_hash :: string
  pe_rule_hash :: string
  pe_ou :: string
  pe_target :: uuid
  pe_operation :: compliance_operation
  pe_approved :: bool

definition make_compliance_permit :: "compliance_permit \<Rightarrow> compliance_permit res" where
  "make_compliance_permit p =
     (if 1 \<le> length (pe_approval_id p) \<and> length (pe_approval_id p) \<le> 200 \<and> sha256_digest (pe_plan_hash p) \<and>
         sha256_digest (pe_before_hash p) \<and> sha256_digest (pe_change_hash p) \<and> sha256_digest (pe_rule_hash p) \<and>
         1 \<le> length (pe_ou p) \<and> length (pe_ou p) \<le> 1000 \<and> pe_approved p
      then Inr p else Inl ValidationError)"

definition approve_compliance ::
    "string \<Rightarrow> string \<Rightarrow> bool \<Rightarrow> string \<Rightarrow> py_datetime \<Rightarrow> (compliance_pending pending, compliance_permit) act" where
  "approve_compliance run_id phrase acknowledged approval_id now =
     bind (get (\<lambda>d. dict_get d run_id)) (\<lambda>approval. case approval of
        None \<Rightarrow> andthen (update (dict_del run_id)) (raise ValueError)
      | Some a \<Rightarrow>
          bind (lift (time_reached now (pn_expires a))) (\<lambda>expired.
          if expired then andthen (update (dict_del run_id)) (raise ValueError)
          else bind (lift (phrase_accepted acknowledged phrase (pn_phrase a))) (\<lambda>accepted.
          if \<not> accepted then raise ValueError
          else andthen (update (dict_del run_id))
            (lift (make_compliance_permit \<lparr>pe_approval_id = approval_id, pe_plan_hash = pn_plan_hash a,
               pe_before_hash = pn_before_hash a, pe_change_hash = pn_change_hash a,
               pe_rule_hash = cn_rule_hash a, pe_ou = cn_ou a, pe_target = cn_target a,
               pe_operation = cn_operation a, pe_approved = True\<rparr>)))))"

section \<open>The permit at the browser\<close>

text \<open>
  \<^verbatim>\<open>ComplianceBrowserActionService\<close>: the identifiers of consumed approvals; a permit is
  consumed before its page operation is tried. The page is a parameter.
\<close>

datatype page_operation = Apply_Rule | Remove_Rule | Set_Rule_Enabled bool

definition dispatch_operation :: "compliance_rule \<Rightarrow> compliance_permit \<Rightarrow> page_operation" where
  "dispatch_operation rule permit =
     (case pe_operation permit of
        Op_Create \<Rightarrow> Apply_Rule | Op_Update \<Rightarrow> Apply_Rule | Op_Remove \<Rightarrow> Remove_Rule
      | Op_Set_Enabled \<Rightarrow> Set_Rule_Enabled (cr_enabled rule))"

definition execute_permit ::
    "(page_operation \<Rightarrow> compliance_rule \<Rightarrow> compliance_permit \<Rightarrow> 'r res) \<Rightarrow> compliance_rule \<Rightarrow> compliance_permit \<Rightarrow>
      (string list, 'r) act" where
  "execute_permit page rule permit =
     bind (get (\<lambda>consumed. pe_approval_id permit \<in> set consumed)) (\<lambda>used.
     if used then raise StaleConfirmation
     else andthen (update (\<lambda>consumed. pe_approval_id permit # consumed))
       (lift (page (dispatch_operation rule permit) rule permit)))"

section \<open>Requests to an approval service\<close>

text \<open>
  \<open>'e\<close> is the evidence an approval is issued for, \<open>'r\<close> what an approval is turned into, \<open>'o\<close>
  the other requests a service takes. The log records what the service did.
\<close>

datatype ('e, 'o) approval_request =
    Issue string 'e py_datetime
  | Approve string string bool string py_datetime
  | Upkeep 'o

datatype ('e, 'r) approval_event = Issued string 'e py_datetime | Spent string string 'r py_datetime

fun event_run :: "('e, 'r) approval_event \<Rightarrow> string" where
  "event_run (Issued k _ _) = k"
| "event_run (Spent k _ _ _) = k"

fun serve_one ::
    "(string \<Rightarrow> 'e \<Rightarrow> py_datetime \<Rightarrow> ('s, 'a) act) \<Rightarrow>
      (string \<Rightarrow> string \<Rightarrow> bool \<Rightarrow> string \<Rightarrow> py_datetime \<Rightarrow> ('s, 'r) act) \<Rightarrow>
      ('o \<Rightarrow> 's \<Rightarrow> 's) \<Rightarrow> ('e, 'o) approval_request \<Rightarrow> 's \<Rightarrow> ('e, 'r) approval_event list \<times> 's" where
  "serve_one issue approve upkeep (Issue k e t) s =
     (case issue k e t s of (Inl _, u) \<Rightarrow> ([], u) | (Inr _, u) \<Rightarrow> ([Issued k e t], u))"
| "serve_one issue approve upkeep (Approve k phrase acknowledged i now) s =
     (case approve k phrase acknowledged i now s of
        (Inl _, u) \<Rightarrow> ([], u) | (Inr r, u) \<Rightarrow> ([Spent k phrase r now], u))"
| "serve_one issue approve upkeep (Upkeep x) s = ([], upkeep x s)"

fun serve ::
    "(string \<Rightarrow> 'e \<Rightarrow> py_datetime \<Rightarrow> ('s, 'a) act) \<Rightarrow>
      (string \<Rightarrow> string \<Rightarrow> bool \<Rightarrow> string \<Rightarrow> py_datetime \<Rightarrow> ('s, 'r) act) \<Rightarrow>
      ('o \<Rightarrow> 's \<Rightarrow> 's) \<Rightarrow> ('e, 'o) approval_request list \<Rightarrow> 's \<Rightarrow> ('e, 'r) approval_event list \<times> 's" where
  "serve issue approve upkeep [] s = ([], s)"
| "serve issue approve upkeep (x # xs) s =
     (case serve_one issue approve upkeep x s of (l, u) \<Rightarrow>
      case serve issue approve upkeep xs u of (m, v) \<Rightarrow> (l @ m, v))"

section \<open>The contract\<close>

text \<open>
  An issued approval replaces the pending one of its run; granting consumes the pending
  approval it spends; everything else leaves the pending approvals or drops one.
\<close>

locale one_time_approval =
  fixes issue :: "string \<Rightarrow> 'e \<Rightarrow> py_datetime \<Rightarrow> ('a pending, 'a) act"
    and approve :: "string \<Rightarrow> string \<Rightarrow> bool \<Rightarrow> string \<Rightarrow> py_datetime \<Rightarrow> ('a pending, 'r) act"
    and upkeep :: "'o \<Rightarrow> 'a pending \<Rightarrow> 'a pending"
    and made :: "string \<Rightarrow> 'e \<Rightarrow> py_datetime \<Rightarrow> 'a \<Rightarrow> bool"
    and spends :: "'a \<Rightarrow> string \<Rightarrow> 'r \<Rightarrow> py_datetime \<Rightarrow> bool"
  assumes issued: "issue k e t d = (Inr a, u) \<Longrightarrow> made k e t a \<and> u = dict_put k a d"
    and not_issued: "issue k e t d = (Inl x, u) \<Longrightarrow> u = d"
    and approved: "approve k phrase acknowledged i now d = (Inr r, u) \<Longrightarrow>
      acknowledged \<and> (\<exists>a. dict_get d k = Some a \<and> spends a phrase r now) \<and> u = dict_del k d"
    and refused: "approve k phrase acknowledged i now d = (Inl x, u) \<Longrightarrow> u = d \<or> u = dict_del k d"
    and kept_up: "upkeep y d = d \<or> (\<exists>k. upkeep y d = dict_del k d)"
begin

definition standing :: "('e, 'r) approval_event list \<Rightarrow> string \<Rightarrow> 'a \<Rightarrow> bool" where
  "standing us k a \<longleftrightarrow> (\<exists>vs e t ws. us = vs @ Issued k e t # ws \<and> k \<notin> event_run ` set ws \<and> made k e t a)"

definition licence :: "('e, 'r) approval_event list \<Rightarrow> string \<Rightarrow> string \<Rightarrow> 'r \<Rightarrow> py_datetime \<Rightarrow> bool" where
  "licence us k phrase r now \<longleftrightarrow> (\<exists>a. standing us k a \<and> spends a phrase r now)"

definition pending_as_logged :: "('e, 'r) approval_event list \<Rightarrow> 'a pending \<Rightarrow> bool" where
  "pending_as_logged us d \<longleftrightarrow> (\<forall>k a. dict_get d k = Some a \<longrightarrow> standing us k a)"

definition authorised :: "('e, 'r) approval_event list \<Rightarrow> bool" where
  "authorised l \<longleftrightarrow> (\<forall>us k phrase r now vs. l = us @ Spent k phrase r now # vs \<longrightarrow> licence us k phrase r now)"

lemma authorised_snoc:
  "authorised (l @ [ev]) \<longleftrightarrow>
     authorised l \<and> (case ev of Spent k phrase r now \<Rightarrow> licence l k phrase r now | _ \<Rightarrow> True)"
proof -
  have "l @ [ev] = us @ x # vs \<longleftrightarrow> (vs = [] \<and> us = l \<and> x = ev) \<or> (\<exists>ws. vs = ws @ [ev] \<and> l = us @ x # ws)"
    for us x vs by (cases vs rule: rev_cases) auto
  then show ?thesis unfolding authorised_def by (auto split: approval_event.splits)
qed

lemma standing_snoc:
  "standing us k a \<Longrightarrow> event_run ev \<noteq> k \<Longrightarrow> standing (us @ [ev]) k a"
  "made k e t a \<Longrightarrow> standing (us @ [Issued k e t]) k a"
  unfolding standing_def by fastforce+

lemma pending_dropped: "pending_as_logged us d \<Longrightarrow> pending_as_logged us (dict_del k d)"
  by (auto simp: pending_as_logged_def delete_conv' split: if_splits)

lemma pending_issued: "pending_as_logged us d \<Longrightarrow> made k e t a \<Longrightarrow> pending_as_logged (us @ [Issued k e t]) (dict_put k a d)"
  by (auto simp: pending_as_logged_def update_conv' intro: standing_snoc)

lemma pending_granted: "pending_as_logged us d \<Longrightarrow> pending_as_logged (us @ [Spent k phrase r now]) (dict_del k d)"
  by (auto simp: pending_as_logged_def delete_conv' intro: standing_snoc split: if_splits)

lemma serve_one_kept:
  assumes "serve_one issue approve upkeep x d = (l, u)" and "authorised us" and "pending_as_logged us d"
  shows "authorised (us @ l) \<and> pending_as_logged (us @ l) u"
proof (cases x)
  case (Issue k e t)
  with assms show ?thesis
    by (auto split: prod.splits sum.splits simp: authorised_snoc dest!: issued not_issued intro: pending_issued)
next
  case (Approve k phrase ack i now)
  note this [simp]
  show ?thesis
  proof (cases "fst (approve k phrase ack i now d)")
    case (Inl e)
    then have "l = []" "u = d \<or> u = dict_del k d"
      using assms(1) refused by (auto split: prod.splits sum.splits)
    with assms(2,3) show ?thesis by (auto intro: pending_dropped)
  next
    case (Inr r)
    then have l: "l = [Spent k phrase r now]" and a: "approve k phrase ack i now d = (Inr r, u)"
      using assms(1) by (auto split: prod.splits sum.splits)
    from approved [OF a] assms(3) have "licence us k phrase r now"
      by (auto simp: licence_def pending_as_logged_def)
    with assms(2,3) approved [OF a] show ?thesis by (simp add: l authorised_snoc pending_granted)
  qed
next
  case (Upkeep y)
  with assms kept_up [of y d] show ?thesis by (auto intro: pending_dropped)
qed

lemma serve_kept:
  "serve issue approve upkeep xs d = (l, u) \<Longrightarrow> authorised us \<Longrightarrow> pending_as_logged us d \<Longrightarrow>
     authorised (us @ l) \<and> pending_as_logged (us @ l) u"
proof (induction xs arbitrary: us d l)
  case (Cons x xs)
  obtain m v where m: "serve_one issue approve upkeep x d = (m, v)" by fastforce
  obtain n where n: "serve issue approve upkeep xs v = (n, u)" "l = m @ n"
    using Cons.prems(1) m by (auto split: prod.splits)
  from Cons.IH [OF n(1)] serve_one_kept [OF m Cons.prems(2,3)] n(2) show ?case
    by (metis append.assoc)
qed simp

lemma granted_once:
  assumes "serve issue approve upkeep xs [] = (us @ Spent k phrase r now # vs, d)"
  shows "licence us k phrase r now"
proof -
  have "authorised []" "pending_as_logged [] []" by (auto simp: authorised_def pending_as_logged_def)
  from serve_kept [OF assms this] show ?thesis by (auto simp: authorised_def)
qed

end

section \<open>Both services meet it\<close>

text \<open>The requests to \<^verbatim>\<open>ApprovalService\<close> beside issuing and approving.\<close>

datatype approval_upkeep = Get_Approval string py_datetime | Cancel_Approval string

fun approval_upkeep_step :: "approval_upkeep \<Rightarrow> pending_approval pending \<Rightarrow> pending_approval pending" where
  "approval_upkeep_step (Get_Approval k now) d = snd (get_approval k now d)"
| "approval_upkeep_step (Cancel_Approval k) d = snd (cancel_approval k d)"

definition made_for :: "int \<Rightarrow> string \<Rightarrow> dry_run_result \<Rightarrow> py_datetime \<Rightarrow> pending_approval \<Rightarrow> bool" where
  "made_for ttl k preview t a \<longleftrightarrow> dy_status preview = Preview_Ready \<and> pn_plan_hash a = dy_plan_hash preview \<and>
     dy_before_hash preview = Some (pn_before_hash a) \<and> dy_change_hash preview = Some (pn_change_hash a) \<and>
     pn_phrase a = apply_phrase k \<and> pn_expires a = plus_seconds t ttl"

definition spent_as :: "pending_approval \<Rightarrow> string \<Rightarrow> confirmation_response \<Rightarrow> py_datetime \<Rightarrow> bool" where
  "spent_as a phrase r now \<longleftrightarrow> time_reached now (pn_expires a) = Inr False \<and> py_strip phrase = pn_phrase a \<and>
     cf_approved r \<and> cf_plan_hash r = pn_plan_hash a \<and> cf_before_hash r = pn_before_hash a \<and>
     cf_change_hash r = pn_change_hash a"

lemma approve_run_cases:
  assumes "approve_run k phrase ack i now d = (r, u)"
  shows "case r of Inl _ \<Rightarrow> u = d \<or> u = dict_del k d
    | Inr r \<Rightarrow> ack \<and> (\<exists>a. dict_get d k = Some a \<and> spent_as a phrase r now) \<and> u = dict_del k d"
proof (cases "dict_get d k")
  case (Some a)
  show ?thesis
  proof (cases "time_reached now (pn_expires a) = Inr False \<and> phrase_accepted ack phrase (pn_phrase a) = Inr True")
    case True
    then show ?thesis using assms Some
      by (auto simp: approve_run_def bind_def andthen_def make_confirmation_response_def phrase_accepted_def compare_digest_def spent_as_def
          split: if_splits)
  next
    case False
    then show ?thesis using assms Some
      by (auto simp: approve_run_def bind_def andthen_def split: sum.splits if_splits)
  qed
qed (use assms in \<open>auto simp: approve_run_def bind_def andthen_def\<close>)

lemma issue_approval_cases:
  assumes "issue_approval ttl k preview t d = (r, u)"
  shows "case r of Inl _ \<Rightarrow> u = d | Inr a \<Rightarrow> made_for ttl k preview t a \<and> u = dict_put k a d"
  using assms
  by (auto simp: issue_approval_def bind_def andthen_def make_pending_approval_def made_for_def split: if_splits)

lemma approval_upkeep_kept: "approval_upkeep_step y d = d \<or> (\<exists>k. approval_upkeep_step y d = dict_del k d)"
proof (cases y)
  case (Get_Approval k now)
  then show ?thesis
    by (auto simp: get_approval_def bind_def andthen_def split: option.splits sum.splits)
qed (auto simp: cancel_approval_def)

interpretation run_approval:
  one_time_approval "issue_approval ttl" approve_run approval_upkeep_step "made_for ttl" spent_as for ttl
  by (unfold_locales; (drule issue_approval_cases approve_run_cases)?; simp add: approval_upkeep_kept)

text \<open>The compliance service takes no request besides issuing and approving.\<close>

definition no_upkeep :: "unit \<Rightarrow> compliance_pending pending \<Rightarrow> compliance_pending pending" where
  "no_upkeep _ d = d"

definition compliance_made_for ::
    "(string \<Rightarrow> string) \<Rightarrow> int \<Rightarrow> string \<Rightarrow> compliance_dry_run \<Rightarrow> py_datetime \<Rightarrow> compliance_pending \<Rightarrow> bool" where
  "compliance_made_for H ttl k preview t a \<longleftrightarrow> cd_status preview = Preview_Ready \<and>
     pn_plan_hash a = cd_plan_hash preview \<and> cd_before_hash preview = Some (pn_before_hash a) \<and>
     cd_change_hash preview = Some (pn_change_hash a) \<and> pn_phrase a = apply_phrase k \<and>
     pn_expires a = plus_seconds t ttl \<and>
     (\<exists>c rule. cd_change preview = Some c \<and> touched_rules c = [rule] \<and> cn_target a = cr_id rule \<and>
        cn_rule_hash a = canonical_hash H (dump_compliance_rule rule) \<and>
        mutation_operations (cd_plan preview) = [cn_operation a])"

definition permit_for :: "compliance_pending \<Rightarrow> string \<Rightarrow> compliance_permit \<Rightarrow> py_datetime \<Rightarrow> bool" where
  "permit_for a phrase p now \<longleftrightarrow> time_reached now (pn_expires a) = Inr False \<and> py_strip phrase = pn_phrase a \<and>
     pe_approved p \<and> pe_plan_hash p = pn_plan_hash a \<and> pe_before_hash p = pn_before_hash a \<and>
     pe_change_hash p = pn_change_hash a \<and> pe_rule_hash p = cn_rule_hash a \<and> pe_ou p = cn_ou a \<and>
     pe_target p = cn_target a \<and> pe_operation p = cn_operation a"

lemma approve_compliance_cases:
  assumes "approve_compliance k phrase ack i now d = (r, u)"
  shows "case r of Inl _ \<Rightarrow> u = d \<or> u = dict_del k d
    | Inr p \<Rightarrow> ack \<and> (\<exists>a. dict_get d k = Some a \<and> permit_for a phrase p now) \<and> u = dict_del k d"
proof (cases "dict_get d k")
  case (Some a)
  show ?thesis
  proof (cases "time_reached now (pn_expires a) = Inr False \<and> phrase_accepted ack phrase (pn_phrase a) = Inr True")
    case True
    then show ?thesis using assms Some
      by (auto simp: approve_compliance_def bind_def andthen_def make_compliance_permit_def phrase_accepted_def compare_digest_def permit_for_def
          split: if_splits)
  next
    case False
    then show ?thesis using assms Some
      by (auto simp: approve_compliance_def bind_def andthen_def split: sum.splits if_splits)
  qed
qed (use assms in \<open>auto simp: approve_compliance_def bind_def andthen_def\<close>)

lemma issue_compliance_cases:
  assumes "issue_compliance_approval H ttl k preview t d = (r, u)"
  shows "case r of Inl _ \<Rightarrow> u = d | Inr a \<Rightarrow> compliance_made_for H ttl k preview t a \<and> u = dict_put k a d"
  using assms
  by (auto simp: issue_compliance_approval_def Let_def bind_def andthen_def compliance_made_for_def
      split: if_splits option.splits list.splits)

interpretation compliance_approval:
  one_time_approval "issue_compliance_approval H ttl" approve_compliance no_upkeep "compliance_made_for H ttl" permit_for
  for H ttl
  by (unfold_locales; (drule issue_compliance_cases approve_compliance_cases)?; simp add: no_upkeep_def)

end
