(* ===== verification/Specialist_Review.thy ===== *)
theory Specialist_Review
  imports Blocked_State
begin

text \<open>
  \<^verbatim>\<open>llm/group_chat.py\<close>: the bounded review of a proposal by four specialists. The agent
  framework and the models behind it are not modelled; what is modelled is what the program
  does with their messages: who speaks next, which payloads count, and which transcripts are
  accepted. \<open>loads\<close> is \<^verbatim>\<open>json.loads\<close> of the extracted block, \<open>None\<close> when it raises.
\<close>

datatype verdict = Pass | Clarification | Unsafe

fun verdict_value :: "verdict \<Rightarrow> string" where
  "verdict_value Pass = ''pass''"
| "verdict_value Clarification = ''clarification''"
| "verdict_value Unsafe = ''unsafe''"

record chat_message =
  gm_participant :: string
  gm_display_name :: string
  gm_icon :: string
  gm_round :: nat
  gm_text :: string
  gm_verdict :: verdict
  gm_findings :: "string list"

definition make_chat_message :: "chat_message \<Rightarrow> chat_message res" where
  "make_chat_message m =
     (if 1 \<le> length (gm_text m) \<and> length (gm_text m) \<le> 2000 \<and> length (gm_findings m) \<le> 8 then Inr m
      else Inl ValidationError)"

text \<open>The roster: name, display name and icon of each specialist.\<close>

definition participant_specs :: "(string \<times> string \<times> string) list" where
  "participant_specs = [(''policy_architect'', ''Policy Architect'', ''network''),
     (''regex_reviewer'', ''Regex Reviewer'', ''braces''),
     (''safety_reviewer'', ''Safety Reviewer'', ''shield-check''),
     (''operator_advocate'', ''Operator Advocate'', ''messages-square'')]"

definition participant_names :: "string list" where
  "participant_names = map fst participant_specs"

definition select_participant :: "nat \<Rightarrow> string" where
  "select_participant current_round = participant_names ! (current_round mod length participant_names)"

section \<open>Payloads\<close>

text \<open>A JSON string that is not blank.\<close>

fun stripped_text :: "json \<Rightarrow> string option" where
  "stripped_text (JStr s) = (if py_strip s = [] then None else Some (py_strip s))"
| "stripped_text _ = None"

fun all_given :: "'a option list \<Rightarrow> 'a list option" where
  "all_given [] = Some []"
| "all_given (None # xs) = None"
| "all_given (Some x # xs) = map_option (Cons x) (all_given xs)"

text \<open>
  \<^verbatim>\<open>verdict not in {...}\<close> hashes the verdict: an array or an object raises. Other values
  that are not one of the three strings make the payload invalid.
\<close>

fun read_verdict :: "json option \<Rightarrow> verdict option res" where
  "read_verdict (Some (JStr s)) =
     Inr (if s = ''pass'' then Some Pass else if s = ''clarification'' then Some Clarification
          else if s = ''unsafe'' then Some Unsafe else None)"
| "read_verdict (Some (JArr _)) = Inl TypeError"
| "read_verdict (Some (JObj _)) = Inl TypeError"
| "read_verdict _ = Inr None"

definition review_payload ::
    "(string \<Rightarrow> json option) \<Rightarrow> string \<Rightarrow> (string \<times> verdict \<times> string list) option res" where
  "review_payload loads value =
     (case loads value of
        Some (JObj payload) \<Rightarrow>
          and_then (read_verdict (dict_get payload ''verdict'')) (\<lambda>verdict.
          Inr (case (verdict, dict_get payload ''summary'',
                 case dict_get payload ''findings'' of None \<Rightarrow> JArr [] | Some f \<Rightarrow> f) of
            (Some v, Some (JStr summary), JArr findings) \<Rightarrow>
              if py_strip summary = [] \<or> length (py_strip summary) > 2000 \<or> length findings > 8 then None
              else map_option (\<lambda>fs. (py_strip summary, v, map (take 500) fs)) (all_given (map stripped_text findings))
          | _ \<Rightarrow> None))
      | _ \<Rightarrow> Inr None)"

section \<open>Messages\<close>

text \<open>The messages of the framework's outputs in order, with what the program reads of them.\<close>

record framework_message =
  fm_id :: "string option"
  fm_author :: "string option"
  fm_text :: string

definition spec_named :: "string \<Rightarrow> (string \<times> string \<times> string) option" where
  "spec_named name = find (\<lambda>spec. fst spec = name) participant_specs"

definition transcript_message ::
    "string \<times> string \<times> string \<Rightarrow> string \<times> verdict \<times> string list \<Rightarrow> nat \<Rightarrow> chat_message res" where
  "transcript_message spec reviewed round_index = (case (spec, reviewed) of
     ((name, display_name, icon), (text, v, findings)) \<Rightarrow>
       make_chat_message \<lparr>gm_participant = name, gm_display_name = display_name, gm_icon = icon,
         gm_round = round_index, gm_text = py_strip text, gm_verdict = v, gm_findings = findings\<rparr>)"

definition seen_before :: "string option \<Rightarrow> string list \<Rightarrow> bool" where
  "seen_before i seen = (case i of None \<Rightarrow> False | Some s \<Rightarrow> s \<noteq> [] \<and> s \<in> set seen)"

definition extract_message ::
    "(string \<Rightarrow> json option) \<Rightarrow> framework_message \<Rightarrow> chat_message list \<times> string list \<Rightarrow>
      (chat_message list \<times> string list) res" where
  "extract_message loads m s = (case s of (extracted, seen) \<Rightarrow>
     if seen_before (fm_id m) seen then Inr (extracted, seen)
     else
       let now_seen = (case fm_id m of None \<Rightarrow> seen | Some i \<Rightarrow> if i = [] then seen else i # seen)
       in case spec_named (case fm_author m of None \<Rightarrow> [] | Some a \<Rightarrow> a) of
            None \<Rightarrow> Inr (extracted, now_seen)
          | Some spec \<Rightarrow>
              and_then (review_payload loads (fm_text m)) (\<lambda>reviewed. case reviewed of
                None \<Rightarrow> Inr (extracted, now_seen)
              | Some r \<Rightarrow> and_then (transcript_message spec r (length extracted))
                  (\<lambda>t. Inr (extracted @ [t], now_seen))))"

definition extract_messages :: "(string \<Rightarrow> json option) \<Rightarrow> framework_message list \<Rightarrow> chat_message list res" where
  "extract_messages loads ms =
     and_then (fold_res (extract_message loads) ms ([], [])) (\<lambda>(extracted, seen). Inr extracted)"

section \<open>Transcripts\<close>

record transcript =
  gt_participants :: "string list"
  gt_messages :: "chat_message list"
  gt_rounds :: nat

definition make_transcript :: "transcript \<Rightarrow> transcript res" where
  "make_transcript t =
     (if gt_participants t \<noteq> participant_names then Inl ValidationError
      else if length (gt_messages t) > gt_rounds t then Inl ValidationError
      else if map gm_round (gt_messages t) \<noteq> [0 ..< length (gt_messages t)] then Inl ValidationError
      else if list_ex (\<lambda>(i, m). gm_participant m \<noteq> participant_names ! (i mod length participant_names))
          (List.enumerate 0 (gt_messages t)) then Inl ValidationError
      else if list_ex (\<lambda>m. gm_verdict m \<noteq> Pass) (gt_messages t) then Inl ValidationError
      else if \<not> set (gt_participants t) \<subseteq> gm_participant ` set (gt_messages t) then Inl ValidationError
      else Inr t)"

text \<open>\<^verbatim>\<open>GroupChatReviewer\<close>: the constructor and the review of the framework's messages.\<close>

definition new_reviewer :: "nat \<Rightarrow> nat res" where
  "new_reviewer max_rounds = (if max_rounds < length participant_specs then Inl ValueError else Inr max_rounds)"

definition review :: "(string \<Rightarrow> json option) \<Rightarrow> nat \<Rightarrow> framework_message list \<Rightarrow> transcript res" where
  "review loads max_rounds ms =
     and_then (extract_messages loads ms) (\<lambda>messages.
       make_transcript \<lparr>gt_participants = participant_names, gt_messages = messages, gt_rounds = max_rounds\<rparr>)"

definition dump_chat_message :: "chat_message \<Rightarrow> json" where
  "dump_chat_message m = JObj [(''participant'', JStr (gm_participant m)),
     (''display_name'', JStr (gm_display_name m)), (''icon'', JStr (gm_icon m)),
     (''round_index'', JInt (int (gm_round m))), (''text'', JStr (gm_text m)),
     (''verdict'', JStr (verdict_value (gm_verdict m))), (''findings'', JArr (map JStr (gm_findings m)))]"

section \<open>What an accepted transcript shows\<close>

lemma participant_names_eq:
  "participant_names = [''policy_architect'', ''regex_reviewer'', ''safety_reviewer'', ''operator_advocate'']"
  by (simp add: participant_names_def participant_specs_def)

text \<open>The speakers are those the deterministic selection names, and all of them pass.\<close>

lemma accepted_transcript:
  assumes "make_transcript t = Inr u"
  shows "u = t" and "length (gt_messages t) \<le> gt_rounds t"
    and "\<And>i. i < length (gt_messages t) \<Longrightarrow> gm_participant (gt_messages t ! i) = select_participant i \<and>
      gm_round (gt_messages t ! i) = i \<and> gm_verdict (gt_messages t ! i) = Pass"
    and "4 \<le> length (gt_messages t)"
proof -
  show "u = t" "length (gt_messages t) \<le> gt_rounds t"
    using assms by (auto simp: make_transcript_def split: if_splits)
  have names: "gt_participants t = participant_names" "set (gt_participants t) \<subseteq> gm_participant ` set (gt_messages t)"
    and rounds: "map gm_round (gt_messages t) = [0 ..< length (gt_messages t)]"
    and speakers: "\<not> list_ex (\<lambda>(i, m). gm_participant m \<noteq> participant_names ! (i mod length participant_names))
          (List.enumerate 0 (gt_messages t))"
    and verdicts: "\<not> list_ex (\<lambda>m. gm_verdict m \<noteq> Pass) (gt_messages t)"
    using assms by (auto simp: make_transcript_def split: if_splits)
  show "gm_participant (gt_messages t ! i) = select_participant i \<and>
      gm_round (gt_messages t ! i) = i \<and> gm_verdict (gt_messages t ! i) = Pass" if "i < length (gt_messages t)" for i
  proof (intro conjI)
    show "gm_participant (gt_messages t ! i) = select_participant i"
      using speakers that by (fastforce simp: list_ex_iff in_set_enumerate_eq select_participant_def)
    show "gm_round (gt_messages t ! i) = i"
      using arg_cong [OF rounds, of "\<lambda>l. l ! i"] that by simp
    show "gm_verdict (gt_messages t ! i) = Pass" using verdicts that by (auto simp: list_ex_iff)
  qed
  have "card (set participant_names) \<le> card (gm_participant ` set (gt_messages t))"
    using names by (intro card_mono) auto
  also have "\<dots> \<le> length (gt_messages t)" by (metis card_image_le card_length le_trans List.finite_set)
  finally show "4 \<le> length (gt_messages t)" by (simp add: participant_names_eq)
qed

end
