(* ===== verification/Attended_Audit.thy ===== *)
theory Attended_Audit
  imports Approvals Specialist_Review
begin

text \<open>
  The data of an attended run (\<^verbatim>\<open>AttendedPolicyPreview\<close>, \<^verbatim>\<open>AttendedExecutionResult\<close> and
  the permit of \<^verbatim>\<open>browser/admin_agent_driver.py\<close>) and its audit package,
  \<^verbatim>\<open>application/attended_audit.py\<close>, on the writer of \<^verbatim>\<open>audit/writer.py\<close>.
\<close>

section \<open>Previews\<close>

datatype run_mode = Plan_Only | Dry_Run_Mode | Live_Mode

fun run_mode_value :: "run_mode \<Rightarrow> string" where
  "run_mode_value Plan_Only = ''plan_only''"
| "run_mode_value Dry_Run_Mode = ''dry_run''"
| "run_mode_value Live_Mode = ''live''"

datatype surface = Blocked_Senders | Content_Compliance

fun surface_value :: "surface \<Rightarrow> string" where
  "surface_value Blocked_Senders = ''blocked_senders''"
| "surface_value Content_Compliance = ''content_compliance''"

definition run_identifier :: "string \<Rightarrow> bool" where
  "run_identifier s \<longleftrightarrow> length s = 32 \<and> list_all is_hex_char s"

record attended_preview =
  av_run_id :: string
  av_mode :: run_mode
  av_surface :: surface
  av_plan :: task_plan
  av_plan_hash :: string
  av_before_hash :: string
  av_change_hash :: string
  av_phrase :: "string option"
  av_expires :: "py_datetime option"
  av_standard_before :: "blocked_state option"
  av_standard_after :: "blocked_state option"
  av_standard_change :: "change_set option"
  av_compliance_before :: "compliance_state option"
  av_compliance_after :: "compliance_state option"
  av_compliance_change :: "compliance_change_set option"

definition make_attended_preview :: "attended_preview \<Rightarrow> attended_preview res" where
  "make_attended_preview p =
     (let all_standard = av_standard_before p \<noteq> None \<and> av_standard_after p \<noteq> None \<and> av_standard_change p \<noteq> None;
          no_standard = av_standard_before p = None \<and> av_standard_after p = None \<and> av_standard_change p = None;
          all_compliance = av_compliance_before p \<noteq> None \<and> av_compliance_after p \<noteq> None \<and> av_compliance_change p \<noteq> None;
          no_compliance = av_compliance_before p = None \<and> av_compliance_after p = None \<and> av_compliance_change p = None
      in if \<not> run_identifier (av_run_id p) \<or> \<not> sha256_digest (av_plan_hash p) \<or>
            \<not> sha256_digest (av_before_hash p) \<or> \<not> sha256_digest (av_change_hash p) then Inl ValidationError
         else if (case av_surface p of
             Blocked_Senders \<Rightarrow> \<not> all_standard \<or> \<not> no_compliance
           | Content_Compliance \<Rightarrow> \<not> all_compliance \<or> \<not> no_standard) then Inl ValidationError
         else if (av_phrase p \<noteq> None \<and> av_expires p \<noteq> None) \<noteq> (av_mode p = Live_Mode) then Inl ValidationError
         else if (case av_expires p of None \<Rightarrow> False | Some t \<Rightarrow> \<not> is_aware t) then Inl ValidationError
         else Inr p)"

definition av_has_mutations :: "attended_preview \<Rightarrow> bool" where
  "av_has_mutations p =
     (case (av_standard_change p, av_compliance_change p) of
        (Some c, _) \<Rightarrow> has_mutations c
      | (None, Some c) \<Rightarrow> has_compliance_mutations c
      | (None, None) \<Rightarrow> False)"

text \<open>The dump of a preview without its approval phrase.\<close>

definition dump_attended_preview :: "(py_datetime \<Rightarrow> string) \<Rightarrow> attended_preview \<Rightarrow> json" where
  "dump_attended_preview isofmt p = JObj [(''run_id'', JStr (av_run_id p)),
     (''mode'', JStr (run_mode_value (av_mode p))), (''surface'', JStr (surface_value (av_surface p))),
     (''plan'', dump_task_plan (av_plan p)), (''plan_hash'', JStr (av_plan_hash p)),
     (''before_state_hash'', JStr (av_before_hash p)), (''change_set_hash'', JStr (av_change_hash p)),
     (''expires_at'', dump_option (\<lambda>t. JStr (isofmt t)) (av_expires p)),
     (''standard_before'', dump_option dump_blocked_state (av_standard_before p)),
     (''standard_after'', dump_option dump_blocked_state (av_standard_after p)),
     (''standard_change'', dump_option dump_change_set (av_standard_change p)),
     (''compliance_before'', dump_option dump_compliance_state (av_compliance_before p)),
     (''compliance_after'', dump_option dump_compliance_state (av_compliance_after p)),
     (''compliance_change'', dump_option dump_compliance_change_set (av_compliance_change p))]"

section \<open>Permits and results\<close>

record admin_permit =
  dp_approval_id :: string
  dp_plan_hash :: string
  dp_before_hash :: string
  dp_change_hash :: string
  dp_ou :: string
  dp_target :: uuid
  dp_surface :: surface
  dp_approved :: bool

definition make_admin_permit :: "admin_permit \<Rightarrow> admin_permit res" where
  "make_admin_permit p =
     (if 1 \<le> length (dp_approval_id p) \<and> length (dp_approval_id p) \<le> 200 \<and> sha256_digest (dp_plan_hash p) \<and>
         sha256_digest (dp_before_hash p) \<and> sha256_digest (dp_change_hash p) \<and>
         1 \<le> length (dp_ou p) \<and> length (dp_ou p) \<le> 1000 \<and> dp_approved p
      then Inr p else Inl ValidationError)"

datatype page_state =
    Page_Login_Required | Page_Account_Chooser | Page_Two_Step | Page_Spam_Settings | Page_Senders_Section
  | Page_Rule_Editor | Page_List_Picker | Page_List_Editor | Page_Compliance_Settings | Page_Compliance_Section
  | Page_Compliance_Editor | Page_Save_Pending | Page_Unknown

fun page_state_value :: "page_state \<Rightarrow> string" where
  "page_state_value Page_Login_Required = ''login_required''"
| "page_state_value Page_Account_Chooser = ''account_chooser''"
| "page_state_value Page_Two_Step = ''two_step_verification''"
| "page_state_value Page_Spam_Settings = ''gmail_spam_settings''"
| "page_state_value Page_Senders_Section = ''blocked_senders_section''"
| "page_state_value Page_Rule_Editor = ''blocked_sender_rule_editor''"
| "page_state_value Page_List_Picker = ''address_list_picker''"
| "page_state_value Page_List_Editor = ''address_list_editor''"
| "page_state_value Page_Compliance_Settings = ''gmail_compliance_settings''"
| "page_state_value Page_Compliance_Section = ''content_compliance_section''"
| "page_state_value Page_Compliance_Editor = ''content_compliance_rule_editor''"
| "page_state_value Page_Save_Pending = ''save_pending''"
| "page_state_value Page_Unknown = ''unknown''"

record apply_result =
  br_completed :: bool
  br_steps :: "string list"
  br_page :: page_state

datatype execution_status = Exec_Completed | Exec_No_Change | Exec_Drifted | Exec_Verification_Failed
  | Exec_Recovery_Required

fun execution_status_value :: "execution_status \<Rightarrow> string" where
  "execution_status_value Exec_Completed = ''completed''"
| "execution_status_value Exec_No_Change = ''no_change''"
| "execution_status_value Exec_Drifted = ''drifted''"
| "execution_status_value Exec_Verification_Failed = ''verification_failed''"
| "execution_status_value Exec_Recovery_Required = ''recovery_required''"

text \<open>\<^verbatim>\<open>replacement_preview\<close> is never set.\<close>

record execution_result =
  xr_run_id :: string
  xr_status :: execution_status
  xr_browser :: "apply_result option"
  xr_verified :: bool
  xr_before_hash :: string
  xr_after_hash :: "string option"

definition make_execution_result :: "execution_result \<Rightarrow> execution_result res" where
  "make_execution_result r =
     (if run_identifier (xr_run_id r) \<and> sha256_digest (xr_before_hash r) \<and> digest_or_none (xr_after_hash r)
      then Inr r else Inl ValidationError)"

definition dump_apply_result :: "apply_result \<Rightarrow> json" where
  "dump_apply_result r = JObj [(''completed'', JBool (br_completed r)),
     (''steps'', JArr (map JStr (br_steps r))), (''final_page_state'', JStr (page_state_value (br_page r)))]"

definition dump_execution_result :: "execution_result \<Rightarrow> json" where
  "dump_execution_result r = JObj [(''run_id'', JStr (xr_run_id r)),
     (''status'', JStr (execution_status_value (xr_status r))),
     (''browser_result'', dump_option dump_apply_result (xr_browser r)), (''verified'', JBool (xr_verified r)),
     (''current_before_hash'', JStr (xr_before_hash r)),
     (''observed_after_hash'', dump_option JStr (xr_after_hash r)), (''replacement_preview'', JNull)]"

section \<open>The audit package of one run\<close>

text \<open>
  One audit object: its writer, the metadata collected when it was made, and whether it is
  finalized. \<open>xa_ticks\<close> counts the readings of the system clock.
\<close>

record attended_env =
  te_hash :: "string \<Rightarrow> string"
  te_sha :: "string \<Rightarrow> string"
  te_iso :: "py_datetime \<Rightarrow> string"
  te_clock :: "nat \<Rightarrow> py_datetime"

record attended_audit =
  xa_run_id :: string
  xa_writer :: audit_writer
  xa_metadata :: manifest_metadata
  xa_finalized :: bool
  xa_ticks :: nat

definition attended_now :: "attended_env \<Rightarrow> (attended_audit, py_datetime) act" where
  "attended_now env a = (Inr (te_clock env (xa_ticks a)), a\<lparr>xa_ticks := Suc (xa_ticks a)\<rparr>)"

definition on_run_writer :: "(audit_writer, 'a) act \<Rightarrow> (attended_audit, 'a) act" where
  "on_run_writer m a = (case m (xa_writer a) of (r, w) \<Rightarrow> (r, a\<lparr>xa_writer := w\<rparr>))"

definition put_text :: "string \<Rightarrow> json \<Rightarrow> (attended_audit, unit) act" where
  "put_text p v = andthen (on_run_writer (write_text p (json_text v))) (return ())"

definition attended_append ::
    "attended_env \<Rightarrow> string \<Rightarrow> string \<Rightarrow> string \<Rightarrow> string option \<Rightarrow> string option \<Rightarrow> string option \<Rightarrow>
      (attended_audit, unit) act" where
  "attended_append env event_type component outcome plan_hash before_hash change_hash =
     bind (get (\<lambda>a. next_sequence (xa_writer a))) (\<lambda>n.
     bind (attended_now env) (\<lambda>now.
     bind (get xa_run_id) (\<lambda>run_id.
     bind (lift (make_event \<lparr>ev_run_id = run_id, ev_sequence = n, ev_timestamp = now, ev_type = event_type,
         ev_component = component, ev_outcome = outcome, ev_plan_hash = plan_hash, ev_before_hash = before_hash,
         ev_change_hash = change_hash, ev_ownership_id = None, ev_ou = None, ev_error = None,
         ev_correlation = None, ev_previous = None, ev_hash = None\<rparr>)) (\<lambda>e.
     andthen (on_run_writer (append_event (te_hash env) (te_iso env) e)) (return ())))))"

definition attended_record_review ::
    "attended_env \<Rightarrow> task_plan \<Rightarrow> transcript \<Rightarrow> string \<Rightarrow> json option \<Rightarrow> (attended_audit, unit) act" where
  "attended_record_review env plan t model_tag composer_evidence =
     (let plan_hash = canonical_hash (te_hash env) (dump_task_plan plan);
          payload = JObj [(''plan_hash'', JStr plan_hash), (''model_tag'', JStr model_tag),
            (''participants'', JArr (map JStr (gt_participants t))), (''max_rounds'', JInt (int (gt_rounds t))),
            (''messages'', JArr (map dump_chat_message (gt_messages t))), (''outcome'', JStr ''passed'')]
      in andthen (put_text ''plan.json'' (dump_task_plan plan))
         (andthen (put_text ''agent-review.json'' payload)
         (andthen (case composer_evidence of None \<Rightarrow> return () | Some v \<Rightarrow> put_text ''draft-composer.json'' v)
         (attended_append env ''agent_review_completed'' ''microsoft_agent_framework_group_chat'' ''passed''
            (Some plan_hash) None None))))"

text \<open>The evidence of the surface of a preview.\<close>

definition preview_evidence :: "attended_preview \<Rightarrow> (json \<times> json \<times> json) option" where
  "preview_evidence p =
     (case (case av_standard_before p of Some s \<Rightarrow> Some (dump_blocked_state s)
              | None \<Rightarrow> map_option dump_compliance_state (av_compliance_before p),
            case av_standard_after p of Some s \<Rightarrow> Some (dump_blocked_state s)
              | None \<Rightarrow> map_option dump_compliance_state (av_compliance_after p),
            case av_standard_change p of Some c \<Rightarrow> Some (dump_change_set c)
              | None \<Rightarrow> map_option dump_compliance_change_set (av_compliance_change p)) of
        (Some before, Some after, Some change) \<Rightarrow> Some (before, after, change)
      | _ \<Rightarrow> None)"

definition attended_record_preview :: "attended_env \<Rightarrow> attended_preview \<Rightarrow> (attended_audit, unit) act" where
  "attended_record_preview env p =
     andthen (put_text ''plan.json'' (dump_task_plan (av_plan p)))
     (andthen (put_text ''preview.json'' (dump_attended_preview (te_iso env) p))
     (case preview_evidence p of
        None \<Rightarrow> raise ValueError
      | Some (before, after, change) \<Rightarrow>
          andthen (put_text ''before.json'' before)
          (andthen (put_text ''expected_after.json'' after)
          (andthen (put_text ''change_set.json'' change)
          (attended_append env ''preview_ready'' ''reflex_console''
             (if av_has_mutations p then ''ready'' else ''no_change'')
             (Some (av_plan_hash p)) (Some (av_before_hash p)) (Some (av_change_hash p)))))))"

definition attended_finalize :: "attended_env \<Rightarrow> run_status \<Rightarrow> execution_result option \<Rightarrow> (attended_audit, unit) act" where
  "attended_finalize env status result =
     bind (get xa_finalized) (\<lambda>done. if done then return () else
     andthen (case result of None \<Rightarrow> return () | Some r \<Rightarrow> put_text ''execution_result.json'' (dump_execution_result r))
     (andthen (attended_append env ''run_finalized'' ''attended_policy_service'' (run_status_value status)
         None (map_option xr_before_hash result) None)
     (bind (attended_now env) (\<lambda>ended.
      bind (get xa_metadata) (\<lambda>metadata.
      bind (get (\<lambda>a. writer_files (xa_writer a))) (\<lambda>files.
      bind (lift (digest_artifacts (te_sha env) files)) (\<lambda>digests.
      bind (lift (make_manifest (manifest_of metadata ended (plain_result status None) digests))) (\<lambda>m.
      andthen (put_text ''manifest.json'' (dump_manifest (te_iso env) metadata m))
        (update (\<lambda>a. a\<lparr>xa_finalized := True\<rparr>))))))))))"

end
