(* ===== verification/Console_Runs.thy ===== *)
theory Console_Runs
  imports Attended_Audit
begin

text \<open>
  \<^verbatim>\<open>console/coordinator.py\<close>, \<^verbatim>\<open>console/journal.py\<close>, \<^verbatim>\<open>console/run_status.py\<close> and
  \<^verbatim>\<open>console/timeline.py\<close>: the runs an operator sees. A call that awaits the planner, the
  preview service or the live runner is two operations, before and after the wait, so that other
  calls may come between; what is being waited for is the list of flights of the coordinator.
\<close>

section \<open>Runs\<close>

datatype run_phase = Planning | Plan_Ready | In_Preflight | Preview_Shown | Awaiting_Approval | Executing | Verifying
  | Completed_Run | Blocked | Cancelled | Interrupted

record phase_transition =
  pt_phase :: run_phase
  pt_at :: py_datetime
  pt_error :: "string option"

definition make_transition :: "phase_transition \<Rightarrow> phase_transition res" where
  "make_transition t = (if is_aware (pt_at t) then Inr t else Inl ValidationError)"

record console_run =
  kr_id :: string
  kr_text :: string
  kr_mode :: run_mode
  kr_phase :: run_phase
  kr_created :: py_datetime
  kr_updated :: py_datetime
  kr_plan :: "task_plan option"
  kr_preview :: "dry_run_result option"
  kr_result :: "run_result option"
  kr_error :: "string option"
  kr_source :: "string option"
  kr_history :: "phase_transition list"

definition make_console_run :: "console_run \<Rightarrow> console_run res" where
  "make_console_run r =
     (if \<not> run_identifier (kr_id r) \<or> length (kr_text r) < 1 \<or> length (kr_text r) > 2000 \<or>
         (\<exists>s \<in> set_option (kr_source r). \<not> run_identifier s) then Inl ValidationError
      else if \<not> is_aware (kr_created r) \<or> \<not> is_aware (kr_updated r) then Inl ValidationError
      else if instant (kr_updated r) < instant (kr_created r) then Inl ValidationError
      else Inr r)"

fun allowed_transitions :: "run_phase \<Rightarrow> run_phase set" where
  "allowed_transitions Planning = {Plan_Ready, Blocked, Cancelled}"
| "allowed_transitions Plan_Ready = {In_Preflight, Blocked, Cancelled}"
| "allowed_transitions In_Preflight = {Preview_Shown, Awaiting_Approval, Blocked, Cancelled}"
| "allowed_transitions Awaiting_Approval = {Plan_Ready, Executing, Blocked, Cancelled}"
| "allowed_transitions Executing = {Verifying, Completed_Run, Blocked, Interrupted}"
| "allowed_transitions Verifying = {Completed_Run, Blocked, Interrupted}"
| "allowed_transitions _ = {}"

definition browser_active :: "run_phase \<Rightarrow> bool" where
  "browser_active p \<longleftrightarrow> p \<in> {In_Preflight, Awaiting_Approval, Executing, Verifying}"

definition terminal_phase :: "run_phase \<Rightarrow> bool" where
  "terminal_phase p \<longleftrightarrow> p \<in> {Preview_Shown, Completed_Run, Blocked, Cancelled, Interrupted}"

text \<open>\<^verbatim>\<open>sorted(runs, key=created_at, reverse=True)\<close>, which keeps the order of equals.\<close>

definition newest_first :: "console_run list \<Rightarrow> console_run list" where
  "newest_first runs = sort_key (\<lambda>r. - instant (kr_created r)) runs"

section \<open>The journal\<close>

text \<open>
  An envelope of the file: a snapshot of this version that reads back as a run, one that does
  not, or one of another version, which is kept as it is.
\<close>

datatype envelope = Snapshot console_run | Bad_Snapshot string | Other_Version string string

record run_journal =
  jn_unknown :: "envelope list"
  jn_writable :: bool
  jn_stored :: "envelope list"

definition terminal_limit :: nat where "terminal_limit = 100"

definition downgrade ::
    "console_run \<Rightarrow> run_phase \<Rightarrow> string \<Rightarrow> py_datetime \<Rightarrow> (console_run \<Rightarrow> console_run) \<Rightarrow> console_run res" where
  "downgrade r p error now updates =
     and_then (make_transition \<lparr>pt_phase = p, pt_at = now, pt_error = Some error\<rparr>) (\<lambda>t.
       Inr (updates (r\<lparr>kr_phase := p, kr_updated := now, kr_error := Some error, kr_history := kr_history r @ [t]\<rparr>)))"

definition restore_run :: "py_datetime \<Rightarrow> console_run \<Rightarrow> console_run res" where
  "restore_run now r =
     (if kr_phase r = Planning \<or> kr_phase r = In_Preflight then downgrade r Blocked ''console_restarted'' now id
      else if kr_phase r = Awaiting_Approval then
        downgrade r Plan_Ready ''approval_expired'' now (\<lambda>r. r\<lparr>kr_preview := None, kr_result := None\<rparr>)
      else if kr_phase r = Executing \<or> kr_phase r = Verifying then
        downgrade r Interrupted ''console_restarted_execution_uncertain'' now id
      else Inr r)"

fun is_other_version :: "envelope \<Rightarrow> bool" where
  "is_other_version (Other_Version _ _) = True"
| "is_other_version _ = False"

definition restore_envelope :: "py_datetime \<Rightarrow> envelope \<Rightarrow> console_run list \<Rightarrow> console_run list res" where
  "restore_envelope now e restored =
     (case e of Snapshot r \<Rightarrow> and_then (restore_run now r) (\<lambda>x. Inr (restored @ [x])) | _ \<Rightarrow> Inr restored)"

text \<open>\<^verbatim>\<open>load\<close> takes what the store returns or raises.\<close>

definition load_journal :: "py_datetime \<Rightarrow> envelope list res \<Rightarrow> (run_journal \<times> console_run list) res" where
  "load_journal now stored =
     (case stored of
        Inl e \<Rightarrow>
          if is_os_error e \<or> e = TypeError \<or> is_value_error e
          then Inr (\<lparr>jn_unknown = [], jn_writable = False, jn_stored = []\<rparr>, [])
          else Inl e
      | Inr envelopes \<Rightarrow>
          and_then (fold_res (restore_envelope now) envelopes []) (\<lambda>restored.
            Inr (\<lparr>jn_unknown = filter is_other_version envelopes, jn_writable = True, jn_stored = envelopes\<rparr>, restored)))"

definition journal_entries :: "console_run list \<Rightarrow> envelope list" where
  "journal_entries runs =
     map Snapshot (filter (\<lambda>r. \<not> terminal_phase (kr_phase r)) runs @
       take terminal_limit (filter (\<lambda>r. terminal_phase (kr_phase r)) runs))"

text \<open>A failed replacement leaves the file.\<close>

definition save_journal :: "bool \<Rightarrow> console_run list \<Rightarrow> run_journal \<Rightarrow> run_journal" where
  "save_journal fails runs j =
     (if \<not> jn_writable j \<or> fails then j else j\<lparr>jn_stored := jn_unknown j @ journal_entries runs\<rparr>)"

section \<open>The coordinator\<close>

text \<open>A planner call, a preview of a run in a mode, a live execution.\<close>

datatype flight = Planner_Flight string | Preview_Flight string run_mode | Live_Flight string

datatype console_event =
    Approval_Event "(dry_run_result, confirmation_response) approval_event"
  | Preview_Call string task_plan
  | Live_Call string confirmation_response

record coordinator =
  kc_runs :: "(string, console_run) dict"
  kc_approvals :: "(string, pending_approval) dict"
  kc_dry_run :: bool
  kc_live :: bool
  kc_journal :: "run_journal option"
  kc_flights :: "flight list"
  kc_ids :: nat
  kc_ticks :: nat
  kc_saves :: nat
  kc_log :: "console_event list"

record console_env =
  ke_clock :: "nat \<Rightarrow> py_datetime"
  ke_supply :: "nat \<Rightarrow> uuid"
  ke_ttl :: int
  ke_save_fails :: "nat \<Rightarrow> bool"

definition new_coordinator :: "run_journal option \<Rightarrow> console_run list \<Rightarrow> bool \<Rightarrow> bool \<Rightarrow> coordinator" where
  "new_coordinator journal runs dry live =
     \<lparr>kc_runs = dict_of kr_id runs, kc_approvals = [], kc_dry_run = dry, kc_live = live, kc_journal = journal,
      kc_flights = [], kc_ids = 0, kc_ticks = 0, kc_saves = 0, kc_log = []\<rparr>"

definition list_runs :: "coordinator \<Rightarrow> console_run list" where
  "list_runs w = newest_first (dict_values (kc_runs w))"

definition active_browser_run :: "coordinator \<Rightarrow> console_run option" where
  "active_browser_run w = find (\<lambda>r. browser_active (kr_phase r)) (dict_values (kc_runs w))"

definition console_now :: "console_env \<Rightarrow> (coordinator, py_datetime) act" where
  "console_now env w = (Inr (ke_clock env (kc_ticks w)), w\<lparr>kc_ticks := Suc (kc_ticks w)\<rparr>)"

definition console_id :: "console_env \<Rightarrow> (coordinator, string) act" where
  "console_id env w = (Inr (uuid_hex (ke_supply env (kc_ids w))), w\<lparr>kc_ids := Suc (kc_ids w)\<rparr>)"

definition require_run :: "string \<Rightarrow> (coordinator, console_run) act" where
  "require_run k = bind (get (\<lambda>w. dict_get (kc_runs w) k)) (\<lambda>r. case r of None \<Rightarrow> raise ValueError | Some r \<Rightarrow> return r)"

definition save_runs :: "console_env \<Rightarrow> (coordinator, unit) act" where
  "save_runs env = update (\<lambda>w. case kc_journal w of
      None \<Rightarrow> w
    | Some j \<Rightarrow> w\<lparr>kc_journal := Some (save_journal (ke_save_fails env (kc_saves w)) (list_runs w) j),
        kc_saves := Suc (kc_saves w)\<rparr>)"

definition store_run :: "console_env \<Rightarrow> console_run \<Rightarrow> (coordinator, unit) act" where
  "store_run env r = andthen (update (\<lambda>w. w\<lparr>kc_runs := dict_put (kr_id r) r (kc_runs w)\<rparr>)) (save_runs env)"

definition note_console :: "console_event \<Rightarrow> (coordinator, unit) act" where
  "note_console e = update (\<lambda>w. w\<lparr>kc_log := kc_log w @ [e]\<rparr>)"

definition take_off :: "flight \<Rightarrow> (coordinator, unit) act" where
  "take_off f = update (\<lambda>w. w\<lparr>kc_flights := f # kc_flights w\<rparr>)"

definition land :: "flight \<Rightarrow> (coordinator, unit) act" where
  "land f = update (\<lambda>w. w\<lparr>kc_flights := remove1 f (kc_flights w)\<rparr>)"

definition on_approvals :: "((string, pending_approval) dict, 'a) act \<Rightarrow> (coordinator, 'a) act" where
  "on_approvals m w = (case m (kc_approvals w) of (r, d) \<Rightarrow> (r, w\<lparr>kc_approvals := d\<rparr>))"

text \<open>\<^verbatim>\<open>_advance\<close>; \<open>error\<close> is the code given among the updates.\<close>

definition advance ::
    "console_env \<Rightarrow> console_run \<Rightarrow> run_phase \<Rightarrow> string option \<Rightarrow> (console_run \<Rightarrow> console_run) \<Rightarrow>
      (coordinator, console_run) act" where
  "advance env r p error updates =
     bind (require_run (kr_id r)) (\<lambda>current.
     if current \<noteq> r then raise ValueError
     else if p \<notin> allowed_transitions (kr_phase r) then raise ValueError
     else
       bind (console_now env) (\<lambda>now.
       bind (lift (make_transition \<lparr>pt_phase = p, pt_at = now, pt_error = error\<rparr>)) (\<lambda>t.
       let advanced = updates (r\<lparr>kr_phase := p, kr_updated := now, kr_history := kr_history r @ [t]\<rparr>)
       in andthen (store_run env advanced) (return advanced))))"

definition advance_with :: "console_env \<Rightarrow> console_run \<Rightarrow> run_phase \<Rightarrow> string option \<Rightarrow> (coordinator, console_run) act" where
  "advance_with env r p error = advance env r p error (\<lambda>r. r\<lparr>kr_error := error\<rparr>)"

section \<open>Planning\<close>

definition start_run :: "console_env \<Rightarrow> string \<Rightarrow> run_mode \<Rightarrow> run_phase \<Rightarrow> task_plan option \<Rightarrow> (coordinator, console_run) act" where
  "start_run env request_text mode p plan =
     bind (console_now env) (\<lambda>now.
     bind (console_id env) (\<lambda>k.
     bind (lift (make_transition \<lparr>pt_phase = p, pt_at = now, pt_error = None\<rparr>)) (\<lambda>t.
     bind (lift (make_console_run \<lparr>kr_id = k, kr_text = py_strip request_text, kr_mode = mode, kr_phase = p,
         kr_created = now, kr_updated = now, kr_plan = plan, kr_preview = None, kr_result = None, kr_error = None,
         kr_source = None, kr_history = [t]\<rparr>)) (\<lambda>r.
     andthen (store_run env r) (return r)))))"

definition console_start :: "console_env \<Rightarrow> string \<Rightarrow> run_mode \<Rightarrow> (coordinator, console_run) act" where
  "console_start env request_text mode = start_run env request_text mode Planning None"

definition create_from_plan :: "console_env \<Rightarrow> string \<Rightarrow> run_mode \<Rightarrow> task_plan \<Rightarrow> (coordinator, console_run) act" where
  "create_from_plan env request_text mode plan = start_run env request_text mode Plan_Ready (Some plan)"

definition begin_plan :: "string \<Rightarrow> (coordinator, unit) act" where
  "begin_plan k = bind (require_run k) (\<lambda>r. if kr_phase r \<noteq> Planning then raise ValueError else take_off (Planner_Flight k))"

definition finish_plan :: "console_env \<Rightarrow> string \<Rightarrow> task_plan res \<Rightarrow> (coordinator, console_run) act" where
  "finish_plan env k answer =
     andthen (land (Planner_Flight k)) (bind (require_run k) (\<lambda>current.
     if kr_phase current \<noteq> Planning then return current
     else case answer of
         Inl e \<Rightarrow> advance_with env current Blocked
           (Some (if e = PlannerFailure then ''planner_unavailable'' else exn_name e))
       | Inr plan \<Rightarrow> advance env current Plan_Ready None (\<lambda>r. r\<lparr>kr_plan := Some plan\<rparr>)))"

definition promote_plan :: "console_env \<Rightarrow> string \<Rightarrow> run_mode \<Rightarrow> (coordinator, console_run) act" where
  "promote_plan env k mode =
     bind (require_run k) (\<lambda>r.
     if kr_phase r \<noteq> Plan_Ready \<or> kr_plan r = None then raise ValueError
     else if mode = Plan_Only then raise ValueError
     else if kr_mode r = mode then return r
     else bind (console_now env) (\<lambda>now.
       let promoted = r\<lparr>kr_mode := mode, kr_updated := now\<rparr>
       in andthen (store_run env promoted) (return promoted)))"

section \<open>Previews\<close>

definition require_browser_slot :: "string \<Rightarrow> (coordinator, unit) act" where
  "require_browser_slot k =
     bind (get (\<lambda>w. list_ex (\<lambda>r. kr_id r \<noteq> k \<and> browser_active (kr_phase r)) (dict_values (kc_runs w)))) (\<lambda>conflicting.
       if conflicting then raise ValueError else return ())"

definition begin_preview :: "console_env \<Rightarrow> string \<Rightarrow> (coordinator, unit) act" where
  "begin_preview env k =
     bind (require_run k) (\<lambda>r.
     if kr_phase r \<noteq> Plan_Ready then raise ValueError
     else case kr_plan r of
         None \<Rightarrow> raise ValueError
       | Some plan \<Rightarrow>
           if kr_mode r = Plan_Only then raise ValueError
           else
             andthen (require_browser_slot k)
             (bind (get kc_dry_run) (\<lambda>installed.
              if \<not> installed then andthen (advance_with env r Blocked (Some ''ui_contract_pack_required'')) (return ())
              else
                andthen (advance env r In_Preflight None (\<lambda>r. r\<lparr>kr_preview := None, kr_result := None, kr_error := None\<rparr>))
                (andthen (note_console (Preview_Call k plan)) (take_off (Preview_Flight k (kr_mode r)))))))"

definition preview_phase :: "dry_run_result \<Rightarrow> run_mode \<Rightarrow> run_phase" where
  "preview_phase x mode =
     (if dy_status x = Preview_Ready \<and> mode = Live_Mode then Awaiting_Approval
      else if dy_status x \<noteq> Preview_Blocked then Preview_Shown else Blocked)"

definition lock_code :: "exn \<Rightarrow> string" where
  "lock_code e = (if e = RunLockUnavailable then ''run_lock_unavailable'' else exn_name e)"

definition finish_preview :: "console_env \<Rightarrow> string \<Rightarrow> run_mode \<Rightarrow> dry_run_result res \<Rightarrow> (coordinator, console_run) act" where
  "finish_preview env k mode answer =
     andthen (land (Preview_Flight k mode)) (bind (require_run k) (\<lambda>current.
     if kr_phase current \<noteq> In_Preflight then return current
     else case answer of
         Inl e \<Rightarrow> advance_with env current Blocked (Some (lock_code e))
       | Inr x \<Rightarrow>
           let p = preview_phase x mode
           in bind (advance env current p (dy_reason x) (\<lambda>r. r\<lparr>kr_preview := Some x, kr_error := dy_reason x\<rparr>)) (\<lambda>completed.
              if p = Awaiting_Approval then
                bind (console_now env) (\<lambda>now.
                andthen (on_approvals (issue_approval (ke_ttl env) k x now))
                (andthen (note_console (Approval_Event (Issued k x now))) (return completed)))
              else return completed)))"

definition pending_approval_of :: "console_env \<Rightarrow> string \<Rightarrow> (coordinator, pending_approval option) act" where
  "pending_approval_of env k =
     bind (require_run k) (\<lambda>r.
     if kr_phase r \<noteq> Awaiting_Approval \<or> kr_preview r = None then return None
     else
       bind (console_now env) (\<lambda>now.
       bind (on_approvals (get_approval k now)) (\<lambda>approval.
       andthen (if approval = None then
           andthen (advance env r Plan_Ready (Some ''approval_expired'')
             (\<lambda>r. r\<lparr>kr_preview := None, kr_result := None, kr_error := Some ''approval_expired''\<rparr>)) (return ())
         else return ())
       (return approval))))"

definition cancel_console_run :: "console_env \<Rightarrow> string \<Rightarrow> (coordinator, console_run) act" where
  "cancel_console_run env k =
     bind (require_run k) (\<lambda>r.
     if Cancelled \<notin> allowed_transitions (kr_phase r) then raise ValueError
     else andthen (on_approvals (cancel_approval k)) (advance env r Cancelled None id))"

section \<open>Execution\<close>

definition begin_approve :: "console_env \<Rightarrow> string \<Rightarrow> string \<Rightarrow> bool \<Rightarrow> string \<Rightarrow> (coordinator, unit) act" where
  "begin_approve env k phrase acknowledged approval_id =
     bind (require_run k) (\<lambda>r.
     if kr_phase r \<noteq> Awaiting_Approval then raise ValueError
     else
       bind (console_now env) (\<lambda>now.
       bind (on_approvals (approve_run k phrase acknowledged approval_id now)) (\<lambda>confirmation.
       andthen (note_console (Approval_Event (Spent k phrase confirmation now)))
       (bind (get kc_live) (\<lambda>installed.
        if \<not> installed then andthen (advance_with env r Blocked (Some ''accepted_live_runner_required'')) (return ())
        else
          andthen (advance env r Executing None id)
          (andthen (note_console (Live_Call k confirmation)) (take_off (Live_Flight k))))))))"

definition result_phase :: "run_status \<Rightarrow> run_phase" where
  "result_phase s =
     (if s = Partially_Applied \<or> s = Indeterminate then Interrupted
      else if s = Confirmation_Rejected \<or> s = Failed_Unchanged \<or> s = Unsupported then Blocked
      else Completed_Run)"

definition result_code :: "run_result \<Rightarrow> string option" where
  "result_code x =
     (if given (rr_error x) then rr_error x
      else if result_phase (rr_status x) \<noteq> Completed_Run then Some (run_status_value (rr_status x)) else None)"

definition finish_approve :: "console_env \<Rightarrow> string \<Rightarrow> (run_result \<times> string option) res \<Rightarrow> (coordinator, console_run) act" where
  "finish_approve env k answer =
     andthen (land (Live_Flight k)) (bind (require_run k) (\<lambda>current.
     if kr_phase current \<noteq> Executing then return current
     else case answer of
         Inl e \<Rightarrow> advance_with env current Interrupted (Some (lock_code e))
       | Inr (x, last_run) \<Rightarrow>
           advance env current (result_phase (rr_status x)) (result_code x)
             (\<lambda>r. r\<lparr>kr_result := Some x, kr_error := result_code x, kr_source := last_run\<rparr>)))"

definition configure_execution :: "bool \<Rightarrow> bool \<Rightarrow> (coordinator, unit) act" where
  "configure_execution dry live =
     bind (get active_browser_run) (\<lambda>active.
     if active \<noteq> None then raise ValueError else update (\<lambda>w. w\<lparr>kc_dry_run := dry, kc_live := live\<rparr>))"

section \<open>What the operator reads\<close>

text \<open>The title, the detail and the action of a message.\<close>

type_synonym status_message = "string \<times> string \<times> (string \<times> string) option"

definition status_messages :: "(string \<times> status_message) list" where
  "status_messages =
    [(''planner_unavailable'', (''Local AI could not create the draft'',
        ''Your Google account settings are not involved, and nothing was sent to Google. Use the built-in blocked-sender form, which works without Ollama.'',
        Some (''Use built-in form'', ''/runs/new#built-in-form''))),
     (''ui_contract_pack_required'', (''Admin Console preview is not installed'',
        ''The validated plan is available, but this build has no supervised Admin Console contract pack. No Google Workspace settings were changed.'',
        Some (''View readiness'', ''/readiness''))),
     (''accepted_live_runner_required'', (''Live execution is not installed'',
        ''This build does not include an accepted live writer. The plan and preview remain available, but no Google Workspace settings were changed.'',
        Some (''View live gate'', ''/contracts''))),
     (''approval_expired'', (''Approval expired'',
        ''Run a new preview to refresh the observed state, hashes, and approval window.'', None)),
     (''console_restarted'', (''Console restarted before this step finished'',
        ''The unfinished local projection was stopped safely. Review the plan before continuing.'', None)),
     (''console_restarted_execution_uncertain'', (''Console restarted during execution'',
        ''The Google Admin outcome may be uncertain. Do not retry until audit evidence and the current Gmail settings have been reconciled.'',
        Some (''Review audit evidence'', ''/audits''))),
     (''run_lock_unavailable'', (''Another browser-backed run holds the lock'',
        ''Wait for the other run to finish, then create a fresh preview. No new Google Workspace changes were started by this run.'',
        Some (''View activity'', ''/activity'')))]"

text \<open>\<^verbatim>\<open>str.upper\<close> of one character and \<^verbatim>\<open>str.capitalize\<close>, for the letters of ASCII.\<close>

definition upper_char :: "char \<Rightarrow> char" where
  "upper_char c = (let n = (of_char c :: nat) in if 97 \<le> n \<and> n \<le> 122 then char_of (n - 32) else c)"

fun capitalized :: "string \<Rightarrow> string" where
  "capitalized [] = []"
| "capitalized (c # cs) = upper_char c # py_lower cs"

definition resolve_run_status :: "string option \<Rightarrow> status_message option" where
  "resolve_run_status error =
     (case error of
        None \<Rightarrow> None
      | Some code \<Rightarrow> (case dict_get status_messages code of
          Some m \<Rightarrow> Some m
        | None \<Rightarrow>
            let readable = capitalized (py_strip (map (\<lambda>c. if c = CHR ''_'' then CHR '' '' else c) code))
            in Some (''Run stopped'',
                 ''The run stopped at: '' @ readable @ ''. No Google Workspace settings were changed. Review Readiness for the missing prerequisite before trying again.'',
                 Some (''View readiness'', ''/readiness''))))"

datatype tone = Tone_Ok | Tone_Active | Tone_Blocked | Tone_Uncertain

record timeline_entry =
  te_phase :: run_phase
  te_at :: py_datetime
  te_duration :: string
  te_error :: "string option"
  te_tone :: tone

definition two_digits :: "nat \<Rightarrow> string" where
  "two_digits n = (if n < 10 then ''0'' else []) @ show_nat n"

definition duration_label :: "nat \<Rightarrow> string" where
  "duration_label seconds =
     (if seconds < 60 then show_nat seconds @ ''s''
      else let minutes = seconds div 60 in
        if minutes < 60 then show_nat minutes @ ''m '' @ two_digits (seconds mod 60) @ ''s''
        else show_nat (minutes div 60) @ ''h '' @ two_digits (minutes mod 60) @ ''m'')"

definition tone_of :: "run_phase \<Rightarrow> bool \<Rightarrow> tone" where
  "tone_of p active =
     (if p = Interrupted then Tone_Uncertain
      else if p = Blocked \<or> p = Cancelled then Tone_Blocked
      else if active then Tone_Active else Tone_Ok)"

text \<open>\<^verbatim>\<open>max(0, int((end - start).total_seconds()))\<close>; times are in microseconds.\<close>

definition elapsed_seconds :: "py_datetime \<Rightarrow> py_datetime \<Rightarrow> nat" where
  "elapsed_seconds a b = nat ((instant b - instant a) div 1000000)"

definition timeline_entry_of :: "console_run \<Rightarrow> py_datetime \<Rightarrow> nat \<Rightarrow> timeline_entry" where
  "timeline_entry_of r now i =
     (let t = kr_history r ! i;
          until = (if Suc i < length (kr_history r) then pt_at (kr_history r ! Suc i) else now);
          active = (Suc i = length (kr_history r) \<and>
            kr_phase r \<in> {Planning, In_Preflight, Awaiting_Approval, Executing, Verifying})
      in \<lparr>te_phase = pt_phase t, te_at = pt_at t, te_duration = duration_label (elapsed_seconds (pt_at t) until),
          te_error = pt_error t, te_tone = tone_of (pt_phase t) active\<rparr>)"

definition build_timeline :: "console_run \<Rightarrow> py_datetime \<Rightarrow> timeline_entry list" where
  "build_timeline r now =
     (if kr_history r = [] then
        [\<lparr>te_phase = kr_phase r, te_at = kr_updated r, te_duration = ''0s'', te_error = kr_error r,
          te_tone = tone_of (kr_phase r) False\<rparr>]
      else map (timeline_entry_of r now) [0 ..< length (kr_history r)])"

end
