(* ===== verification/Operator_Services.thy ===== *)
theory Operator_Services
  imports Console_Runs
begin

text \<open>
  Small services on local files: \<^verbatim>\<open>application/failure_mapping.py\<close>,
  \<^verbatim>\<open>infrastructure/protected_json.py\<close>, \<^verbatim>\<open>application/propagation_service.py\<close>,
  \<^verbatim>\<open>application/retention_service.py\<close> and \<^verbatim>\<open>infrastructure/process_lock.py\<close>. What the
  file system does at each call is given by a list of outcomes in the state.
\<close>

section \<open>Adapter failures\<close>

definition mapped_check :: "preflight_result res \<Rightarrow> preflight_result res" where
  "mapped_check source =
     (case source of
        Inr p \<Rightarrow> Inr p
      | Inl e \<Rightarrow> if expected_adapter_error e then failed_preflight (''preflight_'' @ error_code e) else Inl e)"

definition mapped_read :: "blocked_state res \<Rightarrow> blocked_state res" where
  "mapped_read source =
     (case source of Inr s \<Rightarrow> Inr s | Inl e \<Rightarrow> if expected_adapter_error e then Inl StateReadFailure else Inl e)"

definition mapped_apply :: "mutation_result res \<Rightarrow> mutation_result res" where
  "mapped_apply source =
     (case source of
        Inr m \<Rightarrow> Inr m
      | Inl e \<Rightarrow>
          if expected_adapter_error e then
            make_mutation_result \<lparr>mr_status = Uncertain, mr_operation = ''apply_change_set'', mr_ids = [],
              mr_error = Some (''writer_'' @ error_code e)\<rparr>
          else Inl e)"

section \<open>Protected collections\<close>

text \<open>
  The file of a store: absent, a link, not readable, no array, or an array of items that each
  validate or raise. A save fails before the replacement, or after it when the mode of the
  new file cannot be set.
\<close>

datatype 'a stored = Absent | Linked | Unreadable exn | No_Array | Items "'a res list"

datatype save_outcome = Saved | Fails_Before exn | Fails_After exn

record 'a protected =
  pj_accessible :: bool
  pj_file :: "'a stored"
  pj_outcomes :: "save_outcome list"

definition load_protected :: "('a protected, 'a list) act" where
  "load_protected s =
     (if \<not> pj_accessible s then (Inl OSError, s)
      else case pj_file s of
          Absent \<Rightarrow> (Inr [], s)
        | Linked \<Rightarrow> (Inl OSError, s)
        | Unreadable e \<Rightarrow> (Inl e, s)
        | No_Array \<Rightarrow> (Inl TypeError, s)
        | Items rs \<Rightarrow> (map_res (\<lambda>r. r) rs, s))"

definition save_protected :: "'a list \<Rightarrow> ('a protected, unit) act" where
  "save_protected values s =
     (let outcome = (case pj_outcomes s of [] \<Rightarrow> Saved | x # _ \<Rightarrow> x);
          later = s\<lparr>pj_outcomes := tl (pj_outcomes s)\<rparr>;
          written = later\<lparr>pj_file := Items (map Inr values)\<rparr>
      in case outcome of Saved \<Rightarrow> (Inr (), written) | Fails_Before e \<Rightarrow> (Inl e, later) | Fails_After e \<Rightarrow> (Inl e, written))"

section \<open>Propagation\<close>

datatype propagation_status = Propagation_Pending | Ui_Reconfirmed | Mail_Flow_Verified | Propagation_Expired | Propagation_Failed

record propagation =
  pp_run :: string
  pp_status :: propagation_status
  pp_created :: py_datetime
  pp_updated :: py_datetime
  pp_due :: py_datetime
  pp_recheck :: "string option"
  pp_mail_flow :: "string option"
  pp_note :: "string option"

definition make_propagation :: "propagation \<Rightarrow> propagation res" where
  "make_propagation r =
     (if \<not> run_identifier (pp_run r) \<or> (\<exists>s \<in> set_option (pp_recheck r). \<not> run_identifier s) \<or>
         (\<exists>s \<in> set_option (pp_mail_flow r). \<not> run_identifier s) \<or> (\<exists>s \<in> set_option (pp_note r). length s > 500)
      then Inl ValidationError
      else if \<not> is_aware (pp_created r) \<or> \<not> is_aware (pp_updated r) \<or> \<not> is_aware (pp_due r) then Inl ValidationError
      else if instant (pp_updated r) < instant (pp_created r) \<or> instant (pp_due r) < instant (pp_created r) then Inl ValidationError
      else if pp_status r = Mail_Flow_Verified \<and> pp_mail_flow r = None then Inl ValidationError
      else if pp_status r = Ui_Reconfirmed \<and> pp_recheck r = None then Inl ValidationError
      else if pp_status r = Propagation_Pending \<and> (pp_recheck r \<noteq> None \<or> pp_mail_flow r \<noteq> None) then Inl ValidationError
      else if pp_status r \<noteq> Mail_Flow_Verified \<and> pp_mail_flow r \<noteq> None then Inl ValidationError
      else Inr r)"

fun propagation_transitions :: "propagation_status \<Rightarrow> propagation_status set" where
  "propagation_transitions Propagation_Pending = {Ui_Reconfirmed, Mail_Flow_Verified, Propagation_Expired, Propagation_Failed}"
| "propagation_transitions Ui_Reconfirmed = {Mail_Flow_Verified, Propagation_Expired, Propagation_Failed}"
| "propagation_transitions _ = {}"

type_synonym follow_ups = "propagation protected"

definition list_propagation :: "(follow_ups, propagation list) act" where
  "list_propagation = bind load_protected (\<lambda>records. return (sort_key (\<lambda>r. - instant (pp_created r)) records))"

definition by_run :: "(string, propagation) dict \<Rightarrow> propagation list" where
  "by_run records = sort_key pp_run (dict_values records)"

text \<open>\<open>recheck_after\<close> is counted in seconds; the code's default is a day.\<close>

definition create_pending :: "string \<Rightarrow> py_datetime \<Rightarrow> int \<Rightarrow> (follow_ups, propagation) act" where
  "create_pending run_id now recheck_after =
     bind load_protected (\<lambda>loaded.
     let records = dict_of pp_run loaded
     in if dict_get records run_id \<noteq> None then raise ValueError
        else bind (lift (make_propagation \<lparr>pp_run = run_id, pp_status = Propagation_Pending, pp_created = now, pp_updated = now,
            pp_due = plus_seconds now recheck_after, pp_recheck = None, pp_mail_flow = None, pp_note = None\<rparr>)) (\<lambda>r.
          andthen (save_protected (by_run (dict_put run_id r records))) (return r)))"

definition replace_propagation ::
    "string \<Rightarrow> py_datetime \<Rightarrow> propagation_status \<Rightarrow> (propagation \<Rightarrow> propagation) \<Rightarrow> (follow_ups, propagation) act" where
  "replace_propagation run_id now target changes =
     bind load_protected (\<lambda>loaded.
     let records = dict_of pp_run loaded
     in case dict_get records run_id of
          None \<Rightarrow> raise ValueError
        | Some current \<Rightarrow>
            if target \<notin> propagation_transitions (pp_status current) then raise ValueError
            else bind (lift (make_propagation (changes (current\<lparr>pp_updated := now, pp_status := target\<rparr>)))) (\<lambda>updated.
              andthen (save_protected (by_run (dict_put run_id updated records))) (return updated)))"

definition record_ui_recheck :: "string \<Rightarrow> string \<Rightarrow> py_datetime \<Rightarrow> (follow_ups, propagation) act" where
  "record_ui_recheck run_id recheck_run_id now =
     replace_propagation run_id now Ui_Reconfirmed (\<lambda>r. r\<lparr>pp_recheck := Some recheck_run_id\<rparr>)"

definition record_mail_flow :: "string \<Rightarrow> string \<Rightarrow> py_datetime \<Rightarrow> (follow_ups, propagation) act" where
  "record_mail_flow run_id audit_run_id now =
     replace_propagation run_id now Mail_Flow_Verified (\<lambda>r. r\<lparr>pp_mail_flow := Some audit_run_id\<rparr>)"

section \<open>Retention\<close>

text \<open>
  A path is its list of parts; what the file system says of it is \<open>path_facts\<close>. \<open>stamp\<close> is
  \<^verbatim>\<open>strptime\<close> with the format of the run directories, read as UTC.
\<close>

type_synonym path = "string list"

record path_facts =
  pf_resolves :: "path option"
  pf_exists :: bool
  pf_directory :: bool
  pf_link :: bool

record retention_env =
  rt_runs :: path
  rt_days :: int
  rt_stamp :: "string \<Rightarrow> int option"
  rt_clock :: "nat \<Rightarrow> int"
  rt_facts :: "path \<Rightarrow> path_facts"
  rt_entries :: "string list"
  rt_removal :: "path \<Rightarrow> bool"

record retention_candidate =
  rn_path :: path
  rn_created :: int

definition after_dash :: "string \<Rightarrow> string option" where
  "after_dash name = (if CHR ''-'' \<in> set name then Some (tl (dropWhile (\<lambda>c. c \<noteq> CHR ''-'') name)) else None)"

definition run_created_at :: "retention_env \<Rightarrow> string \<Rightarrow> int option" where
  "run_created_at env name =
     (case after_dash name of
        None \<Rightarrow> None
      | Some run_id \<Rightarrow>
          if \<not> run_identifier run_id then None else rt_stamp env (takeWhile (\<lambda>c. c \<noteq> CHR ''-'') name))"

text \<open>\<^verbatim>\<open>path.name\<close>: the empty name for the root.\<close>

definition name_of :: "path \<Rightarrow> string" where
  "name_of p = (case rev p of [] \<Rightarrow> [] | n # _ \<Rightarrow> n)"

definition days :: "int \<Rightarrow> int" where
  "days n = n * 86400 * 1000000"

text \<open>One entry of the runs directory, in the loop of \<open>find_expired\<close>.\<close>

definition expired_entry :: "retention_env \<Rightarrow> int \<Rightarrow> string \<Rightarrow> retention_candidate list" where
  "expired_entry env cutoff name =
     (case run_created_at env name of
        None \<Rightarrow> []
      | Some created \<Rightarrow>
          let f = rt_facts env (rt_runs env @ [name])
          in if created < cutoff \<and> pf_directory f \<and> \<not> pf_link f
             then [\<lparr>rn_path = rt_runs env @ [name], rn_created = created\<rparr>] else [])"

definition find_expired :: "retention_env \<Rightarrow> retention_candidate list res" where
  "find_expired env =
     (let root = rt_facts env (rt_runs env)
      in if \<not> pf_exists root then Inr []
         else if \<not> pf_directory root \<or> pf_link root then Inl AuditRetentionFailure
         else
           let cutoff = rt_clock env 0 - days (rt_days env)
           in Inr (sort_key (\<lambda>c. name_of (rn_path c)) (concat (map (expired_entry env cutoff) (rt_entries env)))))"

text \<open>The \<open>n\<close>-th reading of the clock.\<close>

definition is_still_safe :: "retention_env \<Rightarrow> nat \<Rightarrow> retention_candidate \<Rightarrow> bool" where
  "is_still_safe env n c =
     (let p = rn_path c; f = rt_facts env p; cutoff = rt_clock env n - days (rt_days env)
      in case pf_resolves f of
           None \<Rightarrow> False
         | Some resolved \<Rightarrow>
             p = resolved \<and> butlast resolved = rt_runs env \<and> pf_exists f \<and> pf_directory f \<and> \<not> pf_link f \<and>
             run_created_at env (name_of p) = Some (rn_created c) \<and> rn_created c < cutoff)"

fun all_still_safe :: "retention_env \<Rightarrow> nat \<Rightarrow> retention_candidate list \<Rightarrow> bool" where
  "all_still_safe env n [] = True"
| "all_still_safe env n (c # cs) = (is_still_safe env n c \<and> all_still_safe env (Suc n) cs)"

text \<open>The state is the list of the paths whose removal was begun; \<open>rt_removal\<close> says whether
  \<^verbatim>\<open>rmtree\<close> succeeds.\<close>

definition remove_tree :: "retention_env \<Rightarrow> path \<Rightarrow> (path list, unit) act" where
  "remove_tree env p removed = (if rt_removal env p then (Inr (), removed @ [p]) else (Inl AuditRetentionFailure, removed @ [p]))"

definition delete_expired :: "retention_env \<Rightarrow> retention_candidate list \<Rightarrow> (path list, path list) act" where
  "delete_expired env candidates =
     (let paths = map rn_path candidates
      in if \<not> distinct paths then raise AuditRetentionFailure
         else if \<not> all_still_safe env 0 candidates then raise AuditRetentionFailure
         else andthen (each (remove_tree env) paths) (return paths))"

section \<open>The run lock\<close>

text \<open>
  Several \<^verbatim>\<open>ProcessLock\<close> objects on one file: which of them hold a handle, and which open
  file has the lock of the operating system, an exclusive one. \<open>io\<close> says what fails while the
  lock is taken: opening the file, setting its mode, writing the record. Closing a file gives
  its lock back.
\<close>

record lock_state =
  lk_held :: "nat set"
  lk_owner :: "nat option"

datatype lock_io = Io_Ok | Open_Fails | Mode_Fails | Record_Fails

definition acquire_lock :: "nat \<Rightarrow> lock_io \<Rightarrow> (lock_state, unit) act" where
  "acquire_lock i io s =
     (if i \<in> lk_held s then (Inl RunLockUnavailable, s)
      else if io = Open_Fails then (Inl OSError, s)
      else if io = Mode_Fails \<or> lk_owner s \<noteq> None then (Inl RunLockUnavailable, s)
      else if io = Record_Fails then (Inl OSError, s\<lparr>lk_owner := None\<rparr>)
      else (Inr (), s\<lparr>lk_held := insert i (lk_held s), lk_owner := Some i\<rparr>))"

definition release_lock :: "nat \<Rightarrow> lock_state \<Rightarrow> lock_state" where
  "release_lock i s =
     (if i \<notin> lk_held s then s
      else s\<lparr>lk_held := lk_held s - {i}, lk_owner := (if lk_owner s = Some i then None else lk_owner s)\<rparr>)"

end
