(* ===== verification/Console_Security.thy ===== *)
theory Console_Security
  imports Operator_Services
begin

text \<open>
  \<^verbatim>\<open>console/security.py\<close>, the middleware of \<^verbatim>\<open>console/app.py\<close> and the authorization of
  \<^verbatim>\<open>console/routes.py\<close>: who may reach the console. The tokens of \<^verbatim>\<open>secrets\<close> are a supply
  \<open>tok\<close>; the framework's request is what these functions read of it.
\<close>

section \<open>Origins\<close>

text \<open>
  \<^verbatim>\<open>urllib.parse.urlsplit\<close> for texts of Latin-1, as far as the validation reads it: the
  scheme, the network location, its user and its host, and the rest. Whether a bracketed
  location is one of IPv6 is the parameter \<open>bracketed\<close>.
\<close>

record url_parts =
  url_scheme :: string
  url_netloc :: string
  url_path :: string
  url_query :: string
  url_fragment :: string

definition ascii_letter :: "char \<Rightarrow> bool" where
  "ascii_letter c \<longleftrightarrow> (let n = (of_char c :: nat) in 65 \<le> n \<and> n \<le> 90 \<or> 97 \<le> n \<and> n \<le> 122)"

definition scheme_char :: "char \<Rightarrow> bool" where
  "scheme_char c \<longleftrightarrow> ascii_letter c \<or> (let n = (of_char c :: nat) in 48 \<le> n \<and> n \<le> 57) \<or> c \<in> set ''+-.''"

definition split_once :: "char \<Rightarrow> string \<Rightarrow> string \<times> string" where
  "split_once d s = (takeWhile (\<lambda>c. c \<noteq> d) s, tl (dropWhile (\<lambda>c. c \<noteq> d) s))"

definition split_scheme :: "string \<Rightarrow> string \<times> string" where
  "split_scheme url =
     (let before = takeWhile (\<lambda>c. c \<noteq> CHR '':'') url
      in if CHR '':'' \<in> set url \<and> before \<noteq> [] \<and> ascii_letter (hd url) \<and> list_all scheme_char before
         then (py_lower before, tl (dropWhile (\<lambda>c. c \<noteq> CHR '':'') url)) else ([], url))"

definition url_split :: "(string \<Rightarrow> bool) \<Rightarrow> string \<Rightarrow> url_parts res" where
  "url_split bracketed text =
     (let stripped = dropWhile (\<lambda>c. (of_char c :: nat) \<le> 32) text;
          url = filter (\<lambda>c. c \<notin> {CHR 0x09, CHR 0x0A, CHR 0x0D}) stripped;
          (scheme, rest) = split_scheme url;
          (netloc, tail) = (if py_startswith rest ''//''
            then (takeWhile (\<lambda>c. c \<notin> set ''/?#'') (drop 2 rest), dropWhile (\<lambda>c. c \<notin> set ''/?#'') (drop 2 rest))
            else ([], rest));
          (front, fragment) = split_once CHR ''#'' tail;
          (path_text, query) = split_once CHR ''?'' front
      in if (CHR ''['' \<in> set netloc) \<noteq> (CHR '']'' \<in> set netloc) then Inl ValueError
         else if CHR ''['' \<in> set netloc \<and> \<not> bracketed netloc then Inl ValueError
         else Inr \<lparr>url_scheme = scheme, url_netloc = netloc, url_path = path_text, url_query = query, url_fragment = fragment\<rparr>)"

text \<open>\<^verbatim>\<open>rpartition\<close> takes the last separator: what is behind it.\<close>

definition after_last :: "char \<Rightarrow> string \<Rightarrow> string" where
  "after_last d s = rev (takeWhile (\<lambda>c. c \<noteq> d) (rev s))"

text \<open>
  \<^verbatim>\<open>username\<close> is not \<^verbatim>\<open>None\<close> exactly when the location has an at sign, and only then
  \<^verbatim>\<open>password\<close> may not be. The host is before a zone and in lower case, which the
  validation, asking only whether it is empty, does not see.
\<close>

definition has_userinfo :: "url_parts \<Rightarrow> bool" where
  "has_userinfo u \<longleftrightarrow> CHR ''@'' \<in> set (url_netloc u)"

definition url_host :: "url_parts \<Rightarrow> string" where
  "url_host u =
     (let info = after_last CHR ''@'' (url_netloc u)
      in if CHR ''['' \<in> set info then takeWhile (\<lambda>c. c \<noteq> CHR '']'') (snd (split_once CHR ''['' info))
         else takeWhile (\<lambda>c. c \<noteq> CHR '':'') info)"

definition without_slashes :: "string \<Rightarrow> string" where
  "without_slashes s = rev (dropWhile (\<lambda>c. c = CHR ''/'') (rev s))"

definition loopback_origin :: "int \<Rightarrow> string" where
  "loopback_origin port = ''http://127.0.0.1:'' @ show_int port"

definition validate_public_origin :: "(string \<Rightarrow> bool) \<Rightarrow> string \<Rightarrow> int \<Rightarrow> string res" where
  "validate_public_origin bracketed origin port =
     (let normalized = without_slashes origin
      in and_then (url_split bracketed normalized) (\<lambda>u.
         if url_scheme u \<notin> {''http'', ''https''} \<or> url_host u = [] \<or> has_userinfo u \<or> url_path u \<noteq> [] \<or>
            url_query u \<noteq> [] \<or> url_fragment u \<noteq> [] then Inl ValueError
         else if url_scheme u = ''http'' \<and> normalized \<noteq> loopback_origin port then Inl ValueError
         else Inr normalized))"

section \<open>The session\<close>

record operator_session =
  cs_session :: string
  cs_csrf :: string

record console_security =
  sc_origin :: string
  sc_host :: string
  sc_secure :: bool
  sc_launch :: string
  sc_session :: "operator_session option"
  sc_drawn :: nat

definition new_security :: "(nat \<Rightarrow> string) \<Rightarrow> (string \<Rightarrow> bool) \<Rightarrow> int \<Rightarrow> string option \<Rightarrow> console_security res" where
  "new_security tok bracketed port public_origin =
     (let asked = (case public_origin of Some (c # cs) \<Rightarrow> c # cs | _ \<Rightarrow> loopback_origin port)
      in and_then (validate_public_origin bracketed asked port) (\<lambda>origin.
         and_then (url_split bracketed origin) (\<lambda>u.
         Inr \<lparr>sc_origin = origin, sc_host = url_netloc u, sc_secure = (url_scheme u = ''https''),
           sc_launch = tok 0, sc_session = None, sc_drawn = 1\<rparr>)))"

definition bootstrap_url :: "console_security \<Rightarrow> string" where
  "bootstrap_url s = sc_origin s @ ''/bootstrap#'' @ sc_launch s"

definition reissue_bootstrap_url :: "(nat \<Rightarrow> string) \<Rightarrow> (console_security, string) act" where
  "reissue_bootstrap_url tok s =
     (let later = s\<lparr>sc_launch := tok (sc_drawn s), sc_drawn := Suc (sc_drawn s)\<rparr>
      in (Inr (bootstrap_url later), later))"

definition bootstrap_session :: "(nat \<Rightarrow> string) \<Rightarrow> string \<Rightarrow> (console_security, operator_session) act" where
  "bootstrap_session tok supplied =
     bind (get sc_launch) (\<lambda>launch.
     bind (lift (compare_digest supplied launch)) (\<lambda>same.
     if \<not> same then raise PermissionError
     else bind (get sc_drawn) (\<lambda>n.
       let opened = \<lparr>cs_session = tok n, cs_csrf = tok (n + 1)\<rparr>
       in andthen (update (\<lambda>s. s\<lparr>sc_session := Some opened, sc_launch := tok (n + 2), sc_drawn := n + 3\<rparr>))
            (return opened))))"

record web_request =
  rq_method :: string
  rq_path :: string
  rq_host :: "string option"
  rq_origin :: "string option"
  rq_cookie :: "string option"
  rq_htmx :: bool

definition authenticated :: "console_security \<Rightarrow> web_request \<Rightarrow> bool res" where
  "authenticated s r =
     (case (rq_cookie r, sc_session s) of
        (Some (c # cs), Some opened) \<Rightarrow> compare_digest (c # cs) (cs_session opened)
      | _ \<Rightarrow> Inr False)"

definition csrf_token :: "console_security \<Rightarrow> string res" where
  "csrf_token s = (case sc_session s of None \<Rightarrow> Inl PermissionError | Some opened \<Rightarrow> Inr (cs_csrf opened))"

definition require_csrf :: "console_security \<Rightarrow> string \<Rightarrow> unit res" where
  "require_csrf s supplied =
     and_then (csrf_token s) (\<lambda>expected.
     and_then (compare_digest supplied expected) (\<lambda>same. if same then Inr () else Inl PermissionError))"

definition origin_allowed :: "console_security \<Rightarrow> web_request \<Rightarrow> bool res" where
  "origin_allowed s r =
     (case rq_origin r of None \<Rightarrow> Inr True | Some origin \<Rightarrow> compare_digest (without_slashes origin) (sc_origin s))"

definition host_allowed :: "console_security \<Rightarrow> web_request \<Rightarrow> bool res" where
  "host_allowed s r = compare_digest (case rq_host r of None \<Rightarrow> [] | Some h \<Rightarrow> h) (sc_host s)"

section \<open>The gate\<close>

text \<open>What the middleware \<^verbatim>\<open>protect\<close> answers before a handler runs.\<close>

datatype gate = Admitted | Invalid_Host | Invalid_Origin | To_Bootstrap

definition protect :: "console_security \<Rightarrow> web_request \<Rightarrow> gate res" where
  "protect s r =
     and_then (host_allowed s r) (\<lambda>host_ok.
     if \<not> host_ok then Inr Invalid_Host
     else
       and_then (if rq_method r \<notin> {''GET'', ''HEAD'', ''OPTIONS''} \<and> rq_path r \<noteq> ''/bootstrap''
         then origin_allowed s r else Inr True) (\<lambda>origin_ok.
       if \<not> origin_ok then Inr Invalid_Origin
       else
         and_then (if rq_path r = ''/bootstrap'' \<or> py_startswith (rq_path r) ''/static/'' then Inr True
           else authenticated s r) (\<lambda>known. Inr (if known then Admitted else To_Bootstrap))))"

definition authorize_post :: "console_security \<Rightarrow> web_request \<Rightarrow> string option \<Rightarrow> unit res" where
  "authorize_post s r csrf =
     and_then (authenticated s r) (\<lambda>known.
     if \<not> known then Inl PermissionError
     else case csrf of None \<Rightarrow> Inl PermissionError | Some supplied \<Rightarrow> require_csrf s supplied)"

section \<open>A sequence of requests\<close>

text \<open>The terminal reissues the link, a request signs in; no other call changes the state.\<close>

datatype door_call = Reissue_Link | Sign_In web_request string

definition admitted_sign_in :: "console_security \<Rightarrow> web_request \<Rightarrow> bool" where
  "admitted_sign_in s r \<longleftrightarrow> rq_method r = ''POST'' \<and> rq_path r = ''/bootstrap'' \<and> protect s r = Inr Admitted"

fun door_step :: "(nat \<Rightarrow> string) \<Rightarrow> door_call \<Rightarrow> console_security \<Rightarrow> console_security" where
  "door_step tok Reissue_Link s = snd (reissue_bootstrap_url tok s)"
| "door_step tok (Sign_In r supplied) s = (if admitted_sign_in s r then snd (bootstrap_session tok supplied s) else s)"

definition door_after :: "(nat \<Rightarrow> string) \<Rightarrow> door_call list \<Rightarrow> console_security \<Rightarrow> console_security" where
  "door_after tok calls s = fold (door_step tok) calls s"

text \<open>The calls that open a session.\<close>

fun signs_in :: "console_security \<Rightarrow> door_call \<Rightarrow> bool" where
  "signs_in s Reissue_Link = False"
| "signs_in s (Sign_In r supplied) = (admitted_sign_in s r \<and> compare_digest supplied (sc_launch s) = Inr True)"

lemma digest_same: "compare_digest a b = Inr True \<longleftrightarrow> a = b \<and> is_ascii a"
  by (auto simp: compare_digest_def)

lemma door_step_signs:
  "signs_in s c \<Longrightarrow> door_step tok c s = s\<lparr>sc_session := Some \<lparr>cs_session = tok (sc_drawn s), cs_csrf = tok (sc_drawn s + 1)\<rparr>,
     sc_launch := tok (sc_drawn s + 2), sc_drawn := sc_drawn s + 3\<rparr>"
  by (cases c) (auto simp: bootstrap_session_def bind_def andthen_def Let_def)

lemma door_step_other:
  "\<not> signs_in s c \<Longrightarrow> sc_session (door_step tok c s) = sc_session s \<and> sc_drawn s \<le> sc_drawn (door_step tok c s) \<and>
     sc_origin (door_step tok c s) = sc_origin s \<and> sc_host (door_step tok c s) = sc_host s \<and>
     (sc_launch (door_step tok c s) = sc_launch s \<and> sc_drawn (door_step tok c s) = sc_drawn s \<or>
      sc_launch (door_step tok c s) = tok (sc_drawn s) \<and> sc_drawn (door_step tok c s) = Suc (sc_drawn s))"
  by (cases c) (auto simp: reissue_bootstrap_url_def bootstrap_session_def bind_def andthen_def Let_def
      compare_digest_def split: prod.splits sum.splits if_splits)

lemma door_after_snoc: "door_after tok (calls @ [c]) s = door_step tok c (door_after tok calls s)"
  by (simp add: door_after_def)

text \<open>The launch token is the last one drawn.\<close>

definition door_inv :: "(nat \<Rightarrow> string) \<Rightarrow> console_security \<Rightarrow> bool" where
  "door_inv tok s \<longleftrightarrow> 0 < sc_drawn s \<and> sc_launch s = tok (sc_drawn s - 1)"

lemma door_inv_step: "door_inv tok s \<Longrightarrow> door_inv tok (door_step tok c s)"
  using door_step_signs [of s c tok] door_step_other [of s c tok]
  by (cases "signs_in s c") (auto simp: door_inv_def numeral_2_eq_2)

lemma door_inv_after: "door_inv tok s \<Longrightarrow> door_inv tok (door_after tok calls s)"
  by (induction calls rule: rev_induct) (simp_all add: door_after_snoc door_inv_step, simp add: door_after_def)

end
