(* ===== verification/Contracts.thy ===== *)
theory Contracts
  imports Console_Security
begin

text \<open>
  \<^verbatim>\<open>UiContractPack\<close> of \<^verbatim>\<open>schemas/operations.py\<close>, \<^verbatim>\<open>application/ui_contract_service.py\<close>,
  \<^verbatim>\<open>console/capabilities.py\<close>, the gates of \<^verbatim>\<open>composition.py\<close>, \<^verbatim>\<open>console/readiness.py\<close> and
  \<^verbatim>\<open>console/setup_flow.py\<close>: which adapters the reviewed evidence admits. The adapters are
  plug-ins: a provider is what it returns or raises for a pack.
\<close>

section \<open>Contract packs\<close>

datatype contract_status = Draft_Pack | Fixture_Validated | Read_Live_Validated | Write_Live_Validated | Accepted_Pack

fun contract_status_value :: "contract_status \<Rightarrow> string" where
  "contract_status_value Draft_Pack = ''draft''"
| "contract_status_value Fixture_Validated = ''fixture_validated''"
| "contract_status_value Read_Live_Validated = ''read_live_validated''"
| "contract_status_value Write_Live_Validated = ''write_live_validated''"
| "contract_status_value Accepted_Pack = ''accepted''"

record contract_pack =
  uc_id :: uuid
  uc_created :: py_datetime
  uc_status :: contract_status
  uc_fixtures :: "string list"
  uc_names :: "string list"
  uc_accepted :: "string option"

definition make_contract_pack :: "contract_pack \<Rightarrow> contract_pack res" where
  "make_contract_pack p =
     (if \<not> list_all sha256_digest (uc_fixtures p) \<or> \<not> digest_or_none (uc_accepted p) then Inl ValidationError
      else if \<not> is_aware (uc_created p) then Inl ValidationError
      else if uc_status p = Accepted_Pack \<and> (uc_fixtures p = [] \<or> uc_names p = [] \<or> uc_accepted p = None)
        then Inl ValidationError
      else if uc_status p \<noteq> Accepted_Pack \<and> uc_accepted p \<noteq> None then Inl ValidationError
      else Inr p)"

definition contract_members :: "(py_datetime \<Rightarrow> string) \<Rightarrow> contract_pack \<Rightarrow> json" where
  "contract_members isofmt p = JObj
     [(''schema_version'', JStr ''1.0''), (''contract_id'', JStr (uuid_str (uc_id p))),
      (''created_at'', JStr (isofmt (uc_created p))), (''status'', JStr (contract_status_value (uc_status p))),
      (''fixture_hashes'', JArr (map JStr (uc_fixtures p))), (''contract_names'', JArr (map JStr (uc_names p)))]"

definition contract_pack_digest :: "(string \<Rightarrow> string) \<Rightarrow> (py_datetime \<Rightarrow> string) \<Rightarrow> contract_pack \<Rightarrow> string" where
  "contract_pack_digest H isofmt p = H (json_dumps '','' '':'' (contract_members isofmt p))"

text \<open>The file of the store; \<open>Pack_File\<close> holds the members a JSON text has, not yet validated.\<close>

datatype contract_file = No_File | Link_File | Bad_File exn | Pack_File contract_pack

record contract_env =
  ce_sha :: "string \<Rightarrow> string"
  ce_iso :: "py_datetime \<Rightarrow> string"
  ce_file :: contract_file

definition load_contract :: "contract_env \<Rightarrow> contract_pack option res" where
  "load_contract env =
     (case ce_file env of
        No_File \<Rightarrow> Inr None
      | Link_File \<Rightarrow> Inl OSError
      | Bad_File e \<Rightarrow> Inl e
      | Pack_File p \<Rightarrow>
          and_then (make_contract_pack p) (\<lambda>pack.
          if uc_status pack = Accepted_Pack \<and> uc_accepted pack \<noteq> Some (contract_pack_digest (ce_sha env) (ce_iso env) pack)
          then Inl UnvalidatedUiContract else Inr (Some pack)))"

definition require_accepted :: "contract_env \<Rightarrow> contract_pack res" where
  "require_accepted env =
     and_then (load_contract env) (\<lambda>loaded.
     case loaded of
       None \<Rightarrow> Inl UnvalidatedUiContract
     | Some pack \<Rightarrow> if uc_status pack \<noteq> Accepted_Pack then Inl UnvalidatedUiContract else Inr pack)"

section \<open>Capabilities\<close>

text \<open>
  What a provider returns: adapters with a writer, adapters that only read, each with the
  pack they are bound to, or something else. An entry point loads or raises; what it loads
  may not be callable.
\<close>

datatype adapters = Accepted_Adapters contract_pack | Accepted_Read_Adapters contract_pack | No_Adapters

datatype entry_point = Load_Raises exn | Not_Callable | Provider "contract_pack \<Rightarrow> adapters res"

fun bound_pack :: "adapters \<Rightarrow> contract_pack option" where
  "bound_pack (Accepted_Adapters p) = Some p"
| "bound_pack (Accepted_Read_Adapters p) = Some p"
| "bound_pack No_Adapters = None"

fun mutation_capable :: "adapters \<Rightarrow> bool" where
  "mutation_capable (Accepted_Adapters _) = True"
| "mutation_capable _ = False"

text \<open>The services of a console: the packs of the adapters they were made with.\<close>

record capabilities =
  cb_preview :: "contract_pack option"
  cb_live :: "contract_pack option"
  cb_status :: "contract_status option"
  cb_reason :: "string option"

definition unavailable :: "contract_status option \<Rightarrow> string \<Rightarrow> capabilities" where
  "unavailable status reason = \<lparr>cb_preview = None, cb_live = None, cb_status = status, cb_reason = Some reason\<rparr>"

definition read_statuses :: "contract_status set" where
  "read_statuses = {Read_Live_Validated, Write_Live_Validated, Accepted_Pack}"

text \<open>\<^verbatim>\<open>_as_read_adapters\<close> keeps the pack.\<close>

fun as_read_adapters :: "adapters \<Rightarrow> adapters" where
  "as_read_adapters (Accepted_Adapters p) = Accepted_Read_Adapters p"
| "as_read_adapters a = a"

definition admitted_adapters :: "contract_env \<Rightarrow> run_mode \<Rightarrow> contract_pack \<Rightarrow> adapters \<Rightarrow> capabilities" where
  "admitted_adapters env mode pack a =
     (let digest = contract_pack_digest (ce_sha env) (ce_iso env);
          status = Some (uc_status pack);
          reads = bound_pack (as_read_adapters a)
      in case bound_pack a of
           None \<Rightarrow> unavailable status ''adapter_provider_invalid''
         | Some bound \<Rightarrow>
             if digest bound \<noteq> digest pack then unavailable status ''adapter_contract_digest_mismatch''
             else if mode = Dry_Run_Mode then
               (if uc_status pack \<notin> read_statuses then unavailable status ''read_contract_evidence_required''
                else \<lparr>cb_preview = reads, cb_live = None, cb_status = status, cb_reason = None\<rparr>)
             else if uc_status pack \<noteq> Accepted_Pack \<or> \<not> mutation_capable a
               then unavailable status ''accepted_live_adapters_required''
             else \<lparr>cb_preview = reads, cb_live = Some bound, cb_status = status, cb_reason = None\<rparr>)"

definition discover :: "contract_env \<Rightarrow> run_mode \<Rightarrow> entry_point list res \<Rightarrow> capabilities res" where
  "discover env mode entries =
     and_then (load_contract env) (\<lambda>loaded.
     if mode = Plan_Only then Inr (unavailable (map_option uc_status loaded) ''plan_only'')
     else case loaded of
         None \<Rightarrow> Inr (unavailable None ''ui_contract_pack_required'')
       | Some pack \<Rightarrow>
           and_then entries (\<lambda>found.
           case found of
             [] \<Rightarrow> Inr (unavailable (Some (uc_status pack)) ''adapters_not_installed'')
           | [Load_Raises e] \<Rightarrow> Inl e
           | [Not_Callable] \<Rightarrow> Inr (unavailable (Some (uc_status pack)) ''adapter_provider_invalid'')
           | [Provider provide] \<Rightarrow> and_then (provide pack) (\<lambda>a. Inr (admitted_adapters env mode pack a))
           | _ \<Rightarrow> Inr (unavailable (Some (uc_status pack)) ''multiple_adapter_providers'')))"

definition resolve_capabilities :: "contract_env \<Rightarrow> run_mode \<Rightarrow> entry_point list res \<Rightarrow> capabilities" where
  "resolve_capabilities env mode entries =
     (case discover env mode entries of Inl _ \<Rightarrow> unavailable None ''adapter_provider_failed'' | Inr c \<Rightarrow> c)"

section \<open>Composition\<close>

text \<open>
  \<^verbatim>\<open>compose_compliance_runtime\<close> and \<^verbatim>\<open>compose_dry_run_runtime\<close>: the checks before the run
  lock is taken, and the lock given back when what is bound afterwards raises (\<open>fault\<close>).
  The parts of a runtime are the environments of the workflow and of the dry run.
\<close>

definition under_lock :: "nat \<Rightarrow> lock_io \<Rightarrow> exn option \<Rightarrow> (lock_state, unit) act" where
  "under_lock i io fault =
     andthen (acquire_lock i io)
       (case fault of None \<Rightarrow> return () | Some e \<Rightarrow> andthen (update (release_lock i)) (raise e))"

definition compose_compliance_runtime ::
    "run_mode \<Rightarrow> contract_pack \<Rightarrow> nat \<Rightarrow> lock_io \<Rightarrow> exn option \<Rightarrow> (lock_state, unit) act" where
  "compose_compliance_runtime mode pack i io fault =
     (if mode \<noteq> Live_Mode then raise ValueError
      else if uc_status pack \<noteq> Accepted_Pack \<or> uc_accepted pack = None then raise ValueError
      else under_lock i io fault)"

definition compose_dry_run_runtime ::
    "run_mode \<Rightarrow> contract_pack \<Rightarrow> nat \<Rightarrow> lock_io \<Rightarrow> exn option \<Rightarrow> (lock_state, unit) act" where
  "compose_dry_run_runtime mode pack i io fault =
     (if mode \<notin> {Dry_Run_Mode, Live_Mode} then raise ValueError
      else if uc_status pack \<notin> read_statuses then raise ValueError
      else under_lock i io fault)"

text \<open>\<^verbatim>\<open>ComplianceRuntime.close\<close> and \<^verbatim>\<open>DryRunRuntime.close\<close>.\<close>

definition close_runtime :: "nat \<Rightarrow> (lock_state, unit) act" where
  "close_runtime i = update (release_lock i)"

text \<open>
  \<^verbatim>\<open>InjectedPreviewService.preview\<close> and \<^verbatim>\<open>InjectedLiveRunner.execute\<close>: compose, run, and
  close whatever the run returns or raises. \<open>outcome\<close> is what the runtime gives.
\<close>

definition injected_preview ::
    "run_mode \<Rightarrow> contract_pack \<Rightarrow> nat \<Rightarrow> lock_io \<Rightarrow> exn option \<Rightarrow> 'a res \<Rightarrow> (lock_state, 'a) act" where
  "injected_preview mode pack i io fault outcome =
     andthen (compose_dry_run_runtime mode pack i io fault) (andthen (close_runtime i) (lift outcome))"

text \<open>
  The live workflow pauses at its confirmation request, which the console answers with the
  confirmation of its own approval, or ends before it.
\<close>

datatype live_events = One_Request | Ends_With run_result | Something_Else

definition injected_execute ::
    "run_mode \<Rightarrow> contract_pack \<Rightarrow> nat \<Rightarrow> lock_io \<Rightarrow> exn option \<Rightarrow> task_plan option \<Rightarrow> live_events res \<Rightarrow>
      run_result option res \<Rightarrow> (lock_state, run_result) act" where
  "injected_execute mode pack i io fault plan first second =
     (if plan = None then raise ValueError
      else
        andthen (compose_compliance_runtime mode pack i io fault)
        (andthen (close_runtime i) (lift
          (and_then first (\<lambda>events. case events of
             Ends_With x \<Rightarrow> Inr x
           | Something_Else \<Rightarrow> Inl ValueError
           | One_Request \<Rightarrow> and_then second (\<lambda>outputs. case outputs of Some x \<Rightarrow> Inr x | None \<Rightarrow> Inl ValueError))))))"

end
