(* ===== verification/Readiness.thy ===== *)
theory Readiness
  imports Contracts
begin

text \<open>
  \<^verbatim>\<open>console/readiness.py\<close> and \<^verbatim>\<open>console/setup_flow.py\<close>: what the console says is missing,
  and the guided steps made of it.
\<close>

section \<open>Readiness\<close>

record readiness_item =
  ri_name :: string
  ri_status :: string
  ri_detail :: string
  ri_blocking :: bool
  ri_hint :: "string option"
  ri_href :: "string option"
  ri_label :: "string option"

text \<open>A directory: its text, whether it exists and whether it can be listed.\<close>

record directory_facts =
  df_text :: string
  df_exists :: bool
  df_lists :: bool

record readiness_env =
  re_mode :: run_mode
  re_profile :: directory_facts
  re_audit :: directory_facts
  re_state :: directory_facts
  re_admin :: string
  re_domain :: string
  re_contract :: contract_env

definition directory_is_accessible :: "directory_facts \<Rightarrow> bool" where
  "directory_is_accessible d \<longleftrightarrow> \<not> df_exists d \<or> df_lists d"

definition directory_item :: "string \<Rightarrow> directory_facts \<Rightarrow> string \<Rightarrow> readiness_item" where
  "directory_item name d setting =
     (let accessible = directory_is_accessible d
      in \<lparr>ri_name = name,
          ri_status = (if \<not> accessible then ''inaccessible'' else if df_exists d then ''ready'' else ''automatic''),
          ri_detail = (if \<not> accessible then ''The current Windows user cannot access '' @ df_text d @
              ''. Restore access or choose a new location with '' @ setting @ ''.''
            else if df_exists d then ''Ready at '' @ df_text d @ ''.''
            else ''Will be created automatically at '' @ df_text d @ ''.''),
          ri_blocking = (\<not> accessible), ri_hint = (if accessible then None else Some setting),
          ri_href = None, ri_label = None\<rparr>)"

definition spaced_words :: "string \<Rightarrow> string" where
  "spaced_words s = map (\<lambda>c. if c = CHR ''_'' then CHR '' '' else c) s"

definition capability_item :: "run_mode \<Rightarrow> capabilities option \<Rightarrow> bool \<Rightarrow> readiness_item" where
  "capability_item mode caps browser_setup_required =
     (let preview_ready = (case caps of None \<Rightarrow> False | Some c \<Rightarrow> cb_preview c \<noteq> None);
          live_ready = (case caps of None \<Rightarrow> False | Some c \<Rightarrow> cb_live c \<noteq> None);
          ready = (if mode = Dry_Run_Mode then preview_ready else live_ready)
      in \<lparr>ri_name = ''Browser-backed capability'',
          ri_status = (if ready then ''ready'' else if \<not> browser_setup_required then ''not_applicable'' else ''not_installed''),
          ri_detail = (if mode = Plan_Only then ''Browser-backed work is not applicable to this plan-only launch.''
            else if ready then
              (if mode = Dry_Run_Mode then ''A verified read adapter is installed for preview.''
               else ''Verified preview and live execution adapters are installed.'')
            else ''No verified browser-backed adapter is available; the console remains fail-closed.'' @
              (case (case caps of None \<Rightarrow> None | Some c \<Rightarrow> cb_reason c) of
                 Some (r # rs) \<Rightarrow> '' Reason: '' @ spaced_words (r # rs) @ ''.'' | _ \<Rightarrow> [])),
          ri_blocking = (browser_setup_required \<and> \<not> ready), ri_hint = None,
          ri_href = Some ''/setup'', ri_label = Some ''Review available capabilities''\<rparr>)"

text \<open>The errors of \<^verbatim>\<open>except (ComplianceAgentError, OSError, UnicodeError, ValueError)\<close>.\<close>

definition contract_error_shown :: "exn \<Rightarrow> bool" where
  "contract_error_shown e \<longleftrightarrow> is_compliance_error e \<or> is_os_error e \<or> is_value_error e"

definition identity_item :: "string \<Rightarrow> string \<Rightarrow> string \<Rightarrow> string \<Rightarrow> bool \<Rightarrow> readiness_item" where
  "identity_item name configured value setting browser_setup_required =
     \<lparr>ri_name = name, ri_status = (if value \<noteq> [] then ''ready'' else ''needed''),
      ri_detail = (if value \<noteq> [] then configured
        else if browser_setup_required then ''Required for this browser-backed launch. Add it in the setup guide.''
        else ''Optional for plan-only. Add it before a future Google Admin preview.''),
      ri_blocking = (browser_setup_required \<and> value = []),
      ri_hint = (if value \<noteq> [] then None else Some setting),
      ri_href = (if value \<noteq> [] then None else Some ''/setup#google-account''),
      ri_label = (if value \<noteq> [] then None else Some ''Configure Google identity'')\<rparr>"

definition evidence_item :: "string option \<Rightarrow> bool \<Rightarrow> bool \<Rightarrow> readiness_item" where
  "evidence_item error ready browser_setup_required =
     \<lparr>ri_name = ''Google Admin interface evidence'',
      ri_status = (if error \<noteq> None then ''invalid'' else if ready then ''ready'' else ''evidence_required''),
      ri_detail = (case error of
          Some name \<Rightarrow> ''Contract evidence is invalid ('' @ name @ ''); live behavior remains disabled.''
        | None \<Rightarrow>
            if ready then ''Required interface evidence is available.''
            else if browser_setup_required then ''Required for browser-backed work. Review the supervised setup steps.''
            else ''Optional for plan-only. Browser preview and apply stay unavailable without it.''),
      ri_blocking = (browser_setup_required \<and> \<not> ready), ri_hint = None,
      ri_href = (if ready then None else Some ''/contracts''),
      ri_label = (if ready then None else Some ''Review Google Admin setup'')\<rparr>"

definition mode_item :: "run_mode \<Rightarrow> readiness_item" where
  "mode_item mode =
     \<lparr>ri_name = ''Launch mode'', ri_status = ''ready'',
      ri_detail = (if mode = Plan_Only then ''Plan-only is ready now; this launch stops after producing a validated plan.''
        else ''This launch is configured for '' @ spaced_words (run_mode_value mode) @ ''.''),
      ri_blocking = False, ri_hint = None, ri_href = Some ''/setup'', ri_label = Some ''Review what this mode can do''\<rparr>"

definition collect_readiness :: "readiness_env \<Rightarrow> capabilities option \<Rightarrow> readiness_item list res" where
  "collect_readiness env caps =
     and_then (case load_contract (re_contract env) of
         Inr loaded \<Rightarrow> Inr (loaded, None)
       | Inl e \<Rightarrow> if contract_error_shown e then Inr (None, Some (exn_name e)) else Inl e) (\<lambda>(contract, error).
     let required = (re_mode env \<noteq> Plan_Only);
         accepted = (if re_mode env = Dry_Run_Mode then read_statuses else {Accepted_Pack});
         ready = (case contract of None \<Rightarrow> False | Some p \<Rightarrow> uc_status p \<in> accepted \<and> error = None)
     in Inr
       [mode_item (re_mode env),
        directory_item ''Browser profile'' (re_profile env) ''CA_PROFILE_DIR'',
        directory_item ''Audit storage'' (re_audit env) ''CA_AUDIT_DIR'',
        directory_item ''State storage'' (re_state env) ''CA_STATE_DIR'',
        identity_item ''Administrator identity'' ''Expected administrator is configured.'' (re_admin env) ''CA_EXPECTED_ADMIN_EMAIL'' required,
        identity_item ''Workspace identity'' ''Expected Workspace is configured.'' (re_domain env) ''CA_EXPECTED_WORKSPACE_DOMAIN'' required,
        evidence_item error ready required,
        capability_item (re_mode env) caps required])"

text \<open>The cache: a number of blocking items and when it was counted, in microseconds.\<close>

record system_health =
  sh_blocking :: nat
  sh_checked :: int

record readiness_cache =
  rc_ttl :: int
  rc_capabilities :: "capabilities option"
  rc_cached :: "system_health option"

definition cached_health :: "readiness_env \<Rightarrow> int \<Rightarrow> (readiness_cache, system_health) act" where
  "cached_health env now c =
     (let fresh = and_then (collect_readiness env (rc_capabilities c)) (\<lambda>items.
            Inr \<lparr>sh_blocking = length (filter ri_blocking items), sh_checked = now\<rparr>);
          renew = (case fresh of Inl e \<Rightarrow> (Inl e, c) | Inr h \<Rightarrow> (Inr h, c\<lparr>rc_cached := Some h\<rparr>))
      in case rc_cached c of
           Some h \<Rightarrow> if now - sh_checked h < rc_ttl c then (Inr h, c) else renew
         | None \<Rightarrow> renew)"

definition invalidate_health :: "readiness_cache \<Rightarrow> readiness_cache" where
  "invalidate_health c = c\<lparr>rc_cached := None\<rparr>"

definition set_capabilities :: "capabilities option \<Rightarrow> readiness_cache \<Rightarrow> readiness_cache" where
  "set_capabilities caps c = invalidate_health (c\<lparr>rc_capabilities := caps\<rparr>)"

section \<open>Guided setup\<close>

datatype setup_state = Step_Complete | Step_Current | Step_Locked | Step_Not_Applicable

record setup_step =
  ss_number :: nat
  ss_title :: string
  ss_detail :: string
  ss_state :: setup_state
  ss_href :: string
  ss_label :: string
  ss_readiness :: "readiness_item list"

definition always_applicable_steps :: nat where "always_applicable_steps = 2"

definition setup_groups :: "readiness_item list \<Rightarrow> (string \<times> readiness_item list \<times> string \<times> string) list" where
  "setup_groups items =
     [(''Mode'', take 1 items, ''/setup#run-mode'', ''Choose a run mode''),
      (''Storage'', take 3 (drop 1 items), ''/readiness'', ''Review storage''),
      (''Google identities'', take 2 (drop 4 items), ''/setup#google-account'', ''Configure identities''),
      (''Admin interface evidence'', take 1 (drop 6 items), ''/contracts'', ''Review interface evidence''),
      (''Browser-backed capability'', take 1 (drop 7 items), ''/readiness'', ''Review browser capability'')]"

definition step_states :: "bool \<Rightarrow> bool list \<Rightarrow> setup_state list" where
  "step_states applicable measured =
     (let complete = map (\<lambda>i. measured ! i \<or> \<not> applicable \<and> 2 \<le> i) [0 ..< length measured];
          current = find (\<lambda>i. \<not> complete ! i \<and> (applicable \<or> i < always_applicable_steps)) [0 ..< length measured]
      in map (\<lambda>i. if always_applicable_steps \<le> i \<and> \<not> applicable then Step_Not_Applicable
                  else if complete ! i then Step_Complete
                  else if current = Some i then Step_Current else Step_Locked) [0 ..< length measured])"

definition build_setup_steps :: "readiness_env \<Rightarrow> capabilities option \<Rightarrow> setup_step list res" where
  "build_setup_steps env caps =
     and_then (collect_readiness env caps) (\<lambda>items.
     let groups = setup_groups items;
         measured = map (\<lambda>(_, group, _, _). list_all (\<lambda>i. \<not> ri_blocking i) group) groups;
         states = step_states (re_mode env \<noteq> Plan_Only) measured
     in Inr (map (\<lambda>(n, (title, group, href, label), state).
         \<lparr>ss_number = n + 1, ss_title = title, ss_detail = py_join '' '' (map ri_detail group), ss_state = state,
          ss_href = href, ss_label = label, ss_readiness = group\<rparr>)
       (zip [0 ..< length groups] (zip groups states))))"

end
