(* ===== verification/Local_Settings.thy ===== *)
theory Local_Settings
  imports Readiness
begin

text \<open>
  The validators of \<^verbatim>\<open>settings.py\<close>, \<^verbatim>\<open>console/configuration.py\<close> and
  \<^verbatim>\<open>normalize_model_tag\<close> of \<^verbatim>\<open>llm/readiness.py\<close>: the settings a process starts with and
  the file the console edits.
\<close>

section \<open>Legacy run modes\<close>

text \<open>
  The validator runs before the fields are parsed: a value from the environment or the file
  is a text, one given by a caller is a truth value. \<open>truthy\<close> is \<^verbatim>\<open>bool(data.get(key, True))\<close>.
\<close>

datatype raw_flag = Not_Given | Given_None | Given_Flag bool | Given_Text string

fun flag_given :: "raw_flag \<Rightarrow> bool" where
  "flag_given (Given_Flag _) = True"
| "flag_given (Given_Text _) = True"
| "flag_given _ = False"

fun truthy :: "raw_flag \<Rightarrow> bool" where
  "truthy Not_Given = True"
| "truthy Given_None = False"
| "truthy (Given_Flag b) = b"
| "truthy (Given_Text s) = (s \<noteq> [])"

definition migrate_legacy_run_mode :: "run_mode option \<Rightarrow> raw_flag \<Rightarrow> raw_flag \<Rightarrow> run_mode option res" where
  "migrate_legacy_run_mode mode plan_only dry_run =
     (let has_legacy = flag_given plan_only \<or> flag_given dry_run
      in if mode \<noteq> None \<and> has_legacy then Inl ValueError
         else if has_legacy then
           Inr (Some (if truthy plan_only then Plan_Only else if truthy dry_run then Dry_Run_Mode else Live_Mode))
         else Inr mode)"

section \<open>Settings\<close>

text \<open>
  What the file system says of a configured directory: absolute once the home directory is
  expanded, a link, what it resolves to, whether that exists, is a directory, and its mode.
\<close>

record directory_probe =
  dp_absolute :: bool
  dp_link :: bool
  dp_resolved :: path
  dp_exists :: bool
  dp_directory :: bool
  dp_mode :: nat

text \<open>The host and scheme of a URL the library has parsed.\<close>

record service_url =
  su_scheme :: string
  su_host :: "string option"

record app_settings =
  st_mode :: run_mode
  st_plan_only :: bool
  st_dry_run :: bool
  st_headless :: bool
  st_directories :: "directory_probe list"
  st_prefix :: string
  st_model :: string
  st_browser_model :: string
  st_ollama :: service_url
  st_google :: "service_url list"
  st_admin :: string
  st_domain :: string

definition ollama_hosts :: "string set" where
  "ollama_hosts = {''localhost'', ''127.0.0.1'', ''::1'', ''host.docker.internal'', ''ollama''}"

definition max_prefix_characters :: nat where "max_prefix_characters = 100"
definition max_model_tag_characters :: nat where "max_model_tag_characters = 200"

text \<open>\<^verbatim>\<open>_absolute\<close>; \<open>posix\<close> is \<^verbatim>\<open>os.name == "posix"\<close>, and the mask 077 is the six low bits.\<close>

definition absolute_directory :: "bool \<Rightarrow> directory_probe \<Rightarrow> path res" where
  "absolute_directory posix d =
     (if \<not> dp_absolute d then Inl ValueError
      else if dp_link d then Inl ValueError
      else if dp_exists d \<and> \<not> dp_directory d then Inl ValueError
      else if posix \<and> dp_exists d \<and> dp_mode d mod 64 \<noteq> 0 then Inl ValueError
      else Inr (dp_resolved d))"

text \<open>\<^verbatim>\<open>first in second.parents\<close>: the parts of the one begin the other.\<close>

definition paths_overlap :: "path \<Rightarrow> path \<Rightarrow> bool" where
  "paths_overlap p q \<longleftrightarrow> p = q \<or> take (length p) q = p \<or> take (length q) p = q"

fun any_overlap :: "path list \<Rightarrow> bool" where
  "any_overlap [] = False"
| "any_overlap (p # ps) = (list_ex (paths_overlap p) ps \<or> any_overlap ps)"

definition validated_sensitive_paths :: "bool \<Rightarrow> directory_probe list \<Rightarrow> path list res" where
  "validated_sensitive_paths posix ds =
     and_then (map_res (absolute_directory posix) ds) (\<lambda>ps. if any_overlap ps then Inl ValueError else Inr ps)"

definition visible_setting :: "string \<Rightarrow> nat \<Rightarrow> string res" where
  "visible_setting value maximum =
     (let normalized = py_strip value
      in if normalized = [] \<or> length normalized > maximum \<or> list_ex is_control_or_format normalized
         then Inl ValueError else Inr normalized)"

definition require_google_admin_url :: "service_url \<Rightarrow> unit res" where
  "require_google_admin_url u =
     (if su_scheme u \<noteq> ''https'' \<or> su_host u \<noteq> Some ''admin.google.com'' then Inl ValueError else Inr ())"

definition validate_service_urls :: "app_settings \<Rightarrow> unit res" where
  "validate_service_urls s =
     (if (case su_host (st_ollama s) of None \<Rightarrow> True | Some h \<Rightarrow> h \<notin> ollama_hosts) then Inl ValueError
      else and_then (map_res require_google_admin_url (st_google s)) (\<lambda>_. Inr ()))"

definition normalized_identities :: "(string \<Rightarrow> string option) \<Rightarrow> string \<Rightarrow> string \<Rightarrow> (string \<times> string) res" where
  "normalized_identities idna email domain =
     and_then (if py_strip email = [] then Inr [] else normalize_email idna (py_strip email)) (\<lambda>e.
     and_then (if py_strip domain = [] then Inr [] else normalize_domain idna False (py_strip domain)) (\<lambda>d.
     Inr (e, d)))"

text \<open>The paths are put in the place of the configured ones, which keep their probes.\<close>

definition enforce_live_safety :: "(string \<Rightarrow> string option) \<Rightarrow> bool \<Rightarrow> app_settings \<Rightarrow> app_settings res" where
  "enforce_live_safety idna posix s =
     and_then (validated_sensitive_paths posix (st_directories s)) (\<lambda>_.
     and_then (visible_setting (st_prefix s) max_prefix_characters) (\<lambda>prefix.
     and_then (visible_setting (st_model s) max_model_tag_characters) (\<lambda>model.
     and_then (visible_setting (st_browser_model s) max_model_tag_characters) (\<lambda>browser_model.
     and_then (validate_service_urls s) (\<lambda>_.
     and_then (normalized_identities idna (st_admin s) (st_domain s)) (\<lambda>(admin, domain).
     if st_mode s = Live_Mode \<and> (st_headless s \<or> py_strip admin = [] \<or> py_strip domain = []) then Inl ValueError
     else Inr (s\<lparr>st_plan_only := (st_mode s = Plan_Only), st_dry_run := (st_mode s \<noteq> Live_Mode), st_prefix := prefix,
       st_model := model, st_browser_model := browser_model, st_admin := admin, st_domain := domain\<rparr>)))))))"

section \<open>The configuration file\<close>

text \<open>
  Reading a text file turns every line end into a newline; the content below is that of the
  file, before this. \<open>failure\<close> is what writing the temporary file or replacing raises.
\<close>

record config_file =
  cf_link :: bool
  cf_content :: "string option"

fun universal_newlines :: "string \<Rightarrow> string" where
  "universal_newlines [] = []"
| "universal_newlines [c] = (if c = CHR 0x0D then [CHR 0x0A] else [c])"
| "universal_newlines (c # d # cs) =
     (if c = CHR 0x0D \<and> d = CHR 0x0A then CHR 0x0A # universal_newlines cs
      else (if c = CHR 0x0D then CHR 0x0A else c) # universal_newlines (d # cs))"

definition editable_keys :: "string set" where
  "editable_keys = {''CA_EXPECTED_ADMIN_EMAIL'', ''CA_EXPECTED_WORKSPACE_DOMAIN'', ''CA_OLLAMA_MODEL'', ''CA_BROWSER_MODEL'', ''CA_RUN_MODE''}"

definition legacy_run_mode_keys :: "string set" where
  "legacy_run_mode_keys = {''CA_PLAN_ONLY'', ''CA_DRY_RUN''}"

text \<open>The pattern \<open>_ASSIGNMENT\<close> on a line: the key it assigns, commented out or not.\<close>

definition key_char :: "char \<Rightarrow> bool" where
  "key_char c \<longleftrightarrow> (let n = (of_char c :: nat) in 65 \<le> n \<and> n \<le> 90 \<or> 48 \<le> n \<and> n \<le> 57 \<or> n = 95)"

definition assignment_key :: "string \<Rightarrow> string option" where
  "assignment_key line =
     (let unspaced = dropWhile py_space line;
          body = dropWhile py_space (case unspaced of CHR ''#'' # cs \<Rightarrow> cs | cs \<Rightarrow> cs);
          tail = drop 3 body;
          name = takeWhile key_char tail
      in if py_startswith body ''CA_'' \<and> name \<noteq> [] \<and> py_startswith (dropWhile py_space (dropWhile key_char tail)) ''=''
         then Some (''CA_'' @ name) else None)"

type_synonym assignments = "(string \<times> string) list"

definition assign :: "string \<Rightarrow> string \<Rightarrow> string" where
  "assign key value = key @ ''='' @ value"

definition update_line ::
    "assignments \<Rightarrow> string set \<Rightarrow> string \<Rightarrow> string list \<times> string list \<Rightarrow> string list \<times> string list" where
  "update_line values remove line = (\<lambda>(output, written).
     case assignment_key line of
       None \<Rightarrow> (output @ [line], written)
     | Some key \<Rightarrow>
         if key \<in> remove then (output, written)
         else case dict_get values key of
             None \<Rightarrow> (output @ [line], written)
           | Some value \<Rightarrow>
               if key \<in> set written then (output, written) else (output @ [assign key value], written @ [key]))"

definition missing_keys :: "assignments \<Rightarrow> string list \<Rightarrow> assignments" where
  "missing_keys values written = filter (\<lambda>(key, _). key \<notin> set written) values"

definition updated_lines :: "assignments \<Rightarrow> string set \<Rightarrow> string list \<Rightarrow> string list" where
  "updated_lines values remove lines =
     (let (output, written) = fold (update_line values remove) lines ([], []);
          missing = missing_keys values written;
          spaced_output = (if missing \<noteq> [] \<and> output \<noteq> [] \<and> last output \<noteq> [] then output @ [[]] else output)
      in spaced_output @ map (\<lambda>(key, value). assign key value) missing)"

definition update_config :: "assignments \<Rightarrow> string set \<Rightarrow> exn option \<Rightarrow> (config_file, unit) act" where
  "update_config values remove failure f =
     (if \<not> fst ` set values \<subseteq> editable_keys then (Inl ValueError, f)
      else if \<not> remove \<subseteq> legacy_run_mode_keys then (Inl ValueError, f)
      else if cf_link f then (Inl ValueError, f)
      else
        let existing = (case cf_content f of None \<Rightarrow> [] | Some c \<Rightarrow> universal_newlines c);
            newline = (if py_contains existing [CHR 0x0D, CHR 0x0A] then [CHR 0x0D, CHR 0x0A] else [CHR 0x0A]);
            content = py_join newline (updated_lines values remove (split_lines existing)) @ newline
        in case failure of Some e \<Rightarrow> (Inl e, f) | None \<Rightarrow> (Inr (), f\<lparr>cf_content := Some content\<rparr>))"

definition save_google_identities ::
    "(string \<Rightarrow> string option) \<Rightarrow> string \<Rightarrow> string \<Rightarrow> exn option \<Rightarrow> (config_file, string \<times> string) act" where
  "save_google_identities idna email domain failure =
     bind (lift (normalize_email idna email)) (\<lambda>e.
     bind (lift (normalize_domain idna False domain)) (\<lambda>d.
     andthen (update_config [(''CA_EXPECTED_ADMIN_EMAIL'', e), (''CA_EXPECTED_WORKSPACE_DOMAIN'', d)] {} failure)
       (return (e, d))))"

definition save_run_mode :: "run_mode \<Rightarrow> exn option \<Rightarrow> (config_file, run_mode) act" where
  "save_run_mode mode failure =
     andthen (update_config [(''CA_RUN_MODE'', run_mode_value mode)] legacy_run_mode_keys failure) (return mode)"

definition model_tag_char :: "char \<Rightarrow> bool" where
  "model_tag_char c \<longleftrightarrow> ascii_letter c \<or> is_digit_char c \<or> c \<in> set ''._:/-''"

definition normalize_model_tag :: "string \<Rightarrow> string res" where
  "normalize_model_tag value =
     (case py_strip value of
        [] \<Rightarrow> Inl ValueError
      | c # cs \<Rightarrow> if (ascii_letter c \<or> is_digit_char c) \<and> list_all model_tag_char cs \<and> length cs \<le> 127
          then Inr (c # cs) else Inl ValueError)"

definition save_agent_models :: "string \<Rightarrow> string \<Rightarrow> exn option \<Rightarrow> (config_file, string \<times> string) act" where
  "save_agent_models orchestration browser failure =
     bind (lift (normalize_model_tag orchestration)) (\<lambda>o1.
     bind (lift (normalize_model_tag browser)) (\<lambda>b1.
     andthen (update_config [(''CA_OLLAMA_MODEL'', o1), (''CA_BROWSER_MODEL'', b1)] {} failure) (return (o1, b1))))"

end
