(* ===== verification/Console_Properties.thy ===== *)
theory Console_Properties
  imports Console_Runs
begin

text \<open>
  The invariant of the coordinator under any interleaving of its calls: one browser-backed run,
  live calls only on approvals that were issued, and flights that belong to the phase of their run.
\<close>

section \<open>Requests\<close>

datatype console_request =
    Start_Run string run_mode
  | From_Plan string run_mode task_plan
  | Begin_Plan string
  | Finish_Plan string "task_plan res"
  | Promote string run_mode
  | Begin_Preview string
  | Finish_Preview string run_mode "dry_run_result res"
  | Ask_Pending string
  | Cancel_Run string
  | Begin_Approve string string bool string
  | Finish_Approve string "(run_result \<times> string option) res"
  | Configure bool bool

text \<open>An answer arrives for a call that waits for it.\<close>

definition arrives :: "flight \<Rightarrow> (coordinator, 'a) act \<Rightarrow> coordinator \<Rightarrow> coordinator" where
  "arrives f m w = (if f \<in> set (kc_flights w) then snd (m w) else w)"

fun console_step :: "console_env \<Rightarrow> console_request \<Rightarrow> coordinator \<Rightarrow> coordinator" where
  "console_step env (Start_Run t m) w = snd (console_start env t m w)"
| "console_step env (From_Plan t m p) w = snd (create_from_plan env t m p w)"
| "console_step env (Begin_Plan k) w = snd (begin_plan k w)"
| "console_step env (Finish_Plan k a) w = arrives (Planner_Flight k) (finish_plan env k a) w"
| "console_step env (Promote k m) w = snd (promote_plan env k m w)"
| "console_step env (Begin_Preview k) w = snd (begin_preview env k w)"
| "console_step env (Finish_Preview k m a) w = arrives (Preview_Flight k m) (finish_preview env k m a) w"
| "console_step env (Ask_Pending k) w = snd (pending_approval_of env k w)"
| "console_step env (Cancel_Run k) w = snd (cancel_console_run env k w)"
| "console_step env (Begin_Approve k phrase ack i) w = snd (begin_approve env k phrase ack i w)"
| "console_step env (Finish_Approve k a) w = arrives (Live_Flight k) (finish_approve env k a) w"
| "console_step env (Configure dry live) w = snd (configure_execution dry live w)"

section \<open>The invariant\<close>

fun approval_events :: "console_event list \<Rightarrow> (dry_run_result, confirmation_response) approval_event list" where
  "approval_events [] = []"
| "approval_events (Approval_Event e # es) = e # approval_events es"
| "approval_events (_ # es) = approval_events es"

lemma approval_events_append [simp]: "approval_events (xs @ ys) = approval_events xs @ approval_events ys"
  by (induction xs rule: approval_events.induct) auto

lemma approval_events_mem: "e \<in> set (approval_events l) \<longleftrightarrow> Approval_Event e \<in> set l"
  by (induction l rule: approval_events.induct) auto

lemma approval_events_split:
  "approval_events l = xs @ e # ys \<Longrightarrow> \<exists>us vs. l = us @ Approval_Event e # vs \<and> approval_events us = xs \<and> approval_events vs = ys"
proof (induction l arbitrary: xs)
  case (Cons x l)
  show ?case
  proof (cases "\<exists>y. x = Approval_Event y \<and> xs = []")
    case True
    then show ?thesis using Cons.prems by (intro exI [of _ "[]"] exI [of _ l]) auto
  next
    case False
    then obtain zs where "approval_events l = zs @ e # ys" "approval_events [x] @ zs = xs"
      using Cons.prems by (cases x) (auto simp: Cons_eq_append_conv)
    from Cons.IH [OF this(1)] this(2) show ?thesis
      by (metis append_Cons approval_events_append append_Nil)
  qed
qed simp

fun preview_ids :: "flight list \<Rightarrow> string list" where
  "preview_ids [] = []"
| "preview_ids (Preview_Flight k m # fs) = k # preview_ids fs"
| "preview_ids (_ # fs) = preview_ids fs"

fun live_ids :: "flight list \<Rightarrow> string list" where
  "live_ids [] = []"
| "live_ids (Live_Flight k # fs) = k # live_ids fs"
| "live_ids (_ # fs) = live_ids fs"

lemma preview_ids_mem: "Preview_Flight k m \<in> set fs \<Longrightarrow> k \<in> set (preview_ids fs)"
  by (induction fs rule: preview_ids.induct) auto

lemma live_ids_mem: "k \<in> set (live_ids fs) \<longleftrightarrow> Live_Flight k \<in> set fs"
  by (induction fs rule: live_ids.induct) auto

lemma remove1_ids:
  "preview_ids (remove1 (Planner_Flight k) fs) = preview_ids fs" "live_ids (remove1 (Planner_Flight k) fs) = live_ids fs"
  "live_ids (remove1 (Preview_Flight k m) fs) = live_ids fs" "preview_ids (remove1 (Live_Flight k) fs) = preview_ids fs"
  "live_ids (remove1 (Live_Flight k) fs) = remove1 k (live_ids fs)"
proof -
  show "preview_ids (remove1 (Planner_Flight k) fs) = preview_ids fs" "preview_ids (remove1 (Live_Flight k) fs) = preview_ids fs"
    by (induction fs rule: preview_ids.induct; simp)+
  show "live_ids (remove1 (Planner_Flight k) fs) = live_ids fs" "live_ids (remove1 (Preview_Flight k m) fs) = live_ids fs"
    "live_ids (remove1 (Live_Flight k) fs) = remove1 k (live_ids fs)"
    by (induction fs rule: live_ids.induct; simp)+
qed

lemma remove1_preview_ids:
  "distinct (preview_ids fs) \<Longrightarrow> Preview_Flight k m \<in> set fs \<Longrightarrow>
     preview_ids (remove1 (Preview_Flight k m) fs) = remove1 k (preview_ids fs)"
  by (induction fs rule: preview_ids.induct) (auto dest: preview_ids_mem)

text \<open>A live call follows the approval it was granted on.\<close>

definition live_calls_follow :: "console_event list \<Rightarrow> bool" where
  "live_calls_follow l \<longleftrightarrow> (\<forall>us k c vs. l = us @ Live_Call k c # vs \<longrightarrow>
     (\<exists>before phrase now. us = before @ [Approval_Event (Spent k phrase c now)]))"

lemma live_calls_follow_snoc:
  "live_calls_follow (l @ [e]) \<longleftrightarrow> live_calls_follow l \<and>
     (\<forall>k c. e = Live_Call k c \<longrightarrow> (\<exists>before phrase now. l = before @ [Approval_Event (Spent k phrase c now)]))"
proof -
  have "l @ [e] = us @ x # vs \<longleftrightarrow> (vs = [] \<and> us = l \<and> x = e) \<or> (\<exists>ws. vs = ws @ [e] \<and> l = us @ x # ws)"
    for us x vs by (cases vs rule: rev_cases) auto
  then show ?thesis unfolding live_calls_follow_def by auto
qed

definition one_active :: "(string, console_run) dict \<Rightarrow> bool" where
  "one_active runs \<longleftrightarrow> (\<forall>k j r s. dict_get runs k = Some r \<and> dict_get runs j = Some s \<and>
     browser_active (kr_phase r) \<and> browser_active (kr_phase s) \<longrightarrow> k = j)"

definition flights_ok :: "(string, console_run) dict \<Rightarrow> flight list \<Rightarrow> bool" where
  "flights_ok runs fs \<longleftrightarrow> distinct (preview_ids fs) \<and> length (live_ids fs) \<le> 1 \<and>
     (\<forall>k m. Preview_Flight k m \<in> set fs \<longrightarrow> (\<exists>r. dict_get runs k = Some r \<and>
        (kr_phase r = In_Preflight \<and> kr_mode r = m \<or> kr_phase r = Cancelled))) \<and>
     (\<forall>k. Live_Flight k \<in> set fs \<longrightarrow> (\<exists>r. dict_get runs k = Some r \<and> kr_phase r = Executing))"

definition live_modes :: "(string, console_run) dict \<Rightarrow> bool" where
  "live_modes runs \<longleftrightarrow> (\<forall>k r. dict_get runs k = Some r \<and> (kr_phase r = Awaiting_Approval \<or> kr_phase r = Executing) \<longrightarrow>
     kr_mode r = Live_Mode)"

definition approvals_ok :: "int \<Rightarrow> (string, pending_approval) dict \<Rightarrow> console_event list \<Rightarrow> bool" where
  "approvals_ok ttl ap l \<longleftrightarrow> run_approval.pending_as_logged ttl (approval_events l) ap \<and>
     run_approval.authorised ttl (approval_events l) \<and> live_calls_follow l"

definition runs_ok :: "(string, console_run) dict \<Rightarrow> flight list \<Rightarrow> bool" where
  "runs_ok runs fs \<longleftrightarrow> keyed kr_id runs \<and> one_active runs \<and> flights_ok runs fs \<and> live_modes runs"

definition console_inv :: "console_env \<Rightarrow> coordinator \<Rightarrow> bool" where
  "console_inv env w \<longleftrightarrow> runs_ok (kc_runs w) (kc_flights w) \<and> approvals_ok (ke_ttl env) (kc_approvals w) (kc_log w)"

section \<open>What keeps it\<close>

lemma runs_ok_passive:
  assumes "runs_ok runs fs" and "kr_id r = k" and "\<not> browser_active (kr_phase r)"
    and "k \<notin> set (preview_ids fs) \<or> kr_phase r = Cancelled" and "k \<notin> set (live_ids fs)"
  shows "runs_ok (dict_put k r runs) fs"
  using assms
  by (auto simp: runs_ok_def one_active_def flights_ok_def live_modes_def update_conv' live_ids_mem browser_active_def
      intro: keyed_put dest: preview_ids_mem split: if_splits)

lemma runs_ok_preflight:
  assumes "runs_ok runs fs" and "dict_get runs k = Some r" and "kr_phase r = Plan_Ready" and "kr_id s = k"
    and "kr_phase s = In_Preflight" and "kr_mode s = kr_mode r"
    and "\<not> list_ex (\<lambda>r. kr_id r \<noteq> k \<and> browser_active (kr_phase r)) (dict_values runs)"
  shows "runs_ok (dict_put k s runs) (Preview_Flight k (kr_mode r) # fs)"
proof -
  have others: "\<not> browser_active (kr_phase x)" if "dict_get runs j = Some x" "j \<noteq> k" for j x
  proof -
    have "kr_id x = j" using that(1) assms(1) by (auto simp: runs_ok_def dest: keyed_get)
    moreover have "x \<in> set (dict_values runs)" using map_of_SomeD [OF that(1)] by force
    ultimately show ?thesis using assms(7) that(2) by (auto simp: list_ex_iff)
  qed
  have "k \<notin> set (preview_ids fs)"
  proof
    assume "k \<in> set (preview_ids fs)"
    then obtain m where "Preview_Flight k m \<in> set fs"
      by (induction fs rule: preview_ids.induct) auto
    then show False using assms(1-3) unfolding runs_ok_def flights_ok_def by fastforce
  qed
  moreover have "Live_Flight k \<notin> set fs" using assms(1-3) unfolding runs_ok_def flights_ok_def by fastforce
  ultimately show ?thesis using assms others
    by (auto simp: runs_ok_def one_active_def flights_ok_def live_modes_def update_conv' live_ids_mem intro: keyed_put
        dest: preview_ids_mem split: if_splits)
qed


lemma flights_of_other_phase:
  assumes "runs_ok runs fs" and "dict_get runs k = Some r"
  shows "kr_phase r \<noteq> In_Preflight \<Longrightarrow> kr_phase r \<noteq> Cancelled \<Longrightarrow> k \<notin> set (preview_ids fs)"
    and "kr_phase r \<noteq> Executing \<Longrightarrow> k \<notin> set (live_ids fs)"
proof -
  assume "kr_phase r \<noteq> In_Preflight" "kr_phase r \<noteq> Cancelled"
  moreover have "\<exists>m. Preview_Flight k m \<in> set fs" if "k \<in> set (preview_ids fs)"
    using that by (induction fs rule: preview_ids.induct) auto
  ultimately show "k \<notin> set (preview_ids fs)" using assms unfolding runs_ok_def flights_ok_def by fastforce
next
  assume "kr_phase r \<noteq> Executing"
  then show "k \<notin> set (live_ids fs)"
    using assms unfolding runs_ok_def flights_ok_def live_ids_mem by fastforce
qed

text \<open>A run that stays active keeps the browser to itself.\<close>

lemma runs_ok_active:
  assumes "runs_ok runs fs" and "dict_get runs k = Some r" and "browser_active (kr_phase r)" and "kr_id s = k"
    and "kr_phase s = Awaiting_Approval \<or> kr_phase s = Executing" and "kr_mode s = Live_Mode"
    and "k \<notin> set (preview_ids fs)" and "k \<notin> set (live_ids fs)"
  shows "runs_ok (dict_put k s runs) fs"
proof -
  have "\<not> browser_active (kr_phase x)" if "dict_get runs j = Some x" "j \<noteq> k" for j x
    using assms(1-3) that unfolding runs_ok_def one_active_def by blast
  then show ?thesis using assms
    by (auto simp: runs_ok_def one_active_def flights_ok_def live_modes_def update_conv' live_ids_mem intro: keyed_put
        dest: preview_ids_mem split: if_splits)
qed

lemma runs_ok_execute:
  assumes "runs_ok runs fs" and "dict_get runs k = Some r" and "kr_phase r = Awaiting_Approval" and "kr_id s = k"
    and "kr_phase s = Executing" and "kr_mode s = kr_mode r"
  shows "runs_ok (dict_put k s runs) (Live_Flight k # fs)"
proof -
  have mode: "kr_mode s = Live_Mode" using assms(1-3,6) by (auto simp: runs_ok_def live_modes_def)
  note free = flights_of_other_phase [OF assms(1,2)]
  have none: "live_ids fs = []"
  proof (rule ccontr)
    assume "live_ids fs \<noteq> []"
    then obtain j where "j \<in> set (live_ids fs)" by (cases "live_ids fs") auto
    then obtain x where "dict_get runs j = Some x" "kr_phase x = Executing"
      using assms(1) unfolding runs_ok_def flights_ok_def live_ids_mem by blast
    moreover from this assms(1-3) have "j = k" unfolding runs_ok_def one_active_def browser_active_def by blast
    ultimately show False using assms(2,3) by simp
  qed
  have "runs_ok (dict_put k s runs) fs"
    by (rule runs_ok_active [OF assms(1,2)]) (use assms(3-5) mode free none in \<open>auto simp: browser_active_def\<close>)
  then show ?thesis using none assms(5) by (auto simp: runs_ok_def flights_ok_def live_ids_mem update_conv')
qed

lemma runs_ok_land:
  assumes "runs_ok runs fs"
  shows "runs_ok runs (remove1 f fs)"
proof -
  have set: "set (remove1 f fs) \<subseteq> set fs" by (rule set_remove1_subset)
  have "distinct (preview_ids (remove1 f fs)) \<and> length (live_ids (remove1 f fs)) \<le> 1"
  proof (cases "f \<in> set fs")
    case True
    have d: "distinct (preview_ids fs)" "length (live_ids fs) \<le> 1" using assms by (auto simp: runs_ok_def flights_ok_def)
    then show ?thesis using True remove1_preview_ids [OF d(1)]
      by (cases f) (auto simp: remove1_ids length_remove1)
  qed (use assms in \<open>auto simp: remove1_idem runs_ok_def flights_ok_def\<close>)
  then show ?thesis using assms set unfolding runs_ok_def flights_ok_def by blast
qed

lemma landed:
  assumes "runs_ok runs fs"
  shows "Preview_Flight k m \<in> set fs \<Longrightarrow> k \<notin> set (preview_ids (remove1 (Preview_Flight k m) fs))"
    and "Live_Flight k \<in> set fs \<Longrightarrow> k \<notin> set (live_ids (remove1 (Live_Flight k) fs))"
proof -
  assume "Preview_Flight k m \<in> set fs"
  then show "k \<notin> set (preview_ids (remove1 (Preview_Flight k m) fs))"
    using assms by (simp add: runs_ok_def flights_ok_def remove1_preview_ids)
next
  assume "Live_Flight k \<in> set fs"
  then have "live_ids fs = [k]" using assms
    by (cases "live_ids fs") (auto simp: runs_ok_def flights_ok_def simp flip: live_ids_mem)
  then show "k \<notin> set (live_ids (remove1 (Live_Flight k) fs))" by (simp add: remove1_ids)
qed

lemma approvals_ok_simps:
  "approvals_ok ttl ap (l @ [Preview_Call k p]) = approvals_ok ttl ap l"
  "approvals_ok ttl ap l \<Longrightarrow> approvals_ok ttl (dict_del k ap) l"
  "approvals_ok ttl ap (l @ [Approval_Event (Spent k phrase c now)]) \<Longrightarrow>
     approvals_ok ttl ap (l @ [Approval_Event (Spent k phrase c now), Live_Call k c])"
  using live_calls_follow_snoc [of "l @ [Approval_Event (Spent k phrase c now)]" "Live_Call k c"]
  by (auto simp: approvals_ok_def live_calls_follow_snoc run_approval.pending_dropped)

lemma approvals_ok_issue:
  "approvals_ok ttl ap l \<Longrightarrow> issue_approval ttl k x now ap = (r, d) \<Longrightarrow>
     case r of Inl _ \<Rightarrow> approvals_ok ttl d l | Inr _ \<Rightarrow> approvals_ok ttl d (l @ [Approval_Event (Issued k x now)])"
  using issue_approval_cases [of ttl k x now ap r d]
  by (auto simp: approvals_ok_def live_calls_follow_snoc run_approval.authorised_snoc run_approval.pending_issued
      split: sum.splits)

lemma approvals_ok_approve:
  assumes "approvals_ok ttl ap l" and "approve_run k phrase ack i now ap = (r, d)"
  shows "case r of Inl _ \<Rightarrow> approvals_ok ttl d l | Inr c \<Rightarrow> approvals_ok ttl d (l @ [Approval_Event (Spent k phrase c now)])"
proof (cases r)
  case (Inl e)
  then show ?thesis using approve_run_cases [OF assms(2)] assms(1) approvals_ok_simps(2) by auto
next
  case (Inr c)
  then obtain a where a: "dict_get ap k = Some a" "spent_as a phrase c now" "d = dict_del k ap"
    using approve_run_cases [OF assms(2)] by auto
  then have "run_approval.licence ttl (approval_events l) k phrase c now"
    using assms(1) by (auto simp: run_approval.licence_def approvals_ok_def run_approval.pending_as_logged_def)
  then show ?thesis using assms(1) a Inr
    by (simp add: approvals_ok_def live_calls_follow_snoc run_approval.authorised_snoc run_approval.pending_granted)
qed


section \<open>The operations\<close>

lemma wp_store_run:
  "(\<And>j n. Q (Inr ()) (w\<lparr>kc_runs := dict_put (kr_id r) r (kc_runs w), kc_journal := j, kc_saves := n\<rparr>)) \<Longrightarrow>
     wp (store_run env r) Q w"
proof -
  assume a: "\<And>j n. Q (Inr ()) (w\<lparr>kc_runs := dict_put (kr_id r) r (kc_runs w), kc_journal := j, kc_saves := n\<rparr>)"
  have "Q (Inr ()) (w\<lparr>kc_runs := dict_put (kr_id r) r (kc_runs w)\<rparr>)"
    using a [of "kc_saves w" "kc_journal w"] by (cases w) simp
  with a show ?thesis
    by (simp add: store_run_def save_runs_def wp_simps split: option.split)
qed

lemma wp_console_now: "wp (console_now env) Q w \<longleftrightarrow> Q (Inr (ke_clock env (kc_ticks w))) (w\<lparr>kc_ticks := Suc (kc_ticks w)\<rparr>)"
  by (simp add: wp_def console_now_def)

lemma wp_require_run:
  "wp (require_run k) Q w \<longleftrightarrow> (case dict_get (kc_runs w) k of None \<Rightarrow> Q (Inl ValueError) w | Some r \<Rightarrow> Q (Inr r) w)"
  by (simp add: require_run_def wp_simps split: option.split)

lemma wp_on_approvals:
  "wp (on_approvals m) Q w \<longleftrightarrow> (\<forall>r d. m (kc_approvals w) = (r, d) \<longrightarrow> Q r (w\<lparr>kc_approvals := d\<rparr>))"
  by (cases "m (kc_approvals w)") (simp add: wp_def on_approvals_def)

lemma wp_advance:
  assumes "\<And>e n. Q (Inl e) (w\<lparr>kc_ticks := n\<rparr>)"
    and "\<And>now t n j m. dict_get (kc_runs w) (kr_id r) = Some r \<Longrightarrow> p \<in> allowed_transitions (kr_phase r) \<Longrightarrow>
      Q (Inr (f (r\<lparr>kr_phase := p, kr_updated := now, kr_history := kr_history r @ [t]\<rparr>)))
        (w\<lparr>kc_ticks := n,
          kc_runs := dict_put (kr_id (f (r\<lparr>kr_phase := p, kr_updated := now, kr_history := kr_history r @ [t]\<rparr>)))
            (f (r\<lparr>kr_phase := p, kr_updated := now, kr_history := kr_history r @ [t]\<rparr>)) (kc_runs w),
          kc_journal := j, kc_saves := m\<rparr>)"
  shows "wp (advance env r p error f) Q w"
proof -
  have same: "Q (Inl e) w" for e using assms(1) [of e "kc_ticks w"] by simp
  show ?thesis using assms same unfolding advance_def
    by (auto simp: wp_simps wp_require_run wp_console_now make_transition_def Let_def intro!: wp_store_run split: option.split)
qed

lemmas console_wp = wp_simps wp_require_run wp_console_now wp_on_approvals

lemma inv_ticks [simp]:
  "console_inv env (w\<lparr>kc_ticks := n\<rparr>) = console_inv env w" "console_inv env (w\<lparr>kc_journal := j\<rparr>) = console_inv env w"
  "console_inv env (w\<lparr>kc_saves := m\<rparr>) = console_inv env w" "console_inv env (w\<lparr>kc_ids := m\<rparr>) = console_inv env w"
  by (simp_all add: console_inv_def)

text \<open>A run that becomes passive, with no call in flight for it.\<close>

lemma inv_advance_passive:
  assumes "console_inv env w" and "dict_get (kc_runs w) k = Some r" and "\<not> browser_active p"
    and "kr_id r = k" and "\<And>x. kr_id (f x) = kr_id x \<and> kr_phase (f x) = kr_phase x"
    and "k \<notin> set (preview_ids (kc_flights w)) \<or> p = Cancelled" and "k \<notin> set (live_ids (kc_flights w))"
  shows "wp (advance env r p error f) (\<lambda>_. console_inv env) w"
  by (rule wp_advance) (use assms in \<open>auto simp: console_inv_def intro!: runs_ok_passive\<close>)

lemma kr_id_of: "console_inv env w \<Longrightarrow> dict_get (kc_runs w) k = Some r \<Longrightarrow> kr_id r = k"
  by (auto simp: console_inv_def runs_ok_def dest: keyed_get)

lemma inv_start:
  assumes "console_inv env w" and "dict_get (kc_runs w) (uuid_hex (ke_supply env (kc_ids w))) = None" and "\<not> browser_active p"
  shows "wp (start_run env t m p plan) (\<lambda>_. console_inv env) w"
proof -
  let ?k = "uuid_hex (ke_supply env (kc_ids w))"
  have "?k \<notin> set (preview_ids (kc_flights w))" "?k \<notin> set (live_ids (kc_flights w))"
  proof -
    have "\<exists>m. Preview_Flight j m \<in> set fs" if "j \<in> set (preview_ids fs)" for j fs
      using that by (induction fs rule: preview_ids.induct) auto
    then show "?k \<notin> set (preview_ids (kc_flights w))" "?k \<notin> set (live_ids (kc_flights w))"
      using assms(1,2) unfolding console_inv_def runs_ok_def flights_ok_def live_ids_mem by fastforce+
  qed
  then show ?thesis using assms
    by (auto simp: start_run_def console_wp console_id_def wp_def [of "console_id env"] make_transition_def make_console_run_def
        console_inv_def intro!: wp_store_run runs_ok_passive)
qed


lemma wp_then_return:
  "wp m (\<lambda>_. P) w \<Longrightarrow> wp (andthen m (return x)) (\<lambda>_. P) w"
  "wp m (\<lambda>_. P) w \<Longrightarrow> wp (bind m (\<lambda>y. return y)) (\<lambda>_. P) w"
  by (auto simp: wp_def andthen_def bind_def split: sum.splits prod.splits)

lemma inv_landed: "console_inv env w \<Longrightarrow> console_inv env (w\<lparr>kc_flights := remove1 f (kc_flights w)\<rparr>)"
  by (simp add: console_inv_def runs_ok_land)

lemma inv_planning:
  assumes "console_inv env w"
  shows "wp (begin_plan k) (\<lambda>_. console_inv env) w" "wp (finish_plan env k answer) (\<lambda>_. console_inv env) w"
    "wp (promote_plan env k mode) (\<lambda>_. console_inv env) w"
proof -
  have "runs_ok runs fs \<Longrightarrow> runs_ok runs (Planner_Flight k # fs)" for runs fs
    by (auto simp: runs_ok_def flights_ok_def)
  then show "wp (begin_plan k) (\<lambda>_. console_inv env) w"
    using assms by (auto simp: begin_plan_def take_off_def console_wp console_inv_def split: option.split)
next
  let ?w = "w\<lparr>kc_flights := remove1 (Planner_Flight k) (kc_flights w)\<rparr>"
  note inv = inv_landed [OF assms, of "Planner_Flight k"]
  have "wp (advance env r p error f) (\<lambda>_. console_inv env) ?w"
    if "dict_get (kc_runs w) k = Some r" "kr_phase r = Planning" "\<not> browser_active p"
      "\<And>x. kr_id (f x) = kr_id x \<and> kr_phase (f x) = kr_phase x" for r p error f
    using flights_of_other_phase [of "kc_runs w" "kc_flights ?w" k r] inv that
    by (intro inv_advance_passive [OF inv]) (auto simp: console_inv_def dest: kr_id_of [OF assms])
  then show "wp (finish_plan env k answer) (\<lambda>_. console_inv env) w"
    using inv by (auto simp: finish_plan_def land_def console_wp advance_with_def browser_active_def split: option.split sum.split)
next
  have "runs_ok (dict_put k (r\<lparr>kr_mode := m, kr_updated := t\<rparr>) (kc_runs w)) (kc_flights w)"
    if "dict_get (kc_runs w) k = Some r" "kr_phase r = Plan_Ready" for r m t
    using flights_of_other_phase [of "kc_runs w" "kc_flights w" k r] assms that
    by (intro runs_ok_passive) (auto simp: console_inv_def browser_active_def dest: kr_id_of [OF assms])
  then show "wp (promote_plan env k mode) (\<lambda>_. console_inv env) w"
    using assms kr_id_of [OF assms]
    by (auto simp: promote_plan_def console_wp Let_def console_inv_def intro!: wp_store_run split: option.split)
qed

lemma inv_begin_preview:
  assumes "console_inv env w"
  shows "wp (begin_preview env k) (\<lambda>_. console_inv env) w"
proof (cases "dict_get (kc_runs w) k")
  case None
  then show ?thesis using assms by (simp add: begin_preview_def console_wp)
next
  case (Some r)
  note id = kr_id_of [OF assms Some]
  show ?thesis
  proof (cases "kr_phase r = Plan_Ready \<and> \<not> list_ex (\<lambda>r. kr_id r \<noteq> k \<and> browser_active (kr_phase r)) (dict_values (kc_runs w))")
    case True
    have blocked: "wp (advance_with env r Blocked e) (\<lambda>_. console_inv env) w" for e
      using flights_of_other_phase [of "kc_runs w" "kc_flights w" k r] assms Some True id unfolding advance_with_def
      by (intro inv_advance_passive [OF assms Some]) (auto simp: console_inv_def browser_active_def)
    have go: "wp (andthen (advance env r In_Preflight None (\<lambda>r. r\<lparr>kr_preview := None, kr_result := None, kr_error := None\<rparr>))
        (andthen (note_console (Preview_Call k plan)) (take_off (Preview_Flight k (kr_mode r))))) (\<lambda>_. console_inv env) w" for plan
      unfolding wp_andthen [of "advance env r In_Preflight e f" for e f]
      by (rule wp_advance)
        (use assms Some True id in \<open>auto simp: note_console_def take_off_def console_wp console_inv_def approvals_ok_simps(1)
          intro!: runs_ok_preflight [where r = r]\<close>)
    have stop: "wp (andthen (advance_with env r Blocked e) (return ())) (\<lambda>_. console_inv env) w" for e
      by (rule wp_then_return(1) [OF blocked])
    show ?thesis using assms Some True go stop
      by (auto simp: begin_preview_def require_browser_slot_def console_wp split: option.split)
  next
    case False
    then show ?thesis using assms Some
      by (auto simp: begin_preview_def require_browser_slot_def console_wp split: option.split)
  qed
qed


lemma inv_finish_preview:
  assumes "console_inv env w" and "Preview_Flight k m \<in> set (kc_flights w)"
  shows "wp (finish_preview env k m answer) (\<lambda>_. console_inv env) w"
proof -
  let ?w = "w\<lparr>kc_flights := remove1 (Preview_Flight k m) (kc_flights w)\<rparr>"
  note inv = inv_landed [OF assms(1), of "Preview_Flight k m"]
  obtain r where r: "dict_get (kc_runs w) k = Some r" "kr_phase r = In_Preflight \<and> kr_mode r = m \<or> kr_phase r = Cancelled"
    using assms unfolding console_inv_def runs_ok_def flights_ok_def by blast
  note id = kr_id_of [OF assms(1) r(1)]
  show ?thesis
  proof (cases "kr_phase r = In_Preflight")
    case True
    have free: "k \<notin> set (preview_ids (kc_flights ?w))" "k \<notin> set (live_ids (kc_flights ?w))"
      using landed(1) [OF _ assms(2)] flights_of_other_phase(2) [of "kc_runs w" "kc_flights ?w" k r] inv assms(1) r(1) True
      by (auto simp: console_inv_def)
    have rests: "wp (advance env r p error f) (\<lambda>_. console_inv env) ?w"
      if "\<not> browser_active p" "\<And>x. kr_id (f x) = kr_id x \<and> kr_phase (f x) = kr_phase x" for p error f
      using that free r(1) by (intro inv_advance_passive [OF inv]) (auto simp: id)
    have waits: "wp (bind (advance env r Awaiting_Approval e (\<lambda>r. r\<lparr>kr_preview := Some x, kr_error := e\<rparr>)) (\<lambda>completed.
        bind (console_now env) (\<lambda>now.
          andthen (on_approvals (issue_approval (ke_ttl env) k x now))
          (andthen (note_console (Approval_Event (Issued k x now))) (return completed))))) (\<lambda>_. console_inv env) ?w"
      if "m = Live_Mode" for e x
    proof -
      have "runs_ok (dict_put k s (kc_runs w)) (kc_flights ?w)"
        if "kr_id s = k" "kr_phase s = Awaiting_Approval" "kr_mode s = kr_mode r" for s
        by (rule runs_ok_active [of _ _ k r])
          (use inv r True free that \<open>m = Live_Mode\<close> in \<open>auto simp: console_inv_def browser_active_def\<close>)
      then show ?thesis using inv id unfolding wp_bind [of "advance env r p e f" for p e f]
        by (intro wp_advance)
          (auto simp: console_wp note_console_def console_inv_def dest: approvals_ok_issue split: sum.split)
    qed
    have stops: "wp (bind (advance env r p e f) (\<lambda>completed. return completed)) (\<lambda>_. console_inv env) ?w"
      if "\<not> browser_active p" "\<And>x. kr_id (f x) = kr_id x \<and> kr_phase (f x) = kr_phase x" for p e f
      by (rule wp_then_return(2) [OF rests [OF that]])
    show ?thesis
    proof (cases answer)
      case (Inl e)
      then show ?thesis using True r(1) rests [of Blocked]
        by (auto simp: finish_preview_def land_def console_wp advance_with_def browser_active_def)
    next
      case (Inr x)
      show ?thesis
      proof (cases "preview_phase x m = Awaiting_Approval")
        case await: True
        then have "m = Live_Mode" by (auto simp: preview_phase_def split: if_splits)
        from waits [OF this, of "dy_reason x" x] show ?thesis using True r(1) Inr await
          by (simp add: finish_preview_def land_def wp_andthen [of "update f" for f] wp_update wp_bind [of "require_run k"] wp_require_run)
      next
        case False
        then have "\<not> browser_active (preview_phase x m)" by (auto simp: preview_phase_def browser_active_def split: if_splits)
        from stops [OF this, of "\<lambda>r. r\<lparr>kr_preview := Some x, kr_error := dy_reason x\<rparr>" "dy_reason x"] show ?thesis
          using True r(1) Inr False
          by (simp add: finish_preview_def land_def wp_andthen [of "update f" for f] wp_update wp_bind [of "require_run k"] wp_require_run)
      qed
    qed
  next
    case False
    then show ?thesis using r inv by (simp add: finish_preview_def land_def console_wp)
  qed
qed

lemma inv_approvals: "console_inv env w \<Longrightarrow> console_inv env (w\<lparr>kc_approvals := dict_del k (kc_approvals w)\<rparr>)"
  by (simp add: console_inv_def approvals_ok_simps(2))

lemma get_approval_dict: "get_approval k now d = (r, u) \<Longrightarrow> u = d \<or> u = dict_del k d"
  by (auto simp: get_approval_def bind_def andthen_def split: option.splits sum.splits if_splits)

lemma inv_pending:
  assumes "console_inv env w"
  shows "wp (pending_approval_of env k) (\<lambda>_. console_inv env) w" "wp (cancel_console_run env k) (\<lambda>_. console_inv env) w"
proof -
  have returns: "wp (andthen (andthen (advance env r Plan_Ready e f) (return ())) (return a)) (\<lambda>_. console_inv env) v"
    if "console_inv env v" "dict_get (kc_runs v) k = Some r" "kr_phase r = Awaiting_Approval"
      "\<And>x. kr_id (f x) = kr_id x \<and> kr_phase (f x) = kr_phase x" for v r e f and a :: "pending_approval option"
  proof -
    have "wp (advance env r Plan_Ready e f) (\<lambda>_. console_inv env) v"
      using flights_of_other_phase [of "kc_runs v" "kc_flights v" k r] that
      by (intro inv_advance_passive [OF that(1,2)]) (auto simp: console_inv_def browser_active_def dest: kr_id_of [OF that(1)])
    then show ?thesis by (intro wp_then_return)
  qed
  have stays: "wp (andthen (return ()) (return (Some a))) (\<lambda>_. console_inv env) v" if "console_inv env v"
    for v and a :: pending_approval using that by (simp add: wp_simps)
  show "wp (pending_approval_of env k) (\<lambda>_. console_inv env) w"
    using assms inv_approvals [of env "w\<lparr>kc_ticks := Suc (kc_ticks w)\<rparr>" k]
    by (auto simp: pending_approval_of_def wp_bind wp_require_run wp_console_now wp_on_approvals wp_return wp_raise
        split: option.split sum.split dest!: get_approval_dict intro!: returns stays)
next
  have "wp (advance env r Cancelled None id) (\<lambda>_. console_inv env) (w\<lparr>kc_approvals := dict_del k (kc_approvals w)\<rparr>)"
    if "dict_get (kc_runs w) k = Some r" "Cancelled \<in> allowed_transitions (kr_phase r)" for r
  proof -
    have "kr_phase r \<noteq> Executing" using that(2) by auto
    then have "k \<notin> set (live_ids (kc_flights w))"
      using flights_of_other_phase(2) [of "kc_runs w" "kc_flights w" k r] that(1) assms by (simp add: console_inv_def)
    then show ?thesis using that(1)
      by (intro inv_advance_passive [OF inv_approvals [OF assms]]) (auto simp: browser_active_def kr_id_of [OF assms])
  qed
  then show "wp (cancel_console_run env k) (\<lambda>_. console_inv env) w"
    using assms by (auto simp: cancel_console_run_def console_wp cancel_approval_def split: option.split)
qed


lemma inv_begin_approve:
  assumes "console_inv env w"
  shows "wp (begin_approve env k phrase ack i) (\<lambda>_. console_inv env) w"
proof (cases "dict_get (kc_runs w) k")
  case None
  then show ?thesis using assms by (simp add: begin_approve_def console_wp)
next
  case (Some r)
  note id = kr_id_of [OF assms Some]
  show ?thesis
  proof (cases "kr_phase r = Awaiting_Approval")
    case True
    define now where "now = ke_clock env (kc_ticks w)"
    obtain a d where a: "approve_run k phrase ack i now (kc_approvals w) = (a, d)" by fastforce
    have ok: "approvals_ok (ke_ttl env) (kc_approvals w) (kc_log w)" using assms by (simp add: console_inv_def)
    note granted = approvals_ok_approve [OF ok a]
    show ?thesis
    proof (cases a)
      case (Inl e)
      then show ?thesis using assms Some True a granted
        by (auto simp: begin_approve_def console_wp now_def console_inv_def)
    next
      case (Inr c)
      define v where "v = w\<lparr>kc_ticks := Suc (kc_ticks w), kc_approvals := d,
        kc_log := kc_log w @ [Approval_Event (Spent k phrase c now)]\<rparr>"
      have ok': "approvals_ok (ke_ttl env) d (kc_log w @ [Approval_Event (Spent k phrase c now)])" using granted Inr by simp
      then have inv: "console_inv env v" and here: "dict_get (kc_runs v) k = Some r"
        using assms Some by (simp_all add: console_inv_def v_def)
      have "wp (advance_with env r Blocked e) (\<lambda>_. console_inv env) v" for e
        using flights_of_other_phase [of "kc_runs v" "kc_flights v" k r] inv here True id unfolding advance_with_def
        by (intro inv_advance_passive [OF inv here]) (auto simp: console_inv_def browser_active_def)
      note stop = wp_then_return(1) [OF this]
      have go: "wp (andthen (advance env r Executing None id)
          (andthen (note_console (Live_Call k c)) (take_off (Live_Flight k)))) (\<lambda>_. console_inv env) v"
        unfolding wp_andthen [of "advance env r p e f" for p e f]
        by (rule wp_advance)
          (use inv here True id ok' approvals_ok_simps(3) [OF ok'] in \<open>auto simp: note_console_def take_off_def console_wp console_inv_def
            v_def intro!: runs_ok_execute [where r = r]\<close>)
      show ?thesis using Some True a Inr go stop
        by (auto simp: begin_approve_def note_console_def wp_bind [of "require_run k"] wp_require_run wp_bind [of "console_now env"]
            wp_console_now wp_bind [of "on_approvals m" for m] wp_on_approvals wp_andthen [of "update f" for f] wp_update
            wp_bind [of "get f" for f] wp_get simp flip: now_def v_def)
    qed
  next
    case False
    then show ?thesis using assms Some by (simp add: begin_approve_def console_wp)
  qed
qed

lemma inv_finish_approve:
  assumes "console_inv env w" and "Live_Flight k \<in> set (kc_flights w)"
  shows "wp (finish_approve env k answer) (\<lambda>_. console_inv env) w"
proof -
  let ?w = "w\<lparr>kc_flights := remove1 (Live_Flight k) (kc_flights w)\<rparr>"
  note inv = inv_landed [OF assms(1), of "Live_Flight k"]
  obtain r where r: "dict_get (kc_runs w) k = Some r" "kr_phase r = Executing"
    using assms unfolding console_inv_def runs_ok_def flights_ok_def by blast
  note id = kr_id_of [OF assms(1) r(1)]
  have free: "k \<notin> set (preview_ids (kc_flights ?w))" "k \<notin> set (live_ids (kc_flights ?w))"
    using landed(2) [OF _ assms(2)] flights_of_other_phase(1) [of "kc_runs w" "kc_flights ?w" k r] inv assms(1) r
    by (auto simp: console_inv_def)
  have rests: "wp (advance env r p error f) (\<lambda>_. console_inv env) ?w"
    if "\<not> browser_active p" "\<And>x. kr_id (f x) = kr_id x \<and> kr_phase (f x) = kr_phase x" for p error f
    using that free r(1) by (intro inv_advance_passive [OF inv]) (auto simp: id)
  have "\<not> browser_active (result_phase s)" for s
    by (auto simp: result_phase_def browser_active_def)
  then show ?thesis using r rests
    by (auto simp: finish_approve_def land_def wp_andthen [of "update f" for f] wp_update wp_bind [of "require_run k"] wp_require_run
        advance_with_def browser_active_def split: sum.split)
qed

lemma inv_configure: "console_inv env w \<Longrightarrow> wp (configure_execution dry live) (\<lambda>_. console_inv env) w"
  by (auto simp: configure_execution_def console_wp console_inv_def)

section \<open>Identifiers\<close>

text \<open>The identifiers of the runs are those of the start and those handed out since.\<close>

definition handed_out :: "console_env \<Rightarrow> nat \<Rightarrow> string set" where
  "handed_out env n = (\<lambda>i. uuid_hex (ke_supply env i)) ` {..<n}"

definition ids_known :: "console_env \<Rightarrow> string set \<Rightarrow> coordinator \<Rightarrow> bool" where
  "ids_known env old w \<longleftrightarrow> fst ` set (kc_runs w) \<subseteq> old \<union> handed_out env (kc_ids w)"

definition keeps_ids :: "(coordinator, 'a) act \<Rightarrow> bool" where
  "keeps_ids m \<longleftrightarrow> (\<forall>n ks. keeps (\<lambda>w. kc_ids w = n \<and> fst ` set (kc_runs w) = ks \<and> keyed kr_id (kc_runs w)) m)"

lemma keeps_ids_intros:
  "keeps_ids (return x)" "keeps_ids (raise e)" "keeps_ids (lift y)" "keeps_ids (get g)"
  "keeps_ids m \<Longrightarrow> (\<And>x. keeps_ids (h x)) \<Longrightarrow> keeps_ids (bind m h)"
  "keeps_ids m \<Longrightarrow> keeps_ids l \<Longrightarrow> keeps_ids (andthen m l)"
  "keeps_ids (require_run k)" "keeps_ids (console_now env)" "keeps_ids (on_approvals q)" "keeps_ids (note_console ev)"
  "keeps_ids (take_off fl)" "keeps_ids (land fl)"
  by (auto simp: keeps_ids_def intro!: keeps_bind keeps_andthen)
    (auto simp: keeps_def require_run_def console_now_def on_approvals_def note_console_def take_off_def land_def bind_def
      split: option.splits prod.splits)

lemma put_keys: "fst ` set (dict_put k v d) = insert k (fst ` set d)"
  by (induction d) auto

lemma put_same_keys: "dict_get d k = Some v \<Longrightarrow> fst ` set (dict_put k u d) = fst ` set d"
  by (force simp: put_keys dest: map_of_SomeD)

lemma keeps_ids_wp:
  "(\<And>w. keyed kr_id (kc_runs w) \<Longrightarrow> wp m (\<lambda>_ v. kc_ids v = kc_ids w \<and> fst ` set (kc_runs v) = fst ` set (kc_runs w) \<and>
     keyed kr_id (kc_runs v)) w) \<Longrightarrow> keeps_ids m"
  by (auto simp: keeps_ids_def keeps_def wp_def)

lemma keeps_ids_advance:
  assumes "\<And>x. kr_id (f x) = kr_id x"
  shows "keeps_ids (advance env r p e f)"
  by (intro keeps_ids_wp wp_advance) (auto simp: assms put_same_keys intro!: keyed_put)

lemma keeps_ids_operations:
  "keeps_ids (begin_plan k)" "keeps_ids (finish_plan env k a1)" "keeps_ids (promote_plan env k m)"
  "keeps_ids (begin_preview env k)" "keeps_ids (finish_preview env k m a2)" "keeps_ids (pending_approval_of env k)"
  "keeps_ids (cancel_console_run env k)" "keeps_ids (begin_approve env k phrase ack i)"
  "keeps_ids (finish_approve env k a3)" "keeps_ids (configure_execution dry live)"
proof -
  show "keeps_ids (promote_plan env k m)"
  proof (rule keeps_ids_wp)
    fix w :: coordinator
    assume w: "keyed kr_id (kc_runs w)"
    show "wp (promote_plan env k m) (\<lambda>_ v. kc_ids v = kc_ids w \<and> fst ` set (kc_runs v) = fst ` set (kc_runs w) \<and>
      keyed kr_id (kc_runs v)) w"
      by (cases "dict_get (kc_runs w) k"; cases "kr_plan (the (dict_get (kc_runs w) k))")
        (use w keyed_get [OF w] in \<open>auto simp: promote_plan_def console_wp Let_def put_same_keys intro!: wp_store_run keyed_put\<close>)
  qed
  show "keeps_ids (configure_execution dry live)"
    by (rule keeps_ids_wp) (auto simp: configure_execution_def console_wp)
  show "keeps_ids (begin_plan k)" "keeps_ids (finish_plan env k a1)" 
    "keeps_ids (begin_preview env k)" "keeps_ids (finish_preview env k m a2)" "keeps_ids (pending_approval_of env k)"
    "keeps_ids (cancel_console_run env k)" "keeps_ids (begin_approve env k phrase ack i)" "keeps_ids (finish_approve env k a3)"
    by (auto simp: begin_plan_def finish_plan_def begin_preview_def finish_preview_def
        pending_approval_of_def cancel_console_run_def begin_approve_def finish_approve_def require_browser_slot_def advance_with_def
        Let_def intro!: keeps_ids_intros keeps_ids_advance split: option.split sum.split)
qed

lemma ids_known_start:
  assumes "ids_known env old w"
  shows "wp (start_run env t m p plan) (\<lambda>_. ids_known env old) w \<and> wp (start_run env t m p plan) (\<lambda>_ v. kc_ids v \<le> Suc (kc_ids w)) w"
proof -
  have "handed_out env (Suc n) = insert (uuid_hex (ke_supply env n)) (handed_out env n)" for n
    by (auto simp: handed_out_def lessThan_Suc)
  then show ?thesis using assms
    by (auto simp: put_keys ids_known_def start_run_def console_wp console_id_def wp_def [of "console_id env"] make_transition_def
        make_console_run_def intro!: wp_store_run) (force simp: image_subset_iff)
qed

lemma ids_known_step:
  assumes "ids_known env old w" and "keyed kr_id (kc_runs w)"
  shows "ids_known env old (console_step env x w)" and "kc_ids (console_step env x w) \<le> Suc (kc_ids w)"
proof -
  have same: "ids_known env old (snd (m w)) \<and> kc_ids (snd (m w)) \<le> Suc (kc_ids w)"
    if "keeps_ids m" for m :: "(coordinator, 'a) act"
    using that assms by (auto simp: keeps_ids_def keeps_def ids_known_def)
  have "ids_known env old (console_step env x w) \<and> kc_ids (console_step env x w) \<le> Suc (kc_ids w)"
    using assms ids_known_start [OF assms(1)] 
    by (cases x) (auto simp: arrives_def console_start_def create_from_plan_def wp_def same keeps_ids_operations)
  then show "ids_known env old (console_step env x w)" and "kc_ids (console_step env x w) \<le> Suc (kc_ids w)" by auto
qed

lemma inv_step:
  assumes "console_inv env w" and "dict_get (kc_runs w) (uuid_hex (ke_supply env (kc_ids w))) = None"
  shows "console_inv env (console_step env x w)"
proof -
  have arrived: "console_inv env (arrives f m w)" if "f \<in> set (kc_flights w) \<Longrightarrow> wp m (\<lambda>_. console_inv env) w"
    for f and m :: "(coordinator, 'a) act" using that assms(1) by (auto simp: arrives_def wp_def)
  have stepped: "wp m (\<lambda>_. console_inv env) w \<Longrightarrow> console_inv env (snd (m w))" for m :: "(coordinator, 'a) act"
    by (simp add: wp_def)
  have start: "wp (start_run env t m p plan) (\<lambda>_. console_inv env) w" if "\<not> browser_active p" for t m p plan
    by (rule inv_start [OF assms that])
  show ?thesis
    using inv_planning [OF assms(1)] inv_begin_preview [OF assms(1)] inv_pending [OF assms(1)] inv_begin_approve [OF assms(1)]
      inv_configure [OF assms(1)] inv_finish_preview [OF assms(1)] inv_finish_approve [OF assms(1)] start
    by (cases x) (auto simp: console_start_def create_from_plan_def browser_active_def intro!: arrived stepped)
qed

text \<open>A session: any requests, in any order.\<close>

fun console_session :: "console_env \<Rightarrow> console_request list \<Rightarrow> coordinator \<Rightarrow> coordinator" where
  "console_session env [] w = w"
| "console_session env (x # xs) w = console_session env xs (console_step env x w)"

lemma session_append: "console_session env (xs @ ys) w = console_session env ys (console_session env xs w)"
  by (induction xs arbitrary: w) simp_all

text \<open>No identifier comes twice.\<close>

definition fresh_ids :: "console_env \<Rightarrow> string set \<Rightarrow> nat \<Rightarrow> bool" where
  "fresh_ids env old n \<longleftrightarrow> inj_on (\<lambda>i. uuid_hex (ke_supply env i)) {..<n} \<and> old \<inter> handed_out env n = {}"

lemma session_keeps:
  assumes "console_inv env w" and "ids_known env old w" and "fresh_ids env old (kc_ids w + length xs)" and "P w"
    and "\<And>x w. console_inv env w \<Longrightarrow> dict_get (kc_runs w) (uuid_hex (ke_supply env (kc_ids w))) = None \<Longrightarrow> P w \<Longrightarrow>
      P (console_step env x w)"
  defines "v \<equiv> console_session env xs w"
  shows "console_inv env v" and "ids_known env old v" and "kc_ids v \<le> kc_ids w + length xs" and "P v"
proof -
  have "console_inv env (console_session env xs w) \<and> ids_known env old (console_session env xs w) \<and>
    kc_ids (console_session env xs w) \<le> kc_ids w + length xs \<and> P (console_session env xs w)"
    using assms(1-4)
  proof (induction xs arbitrary: w)
    case (Cons x xs)
    have new: "uuid_hex (ke_supply env (kc_ids w)) \<notin> fst ` set (kc_runs w)"
    proof
      assume "uuid_hex (ke_supply env (kc_ids w)) \<in> fst ` set (kc_runs w)"
      then have "uuid_hex (ke_supply env (kc_ids w)) \<in> old \<union> handed_out env (kc_ids w)"
        using Cons.prems(2) unfolding ids_known_def by blast
      moreover have "uuid_hex (ke_supply env (kc_ids w)) \<in> handed_out env (kc_ids w + length (x # xs))"
        by (auto simp: handed_out_def)
      ultimately obtain i where "i < kc_ids w" "uuid_hex (ke_supply env (kc_ids w)) = uuid_hex (ke_supply env i)"
        using Cons.prems(3) by (auto simp: fresh_ids_def handed_out_def)
      then show False using Cons.prems(3) unfolding fresh_ids_def inj_on_def by force
    qed
    have keyed: "keyed kr_id (kc_runs w)" using Cons.prems(1) by (simp add: console_inv_def runs_ok_def)
    note ids = ids_known_step [OF Cons.prems(2) keyed, of x]
    have "fresh_ids env old (kc_ids (console_step env x w) + length xs)"
      using Cons.prems(3) ids(2) unfolding fresh_ids_def handed_out_def
      by (auto intro: inj_on_subset dest: disjoint_iff [THEN iffD1])
    moreover have new: "dict_get (kc_runs w) (uuid_hex (ke_supply env (kc_ids w))) = None" using new by (simp add: map_of_eq_None_iff)
    ultimately show ?case
      using Cons.IH [OF inv_step [OF Cons.prems(1) new] ids(1)] ids(2) assms(5) [OF Cons.prems(1) new Cons.prems(4)] by fastforce
  qed simp
  then show "console_inv env v" and "ids_known env old v" and "kc_ids v \<le> kc_ids w + length xs" and "P v"
    by (simp_all add: v_def)
qed

section \<open>Runs that have ended\<close>

lemma ended_advance:
  assumes "terminal_phase (kr_phase r)" and "\<And>x. kr_id (f x) = kr_id x"
  shows "keeps (\<lambda>w. dict_get (kc_runs w) k = Some r) (advance env s p e f)"
proof -
  have "allowed_transitions (kr_phase r) = {}" using assms(1) by (cases "kr_phase r") (auto simp: terminal_phase_def)
  then have "wp (advance env s p e f) (\<lambda>_ v. dict_get (kc_runs v) k = Some r) w" if "dict_get (kc_runs w) k = Some r" for w
    using that by (intro wp_advance) (auto simp: assms(2) update_conv')
  then show ?thesis by (simp add: keeps_def wp_def)
qed

lemma ended_basic:
  "keeps (\<lambda>w. dict_get (kc_runs w) k = Some r) (require_run j)" "keeps (\<lambda>w. dict_get (kc_runs w) k = Some r) (console_now env)"
  "keeps (\<lambda>w. dict_get (kc_runs w) k = Some r) (on_approvals m)" "keeps (\<lambda>w. dict_get (kc_runs w) k = Some r) (note_console ev)"
  "keeps (\<lambda>w. dict_get (kc_runs w) k = Some r) (take_off fl)" "keeps (\<lambda>w. dict_get (kc_runs w) k = Some r) (land fl)"
  "keeps (\<lambda>w. dict_get (kc_runs w) k = Some r) (configure_execution dry live)"
  by (auto simp: keeps_def require_run_def console_now_def on_approvals_def note_console_def take_off_def land_def
      configure_execution_def bind_def split: option.splits prod.splits)

lemma ended_step:
  assumes "console_inv env w" and "dict_get (kc_runs w) (uuid_hex (ke_supply env (kc_ids w))) = None"
    and "dict_get (kc_runs w) k = Some r" and "terminal_phase (kr_phase r)"
  shows "dict_get (kc_runs (console_step env x w)) k = Some r"
proof -
  have start: "wp (start_run env t m p plan) (\<lambda>_ v. dict_get (kc_runs v) k = Some r) w" for t m p plan
    using assms(2,3) by (auto simp: start_run_def console_wp console_id_def wp_def [of "console_id env"] make_transition_def
        make_console_run_def update_conv' intro!: wp_store_run)
  have promote: "wp (promote_plan env j m) (\<lambda>_ v. dict_get (kc_runs v) k = Some r) w" for j m
    using assms kr_id_of [OF assms(1), of j] unfolding promote_plan_def
    by (auto simp: console_wp Let_def update_conv' terminal_phase_def intro!: wp_store_run split: option.split)
  have keep: "dict_get (kc_runs (snd (m w))) k = Some r" if "keeps (\<lambda>w. dict_get (kc_runs w) k = Some r) m"
    for m :: "(coordinator, 'a) act" using that assms(3) by (simp add: keeps_def)
  note ended = keeps_intros ended_basic ended_advance [OF assms(4)]
  show ?thesis
    using start promote assms(3) 
    by (cases x) (auto simp: arrives_def console_start_def create_from_plan_def wp_def begin_plan_def finish_plan_def begin_preview_def
        finish_preview_def pending_approval_of_def cancel_console_run_def begin_approve_def finish_approve_def require_browser_slot_def
        advance_with_def Let_def intro!: keep ended simp del: return_simp raise_simp get_simp split: option.split sum.split)
qed

end
