(* ===== verification/Console_Access.thy ===== *)
theory Console_Access
  imports Console_Security
begin

text \<open>
  Who may change the console: the holder of the session that the last accepted launch token
  opened, and never for a foreign origin; and a launch token opens one session.
\<close>

section \<open>Sessions in a sequence of calls\<close>

abbreviation door_at :: "(nat \<Rightarrow> string) \<Rightarrow> door_call list \<Rightarrow> console_security \<Rightarrow> nat \<Rightarrow> console_security" where
  "door_at tok calls s i \<equiv> door_after tok (take i calls) s"

lemma door_at_Suc: "i < length calls \<Longrightarrow> door_at tok calls s (Suc i) = door_step tok (calls ! i) (door_at tok calls s i)"
  by (simp add: take_Suc_conv_app_nth door_after_snoc)

lemma drawn_step: "sc_drawn s \<le> sc_drawn (door_step tok c s)"
  using door_step_signs [of s c tok] door_step_other [of s c tok] by (cases "signs_in s c") auto

lemma drawn_mono:
  assumes "i \<le> j" and "j \<le> length calls"
  shows "sc_drawn (door_at tok calls s i) \<le> sc_drawn (door_at tok calls s j)"
  using assms
proof (induction j rule: dec_induct)
  case (step j)
  then show ?case using drawn_step [of "door_at tok calls s j" tok "calls ! j"] door_at_Suc [of j calls tok s] by simp
qed simp

lemma new_security_start:
  assumes "new_security tok br port asked = Inr s"
  shows "door_inv tok s" "sc_session s = None" "sc_host s \<noteq> []"
  using assms by (auto simp: new_security_def validate_public_origin_def door_inv_def url_host_def after_last_def
      Let_def res_simps split: option.splits list.splits if_splits)

lemma door_keeps_address:
  "sc_host (door_after tok calls s) = sc_host s \<and> sc_origin (door_after tok calls s) = sc_origin s"
proof (induction calls rule: rev_induct)
  case (snoc c calls)
  then show ?case
    using door_step_signs [of "door_after tok calls s" c tok] door_step_other [of "door_after tok calls s" c tok]
    by (cases "signs_in (door_after tok calls s) c") (auto simp: door_after_snoc)
qed (simp add: door_after_def)

text \<open>The open session is the one of the last call that signed in.\<close>

lemma session_of_last:
  assumes "sc_session s = None" and "sc_session (door_after tok calls s) = Some opened"
  shows "\<exists>i < length calls. signs_in (door_at tok calls s i) (calls ! i) \<and>
    (\<forall>j. i < j \<and> j < length calls \<longrightarrow> \<not> signs_in (door_at tok calls s j) (calls ! j)) \<and>
    opened = \<lparr>cs_session = tok (sc_drawn (door_at tok calls s i)), cs_csrf = tok (sc_drawn (door_at tok calls s i) + 1)\<rparr>"
  using assms(2)
proof (induction calls rule: rev_induct)
  case Nil
  with assms(1) show ?case by (simp add: door_after_def)
next
  case (snoc c calls)
  let ?s = "door_after tok calls s"
  show ?case
  proof (cases "signs_in ?s c")
    case True
    with snoc.prems have "opened = \<lparr>cs_session = tok (sc_drawn ?s), cs_csrf = tok (sc_drawn ?s + 1)\<rparr>"
      by (simp add: door_after_snoc door_step_signs)
    with True show ?thesis by (intro exI [of _ "length calls"]) auto
  next
    case False
    with snoc.prems have "sc_session ?s = Some opened" using door_step_other [OF False] by (simp add: door_after_snoc)
    from snoc.IH [OF this] obtain i where i: "i < length calls" "signs_in (door_at tok calls s i) (calls ! i)"
      "\<forall>j. i < j \<and> j < length calls \<longrightarrow> \<not> signs_in (door_at tok calls s j) (calls ! j)"
      "opened = \<lparr>cs_session = tok (sc_drawn (door_at tok calls s i)), cs_csrf = tok (sc_drawn (door_at tok calls s i) + 1)\<rparr>"
      by blast
    have "\<not> signs_in (door_at tok (calls @ [c]) s j) ((calls @ [c]) ! j)" if "i < j" "j < length (calls @ [c])" for j
      using that i(3) False by (cases "j = length calls") (auto simp: nth_append)
    with i show ?thesis by (intro exI [of _ i]) (auto simp: nth_append)
  qed
qed

text \<open>
  C21. Only the operator's session changes the console. Whatever links are reissued and
  whoever tries to sign in, a request other than a sign-in that the gate admits and a handler
  authorizes names the console's own host and no foreign origin (a request that names no origin
  at all is admitted), and carries the session and the form token drawn when the last accepted
  sign-in was made; the launch token of that sign-in was the current one, and no sign-in with
  the same token is accepted later.
\<close>

theorem only_the_session_changes_the_console:
  assumes "inj tok" and "new_security tok br port asked = Inr s"
    and "protect (door_after tok calls s) r = Inr Admitted" and "authorize_post (door_after tok calls s) r csrf = Inr ()"
    and "rq_method r = ''POST''" and "rq_path r \<noteq> ''/bootstrap''"
  shows "\<exists>i < length calls. \<exists>n. n = sc_drawn (door_at tok calls s i) \<and>
    (\<exists>sign_in. calls ! i = Sign_In sign_in (tok (n - 1)) \<and> rq_host sign_in = Some (sc_host s)) \<and>
    rq_cookie r = Some (tok n) \<and> csrf = Some (tok (n + 1)) \<and>
    rq_host r = Some (sc_host s) \<and> (\<forall>origin \<in> set_option (rq_origin r). without_slashes origin = sc_origin s) \<and>
    (\<forall>j. i < j \<and> j < length calls \<longrightarrow> \<not> signs_in (door_at tok calls s j) (calls ! j)) \<and>
    (\<forall>later q. \<not> signs_in (door_after tok (drop i calls @ later) (door_at tok calls s i)) (Sign_In q (tok (n - 1))))"
proof -
  let ?s = "door_after tok calls s"
  have host: "protect t q = Inr Admitted \<Longrightarrow> rq_host q = Some (sc_host s)"
    if "sc_host t = sc_host s" for t q
    using that new_security_start(3) [OF assms(2)]
    by (auto simp: protect_def host_allowed_def digest_same res_simps split: option.splits if_splits)
  have origin: "\<forall>origin \<in> set_option (rq_origin r). without_slashes origin = sc_origin s"
    using assms(3,5,6) door_keeps_address [of tok calls s]
    by (auto simp: protect_def origin_allowed_def digest_same res_simps split: option.splits if_splits)
  obtain opened where opened: "sc_session ?s = Some opened"
    using assms(4) by (auto simp: authorize_post_def authenticated_def res_simps split: option.splits list.splits if_splits)
  have tokens: "rq_cookie r = Some (cs_session opened)" "csrf = Some (cs_csrf opened)"
    using assms(4) opened by (auto simp: authorize_post_def authenticated_def require_csrf_def csrf_token_def digest_same
        res_simps split: option.splits list.splits if_splits)
  from session_of_last [OF new_security_start(2) [OF assms(2)] opened] obtain i where i: "i < length calls"
    "signs_in (door_at tok calls s i) (calls ! i)"
    "\<forall>j. i < j \<and> j < length calls \<longrightarrow> \<not> signs_in (door_at tok calls s j) (calls ! j)"
    "opened = \<lparr>cs_session = tok (sc_drawn (door_at tok calls s i)), cs_csrf = tok (sc_drawn (door_at tok calls s i) + 1)\<rparr>"
    by blast
  let ?t = "door_at tok calls s i"
  let ?n = "sc_drawn ?t"
  have inv: "door_inv tok ?t" by (rule door_inv_after [OF new_security_start(1) [OF assms(2)]])
  obtain q where q: "calls ! i = Sign_In q (tok (?n - 1))" "protect ?t q = Inr Admitted"
    using i(2) inv by (cases "calls ! i") (auto simp: door_inv_def digest_same admitted_sign_in_def)
  have "\<not> signs_in (door_after tok (drop i calls @ later) ?t) (Sign_In p (tok (?n - 1)))" for later p
  proof
    let ?calls = "drop i calls @ later"
    let ?u = "door_after tok ?calls ?t"
    assume "signs_in ?u (Sign_In p (tok (?n - 1)))"
    then have same: "tok (?n - 1) = sc_launch ?u" by (simp add: digest_same)
    have "door_at tok ?calls ?t 1 = door_step tok (calls ! i) ?t"
      using i(1) by (simp add: door_after_def hd_drop_conv_nth take_Suc)
    then have "?n + 3 = sc_drawn (door_at tok ?calls ?t 1)" using door_step_signs [OF i(2)] by simp
    also have "\<dots> \<le> sc_drawn (door_at tok ?calls ?t (length ?calls))" using i(1) by (intro drawn_mono) auto
    finally have more: "?n + 3 \<le> sc_drawn ?u" by simp
    have "sc_launch ?u = tok (sc_drawn ?u - 1)" using door_inv_after [OF inv] by (auto simp: door_inv_def)
    with same have "?n - 1 = sc_drawn ?u - 1" using assms(1) by (auto dest: injD)
    with more inv show False by (auto simp: door_inv_def)
  qed
  with i(1,3) q tokens i(4) host [of ?t q] host [OF _ assms(3)] origin door_keeps_address show ?thesis
    by (intro exI [of _ i] conjI exI [of _ ?n]) auto
qed

text \<open>A console behind a proxy, one sign-in and one form.\<close>

definition ex_tok :: "nat \<Rightarrow> string" where
  "ex_tok n = replicate n CHR ''t''"

definition ex_post :: "string \<Rightarrow> string option \<Rightarrow> web_request" where
  "ex_post p cookie = \<lparr>rq_method = ''POST'', rq_path = p, rq_host = Some ''console.example.org'',
     rq_origin = Some ''https://console.example.org/'', rq_cookie = cookie, rq_htmx = False\<rparr>"

definition ex_door :: console_security where
  "ex_door = \<lparr>sc_origin = ''https://console.example.org'', sc_host = ''console.example.org'', sc_secure = True,
     sc_launch = ex_tok 0, sc_session = None, sc_drawn = 1\<rparr>"

definition ex_calls :: "door_call list" where
  "ex_calls = [Reissue_Link, Sign_In (ex_post ''/bootstrap'' None) (ex_tok 1)]"

lemma ex_tok_inj: "inj ex_tok"
  by (rule injI) (simp add: ex_tok_def)

lemma ex_door_new: "new_security ex_tok (\<lambda>_. False) 8765 (Some ''https://console.example.org/'') = Inr ex_door"
proof -
  have normalized: "without_slashes ''https://console.example.org/'' = ''https://console.example.org''"
    by code_simp
  have split: "url_split (\<lambda>_. False) ''https://console.example.org'' =
      Inr \<lparr>url_scheme = ''https'', url_netloc = ''console.example.org'', url_path = [], url_query = [], url_fragment = []\<rparr>"
    by code_simp
  show ?thesis
    by (simp add: new_security_def validate_public_origin_def Let_def normalized split url_host_def after_last_def
        has_userinfo_def ex_door_def ex_tok_def)
qed

lemma ex_door_open:
  "protect (door_after ex_tok ex_calls ex_door) (ex_post ''/runs'' (Some (ex_tok 2))) = Inr Admitted"
  "authorize_post (door_after ex_tok ex_calls ex_door) (ex_post ''/runs'' (Some (ex_tok 2))) (Some (ex_tok 3)) = Inr ()"
  by code_simp+

theorem only_the_session_changes_the_console_witness:
  "\<exists>i < length ex_calls. \<exists>sign_in. ex_calls ! i = Sign_In sign_in (ex_tok (sc_drawn (door_at ex_tok ex_calls ex_door i) - 1)) \<and>
     Some (ex_tok 2) = Some (ex_tok (sc_drawn (door_at ex_tok ex_calls ex_door i)))"
  using only_the_session_changes_the_console [OF ex_tok_inj ex_door_new ex_door_open]
  by (auto simp: ex_post_def)

end
