(* ===== verification/Console_Server.thy ===== *)
theory Console_Server
  imports Local_Settings Console_Properties Console_Access
begin

text \<open>
  The handlers of \<^verbatim>\<open>console/routes.py\<close> that change the console, behind the gate of
  \<^verbatim>\<open>console/app.py\<close>: the coordinator, the session, the settings, the configuration file and
  the installed capabilities together. Pages are not modelled: a reply is where the browser
  is sent, or a status.
\<close>

section \<open>The server\<close>

record web_state =
  ws_security :: console_security
  ws_coordinator :: coordinator
  ws_mode :: run_mode
  ws_headless :: bool
  ws_admin :: string
  ws_domain :: string
  ws_config :: "config_file option"
  ws_capabilities :: "capabilities option"
  ws_health :: readiness_cache
  ws_removed :: "path list"

text \<open>What lies outside the server while it handles one request.\<close>

record web_env =
  we_idna :: "string \<Rightarrow> string option"
  we_contracts :: contract_env
  we_entries :: "entry_point list res"
  we_save_fails :: "exn option"
  we_retention :: retention_env
  we_approval_id :: string

datatype reply = See_Other string | No_Content string | Shown_Page string | Error_Page nat | Form_Page nat | Turned_Away gate

datatype post =
    Post_Run_Mode "string option"
  | Post_Identities "string option" "string option"
  | Post_Run string
  | Post_Direct_Add "string option" "string option" "string option"
  | Post_Preview string
  | Post_Cancel string
  | Post_Approve string string bool
  | Post_Prune string

fun post_path :: "post \<Rightarrow> string" where
  "post_path (Post_Run_Mode _) = ''/setup/run-mode''"
| "post_path (Post_Identities _ _) = ''/setup/google-identities''"
| "post_path (Post_Run _) = ''/runs''"
| "post_path (Post_Direct_Add _ _ _) = ''/runs/direct-add''"
| "post_path (Post_Preview k) = ''/runs/'' @ k @ ''/preview''"
| "post_path (Post_Cancel k) = ''/runs/'' @ k @ ''/cancel''"
| "post_path (Post_Approve k _ _) = ''/runs/'' @ k @ ''/approve''"
| "post_path (Post_Prune _) = ''/audits/prune''"

definition on_coordinator :: "(coordinator, 'a) act \<Rightarrow> (web_state, 'a) act" where
  "on_coordinator m w = (case m (ws_coordinator w) of (r, c) \<Rightarrow> (r, w\<lparr>ws_coordinator := c\<rparr>))"

definition on_config :: "(config_file, 'a) act \<Rightarrow> (web_state, 'a) act" where
  "on_config m w =
     (case ws_config w of
        None \<Rightarrow> (Inl ValueError, w)
      | Some f \<Rightarrow> (case m f of (r, g) \<Rightarrow> (r, w\<lparr>ws_config := Some g\<rparr>)))"

text \<open>A form that was filled in wrongly is shown again.\<close>

definition shown_again :: "web_request \<Rightarrow> reply" where
  "shown_again r = Form_Page (if rq_htmx r then 422 else 400)"

definition sent_to :: "web_request \<Rightarrow> string \<Rightarrow> reply" where
  "sent_to r target = (if rq_htmx r then No_Content target else See_Other target)"

section \<open>Setup\<close>

definition mode_of_text :: "string \<Rightarrow> run_mode option" where
  "mode_of_text s = find (\<lambda>m. run_mode_value m = s) [Plan_Only, Dry_Run_Mode, Live_Mode]"

definition text_or_empty :: "string option \<Rightarrow> string" where
  "text_or_empty s = (case s of None \<Rightarrow> [] | Some t \<Rightarrow> t)"

definition configure_run_mode :: "web_env \<Rightarrow> string option \<Rightarrow> (web_state, reply) act" where
  "configure_run_mode env asked =
     (case mode_of_text (text_or_empty asked) of
        None \<Rightarrow> return (Form_Page 400)
      | Some selected \<Rightarrow>
          bind (get (\<lambda>w. w)) (\<lambda>w.
          if active_browser_run (ws_coordinator w) \<noteq> None then return (Form_Page 400)
          else if selected = Live_Mode \<and> ws_headless w then return (Form_Page 400)
          else if selected = Live_Mode \<and> (ws_admin w = [] \<or> ws_domain w = []) then return (Form_Page 400)
          else
            andthen (on_config (save_run_mode selected (we_save_fails env)))
            (andthen (update (\<lambda>w. w\<lparr>ws_mode := selected\<rparr>))
            (let caps = resolve_capabilities (we_contracts env) selected (we_entries env)
             in andthen (on_coordinator (configure_execution (cb_preview caps \<noteq> None) (cb_live caps \<noteq> None)))
               (andthen (update (\<lambda>w. w\<lparr>ws_capabilities := Some caps, ws_health := set_capabilities (Some caps) (ws_health w)\<rparr>))
               (return (See_Other ''/setup?notice=run_mode_saved#run-mode'')))))))"

definition configure_google_identities :: "web_env \<Rightarrow> web_request \<Rightarrow> string option \<Rightarrow> string option \<Rightarrow> (web_state, reply) act" where
  "configure_google_identities env r email_text domain_text =
     bind (get (\<lambda>w. w)) (\<lambda>w.
     let email = (if py_strip (text_or_empty email_text) \<noteq> [] then py_strip (text_or_empty email_text) else ws_admin w);
         domain = (if py_strip (text_or_empty domain_text) \<noteq> [] then py_strip (text_or_empty domain_text) else ws_domain w)
     in if length email < 1 \<or> length email > 254 \<or> length domain < 1 \<or> length domain > 253 then return (shown_again r)
        else case (normalize_email (we_idna env) email, normalize_domain (we_idna env) False domain) of
            (Inr e, Inr d) \<Rightarrow>
              bind (on_config (save_google_identities (we_idna env) e d (we_save_fails env))) (\<lambda>(admin, workspace).
              andthen (update (\<lambda>w. w\<lparr>ws_admin := admin, ws_domain := workspace, ws_health := invalidate_health (ws_health w)\<rparr>))
                (return (sent_to r ''/setup?notice=google_identities_saved#google-account'')))
          | _ \<Rightarrow> return (shown_again r))"

section \<open>Runs\<close>

definition run_page :: "string \<Rightarrow> string" where
  "run_page k = ''/runs/'' @ k"

text \<open>Planning is scheduled: it begins when the background task does.\<close>

definition create_run :: "console_env \<Rightarrow> string \<Rightarrow> (web_state, reply) act" where
  "create_run ke request_text =
     (if length request_text < 1 \<or> length request_text > 2000 then return (Error_Page 422)
      else bind (get ws_mode) (\<lambda>mode.
        bind (on_coordinator (console_start ke request_text mode)) (\<lambda>run. return (See_Other (run_page (kr_id run))))))"

definition kind_of_text :: "string \<Rightarrow> address_kind option" where
  "kind_of_text s = find (\<lambda>k. kind_value k = s) [Email, Domain]"

definition create_direct_add_run ::
    "console_env \<Rightarrow> web_env \<Rightarrow> web_request \<Rightarrow> string option \<Rightarrow> string option \<Rightarrow> string option \<Rightarrow> (web_state, reply) act" where
  "create_direct_add_run ke env r target_text kind_text notice_text =
     (let target = text_or_empty target_text; notice = text_or_empty notice_text
      in case kind_of_text (text_or_empty kind_text) of
           None \<Rightarrow> return (shown_again r)
         | Some kind \<Rightarrow>
             if length target < 1 \<or> length target > 254 \<or> length notice > 1000 then return (shown_again r)
             else case make_address_entry (we_idna env) kind target [] of
                 Inl e \<Rightarrow> return (shown_again r)
               | Inr entry \<Rightarrow>
                   bind (lift (direct_add_plan [entry] (if notice = [] then None else Some notice) None ''/'' [])) (\<lambda>plan.
                   bind (get ws_mode) (\<lambda>mode.
                   bind (on_coordinator (create_from_plan ke (''Block '' @ ae_value entry) mode plan)) (\<lambda>run.
                   return (sent_to r (run_page (kr_id run)))))))"

definition preview_run :: "console_env \<Rightarrow> string \<Rightarrow> (web_state, reply) act" where
  "preview_run ke k =
     bind (get (\<lambda>w. w)) (\<lambda>w.
     case dict_get (kc_runs (ws_coordinator w)) k of
       None \<Rightarrow> return (Error_Page 404)
     | Some run \<Rightarrow>
         if ws_mode w = Plan_Only then return (Error_Page 409)
         else if (case ws_capabilities w of None \<Rightarrow> True | Some c \<Rightarrow> cb_preview c = None) then return (Error_Page 409)
         else
           andthen (if kr_mode run \<noteq> ws_mode w then andthen (on_coordinator (promote_plan ke k (ws_mode w))) (return ()) else return ())
           (andthen (on_coordinator (begin_preview ke k)) (return (See_Other (run_page k)))))"

definition cancel_run_post :: "console_env \<Rightarrow> string \<Rightarrow> (web_state, reply) act" where
  "cancel_run_post ke k = andthen (on_coordinator (cancel_console_run ke k)) (return (See_Other (run_page k)))"

definition approve_run_post :: "console_env \<Rightarrow> web_env \<Rightarrow> string \<Rightarrow> string \<Rightarrow> bool \<Rightarrow> (web_state, reply) act" where
  "approve_run_post ke env k phrase acknowledged =
     bind (get (\<lambda>w. w)) (\<lambda>w.
     if ws_mode w \<noteq> Live_Mode \<or> (case ws_capabilities w of None \<Rightarrow> True | Some c \<Rightarrow> cb_live c = None)
     then return (Error_Page 409)
     else andthen (on_coordinator (begin_approve ke k phrase acknowledged (we_approval_id env)))
       (return (See_Other (run_page k))))"

section \<open>Retention\<close>

definition retention_phrase :: "nat \<Rightarrow> string" where
  "retention_phrase n = ''DELETE '' @ show_int (int n) @ '' RUNS''"

definition prune_audits :: "web_env \<Rightarrow> string \<Rightarrow> (web_state, reply) act" where
  "prune_audits env confirmation =
     bind (lift (find_expired (we_retention env))) (\<lambda>candidates.
     if py_strip confirmation \<noteq> retention_phrase (length candidates) then return (Error_Page 400)
     else bind (get (\<lambda>w. w)) (\<lambda>w.
       case delete_expired (we_retention env) candidates (ws_removed w) of
         (Inl e, removed) \<Rightarrow> andthen (update (\<lambda>w. w\<lparr>ws_removed := removed\<rparr>)) (return (Error_Page 500))
       | (Inr deleted, removed) \<Rightarrow>
           andthen (update (\<lambda>w. w\<lparr>ws_removed := removed\<rparr>))
             (return (See_Other (''/audits?notice=retention_applied&count='' @ show_int (int (length deleted)))))))"

section \<open>A request\<close>

fun handle_post :: "console_env \<Rightarrow> web_env \<Rightarrow> web_request \<Rightarrow> post \<Rightarrow> (web_state, reply) act" where
  "handle_post ke env r (Post_Run_Mode m) = configure_run_mode env m"
| "handle_post ke env r (Post_Identities e d) = configure_google_identities env r e d"
| "handle_post ke env r (Post_Run t) = create_run ke t"
| "handle_post ke env r (Post_Direct_Add t k n) = create_direct_add_run ke env r t k n"
| "handle_post ke env r (Post_Preview k) = preview_run ke k"
| "handle_post ke env r (Post_Cancel k) = cancel_run_post ke k"
| "handle_post ke env r (Post_Approve k p a) = approve_run_post ke env k p a"
| "handle_post ke env r (Post_Prune c) = prune_audits env c"

text \<open>The handlers of errors: \<^verbatim>\<open>PermissionError\<close>, \<^verbatim>\<open>ValueError\<close> and all others.\<close>

definition error_status :: "exn \<Rightarrow> nat" where
  "error_status e = (if e = PermissionError then 403 else if is_value_error e then 400 else 500)"

fun csrf_is_optional :: "post \<Rightarrow> bool" where
  "csrf_is_optional (Post_Direct_Add _ _ _) = True"
| "csrf_is_optional _ = False"

text \<open>Each handler authorizes first; a required form token that is missing is refused before it.\<close>

definition serve_post :: "console_env \<Rightarrow> web_env \<Rightarrow> web_request \<Rightarrow> string option \<Rightarrow> post \<Rightarrow> web_state \<Rightarrow> reply \<times> web_state" where
  "serve_post ke env r csrf p w =
     (case protect (ws_security w) r of
        Inl e \<Rightarrow> (Error_Page 500, w)
      | Inr Admitted \<Rightarrow>
          if csrf = None \<and> \<not> csrf_is_optional p then (Error_Page 422, w)
          else (case authorize_post (ws_security w) r csrf of
              Inl e \<Rightarrow> (Error_Page (error_status e), w)
            | Inr _ \<Rightarrow> (case handle_post ke env r p w of
                (Inl e, v) \<Rightarrow> (Error_Page (error_status e), v)
              | (Inr answer, v) \<Rightarrow> (answer, v)))
      | Inr g \<Rightarrow> (Turned_Away g, w))"

text \<open>The page of a run asks for its approval, which may expire by that.\<close>

definition serve_run_page :: "console_env \<Rightarrow> web_request \<Rightarrow> string \<Rightarrow> web_state \<Rightarrow> reply \<times> web_state" where
  "serve_run_page ke r k w =
     (case protect (ws_security w) r of
        Inl e \<Rightarrow> (Error_Page 500, w)
      | Inr Admitted \<Rightarrow>
          if dict_get (kc_runs (ws_coordinator w)) k = None then (Error_Page 404, w)
          else (case on_coordinator (pending_approval_of ke k) w of
              (Inl e, v) \<Rightarrow> (Error_Page (error_status e), v)
            | (Inr _, v) \<Rightarrow> (Shown_Page (run_page k), v))
      | Inr g \<Rightarrow> (Turned_Away g, w))"

datatype web_event =
    Web_Post web_env web_request "string option" post
  | Web_Run_Page web_request string
  | Web_Door door_call
  | Web_Answer console_request

text \<open>The background: planning begins, and the answers of planner, preview and live runner.\<close>

fun background :: "console_request \<Rightarrow> bool" where
  "background (Begin_Plan _) = True"
| "background (Finish_Plan _ _) = True"
| "background (Finish_Preview _ _ _) = True"
| "background (Finish_Approve _ _) = True"
| "background _ = False"

fun web_step :: "(nat \<Rightarrow> string) \<Rightarrow> console_env \<Rightarrow> web_event \<Rightarrow> web_state \<Rightarrow> web_state" where
  "web_step tok ke (Web_Post env r csrf p) w =
     (if rq_method r = ''POST'' \<and> rq_path r = post_path p then snd (serve_post ke env r csrf p w) else w)"
| "web_step tok ke (Web_Run_Page r k) w =
     (if rq_method r = ''GET'' \<and> rq_path r = run_page k then snd (serve_run_page ke r k w) else w)"
| "web_step tok ke (Web_Door c) w = w\<lparr>ws_security := door_step tok c (ws_security w)\<rparr>"
| "web_step tok ke (Web_Answer x) w =
     (if background x then w\<lparr>ws_coordinator := console_step ke x (ws_coordinator w)\<rparr> else w)"

definition web_session :: "(nat \<Rightarrow> string) \<Rightarrow> console_env \<Rightarrow> web_event list \<Rightarrow> web_state \<Rightarrow> web_state" where
  "web_session tok ke events w = fold (web_step tok ke) events w"

text \<open>The server as \<^verbatim>\<open>create_console_app\<close> makes it.\<close>

definition create_console_app ::
    "(nat \<Rightarrow> string) \<Rightarrow> (string \<Rightarrow> bool) \<Rightarrow> int \<Rightarrow> string option \<Rightarrow> app_settings \<Rightarrow> contract_env \<Rightarrow> entry_point list res \<Rightarrow>
      py_datetime \<Rightarrow> envelope list res \<Rightarrow> bool \<Rightarrow> config_file \<Rightarrow> int \<Rightarrow> web_state res" where
  "create_console_app tok br port origin s contracts entries now stored save_fails file ttl =
     and_then (new_security tok br port origin) (\<lambda>security.
     let caps = resolve_capabilities contracts (st_mode s) entries
     in and_then (load_journal now stored) (\<lambda>(journal, runs).
        Inr \<lparr>ws_security = security,
          ws_coordinator = new_coordinator (Some (save_journal save_fails runs journal)) runs (cb_preview caps \<noteq> None) (cb_live caps \<noteq> None),
          ws_mode = st_mode s, ws_headless = st_headless s, ws_admin = st_admin s, ws_domain = st_domain s,
          ws_config = Some file, ws_capabilities = Some caps,
          ws_health = \<lparr>rc_ttl = ttl, rc_capabilities = Some caps, rc_cached = None\<rparr>, ws_removed = []\<rparr>))"

end
