(* ===== verification/Operator_Claims.thy ===== *)
theory Operator_Claims
  imports Operator_Services
begin

text \<open>
  What holds of the operator services in every sequence of calls: the follow-up records only
  advance, retention removes expired run directories only, and the run lock has one holder.
\<close>

section \<open>Follow-up records\<close>

datatype follow_up_call =
    Call_Pending string py_datetime int
  | Call_Recheck string string py_datetime
  | Call_Mail_Flow string string py_datetime

fun follow_up :: "follow_up_call \<Rightarrow> (follow_ups, propagation) act" where
  "follow_up (Call_Pending k t n) = create_pending k t n"
| "follow_up (Call_Recheck k e t) = record_ui_recheck k e t"
| "follow_up (Call_Mail_Flow k e t) = record_mail_flow k e t"

definition follow_all :: "follow_up_call list \<Rightarrow> follow_ups \<Rightarrow> follow_ups" where
  "follow_all calls s = fold (\<lambda>c u. snd (follow_up c u)) calls s"

text \<open>The records a file holds, and the files the service leaves.\<close>

definition held_records :: "follow_ups \<Rightarrow> propagation list" where
  "held_records s = (case pj_file s of Items rs \<Rightarrow> (case map_res (\<lambda>r. r) rs of Inr xs \<Rightarrow> xs | Inl _ \<Rightarrow> []) | _ \<Rightarrow> [])"

definition good_records :: "propagation list \<Rightarrow> bool" where
  "good_records rs \<longleftrightarrow> sorted (map pp_run rs) \<and> distinct (map pp_run rs) \<and> (\<forall>r \<in> set rs. make_propagation r = Inr r)"

definition good_store :: "follow_ups \<Rightarrow> bool" where
  "good_store s \<longleftrightarrow> (pj_file s = Absent \<or> (\<exists>rs. pj_file s = Items (map Inr rs))) \<and> good_records (held_records s)"

fun stage_of :: "propagation_status \<Rightarrow> nat" where
  "stage_of Propagation_Pending = 0"
| "stage_of Ui_Reconfirmed = 1"
| "stage_of _ = 2"

definition advanced :: "propagation \<Rightarrow> propagation \<Rightarrow> bool" where
  "advanced r u \<longleftrightarrow>
     u = r \<or>
     pp_run u = pp_run r \<and> pp_created u = pp_created r \<and> pp_due u = pp_due r \<and> pp_note u = pp_note r \<and>
     stage_of (pp_status r) < stage_of (pp_status u) \<and> (pp_recheck r = None \<or> pp_recheck u = pp_recheck r) \<and>
     pp_mail_flow r = None"

definition all_advanced :: "propagation list \<Rightarrow> propagation list \<Rightarrow> bool" where
  "all_advanced rs us \<longleftrightarrow> (\<forall>r \<in> set rs. \<exists>u \<in> set us. advanced r u)"

lemma advanced_refl [simp]: "advanced r r"
  by (simp add: advanced_def)

lemma advanced_trans: "advanced r u \<Longrightarrow> advanced u v \<Longrightarrow> advanced r v"
  by (auto simp: advanced_def)

lemma all_advanced_refl [simp]: "all_advanced rs rs"
  by (auto simp: all_advanced_def intro: advanced_refl)

lemma all_advanced_trans: "all_advanced rs us \<Longrightarrow> all_advanced us vs \<Longrightarrow> all_advanced rs vs"
  unfolding all_advanced_def by (meson advanced_trans)

lemma map_res_given [simp]: "map_res (\<lambda>r. r) (map Inr xs) = Inr xs"
  by (induction xs) auto

lemma load_good:
  assumes "good_store s"
  shows "load_protected s = (if pj_accessible s then (Inr (held_records s), s) else (Inl OSError, s))"
  using assms by (auto simp: good_store_def load_protected_def held_records_def)

lemma make_propagation_same: "make_propagation r = Inr u \<Longrightarrow> u = r"
  by (auto simp: make_propagation_def split: if_splits)

lemma members_of_put:
  assumes "good_records rs" and "pp_run u = k"
  shows "set (by_run (dict_put k u (dict_of pp_run rs))) = insert u {r \<in> set rs. pp_run r \<noteq> k}"
proof -
  let ?d = "dict_put k u (dict_of pp_run rs)"
  have keys: "keyed pp_run ?d" using assms(2) by (intro keyed_put keyed_dict_of)
  have runs: "distinct (map pp_run rs)" using assms(1) by (simp add: good_records_def)
  have get: "dict_get (dict_of pp_run rs) j = Some r \<longleftrightarrow> r \<in> set rs \<and> pp_run r = j" for j r
    by (rule dict_of_get_iff [OF runs])
  have "r \<in> set (dict_values ?d) \<longleftrightarrow> r = u \<or> r \<in> set rs \<and> pp_run r \<noteq> k" for r
    unfolding keyed_values_iff [OF keys] by (auto simp: update_conv' get assms(2))
  then show ?thesis by (auto simp: by_run_def)
qed

lemma put_good:
  assumes "good_records rs" and "make_propagation u = Inr u" and "pp_run u = k"
  shows "good_records (by_run (dict_put k u (dict_of pp_run rs)))"
proof -
  let ?d = "dict_put k u (dict_of pp_run rs)"
  have "keyed pp_run ?d" using assms(3) by (intro keyed_put keyed_dict_of)
  then have "distinct (map pp_run (dict_values ?d))" by (rule keyed_distinct_values)
  then have "distinct (map pp_run (by_run ?d))"
    by (metis by_run_def mset_map mset_sort mset_eq_imp_distinct_iff)
  moreover have "sorted (map pp_run (by_run ?d))" by (simp add: by_run_def)
  moreover have "\<forall>r \<in> set (by_run ?d). make_propagation r = Inr r"
    using members_of_put [OF assms(1,3)] assms(1,2) by (auto simp: good_records_def)
  ultimately show ?thesis by (simp add: good_records_def)
qed

text \<open>A save leaves the old records or the new ones.\<close>

lemma save_leaves:
  assumes "save_protected xs s = (r, t)"
  shows "pj_file t = pj_file s \<and> r \<noteq> Inr () \<or> pj_file t = Items (map Inr xs)"
  using assms by (auto simp: save_protected_def Let_def split: save_outcome.splits list.splits)

lemma stored_after:
  assumes "good_store s" and "save_protected (by_run (dict_put k u (dict_of pp_run (held_records s)))) s = (r, t)"
    and "make_propagation u = Inr u" and "pp_run u = k"
    and "\<And>x. x \<in> set (held_records s) \<Longrightarrow> pp_run x = k \<Longrightarrow> advanced x u"
  shows "good_store t \<and> all_advanced (held_records s) (held_records t) \<and> (r = Inr () \<longrightarrow> u \<in> set (held_records t))"
proof -
  let ?xs = "by_run (dict_put k u (dict_of pp_run (held_records s)))"
  consider (old) "pj_file t = pj_file s" "r \<noteq> Inr ()" | (new) "pj_file t = Items (map Inr ?xs)"
    using save_leaves [OF assms(2)] by blast
  then show ?thesis
  proof cases
    case old
    then have "held_records t = held_records s" by (simp add: held_records_def)
    with old assms(1) show ?thesis by (simp add: good_store_def)
  next
    case new
    then have xs: "held_records t = ?xs" by (simp add: held_records_def)
    have good: "good_records (held_records s)" using assms(1) by (simp add: good_store_def)
    have mem: "set ?xs = insert u {x \<in> set (held_records s). pp_run x \<noteq> k}"
      by (rule members_of_put [OF good assms(4)])
    have "all_advanced (held_records s) ?xs"
      unfolding all_advanced_def mem using assms(5) by (metis (mono_tags, lifting) advanced_refl insert_iff mem_Collect_eq)
    moreover have "good_store t"
      using new xs put_good [OF good assms(3,4)] by (auto simp: good_store_def)
    moreover have "u \<in> set ?xs" unfolding mem by simp
    ultimately show ?thesis by (simp add: xs)
  qed
qed

text \<open>The three operations.\<close>

lemma pending_keeps:
  assumes "good_store s" and "create_pending k now n s = (r, t)"
  shows "good_store t \<and> all_advanced (held_records s) (held_records t) \<and> (\<forall>u. r = Inr u \<longrightarrow> u \<in> set (held_records t))"
proof (cases "pj_accessible s")
  case False
  with assms show ?thesis by (auto simp: create_pending_def Let_def bind_def load_good)
next
  case acc: True
  let ?u = "\<lparr>pp_run = k, pp_status = Propagation_Pending, pp_created = now, pp_updated = now,
    pp_due = plus_seconds now n, pp_recheck = None, pp_mail_flow = None, pp_note = None\<rparr>"
  have runs: "distinct (map pp_run (held_records s))" using assms(1) by (simp add: good_store_def good_records_def)
  show ?thesis
  proof (cases "dict_get (dict_of pp_run (held_records s)) k = None \<and> make_propagation ?u = Inr ?u")
    case False
    then have "t = s" "\<exists>e. r = Inl e"
      using assms(2) acc make_propagation_same [of ?u]
      by (cases "make_propagation ?u";
          auto simp: create_pending_def Let_def bind_def load_good [OF assms(1)] lift_def raise_def split: if_splits)+
    with assms(1) show ?thesis by auto
  next
    case True
    obtain q v where qv: "save_protected (by_run (dict_put k ?u (dict_of pp_run (held_records s)))) s = (q, v)"
      by fastforce
    have fresh: "k \<notin> pp_run ` set (held_records s)"
      using True dict_of_keys [OF runs] by (auto simp: map_of_eq_None_iff)
    have "good_store v \<and> all_advanced (held_records s) (held_records v) \<and> (q = Inr () \<longrightarrow> ?u \<in> set (held_records v))"
      by (rule stored_after [OF assms(1) qv]) (use True fresh in auto)
    moreover have "t = v" "\<forall>u. r = Inr u \<longrightarrow> q = Inr () \<and> u = ?u"
      using assms(2) acc True qv
      by (auto simp: create_pending_def Let_def bind_def andthen_def load_good [OF assms(1)] lift_def split: sum.splits)
    ultimately show ?thesis by auto
  qed
qed

lemma replace_keeps:
  assumes "good_store s" and "replace_propagation k now target changes s = (r, t)"
    and "\<And>x. pp_run (changes x) = pp_run x \<and> pp_created (changes x) = pp_created x \<and> pp_due (changes x) = pp_due x \<and>
      pp_note (changes x) = pp_note x \<and> pp_status (changes x) = pp_status x"
    and "\<And>x. make_propagation x = Inr x \<Longrightarrow> target \<in> propagation_transitions (pp_status x) \<Longrightarrow>
      (pp_recheck x = None \<or> pp_recheck (changes (x\<lparr>pp_updated := now, pp_status := target\<rparr>)) = pp_recheck x) \<and> pp_mail_flow x = None"
  shows "good_store t \<and> all_advanced (held_records s) (held_records t) \<and> (\<forall>u. r = Inr u \<longrightarrow> u \<in> set (held_records t))"
proof -
  have runs: "distinct (map pp_run (held_records s))" and valid: "\<And>x. x \<in> set (held_records s) \<Longrightarrow> make_propagation x = Inr x"
    using assms(1) by (simp_all add: good_store_def good_records_def)
  show ?thesis
  proof (cases "pj_accessible s")
    case False
    with assms show ?thesis by (auto simp: replace_propagation_def Let_def bind_def load_good)
  next
    case acc: True
    show ?thesis
    proof (cases "dict_get (dict_of pp_run (held_records s)) k")
      case None
      with assms acc show ?thesis by (auto simp: replace_propagation_def Let_def bind_def load_good raise_def)
    next
      case (Some x)
      then have x: "x \<in> set (held_records s)" "pp_run x = k" by (simp_all add: dict_of_get_iff [OF runs])
      let ?u = "changes (x\<lparr>pp_updated := now, pp_status := target\<rparr>)"
      show ?thesis
      proof (cases "target \<in> propagation_transitions (pp_status x) \<and> make_propagation ?u = Inr ?u")
        case False
        then have "t = s" "\<exists>e. r = Inl e"
          using assms(2) acc Some make_propagation_same [of ?u]
          by (cases "make_propagation ?u";
              auto simp: replace_propagation_def Let_def bind_def load_good [OF assms(1)] raise_def lift_def split: if_splits)+
        with assms(1) show ?thesis by auto
      next
        case True
        have "stage_of (pp_status x) < stage_of target"
          using True by (cases "pp_status x") auto
        then have adv: "advanced x ?u"
          using assms(3) [of "x\<lparr>pp_updated := now, pp_status := target\<rparr>"] assms(4) [OF valid [OF x(1)]] True
          by (simp add: advanced_def)
        obtain q v where qv: "save_protected (by_run (dict_put k ?u (dict_of pp_run (held_records s)))) s = (q, v)"
          by fastforce
        have same: "y = x" if "y \<in> set (held_records s)" "pp_run y = k" for y
          using that x runs by (metis distinct_map inj_onD)
        have run: "pp_run ?u = k" using assms(3) x(2) by simp
        have kept: "advanced y ?u" if "y \<in> set (held_records s)" "pp_run y = k" for y
          using same [OF that] adv by simp
        have valid_u: "make_propagation ?u = Inr ?u" using True by simp
        have "good_store v \<and> all_advanced (held_records s) (held_records v) \<and> (q = Inr () \<longrightarrow> ?u \<in> set (held_records v))"
          by (rule stored_after [OF assms(1) qv valid_u run kept])
        moreover have "t = v" "\<forall>u. r = Inr u \<longrightarrow> q = Inr () \<and> u = ?u"
          using assms(2) acc Some True qv
          by (auto simp: replace_propagation_def Let_def bind_def andthen_def load_good [OF assms(1)] lift_def split: sum.splits)
        ultimately show ?thesis by auto
      qed
    qed
  qed
qed

lemma no_mail_flow_yet:
  "make_propagation x = Inr x \<Longrightarrow> target \<in> propagation_transitions (pp_status x) \<Longrightarrow> pp_mail_flow x = None"
  by (cases "pp_status x") (auto simp: make_propagation_def split: if_splits)

lemma follow_up_keeps:
  assumes "good_store s" and "follow_up c s = (r, t)"
  shows "good_store t \<and> all_advanced (held_records s) (held_records t) \<and> (\<forall>u. r = Inr u \<longrightarrow> u \<in> set (held_records t))"
proof (cases c)
  case (Call_Pending k now n)
  with assms show ?thesis using pending_keeps by simp
next
  case (Call_Recheck k e now)
  have "pp_recheck x = None" if "make_propagation x = Inr x" "Ui_Reconfirmed \<in> propagation_transitions (pp_status x)" for x
    using that by (cases "pp_status x") (auto simp: make_propagation_def split: if_splits)
  with Call_Recheck assms show ?thesis
    by (intro replace_keeps [of s k now Ui_Reconfirmed "\<lambda>r. r\<lparr>pp_recheck := Some e\<rparr>" r t])
      (auto simp: record_ui_recheck_def no_mail_flow_yet)
next
  case (Call_Mail_Flow k e now)
  with assms show ?thesis
    by (intro replace_keeps [of s k now Mail_Flow_Verified "\<lambda>r. r\<lparr>pp_mail_flow := Some e\<rparr>" r t])
      (auto simp: record_mail_flow_def no_mail_flow_yet)
qed

lemma follow_all_keeps:
  assumes "good_store s"
  shows "good_store (follow_all calls s) \<and> all_advanced (held_records s) (held_records (follow_all calls s))"
  using assms
proof (induction calls arbitrary: s)
  case Nil
  then show ?case by (simp add: follow_all_def)
next
  case (Cons c cs)
  obtain r t where t: "follow_up c s = (r, t)" by fastforce
  have "good_store t" "all_advanced (held_records s) (held_records t)" using follow_up_keeps [OF Cons.prems t] by auto
  then show ?case using Cons.IH [of t] t by (auto simp: follow_all_def intro: all_advanced_trans)
qed

text \<open>
  C37. Follow-up records only advance. A store that starts without a file, whatever calls are
  made and whichever saves fail, is absent or holds valid records sorted by their distinct
  runs. Each record stays, or a later one of the same run, creation and due time replaces it
  whose status is a later one (pending, then reconfirmed in the console, then an end), with
  the evidence it had; nothing replaces a record that has mail-flow evidence. A record that a
  call returns is in the file.
\<close>

theorem follow_ups_only_advance:
  "let s = follow_all before \<lparr>pj_accessible = True, pj_file = Absent, pj_outcomes = outcomes\<rparr>
   in (pj_file s = Absent \<or> (\<exists>rs. pj_file s = Items (map Inr rs))) \<and> good_records (held_records s) \<and>
      all_advanced (held_records s) (held_records (follow_all later s)) \<and>
      (case follow_up c s of (Inl e, _) \<Rightarrow> True | (Inr u, t) \<Rightarrow> u \<in> set (held_records t))"
proof -
  let ?s = "follow_all before \<lparr>pj_accessible = True, pj_file = Absent, pj_outcomes = outcomes\<rparr>"
  have "good_store \<lparr>pj_accessible = True, pj_file = Absent, pj_outcomes = outcomes\<rparr>"
    by (simp add: good_store_def held_records_def good_records_def)
  then have s: "good_store ?s" using follow_all_keeps by blast
  then have "case follow_up c ?s of (Inl e, _) \<Rightarrow> True | (Inr u, t) \<Rightarrow> u \<in> set (held_records t)"
    using follow_up_keeps [OF s] by (auto split: prod.splits sum.splits)
  with s follow_all_keeps [OF s] show ?thesis by (simp add: good_store_def Let_def)
qed

section \<open>Retention\<close>

text \<open>
  A path that may go: a direct entry of the runs directory that resolves to itself, a
  directory and no link, whose name is a time stamp and a run id, the stamp older than the
  retention days before one of the first \<open>n\<close> readings of the clock.
\<close>

definition expired_run :: "retention_env \<Rightarrow> nat \<Rightarrow> path \<Rightarrow> bool" where
  "expired_run env n p \<longleftrightarrow>
     (\<exists>name created k. p = rt_runs env @ [name] \<and> pf_resolves (rt_facts env p) = Some p \<and> pf_directory (rt_facts env p) \<and>
       \<not> pf_link (rt_facts env p) \<and> run_created_at env name = Some created \<and> k < n \<and>
       created < rt_clock env k - days (rt_days env))"

lemma name_of_snoc [simp]: "name_of (xs @ [x]) = x"
  by (simp add: name_of_def)

lemma unnamed_is_no_run: "run_created_at env [] = None"
  by (simp add: run_created_at_def after_dash_def)

lemma safe_is_expired:
  assumes "is_still_safe env k c" and "k < n"
  shows "expired_run env n (rn_path c)"
proof -
  have facts_of: "pf_resolves (rt_facts env (rn_path c)) = Some (rn_path c)" "butlast (rn_path c) = rt_runs env"
    "run_created_at env (name_of (rn_path c)) = Some (rn_created c)" "rn_created c < rt_clock env k - days (rt_days env)"
    using assms(1) by (auto simp: is_still_safe_def Let_def split: option.splits)
  have "rn_path c \<noteq> []"
    using facts_of(3) unnamed_is_no_run by (auto simp: name_of_def)
  then have p: "rn_path c = rt_runs env @ [name_of (rn_path c)]"
    using facts_of(2) by (metis append_butlast_last_id name_of_snoc)
  have "pf_directory (rt_facts env (rn_path c))" "\<not> pf_link (rt_facts env (rn_path c))"
    using assms(1) by (auto simp: is_still_safe_def Let_def split: option.splits)
  with p facts_of assms(2) show ?thesis unfolding expired_run_def by blast
qed

lemma all_safe_expired:
  "all_still_safe env k cs \<Longrightarrow> p \<in> rn_path ` set cs \<Longrightarrow> expired_run env (k + length cs) p"
proof (induction cs arbitrary: k)
  case Nil
  then show ?case by simp
next
  case (Cons c cs)
  show ?case
  proof (cases "p = rn_path c")
    case True
    with Cons.prems(1) show ?thesis by (auto intro: safe_is_expired)
  next
    case False
    with Cons.prems Cons.IH [of "Suc k"] show ?thesis by auto
  qed
qed

lemma remove_all:
  "each (remove_tree env) ps done =
     (if \<forall>p \<in> set ps. rt_removal env p then Inr () else Inl AuditRetentionFailure,
      done @ takeWhile (rt_removal env) ps @ take 1 (dropWhile (rt_removal env) ps))"
  by (induction ps arbitrary: "done") (auto simp: andthen_def bind_def remove_tree_def)

text \<open>
  C36. Retention removes expired runs only. Every path whose removal is begun is a direct
  entry of the runs directory, a directory and no link, named as a run whose stamp is older
  than the retention days; no path is removed twice; when one candidate of the plan is a
  duplicate or not safe any more nothing is removed at all; otherwise the paths of the plan
  are removed in order up to the first failure, which is raised.
\<close>

theorem only_expired_runs_are_removed:
  "case delete_expired env cs [] of (r, removed) \<Rightarrow>
     distinct removed \<and> (\<forall>p \<in> set removed. expired_run env (length cs) p) \<and>
     (let ps = map rn_path cs
      in if distinct ps \<and> all_still_safe env 0 cs
         then removed = takeWhile (rt_removal env) ps @ take 1 (dropWhile (rt_removal env) ps) \<and>
           r = (if \<forall>p \<in> set ps. rt_removal env p then Inr ps else Inl AuditRetentionFailure)
         else removed = [] \<and> r = Inl AuditRetentionFailure)"
proof (cases "distinct (map rn_path cs) \<and> all_still_safe env 0 cs")
  case False
  then show ?thesis by (auto simp: delete_expired_def Let_def raise_def)
next
  case True
  let ?ps = "map rn_path cs"
  let ?removed = "takeWhile (rt_removal env) ?ps @ take 1 (dropWhile (rt_removal env) ?ps)"
  have run: "delete_expired env cs [] =
      (if \<forall>p \<in> set ?ps. rt_removal env p then Inr ?ps else Inl AuditRetentionFailure, ?removed)"
    using True by (simp add: delete_expired_def Let_def andthen_def bind_def remove_all)
  have parts: "?removed @ drop 1 (dropWhile (rt_removal env) ?ps) = ?ps" by simp
  then have "distinct ?removed" using True by (metis distinct_append)
  moreover have "set ?removed \<subseteq> set ?ps" using parts by (metis set_append Un_upper1)
  then have "\<forall>p \<in> set ?removed. expired_run env (length cs) p"
    using all_safe_expired [of env 0 cs] True by auto
  ultimately show ?thesis using True unfolding run by (simp add: Let_def)
qed

text \<open>What the plan finds is carried out when nothing has changed but the time.\<close>

lemma candidates_found:
  assumes "find_expired env = Inr cs" and "c \<in> set cs"
  shows "\<exists>name \<in> set (rt_entries env). rn_path c = rt_runs env @ [name] \<and> run_created_at env name = Some (rn_created c) \<and>
    rn_created c < rt_clock env 0 - days (rt_days env) \<and> pf_directory (rt_facts env (rn_path c)) \<and> \<not> pf_link (rt_facts env (rn_path c))"
  using assms by (auto simp: find_expired_def expired_entry_def Let_def split: if_splits option.splits)

lemma entry_paths:
  "map rn_path (concat (map (expired_entry env cutoff) names)) =
     map (\<lambda>name. rt_runs env @ [name]) (filter (\<lambda>name. expired_entry env cutoff name \<noteq> []) names)"
proof (induction names)
  case (Cons name names)
  have "map rn_path (expired_entry env cutoff name) =
      (if expired_entry env cutoff name \<noteq> [] then [rt_runs env @ [name]] else [])"
    by (auto simp: expired_entry_def Let_def split: option.splits)
  with Cons show ?case by simp
qed simp

lemma found_paths:
  assumes "find_expired env = Inr cs" and "distinct (rt_entries env)"
  shows "distinct (map rn_path cs)"
proof (cases "cs = []")
  case False
  let ?found = "concat (map (expired_entry env (rt_clock env 0 - days (rt_days env))) (rt_entries env))"
  have "distinct (map rn_path ?found)"
    unfolding entry_paths using assms(2) by (simp add: distinct_map inj_on_def)
  moreover have "cs = sort_key (\<lambda>c. name_of (rn_path c)) ?found"
    using assms(1) False by (simp add: find_expired_def Let_def split: if_splits)
  then have "mset (map rn_path cs) = mset (map rn_path ?found)"
    by (metis mset_map mset_sort)
  ultimately show ?thesis using mset_eq_imp_distinct_iff by blast
qed simp

text \<open>
  A plan that finds expired runs is carried out in full, in the order of the names, when
  the entries are distinct, time has not gone back and the directories still resolve to
  themselves and can be removed.
\<close>

theorem retention_plan_is_carried_out:
  assumes "find_expired env = Inr cs" and "distinct (rt_entries env)"
    and "\<And>n. rt_clock env 0 \<le> clock n"
    and "\<And>name. name \<in> set (rt_entries env) \<Longrightarrow> (let p = rt_runs env @ [name] in
      pf_resolves (rt_facts env p) = Some p \<and> pf_exists (rt_facts env p) \<and> rt_removal env p)"
  shows "delete_expired (env\<lparr>rt_clock := clock\<rparr>) cs [] = (Inr (map rn_path cs), map rn_path cs) \<and>
    sorted (map (\<lambda>c. name_of (rn_path c)) cs)"
proof -
  let ?env = "env\<lparr>rt_clock := clock\<rparr>"
  have same: "run_created_at ?env = run_created_at env" by (rule ext) (simp add: run_created_at_def split: option.split)
  have "is_still_safe ?env n c" if "c \<in> set cs" for n c
    using candidates_found [OF assms(1) that] assms(3) [of n] assms(4)
    by (auto simp: is_still_safe_def Let_def same)
  then have "all_still_safe ?env n xs" if "set xs \<subseteq> set cs" for n xs
    using that by (induction xs arbitrary: n) auto
  then have safe: "all_still_safe ?env 0 cs" by blast
  have ok: "\<forall>p \<in> set (map rn_path cs). rt_removal ?env p"
    using candidates_found [OF assms(1)] assms(4) by (fastforce simp: Let_def)
  have "delete_expired ?env cs [] = (Inr (map rn_path cs), map rn_path cs)"
    using safe ok found_paths [OF assms(1,2)]
    by (simp add: delete_expired_def Let_def andthen_def bind_def remove_all takeWhile_eq_all_conv [THEN iffD2])
  moreover have "sorted (map (\<lambda>c. name_of (rn_path c)) cs)"
    using assms(1) by (auto simp: find_expired_def Let_def split: if_splits)
  ultimately show ?thesis by simp
qed

text \<open>A runs directory with one old run and a file of notes.\<close>

definition ex_old_run :: string where
  "ex_old_run = ''20200101T000000Z-'' @ replicate 32 CHR ''a''"

definition ex_retention :: retention_env where
  "ex_retention = \<lparr>rt_runs = [''audit'', ''runs''], rt_days = 1,
     rt_stamp = (\<lambda>s. if s = ''20200101T000000Z'' then Some 0 else None), rt_clock = (\<lambda>_. 1000000 * 1000000),
     rt_facts = (\<lambda>p. \<lparr>pf_resolves = Some p, pf_exists = True, pf_directory = True, pf_link = False\<rparr>),
     rt_entries = [''notes'', ex_old_run], rt_removal = (\<lambda>_. True)\<rparr>"

definition ex_candidate :: retention_candidate where
  "ex_candidate = \<lparr>rn_path = [''audit'', ''runs'', ex_old_run], rn_created = 0\<rparr>"

lemma ex_old_run_created: "run_created_at ex_retention ex_old_run = Some 0"
  by (simp add: run_created_at_def after_dash_def ex_old_run_def ex_retention_def run_identifier_def is_hex_char_def numeral_eq_Suc)

lemma ex_notes_no_run: "run_created_at ex_retention ''notes'' = None"
  by (simp add: run_created_at_def after_dash_def)

lemma ex_found: "find_expired ex_retention = Inr [ex_candidate]"
proof -
  have "expired_entry ex_retention cutoff ''notes'' = []" for cutoff
    by (simp add: expired_entry_def ex_notes_no_run)
  moreover have "0 < cutoff \<Longrightarrow> expired_entry ex_retention cutoff ex_old_run = [ex_candidate]" for cutoff
    unfolding expired_entry_def ex_old_run_created by (simp add: ex_retention_def ex_candidate_def)
  moreover have "rt_entries ex_retention = [''notes'', ex_old_run]" by (simp add: ex_retention_def)
  moreover have "0 < rt_clock ex_retention 0 - days (rt_days ex_retention)" by (simp add: ex_retention_def days_def)
  moreover have "pf_exists (rt_facts ex_retention p) \<and> pf_directory (rt_facts ex_retention p) \<and> \<not> pf_link (rt_facts ex_retention p)" for p
    by (simp add: ex_retention_def)
  ultimately show ?thesis by (simp add: find_expired_def Let_def)
qed

theorem retention_plan_is_carried_out_witness:
  "delete_expired ex_retention [ex_candidate] [] = (Inr [rn_path ex_candidate], [rn_path ex_candidate])"
proof -
  have "distinct (rt_entries ex_retention)" by (simp add: ex_retention_def ex_old_run_def)
  from retention_plan_is_carried_out [OF ex_found this, of "rt_clock ex_retention"] show ?thesis
    by (simp add: ex_retention_def Let_def)
qed

theorem only_expired_runs_are_removed_witness:
  "\<exists>r removed. delete_expired ex_retention [ex_candidate] [] = (r, removed) \<and> [rn_path ex_candidate] = removed \<and>
     expired_run ex_retention 1 (rn_path ex_candidate)"
proof -
  have p: "rn_path ex_candidate = rt_runs ex_retention @ [ex_old_run]" by (simp add: ex_candidate_def ex_retention_def)
  have "is_still_safe ex_retention 0 ex_candidate"
    unfolding is_still_safe_def Let_def p name_of_snoc ex_old_run_created
    by (simp add: ex_retention_def ex_candidate_def days_def)
  then have "distinct (map rn_path [ex_candidate]) \<and> all_still_safe ex_retention 0 [ex_candidate]" by simp
  moreover have "rt_removal ex_retention (rn_path ex_candidate)" by (simp add: ex_retention_def)
  ultimately show ?thesis
    using only_expired_runs_are_removed [of ex_retention "[ex_candidate]"] by (auto simp: Let_def split: prod.splits)
qed

section \<open>The run lock\<close>

datatype lock_call = Take_Lock nat lock_io | Give_Lock nat

fun lock_step :: "lock_call \<Rightarrow> lock_state \<Rightarrow> lock_state" where
  "lock_step (Take_Lock i io) s = snd (acquire_lock i io s)"
| "lock_step (Give_Lock i) s = release_lock i s"

lemma lock_step_keeps: "lk_held s = set_option (lk_owner s) \<Longrightarrow> lk_held (lock_step c s) = set_option (lk_owner (lock_step c s))"
  by (cases c; cases "lk_owner s") (auto simp: acquire_lock_def release_lock_def)

lemma lock_steps_keep:
  "lk_held s = set_option (lk_owner s) \<Longrightarrow> lk_held (fold lock_step calls s) = set_option (lk_owner (fold lock_step calls s))"
  by (induction calls arbitrary: s) (auto simp: lock_step_keeps)

text \<open>
  Whatever lock objects acquire and release the run lock in whatever order, with whatever
  failures of the file system, at most one of them holds it and it has the lock of the
  operating system; acquiring succeeds exactly when no object holds it and nothing fails, a
  failed attempt changes nothing, and only the holder gives the lock back.
\<close>

theorem one_holder_of_the_run_lock:
  "let s = fold lock_step calls \<lparr>lk_held = {}, lk_owner = None\<rparr>; (r, t) = acquire_lock i io s; u = release_lock i s
   in lk_held s = set_option (lk_owner s) \<and> (r = Inr () \<longleftrightarrow> lk_owner s = None \<and> io = Io_Ok) \<and>
      t = (if r = Inr () then \<lparr>lk_held = {i}, lk_owner = Some i\<rparr> else s) \<and>
      u = (if lk_owner s = Some i then \<lparr>lk_held = {}, lk_owner = None\<rparr> else s)"
proof -
  let ?s = "fold lock_step calls \<lparr>lk_held = {}, lk_owner = None\<rparr>"
  have held: "lk_held ?s = set_option (lk_owner ?s)" by (rule lock_steps_keep) simp
  show ?thesis
  proof (cases "lk_owner ?s")
    case None
    then have "?s = \<lparr>lk_held = {}, lk_owner = None\<rparr>" using held by (cases ?s) simp
    then show ?thesis by (cases io) (simp_all add: acquire_lock_def release_lock_def)
  next
    case (Some j)
    then have "?s = \<lparr>lk_held = {j}, lk_owner = Some j\<rparr>" using held by (cases ?s) simp
    then show ?thesis by (simp add: acquire_lock_def release_lock_def)
  qed
qed

end
