(* ===== verification/Setup_Claims.thy ===== *)
theory Setup_Claims
  imports Readiness Operator_Claims
begin

text \<open>
  What holds of the console's set-up: only reviewed adapters are installed, what is ready
  is installed, one step is named, and no run keeps the run lock.
\<close>

section \<open>Capabilities\<close>

text \<open>
  C20. The console writes only through reviewed adapters. A live runner is installed only in
  live mode, bound to the pack of the one provider's adapters with a writer, whose digest is
  the accepted digest of the pack on file; preview adapters are installed only beyond
  plan-only, with the digest of the pack on file, which has evidence of supervised reads.
\<close>

theorem only_reviewed_adapters_are_installed:
  "case resolve_capabilities env mode entries of c \<Rightarrow>
     (\<forall>p \<in> set_option (cb_live c). mode = Live_Mode \<and> cb_preview c = Some p \<and>
       (\<exists>pack provide. load_contract env = Inr (Some pack) \<and> uc_status pack = Accepted_Pack \<and>
         uc_accepted pack = Some (contract_pack_digest (ce_sha env) (ce_iso env) p) \<and>
         entries = Inr [Provider provide] \<and> provide pack = Inr (Accepted_Adapters p))) \<and>
     (\<forall>p \<in> set_option (cb_preview c). mode \<noteq> Plan_Only \<and>
       (\<exists>pack provide a. load_contract env = Inr (Some pack) \<and> uc_status pack \<in> read_statuses \<and>
         contract_pack_digest (ce_sha env) (ce_iso env) p = contract_pack_digest (ce_sha env) (ce_iso env) pack \<and>
         entries = Inr [Provider provide] \<and> provide pack = Inr a \<and> bound_pack a = Some p))"
proof -
  let ?c = "resolve_capabilities env mode entries"
  have none: "cb_preview (unavailable st r) = None" "cb_live (unavailable st r) = None" for st r
    by (simp_all add: unavailable_def)
  have found: "\<exists>pack provide a. load_contract env = Inr (Some pack) \<and> entries = Inr [Provider provide] \<and>
      provide pack = Inr a \<and> mode \<noteq> Plan_Only \<and> ?c = admitted_adapters env mode pack a"
    if "cb_preview ?c \<noteq> None \<or> cb_live ?c \<noteq> None"
    using that unfolding resolve_capabilities_def discover_def
    by (auto simp: none and_then_def split: sum.splits if_splits option.splits list.splits entry_point.splits)
  have accepted: "uc_accepted pack = Some (contract_pack_digest (ce_sha env) (ce_iso env) pack)"
    if "load_contract env = Inr (Some pack)" "uc_status pack = Accepted_Pack" for pack
    using that by (auto simp: load_contract_def res_simps split: contract_file.splits if_splits)
  have same: "bound_pack (as_read_adapters a) = bound_pack a" for a by (cases a) auto
  have writer: "mutation_capable a \<Longrightarrow> bound_pack a = Some p \<Longrightarrow> a = Accepted_Adapters p" for a p by (cases a) auto
  have live: "mode = Live_Mode \<and> cb_preview ?c = Some p \<and>
       (\<exists>pack provide. load_contract env = Inr (Some pack) \<and> uc_status pack = Accepted_Pack \<and>
         uc_accepted pack = Some (contract_pack_digest (ce_sha env) (ce_iso env) p) \<and>
         entries = Inr [Provider provide] \<and> provide pack = Inr (Accepted_Adapters p))" if p: "cb_live ?c = Some p" for p
  proof -
    from p obtain pack provide a where a: "load_contract env = Inr (Some pack)" "entries = Inr [Provider provide]"
      "provide pack = Inr a" "mode \<noteq> Plan_Only" "?c = admitted_adapters env mode pack a" using found by auto
    have "mode \<noteq> Dry_Run_Mode" "uc_status pack = Accepted_Pack" "mutation_capable a" "bound_pack a = Some p"
      "contract_pack_digest (ce_sha env) (ce_iso env) p = contract_pack_digest (ce_sha env) (ce_iso env) pack"
      "cb_preview ?c = Some p"
      using p unfolding a(5) admitted_adapters_def by (auto simp: none Let_def same split: option.splits if_splits)
    then show ?thesis using a accepted [OF a(1)] writer by (cases mode) auto
  qed
  have preview: "mode \<noteq> Plan_Only \<and> (\<exists>pack provide a. load_contract env = Inr (Some pack) \<and> uc_status pack \<in> read_statuses \<and>
         contract_pack_digest (ce_sha env) (ce_iso env) p = contract_pack_digest (ce_sha env) (ce_iso env) pack \<and>
         entries = Inr [Provider provide] \<and> provide pack = Inr a \<and> bound_pack a = Some p)" if p: "cb_preview ?c = Some p" for p
  proof -
    from p obtain pack provide a where a: "load_contract env = Inr (Some pack)" "entries = Inr [Provider provide]"
      "provide pack = Inr a" "mode \<noteq> Plan_Only" "?c = admitted_adapters env mode pack a" using found by auto
    have "bound_pack a = Some p" "uc_status pack \<in> read_statuses"
      "contract_pack_digest (ce_sha env) (ce_iso env) p = contract_pack_digest (ce_sha env) (ce_iso env) pack"
      using p unfolding a(5) admitted_adapters_def
      by (auto simp: none Let_def same read_statuses_def split: option.splits if_splits)
    then show ?thesis using a by blast
  qed
  show ?thesis using live preview by auto
qed

section \<open>Readiness\<close>

lemma live_is_evidence:
  assumes "resolve_capabilities env mode entries = c" and "cb_live c \<noteq> None"
  shows "mode = Live_Mode \<and> (\<exists>pack. load_contract env = Inr (Some pack) \<and> uc_status pack = Accepted_Pack)"
proof -
  obtain pack provide a where a: "load_contract env = Inr (Some pack)" "mode \<noteq> Plan_Only"
      "provide pack = Inr a" "c = admitted_adapters env mode pack a"
    using assms by (auto simp: resolve_capabilities_def discover_def unavailable_def and_then_def
        split: sum.splits if_splits option.splits list.splits entry_point.splits)
  have "mode \<noteq> Dry_Run_Mode \<and> uc_status pack = Accepted_Pack"
    using assms(2) unfolding a(4) admitted_adapters_def
    by (auto simp: unavailable_def Let_def split: option.splits if_splits)
  with a show ?thesis by (cases mode) auto
qed

lemma preview_is_evidence:
  assumes "resolve_capabilities env mode entries = c" and "cb_preview c \<noteq> None"
  shows "\<exists>pack. load_contract env = Inr (Some pack) \<and> uc_status pack \<in> read_statuses"
proof -
  obtain pack provide a where a: "load_contract env = Inr (Some pack)" "provide pack = Inr a"
      "c = admitted_adapters env mode pack a"
    using assms by (auto simp: resolve_capabilities_def discover_def unavailable_def and_then_def
        split: sum.splits if_splits option.splits list.splits entry_point.splits)
  have "uc_status pack \<in> read_statuses"
    using assms(2) unfolding a(3) admitted_adapters_def
    by (auto simp: unavailable_def Let_def read_statuses_def split: option.splits if_splits)
  with a show ?thesis by blast
qed

lemma item_blocks [simp]:
  "ri_blocking (mode_item m) = False"
  "ri_blocking (directory_item name d setting) = (\<not> directory_is_accessible d)"
  "ri_blocking (identity_item name configured t setting required) = (required \<and> t = [])"
  "ri_blocking (evidence_item error ready required) = (required \<and> \<not> ready)"
  "ri_blocking (capability_item m caps required) =
     (required \<and> (case caps of None \<Rightarrow> True | Some c \<Rightarrow> if m = Dry_Run_Mode then cb_preview c = None else cb_live c = None))"
  by (simp_all add: mode_item_def directory_item_def identity_item_def evidence_item_def capability_item_def Let_def
      split: option.splits)

text \<open>
  Nothing blocks a launch exactly when it can do its work: the three directories can be
  listed and, beyond plan-only, both identities are configured and the adapters of the mode
  are installed; the interface evidence adds nothing to that.
\<close>

theorem nothing_blocks_iff_capable:
  assumes "caps = resolve_capabilities (re_contract env) (re_mode env) entries"
    and "collect_readiness env (Some caps) = Inr items"
  shows "list_all (\<lambda>i. \<not> ri_blocking i) items \<longleftrightarrow>
    directory_is_accessible (re_profile env) \<and> directory_is_accessible (re_audit env) \<and> directory_is_accessible (re_state env) \<and>
    (re_mode env = Plan_Only \<or> re_admin env \<noteq> [] \<and> re_domain env \<noteq> [] \<and>
      (if re_mode env = Dry_Run_Mode then cb_preview caps \<noteq> None else cb_live caps \<noteq> None))"
proof -
  have live: "cb_live caps \<noteq> None \<Longrightarrow> \<exists>pack. load_contract (re_contract env) = Inr (Some pack) \<and> uc_status pack = Accepted_Pack"
    using live_is_evidence [OF assms(1) [symmetric]] by blast
  have preview: "cb_preview caps \<noteq> None \<Longrightarrow> \<exists>pack. load_contract (re_contract env) = Inr (Some pack) \<and> uc_status pack \<in> read_statuses"
    using preview_is_evidence [OF assms(1) [symmetric]] by blast
  obtain contract error where c: "(case load_contract (re_contract env) of
         Inr loaded \<Rightarrow> Inr (loaded, None)
       | Inl e \<Rightarrow> if contract_error_shown e then Inr (None, Some (exn_name e)) else Inl e) = Inr (contract, error)"
    using assms(2) by (auto simp: collect_readiness_def)
  define ready where "ready = (case contract of None \<Rightarrow> False
     | Some p \<Rightarrow> uc_status p \<in> (if re_mode env = Dry_Run_Mode then read_statuses else {Accepted_Pack}) \<and> error = None)"
  have "\<exists>x1 x2 x3 x4 x5 x6. items = [mode_item (re_mode env), directory_item x1 (re_profile env) x2,
      directory_item x3 (re_audit env) x4, directory_item x5 (re_state env) x6,
      identity_item ''Administrator identity'' ''Expected administrator is configured.'' (re_admin env)
        ''CA_EXPECTED_ADMIN_EMAIL'' (re_mode env \<noteq> Plan_Only),
      identity_item ''Workspace identity'' ''Expected Workspace is configured.'' (re_domain env)
        ''CA_EXPECTED_WORKSPACE_DOMAIN'' (re_mode env \<noteq> Plan_Only),
      evidence_item error ready (re_mode env \<noteq> Plan_Only),
      capability_item (re_mode env) (Some caps) (re_mode env \<noteq> Plan_Only)]"
    using assms(2) unfolding collect_readiness_def c ready_def and_then_simps Let_def prod.case by blast
  then have items: "list_all (\<lambda>i. \<not> ri_blocking i) items \<longleftrightarrow>
    directory_is_accessible (re_profile env) \<and> directory_is_accessible (re_audit env) \<and> directory_is_accessible (re_state env) \<and>
    (re_mode env = Plan_Only \<or> re_admin env \<noteq> [] \<and> re_domain env \<noteq> [] \<and> ready \<and>
      (if re_mode env = Dry_Run_Mode then cb_preview caps \<noteq> None else cb_live caps \<noteq> None))"
    by (elim exE) auto
  have "ready" if "if re_mode env = Dry_Run_Mode then cb_preview caps \<noteq> None else cb_live caps \<noteq> None"
    using that live preview c by (auto simp: ready_def split: if_splits)
  then show ?thesis unfolding items by blast
qed

section \<open>Guided setup\<close>

lemma find_first:
  assumes "i < n"
  shows "find P [0 ..< n] = Some i \<longleftrightarrow> P i \<and> (\<forall>j < i. \<not> P j)"
  using assms by (auto simp: find_Some_iff)

lemma step_state_at:
  assumes "i < length measured"
  shows "step_states applicable measured ! i =
    (if 2 \<le> i \<and> \<not> applicable then Step_Not_Applicable
     else if measured ! i then Step_Complete
     else if \<forall>j < i. measured ! j then Step_Current else Step_Locked)"
proof -
  let ?complete = "map (\<lambda>i. measured ! i \<or> \<not> applicable \<and> 2 \<le> i) [0 ..< length measured]"
  let ?P = "\<lambda>i. \<not> ?complete ! i \<and> (applicable \<or> i < always_applicable_steps)"
  have "find ?P [0 ..< length measured] = Some i \<longleftrightarrow> \<not> measured ! i \<and> (\<forall>j < i. measured ! j)"
    if "\<not> (2 \<le> i \<and> \<not> applicable)"
    unfolding find_first [OF assms] using that assms by (auto simp: always_applicable_steps_def)
  with assms show ?thesis by (auto simp: step_states_def Let_def always_applicable_steps_def)
qed

lemma eight_readiness_items: "collect_readiness env caps = Inr items \<Longrightarrow> length items = 8"
  by (auto simp: collect_readiness_def Let_def res_simps split: prod.splits)

text \<open>
  The guide names one next step. It has five steps that show every readiness item once,
  in order; beyond plan-only a step is complete when nothing in it blocks, the first that
  is not is the current one and the later ones are locked; in plan-only the last three do
  not apply.
\<close>

theorem setup_names_the_next_step:
  assumes "build_setup_steps env caps = Inr steps"
  shows "length steps = 5 \<and> Inr (concat (map ss_readiness steps)) = collect_readiness env caps \<and>
    (\<forall>i < 5. ss_number (steps ! i) = i + 1 \<and> ss_state (steps ! i) =
      (if 2 \<le> i \<and> re_mode env = Plan_Only then Step_Not_Applicable
       else if list_all (\<lambda>x. \<not> ri_blocking x) (ss_readiness (steps ! i)) then Step_Complete
       else if \<forall>j < i. list_all (\<lambda>x. \<not> ri_blocking x) (ss_readiness (steps ! j)) then Step_Current else Step_Locked))"
proof -
  obtain items where items: "collect_readiness env caps = Inr items"
    using assms by (auto simp: build_setup_steps_def)
  define measured where "measured = map (\<lambda>(_, group, _, _). list_all (\<lambda>i. \<not> ri_blocking i) group) (setup_groups items)"
  define states where "states = step_states (re_mode env \<noteq> Plan_Only) measured"
  have five: "length (setup_groups items) = 5" by (simp add: setup_groups_def)
  have len_states: "length states = 5" by (simp add: states_def measured_def step_states_def Let_def five)
  have len: "length steps = 5" using assms items len_states by (auto simp: build_setup_steps_def Let_def five states_def measured_def)
  have at: "ss_number (steps ! i) = i + 1 \<and> ss_readiness (steps ! i) = fst (snd (setup_groups items ! i)) \<and>
      ss_state (steps ! i) = states ! i" if "i < 5" for i
    using assms items len_states that
    by (auto simp: build_setup_steps_def Let_def five case_prod_unfold states_def measured_def)
  have group: "measured ! j = list_all (\<lambda>x. \<not> ri_blocking x) (ss_readiness (steps ! j))" if "j < 5" for j
    using at [OF that] that five by (simp add: case_prod_unfold measured_def)
  have "map ss_readiness steps = map (\<lambda>g. fst (snd g)) (setup_groups items)"
    using len five at by (intro nth_equalityI) auto
  moreover have "concat (map (\<lambda>g. fst (snd g)) (setup_groups items)) = items"
    using eight_readiness_items [OF items] by (auto simp: setup_groups_def numeral_eq_Suc length_Suc_conv)
  moreover have "ss_state (steps ! i) =
      (if 2 \<le> i \<and> re_mode env = Plan_Only then Step_Not_Applicable
       else if list_all (\<lambda>x. \<not> ri_blocking x) (ss_readiness (steps ! i)) then Step_Complete
       else if \<forall>j < i. list_all (\<lambda>x. \<not> ri_blocking x) (ss_readiness (steps ! j)) then Step_Current else Step_Locked)"
    if i: "i < 5" for i
  proof -
    have earlier: "(\<forall>j < i. measured ! j) \<longleftrightarrow> (\<forall>j < i. list_all (\<lambda>x. \<not> ri_blocking x) (ss_readiness (steps ! j)))"
      using group i by auto
    have here: "i < length measured" using i five by (simp add: measured_def)
    have "ss_state (steps ! i) = step_states (re_mode env \<noteq> Plan_Only) measured ! i"
      using at [OF i] by (simp add: states_def)
    then show ?thesis unfolding step_state_at [OF here] earlier group [OF i] by simp
  qed
  ultimately show ?thesis using len items at by auto
qed

section \<open>An accepted pack\<close>

definition ex_pack_digest :: string where
  "ex_pack_digest = replicate 64 CHR ''a''"

definition ex_pack :: contract_pack where
  "ex_pack = \<lparr>uc_id = 7, uc_created = Aware 0, uc_status = Accepted_Pack, uc_fixtures = [ex_pack_digest],
     uc_names = [''blocked_senders''], uc_accepted = Some ex_pack_digest\<rparr>"

definition ex_contracts :: contract_env where
  "ex_contracts = \<lparr>ce_sha = (\<lambda>_. ex_pack_digest), ce_iso = (\<lambda>_. []), ce_file = Pack_File ex_pack\<rparr>"

definition ex_entries :: "entry_point list res" where
  "ex_entries = Inr [Provider (\<lambda>p. Inr (Accepted_Adapters p))]"

definition ex_directory :: directory_facts where
  "ex_directory = \<lparr>df_text = ''/data'', df_exists = True, df_lists = True\<rparr>"

definition ex_ready :: readiness_env where
  "ex_ready = \<lparr>re_mode = Live_Mode, re_profile = ex_directory, re_audit = ex_directory, re_state = ex_directory,
     re_admin = ''admin@example.org'', re_domain = ''example.org'', re_contract = ex_contracts\<rparr>"

definition ex_capabilities :: capabilities where
  "ex_capabilities = \<lparr>cb_preview = Some ex_pack, cb_live = Some ex_pack, cb_status = Some Accepted_Pack, cb_reason = None\<rparr>"

lemma ex_pack_digest_ok: "sha256_digest ex_pack_digest"
  by (simp add: ex_pack_digest_def sha256_digest_def is_hex_char_def list_all_iff)

lemma ex_pack_loads: "load_contract ex_contracts = Inr (Some ex_pack)"
  by (simp add: load_contract_def ex_contracts_def make_contract_pack_def contract_pack_digest_def ex_pack_def ex_pack_digest_ok
      digest_or_none_def)

lemma ex_pack_admitted: "resolve_capabilities ex_contracts Live_Mode ex_entries = ex_capabilities"
  by (simp add: resolve_capabilities_def discover_def ex_pack_loads ex_entries_def admitted_adapters_def Let_def
      ex_capabilities_def ex_pack_def)

theorem only_reviewed_adapters_are_installed_witness:
  "\<exists>p \<in> set_option (cb_live (resolve_capabilities ex_contracts Live_Mode ex_entries)).
     uc_accepted ex_pack = Some (contract_pack_digest (ce_sha ex_contracts) (ce_iso ex_contracts) p)"
  using only_reviewed_adapters_are_installed [of ex_contracts Live_Mode ex_entries]
  by (auto simp: ex_pack_admitted ex_capabilities_def ex_pack_loads)

lemma ex_all_ready:
  "\<exists>items. collect_readiness ex_ready (Some ex_capabilities) = Inr items"
  by (simp add: collect_readiness_def ex_ready_def ex_pack_loads Let_def)

theorem nothing_blocks_iff_capable_witness:
  "\<exists>items. collect_readiness ex_ready (Some ex_capabilities) = Inr items \<and> list_all (\<lambda>i. \<not> ri_blocking i) items"
proof -
  obtain items where items: "collect_readiness ex_ready (Some ex_capabilities) = Inr items" using ex_all_ready by blast
  have "ex_capabilities = resolve_capabilities (re_contract ex_ready) (re_mode ex_ready) ex_entries"
    by (simp add: ex_ready_def ex_pack_admitted)
  from nothing_blocks_iff_capable [OF this items] items show ?thesis
    by (simp add: ex_ready_def directory_is_accessible_def ex_directory_def ex_capabilities_def)
qed

theorem setup_names_the_next_step_witness:
  "\<exists>steps. build_setup_steps ex_ready None = Inr steps \<and> length steps = 5 \<and> ss_state (steps ! 4) \<noteq> Step_Not_Applicable"
proof -
  have "\<exists>items. collect_readiness ex_ready None = Inr items"
    by (simp add: collect_readiness_def ex_ready_def ex_pack_loads Let_def)
  then obtain steps where steps: "build_setup_steps ex_ready None = Inr steps" by (auto simp: build_setup_steps_def Let_def)
  from setup_names_the_next_step [OF this] have "length steps = 5" "ss_state (steps ! 4) \<noteq> Step_Not_Applicable"
    by (simp_all add: ex_ready_def)
  with steps show ?thesis by blast
qed

section \<open>Runs and the run lock\<close>

lemma under_lock_keeps:
  assumes "lk_held s = set_option (lk_owner s)" and "under_lock i io fault s = (r, t)"
  shows "if r = Inr () then lk_owner s = None \<and> t = \<lparr>lk_held = {i}, lk_owner = Some i\<rparr> else t = s"
proof (cases "lk_owner s")
  case None
  then have "s = \<lparr>lk_held = {}, lk_owner = None\<rparr>" using assms(1) by (cases s) simp
  with assms(2) show ?thesis
    by (cases io; cases fault) (auto simp: under_lock_def acquire_lock_def release_lock_def andthen_def bind_def)
next
  case (Some j)
  then have "s = \<lparr>lk_held = {j}, lk_owner = Some j\<rparr>" using assms(1) by (cases s) simp
  with assms(2) show ?thesis
    by (cases io; cases fault) (auto simp: under_lock_def acquire_lock_def andthen_def bind_def split: if_splits)
qed

lemma compose_live_keeps:
  assumes "lk_held s = set_option (lk_owner s)" and "compose_compliance_runtime mode pack i io fault s = (r, t)"
  shows "if r = Inr () then mode = Live_Mode \<and> uc_status pack = Accepted_Pack \<and> lk_owner s = None \<and> t = \<lparr>lk_held = {i}, lk_owner = Some i\<rparr> else t = s"
  using assms(2) under_lock_keeps [OF assms(1), of i io fault r t]
  by (auto simp: compose_compliance_runtime_def split: if_splits)

lemma compose_dry_keeps:
  assumes "lk_held s = set_option (lk_owner s)" and "compose_dry_run_runtime mode pack i io fault s = (r, t)"
  shows "if r = Inr () then mode \<noteq> Plan_Only \<and> uc_status pack \<in> read_statuses \<and> lk_owner s = None \<and> t = \<lparr>lk_held = {i}, lk_owner = Some i\<rparr> else t = s"
  using assms(2) under_lock_keeps [OF assms(1), of i io fault r t]
  by (cases mode) (auto simp: compose_dry_run_runtime_def split: if_splits)

text \<open>
  C34. Every run gives the run lock back. After any use of the lock, composing the
  live runtime succeeds only in live mode with an accepted pack and while nobody holds the
  lock, and then the runtime holds it; when composing fails, and when a preview or a live
  run has ended, by a result or an exception, the lock is as it was before.
\<close>

theorem runs_give_the_lock_back:
  "let s = fold lock_step calls \<lparr>lk_held = {}, lk_owner = None\<rparr>;
       (r, t) = compose_compliance_runtime mode pack i io fault s
   in (if r = Inr () then mode = Live_Mode \<and> uc_status pack = Accepted_Pack \<and> lk_owner s = None \<and> lk_owner t = Some i else t = s) \<and>
      snd (injected_execute mode pack i io fault plan first second s) = s \<and>
      snd (injected_preview mode pack i io fault outcome s) = s"
proof -
  let ?s = "fold lock_step calls \<lparr>lk_held = {}, lk_owner = None\<rparr>"
  have good: "lk_held ?s = set_option (lk_owner ?s)" by (rule lock_steps_keep) simp
  have same: "lk_owner ?s = None \<Longrightarrow> ?s = \<lparr>lk_held = {}, lk_owner = None\<rparr>" using good by (cases ?s) simp
  obtain r t where live: "compose_compliance_runtime mode pack i io fault ?s = (r, t)" by fastforce
  obtain q u where dry: "compose_dry_run_runtime mode pack i io fault ?s = (q, u)" by fastforce
  note kept = compose_live_keeps [OF good live] compose_dry_keeps [OF good dry]
  have "snd (injected_execute mode pack i io fault plan first second ?s) = ?s"
    using kept(1) live same
    by (cases r) (auto simp: injected_execute_def andthen_def bind_def close_runtime_def release_lock_def split: if_splits)
  moreover have "snd (injected_preview mode pack i io fault outcome ?s) = ?s"
    using kept(2) dry same
    by (cases q) (auto simp: injected_preview_def andthen_def bind_def close_runtime_def release_lock_def split: if_splits)
  ultimately show ?thesis using kept(1) live by (auto simp: Let_def)
qed

end
