(* ===== verification/Settings_Claims.thy ===== *)
theory Settings_Claims
  imports Local_Settings
begin

text \<open>
  What holds of the settings: the console edits only what it names in the configuration
  file, and accepted settings are safe to start with.
\<close>

section \<open>The lines of the file\<close>

definition keeps_line :: "string set \<Rightarrow> string \<Rightarrow> bool" where
  "keeps_line keys line \<longleftrightarrow> (case assignment_key line of None \<Rightarrow> True | Some k \<Rightarrow> k \<notin> keys)"

definition assigning :: "string \<Rightarrow> string list \<Rightarrow> string list" where
  "assigning k lines = filter (\<lambda>l. assignment_key l = Some k) lines"

lemma key_of_assign: "k \<in> editable_keys \<Longrightarrow> assignment_key (assign k v) = Some k"
  by (auto simp: editable_keys_def assign_def assignment_key_def py_space_def key_char_def)

lemma keys_apart: "k \<in> editable_keys \<Longrightarrow> k \<notin> legacy_run_mode_keys"
  by (auto simp: editable_keys_def legacy_run_mode_keys_def)

lemma assigning_append [simp]: "assigning k (xs @ ys) = assigning k xs @ assigning k ys"
  by (simp add: assigning_def)

lemma assigning_Nil [simp]: "assigning k [] = []"
  by (simp add: assigning_def)

text \<open>What the loop has done after some lines.\<close>

definition edited :: "assignments \<Rightarrow> string set \<Rightarrow> string list \<Rightarrow> string list \<times> string list \<Rightarrow> bool" where
  "edited vals remove lines = (\<lambda>(out, written).
     filter (keeps_line (fst ` set vals \<union> remove)) out = filter (keeps_line (fst ` set vals \<union> remove)) lines \<and>
     set written \<subseteq> fst ` set vals \<and> (\<forall>k \<in> remove. assigning k out = []) \<and>
     (\<forall>k v. dict_get vals k = Some v \<longrightarrow> assigning k out = (if k \<in> set written then [assign k v] else [])))"

lemma edited_step:
  assumes "edited vals remove lines s" and "fst ` set vals \<subseteq> editable_keys" and "remove \<subseteq> legacy_run_mode_keys"
  shows "edited vals remove (lines @ [l]) (update_line vals remove l s)"
proof (cases s)
  case (Pair out written)
  show ?thesis
  proof (cases "assignment_key l")
    case None
    with assms(1) Pair show ?thesis by (auto simp: edited_def update_line_def keeps_line_def assigning_def)
  next
    case (Some k)
    have apart: "k \<in> fst ` set vals \<Longrightarrow> k \<notin> remove" for k using assms(2,3) keys_apart by blast
    show ?thesis
    proof (cases "dict_get vals k")
      case None
      then have "k \<notin> fst ` set vals" by (simp add: map_of_eq_None_iff)
      with Some None assms(1) Pair show ?thesis
        by (auto simp: edited_def update_line_def keeps_line_def assigning_def)
    next
      case (Some v)
      then have k: "k \<in> fst ` set vals" by (force dest: map_of_SomeD)
      have key: "assignment_key (assign k v) = Some k" using k assms(2) key_of_assign by blast
      show ?thesis using Some \<open>assignment_key l = Some k\<close> k key apart [OF k] assms(1) Pair
        by (auto simp: edited_def update_line_def keeps_line_def assigning_def split: if_splits)
    qed
  qed
qed

lemma edited_lines:
  assumes "fst ` set vals \<subseteq> editable_keys" and "remove \<subseteq> legacy_run_mode_keys"
  shows "edited vals remove lines (fold (update_line vals remove) lines ([], []))"
proof (induction lines rule: rev_induct)
  case Nil
  then show ?case by (simp add: edited_def)
next
  case (snoc l lines)
  from edited_step [OF this assms] show ?case by simp
qed

lemma assigning_missing:
  assumes "distinct (map fst vals)" and "fst ` set vals \<subseteq> editable_keys" and "dict_get vals k = Some v"
  shows "assigning k (map (\<lambda>(key, value). assign key value) (missing_keys vals written)) =
    (if k \<in> set written then [] else [assign k v])"
  using assms
proof (induction vals)
  case (Cons p vs)
  obtain j w where p: "p = (j, w)" by fastforce
  have keys: "assignment_key (assign a b) = Some a" if "(a, b) \<in> set (p # vs)" for a b
    using that Cons.prems(2) key_of_assign by force
  show ?case
  proof (cases "j = k")
    case True
    then have "w = v" "k \<notin> fst ` set vs" using Cons.prems p by auto
    then have "assigning k (map (\<lambda>(key, value). assign key value) (missing_keys vs written)) = []"
      using keys by (auto simp: assigning_def missing_keys_def filter_empty_conv) force
    with True \<open>w = v\<close> keys [of k v] p show ?thesis by (auto simp: missing_keys_def assigning_def)
  next
    case False
    then have "dict_get vs k = Some v" using Cons.prems(3) p by auto
    from Cons.IH [OF _ _ this] Cons.prems(1,2) False keys [of j w] p show ?thesis
      by (auto simp: missing_keys_def assigning_def)
  qed
qed simp

text \<open>The new lines: the others as they were, each value once, nothing removed left.\<close>

lemma updated_lines_exact:
  fixes lines :: "string list"
  assumes "distinct (map fst vals)" and "fst ` set vals \<subseteq> editable_keys" and "remove \<subseteq> legacy_run_mode_keys"
  defines "new \<equiv> updated_lines vals remove lines"
  shows "\<exists>blank \<in> {[], [[]]}. filter (keeps_line (fst ` set vals \<union> remove)) new =
      filter (keeps_line (fst ` set vals \<union> remove)) lines @ blank"
    and "dict_get vals k = Some v \<Longrightarrow> assigning k new = [assign k v]"
    and "k \<in> remove \<Longrightarrow> assigning k new = []"
proof -
  obtain out written where f: "fold (update_line vals remove) lines ([], []) = (out, written)" by fastforce
  have e: "edited vals remove lines (out, written)" using edited_lines [OF assms(2,3), of lines] f by simp
  let ?missing = "map (\<lambda>(key, value). assign key value) (missing_keys vals written)"
  have none: "assignment_key [] = None" by (simp add: assignment_key_def)
  obtain blank where blank: "blank \<in> {[], [[]]}" "new = (out @ blank) @ ?missing"
    unfolding new_def updated_lines_def f Let_def prod.case by (cases "missing_keys vals written \<noteq> [] \<and> out \<noteq> [] \<and> last out \<noteq> []") auto
  have pairs: "assignment_key l \<in> Some ` fst ` set vals" if "l \<in> set ?missing" for l
    using that assms(2) key_of_assign by (force simp: missing_keys_def)
  have others: "filter (keeps_line (fst ` set vals \<union> remove)) ?missing = []"
    unfolding filter_empty_conv using pairs by (force simp: keeps_line_def)
  have "filter (keeps_line (fst ` set vals \<union> remove)) blank = blank"
    using blank(1) none by (auto simp: keeps_line_def)
  with blank others e show "\<exists>blank \<in> {[], [[]]}. filter (keeps_line (fst ` set vals \<union> remove)) new =
      filter (keeps_line (fst ` set vals \<union> remove)) lines @ blank" by (auto simp: edited_def)
  have split: "assigning k new = assigning k out @ assigning k ?missing" for k
    using blank(1) none unfolding blank(2) by (auto simp: assigning_def)
  show "dict_get vals k = Some v \<Longrightarrow> assigning k new = [assign k v]"
    using e assigning_missing [OF assms(1,2), of k v written] by (simp add: edited_def split)
  show "assigning k new = []" if k: "k \<in> remove"
  proof -
    have "assigning k ?missing = []"
      unfolding assigning_def filter_empty_conv using k pairs assms(2,3) keys_apart by force
    with k e show "assigning k new = []" by (auto simp: edited_def split)
  qed
qed

text \<open>Lines that already say what is asked for stay.\<close>

lemma update_settled:
  assumes "\<And>k v. dict_get vals k = Some v \<Longrightarrow> assigning k lines = [assign k v]" and "\<And>k. k \<in> remove \<Longrightarrow> assigning k lines = []"
  shows "updated_lines vals remove lines = lines"
proof -
  have loop: "fold (update_line vals remove) ls (done, written) = (done @ ls, written @ map (the \<circ> assignment_key)
        (filter (\<lambda>l. \<exists>k v. assignment_key l = Some k \<and> dict_get vals k = Some v) ls))"
    if "\<And>k v. dict_get vals k = Some v \<Longrightarrow> assigning k ls = (if k \<in> set written then [] else [assign k v])"
      "\<And>k. k \<in> remove \<Longrightarrow> assigning k ls = []" for ls "done" written
    using that
  proof (induction ls arbitrary: "done" written)
    case (Cons l ls)
    show ?case
    proof (cases "\<exists>k v. assignment_key l = Some k \<and> dict_get vals k = Some v")
      case False
      have rest: "\<And>k v. dict_get vals k = Some v \<Longrightarrow> assigning k ls = (if k \<in> set written then [] else [assign k v])"
        subgoal for k v using Cons.prems(1) [of k v] False by (simp add: assigning_def split: if_splits) done
      have gone: "\<And>k. k \<in> remove \<Longrightarrow> assigning k ls = []" "\<And>k. assignment_key l = Some k \<Longrightarrow> k \<notin> remove"
        subgoal for k using Cons.prems(2) [of k] by (simp add: assigning_def split: if_splits)
        subgoal for k using Cons.prems(2) [of k] by (auto simp: assigning_def)
        done
      have "update_line vals remove l (done, written) = (done @ [l], written)"
        using False gone(2) by (auto simp: update_line_def split: option.splits)
      with Cons.IH [OF rest gone(1), of "done @ [l]"] False show ?thesis by simp
    next
      case True
      then obtain k v where k: "assignment_key l = Some k" "dict_get vals k = Some v" by blast
      have l: "k \<notin> set written" "l = assign k v" "assigning k ls = []"
        using Cons.prems(1) [OF k(2)] k(1) by (auto simp: assigning_def split: if_splits)
      have rest: "assigning j ls = (if j \<in> set (written @ [k]) then [] else [assign j w])" if "dict_get vals j = Some w" for j w
        using Cons.prems(1) [OF that] k l by (auto simp: assigning_def split: if_splits)
      have gone: "\<And>j. j \<in> remove \<Longrightarrow> assigning j ls = []" "k \<notin> remove"
        subgoal for j using Cons.prems(2) [of j] by (simp add: assigning_def split: if_splits)
        subgoal using Cons.prems(2) [of k] k by (auto simp: assigning_def)
        done
      have "update_line vals remove l (done, written) = (done @ [l], written @ [k])"
        using k l gone(2) by (simp add: update_line_def)
      with Cons.IH [OF rest gone(1), of "done @ [l]"] k show ?thesis by simp
    qed
  qed simp
  let ?written = "map (the \<circ> assignment_key) (filter (\<lambda>l. \<exists>k v. assignment_key l = Some k \<and> dict_get vals k = Some v) lines)"
  have run: "fold (update_line vals remove) lines ([], []) = (lines, ?written)"
    using loop [of lines "[]" "[]"] assms by simp
  have "k \<in> set ?written" if kv: "(k, v) \<in> set vals" for k v
  proof -
    obtain w where w: "dict_get vals k = Some w" using weak_map_of_SomeI [OF kv] by blast
    then have "assign k w \<in> set (assigning k lines)" using assms(1) by simp
    with w show ?thesis by (force simp: assigning_def)
  qed
  then have "missing_keys vals ?written = []" by (auto simp: missing_keys_def filter_empty_conv)
  then show ?thesis unfolding updated_lines_def run by (simp add: Let_def)
qed

section \<open>The file\<close>

definition file_lines :: "config_file \<Rightarrow> string list" where
  "file_lines f = (case cf_content f of None \<Rightarrow> [] | Some c \<Rightarrow> split_lines (universal_newlines c))"

definition unbroken :: "string \<Rightarrow> bool" where
  "unbroken s \<longleftrightarrow> (\<forall>c \<in> set s. \<not> is_line_break c)"

lemma no_return_left: "CHR 0x0D \<notin> set (universal_newlines s)"
  by (induction s rule: universal_newlines.induct) auto

lemma universal_newlines_plain: "CHR 0x0D \<notin> set s \<Longrightarrow> universal_newlines s = s"
  by (induction s rule: universal_newlines.induct) auto

lemma unbroken_Nil [simp]: "unbroken []"
  by (simp add: unbroken_def)

lemma unbroken_Cons [simp]: "unbroken (c # cs) \<longleftrightarrow> \<not> is_line_break c \<and> unbroken cs"
  by (auto simp: unbroken_def)

lemma unbroken_append: "unbroken (xs @ ys) \<longleftrightarrow> unbroken xs \<and> unbroken ys"
  by (auto simp: unbroken_def)

lemma editable_unbroken: "k \<in> editable_keys \<Longrightarrow> unbroken k"
  by (auto simp: editable_keys_def is_line_break_def)

lemma split_lines_unbroken: "list_all unbroken (split_lines s)"
proof (induction s rule: split_lines.induct)
  case (3 c d cs)
  show ?case
  proof (cases "c = CHR 0x0D \<and> d = CHR 0x0A")
    case True
    then show ?thesis using "3.IH"(1) by simp
  next
    case pair: False
    show ?thesis
    proof (cases "is_line_break c")
      case True
      have "split_lines (c # d # cs) = [] # split_lines (d # cs)" using pair True by auto
      then show ?thesis using "3.IH"(2) [OF pair True] by simp
    next
      case False
      have "split_lines (c # d # cs) = (case split_lines (d # cs) of [] \<Rightarrow> [[c]] | l # ls \<Rightarrow> (c # l) # ls)"
        using pair False by auto
      then show ?thesis using "3.IH"(3) [OF pair False] False by (auto split: list.splits)
    qed
  qed
qed simp_all

lemma newline_breaks: "is_line_break (CHR 0x0A)" "is_line_break (CHR 0x0D)"
  by (simp_all add: is_line_break_def)

lemma split_written:
  assumes "\<forall>l \<in> set ls. unbroken l"
  shows "split_lines (py_join [CHR 0x0A] ls @ [CHR 0x0A]) = (if ls = [] then [[]] else ls)"
  using assms
proof (induction ls rule: induct_list012)
  case 1
  show ?case by (simp add: is_line_break_def)
next
  case (2 x)
  then show ?case using split_lines_line [of x "[]"] by (simp add: unbroken_def)
next
  case (3 x y ys)
  then have "split_lines (py_join [CHR 0x0A] (y # ys) @ [CHR 0x0A]) = y # ys" by simp
  moreover have "\<forall>c \<in> set x. \<not> is_line_break c" using 3 by (simp add: unbroken_def)
  ultimately show ?case using split_lines_line [of x "py_join [CHR 0x0A] (y # ys) @ [CHR 0x0A]"] by simp
qed

lemma updated_lines_unbroken:
  assumes "\<forall>l \<in> set lines. unbroken l" and "fst ` set vals \<subseteq> editable_keys" and "\<forall>(k, v) \<in> set vals. unbroken v"
    and "l \<in> set (updated_lines vals remove lines)"
  shows "unbroken l"
proof -
  have said: "unbroken (assign k v)" if "(k, v) \<in> set vals" for k v
  proof -
    have "k \<in> editable_keys" using assms(2) that by force
    then have "unbroken k" by (rule editable_unbroken)
    with that assms(3) show ?thesis by (auto simp: unbroken_append assign_def is_line_break_def)
  qed
  have "\<forall>l \<in> set (fst (fold (update_line vals remove) ls (out, written))). unbroken l"
    if "\<forall>l \<in> set ls. unbroken l" "\<forall>l \<in> set out. unbroken l" for ls out written
    using that
  proof (induction ls arbitrary: out written)
    case (Cons l ls)
    obtain out' written' where step: "update_line vals remove l (out, written) = (out', written')" by fastforce
    have "\<forall>x \<in> set out'. unbroken x"
      using step Cons.prems said [OF map_of_SomeD] by (auto simp: update_line_def split: option.splits if_splits)
    with Cons step show ?case by simp
  qed simp
  from this [of lines "[]" "[]"] assms(1)
  obtain out written where f: "fold (update_line vals remove) lines ([], []) = (out, written)" "\<forall>l \<in> set out. unbroken l"
    by (cases "fold (update_line vals remove) lines ([], [])") auto
  have "unbroken []" by (simp add: unbroken_def)
  with assms(4) f said show ?thesis
    by (auto simp: updated_lines_def Let_def missing_keys_def split: if_splits)
qed

text \<open>What a successful update leaves.\<close>

lemma update_config_result:
  assumes "update_config vals remove None f = (Inr (), g)" and "\<forall>(k, v) \<in> set vals. unbroken v"
  shows "fst ` set vals \<subseteq> editable_keys" "remove \<subseteq> legacy_run_mode_keys" "\<not> cf_link f"
    and "g = f\<lparr>cf_content := Some (py_join [CHR 0x0A] (updated_lines vals remove (file_lines f)) @ [CHR 0x0A])\<rparr>"
    and "file_lines g = (let new = updated_lines vals remove (file_lines f) in if new = [] then [[]] else new)"
    and "CHR 0x0D \<notin> set (the (cf_content g))"
proof -
  let ?existing = "case cf_content f of None \<Rightarrow> [] | Some c \<Rightarrow> universal_newlines c"
  have plain: "\<not> py_contains ?existing [CHR 0x0D, CHR 0x0A]"
    using no_return_left by (auto simp: py_contains_iff split: option.splits) (metis in_set_conv_decomp)
  have lines: "split_lines ?existing = file_lines f" by (simp add: file_lines_def split: option.splits)
  show keys: "fst ` set vals \<subseteq> editable_keys" "remove \<subseteq> legacy_run_mode_keys" "\<not> cf_link f"
    using assms(1) by (auto simp: update_config_def split: if_splits)
  let ?new = "updated_lines vals remove (file_lines f)"
  show g: "g = f\<lparr>cf_content := Some (py_join [CHR 0x0A] ?new @ [CHR 0x0A])\<rparr>"
    using assms(1) keys plain lines by (auto simp: update_config_def Let_def split: if_splits)
  have "\<forall>l \<in> set (file_lines f). unbroken l"
    using split_lines_unbroken by (auto simp: file_lines_def list_all_iff split: option.splits)
  then have unbroken: "\<forall>l \<in> set ?new. unbroken l" using updated_lines_unbroken keys(1) assms(2) by blast
  have "set (py_join [CHR 0x0A] ls) \<subseteq> insert (CHR 0x0A) (\<Union>(set ` set ls))" for ls
    by (induction ls rule: induct_list012) auto
  then have "CHR 0x0D \<notin> set (py_join [CHR 0x0A] ?new @ [CHR 0x0A])"
    using unbroken newline_breaks by (fastforce simp: unbroken_def)
  with g show "CHR 0x0D \<notin> set (the (cf_content g))"
    and "file_lines g = (let new = ?new in if new = [] then [[]] else new)"
    using split_written [OF unbroken] by (simp_all add: file_lines_def universal_newlines_plain Let_def)
qed

text \<open>
  C35. The console edits only what it names. After an update that succeeds every given key is
  assigned once, to its value; no removed key is assigned; every other line is there as
  before, in order, but for one blank line; a second update changes nothing, and the lines
  end with newlines alone, whatever they ended with before.
\<close>

theorem configuration_update_is_exact:
  assumes "update_config vals remove None f = (Inr (), g)" and "distinct (map fst vals)" and "\<forall>(k, v) \<in> set vals. unbroken v"
  shows "(\<forall>(k, v) \<in> set vals. assigning k (file_lines g) = [assign k v]) \<and> (\<forall>k \<in> remove. assigning k (file_lines g) = []) \<and>
    (\<exists>blank \<in> {[], [[]]}. filter (keeps_line (fst ` set vals \<union> remove)) (file_lines g) =
      filter (keeps_line (fst ` set vals \<union> remove)) (file_lines f) @ blank) \<and>
    update_config vals remove None g = (Inr (), g) \<and> CHR 0x0D \<notin> set (the (cf_content g))"
proof -
  note result = update_config_result [OF assms(1,3)]
  let ?new = "updated_lines vals remove (file_lines f)"
  note exact = updated_lines_exact [OF assms(2) result(1,2), where lines = "file_lines f"]
  have none: "assignment_key [] = None" by (simp add: assignment_key_def)
  have same: "assigning k (file_lines g) = assigning k ?new" for k
    unfolding result(5) using none by (auto simp: Let_def assigning_def)
  have given: "assigning k ?new = [assign k v]" if "dict_get vals k = Some v" for k v by (rule exact(2) [OF that])
  have "\<exists>blank \<in> {[], [[]]}. filter (keeps_line (fst ` set vals \<union> remove)) (file_lines g) =
      filter (keeps_line (fst ` set vals \<union> remove)) (file_lines f) @ blank"
    using exact(1) none unfolding result(5) by (auto simp: Let_def keeps_line_def)
  moreover have "updated_lines vals remove (file_lines g) = file_lines g"
    by (rule update_settled) (simp_all add: same given exact(3))
  then have "update_config vals remove None g = (Inr (), g)"
  proof -
    assume settled: "updated_lines vals remove (file_lines g) = file_lines g"
    have link: "\<not> cf_link g" using result(3,4) by simp
    obtain c where c: "cf_content g = Some c" using result(4) by auto
    have plain: "universal_newlines c = c" using result(6) c by (simp add: universal_newlines_plain)
    have lines: "split_lines c = file_lines g" by (simp add: file_lines_def c plain)
    have "\<not> py_contains c [CHR 0x0D, CHR 0x0A]" using result(6) c by (auto simp: py_contains_iff)
    moreover have "py_join [CHR 0x0A] (file_lines g) @ [CHR 0x0A] = c"
      using result(4) c unfolding result(5) by (auto simp: Let_def)
    ultimately have "update_config vals remove None g = (Inr (), g\<lparr>cf_content := Some c\<rparr>)"
      using result(1,2) link c plain lines settled by (simp add: update_config_def Let_def)
    with c show ?thesis by (metis config_file.surjective config_file.update_convs(2))
  qed
  moreover have "dict_get vals k = Some v" if "(k, v) \<in> set vals" for k v using that assms(2) by simp
  ultimately show ?thesis using same given exact(3) result(6) by auto
qed

definition ex_env_file :: config_file where
  "ex_env_file = \<lparr>cf_link = False, cf_content = Some (''# CA_RUN_MODE=live'' @ [CHR 0x0D, CHR 0x0A] @ ''CA_PLAN_ONLY=true'' @
     [CHR 0x0D, CHR 0x0A] @ ''CA_CONSOLE_PORT=8765'')\<rparr>"

definition ex_env_saved :: config_file where
  "ex_env_saved = \<lparr>cf_link = False, cf_content = Some (''CA_RUN_MODE=dry_run'' @ [CHR 0x0A] @ ''CA_CONSOLE_PORT=8765'' @ [CHR 0x0A])\<rparr>"

lemma ex_env_update:
  "update_config [(''CA_RUN_MODE'', ''dry_run'')] legacy_run_mode_keys None ex_env_file = (Inr (), ex_env_saved)"
proof -
  have read: "universal_newlines (the (cf_content ex_env_file)) =
      ''# CA_RUN_MODE=live'' @ [CHR 0x0A] @ ''CA_PLAN_ONLY=true'' @ [CHR 0x0A] @ ''CA_CONSOLE_PORT=8765''"
    by code_simp
  have lines: "split_lines (''# CA_RUN_MODE=live'' @ [CHR 0x0A] @ ''CA_PLAN_ONLY=true'' @ [CHR 0x0A] @ ''CA_CONSOLE_PORT=8765'') =
      [''# CA_RUN_MODE=live'', ''CA_PLAN_ONLY=true'', ''CA_CONSOLE_PORT=8765'']"
    by code_simp
  have keys: "assignment_key ''# CA_RUN_MODE=live'' = Some ''CA_RUN_MODE''" "assignment_key ''CA_PLAN_ONLY=true'' = Some ''CA_PLAN_ONLY''"
    "assignment_key ''CA_CONSOLE_PORT=8765'' = Some ''CA_CONSOLE_PORT''"
    by code_simp+
  have new: "updated_lines [(''CA_RUN_MODE'', ''dry_run'')] legacy_run_mode_keys
      [''# CA_RUN_MODE=live'', ''CA_PLAN_ONLY=true'', ''CA_CONSOLE_PORT=8765''] = [''CA_RUN_MODE=dry_run'', ''CA_CONSOLE_PORT=8765'']"
    by (simp add: updated_lines_def update_line_def keys missing_keys_def legacy_run_mode_keys_def assign_def)
  have no_return: "\<not> py_contains (''# CA_RUN_MODE=live'' @ [CHR 0x0A] @ ''CA_PLAN_ONLY=true'' @ [CHR 0x0A] @ ''CA_CONSOLE_PORT=8765'')
      [CHR 0x0D, CHR 0x0A]"
    by code_simp
  obtain c where c: "cf_content ex_env_file = Some c" by (simp add: ex_env_file_def)
  have "\<not> cf_link ex_env_file" by (simp add: ex_env_file_def)
  then show ?thesis
    using read lines new no_return c
    by (simp add: update_config_def editable_keys_def Let_def ex_env_saved_def ex_env_file_def del: append.simps)
qed

theorem configuration_update_is_exact_witness:
  "update_config [(''CA_RUN_MODE'', ''dry_run'')] legacy_run_mode_keys None ex_env_saved = (Inr (), ex_env_saved)"
  using configuration_update_is_exact [OF ex_env_update] by (simp add: unbroken_def is_line_break_def)

section \<open>Accepted settings\<close>

lemma apart_paths:
  "\<not> any_overlap ps \<Longrightarrow> i < j \<Longrightarrow> j < length ps \<Longrightarrow> \<not> paths_overlap (ps ! i) (ps ! j)"
proof (induction ps arbitrary: i j)
  case (Cons p ps)
  then show ?case by (cases i; cases j) (auto simp: list_ex_iff)
qed simp

text \<open>
  Accepted settings are safe to start with. The directories are absolute, no links,
  closed to others on POSIX and none inside another; the model service is a local one and
  the console's URLs are those of Google Admin; the prefix and the model tags are visible
  text; the two flags agree with the mode, and live mode has a visible browser and both
  identities in normal form.
\<close>

theorem accepted_settings_are_safe:
  assumes "enforce_live_safety idna posix s = Inr t"
  shows "(\<forall>d \<in> set (st_directories s). dp_absolute d \<and> \<not> dp_link d \<and> (dp_exists d \<longrightarrow> dp_directory d \<and> (posix \<longrightarrow> dp_mode d mod 64 = 0))) \<and>
    (\<forall>j < length (st_directories s). \<forall>i < j. \<not> paths_overlap (dp_resolved (st_directories s ! i)) (dp_resolved (st_directories s ! j))) \<and>
    (\<exists>h \<in> ollama_hosts. su_host (st_ollama t) = Some h) \<and>
    (\<forall>u \<in> set (st_google t). su_scheme u = ''https'' \<and> su_host u = Some ''admin.google.com'') \<and>
    (\<forall>x \<in> {st_prefix t, st_model t, st_browser_model t}. x \<noteq> [] \<and> py_strip x = x \<and> \<not> list_ex is_control_or_format x) \<and>
    st_mode t = st_mode s \<and> st_plan_only t = (st_mode t = Plan_Only) \<and> st_dry_run t = (st_mode t \<noteq> Live_Mode) \<and>
    (st_admin t = [] \<or> normalize_email idna (py_strip (st_admin s)) = Inr (st_admin t)) \<and>
    (st_domain t = [] \<or> normalize_domain idna False (py_strip (st_domain s)) = Inr (st_domain t)) \<and>
    (st_mode t = Live_Mode \<longrightarrow> \<not> st_headless t \<and> st_admin t \<noteq> [] \<and> st_domain t \<noteq> [])"
proof -
  obtain ps prefix model browser admin domain where
    ps: "map_res (absolute_directory posix) (st_directories s) = Inr ps" "\<not> any_overlap ps"
    and visible: "visible_setting (st_prefix s) max_prefix_characters = Inr prefix"
      "visible_setting (st_model s) max_model_tag_characters = Inr model"
      "visible_setting (st_browser_model s) max_model_tag_characters = Inr browser"
    and urls: "validate_service_urls s = Inr ()"
    and identities: "normalized_identities idna (st_admin s) (st_domain s) = Inr (admin, domain)"
    and live: "\<not> (st_mode s = Live_Mode \<and> (st_headless s \<or> py_strip admin = [] \<or> py_strip domain = []))"
    and t: "t = s\<lparr>st_plan_only := (st_mode s = Plan_Only), st_dry_run := (st_mode s \<noteq> Live_Mode), st_prefix := prefix,
       st_model := model, st_browser_model := browser, st_admin := admin, st_domain := domain\<rparr>"
    using assms unfolding enforce_live_safety_def validated_sensitive_paths_def
    by (auto simp: res_simps split: if_splits)
  have each: "map_res (absolute_directory posix) ds = Inr qs \<Longrightarrow> qs = map dp_resolved ds \<and>
      (\<forall>d \<in> set ds. dp_absolute d \<and> \<not> dp_link d \<and> (dp_exists d \<longrightarrow> dp_directory d \<and> (posix \<longrightarrow> dp_mode d mod 64 = 0)))" for ds qs
    by (induction ds arbitrary: qs) (auto simp: res_simps absolute_directory_def split: if_splits)
  have seen: "visible_setting v n = Inr x \<Longrightarrow> x \<noteq> [] \<and> py_strip x = x \<and> \<not> list_ex is_control_or_format x" for v n x
    by (auto simp: visible_setting_def Let_def split: if_splits)
  have google: "map_res require_google_admin_url us = Inr vs \<Longrightarrow>
      \<forall>u \<in> set us. su_scheme u = ''https'' \<and> su_host u = Some ''admin.google.com''" for us vs
    by (induction us arbitrary: vs) (auto simp: res_simps require_google_admin_url_def split: if_splits)
  have hosts: "(\<exists>h \<in> ollama_hosts. su_host (st_ollama s) = Some h) \<and>
      (\<forall>u \<in> set (st_google s). su_scheme u = ''https'' \<and> su_host u = Some ''admin.google.com'')"
    using urls google by (auto simp: validate_service_urls_def res_simps split: option.splits if_splits)
  have ids: "(admin = [] \<or> normalize_email idna (py_strip (st_admin s)) = Inr admin) \<and>
      (domain = [] \<or> normalize_domain idna False (py_strip (st_domain s)) = Inr domain)"
    using identities by (auto simp: normalized_identities_def res_simps split: if_splits)
  have strip: "py_strip [] = []" by (simp add: py_strip_def)
  have "\<not> paths_overlap (dp_resolved (st_directories s ! i)) (dp_resolved (st_directories s ! j))"
    if "j < length (st_directories s)" "i < j" for i j
    using apart_paths [OF ps(2) that(2)] each [OF ps(1)] that by simp
  with each [OF ps(1)] seen [OF visible(1)] seen [OF visible(2)] seen [OF visible(3)] hosts ids live strip show ?thesis
    unfolding t by auto
qed

text \<open>A legacy value from the environment is a text, and every text but the empty one counts as true.\<close>

lemma legacy_false_is_plan_only:
  "migrate_legacy_run_mode None (Given_Text ''false'') (Given_Text ''false'') = Inr (Some Plan_Only)"
  "migrate_legacy_run_mode None (Given_Flag False) (Given_Flag False) = Inr (Some Live_Mode)"
  by (simp_all add: migrate_legacy_run_mode_def)

definition ex_probe :: "string \<Rightarrow> directory_probe" where
  "ex_probe name = \<lparr>dp_absolute = True, dp_link = False, dp_resolved = [''srv'', name], dp_exists = True, dp_directory = True, dp_mode = 448\<rparr>"

definition ex_google :: service_url where
  "ex_google = \<lparr>su_scheme = ''https'', su_host = Some ''admin.google.com''\<rparr>"

definition ex_app_settings :: app_settings where
  "ex_app_settings = \<lparr>st_mode = Live_Mode, st_plan_only = False, st_dry_run = False, st_headless = False,
     st_directories = map ex_probe [''profile'', ''audit'', ''state''], st_prefix = ''[Compliance Agent]'', st_model = ''gemma4:12b'',
     st_browser_model = ''gemma4:12b'', st_ollama = \<lparr>su_scheme = ''http'', su_host = Some ''localhost''\<rparr>,
     st_google = [ex_google, ex_google, ex_google], st_admin = ''admin@example.org'', st_domain = ''example.org''\<rparr>"

lemma ex_app_settings_accepted: "enforce_live_safety Some True ex_app_settings = Inr ex_app_settings"
proof -
  have paths: "validated_sensitive_paths True (st_directories ex_app_settings) = Inr [[''srv'', ''profile''], [''srv'', ''audit''], [''srv'', ''state'']]"
    by (simp add: ex_app_settings_def ex_probe_def validated_sensitive_paths_def absolute_directory_def paths_overlap_def)
  have texts: "visible_setting ''[Compliance Agent]'' max_prefix_characters = Inr ''[Compliance Agent]''"
    "visible_setting ''gemma4:12b'' max_model_tag_characters = Inr ''gemma4:12b''"
    by code_simp+
  have urls: "validate_service_urls ex_app_settings = Inr ()"
    by (simp add: validate_service_urls_def ex_app_settings_def ollama_hosts_def require_google_admin_url_def ex_google_def)
  have identities: "normalized_identities Some ''admin@example.org'' ''example.org'' = Inr (''admin@example.org'', ''example.org'')"
    by code_simp
  have stripped: "py_strip ''admin@example.org'' \<noteq> []" "py_strip ''example.org'' \<noteq> []" by code_simp+
  show ?thesis
    using paths texts urls identities stripped by (simp add: enforce_live_safety_def) (simp add: ex_app_settings_def)
qed

theorem accepted_settings_are_safe_witness:
  "st_mode ex_app_settings = Live_Mode \<and> \<not> st_headless ex_app_settings \<and> st_admin ex_app_settings \<noteq> []"
proof -
  have "st_mode ex_app_settings = Live_Mode" by (simp add: ex_app_settings_def)
  with accepted_settings_are_safe [OF ex_app_settings_accepted] show ?thesis by blast
qed

end
