(* ===== verification/Attended.thy ===== *)
theory Attended
  imports Attended_Audit
begin

text \<open>
  \<^verbatim>\<open>application/attended_policy_service.py\<close>: preview, approval, browser execution and
  verification of an attended run. The browser session answers each request from the record
  \<open>browser_answers\<close> of a call; what was asked of it, and what the operator was shown and
  accepted, is the log of the world. An audit object belongs to the run it was made for and is
  found by the run's identifier. Calls are taken one at a time: a call checks and consumes the
  pending approval before it first waits for the browser.
\<close>

section \<open>The world of the service\<close>

record attended_settings =
  ts_mode :: run_mode
  ts_email :: "string option"
  ts_domain :: "string option"
  ts_prefix :: string
  ts_ttl :: int
  ts_model :: string

record pending_run =
  pr_settings :: attended_settings
  pr_preview :: attended_preview

text \<open>A request to the browser session of a run, with its answer, and what the operator did.\<close>

datatype attended_event =
    Standard_Read string blocked_state "blocked_state res"
  | Compliance_Read string compliance_state "compliance_state res"
  | Standard_Apply string change_set admin_permit "apply_result res"
  | Compliance_Apply string compliance_change_set admin_permit "apply_result res"
  | Presented string attended_preview
  | Accepted string string py_datetime

record attended_world =
  tw_pending :: "pending_run pending"
  tw_audits :: "string \<Rightarrow> attended_audit"
  tw_store :: store
  tw_ids :: nat
  tw_ticks :: nat
  tw_started :: bool
  tw_log :: "attended_event list"

record service_env = attended_env +
  te_supply :: "nat \<Rightarrow> uuid"
  te_re2 :: "string \<Rightarrow> bool"
  te_facts :: "manifest_metadata"
  te_directory_exists :: "string \<Rightarrow> bool"
  te_disk :: "string \<Rightarrow> disk_outcome list"

record browser_answers =
  ba_enter :: "unit res"
  ba_standard :: "blocked_state res"
  ba_compliance :: "compliance_state res"
  ba_apply :: "apply_result res"
  ba_standard_after :: "blocked_state res"
  ba_compliance_after :: "compliance_state res"
  ba_exit :: "unit res"

definition system_now :: "service_env \<Rightarrow> (attended_world, py_datetime) act" where
  "system_now env w = (Inr (te_clock env (tw_ticks w)), w\<lparr>tw_ticks := Suc (tw_ticks w)\<rparr>)"

definition next_uuid :: "service_env \<Rightarrow> (attended_world, uuid) act" where
  "next_uuid env w = (Inr (te_supply env (tw_ids w)), w\<lparr>tw_ids := Suc (tw_ids w)\<rparr>)"

definition on_registry :: "(store, 'a) act \<Rightarrow> (attended_world, 'a) act" where
  "on_registry m w = (case m (tw_store w) of (r, s) \<Rightarrow> (r, w\<lparr>tw_store := s\<rparr>))"

text \<open>An operation of a run's audit object; it reads the clock of the world.\<close>

definition on_audit :: "string \<Rightarrow> (attended_audit, 'a) act \<Rightarrow> (attended_world, 'a) act" where
  "on_audit k m w =
     (case m ((tw_audits w k)\<lparr>xa_ticks := tw_ticks w\<rparr>) of
        (r, a) \<Rightarrow> (r, w\<lparr>tw_audits := (tw_audits w)(k := a), tw_ticks := xa_ticks a\<rparr>))"

definition note_event :: "attended_event \<Rightarrow> (attended_world, unit) act" where
  "note_event e = update (\<lambda>w. w\<lparr>tw_log := tw_log w @ [e]\<rparr>)"

text \<open>A request to the browser is logged with its answer, which is returned or raised.\<close>

definition browse :: "('a res \<Rightarrow> attended_event) \<Rightarrow> 'a res \<Rightarrow> (attended_world, 'a) act" where
  "browse e r = andthen (note_event (e r)) (lift r)"

text \<open>\<^verbatim>\<open>async with\<close>: an exception of the exit replaces what the body ended with.\<close>

definition with_session :: "browser_answers \<Rightarrow> (attended_world, 'a) act \<Rightarrow> (attended_world, 'a) act" where
  "with_session an body =
     andthen (lift (ba_enter an)) (\<lambda>w. case body w of (r, v) \<Rightarrow>
       (case ba_exit an of Inl e \<Rightarrow> (Inl e, v) | Inr _ \<Rightarrow> (r, v)))"

text \<open>\<^verbatim>\<open>except Exception: h; raise\<close>.\<close>

definition on_exception :: "('s, 'a) act \<Rightarrow> ('s, unit) act \<Rightarrow> ('s, 'a) act" where
  "on_exception m h = catch m (\<lambda>_. True) (\<lambda>e. andthen h (raise e))"

text \<open>The constructor of an audit object makes the run directory and collects the metadata.\<close>

definition new_audit :: "service_env \<Rightarrow> attended_settings \<Rightarrow> string \<Rightarrow> py_datetime \<Rightarrow> (attended_world, unit) act" where
  "new_audit env settings k started =
     bind (lift (new_writer (te_directory_exists env k) (te_disk env k))) (\<lambda>w.
     bind (lift (make_metadata ((te_facts env)\<lparr>mm_model_tag := Some (ts_model settings), mm_start := started\<rparr>))) (\<lambda>d.
     update (\<lambda>v. v\<lparr>tw_audits := (tw_audits v)(k := \<lparr>xa_run_id = k, xa_writer = w, xa_metadata = d,
       xa_finalized = False, xa_ticks = tw_ticks v\<rparr>)\<rparr>)))"

definition finalize_run ::
    "service_env \<Rightarrow> string \<Rightarrow> run_status \<Rightarrow> execution_result option \<Rightarrow> (attended_world, unit) act" where
  "finalize_run env k status result = on_audit k (attended_finalize (attended_env.truncate env) status result)"

section \<open>Plans and snapshots\<close>

definition plan_surface :: "task_plan \<Rightarrow> surface res" where
  "plan_surface plan =
     (let advanced = map is_compliance_action (tp_actions plan)
      in if list_ex id advanced \<and> \<not> list_all id advanced then Inl ValueError
         else Inr (if list_all id advanced then Content_Compliance else Blocked_Senders))"

fun action_target :: "action \<Rightarrow> uuid option" where
  "action_target (Add_Blocked_Entries _ _ target _) = target"
| "action_target (Remove_Blocked_Entries _ target) = Some target"
| "action_target (Set_Rejection_Notice target _) = Some target"
| "action_target (Update_Blocked_Sender_Rule target _ _ _ _) = Some target"
| "action_target (Remove_Blocked_Sender_Rule target _) = Some target"
| "action_target (Set_Blocked_Sender_Rule_Enabled target _) = Some target"
| "action_target (Update_Content_Compliance_Rule target _) = Some target"
| "action_target (Remove_Content_Compliance_Rule target) = Some target"
| "action_target (Set_Content_Compliance_Rule_Enabled target _) = Some target"
| "action_target _ = None"

definition action_unit :: "registry \<Rightarrow> action \<Rightarrow> string list \<Rightarrow> string list res" where
  "action_unit g a units =
     (case action_ou a of
        Some ou \<Rightarrow> Inr (ou # units)
      | None \<Rightarrow> (case action_target a of
          None \<Rightarrow> Inr units
        | Some i \<Rightarrow> (case find_record g i of
            None \<Rightarrow> Inl ValueError
          | Some record \<Rightarrow> Inr (or_ou record # units))))"

definition one_of :: "'a list \<Rightarrow> 'a res" where
  "one_of xs = (case remdups xs of [x] \<Rightarrow> Inr x | _ \<Rightarrow> Inl ValueError)"

definition target_unit :: "task_plan \<Rightarrow> registry \<Rightarrow> string res" where
  "target_unit plan g =
     and_then (fold_res (action_unit g) (tp_actions plan) []) (\<lambda>units.
       one_of (if units = [] then [''/''] else units))"

definition standard_snapshot :: "registry \<Rightarrow> string \<Rightarrow> blocked_state res" where
  "standard_snapshot g target_ou =
     (let records = filter (\<lambda>r. or_ou r = target_ou) (rg_resources g)
      in if list_ex (\<lambda>r. or_rule_snapshot r = None) records then Inl ValueError
         else
           let rules = List.map_filter or_rule_snapshot records;
               referenced = concat (map (\<lambda>r. br_lists r @ br_bypass r) rules);
               lists = filter (\<lambda>l. al_name l \<in> set referenced)
                 (List.map_filter or_list_snapshot records @
                  List.map_filter lr_snapshot (filter (\<lambda>r. lr_ou r = target_ou) (rg_lists g)))
           in if set (map al_name lists) \<noteq> set referenced then Inl ValueError
              else make_blocked_state target_ou rules lists [])"

definition compliance_snapshot :: "registry \<Rightarrow> compliance_state res" where
  "compliance_snapshot g =
     (if list_ex (\<lambda>r. co_snapshot r = None) (rg_compliance g) then Inl ValueError
      else make_compliance_state (List.map_filter co_snapshot (rg_compliance g)) [] [])"

section \<open>Previews\<close>

definition approval_evidence ::
    "attended_settings \<Rightarrow> string \<Rightarrow> py_datetime \<Rightarrow> string option \<times> py_datetime option" where
  "approval_evidence settings k started =
     (if ts_mode settings \<noteq> Live_Mode then (None, None)
      else (Some (apply_phrase k), Some (plus_seconds started (ts_ttl settings))))"

text \<open>The fields both surfaces share; the surface's own evidence is added to them.\<close>

definition bare_preview ::
    "service_env \<Rightarrow> attended_settings \<Rightarrow> string \<Rightarrow> py_datetime \<Rightarrow> task_plan \<Rightarrow> surface \<Rightarrow> json \<Rightarrow> json \<Rightarrow> attended_preview" where
  "bare_preview env settings k started plan s before change =
     \<lparr>av_run_id = k, av_mode = ts_mode settings, av_surface = s, av_plan = plan,
      av_plan_hash = canonical_hash (te_hash env) (dump_task_plan plan),
      av_before_hash = canonical_hash (te_hash env) before, av_change_hash = canonical_hash (te_hash env) change,
      av_phrase = fst (approval_evidence settings k started), av_expires = snd (approval_evidence settings k started),
      av_standard_before = None, av_standard_after = None, av_standard_change = None,
      av_compliance_before = None, av_compliance_after = None, av_compliance_change = None\<rparr>"

definition standard_preview ::
    "service_env \<Rightarrow> attended_settings \<Rightarrow> string \<Rightarrow> py_datetime \<Rightarrow> task_plan \<Rightarrow> blocked_state \<Rightarrow> blocked_state \<Rightarrow>
      change_set \<Rightarrow> attended_preview res" where
  "standard_preview env settings k started plan current desired change =
     make_attended_preview ((bare_preview env settings k started plan Blocked_Senders
         (dump_blocked_state current) (dump_change_set change))
       \<lparr>av_standard_before := Some current, av_standard_after := Some desired, av_standard_change := Some change\<rparr>)"

definition advanced_preview ::
    "service_env \<Rightarrow> attended_settings \<Rightarrow> string \<Rightarrow> py_datetime \<Rightarrow> task_plan \<Rightarrow> compliance_state \<Rightarrow> compliance_state \<Rightarrow>
      compliance_change_set \<Rightarrow> attended_preview res" where
  "advanced_preview env settings k started plan current desired change =
     make_attended_preview ((bare_preview env settings k started plan Content_Compliance
         (dump_compliance_state current) (dump_compliance_change_set change))
       \<lparr>av_compliance_before := Some current, av_compliance_after := Some desired, av_compliance_change := Some change\<rparr>)"

definition calculate_standard ::
    "service_env \<Rightarrow> attended_settings \<Rightarrow> task_plan \<Rightarrow> blocked_state \<Rightarrow> registry \<Rightarrow>
      (attended_world, blocked_state \<times> change_set) act" where
  "calculate_standard env settings plan current g w =
     (case change_service_calculate (te_supply env) (ts_prefix settings) plan current g (tw_ids w) of
        (n, r) \<Rightarrow> (and_then r (\<lambda>(desired, change). Inr (dr_state desired, change)), w\<lparr>tw_ids := n\<rparr>))"

definition calculate_advanced ::
    "service_env \<Rightarrow> attended_settings \<Rightarrow> task_plan \<Rightarrow> compliance_state \<Rightarrow> registry \<Rightarrow>
      (attended_world, compliance_state \<times> compliance_change_set) act" where
  "calculate_advanced env settings plan current g w =
     (case change_service_compliance (te_re2 env) (te_supply env) (ts_prefix settings) plan current g (tw_ids w) of
        (n, r) \<Rightarrow> (r, w\<lparr>tw_ids := n\<rparr>))"

definition preview_in_session ::
    "service_env \<Rightarrow> browser_answers \<Rightarrow> attended_settings \<Rightarrow> string \<Rightarrow> py_datetime \<Rightarrow> task_plan \<Rightarrow> surface \<Rightarrow> registry \<Rightarrow>
      (attended_world, attended_preview) act" where
  "preview_in_session env an settings k started plan s g =
     (case s of
        Blocked_Senders \<Rightarrow>
          bind (lift (and_then (target_unit plan g) (standard_snapshot g))) (\<lambda>expected.
          bind (browse (Standard_Read k expected) (ba_standard an)) (\<lambda>current.
          bind (calculate_standard env settings plan current g) (\<lambda>(desired, change).
          lift (standard_preview env settings k started plan current desired change))))
      | Content_Compliance \<Rightarrow>
          bind (lift (compliance_snapshot g)) (\<lambda>expected.
          bind (browse (Compliance_Read k expected) (ba_compliance an)) (\<lambda>current.
          bind (calculate_advanced env settings plan current g) (\<lambda>(desired, change).
          lift (advanced_preview env settings k started plan current desired change)))))"

definition put_pending :: "attended_settings \<Rightarrow> attended_preview \<Rightarrow> (attended_world, unit) act" where
  "put_pending settings p =
     andthen (update (\<lambda>w. w\<lparr>tw_pending := dict_put (av_run_id p) \<lparr>pr_settings = settings, pr_preview = p\<rparr> (tw_pending w)\<rparr>))
       (note_event (Presented (av_run_id p) p))"

definition discard_pending :: "string \<Rightarrow> (attended_world, unit) act" where
  "discard_pending k = update (\<lambda>w. w\<lparr>tw_pending := dict_del k (tw_pending w)\<rparr>)"

definition attended_preview_run ::
    "service_env \<Rightarrow> browser_answers \<Rightarrow> attended_settings \<Rightarrow> task_plan \<Rightarrow> transcript option \<Rightarrow> json option \<Rightarrow>
      (attended_world, attended_preview) act" where
  "attended_preview_run env an settings plan reviewed composer_evidence =
     (if ts_mode settings = Plan_Only then raise ValueError
      else if \<not> given (ts_email settings) \<or> \<not> given (ts_domain settings) then raise ValueError
      else
        bind (next_uuid env) (\<lambda>i. let k = uuid_hex i in
        bind (system_now env) (\<lambda>started.
        bind (lift (plan_surface plan)) (\<lambda>s.
        bind (on_registry load_registry) (\<lambda>g.
        andthen (new_audit env settings k started)
        (andthen (case reviewed of None \<Rightarrow> return ()
           | Some t \<Rightarrow> on_audit k (attended_record_review (attended_env.truncate env) plan t (ts_model settings) composer_evidence))
        (bind (on_exception (with_session an (preview_in_session env an settings k started plan s g))
            (finalize_run env k Failed_Unchanged None)) (\<lambda>p.
         andthen (on_audit k (attended_record_preview (attended_env.truncate env) p))
         (andthen (if av_mode p = Live_Mode \<and> av_has_mutations p then put_pending settings p
            else finalize_run env k (if \<not> av_has_mutations p then No_Change_Required else Dry_Run_Preview_Ready) None)
         (return p))))))))))"

definition record_plan_review ::
    "service_env \<Rightarrow> attended_settings \<Rightarrow> task_plan \<Rightarrow> transcript \<Rightarrow> json option \<Rightarrow> (attended_world, string) act" where
  "record_plan_review env settings plan t composer_evidence =
     bind (next_uuid env) (\<lambda>i. let k = uuid_hex i in
     bind (system_now env) (\<lambda>started.
     andthen (new_audit env settings k started)
     (andthen (on_audit k (attended_record_review (attended_env.truncate env) plan t (ts_model settings) composer_evidence))
     (andthen (finalize_run env k No_Change_Required None) (return k)))))"

definition cancel_run :: "service_env \<Rightarrow> string \<Rightarrow> (attended_world, unit) act" where
  "cancel_run env k =
     bind (get (\<lambda>w. dict_get (tw_pending w) k)) (\<lambda>found. case found of
        None \<Rightarrow> return ()
      | Some _ \<Rightarrow> andthen (discard_pending k) (finalize_run env k Confirmation_Rejected None))"

section \<open>Ownership after a verified run\<close>

definition commit_rule ::
    "(uuid, address_list) dict \<Rightarrow> py_datetime \<Rightarrow> blocked_rule \<Rightarrow> (uuid, ownership_record) dict \<Rightarrow>
      (uuid, ownership_record) dict res" where
  "commit_rule lists_by_id now rule resources =
     (let paired = dict_get lists_by_id (br_id rule);
          existing = dict_get resources (br_id rule)
      in and_then (check_ownership_record \<lparr>or_id = br_id rule, or_rule_name = br_name rule,
            or_list_name = (case paired of Some l \<Rightarrow> al_name l | None \<Rightarrow> hd (br_lists rule)),
            or_ou = br_ou rule, or_created = (case existing of Some r \<Rightarrow> or_created r | None \<Rightarrow> now),
            or_rule_snapshot = Some rule, or_list_snapshot = paired\<rparr>)
          (\<lambda>record. Inr (dict_put (br_id rule) record resources)))"

definition commit_list ::
    "string \<Rightarrow> uuid list \<Rightarrow> py_datetime \<Rightarrow> address_list \<Rightarrow> (uuid, list_record) dict \<Rightarrow> (uuid, list_record) dict res" where
  "commit_list target_ou paired_ids now l address_lists =
     (if al_id l \<in> set paired_ids then Inr address_lists
      else and_then (check_list_record \<lparr>lr_id = al_id l, lr_name = al_name l, lr_ou = target_ou,
            lr_purpose = For_Bypass,
            lr_created = (case dict_get address_lists (al_id l) of Some r \<Rightarrow> lr_created r | None \<Rightarrow> now),
            lr_snapshot = Some l\<rparr>)
          (\<lambda>record. Inr (dict_put (al_id l) record address_lists)))"

definition commit_advanced_rule ::
    "py_datetime \<Rightarrow> compliance_rule \<Rightarrow> (uuid, compliance_record) dict \<Rightarrow> (uuid, compliance_record) dict res" where
  "commit_advanced_rule now rule compliance =
     and_then (check_compliance_record \<lparr>co_id = cr_id rule, co_name = cr_name rule, co_ou = ou_path (cr_ou rule),
          co_created = (case dict_get compliance (cr_id rule) of Some r \<Rightarrow> co_created r | None \<Rightarrow> now),
          co_snapshot = Some rule\<rparr>)
       (\<lambda>record. Inr (dict_put (cr_id rule) record compliance))"

definition commit_standard ::
    "attended_preview \<Rightarrow> py_datetime \<Rightarrow> (uuid, ownership_record) dict \<times> (uuid, list_record) dict \<Rightarrow>
      ((uuid, ownership_record) dict \<times> (uuid, list_record) dict) res" where
  "commit_standard p now evidence =
     (case (av_standard_after p, av_standard_change p) of
        (Some after, Some change) \<Rightarrow>
          let resources = fold (\<lambda>r. dict_del (br_id r)) (ch_rules_remove change) (fst evidence);
              address_lists = fold (\<lambda>l. dict_del (al_id l)) (ch_lists_remove change) (snd evidence);
              lists_by_id = dict_of al_id (bs_lists after)
          in and_then (fold_res (commit_rule lists_by_id now) (bs_rules after) resources) (\<lambda>resources.
             and_then (fold_res (commit_list (bs_ou after) (dict_keys resources) now) (dict_values lists_by_id) address_lists)
               (\<lambda>address_lists. Inr (resources, address_lists)))
      | _ \<Rightarrow> Inr evidence)"

definition commit_advanced ::
    "attended_preview \<Rightarrow> py_datetime \<Rightarrow> (uuid, compliance_record) dict \<Rightarrow> (uuid, compliance_record) dict res" where
  "commit_advanced p now compliance =
     (case (av_compliance_after p, av_compliance_change p) of
        (Some after, Some change) \<Rightarrow>
          fold_res (commit_advanced_rule now) (cs_rules after)
            (fold (\<lambda>r. dict_del (cr_id r)) (cc_remove change) compliance)
      | _ \<Rightarrow> Inr compliance)"

definition committed_registry :: "registry \<Rightarrow> attended_preview \<Rightarrow> py_datetime \<Rightarrow> registry res" where
  "committed_registry g p now =
     and_then (commit_standard p now (dict_of or_id (rg_resources g), dict_of lr_id (rg_lists g))) (\<lambda>(resources, address_lists).
     and_then (commit_advanced p now (dict_of co_id (rg_compliance g))) (\<lambda>compliance.
       make_registry (sort_key (\<lambda>r. uuid_hex (or_id r)) (dict_values resources))
         (sort_key (\<lambda>r. uuid_hex (lr_id r)) (dict_values address_lists))
         (sort_key (\<lambda>r. uuid_hex (co_id r)) (dict_values compliance))))"

definition commit_ownership :: "registry \<Rightarrow> attended_preview \<Rightarrow> py_datetime \<Rightarrow> (attended_world, unit) act" where
  "commit_ownership g p now =
     bind (lift (committed_registry g p now)) (\<lambda>registry. on_registry (save_registry registry))"

section \<open>Execution\<close>

text \<open>The state of either surface.\<close>

datatype surface_state = Standard_State blocked_state | Advanced_State compliance_state

fun dump_surface_state :: "surface_state \<Rightarrow> json" where
  "dump_surface_state (Standard_State s) = dump_blocked_state s"
| "dump_surface_state (Advanced_State s) = dump_compliance_state s"

definition preview_unit :: "attended_preview \<Rightarrow> string res" where
  "preview_unit p =
     (case av_standard_after p of
        Some after \<Rightarrow> Inr (bs_ou after)
      | None \<Rightarrow> (case av_compliance_change p of
          None \<Rightarrow> Inl ValueError
        | Some c \<Rightarrow> (case touched_rules c of [rule] \<Rightarrow> Inr (ou_path (cr_ou rule)) | _ \<Rightarrow> Inl ValueError)))"

definition preview_target :: "attended_preview \<Rightarrow> uuid res" where
  "preview_target p =
     (let explicit = List.map_filter action_target (tp_actions (av_plan p))
      in if explicit \<noteq> [] then one_of explicit
         else case (av_standard_change p, av_compliance_change p) of
             (Some c, _) \<Rightarrow> (case ch_rules_create c of [rule] \<Rightarrow> Inr (br_id rule) | _ \<Rightarrow> Inl ValueError)
           | (None, Some c) \<Rightarrow> (case cc_create c of [rule] \<Rightarrow> Inr (cr_id rule) | _ \<Rightarrow> Inl ValueError)
           | (None, None) \<Rightarrow> Inl ValueError)"

definition fresh_read ::
    "browser_answers \<Rightarrow> string \<Rightarrow> attended_preview \<Rightarrow> registry \<Rightarrow> (attended_world, surface_state) act" where
  "fresh_read an k p g =
     (case av_surface p of
        Blocked_Senders \<Rightarrow>
          bind (lift (and_then (preview_unit p) (standard_snapshot g))) (\<lambda>expected.
          bind (browse (Standard_Read k expected) (ba_standard an)) (\<lambda>s. return (Standard_State s)))
      | Content_Compliance \<Rightarrow>
          bind (lift (compliance_snapshot g)) (\<lambda>expected.
          bind (browse (Compliance_Read k expected) (ba_compliance an)) (\<lambda>s. return (Advanced_State s))))"

definition verification_read ::
    "browser_answers \<Rightarrow> string \<Rightarrow> attended_preview \<Rightarrow> (attended_world, surface_state) act" where
  "verification_read an k p =
     (case (av_standard_after p, av_compliance_after p) of
        (Some after, _) \<Rightarrow>
          bind (browse (Standard_Read k after) (ba_standard_after an)) (\<lambda>s. return (Standard_State s))
      | (None, Some after) \<Rightarrow>
          bind (browse (Compliance_Read k after) (ba_compliance_after an)) (\<lambda>s. return (Advanced_State s))
      | (None, None) \<Rightarrow> raise ValueError)"

definition apply_change ::
    "browser_answers \<Rightarrow> string \<Rightarrow> attended_preview \<Rightarrow> admin_permit \<Rightarrow> (attended_world, apply_result) act" where
  "apply_change an k p permit =
     (case (av_standard_change p, av_compliance_change p) of
        (Some c, _) \<Rightarrow> browse (Standard_Apply k c permit) (ba_apply an)
      | (None, Some c) \<Rightarrow> browse (Compliance_Apply k c permit) (ba_apply an)
      | (None, None) \<Rightarrow> raise ValueError)"

definition attended_permit :: "service_env \<Rightarrow> attended_preview \<Rightarrow> (attended_world, admin_permit) act" where
  "attended_permit env p =
     bind (next_uuid env) (\<lambda>i.
     bind (lift (preview_unit p)) (\<lambda>ou.
     bind (lift (preview_target p)) (\<lambda>target.
     lift (make_admin_permit \<lparr>dp_approval_id = uuid_hex i, dp_plan_hash = av_plan_hash p,
       dp_before_hash = av_before_hash p, dp_change_hash = av_change_hash p, dp_ou = ou, dp_target = target,
       dp_surface = av_surface p, dp_approved = True\<rparr>))))"

text \<open>
  What happens inside the session: a result that ends the run unwritten, or the digest of the
  fresh state, what the browser reports and the state read back.
\<close>

definition execute_in_session ::
    "service_env \<Rightarrow> browser_answers \<Rightarrow> string \<Rightarrow> attended_preview \<Rightarrow> registry \<Rightarrow>
      (attended_world, execution_result + string \<times> apply_result \<times> surface_state) act" where
  "execute_in_session env an k p g =
     bind (fresh_read an k p g) (\<lambda>fresh.
     let fresh_hash = canonical_hash (te_hash env) (dump_surface_state fresh)
     in if fresh_hash \<noteq> av_before_hash p then
          bind (lift (make_execution_result \<lparr>xr_run_id = k, xr_status = Exec_Drifted, xr_browser = None,
              xr_verified = False, xr_before_hash = fresh_hash, xr_after_hash = None\<rparr>)) (\<lambda>r.
          andthen (finalize_run env k Confirmation_Rejected (Some r)) (return (Inl r)))
        else if \<not> av_has_mutations p then
          bind (lift (make_execution_result \<lparr>xr_run_id = k, xr_status = Exec_No_Change, xr_browser = None,
              xr_verified = True, xr_before_hash = fresh_hash, xr_after_hash = Some fresh_hash\<rparr>)) (\<lambda>r.
          andthen (finalize_run env k No_Change_Required (Some r)) (return (Inl r)))
        else
          bind (attended_permit env p) (\<lambda>permit.
          andthen (update (\<lambda>w. w\<lparr>tw_started := True\<rparr>))
          (bind (apply_change an k p permit) (\<lambda>browser_result.
           bind (verification_read an k p) (\<lambda>observed.
           return (Inr (fresh_hash, browser_result, observed)))))))"

definition desired_surface_state :: "attended_preview \<Rightarrow> surface_state option" where
  "desired_surface_state p =
     (case av_standard_after p of Some s \<Rightarrow> Some (Standard_State s)
      | None \<Rightarrow> map_option Advanced_State (av_compliance_after p))"

text \<open>After the session: the ownership of a verified run, and the terminal evidence.\<close>

definition settle_run ::
    "service_env \<Rightarrow> string \<Rightarrow> attended_preview \<Rightarrow> registry \<Rightarrow> py_datetime \<Rightarrow> string \<times> apply_result \<times> surface_state \<Rightarrow>
      (attended_world, execution_result) act" where
  "settle_run env k p g now seen = (case seen of (fresh_hash, browser_result, observed) \<Rightarrow>
     let verified = br_completed browser_result \<and> Some observed = desired_surface_state p;
         observed_hash = canonical_hash (te_hash env) (dump_surface_state observed);
         result = (\<lambda>status. \<lparr>xr_run_id = k, xr_status = status, xr_browser = Some browser_result,
           xr_verified = verified, xr_before_hash = fresh_hash, xr_after_hash = Some observed_hash\<rparr>)
     in bind (if verified then catch (andthen (commit_ownership g p now) (return True)) (\<lambda>_. True) (\<lambda>_. return False)
          else return True) (\<lambda>committed.
        if \<not> committed then
          bind (lift (make_execution_result (result Exec_Recovery_Required))) (\<lambda>r.
          andthen (finalize_run env k Indeterminate (Some r)) (return r))
        else
          bind (lift (make_execution_result
              (result (if verified then Exec_Completed else Exec_Verification_Failed)))) (\<lambda>r.
          catch (andthen (finalize_run env k (if verified then Applied_UI_Verified else Indeterminate) (Some r)) (return r))
            (\<lambda>_. True) (\<lambda>_. return (r\<lparr>xr_status := Exec_Recovery_Required\<rparr>)))))"

text \<open>
  \<^verbatim>\<open>mutation_started\<close> is a variable of one call; the registry is loaded before the
  protected section, after the approval is consumed.
\<close>

definition execute_run ::
    "service_env \<Rightarrow> browser_answers \<Rightarrow> string \<Rightarrow> string \<Rightarrow> bool \<Rightarrow> (attended_world, execution_result) act" where
  "execute_run env an k phrase acknowledged =
     bind (get (\<lambda>w. dict_get (tw_pending w) k)) (\<lambda>found. case found of
       None \<Rightarrow> raise ValueError
     | Some run \<Rightarrow>
       let p = pr_preview run in
       bind (system_now env) (\<lambda>now.
       bind (case av_expires p of None \<Rightarrow> return True | Some t \<Rightarrow> lift (time_reached now t)) (\<lambda>expired.
       if expired then
         (\<lambda>w. case finalize_run env k Confirmation_Rejected None w of (r, v) \<Rightarrow>
            andthen (discard_pending k) (andthen (lift r) (raise ValueError)) v)
       else
         bind (lift (case av_phrase p of None \<Rightarrow> Inr False
                | Some expected \<Rightarrow> phrase_accepted acknowledged phrase expected)) (\<lambda>accepted.
         if \<not> accepted then raise ValueError
         else
           andthen (discard_pending k)
           (andthen (note_event (Accepted k phrase now))
           (bind (on_registry load_registry) (\<lambda>g.
            andthen (update (\<lambda>w. w\<lparr>tw_started := False\<rparr>))
            (bind (on_exception (with_session an (execute_in_session env an k p g))
               (bind (get tw_started) (\<lambda>started.
                  finalize_run env k (if started then Indeterminate else Failed_Unchanged) None))) (\<lambda>ended.
             case ended of
               Inl r \<Rightarrow> return r
             | Inr seen \<Rightarrow> settle_run env k p g now seen)))))))))"

end
