(* ===== verification/Attended_Properties.thy ===== *)
theory Attended_Properties
  imports Attended
begin

text \<open>
  What the calls of the attended service do to the log and to the pending approvals, and the
  invariant of both: every write is licensed by a preview that was presented and accepted.
\<close>

section \<open>Calls that leave log and pending approvals alone\<close>

definition same_front :: "attended_world \<Rightarrow> attended_world \<Rightarrow> bool" where
  "same_front w v \<longleftrightarrow> tw_log v = tw_log w \<and> tw_pending v = tw_pending w"

lemma same_front_refl [simp]: "same_front w w" by (simp add: same_front_def)

lemma same_frontD: "same_front w v \<Longrightarrow> tw_log v = tw_log w" "same_front w v \<Longrightarrow> tw_pending v = tw_pending w"
  by (simp_all add: same_front_def)

lemma on_audit_front: "on_audit k m w = (r, v) \<Longrightarrow> same_front w v"
  by (auto simp: on_audit_def same_front_def split: prod.splits)

lemma finalize_run_front: "finalize_run env k status x w = (r, v) \<Longrightarrow> same_front w v"
  unfolding finalize_run_def by (rule on_audit_front)

lemma on_registry_front: "on_registry m w = (r, v) \<Longrightarrow> same_front w v"
  by (auto simp: on_registry_def same_front_def split: prod.splits)

lemma system_now_front: "system_now env w = (r, v) \<Longrightarrow> same_front w v \<and> r = Inr (te_clock env (tw_ticks w))"
  by (auto simp: system_now_def same_front_def)

lemma next_uuid_front: "next_uuid env w = (r, v) \<Longrightarrow> same_front w v \<and> (\<exists>i. r = Inr i)"
  by (auto simp: next_uuid_def same_front_def)

lemma new_audit_front: "new_audit env settings k t w = (r, v) \<Longrightarrow> same_front w v"
  by (auto simp: new_audit_def bind_def same_front_def split: sum.splits)

lemma calculate_front:
  "calculate_standard env settings plan s g w = (r, v) \<Longrightarrow> same_front w v"
  "calculate_advanced env settings plan c g w = (q, v) \<Longrightarrow> same_front w v"
  by (auto simp: calculate_standard_def calculate_advanced_def same_front_def split: prod.splits)

lemma commit_ownership_front: "commit_ownership g p now w = (r, v) \<Longrightarrow> same_front w v"
  by (auto simp: commit_ownership_def bind_def split: sum.splits dest: on_registry_front)

lemma attended_permit_front:
  "attended_permit env p w = (r, v) \<Longrightarrow> same_front w v \<and>
     (\<forall>x. r = Inr x \<longrightarrow> dp_plan_hash x = av_plan_hash p \<and> dp_before_hash x = av_before_hash p \<and>
        dp_change_hash x = av_change_hash p \<and> dp_approved x)"
  by (auto simp: attended_permit_def bind_def make_admin_permit_def split: prod.splits sum.splits if_splits
      dest!: next_uuid_front)

lemmas fronts = on_audit_front finalize_run_front on_registry_front new_audit_front calculate_front
  commit_ownership_front

section \<open>One session\<close>

fun read_of :: "attended_event \<Rightarrow> (string \<times> surface_state res) option" where
  "read_of (Standard_Read k _ r) = Some (k, and_then r (\<lambda>s. Inr (Standard_State s)))"
| "read_of (Compliance_Read k _ r) = Some (k, and_then r (\<lambda>s. Inr (Advanced_State s)))"
| "read_of _ = None"

fun write_of :: "attended_event \<Rightarrow> (string \<times> json \<times> admin_permit) option" where
  "write_of (Standard_Apply k c permit _) = Some (k, dump_change_set c, permit)"
| "write_of (Compliance_Apply k c permit _) = Some (k, dump_compliance_change_set c, permit)"
| "write_of _ = None"

definition change_of :: "attended_preview \<Rightarrow> json option" where
  "change_of p = (case av_standard_change p of Some c \<Rightarrow> Some (dump_change_set c)
     | None \<Rightarrow> map_option dump_compliance_change_set (av_compliance_change p))"

definition permits :: "attended_preview \<Rightarrow> admin_permit \<Rightarrow> bool" where
  "permits p x \<longleftrightarrow> dp_plan_hash x = av_plan_hash p \<and> dp_before_hash x = av_before_hash p \<and>
     dp_change_hash x = av_change_hash p \<and> dp_approved x"

text \<open>A session reads once; it writes only when the state read has the digest of the preview.\<close>

definition session_log :: "(string \<Rightarrow> string) \<Rightarrow> string \<Rightarrow> attended_preview \<Rightarrow> attended_event list \<Rightarrow> bool" where
  "session_log H k p es \<longleftrightarrow> es = [] \<or> (\<exists>x r. read_of x = Some (k, r) \<and> (es = [x] \<or>
     (\<exists>s y change permit. r = Inr s \<and> canonical_hash H (dump_surface_state s) = av_before_hash p \<and>
        av_has_mutations p \<and> write_of y = Some (k, change, permit) \<and> change_of p = Some change \<and> permits p permit \<and>
        (es = [x, y] \<or> (\<exists>z t. read_of z = Some (k, t) \<and> es = [x, y, z])))))"

lemma browse_cases: "browse e a w = (r, v) \<Longrightarrow> r = a \<and> tw_log v = tw_log w @ [e a] \<and> tw_pending v = tw_pending w"
  by (auto simp: browse_def note_event_def andthen_def bind_def)

lemma fresh_read_cases:
  assumes "fresh_read an k p g w = (r, v)"
  shows "tw_pending v = tw_pending w \<and> (tw_log v = tw_log w \<and> (\<forall>s. r \<noteq> Inr s) \<or>
    (\<exists>x. tw_log v = tw_log w @ [x] \<and> read_of x = Some (k, r)))"
  using assms
  by (cases "av_surface p")
    (auto simp: fresh_read_def bind_def and_then_def split: sum.splits prod.splits dest!: browse_cases)

lemma verification_read_cases:
  assumes "verification_read an k p w = (r, v)"
  shows "tw_pending v = tw_pending w \<and> (tw_log v = tw_log w \<or> (\<exists>x t. tw_log v = tw_log w @ [x] \<and> read_of x = Some (k, t)))"
  using assms
  by (auto simp: verification_read_def bind_def split: sum.splits prod.splits option.splits dest!: browse_cases)

lemma apply_change_cases:
  assumes "apply_change an k p permit w = (r, v)"
  shows "tw_pending v = tw_pending w \<and> (tw_log v = tw_log w \<and> (\<forall>s. r \<noteq> Inr s) \<or>
    (\<exists>x c. tw_log v = tw_log w @ [x] \<and> write_of x = Some (k, c, permit) \<and> change_of p = Some c))"
  using assms
  by (auto simp: apply_change_def change_of_def split: option.splits dest!: browse_cases)

lemma execute_in_session_cases:
  assumes "execute_in_session env an k p g w = (r, v)"
  shows "tw_pending v = tw_pending w \<and> (\<exists>es. tw_log v = tw_log w @ es \<and> session_log (te_hash env) k p es)"
proof -
  obtain f u where f: "fresh_read an k p g w = (f, u)" by fastforce
  note fresh = fresh_read_cases [OF f]
  show ?thesis
  proof (cases f)
    case (Inl e)
    then show ?thesis using assms f fresh
      by (fastforce simp: execute_in_session_def bind_def session_log_def)
  next
    case (Inr s)
    then obtain x where x: "tw_log u = tw_log w @ [x]" "read_of x = Some (k, Inr s)" and u: "tw_pending u = tw_pending w"
      using fresh by auto
    let ?h = "canonical_hash (te_hash env) (dump_surface_state s)"
    show ?thesis
    proof (cases "?h = av_before_hash p \<and> av_has_mutations p")
      case False
      then have "same_front u v" using assms f Inr
        by (auto simp: execute_in_session_def bind_def andthen_def Let_def split: if_splits sum.splits prod.splits
            dest!: finalize_run_front)
      then show ?thesis using x u by (auto simp: session_log_def same_front_def)
    next
      case True
      obtain q t where q: "attended_permit env p u = (q, t)" by fastforce
      note permit = attended_permit_front [OF q]
      show ?thesis
      proof (cases q)
        case (Inl e)
        then show ?thesis using assms f Inr True q permit x u
          by (auto simp: execute_in_session_def bind_def session_log_def same_front_def)
      next
        case (Inr permit')
        obtain b t' where b: "apply_change an k p permit' (t\<lparr>tw_started := True\<rparr>) = (b, t')" by fastforce
        obtain o' t'' where o': "verification_read an k p t' = (o', t'')" by fastforce
        have "v = (case b of Inl _ \<Rightarrow> t' | Inr _ \<Rightarrow> t'')"
          using assms f \<open>f = Inr s\<close> True q Inr b o'
          by (auto simp: execute_in_session_def bind_def andthen_def split: sum.splits)
        with apply_change_cases [OF b] verification_read_cases [OF o'] permit Inr x u True show ?thesis
          by (fastforce simp: session_log_def same_front_def permits_def split: sum.splits)
      qed
    qed
  qed
qed

lemma with_session_cases:
  assumes "with_session an body w = (r, v)"
  shows "v = w \<or> (\<exists>q. body w = (q, v))"
  using assms by (auto simp: with_session_def andthen_def bind_def split: sum.splits prod.splits)

lemma on_exception_cases:
  assumes "on_exception m h w = (r, v)" and "\<And>u x v. h u = (x, v) \<Longrightarrow> same_front u v"
  shows "\<exists>q u. m w = (q, u) \<and> same_front u v"
  using assms(1)
  by (auto simp: on_exception_def catch_def andthen_def bind_def split: sum.splits prod.splits dest!: assms(2))

lemma close_run_front:
  "bind (get tw_started) (\<lambda>started. finalize_run env k (if started then a else b) None) u = (x, v) \<Longrightarrow> same_front u v"
  by (auto simp: bind_def dest!: finalize_run_front)

section \<open>The calls of the service\<close>

text \<open>A preview that may be presented for approval: its digests are those of what it shows.\<close>

definition live_preview :: "service_env \<Rightarrow> string \<Rightarrow> attended_preview \<Rightarrow> bool" where
  "live_preview env k p \<longleftrightarrow> av_run_id p = k \<and> av_mode p = Live_Mode \<and> av_has_mutations p \<and>
     av_phrase p = Some (apply_phrase k) \<and> (\<exists>t. av_expires p = Some t \<and> is_aware t) \<and>
     av_plan_hash p = canonical_hash (te_hash env) (dump_task_plan (av_plan p)) \<and>
     (\<exists>before after change. preview_evidence p = Some (before, after, change) \<and>
        av_before_hash p = canonical_hash (te_hash env) before \<and>
        av_change_hash p = canonical_hash (te_hash env) change \<and> change_of p = Some change)"

lemma make_attended_preview_Inr:
  "make_attended_preview q = Inr p \<Longrightarrow> p = q \<and> (\<forall>t. av_expires q = Some t \<longrightarrow> is_aware t)"
  by (auto simp: make_attended_preview_def Let_def split: if_splits)

lemma previews_are_live:
  assumes "av_mode p = Live_Mode" and "av_has_mutations p"
  shows "standard_preview env settings k started plan s d c = Inr p \<Longrightarrow> live_preview env k p"
    and "advanced_preview env settings k started plan s' d' c' = Inr p \<Longrightarrow> live_preview env k p"
proof -
  assume "standard_preview env settings k started plan s d c = Inr p"
  from make_attended_preview_Inr [OF this [unfolded standard_preview_def]] assms show "live_preview env k p"
    by (simp add: live_preview_def bare_preview_def approval_evidence_def preview_evidence_def change_of_def split: if_splits)
next
  assume "advanced_preview env settings k started plan s' d' c' = Inr p"
  from make_attended_preview_Inr [OF this [unfolded advanced_preview_def]] assms show "live_preview env k p"
    by (simp add: live_preview_def bare_preview_def approval_evidence_def preview_evidence_def change_of_def split: if_splits)
qed

lemma preview_in_session_cases:
  assumes "preview_in_session env an settings k started plan s g w = (r, v)"
  shows "tw_pending v = tw_pending w \<and> (tw_log v = tw_log w \<or> (\<exists>x t. tw_log v = tw_log w @ [x] \<and> read_of x = Some (k, t))) \<and>
    (\<forall>p. r = Inr p \<and> av_mode p = Live_Mode \<and> av_has_mutations p \<longrightarrow> live_preview env k p)"
  using assms
  by (cases s)
    (auto simp: preview_in_session_def bind_def same_front_def split: sum.splits prod.splits
      dest!: browse_cases calculate_front intro: previews_are_live)

text \<open>What one call adds to the log, with the change of the pending approvals.\<close>

definition quiet :: "attended_event list \<Rightarrow> bool" where
  "quiet es \<longleftrightarrow> (\<forall>x \<in> set es. \<exists>k r. read_of x = Some (k, r))"

definition presents :: "service_env \<Rightarrow> attended_world \<Rightarrow> attended_world \<Rightarrow> bool" where
  "presents env w v \<longleftrightarrow> (\<exists>es k p run. quiet es \<and> tw_log v = tw_log w @ es @ [Presented k p] \<and> live_preview env k p \<and>
     pr_preview run = p \<and> tw_pending v = dict_put k run (tw_pending w))"

definition executes :: "service_env \<Rightarrow> attended_world \<Rightarrow> attended_world \<Rightarrow> bool" where
  "executes env w v \<longleftrightarrow> (\<exists>k run phrase now es t. dict_get (tw_pending w) k = Some run \<and>
     tw_log v = tw_log w @ Accepted k phrase now # es \<and> session_log (te_hash env) k (pr_preview run) es \<and>
     av_expires (pr_preview run) = Some t \<and> time_reached now t = Inr False \<and>
     av_phrase (pr_preview run) = Some (py_strip phrase) \<and> tw_pending v = dict_del k (tw_pending w))"

definition idles :: "attended_world \<Rightarrow> attended_world \<Rightarrow> bool" where
  "idles w v \<longleftrightarrow> (\<exists>es. quiet es \<and> tw_log v = tw_log w @ es) \<and>
     (tw_pending v = tw_pending w \<or> (\<exists>k. tw_pending v = dict_del k (tw_pending w)))"

lemma idlesI: "same_front w v \<Longrightarrow> idles w v"
  by (auto simp: idles_def same_front_def quiet_def)

lemma settle_run_front: "settle_run env k p g now seen w = (r, v) \<Longrightarrow> same_front w v"
  by (auto simp: settle_run_def Let_def bind_def catch_def andthen_def same_front_def
      split: prod.splits sum.splits if_splits dest!: finalize_run_front commit_ownership_front)

lemma accepted_phrase:
  "phrase_accepted acknowledged phrase expected = Inr True \<Longrightarrow> py_strip phrase = expected"
  by (auto simp: phrase_accepted_def compare_digest_def split: if_splits)

text \<open>From the accepted approval on.\<close>

lemma accepted_run_cases:
  assumes "bind (on_registry load_registry) (\<lambda>g.
      andthen (update (\<lambda>w. w\<lparr>tw_started := False\<rparr>))
      (bind (on_exception (with_session an (execute_in_session env an k p g))
         (bind (get tw_started) (\<lambda>started.
            finalize_run env k (if started then Indeterminate else Failed_Unchanged) None))) (\<lambda>ended.
       case ended of Inl r \<Rightarrow> return r | Inr seen \<Rightarrow> settle_run env k p g now seen))) w = (r, v)"
  shows "tw_pending v = tw_pending w \<and> (\<exists>es. tw_log v = tw_log w @ es \<and> session_log (te_hash env) k p es)"
proof -
  obtain x u where x: "on_registry load_registry w = (x, u)" by fastforce
  note u = on_registry_front [OF x]
  show ?thesis
  proof (cases x)
    case (Inl e)
    then show ?thesis using assms x u by (auto simp: bind_def same_front_def session_log_def)
  next
    case (Inr g)
    define u' where "u' = u\<lparr>tw_started := False\<rparr>"
    have u': "same_front w u'" using u by (simp add: u'_def same_front_def)
    obtain y s where y: "on_exception (with_session an (execute_in_session env an k p g))
         (bind (get tw_started) (\<lambda>started.
            finalize_run env k (if started then Indeterminate else Failed_Unchanged) None)) u' = (y, s)" by fastforce
    obtain s' q where s': "with_session an (execute_in_session env an k p g) u' = (q, s')" "same_front s' s"
      using on_exception_cases [OF y] close_run_front by blast
    have "tw_pending s' = tw_pending u' \<and> (\<exists>es. tw_log s' = tw_log u' @ es \<and> session_log (te_hash env) k p es)"
      using with_session_cases [OF s'(1)] execute_in_session_cases by (auto simp: session_log_def)
    moreover have "same_front s v"
      using assms x Inr y by (auto simp: bind_def andthen_def u'_def split: sum.splits dest!: settle_run_front)
    ultimately show ?thesis using u' s'(2) by (auto simp: same_front_def)
  qed
qed

lemma execute_run_cases:
  assumes "execute_run env an k phrase acknowledged w = (r, v)"
  shows "executes env w v \<or> idles w v"
proof (cases "dict_get (tw_pending w) k")
  case None
  then show ?thesis using assms by (auto simp: execute_run_def bind_def intro: idlesI)
next
  case (Some run)
  define p where "p = pr_preview run"
  obtain now u where u: "system_now env w = (Inr now, u)" "same_front w u"
    using system_now_front by (metis surj_pair)
  let ?expired = "case av_expires p of None \<Rightarrow> return True | Some t \<Rightarrow> lift (time_reached now t)"
  let ?accepted = "case av_phrase p of None \<Rightarrow> Inr False | Some expected \<Rightarrow> phrase_accepted acknowledged phrase expected"
  obtain x where x: "?expired u = (x, u)" by (cases "av_expires p") auto
  consider (stop) "same_front w v"
    | (expired) u' :: attended_world where "same_front u u'" "tw_log v = tw_log u'" "tw_pending v = dict_del k (tw_pending u')"
    | (go) t es and u' :: attended_world where "av_expires p = Some t" "time_reached now t = Inr False" "av_phrase p = Some (py_strip phrase)"
      "tw_log u' = tw_log u @ [Accepted k phrase now]" "tw_pending u' = dict_del k (tw_pending u)"
      "tw_pending v = tw_pending u'" "tw_log v = tw_log u' @ es" "session_log (te_hash env) k p es"
  proof (cases "x = Inr False \<and> ?accepted = Inr True")
    case True
    define u' where "u' = u\<lparr>tw_pending := dict_del k (tw_pending u), tw_log := tw_log u @ [Accepted k phrase now]\<rparr>"
    have "tw_pending v = tw_pending u' \<and> (\<exists>es. tw_log v = tw_log u' @ es \<and> session_log (te_hash env) k p es)"
      using assms Some u(1) x True
      by (intro accepted_run_cases [of an env k p now u' r v])
        (simp add: execute_run_def Let_def bind_def [of "system_now env"] bind_def [of "get f" for f] bind_def [of "lift c" for c]
          bind_def [of ?expired] andthen_def discard_pending_def note_event_def bind_def [of "update f" for f] u'_def flip: p_def)
    moreover obtain t where "av_expires p = Some t" "time_reached now t = Inr False"
      using x True by (cases "av_expires p") auto
    moreover have "av_phrase p = Some (py_strip phrase)"
      using True by (auto split: option.splits dest: accepted_phrase)
    ultimately show thesis by (auto intro!: go [of t u'] simp: u'_def)
  next
    case False
    show thesis
    proof (cases "x = Inr True")
      case True
      obtain q u' where q: "finalize_run env k Confirmation_Rejected None u = (q, u')" by fastforce
      have "v = u'\<lparr>tw_pending := dict_del k (tw_pending u')\<rparr>"
        using assms Some u(1) x True q
        by (cases q) (simp_all add: execute_run_def Let_def bind_def [of "system_now env"] bind_def [of "get f" for f] bind_def [of "lift c" for c]
          bind_def [of ?expired] andthen_def discard_pending_def bind_def [of "update f" for f] flip: p_def)
      then show thesis using finalize_run_front [OF q] by (intro expired [of u']) auto
    next
      case no: False
      have "v = u"
        using assms Some u(1) x False no
        by (cases x; cases ?accepted)
          (auto simp: execute_run_def Let_def bind_def [of "system_now env"] bind_def [of "get f" for f] bind_def [of "lift c" for c]
            bind_def [of ?expired] simp flip: p_def)
      then show thesis using u(2) by (intro stop) simp
    qed
  qed
  then show ?thesis
  proof cases
    case go
    then have "executes env w v" using Some u(2)
      unfolding executes_def by (intro exI [of _ k] exI [of _ run] exI [of _ phrase] exI [of _ now]) (auto simp: p_def same_front_def)
    then show ?thesis by simp
  next
    case expired
    then show ?thesis using u(2) by (auto simp: idles_def same_front_def quiet_def)
  qed (simp add: idlesI)
qed

lemma same_front_trans: "same_front u v \<Longrightarrow> same_front v w \<Longrightarrow> same_front u w"
  by (simp add: same_front_def)

lemma idles_after: "same_front w u \<Longrightarrow> idles u v \<Longrightarrow> idles w v" "same_front u v \<Longrightarrow> idles w u \<Longrightarrow> idles w v"
  by (auto simp: idles_def same_front_def)

lemma presents_after: "same_front w u \<Longrightarrow> presents env u v \<Longrightarrow> presents env w v"
  by (fastforce simp: presents_def same_front_def)

text \<open>From the browser session on.\<close>

lemma shown_preview_cases:
  assumes "bind (on_exception (with_session an (preview_in_session env an settings k started plan s g))
        (finalize_run env k Failed_Unchanged None)) (\<lambda>p.
     andthen (on_audit k (attended_record_preview (attended_env.truncate env) p))
     (andthen (if av_mode p = Live_Mode \<and> av_has_mutations p then put_pending settings p
        else finalize_run env k (if \<not> av_has_mutations p then No_Change_Required else Dry_Run_Preview_Ready) None)
     (return p))) w = (r, v)"
  shows "presents env w v \<or> idles w v"
proof -
  obtain x u where x: "on_exception (with_session an (preview_in_session env an settings k started plan s g))
        (finalize_run env k Failed_Unchanged None) w = (x, u)" by fastforce
  obtain q u' where u': "with_session an (preview_in_session env an settings k started plan s g) w = (q, u')" "same_front u' u"
    using on_exception_cases [OF x] finalize_run_front by blast
  have seen: "tw_pending u' = tw_pending w \<and> (\<exists>es. quiet es \<and> tw_log u' = tw_log w @ es)"
    using with_session_cases [OF u'(1)] preview_in_session_cases by (fastforce simp: quiet_def)
  then have idle: "idles w u" using u'(2) by (auto simp: idles_def same_front_def)
  show ?thesis
  proof (cases x)
    case (Inl e)
    then show ?thesis using assms x idle by (auto simp: bind_def)
  next
    case (Inr p)
    obtain y t where y: "on_audit k (attended_record_preview (attended_env.truncate env) p) u = (y, t)" by fastforce
    note t = on_audit_front [OF y]
    show ?thesis
    proof (cases "(\<exists>z. y = Inr z) \<and> av_mode p = Live_Mode \<and> av_has_mutations p")
      case True
      then have v: "tw_log v = tw_log t @ [Presented (av_run_id p) p] \<and>
          tw_pending v = dict_put (av_run_id p) \<lparr>pr_settings = settings, pr_preview = p\<rparr> (tw_pending t)"
        using assms x Inr y by (auto simp: bind_def andthen_def put_pending_def note_event_def)
      have "q = Inr p" and "preview_in_session env an settings k started plan s g w = (Inr p, u')"
        using x u'(1) Inr by (auto simp: on_exception_def catch_def andthen_def bind_def with_session_def
            split: sum.splits prod.splits if_splits)
      then have "live_preview env k p" using True preview_in_session_cases by blast
      then have "presents env w v" using v seen t u'(2) unfolding presents_def
        by (auto simp: same_front_def live_preview_def intro!: exI [of _ p] exI [of _ "\<lparr>pr_settings = settings, pr_preview = p\<rparr>"])
      then show ?thesis by simp
    next
      case False
      then have "same_front t v"
        using assms x Inr y by (auto simp: bind_def andthen_def split: sum.splits prod.splits if_splits dest!: finalize_run_front)
      then show ?thesis using idle t by (blast intro: idles_after)
    qed
  qed
qed

definition moving :: "service_env \<Rightarrow> (attended_world, 'a) act \<Rightarrow> bool" where
  "moving env m \<longleftrightarrow> (\<forall>w r v. m w = (r, v) \<longrightarrow> presents env w v \<or> idles w v)"

lemma moving_bind:
  assumes "\<And>w q u. m w = (q, u) \<Longrightarrow> same_front w u" and "\<And>x. moving env (f x)"
  shows "moving env (bind m f)"
  unfolding moving_def
proof (intro allI impI)
  fix w r v
  assume b: "bind m f w = (r, v)"
  obtain q u where q: "m w = (q, u)" by fastforce
  show "presents env w v \<or> idles w v"
  proof (cases q)
    case (Inl e)
    then show ?thesis using b q assms(1) [OF q] by (auto simp: bind_def intro: idlesI)
  next
    case (Inr x)
    then have "f x u = (r, v)" using b q by (simp add: bind_def)
    then show ?thesis using assms(1) [OF q] assms(2) [of x]
      unfolding moving_def by (blast intro: presents_after idles_after)
  qed
qed

lemma moving_raise: "moving env (raise e)"
  by (simp add: moving_def idlesI)

lemma lift_front: "lift a w = (q, u) \<Longrightarrow> same_front w u"
  by simp

lemma review_front:
  "(case reviewed of None \<Rightarrow> return () | Some t \<Rightarrow> on_audit k (m t)) w = (q, u) \<Longrightarrow> same_front w u"
  by (cases reviewed) (auto dest: on_audit_front)

lemma moving_shown: "moving env (bind (on_exception (with_session an (preview_in_session env an settings k started plan s g))
        (finalize_run env k Failed_Unchanged None)) (\<lambda>p.
     andthen (on_audit k (attended_record_preview (attended_env.truncate env) p))
     (andthen (if av_mode p = Live_Mode \<and> av_has_mutations p then put_pending settings p
        else finalize_run env k (if \<not> av_has_mutations p then No_Change_Required else Dry_Run_Preview_Ready) None)
     (return p))))"
  unfolding moving_def using shown_preview_cases by blast

lemma moving_andthen:
  "(\<And>w q u. m w = (q, u) \<Longrightarrow> same_front w u) \<Longrightarrow> moving env n \<Longrightarrow> moving env (andthen m n)"
  unfolding andthen_def by (rule moving_bind)

lemma moving_if: "moving env m \<Longrightarrow> moving env (if P then raise e else m)"
  by (simp add: moving_raise)

lemma moving_preview: "moving env (attended_preview_run env an settings plan reviewed evidence)"
  unfolding attended_preview_run_def Let_def
  by (rule moving_shown moving_if |
      (rule moving_andthen moving_bind, (auto dest: next_uuid_front system_now_front on_registry_front new_audit_front
        lift_front review_front)[1]))+

lemma moving_return: "moving env (return x)"
  by (simp add: moving_def idlesI)

lemma moving_review: "moving env (record_plan_review env settings plan t evidence)"
  unfolding record_plan_review_def Let_def
  by (rule moving_return |
      (rule moving_andthen moving_bind, (auto dest: next_uuid_front system_now_front new_audit_front
        on_audit_front finalize_run_front)[1]))+

lemma moving_cancel: "moving env (cancel_run env k)"
  by (auto simp: moving_def cancel_run_def bind_def andthen_def discard_pending_def idles_def quiet_def same_front_def
      split: option.splits sum.splits dest!: finalize_run_front)

section \<open>Requests to the service\<close>

datatype attended_request =
    Do_Preview browser_answers attended_settings task_plan "transcript option" "json option"
  | Do_Review attended_settings task_plan transcript "json option"
  | Do_Execute browser_answers string string bool
  | Do_Cancel string

fun attend :: "service_env \<Rightarrow> attended_request \<Rightarrow> attended_world \<Rightarrow> attended_world" where
  "attend env (Do_Preview an settings plan reviewed evidence) w =
     snd (attended_preview_run env an settings plan reviewed evidence w)"
| "attend env (Do_Review settings plan t evidence) w = snd (record_plan_review env settings plan t evidence w)"
| "attend env (Do_Execute an k phrase acknowledged) w = snd (execute_run env an k phrase acknowledged w)"
| "attend env (Do_Cancel k) w = snd (cancel_run env k w)"

lemma attend_cases: "presents env w (attend env x w) \<or> executes env w (attend env x w) \<or> idles w (attend env x w)"
proof -
  have "moving env m \<Longrightarrow> presents env w (snd (m w)) \<or> idles w (snd (m w))" for m :: "(attended_world, 'a) act"
    unfolding moving_def by (metis prod.collapse)
  note step = this [OF moving_preview] this [OF moving_review] this [OF moving_cancel]
  show ?thesis
  proof (cases x)
    case (Do_Execute an k phrase acknowledged)
    then show ?thesis using execute_run_cases [of env an k phrase acknowledged w] by (auto simp: prod_eq_iff)
  qed (use step in \<open>simp; blast\<close>)+
qed

section \<open>The invariant\<close>

fun front_run :: "attended_event \<Rightarrow> string option" where
  "front_run (Presented k _) = Some k"
| "front_run (Accepted k _ _) = Some k"
| "front_run _ = None"

text \<open>The preview of the run was presented last, and has not been accepted since.\<close>

definition open_preview :: "service_env \<Rightarrow> attended_event list \<Rightarrow> string \<Rightarrow> attended_preview \<Rightarrow> bool" where
  "open_preview env us k p \<longleftrightarrow> (\<exists>past since. us = past @ Presented k p # since \<and> Some k \<notin> front_run ` set since \<and>
     live_preview env k p)"

definition licensed :: "service_env \<Rightarrow> attended_event list \<Rightarrow> string \<Rightarrow> json \<Rightarrow> admin_permit \<Rightarrow> bool" where
  "licensed env us k change permit \<longleftrightarrow> (\<exists>before p phrase now x s t. us = before @ [Accepted k phrase now, x] \<and>
     open_preview env before k p \<and> av_phrase p = Some (py_strip phrase) \<and> av_expires p = Some t \<and>
     time_reached now t = Inr False \<and> read_of x = Some (k, Inr s) \<and>
     canonical_hash (te_hash env) (dump_surface_state s) = av_before_hash p \<and>
     change_of p = Some change \<and> permits p permit)"

definition all_licensed :: "service_env \<Rightarrow> attended_event list \<Rightarrow> bool" where
  "all_licensed env l \<longleftrightarrow> (\<forall>us y vs k change permit. l = us @ y # vs \<and> write_of y = Some (k, change, permit) \<longrightarrow>
     licensed env us k change permit)"

definition attended_ok :: "service_env \<Rightarrow> attended_world \<Rightarrow> bool" where
  "attended_ok env w \<longleftrightarrow> all_licensed env (tw_log w) \<and>
     (\<forall>k run. dict_get (tw_pending w) k = Some run \<longrightarrow> open_preview env (tw_log w) k (pr_preview run))"

lemma all_licensed_snoc:
  "all_licensed env (l @ [e]) \<longleftrightarrow> all_licensed env l \<and>
     (\<forall>k change permit. write_of e = Some (k, change, permit) \<longrightarrow> licensed env l k change permit)"
proof -
  have "l @ [e] = us @ x # vs \<longleftrightarrow> (vs = [] \<and> us = l \<and> x = e) \<or> (\<exists>ws. vs = ws @ [e] \<and> l = us @ x # ws)"
    for us x vs by (cases vs rule: rev_cases) auto
  then show ?thesis unfolding all_licensed_def by auto
qed

lemma all_licensed_quiet:
  "(\<And>x. x \<in> set es \<Longrightarrow> write_of x = None) \<Longrightarrow> all_licensed env (l @ es) = all_licensed env l"
proof (induction es rule: rev_induct)
  case (snoc e es)
  then show ?case using all_licensed_snoc [of env "l @ es" e] by simp
qed simp

lemma open_preview_append:
  "open_preview env us k p \<Longrightarrow> Some k \<notin> front_run ` set es \<Longrightarrow> open_preview env (us @ es) k p"
  unfolding open_preview_def by fastforce

lemma read_is_quiet: "read_of x = Some y \<Longrightarrow> front_run x = None \<and> write_of x = None"
  by (cases x) auto

lemma write_is_quiet: "write_of x = Some y \<Longrightarrow> front_run x = None"
  by (cases x) auto

lemma quiet_front: "quiet es \<Longrightarrow> Some k \<notin> front_run ` set es" "quiet es \<Longrightarrow> x \<in> set es \<Longrightarrow> write_of x = None"
  using read_is_quiet by (fastforce simp: quiet_def)+

lemma session_front: "session_log H k p es \<Longrightarrow> Some j \<notin> front_run ` set es"
  using read_is_quiet write_is_quiet by (fastforce simp: session_log_def)

lemma session_licensed:
  assumes "session_log (te_hash env) k p es" and "open_preview env us k p" and "all_licensed env us"
    and "av_phrase p = Some (py_strip phrase)" "av_expires p = Some t" "time_reached now t = Inr False"
  shows "all_licensed env (us @ Accepted k phrase now # es)"
proof -
  have start: "all_licensed env (us @ [Accepted k phrase now])"
    using assms(3) by (simp add: all_licensed_snoc)
  have one: "all_licensed env (us @ [Accepted k phrase now, x])" if "read_of x = Some y" for x y
    using start read_is_quiet [OF that] all_licensed_snoc [of env "us @ [Accepted k phrase now]" x] by simp
  have two: "all_licensed env (us @ [Accepted k phrase now, x, y])"
    if x: "read_of x = Some (k, Inr s)" and h: "canonical_hash (te_hash env) (dump_surface_state s) = av_before_hash p"
      and y: "write_of y = Some (k, change, permit)" and c: "change_of p = Some change" "permits p permit"
    for x y s change permit
  proof -
    have "licensed env (us @ [Accepted k phrase now, x]) k change permit"
      using x h c assms(2,4-6) unfolding licensed_def by blast
    then show ?thesis
      using one [OF x] y all_licensed_snoc [of env "us @ [Accepted k phrase now, x]" y] by simp
  qed
  have three: "all_licensed env (us @ [Accepted k phrase now, x, y, z])"
    if "all_licensed env (us @ [Accepted k phrase now, x, y])" and z: "read_of z = Some r" for x y z r
    using that(1) read_is_quiet [OF z] all_licensed_snoc [of env "us @ [Accepted k phrase now, x, y]" z] by simp
  from assms(1) start one two three show ?thesis unfolding session_log_def by metis
qed

lemma executes_ok:
  assumes "attended_ok env w" and "executes env w v"
  shows "attended_ok env v"
proof -
  obtain k run phrase now es t where e: "dict_get (tw_pending w) k = Some run"
      "tw_log v = tw_log w @ Accepted k phrase now # es" "session_log (te_hash env) k (pr_preview run) es"
      "av_expires (pr_preview run) = Some t" "time_reached now t = Inr False"
      "av_phrase (pr_preview run) = Some (py_strip phrase)" "tw_pending v = dict_del k (tw_pending w)"
    using assms(2) by (auto simp: executes_def)
  have "all_licensed env (tw_log v)"
    unfolding e(2) by (rule session_licensed [OF e(3) _ _ e(6,4,5)]) (use assms(1) e(1) in \<open>auto simp: attended_ok_def\<close>)
  moreover have "open_preview env (tw_log v) j (pr_preview run')"
    if "dict_get (tw_pending v) j = Some run'" for j run'
  proof -
    have "j \<noteq> k" "dict_get (tw_pending w) j = Some run'"
      using that e(7) by (auto simp: delete_conv' split: if_splits)
    then have "open_preview env (tw_log w) j (pr_preview run')" using assms(1) by (simp add: attended_ok_def)
    then show ?thesis unfolding e(2)
      by (rule open_preview_append) (use session_front [OF e(3)] \<open>j \<noteq> k\<close> in auto)
  qed
  ultimately show ?thesis by (simp add: attended_ok_def)
qed

lemma presents_ok:
  assumes "attended_ok env w" and "presents env w v"
  shows "attended_ok env v"
proof -
  obtain es k p run where e: "quiet es" "tw_log v = (tw_log w @ es) @ [Presented k p]" "live_preview env k p"
      "pr_preview run = p" "tw_pending v = dict_put k run (tw_pending w)"
    using assms(2) by (auto simp: presents_def)
  have "all_licensed env (tw_log w @ es)"
    using assms(1) quiet_front(2) [OF e(1)] all_licensed_quiet [of es env "tw_log w"] by (simp add: attended_ok_def)
  then have "all_licensed env (tw_log v)"
    unfolding e(2) all_licensed_snoc by simp
  moreover have "open_preview env (tw_log v) j (pr_preview run')"
    if "dict_get (tw_pending v) j = Some run'" for j run'
  proof (cases "j = k")
    case True
    then have "run' = run" using that e(5) by (simp add: update_conv')
    then show ?thesis using True e(2-4) unfolding open_preview_def
      by (intro exI [of _ "tw_log w @ es"] exI [of _ "[]"]) simp
  next
    case False
    then have "open_preview env (tw_log w) j (pr_preview run')"
      using that e(5) assms(1) by (simp add: update_conv' attended_ok_def)
    then have "open_preview env (tw_log w @ (es @ [Presented k p])) j (pr_preview run')"
      by (rule open_preview_append) (use quiet_front(1) [OF e(1)] False in auto)
    then show ?thesis using e(2) by simp
  qed
  ultimately show ?thesis by (simp add: attended_ok_def)
qed

lemma idles_ok:
  assumes "attended_ok env w" and "idles w v"
  shows "attended_ok env v"
proof -
  obtain es where e: "quiet es" "tw_log v = tw_log w @ es"
    and d: "tw_pending v = tw_pending w \<or> (\<exists>k. tw_pending v = dict_del k (tw_pending w))"
    using assms(2) by (auto simp: idles_def)
  have "dict_get (tw_pending v) j = Some run \<Longrightarrow> dict_get (tw_pending w) j = Some run" for j run
    using d by (auto simp: delete_conv' split: if_splits)
  moreover have "all_licensed env (tw_log v)"
    using assms(1) quiet_front(2) [OF e(1)] all_licensed_quiet [of es env "tw_log w"] e(2) by (simp add: attended_ok_def)
  ultimately show ?thesis
    using assms(1) open_preview_append quiet_front(1) [OF e(1)] e(2) unfolding attended_ok_def by metis
qed

lemma attend_ok: "attended_ok env w \<Longrightarrow> attended_ok env (fold (attend env) xs w)"
proof (induction xs arbitrary: w)
  case (Cons x xs)
  then have "attended_ok env (attend env x w)"
    using attend_cases executes_ok presents_ok idles_ok by blast
  then show ?case using Cons.IH by simp
qed simp

lemma fresh_service_ok: "tw_pending w = [] \<Longrightarrow> tw_log w = [] \<Longrightarrow> attended_ok env w"
  by (simp add: attended_ok_def all_licensed_def)

end
