(* ===== verification/Workflow_Protocol.thy ===== *)
theory Workflow_Protocol
  imports Workflow
begin

text \<open>
  What a run may do to the console, as an abstract protocol over the log of its calls, and the
  simulation that shows the graph of \<open>Workflow\<close> keeps to it: a change set is applied only
  after the operator approved its digests and a fresh read has the approved digest, a second
  time only after an uncertain first attempt whose read-back has that digest again, and never
  a third time.
\<close>

section \<open>The protocol\<close>

datatype protocol =
    Idle
  | Granted confirmation_request confirmation_response
  | Fresh_Read confirmation_request confirmation_response
  | Written confirmation_request confirmation_response nat mutation_result
  | Observed confirmation_request confirmation_response nat mutation_result "blocked_state option"
  | Broken

text \<open>The operator was shown the digests of the change set and of the state before it.\<close>

definition well_presented :: "(string \<Rightarrow> string) \<Rightarrow> confirmation_request \<Rightarrow> bool" where
  "well_presented H q \<longleftrightarrow>
     cq_change_hash q = canonical_hash H (dump_change_set (cq_change_set q)) \<and>
     cq_before_hash q = canonical_hash H (dump_blocked_state (ch_before (cq_change_set q)))"

definition grants :: "confirmation_request \<Rightarrow> confirmation_response \<Rightarrow> bool" where
  "grants q a \<longleftrightarrow> cf_approved a \<and> cf_plan_hash a = cq_plan_hash q \<and>
     cf_before_hash a = cq_before_hash q \<and> cf_change_hash a = cq_change_hash q"

definition approved_state :: "(string \<Rightarrow> string) \<Rightarrow> confirmation_response \<Rightarrow> blocked_state \<Rightarrow> bool" where
  "approved_state H a s \<longleftrightarrow> canonical_hash H (dump_blocked_state s) = cf_before_hash a"

definition after_write :: "confirmation_request \<Rightarrow> confirmation_response \<Rightarrow> nat \<Rightarrow> mutation_result res \<Rightarrow> protocol" where
  "after_write q a k r = (case r of Inl _ \<Rightarrow> Broken | Inr m \<Rightarrow> Written q a k m)"

definition reading :: "blocked_state res \<Rightarrow> blocked_state option" where
  "reading r = (case r of Inl _ \<Rightarrow> None | Inr s \<Rightarrow> Some s)"

fun protocol_step :: "(string \<Rightarrow> string) \<Rightarrow> protocol \<Rightarrow> call \<Rightarrow> protocol option" where
  "protocol_step H Idle (Plan_Call _ _) = Some Idle"
| "protocol_step H Idle (Preflight_Call _) = Some Idle"
| "protocol_step H Idle (Read_Call _) = Some Idle"
| "protocol_step H Idle (Confirmation_Call q a) =
     (if \<not> well_presented H q then None else if grants q a then Some (Granted q a) else Some Idle)"
| "protocol_step H (Granted q a) (Read_Call r) =
     (case reading r of
        Some s \<Rightarrow> if approved_state H a s then Some (Fresh_Read q a) else Some Idle
      | None \<Rightarrow> Some Idle)"
| "protocol_step H (Fresh_Read q a) (Apply_Call c r) =
     (if c = cq_change_set q then Some (after_write q a 1 r) else None)"
| "protocol_step H (Written q a k m) (Verification_Read_Call r) = Some (Observed q a k m (reading r))"
| "protocol_step H (Observed q a k m observed) (Apply_Call c r) =
     (case observed of
        Some s \<Rightarrow> if k = 1 \<and> c = cq_change_set q \<and> mr_status m = Uncertain \<and> approved_state H a s
          then Some (after_write q a 2 r) else None
      | None \<Rightarrow> None)"
| "protocol_step H _ _ = None"

definition protocol_run :: "(string \<Rightarrow> string) \<Rightarrow> call list \<Rightarrow> protocol option" where
  "protocol_run H cs = fold (\<lambda>c q. Option.bind q (\<lambda>p. protocol_step H p c)) cs (Some Idle)"

lemma protocol_run_nil [simp]: "protocol_run H [] = Some Idle"
  by (simp add: protocol_run_def)

lemma protocol_run_snoc [simp]:
  "protocol_run H (cs @ [c]) = Option.bind (protocol_run H cs) (\<lambda>p. protocol_step H p c)"
  by (simp add: protocol_run_def)

fun written :: "protocol \<Rightarrow> bool" where
  "written (Written _ _ _ _) = True"
| "written (Observed _ _ _ _ _) = True"
| "written Broken = True"
| "written _ = False"

section \<open>What the protocol promises\<close>

fun is_apply :: "call \<Rightarrow> bool" where
  "is_apply (Apply_Call _ _) = True"
| "is_apply _ = False"

definition applied_sets :: "call list \<Rightarrow> change_set list" where
  "applied_sets cs = concat (map (\<lambda>c. case c of Apply_Call x _ \<Rightarrow> [x] | _ \<Rightarrow> []) cs)"

lemma applied_sets_simps [simp]:
  "applied_sets [] = []" "applied_sets (us @ vs) = applied_sets us @ applied_sets vs"
  "applied_sets (c # cs) = (case c of Apply_Call x _ \<Rightarrow> x # applied_sets cs | _ \<Rightarrow> applied_sets cs)"
  by (simp_all add: applied_sets_def split: call.split)

text \<open>What the state of the protocol says of the calls behind it.\<close>

definition approved_for :: "(string \<Rightarrow> string) \<Rightarrow> call list \<Rightarrow> confirmation_request \<Rightarrow> confirmation_response \<Rightarrow> bool" where
  "approved_for H cs q a \<longleftrightarrow> Confirmation_Call q a \<in> set cs \<and> well_presented H q \<and> grants q a"

fun history :: "(string \<Rightarrow> string) \<Rightarrow> call list \<Rightarrow> protocol \<Rightarrow> bool" where
  "history H cs Idle \<longleftrightarrow> applied_sets cs = []"
| "history H cs (Granted q a) \<longleftrightarrow> applied_sets cs = [] \<and> approved_for H cs q a"
| "history H cs (Fresh_Read q a) \<longleftrightarrow> applied_sets cs = [] \<and> approved_for H cs q a \<and>
     (\<exists>us s. cs = us @ [Read_Call (Inr s)] \<and> approved_state H a s)"
| "history H cs (Written q a k m) \<longleftrightarrow> applied_sets cs = replicate k (cq_change_set q) \<and> 1 \<le> k \<and> k \<le> 2 \<and> approved_for H cs q a"
| "history H cs (Observed q a k m observed) \<longleftrightarrow> applied_sets cs = replicate k (cq_change_set q) \<and> 1 \<le> k \<and> k \<le> 2 \<and>
     approved_for H cs q a \<and> (\<exists>us r. cs = us @ [Verification_Read_Call r] \<and> reading r = observed)"
| "history H cs Broken \<longleftrightarrow> (\<exists>c. length (applied_sets cs) \<le> 2 \<and> set (applied_sets cs) = {c})"

lemma approved_for_snoc: "approved_for H cs q a \<Longrightarrow> approved_for H (cs @ [c]) q a"
  by (simp add: approved_for_def)

lemma reading_Some [simp]: "reading r = Some s \<longleftrightarrow> r = Inr s" "reading (Inr t) = Some t" "reading (Inl e) = None"
  by (auto simp: reading_def split: sum.splits)

lemma history_step:
  assumes "history H cs q" and "protocol_step H q c = Some q'"
  shows "history H (cs @ [c]) q'"
  using assms
  by (cases "(H, q, c)" rule: protocol_step.cases)
    (auto simp: approved_for_snoc after_write_def numeral_2_eq_2 approved_for_def
      split: if_splits option.splits sum.splits)

lemma protocol_history: "protocol_run H cs = Some q \<Longrightarrow> history H cs q"
proof (induction cs arbitrary: q rule: rev_induct)
  case Nil
  then show ?case by (auto simp: applied_sets_def)
next
  case (snoc c cs)
  then obtain p where "protocol_run H cs = Some p" "protocol_step H p c = Some q"
    by (auto simp: bind_eq_Some_conv)
  then show ?case using snoc.IH history_step by blast
qed

lemma protocol_run_prefix: "protocol_run H (us @ vs) = Some q \<Longrightarrow> \<exists>p. protocol_run H us = Some p"
proof (induction vs arbitrary: q rule: rev_induct)
  case (snoc v vs)
  then show ?case by (metis append_assoc bind_eq_Some_conv protocol_run_snoc)
qed simp

text \<open>An application in an accepted log, what precedes it, and the bound.\<close>

lemma protocol_write:
  assumes "protocol_run H (us @ Apply_Call c r # vs) = Some q"
  obtains p a ws s where "approved_for H us p a" "c = cq_change_set p"
    "us = ws @ [Read_Call (Inr s)] \<or> us = ws @ [Verification_Read_Call (Inr s)]" "approved_state H a s"
    "applied_sets us = [] \<or> applied_sets us = [c]"
proof -
  from protocol_run_prefix [of H "us @ [Apply_Call c r]" vs] assms
  obtain x where "protocol_run H (us @ [Apply_Call c r]) = Some x" by auto
  then obtain y where y: "protocol_run H us = Some y" "protocol_step H y (Apply_Call c r) = Some x"
    by (auto simp: bind_eq_Some_conv)
  have h: "history H us y" by (rule protocol_history [OF y(1)])
  from y(2) h show thesis
  proof (cases "(H, y, Apply_Call c r)" rule: protocol_step.cases)
    case (6 H' p a c' r')
    then show thesis using y(2) h by (auto split: if_splits intro!: that)
  next
    case (8 H' p a k m observed c' r')
    then show thesis using y(2) h by (auto split: if_splits option.splits intro!: that)
  qed simp_all
qed

lemma protocol_bound:
  assumes "protocol_run H cs = Some q"
  shows "length (applied_sets cs) \<le> 2" "x \<in> set (applied_sets cs) \<Longrightarrow> y \<in> set (applied_sets cs) \<Longrightarrow> x = y"
  using protocol_history [OF assms] by (cases q; auto)+

lemma not_written: "protocol_run H cs = Some q \<Longrightarrow> applied_sets cs = [] \<or> written q"
  by (drule protocol_history) (cases q; auto)

lemma history_written: "history H cs q \<Longrightarrow> written q \<longleftrightarrow> applied_sets cs \<noteq> []"
  by (cases q) auto

end
