(* ===== verification/Workflow_Simulation.thy ===== *)
theory Workflow_Simulation
  imports Workflow_Protocol
begin

text \<open>
  The simulation between the graph and the protocol: what each pending message, question and
  result says of the protocol's state, kept by every executor. From it: every message reaches
  the one executor that takes it, and a result is never better than what was read.
\<close>

section \<open>Records leave the flag alone\<close>

definition keeps_started :: "(auditor, 'a) act \<Rightarrow> bool" where
  "keeps_started m \<longleftrightarrow> (\<forall>b. keeps (\<lambda>a. au_started a = b) m)"

lemma keeps_started_basic [simp]:
  "keeps_started (return x)" "keeps_started (raise e)" "keeps_started (lift r)" "keeps_started (get f)"
  "keeps_started (on_writer n)" "keeps_started (audit_now env)"
  "keeps_started (update (\<lambda>a. a\<lparr>au_warnings := g a\<rparr>))"
  by (auto simp: keeps_started_def keeps_def on_writer_def audit_now_def split: prod.splits)

lemma keeps_started_comp:
  "keeps_started m \<Longrightarrow> (\<And>x. keeps_started (f x)) \<Longrightarrow> keeps_started (bind m f)"
  "keeps_started m \<Longrightarrow> keeps_started n \<Longrightarrow> keeps_started (andthen m n)"
  "keeps_started m \<Longrightarrow> (\<And>e. keeps_started (h e)) \<Longrightarrow> keeps_started (catch m t h)"
  by (auto simp: keeps_started_def intro: keeps_bind keeps_andthen keeps_catch)

lemma keeps_started_put [simp]: "keeps_started (put_artifact pc)"
  unfolding put_artifact_def by (intro keeps_started_comp keeps_started_basic)

lemma keeps_started_each: "(\<And>x. keeps_started (f x)) \<Longrightarrow> keeps_started (each f xs)"
  by (induction xs) (auto intro: keeps_started_comp)

lemma keeps_started_record [simp]: "keeps_started (audit_record env f arts)"
  unfolding audit_record_def record_attempt_def append_facts_def
  by (intro keeps_started_comp keeps_started_each keeps_started_basic keeps_started_put)
    (auto intro: keeps_started_comp)

lemma keeps_started_records [simp]:
  "keeps_started (record_request env t)" "keeps_started (record_plan env p)"
  "keeps_started (record_preflight env pr)" "keeps_started (record_state env g s)"
  "keeps_started (record_prepared_change env pc)" "keeps_started (record_confirmation env c)"
  "keeps_started (record_mutation_result env pc n m)" "keeps_started (record_reconciliation env pc n d)"
  "keeps_started (record_verification env pc v)" "keeps_started (record_ownership_update env u)"
  by (simp_all add: record_request_def record_plan_def record_preflight_def record_state_def
      record_prepared_change_def record_confirmation_def record_mutation_result_def
      record_reconciliation_def record_verification_def record_ownership_update_def)

lemma keeps_started_finalize [simp]: "keeps_started (finalize env r)"
  unfolding finalize_def by (intro keeps_started_comp keeps_started_basic keeps_started_put)

lemma keeps_startedD: "keeps_started m \<Longrightarrow> au_started (snd (m a)) = au_started a"
  by (simp add: keeps_started_def keeps_def)

text \<open>A successful record of the start sets the flag, a refused one leaves it.\<close>

lemma record_mutation_started_flag:
  "wp (record_mutation_started env p n) (\<lambda>r b. if r = Inr () then au_started b else au_started b = au_started a) a"
proof -
  have "au_started (snd (audit_record env f arts a)) = au_started a" for f arts
    by (rule keeps_startedD) simp
  then show ?thesis
    by (auto simp: record_mutation_started_def wp_simps wp_def [of "audit_record env f arts" for env f arts]
        split: sum.splits)
qed

section \<open>Executors as preconditions\<close>

lemma wp_on_auditor:
  assumes "keeps_started m"
    and "\<And>r a. au_started a = au_started (wd_auditor w) \<Longrightarrow> Q r (w\<lparr>wd_auditor := a\<rparr>)"
  shows "wp (on_auditor m) Q w"
  using assms(2) keeps_startedD [OF assms(1), of "wd_auditor w"]
  by (cases "m (wd_auditor w)") (simp add: wp_def on_auditor_def)

lemma wp_on_store: "(\<And>r s. Q r (w\<lparr>wd_store := s\<rparr>)) \<Longrightarrow> wp (on_store m) Q w"
  by (simp add: wp_def on_store_def split: prod.splits)

lemma wp_ask [wp_simps]: "wp (ask c r) Q w \<longleftrightarrow> Q r (w\<lparr>wd_calls := wd_calls w @ [c r]\<rparr>)"
  by (simp add: ask_def wp_simps)

lemma wp_send [wp_simps]:
  "wp (send m) Q w \<longleftrightarrow> Q (Inr (Send m)) w"
  "wp (send_result status code) Q w \<longleftrightarrow> Q (Inr (Send (Terminal (plain_result status code)))) w"
  by (simp_all add: send_def send_result_def wp_simps)

lemma wp_read_console [wp_simps]:
  "wp (read_console c an) Q w \<longleftrightarrow>
     (let v = w\<lparr>wd_calls := wd_calls w @ [c (an_state an)]\<rparr>
      in case an_state an of
           Inr s \<Rightarrow> Q (Inr (Some s)) v
         | Inl e \<Rightarrow> if e = StateReadFailure then Q (Inr None) v else Q (Inl e) v)"
  by (auto simp: read_console_def wp_simps Let_def split: sum.splits)

section \<open>The simulation\<close>

definition presented :: "prepared_message \<Rightarrow> confirmation_request" where
  "presented p = \<lparr>cq_email = pi_email (pm_identity p), cq_domain = pi_domain (pm_identity p), cq_ou = ''/'',
     cq_plan_hash = pc_plan_hash p, cq_before_hash = pc_before_hash p, cq_change_hash = pc_change_hash p,
     cq_change_set = pc_change p, cq_notice_affected = dr_notice_affected (pc_desired p),
     cq_audit_directory = pm_directory p\<rparr>"

lemma presented_simps [simp]:
  "cq_plan_hash (presented p) = pc_plan_hash p" "cq_before_hash (presented p) = pc_before_hash p"
  "cq_change_hash (presented p) = pc_change_hash p" "cq_change_set (presented p) = pc_change p"
  by (simp_all add: presented_def)

definition wf_prepared :: "(string \<Rightarrow> string) \<Rightarrow> prepared_message \<Rightarrow> bool" where
  "wf_prepared H p \<longleftrightarrow>
     pc_plan_hash p = canonical_hash H (dump_task_plan (pc_plan p)) \<and>
     pc_before_hash p = canonical_hash H (dump_blocked_state (pc_current p)) \<and>
     pc_change_hash p = canonical_hash H (dump_change_set (pc_change p)) \<and>
     ch_before (pc_change p) = pc_current p \<and> ch_after (pc_change p) = dr_state (pc_desired p) \<and>
     has_mutations (pc_change p)"

lemma wf_prepared_presented [simp]: "wf_prepared H p \<Longrightarrow> well_presented H (presented p)"
  by (simp add: wf_prepared_def well_presented_def)

text \<open>The executor that takes a message.\<close>

fun taker :: "message \<Rightarrow> node" where
  "taker (User_Request _) = Planner"
| "taker (Planned_Task _ _) = Plan_Decision"
| "taker (Clarification_Pause _ _) = Clarification"
| "taker (Preflight_Request _) = Preflight"
| "taker (Login_Pause _ _ _) = Login"
| "taker (Preflight_Ready _ _) = Read_Current"
| "taker (Current_State _ _ _) = Compute"
| "taker (Prepared _) = Confirmation"
| "taker (Approved _) = Reread"
| "taker (Fresh _ _) = Drift"
| "taker (Command _) = Mutation"
| "taker (Reconciliation_Request _) = Reconciliation"
| "taker (Verification_Request _) = Verification"
| "taker (Verification_Outcome _ _ _) = Verification_Decision"
| "taker (Terminal _) = Audit_Finalization"

text \<open>A status is backed by what was read of the console.\<close>

definition read_matches :: "protocol \<Rightarrow> bool" where
  "read_matches q \<longleftrightarrow> (\<exists>pr a k m s v. q = Observed pr a k m (Some s) \<and>
     verify_state (ch_after (cq_change_set pr)) (Some s) = Inr v \<and> vr_status v = Matched)"

definition read_unchanged :: "(string \<Rightarrow> string) \<Rightarrow> protocol \<Rightarrow> bool" where
  "read_unchanged H q \<longleftrightarrow> (\<exists>pr a k m s. q = Observed pr a k m (Some s) \<and>
     (approved_state H a s \<or> mr_status m = Unchanged))"

definition honest :: "(string \<Rightarrow> string) \<Rightarrow> run_status \<Rightarrow> protocol \<Rightarrow> bool" where
  "honest H status q = (case status of
       Applied_Pending_Propagation \<Rightarrow> read_matches q
     | Failed_Unchanged \<Rightarrow> \<not> written q \<or> read_unchanged H q
     | Partially_Applied \<Rightarrow> written q
     | Indeterminate \<Rightarrow> written q
     | Applied_UI_Verified \<Rightarrow> False
     | Dry_Run_Preview_Ready \<Rightarrow> False
     | _ \<Rightarrow> \<not> written q)"

fun backed :: "(string \<Rightarrow> string) \<Rightarrow> message \<Rightarrow> protocol \<Rightarrow> bool" where
  "backed H (Prepared p) q \<longleftrightarrow> q = Idle \<and> wf_prepared H p"
| "backed H (Approved ap) q \<longleftrightarrow> wf_prepared H (ap_prepared ap) \<and> grants (presented (ap_prepared ap)) (ap_response ap) \<and>
     q = Granted (presented (ap_prepared ap)) (ap_response ap)"
| "backed H (Fresh ap s) q \<longleftrightarrow> wf_prepared H (ap_prepared ap) \<and> grants (presented (ap_prepared ap)) (ap_response ap) \<and>
     (if approved_state H (ap_response ap) s then q = Fresh_Read (presented (ap_prepared ap)) (ap_response ap)
      else q = Idle)"
| "backed H (Command c) q \<longleftrightarrow>
     (let p = command_change c; a = ap_response (cm_approved c)
      in wf_prepared H p \<and> grants (presented p) a \<and>
        (cm_retry c = 0 \<and> q = Fresh_Read (presented p) a \<or>
         cm_retry c = 1 \<and> (\<exists>m s. q = Observed (presented p) a 1 m (Some s) \<and> mr_status m = Uncertain \<and>
           approved_state H a s)))"
| "backed H (Reconciliation_Request mo) q \<longleftrightarrow>
     (let c = mo_command mo; p = command_change c; a = ap_response (cm_approved c)
      in wf_prepared H p \<and> grants (presented p) a \<and> cm_retry c \<le> 1 \<and>
        q = Written (presented p) a (Suc (cm_retry c)) (mo_result mo) \<and> mr_status (mo_result mo) = Uncertain)"
| "backed H (Verification_Request mo) q \<longleftrightarrow>
     (let c = mo_command mo; p = command_change c; a = ap_response (cm_approved c)
      in wf_prepared H p \<and> q = Written (presented p) a (Suc (cm_retry c)) (mo_result mo) \<and>
        mr_status (mo_result mo) \<in> {Completed, Unchanged})"
| "backed H (Verification_Outcome p m v) q \<longleftrightarrow>
     (\<exists>a k s. wf_prepared H p \<and> q = Observed (presented p) a k m (Some s) \<and> mr_status m \<noteq> Partial \<and>
        verify_state (dr_state (pc_desired p)) (Some s) = Inr v \<and> (mr_status m = Uncertain \<longrightarrow> vr_status v = Matched))"
| "backed H (Terminal r) q \<longleftrightarrow> honest H (rr_status r) q"
| "backed H _ q \<longleftrightarrow> q = Idle"

fun holds :: "(string \<Rightarrow> string) \<Rightarrow> pending \<Rightarrow> protocol \<Rightarrow> bool" where
  "holds H (Deliver n m) q \<longleftrightarrow> n = taker m \<and> backed H m q"
| "holds H (Paused (Ask_Confirmation presentation p)) q \<longleftrightarrow> q = Idle \<and> wf_prepared H p \<and> presentation = presented p"
| "holds H (Paused _) q \<longleftrightarrow> q = Idle"
| "holds H (Finished r) q \<longleftrightarrow> honest H (rr_status r) q"
| "holds H (Failed e) q \<longleftrightarrow> True"
| "holds H (Undelivered m) q \<longleftrightarrow> False"

text \<open>The log is one the protocol accepts, and the flag is set exactly when a write is in it.\<close>

definition stands :: "workflow_env \<Rightarrow> protocol \<Rightarrow> world \<Rightarrow> bool" where
  "stands env q w \<longleftrightarrow> protocol_run (text_hash env) (wd_calls w) = Some q \<and>
     written q = au_started (wd_auditor w)"

definition simulated :: "workflow_env \<Rightarrow> pending \<Rightarrow> world \<Rightarrow> bool" where
  "simulated env x w \<longleftrightarrow> (\<exists>q. stands env q w \<and> holds (text_hash env) x q)"

lemma simulatedI: "stands env q w \<Longrightarrow> holds (text_hash env) x q \<Longrightarrow> simulated env x w"
  by (auto simp: simulated_def)

lemma stands_world [simp]:
  "stands env q (w\<lparr>wd_store := s\<rparr>) = stands env q w"
  "stands env q (w\<lparr>wd_ids := n\<rparr>) = stands env q w"
  "au_started a = au_started (wd_auditor w) \<Longrightarrow> stands env q (w\<lparr>wd_auditor := a\<rparr>) = stands env q w"
  by (simp_all add: stands_def)

lemma stands_call:
  "stands env q w \<Longrightarrow> protocol_step (text_hash env) q c = Some q' \<Longrightarrow> written q' = written q \<Longrightarrow>
     stands env q' (w\<lparr>wd_calls := wd_calls w @ [c]\<rparr>)"
  by (auto simp: stands_def)

lemma wp_record:
  "stands env q w \<Longrightarrow> keeps_started m \<Longrightarrow> (\<And>r v. stands env q v \<Longrightarrow> Q r v) \<Longrightarrow> wp (on_auditor m) Q w"
  by (rule wp_on_auditor) auto

lemma simulated_failed [intro]: "stands env q w \<Longrightarrow> simulated env (Failed e) w"
  by (rule simulatedI) auto

section \<open>Delivery\<close>

lemma deliver_terminal [simp]:
  "n \<noteq> Planner \<Longrightarrow> n \<noteq> Clarification \<Longrightarrow> n \<noteq> Audit_Finalization \<Longrightarrow>
     deliver n (Terminal r) = Deliver Audit_Finalization (Terminal r)"
  by (cases n) (simp_all add: deliver_def targets_def edges_def)

lemma deliver_simps [simp]:
  "deliver Planner (Planned_Task t plan) = Deliver Plan_Decision (Planned_Task t plan)"
  "deliver Plan_Decision (Clarification_Pause t q) = Deliver Clarification (Clarification_Pause t q)"
  "deliver Plan_Decision (Preflight_Request plan) = Deliver Preflight (Preflight_Request plan)"
  "deliver Clarification (User_Request t) = Deliver Planner (User_Request t)"
  "deliver Preflight (Preflight_Ready plan i) = Deliver Read_Current (Preflight_Ready plan i)"
  "deliver Preflight (Login_Pause plan l e) = Deliver Login (Login_Pause plan l e)"
  "deliver Login (Preflight_Request plan) = Deliver Preflight (Preflight_Request plan)"
  "deliver Read_Current (Current_State plan i s) = Deliver Compute (Current_State plan i s)"
  "deliver Compute (Prepared p) = Deliver Confirmation (Prepared p)"
  "deliver Confirmation (Approved a) = Deliver Reread (Approved a)"
  "deliver Reread (Fresh a s) = Deliver Drift (Fresh a s)"
  "deliver Drift (Current_State plan i s) = Deliver Compute (Current_State plan i s)"
  "deliver Drift (Command c) = Deliver Mutation (Command c)"
  "deliver Mutation (Reconciliation_Request m) = Deliver Reconciliation (Reconciliation_Request m)"
  "deliver Mutation (Verification_Request m) = Deliver Verification (Verification_Request m)"
  "deliver Reconciliation (Command c) = Deliver Mutation (Command c)"
  "deliver Reconciliation (Verification_Outcome p mr v) = Deliver Verification_Decision (Verification_Outcome p mr v)"
  "deliver Verification (Verification_Outcome p mr v) = Deliver Verification_Decision (Verification_Outcome p mr v)"
  by (simp_all add: deliver_def targets_def edges_def)

lemma plain_result_status [simp]: "rr_status (plain_result status code) = status"
  by (simp add: plain_result_def)

section \<open>Before the change\<close>

lemma planner_simulated:
  "stands env Idle w \<Longrightarrow> wp (planner_handle env an t) (\<lambda>r. simulated env (after_node Planner r)) w"
  by (auto simp: planner_handle_def wp_simps intro!: wp_record stands_call intro: simulatedI split: sum.splits)

lemma plan_decision_simulated:
  "stands env Idle w \<Longrightarrow> wp (plan_decision_handle t plan) (\<lambda>r. simulated env (after_node Plan_Decision r)) w"
  by (auto simp: plan_decision_handle_def wp_simps honest_def intro: simulatedI
      split: sum.splits plan_status.splits option.splits)

lemma clarification_simulated:
  "stands env Idle w \<Longrightarrow> wp (clarification_resume t r) (\<lambda>r. simulated env (after_node Clarification r)) w"
  by (auto simp: clarification_resume_def wp_simps Let_def intro: simulatedI split: sum.splits)

lemma honest_before [simp]:
  "\<not> written q \<Longrightarrow> honest H Failed_Unchanged q" "\<not> written q \<Longrightarrow> honest H No_Change_Required q"
  "\<not> written q \<Longrightarrow> honest H Confirmation_Rejected q" "\<not> written q \<Longrightarrow> honest H Unsupported q"
  by (simp_all add: honest_def)

lemma preflight_simulated:
  "stands env Idle w \<Longrightarrow> wp (preflight_handle env an plan) (\<lambda>r. simulated env (after_node Preflight r)) w"
  by (auto simp: preflight_handle_def failed_preflight_message_def wp_simps intro!: wp_record stands_call
      intro: simulatedI split: sum.splits preflight_status.splits option.splits)

lemma login_simulated:
  "stands env Idle w \<Longrightarrow> wp (login_resume plan b) (\<lambda>r. simulated env (after_node Login r)) w"
  by (auto simp: login_resume_def wp_simps intro: simulatedI)

lemma stands_read:
  "stands env Idle w \<Longrightarrow> stands env Idle (w\<lparr>wd_calls := wd_calls w @ [Read_Call r]\<rparr>)"
  by (rule stands_call) auto

lemma read_current_simulated:
  "stands env Idle w \<Longrightarrow> wp (read_current_handle env an plan i) (\<lambda>r. simulated env (after_node Read_Current r)) w"
  by (auto simp: read_current_handle_def wp_simps Let_def intro!: wp_record stands_read
      intro: simulatedI split: sum.splits)

lemma calculated_change:
  assumes "change_service_calculate supply prefix plan s g n = (k, Inr (d, c))"
  shows "c = calculate_change_set s (dr_state d)" "ch_before c = s" "ch_after c = dr_state d"
  using assms by (auto simp: change_service_calculate_def Let_def calculate_change_set_def
      and_then_Inr_iff split: prod.splits)

lemma wp_calculate_change:
  assumes "stands env q w" and "\<And>e v. stands env q v \<Longrightarrow> Q (Inl e) v"
    and "\<And>d c v. stands env q v \<Longrightarrow> ch_before c = s \<Longrightarrow> ch_after c = dr_state d \<Longrightarrow> Q (Inr (d, c)) v"
  shows "wp (calculate_change env plan s) Q w"
proof -
  obtain k r where r: "change_service_calculate (we_supply env) (we_prefix env) plan s (we_registry env) (wd_ids w) = (k, r)"
    by fastforce
  show ?thesis
  proof (cases r)
    case (Inl e)
    then show ?thesis using r assms(1) assms(2) by (simp add: wp_def calculate_change_def)
  next
    case (Inr dc)
    then show ?thesis using r assms(1) assms(3) calculated_change(2,3)
      by (cases dc) (simp add: wp_def calculate_change_def)
  qed
qed

lemma compute_simulated:
  assumes "stands env Idle w"
  shows "wp (compute_handle env plan i s) (\<lambda>r. simulated env (after_node Compute r)) w"
  unfolding compute_handle_def wp_simps
  by (rule wp_calculate_change [OF assms])
    (auto simp: wp_simps Let_def wf_prepared_def prepared_change.defs prepared_message.defs
      intro!: wp_record intro: simulatedI split: sum.splits)

section \<open>Approval\<close>

lemma confirmation_request_simulated:
  assumes "stands env Idle w" and "wf_prepared (text_hash env) p"
  shows "wp (confirmation_request_handle p) (\<lambda>r. simulated env (after_node Confirmation r)) w"
  using assms
  by (auto simp: confirmation_request_handle_def wp_simps make_confirmation_request_def presented_def
      intro!: simulatedI split: sum.splits)

lemma confirmation_simulated:
  assumes "stands env Idle w" and "wf_prepared (text_hash env) p"
  shows "wp (confirmation_resume env (presented p) p a) (\<lambda>r. simulated env (after_node Confirmation r)) w"
proof -
  define q where "q = (if grants (presented p) a then Granted (presented p) a else Idle)"
  have "stands env q (w\<lparr>wd_calls := wd_calls w @ [Confirmation_Call (presented p) a]\<rparr>)"
    using assms by (intro stands_call [of env Idle]) (auto simp: q_def)
  then show ?thesis
    using assms(2)
    by (auto simp: confirmation_resume_def wp_simps q_def grants_def intro!: wp_record
        intro: simulatedI split: sum.splits if_splits)
qed

lemma reread_simulated:
  assumes "stands env (Granted (presented (ap_prepared ap)) (ap_response ap)) w"
    and "wf_prepared (text_hash env) (ap_prepared ap)" "grants (presented (ap_prepared ap)) (ap_response ap)"
  shows "wp (reread_handle env an ap) (\<lambda>r. simulated env (after_node Reread r)) w"
proof -
  let ?q = "\<lambda>r. case reading r of
      Some s \<Rightarrow> if approved_state (text_hash env) (ap_response ap) s
        then Fresh_Read (presented (ap_prepared ap)) (ap_response ap) else Idle
    | None \<Rightarrow> Idle"
  have "stands env (?q r) (w\<lparr>wd_calls := wd_calls w @ [Read_Call r]\<rparr>)" for r
    by (rule stands_call [OF assms(1)]) (auto split: option.splits)
  from this [of "an_state an"] show ?thesis
    using assms(2,3)
    by (auto simp: reread_handle_def wp_simps Let_def intro!: wp_record
        intro: simulatedI split: sum.splits if_splits)
qed

lemma drift_simulated:
  assumes "stands env q w" and "backed (text_hash env) (Fresh ap s) q"
  shows "wp (drift_handle env ap s) (\<lambda>r. simulated env (after_node Drift r)) w"
  using assms
  by (auto simp: drift_handle_def wp_simps Let_def state_has_drifted_def approved_state_def grants_def
      intro: simulatedI split: sum.splits if_splits)

section \<open>Mutation, reconciliation and verification\<close>

lemma mutation_simulated:
  assumes "stands env q w" and "backed (text_hash env) (Command c) q"
  shows "wp (mutation_handle env an c) (\<lambda>r. simulated env (after_node Mutation r)) w"
proof -
  let ?p = "command_change c" and ?a = "ap_response (cm_approved c)"
  define start where "start = record_mutation_started (we_audit env) (audited ?p) (cm_retry c + 1)"
  define next_state where "next_state r = after_write (presented ?p) ?a (Suc (cm_retry c)) r" for r
  have step: "protocol_step (text_hash env) q (Apply_Call (pc_change ?p) r) = Some (next_state r)" for r
    using assms(2) by (auto simp: Let_def next_state_def numeral_2_eq_2)
  have wf: "wf_prepared (text_hash env) ?p" "grants (presented ?p) ?a" "cm_retry c \<le> 1"
    using assms(2) by (auto simp: Let_def)
  have after: "stands env (next_state r) (v\<lparr>wd_calls := wd_calls v @ [Apply_Call (pc_change ?p) r]\<rparr>)"
    if "protocol_run (text_hash env) (wd_calls v) = Some q" "au_started (wd_auditor v)" for r v
    using that step by (auto simp: stands_def next_state_def after_write_def split: sum.splits)
  obtain r a where sa: "start (wd_auditor w) = (r, a)" by fastforce
  have flag: "if r = Inr () then au_started a else au_started a = au_started (wd_auditor w)"
    using record_mutation_started_flag [of "we_audit env" "audited ?p" "cm_retry c + 1" "wd_auditor w"] sa
    by (auto simp: start_def wp_def split: if_splits)
  have run: "protocol_run (text_hash env) (wd_calls (w\<lparr>wd_auditor := a\<rparr>)) = Some q"
    and refused: "r \<noteq> Inr () \<Longrightarrow> stands env q (w\<lparr>wd_auditor := a\<rparr>)"
    using flag assms(1) by (auto simp: stands_def)
  have "wp (on_auditor start) Q w = Q r (w\<lparr>wd_auditor := a\<rparr>)" for Q
    using sa by (simp add: wp_def on_auditor_def)
  moreover have "au_started a" if "r = Inr ()" using that flag by simp
  moreover have "x = Completed \<or> x = Unchanged" if "x \<noteq> Uncertain" "x \<noteq> Partial" for x
    using that by (cases x) auto
  ultimately show ?thesis
    using refused wf after [OF run] unfolding mutation_handle_def Let_def start_def [symmetric]
    by (cases r; cases "an_mutation an")
      (auto simp: wp_simps next_state_def after_write_def honest_def Let_def intro!: wp_record intro: simulatedI
        split: sum.splits if_splits mutation_status.splits)
qed

lemma stands_verification_read:
  "stands env (Written pr a k m) w \<Longrightarrow>
     stands env (Observed pr a k m (reading r)) (w\<lparr>wd_calls := wd_calls w @ [Verification_Read_Call r]\<rparr>)"
  by (rule stands_call) auto

lemma reconcile_facts:
  assumes "reconcile_mutation H b d (Some s) x = Inr r"
  shows "rd_outcome r = Desired_State_Present \<Longrightarrow> \<exists>v. verify_state d (Some s) = Inr v \<and> vr_status v = Matched"
    "rd_outcome r = Mutation_Not_Applied \<Longrightarrow>
       canonical_hash H (dump_blocked_state b) = canonical_hash H (dump_blocked_state s)"
  using assms by (auto simp: reconcile_mutation_def make_decision_def and_then_Inr_iff split: if_splits)

lemma route_simulated:
  assumes "stands env q w" "wf_prepared (text_hash env) p" "grants (presented p) a" "p = command_change (mo_command mo)"
    "a = ap_response (cm_approved (mo_command mo))" "mr_status (mo_result mo) = Uncertain"
    and q: "q = Observed (presented p) a (Suc (cm_retry (mo_command mo))) (mo_result mo) (Some s)"
    and d: "reconcile_mutation (text_hash env) (pc_current p) (dr_state (pc_desired p)) (Some s)
        (reconciliation_context_of (mo_command mo) s valid) = Inr d"
  shows "wp (route_decision mo s d) (\<lambda>r. simulated env (after_node Reconciliation r)) w"
proof (cases "rd_outcome d")
  case Desired_State_Present
  then obtain v where "verify_state (dr_state (pc_desired p)) (Some s) = Inr v" "vr_status v = Matched"
    using reconcile_facts(1) [OF d] by blast
  then have "backed (text_hash env) (Verification_Outcome p (mo_result mo) v) q"
    using assms(2,6) q by auto
  with \<open>verify_state _ _ = Inr v\<close> Desired_State_Present assms(1,4) show ?thesis
    by (auto simp: route_decision_def Let_def wp_simps simp del: backed.simps intro: simulatedI)
next
  case Mutation_Not_Applied
  then have same: "approved_state (text_hash env) a s"
    using reconcile_facts(2) [OF d] assms(2,3) by (auto simp: approved_state_def grants_def wf_prepared_def)
  have "cm_retry (mo_command mo) = 0" if "rd_retry d"
    using reconcile_retry(2) [OF d that]
    by (simp add: retry_preconditions_hold_def reconciliation_context_of_def)
  then have "backed (text_hash env) (Command \<lparr>cm_approved = cm_approved (mo_command mo), cm_retry = 1\<rparr>) q" if "rd_retry d"
    using that assms(2-6) q same by (auto simp: Let_def)
  moreover have "honest (text_hash env) Failed_Unchanged q"
    using same q by (auto simp: honest_def read_unchanged_def)
  ultimately show ?thesis using Mutation_Not_Applied assms(1)
    by (auto simp: route_decision_def Let_def wp_simps simp del: backed.simps(4) intro: simulatedI)
qed (use assms(1) q in \<open>auto simp: route_decision_def Let_def wp_simps honest_def intro!: simulatedI\<close>)

lemma reconciliation_simulated:
  assumes "stands env q w" and "backed (text_hash env) (Reconciliation_Request mo) q"
  shows "wp (reconciliation_handle env an mo) (\<lambda>r. simulated env (after_node Reconciliation r)) w"
proof -
  let ?p = "command_change (mo_command mo)" and ?a = "ap_response (cm_approved (mo_command mo))"
  let ?o = "\<lambda>x. Observed (presented ?p) ?a (Suc (cm_retry (mo_command mo))) (mo_result mo) x"
  have b: "wf_prepared (text_hash env) ?p" "grants (presented ?p) ?a" "mr_status (mo_result mo) = Uncertain"
      "q = Written (presented ?p) ?a (Suc (cm_retry (mo_command mo))) (mo_result mo)"
    using assms(2) by (simp_all add: Let_def)
  have read: "stands env (?o (reading (an_state an)))
      (w\<lparr>wd_calls := wd_calls w @ [Verification_Read_Call (an_state an)]\<rparr>)"
    using stands_verification_read assms(1) b(4) by simp
  show ?thesis
  proof (cases "an_state an")
    case (Inl e)
    then show ?thesis using read
      by (auto simp: reconciliation_handle_def Let_def wp_simps honest_def intro: simulatedI)
  next
    case (Inr s)
    have "wp (route_decision mo s d) (\<lambda>r. simulated env (after_node Reconciliation r)) v"
      if "stands env (?o (Some s)) v"
        "reconcile_mutation (text_hash env) (pc_current ?p) (dr_state (pc_desired ?p)) (Some s)
          (reconciliation_context_of (mo_command mo) s valid) = Inr d" for v d valid
      using route_simulated [OF that(1) b(1,2) refl refl b(3) refl that(2)] .
    then show ?thesis using read Inr
      by (auto simp: reconciliation_handle_def Let_def wp_simps intro!: wp_record split: sum.splits)
  qed
qed

lemma verification_simulated:
  assumes "stands env q w" and "backed (text_hash env) (Verification_Request mo) q"
  shows "wp (verification_handle env an mo) (\<lambda>r. simulated env (after_node Verification r)) w"
proof -
  let ?p = "command_change (mo_command mo)" and ?a = "ap_response (cm_approved (mo_command mo))"
  let ?o = "\<lambda>x. Observed (presented ?p) ?a (Suc (cm_retry (mo_command mo))) (mo_result mo) x"
  have b: "wf_prepared (text_hash env) ?p" "mr_status (mo_result mo) \<in> {Completed, Unchanged}"
      "q = Written (presented ?p) ?a (Suc (cm_retry (mo_command mo))) (mo_result mo)"
    using assms(2) by (simp_all add: Let_def)
  have read: "stands env (?o (reading (an_state an)))
      (w\<lparr>wd_calls := wd_calls w @ [Verification_Read_Call (an_state an)]\<rparr>)"
    using stands_verification_read assms(1) b(3) by simp
  show ?thesis
  proof (cases "an_state an")
    case (Inl e)
    then show ?thesis using read
      by (auto simp: verification_handle_def Let_def wp_simps honest_def intro: simulatedI)
  next
    case (Inr s)
    have "backed (text_hash env) (Verification_Outcome ?p (mo_result mo) v) (?o (Some s))"
      if "verify_state (dr_state (pc_desired ?p)) (Some s) = Inr v" for v
      using b(1,2) that by auto
    then show ?thesis using read Inr
      by (auto simp: verification_handle_def Let_def wp_simps simp del: backed.simps
          intro!: wp_record intro: simulatedI split: sum.splits)
  qed
qed

section \<open>The end of a run\<close>

lemma with_warnings_status [simp]: "rr_status (with_warnings r ws) = rr_status r"
  by (simp add: with_warnings_def)

lemma determined_honest:
  assumes "determine_run_result (Some m) (Some v) False False False = Inr r"
    and "backed H (Verification_Outcome p m v) q"
  shows "honest H (rr_status r) q"
proof -
  obtain a k s where q: "wf_prepared H p" "q = Observed (presented p) a k m (Some s)" "mr_status m \<noteq> Partial"
      "verify_state (dr_state (pc_desired p)) (Some s) = Inr v" "mr_status m = Uncertain \<longrightarrow> vr_status v = Matched"
    using assms(2) by auto
  then show ?thesis using assms(1)
    by (auto simp: determine_run_result_def make_run_result_def plain_result_def honest_def
        read_matches_def read_unchanged_def wf_prepared_def split: if_splits)
qed

lemma decision_simulated:
  assumes "stands env q w" and "backed (text_hash env) (Verification_Outcome p m v) q"
  shows "wp (decision_handle env p m v) (\<lambda>r. simulated env (after_node Verification_Decision r)) w"
proof (cases "determine_run_result (Some m) (Some v) False False False")
  case (Inl e)
  then show ?thesis using assms(1) by (auto simp: decision_handle_def wp_simps)
next
  case (Inr r)
  have h: "honest (text_hash env) (rr_status r) q" by (rule determined_honest [OF Inr assms(2)])
  have "wp (lifecycle_commit env (pc_change p) v) (\<lambda>_. stands env q) w"
    using assms(1) by (cases "we_lifecycle env") (auto simp: lifecycle_commit_def wp_simps intro!: wp_on_store)
  then show ?thesis unfolding decision_handle_def wp_simps Inr sum.case
    by (elim wp_mono) (use h in \<open>auto simp: wp_simps intro!: wp_record intro: simulatedI split: sum.splits\<close>)
qed

lemma audit_simulated:
  assumes "stands env q w" and "honest (text_hash env) (rr_status r) q"
  shows "wp (audit_handle env r) (\<lambda>r. simulated env (after_node Audit_Finalization r)) w"
  unfolding audit_handle_def wp_simps sum.case
  by (rule wp_record [OF assms(1) keeps_started_finalize])
    (use assms(2) in \<open>auto simp: wp_simps stands_def intro!: simulatedI split: sum.splits\<close>)

section \<open>Every run\<close>

lemma run_deliver_simulated:
  assumes "simulated env (Deliver n m) w" and "run_deliver env an n m w = (y, v)"
  shows "simulated env y v"
proof -
  from assms(1) obtain q where q: "stands env q w" "n = taker m" "backed (text_hash env) m q"
    by (auto simp: simulated_def)
  have "\<exists>act. run_node env an n m = Some act \<and> wp act (\<lambda>r. simulated env (after_node n r)) w"
    using q
    by (cases m)
      (auto simp: run_node_def wp_simps intro: planner_simulated plan_decision_simulated preflight_simulated
        read_current_simulated compute_simulated confirmation_request_simulated reread_simulated
        drift_simulated [OF q(1)] mutation_simulated [OF q(1)] reconciliation_simulated [OF q(1)]
        verification_simulated [OF q(1)] decision_simulated [OF q(1)] audit_simulated [OF q(1)] simulatedI
        simp del: backed.simps(4,5,6,7))
  then show ?thesis using assms(2)
    by (auto simp: run_deliver_def after_act_def wp_def)
qed

end
