(* ===== verification/Data_Claims.thy ===== *)
theory Data_Claims
  imports Ownership
begin

text \<open>
  The properties of the data model: address entries, the task plan that is the boundary to the
  language model, the digests confirmations are bound to, and the ownership tests.
\<close>

section \<open>Addresses\<close>

text \<open>
  C27. An accepted address entry is canonical: its comparison value is what normalisation gives
  for its display value, it is a fixed point of normalisation (for an encoder that maps an
  encoded name to itself), a domain is two or more DNS labels within the limit and an e-mail
  address is one lower-case dot-atom at such a domain, and reading the entry back from its own
  fields gives the entry.
\<close>

theorem address_entry_canonical:
  assumes "make_address_entry idna kind v supplied = Inr e" and "idna_stable idna"
  shows "wf_entry idna e \<and>
    normalize_address idna (kind_value kind) (ae_normalized_value e) = Inr (ae_normalized_value e) \<and>
    make_address_entry idna (ae_kind e) (ae_value e) (ae_normalized_value e) = Inr e \<and>
    (case kind of
       Domain \<Rightarrow> canonical_domain (ae_normalized_value e)
     | Email \<Rightarrow> (\<exists>l d. ae_normalized_value e = l @ ''@'' @ d \<and> canonical_email l d))"
proof -
  have n: "normalize_address idna (kind_value kind) v = Inr (ae_normalized_value e)"
    using assms(1) by (auto simp: make_address_entry_def split: if_splits sum.splits)
  have "case kind of
       Domain \<Rightarrow> canonical_domain (ae_normalized_value e)
     | Email \<Rightarrow> (\<exists>l d. ae_normalized_value e = l @ ''@'' @ d \<and> canonical_email l d)"
  proof (cases kind)
    case Email
    with n have "normalize_email idna v = Inr (ae_normalized_value e)"
      by (simp add: normalize_address_def)
    then show ?thesis using Email by (elim normalize_email_Inr) auto
  next
    case Domain
    with n have "normalize_domain idna False v = Inr (ae_normalized_value e)"
      by (simp add: normalize_address_def)
    then show ?thesis using Domain normalize_domain_Inr by simp
  qed
  then show ?thesis
    using make_address_entry_wf [OF assms(1)] make_address_entry_again [OF assms(1)]
      normalize_address_again [OF assms(2) n] by blast
qed

definition ex_idna :: "string \<Rightarrow> string option" where
  "ex_idna s = Some (py_lower s)"

theorem address_entry_canonical_witness:
  "make_address_entry ex_idna Email '' Bob@Example.com'' '''' =
     Inr \<lparr>ae_kind = Email, ae_value = ''Bob@Example.com'', ae_normalized_value = ''bob@example.com''\<rparr> \<and>
   (\<exists>l d. ''bob@example.com'' = l @ ''@'' @ d \<and> canonical_email l d)"
proof -
  have e: "make_address_entry ex_idna Email '' Bob@Example.com'' '''' =
     Inr \<lparr>ae_kind = Email, ae_value = ''Bob@Example.com'', ae_normalized_value = ''bob@example.com''\<rparr>"
    by code_simp
  have "idna_stable ex_idna" by (simp add: idna_stable_def ex_idna_def)
  from address_entry_canonical [OF e this] e show ?thesis by simp
qed

section \<open>Plans\<close>

text \<open>
  A task plan the constructor accepts mixes no terminal planner state with actions: it
  has actions exactly when its status is \<^verbatim>\<open>plan\<close>, a question exactly when it needs
  clarification and a reason exactly when it is unsupported; a list action is alone, compliance
  actions need schema 2.0, and every action with entries has some, without duplicates.
\<close>

theorem task_plan_boundary:
  assumes "make_task_plan p = Inr q"
  shows "q = p \<and> wf_plan q"
  using make_task_plan_wf [OF assms] assms by (simp add: make_task_plan_Inr_iff)

theorem task_plan_boundary_witness:
  "\<exists>q. direct_list_plan = Inr q \<and> wf_plan q"
proof -
  let ?p = "\<lparr>tp_schema = ''2.0'', tp_status = Plan, tp_actions = [List_Blocked_Sender_Rules],
    tp_question = None, tp_reason = None\<rparr>"
  have "make_task_plan ?p = Inr ?p" by code_simp
  from task_plan_boundary [OF this] this show ?thesis
    by (simp add: direct_list_plan_def single_action_plan_def)
qed

section \<open>Digests\<close>

text \<open>
  Two plans have the same digest only when they are the same data with the actions in the
  same order (for a routine with no collision between the two texts): reordering the actions
  of an approved plan, or changing any of them, changes the digest.
\<close>

theorem plan_hash_binds_actions:
  assumes "no_collision H (dump_task_plan p) (dump_task_plan q)"
    and "canonical_hash H (dump_task_plan p) = canonical_hash H (dump_task_plan q)"
  shows "same_data False (dump_task_plan p) (dump_task_plan q) \<and>
    list_all2 (same_data False) (map dump_action (tp_actions p)) (map dump_action (tp_actions q))"
proof -
  have "same_data False (dump_task_plan p) (dump_task_plan q)"
    using canonical_hash_same_data [OF wf_dump_task_plan wf_dump_task_plan assms(1)] assms(2) by simp
  then show ?thesis using same_data_plan_actions by blast
qed

theorem plan_hash_binds_actions_witness:
  "list_all2 (same_data False)
     (map dump_action [Set_Blocked_Sender_Rule_Enabled 1 True, Remove_Blocked_Sender_Rule 2 True])
     (map dump_action [Set_Blocked_Sender_Rule_Enabled 1 True, Remove_Blocked_Sender_Rule 2 True])"
proof -
  let ?p = "\<lparr>tp_schema = ''2.0'', tp_status = Plan,
    tp_actions = [Set_Blocked_Sender_Rule_Enabled 1 True, Remove_Blocked_Sender_Rule 2 True],
    tp_question = None, tp_reason = None\<rparr>"
  have "no_collision (\<lambda>t. t) (dump_task_plan ?p) (dump_task_plan ?p)" by (simp add: no_collision_def)
  from plan_hash_binds_actions [OF this] show ?thesis by simp
qed

text \<open>
  Two observed states have the same digest exactly when they hold the same data up to the
  order of their sequences (for a routine with no collision between the two texts), so a
  reordered page is not drift and any other difference is.
\<close>

theorem state_hash_decides_equality:
  assumes "no_collision H (dump_blocked_state s) (dump_blocked_state t)"
  shows "canonical_hash H (dump_blocked_state s) = canonical_hash H (dump_blocked_state t) \<longleftrightarrow>
    same_data False (dump_blocked_state s) (dump_blocked_state t)"
  by (rule canonical_hash_same_data [OF wf_dump_blocked_state wf_dump_blocked_state assms])

theorem state_hash_decides_equality_witness:
  "same_data False
     (dump_blocked_state \<lparr>bs_ou = ''/'', bs_rules = [], bs_lists = [], bs_unmanaged = [''a'', ''b'']\<rparr>)
     (dump_blocked_state \<lparr>bs_ou = ''/'', bs_rules = [], bs_lists = [], bs_unmanaged = [''b'', ''a'']\<rparr>)"
proof -
  let ?s = "\<lparr>bs_ou = ''/'', bs_rules = [], bs_lists = [], bs_unmanaged = [''a'', ''b'']\<rparr>"
  let ?t = "\<lparr>bs_ou = ''/'', bs_rules = [], bs_lists = [], bs_unmanaged = [''b'', ''a'']\<rparr>"
  have "no_collision (\<lambda>t. t) (dump_blocked_state ?s) (dump_blocked_state ?t)"
    by (simp add: no_collision_def)
  moreover have "canonicalize False (dump_blocked_state ?s) = canonicalize False (dump_blocked_state ?t)"
    by (simp add: dump_blocked_state_def json_string_def json_escape_def sort_key_simps Let_def)
  ultimately show ?thesis
    using state_hash_decides_equality [of "\<lambda>t. t" ?s ?t]
    by (simp add: canonical_hash_def canonical_json_def)
qed

section \<open>Ownership\<close>

text \<open>
  C28. On a registry without duplicate identifiers the ownership tests decide dual evidence: a
  rule or an address list passes exactly when its visible name carries the managed prefix and
  the registry holds a record of that identity and that name (and, for a rule, that
  organizational unit); every failure is \<^verbatim>\<open>OwnershipNotEstablished\<close>.
\<close>

theorem ownership_is_dual_evidence:
  assumes "wf_registry g"
  shows "((\<exists>r. require_owned_rule rule g prefix = Inr r) \<longleftrightarrow> owned_rule g prefix rule) \<and>
    ((\<exists>e. require_owned_address_list l g prefix = Inr e) \<longleftrightarrow> owned_list g prefix l) \<and>
    (\<forall>e. require_owned_rule rule g prefix = Inl e \<longrightarrow> e = OwnershipNotEstablished) \<and>
    (\<forall>e. require_owned_address_list l g prefix = Inl e \<longrightarrow> e = OwnershipNotEstablished)"
  using require_owned_rule_iff [OF assms] require_owned_list_iff [OF assms] require_owned_Inl by blast

theorem ownership_is_dual_evidence_witness:
  "owned_rule \<lparr>rg_schema = ''2.0'', rg_resources = [\<lparr>or_id = 1, or_rule_name = ''GWA R'',
       or_list_name = ''GWA L'', or_ou = ''/'', or_created = Aware 0, or_rule_snapshot = None,
       or_list_snapshot = None\<rparr>], rg_lists = [], rg_compliance = []\<rparr> ''GWA''
     \<lparr>br_id = 1, br_name = ''GWA R'', br_ou = ''/'', br_lists = [''GWA L''], br_bypass = [],
       br_notice = None, br_enabled = True, br_inherited = False\<rparr>"
proof -
  let ?g = "\<lparr>rg_schema = ''2.0'', rg_resources = [\<lparr>or_id = 1, or_rule_name = ''GWA R'',
       or_list_name = ''GWA L'', or_ou = ''/'', or_created = Aware 0, or_rule_snapshot = None,
       or_list_snapshot = None\<rparr>], rg_lists = [], rg_compliance = []\<rparr>"
  have "wf_registry ?g" by (simp add: wf_registry_def registry_ids_def)
  from ownership_is_dual_evidence [OF this, of "\<lparr>br_id = 1, br_name = ''GWA R'', br_ou = ''/'',
       br_lists = [''GWA L''], br_bypass = [], br_notice = None, br_enabled = True,
       br_inherited = False\<rparr>" "''GWA''"]
  show ?thesis by (simp add: require_owned_rule_def find_record_def)
qed

section \<open>Content-compliance drafts\<close>

text \<open>
  A content-compliance draft the constructor accepts reads back from its own dump as the
  same draft, and its notice never contains the internal policy identifier, in any case.
\<close>

theorem compliance_draft_roundtrip:
  assumes "check_draft d = Inr e"
  shows "check_draft e = Inr e \<and>
    \<not> py_contains (py_casefold (gn_text (cr_notice e))) (py_casefold (gn_policy_id (cr_notice e))) \<and>
    cr_directions e \<noteq> [] \<and> distinct (cr_directions e) \<and> 1 \<le> length (cr_expressions e) \<and>
    length (cr_expressions e) \<le> 10 \<and> (cr_inherited e \<longrightarrow> cr_enabled e)"
proof -
  have "wf_draft e" using check_draft_again [OF assms] by (simp add: wf_draft_def)
  from wf_draft_facts [OF this] check_draft_again [OF assms]
  show ?thesis by (cases "cr_expressions e") auto
qed

definition ex_persona :: persona where
  "ex_persona = \<lparr>pe_role = ''clerk'', pe_traits = [''dry''], pe_voice = ''plain'', pe_motif = ''ink'',
     pe_seed = 7, pe_age = None, pe_occupation = [], pe_location = [], pe_goals = [], pe_personality = [],
     pe_time_period = [], pe_mood = [], pe_alignment = [], pe_delivery = []\<rparr>"

definition ex_draft :: compliance_draft where
  "ex_draft = \<lparr>cr_ou = \<lparr>ou_path = ''/'', ou_organization = None\<rparr>, cr_directions = [Inbound],
     cr_combiner = Combine_Any, cr_expressions = [Simple_Match ''secret''],
     cr_notice = \<lparr>gn_text = ''Blocked.'', gn_category = ''Policy'', gn_policy_id = ''DLP-1'',
       gn_persona = ex_persona, gn_fallback = False\<rparr>,
     cr_condition = None, cr_filters = [], cr_enabled = False, cr_inherited = True\<rparr>"

theorem compliance_draft_roundtrip_witness:
  "check_draft ex_draft = Inr (ex_draft\<lparr>cr_enabled := True\<rparr>) \<and> cr_enabled (ex_draft\<lparr>cr_enabled := True\<rparr>)"
proof -
  have e: "check_draft ex_draft = Inr (ex_draft\<lparr>cr_enabled := True\<rparr>)" by code_simp
  from compliance_draft_roundtrip [OF e] e show ?thesis by simp
qed

end
