(* ===== verification/Desired_Claims.thy ===== *)
theory Desired_Claims
  imports Desired_Order
begin

text \<open>
  The properties of \<^verbatim>\<open>domain/desired_state.py\<close>, each with a run of the code on a
  concrete state that meets its hypotheses, and the corner cases the code lets through.
\<close>

section \<open>A small console to run the code on\<close>

definition ex_entry :: "string \<Rightarrow> address_entry" where
  "ex_entry d = \<lparr>ae_kind = Domain, ae_value = d, ae_normalized_value = d\<rparr>"

definition ex_list :: "uuid \<Rightarrow> string \<Rightarrow> string list \<Rightarrow> address_list" where
  "ex_list i name ds = \<lparr>al_id = i, al_name = name, al_entries = map ex_entry ds\<rparr>"

definition ex_rule :: "uuid \<Rightarrow> string \<Rightarrow> string \<Rightarrow> string list \<Rightarrow> blocked_rule" where
  "ex_rule i name l bypass = \<lparr>br_id = i, br_name = name, br_ou = ''/'', br_lists = [l],
     br_bypass = bypass, br_notice = None, br_enabled = True, br_inherited = False\<rparr>"

text \<open>Rule and list 1 are owned; rule and list 2 carry the prefix but no record.\<close>

definition ex_state :: blocked_state where
  "ex_state = \<lparr>bs_ou = ''/'',
     bs_rules = [ex_rule 1 ''GWA Rule 1'' ''GWA List 1'' [], ex_rule 2 ''GWA Rule 2'' ''GWA List 2'' []],
     bs_lists = [ex_list 1 ''GWA List 1'' [''b.com''], ex_list 2 ''GWA List 2'' [''c.com'']],
     bs_unmanaged = [''Legacy'']\<rparr>"

definition ex_record :: "uuid \<Rightarrow> string \<Rightarrow> string \<Rightarrow> ownership_record" where
  "ex_record i r l = \<lparr>or_id = i, or_rule_name = r, or_list_name = l, or_ou = ''/'',
     or_created = Aware 0, or_rule_snapshot = None, or_list_snapshot = None\<rparr>"

definition ex_registry :: registry where
  "ex_registry = \<lparr>rg_schema = ''2.0'', rg_resources = [ex_record 1 ''GWA Rule 1'' ''GWA List 1''],
     rg_lists = [], rg_compliance = []\<rparr>"

definition ex_plan :: "action list \<Rightarrow> task_plan" where
  "ex_plan as = \<lparr>tp_schema = ''2.0'', tp_status = Plan, tp_actions = as, tp_question = None,
     tp_reason = None\<rparr>"

lemmas ex_defs = ex_entry_def ex_list_def ex_rule_def ex_state_def ex_record_def ex_registry_def ex_plan_def

lemmas calculate_defs = calculate_desired_state_def plan_step_def add_entries_def remove_entries_def
  set_notice_def set_enabled_def update_rule_def remove_rule_def create_rule_def make_bypass_list_def
  update_bypass_def remove_bypass_def owned_bypass_lists_def owned_bypass_list_def
  resolve_add_target_def require_rule_def require_rule_list_def matching_lists_def
  require_owned_rule_def require_owned_address_list_def find_record_def find_address_list_def
  start_working_def put_rule_def put_list_def drop_rule_def drop_list_def next_id_def dict_of_def
  combine_entries_def sorted_entries_def names_unique_def make_blocked_state_def make_blocked_rule_def
  make_address_list_def managed_resource_names_def

text \<open>Adding a domain to rule 1.\<close>

definition ex_add :: task_plan where
  "ex_add = ex_plan [Add_Blocked_Entries [ex_entry ''a.com''] None (Some 1) ''/'']"

definition ex_added :: blocked_state where
  "ex_added = ex_state\<lparr>bs_lists := [ex_list 1 ''GWA List 1'' [''a.com'', ''b.com''], ex_list 2 ''GWA List 2'' [''c.com'']]\<rparr>"

lemma ex_add_run:
  "calculate_desired_state ex_state ex_add ex_registry [] ''GWA'' =
     Inr \<lparr>dr_state = ex_added, dr_notice_affected = 0\<rparr>"
  by (simp add: calculate_defs ex_defs ex_add_def ex_added_def sort_by_hex sort_key_simps)


section \<open>What the calculation promises\<close>

text \<open>
  C2. A resource whose ownership is not established by both the registry and its visible
  name is never changed or removed: whatever a plan asks for, an observed rule or address
  list that is not owned is in the desired state exactly as it was observed.
\<close>

theorem unowned_resources_untouched:
  assumes "wf_blocked_state s" and "set ids \<inter> al_id ` set (bs_lists s) = {}"
    and "calculate_desired_state s plan g ids prefix = Inr d"
  shows "(\<forall>r \<in> set (bs_rules s). owned_rule g prefix r \<or> r \<in> set (bs_rules (dr_state d))) \<and>
    (\<forall>l \<in> set (bs_lists s). owned_list g prefix l \<or> l \<in> set (bs_lists (dr_state d)))"
  using unowned_resources_kept [OF assms] by blast

lemma ex_state_wf [simp]: "wf_blocked_state ex_state"
  by (simp add: wf_blocked_state_def ex_defs)

theorem unowned_resources_untouched_witness:
  "\<not> owned_rule ex_registry ''GWA'' (ex_rule 2 ''GWA Rule 2'' ''GWA List 2'' []) \<and>
   ex_rule 2 ''GWA Rule 2'' ''GWA List 2'' [] \<in> set (bs_rules ex_added) \<and>
   ex_list 2 ''GWA List 2'' [''c.com''] \<in> set (bs_lists ex_added)"
proof -
  have rule: "\<not> owned_rule ex_registry ''GWA'' (ex_rule 2 ''GWA Rule 2'' ''GWA List 2'' [])"
    "\<not> owned_list ex_registry ''GWA'' (ex_list 2 ''GWA List 2'' [''c.com''])"
    by (simp_all add: owned_rule_def owned_list_def ex_defs)
  have "ex_rule 2 ''GWA Rule 2'' ''GWA List 2'' [] \<in> set (bs_rules ex_state)"
    "ex_list 2 ''GWA List 2'' [''c.com''] \<in> set (bs_lists ex_state)"
    by (simp_all add: ex_state_def)
  with unowned_resources_untouched [OF ex_state_wf _ ex_add_run] rule show ?thesis by auto
qed

text \<open>
  C25. The desired state does not depend on the order the console listed the rules and the
  address lists in.
\<close>

theorem desired_state_order_independent:
  assumes "wf_blocked_state s" and "same_resources s t"
    and "calculate_desired_state s plan g ids prefix = Inr d"
  shows "calculate_desired_state t plan g ids prefix = Inr d"
  using assms by (rule calculate_same_resources)

definition ex_reversed :: blocked_state where
  "ex_reversed = ex_state\<lparr>bs_rules := rev (bs_rules ex_state), bs_lists := rev (bs_lists ex_state)\<rparr>"

theorem desired_state_order_independent_witness:
  "calculate_desired_state ex_reversed ex_add ex_registry [] ''GWA'' =
     Inr \<lparr>dr_state = ex_added, dr_notice_affected = 0\<rparr>"
  by (rule desired_state_order_independent [OF ex_state_wf _ ex_add_run])
    (simp add: same_resources_def ex_reversed_def)

text \<open>
  An edit of an existing rule is idempotent: calculated again from the state it asks
  for, it asks for that same state, so a retry after a successful run changes nothing.
\<close>

theorem edit_is_idempotent:
  assumes "tp_actions plan = [a]" and "is_edit a"
    and "calculate_desired_state s plan g ids prefix = Inr d"
  shows "\<exists>d'. calculate_desired_state (dr_state d) plan g ids prefix = Inr d' \<and> dr_state d' = dr_state d"
  using assms by (rule calculate_edit_twice)

theorem edit_is_idempotent_witness:
  "\<exists>d'. calculate_desired_state ex_added ex_add ex_registry [] ''GWA'' = Inr d' \<and> dr_state d' = ex_added"
  using edit_is_idempotent [OF _ _ ex_add_run] by (simp add: ex_add_def ex_plan_def)

text \<open>
  C26. A plan the constructors of the plan and of its actions accept keeps every rule and every
  address list within the bounds of its model (names, notices, organizational units, no
  duplicate entries), provided that no update of a rule names a bypass value twice, which
  nothing in the code checks.
\<close>

theorem desired_state_well_formed:
  assumes "calculate_desired_state s plan g ids prefix = Inr d"
    and "\<forall>r \<in> set (bs_rules s). wf_blocked_rule r" and "\<forall>l \<in> set (bs_lists s). wf_address_list l"
    and "make_task_plan plan = Inr plan" and "\<forall>a \<in> set (tp_actions plan). check_action a = Inr a"
    and "\<forall>a \<in> set (tp_actions plan). distinct (entry_values (updated_bypass a))"
  shows "(\<forall>r \<in> set (bs_rules (dr_state d)). wf_blocked_rule r) \<and>
    (\<forall>l \<in> set (bs_lists (dr_state d)). wf_address_list l)"
proof -
  have "\<forall>a \<in> set (tp_actions plan). \<forall>es \<in> set_option (action_entries a). distinct (entry_values es)"
    using assms(4) by (auto simp: make_task_plan_def res_simps list_ex_iff split: if_splits)
  then have "\<forall>a \<in> set (tp_actions plan). sound_action a"
    using assms(5,6) by (simp add: sound_action_def)
  from desired_resources_wf [OF assms(1-3) this] show ?thesis by blast
qed

lemma ex_strip [simp]: "py_strip ''/'' = ''/''"
  by code_simp

lemma ex_ou_ok [simp]: "ou_path_ok ''/''"
  by (simp add: ou_path_ok_def py_endswith_def)

theorem desired_state_well_formed_witness:
  "wf_address_list (ex_list 1 ''GWA List 1'' [''a.com'', ''b.com''])"
proof -
  have "ex_list 1 ''GWA List 1'' [''a.com'', ''b.com''] \<in> set (bs_lists ex_added)"
    by (simp add: ex_added_def)
  moreover have "\<forall>l \<in> set (bs_lists ex_added). wf_address_list l"
    using desired_state_well_formed [OF ex_add_run]
    by (simp add: ex_defs wf_blocked_rule_def wf_address_list_def ex_add_def make_task_plan_def validate_status_def
        given_def check_optional_notice_def normalized_ou_def)
  ultimately show ?thesis by blast
qed

lemma desired_state_ou: "calculate_desired_state s plan g ids prefix = Inr d \<Longrightarrow> bs_ou (dr_state d) = bs_ou s"
  by (elim calculate_Inr) simp

text \<open>
  The desired state is canonical: same organizational unit, resources sorted by identifier
  with no duplicate identifier, no two rules (managed or not) and no two lists of one name.
\<close>

theorem desired_state_canonical:
  assumes "calculate_desired_state s plan g ids prefix = Inr d"
  shows "wf_blocked_state (dr_state d) \<and> bs_ou (dr_state d) = bs_ou s \<and>
    sorted (map br_id (bs_rules (dr_state d))) \<and> sorted (map al_id (bs_lists (dr_state d))) \<and>
    bs_unmanaged (dr_state d) = sort (bs_unmanaged s) \<and>
    distinct (map br_name (bs_rules (dr_state d)) @ bs_unmanaged (dr_state d)) \<and>
    distinct (map al_name (bs_lists (dr_state d)))"
proof -
  from assms obtain n w where names: "names_unique w (bs_unmanaged s)"
    and dr: "dr_state d = \<lparr>bs_ou = bs_ou s, bs_rules = sort_key br_id (dict_values (ws_rules w)),
       bs_lists = sort_key al_id (dict_values (ws_lists w)), bs_unmanaged = sort (bs_unmanaged s)\<rparr>"
      "wf_blocked_state (dr_state d)"
    by (rule calculate_Inr)
  have "mset (map br_name (sort_key br_id (dict_values (ws_rules w))) @ sort (bs_unmanaged s)) =
      mset (map br_name (dict_values (ws_rules w)) @ bs_unmanaged s)"
    "mset (map al_name (sort_key al_id (dict_values (ws_lists w)))) = mset (map al_name (dict_values (ws_lists w)))"
    by (simp_all only: mset_map mset_sort mset_append)
  then have "distinct (map br_name (bs_rules (dr_state d)) @ bs_unmanaged (dr_state d))"
    "distinct (map al_name (bs_lists (dr_state d)))"
    using names unfolding names_unique_def dr(1) blocked_state.select_convs
    by (metis mset_eq_imp_distinct_iff)+
  then show ?thesis using dr(2) by (simp add: dr(1))
qed

theorem desired_state_canonical_witness:
  "sorted (map br_id (bs_rules ex_added)) \<and> distinct (map br_name (bs_rules ex_added) @ bs_unmanaged ex_added)"
  using desired_state_canonical [OF ex_add_run] unfolding desired_state_result.select_convs by blast


section \<open>What the edits do\<close>

lemma start_values:
  assumes "wf_blocked_state s"
  shows "dict_values (ws_rules (start_working s ids)) = bs_rules s"
    "dict_values (ws_lists (start_working s ids)) = bs_lists s"
  using assms by (simp_all add: start_working_def wf_blocked_state_def dict_of_distinct o_def)

lemma put_list_values:
  assumes "keyed al_id (ws_lists w)"
  shows "set (dict_values (ws_lists (put_list l w))) =
    insert l {k \<in> set (dict_values (ws_lists w)). al_id k \<noteq> al_id l}"
proof (intro set_eqI)
  fix k
  have put: "keyed al_id (ws_lists (put_list l w))" using assms by (simp add: put_list_def keyed_put)
  show "k \<in> set (dict_values (ws_lists (put_list l w))) \<longleftrightarrow>
      k \<in> insert l {k \<in> set (dict_values (ws_lists w)). al_id k \<noteq> al_id l}"
    unfolding mem_Collect_eq insert_iff keyed_values_iff [OF put] keyed_values_iff [OF assms] put_list_get
    by auto
qed

text \<open>Rewriting the entries of one list is all that an addition or a removal does.\<close>

lemma single_list_edit:
  assumes wf: "wf_blocked_state s"
    and d: "calculate_desired_state s plan g ids prefix = Inr d" and a: "tp_actions plan = [a]"
    and ap: "apply_action g prefix a (start_working s ids) =
      Inr (n, put_list (l\<lparr>al_entries := es\<rparr>) (start_working s ids))"
    and l: "dict_get (ws_lists (start_working s ids)) (al_id l) = Some l"
  shows "l \<in> set (bs_lists s)" "set (bs_rules (dr_state d)) = set (bs_rules s)"
    "set (bs_lists (dr_state d)) = insert (l\<lparr>al_entries := es\<rparr>) {k \<in> set (bs_lists s). al_id k \<noteq> al_id l}"
proof -
  let ?w = "start_working s ids"
  from d obtain m w where "fold_res (plan_step (bs_ou s) g prefix) (tp_actions plan) (0, ?w) = Inr (m, w)"
    and dr: "dr_state d = \<lparr>bs_ou = bs_ou s, bs_rules = sort_key br_id (dict_values (ws_rules w)),
       bs_lists = sort_key al_id (dict_values (ws_lists w)), bs_unmanaged = sort (bs_unmanaged s)\<rparr>"
    by (rule calculate_Inr)
  with a ap have w: "w = put_list (l\<lparr>al_entries := es\<rparr>) ?w"
    by (auto simp: plan_step_def res_simps split: if_splits)
  have k: "keyed al_id (ws_lists ?w)" by (simp add: start_working_def keyed_dict_of)
  show "l \<in> set (bs_lists s)"
    using l keyed_values_iff [OF k, of l] unfolding start_values(2) [OF wf] by simp
  show "set (bs_rules (dr_state d)) = set (bs_rules s)"
    unfolding dr w using start_values(1) [OF wf, of ids] by (simp del: set_map)
  show "set (bs_lists (dr_state d)) = insert (l\<lparr>al_entries := es\<rparr>) {k \<in> set (bs_lists s). al_id k \<noteq> al_id l}"
    unfolding dr w using put_list_values [OF k, of "l\<lparr>al_entries := es\<rparr>"] start_values(2) [OF wf, of ids]
    by (simp del: set_map)
qed

text \<open>Only the entries of the list of one rule differ, by a function of the values they block.\<close>

definition entries_changed :: "blocked_state \<Rightarrow> blocked_state \<Rightarrow> uuid \<Rightarrow> (string set \<Rightarrow> string set) \<Rightarrow> bool" where
  "entries_changed s d i f \<longleftrightarrow> (\<exists>l \<in> set (bs_lists s). \<exists>new.
     al_id l = i \<and> set (bs_rules d) = set (bs_rules s) \<and>
     set (bs_lists d) = insert (l\<lparr>al_entries := new\<rparr>) {k \<in> set (bs_lists s). al_id k \<noteq> i} \<and>
     set (entry_values new) = f (set (entry_values (al_entries l))))"

text \<open>One rule is new, with a list of its own; everything else is as it was.\<close>

definition rule_added ::
    "blocked_state \<Rightarrow> blocked_state \<Rightarrow> address_entry list \<Rightarrow> string option \<Rightarrow> string \<Rightarrow> bool" where
  "rule_added s d es notice ou \<longleftrightarrow> (\<exists>r l.
     br_id r \<notin> br_id ` set (bs_rules s) \<and> br_id r \<notin> al_id ` set (bs_lists s) \<and> al_id l = br_id r \<and>
     set (bs_rules d) = insert r (set (bs_rules s)) \<and> set (bs_lists d) = insert l (set (bs_lists s)) \<and>
     br_lists r = [al_name l] \<and> br_bypass r = [] \<and> br_enabled r \<and> \<not> br_inherited r \<and>
     br_notice r = map_option py_strip notice \<and> br_ou r = py_strip ou \<and> set (al_entries l) = set es)"

text \<open>The rules an addition may extend: the given one unless its notice differs, or those with the notice.\<close>

definition takes_entries :: "string option \<Rightarrow> uuid option \<Rightarrow> blocked_rule \<Rightarrow> bool" where
  "takes_entries notice target r \<longleftrightarrow>
     (case target of None \<Rightarrow> br_notice r = notice
      | Some i \<Rightarrow> br_id r = i \<and> (notice = None \<or> notice = br_notice r))"

lemma put_rule_find: "dict_get (ws_rules (put_rule r w)) i = (if i = br_id r then Some r else dict_get (ws_rules w) i)"
  by (simp add: put_rule_def update_conv')

lemma put_rule_values:
  assumes "keyed br_id (ws_rules w)"
  shows "set (dict_values (ws_rules (put_rule r w))) =
    insert r {k \<in> set (dict_values (ws_rules w)). br_id k \<noteq> br_id r}"
proof (intro set_eqI)
  fix k
  have put: "keyed br_id (ws_rules (put_rule r w))" using assms by (simp add: put_rule_def keyed_put)
  show "k \<in> set (dict_values (ws_rules (put_rule r w))) \<longleftrightarrow>
      k \<in> insert r {k \<in> set (dict_values (ws_rules w)). br_id k \<noteq> br_id r}"
    unfolding mem_Collect_eq insert_iff keyed_values_iff [OF put] keyed_values_iff [OF assms] put_rule_find
    by auto
qed

lemma calculate_single:
  assumes d: "calculate_desired_state s plan g ids prefix = Inr d" and a: "tp_actions plan = [a]"
    and ap: "apply_action g prefix a (start_working s ids) = Inr (n, w)"
  shows "set (bs_rules (dr_state d)) = set (dict_values (ws_rules w))"
    "set (bs_lists (dr_state d)) = set (dict_values (ws_lists w))"
proof -
  from d obtain m v where "fold_res (plan_step (bs_ou s) g prefix) (tp_actions plan) (0, start_working s ids) = Inr (m, v)"
    and dr: "dr_state d = \<lparr>bs_ou = bs_ou s, bs_rules = sort_key br_id (dict_values (ws_rules v)),
       bs_lists = sort_key al_id (dict_values (ws_lists v)), bs_unmanaged = sort (bs_unmanaged s)\<rparr>"
    by (rule calculate_Inr)
  with a ap have "v = w" by (auto simp: plan_step_def res_simps split: if_splits)
  with dr show "set (bs_rules (dr_state d)) = set (dict_values (ws_rules w))"
    "set (bs_lists (dr_state d)) = set (dict_values (ws_lists w))" by (simp_all del: set_map)
qed

text \<open>The rule a plan of one creation adds.\<close>

lemma created_rule_added:
  assumes wf: "wf_blocked_state s" and d: "calculate_desired_state s plan g ids prefix = Inr d"
    and a: "tp_actions plan = [a]" and ap: "apply_action g prefix a (start_working s ids) = Inr (n, w)"
    and c: "create_rule es notice ou [] True prefix (start_working s ids) = Inr w"
  shows "rule_added s (dr_state d) es notice ou"
  using c
proof (rule create_rule_Inr)
  fix i u l names v r
  let ?w = "start_working s ids"
  have k: "keyed br_id (ws_rules ?w)" "keyed al_id (ws_lists ?w)"
    by (simp_all add: start_working_def keyed_dict_of)
  assume i: "next_id ?w = Inr (i, u)" "i \<notin> set (dict_keys (ws_rules u))" "i \<notin> set (dict_keys (ws_lists u))"
    and l: "make_address_list i (snd (managed_resource_names prefix i)) (sorted_entries es) = Inr l"
    and v: "(if [] \<noteq> [] then make_bypass_list [] prefix (put_list l u) else Inr ([], put_list l u)) = Inr (names, v)"
    and r: "make_blocked_rule i (fst (managed_resource_names prefix i)) ou
       [snd (managed_resource_names prefix i)] names notice True False = Inr r"
    and w: "w = put_rule r v"
  have u: "ws_rules u = ws_rules ?w" "ws_lists u = ws_lists ?w"
    using i(1) by (auto simp: next_id_def split: list.splits)
  have v': "names = []" "v = put_list l u" using v by simp_all
  have l': "al_id l = i" "al_name l = snd (managed_resource_names prefix i)" "al_entries l = sorted_entries es"
    using l by (auto simp: make_address_list_Inr_iff)
  note r' = make_blocked_rule_Inr(2) [OF r]
  have free: "dict_get (ws_rules ?w) i = None" "dict_get (ws_lists ?w) i = None"
    using i(2,3) u by (auto simp: map_of_eq_None_iff)
  have rules: "set (dict_values (ws_rules w)) = insert r (set (bs_rules s))"
    using put_rule_values [OF k(1), of r] free(1) keyed_values_iff [OF k(1)] start_values(1) [OF wf, of ids]
    by (auto simp: w v' u put_rule_def put_list_def r' simp del: set_map)
  have lists: "set (dict_values (ws_lists w)) = insert l (set (bs_lists s))"
    using put_list_values [OF k(2), of l] free(2) keyed_values_iff [OF k(2)] start_values(2) [OF wf, of ids]
    by (auto simp: w v' u put_rule_def put_list_def l' simp del: set_map)
  have "i \<notin> br_id ` set (bs_rules s)" "i \<notin> al_id ` set (bs_lists s)"
    using free keyed_values_iff [OF k(1)] keyed_values_iff [OF k(2)] start_values [OF wf, of ids]
    by (auto simp del: set_map)
  then show ?thesis
    unfolding rule_added_def using calculate_single [OF d a ap] rules lists l' v'
    by (intro exI [of _ r] exI [of _ l]) (simp add: r')
qed

lemma add_candidates_all:
  "add_candidates g prefix notice w rs = Inr cs \<Longrightarrow>
     map fst cs = filter (\<lambda>r. br_notice r = notice) rs \<and>
     (\<forall>c \<in> set cs. require_rule_list (fst c) w g prefix = Inr (snd c))"
  by (induction rs arbitrary: cs) (auto simp: res_simps simp del: set_map split: if_splits dest!: bspec)

text \<open>What an addition finds to extend.\<close>

lemma resolve_add_target_takes:
  assumes wf: "wf_blocked_state s"
    and f: "resolve_add_target notice target (start_working s ids) g prefix = Inr found"
  shows "case found of
      None \<Rightarrow> target = None \<and> (\<forall>r \<in> set (bs_rules s). br_notice r \<noteq> notice)
    | Some (r, l) \<Rightarrow> r \<in> set (bs_rules s) \<and> require_rule_list r (start_working s ids) g prefix = Inr l \<and>
        (case target of None \<Rightarrow> br_notice r = notice | Some i \<Rightarrow> br_id r = i)"
proof (cases target)
  case (Some i)
  have k: "keyed br_id (ws_rules (start_working s ids))" by (simp add: start_working_def keyed_dict_of)
  from f Some obtain r l where found: "found = Some (r, l)" "require_rule i (start_working s ids) = Inr r"
      "require_rule_list r (start_working s ids) g prefix = Inr l"
    by (auto simp: resolve_add_target_def res_simps)
  then have "br_id r = i" using require_rule_id [OF k] by blast
  moreover from this have "r \<in> set (bs_rules s)"
    using found(2) keyed_values_iff [OF k, of r] start_values(1) [OF wf, of ids]
    by (simp add: require_rule_Inr del: set_map)
  ultimately show ?thesis using found Some by simp
next
  case None
  then obtain cs where cs: "add_candidates g prefix notice (start_working s ids) (bs_rules s) = Inr cs"
      "found = None \<and> cs = [] \<or> (\<exists>c. found = Some c \<and> cs = [c])"
  proof -
    from f None obtain cs where cs: "add_candidates g prefix notice (start_working s ids) (bs_rules s) = Inr cs"
      and "(case cs of [] \<Rightarrow> Inr None | [c] \<Rightarrow> Inr (Some c) | _ \<Rightarrow> Inl AmbiguousTarget) = Inr found"
      unfolding resolve_add_target_def start_values(1) [OF wf] by (auto elim: and_thenE)
    then show thesis by (intro that [OF cs]) (cases cs; cases "tl cs"; auto)
  qed
  note c = add_candidates_all [OF cs(1)]
  show ?thesis
  proof (cases found)
    case None
    with cs c \<open>target = None\<close> show ?thesis by (simp add: filter_empty_conv eq_commute [of "[]"])
  next
    case (Some rl)
    with cs c have "[fst rl] = filter (\<lambda>r. br_notice r = notice) (bs_rules s)"
      "require_rule_list (fst rl) (start_working s ids) g prefix = Inr (snd rl)" by auto
    then have "fst rl \<in> set (filter (\<lambda>r. br_notice r = notice) (bs_rules s))"
      by (metis list.set_intros(1))
    then show ?thesis using Some \<open>target = None\<close> \<open>require_rule_list _ _ _ _ = _\<close> by (simp add: case_prod_unfold)
  qed
qed

text \<open>
  C24. What a plan of a single addition or removal does. Removing entries from a rule leaves
  exactly the other values in the rule's own list. Adding entries without a target extends the
  one rule with the plan's notice, and adding them to a given rule extends that rule unless the
  plan has a notice and the rule another one: the values of the rule's own list become the union.
  Otherwise the addition creates a new rule with the notice and a list of exactly the entries.
  Every other rule and list stays as it was.
\<close>

theorem entry_edits_exact:
  assumes wf: "wf_blocked_state s" and d: "calculate_desired_state s plan g ids prefix = Inr d"
    and a: "tp_actions plan = [a]"
  shows "case a of
      Remove_Blocked_Entries es i \<Rightarrow> entries_changed s (dr_state d) i (\<lambda>blocked. blocked - set (entry_values es))
    | Add_Blocked_Entries es notice target ou \<Rightarrow>
        if \<exists>r \<in> set (bs_rules s). takes_entries notice target r
        then \<exists>r \<in> set (bs_rules s). takes_entries notice target r \<and>
          entries_changed s (dr_state d) (br_id r) (\<lambda>blocked. blocked \<union> set (entry_values es))
        else rule_added s (dr_state d) es notice ou
    | _ \<Rightarrow> True"
proof -
  let ?w = "start_working s ids"
  have k: "keyed br_id (ws_rules ?w)" "keyed al_id (ws_lists ?w)"
    by (simp_all add: start_working_def keyed_dict_of)
  obtain n w where ap: "apply_action g prefix a ?w = Inr (n, w)"
    using d a by (auto simp: calculate_desired_state_def plan_step_def res_simps split: if_splits)
  have edit: "entries_changed s (dr_state d) (br_id r) f"
    if l: "require_rule_list r ?w g prefix = Inr l" and w: "w = put_list (l\<lparr>al_entries := sorted_entries new\<rparr>) ?w"
      and new: "set (entry_values new) = f (set (entry_values (al_entries l)))" for r l new f
    using single_list_edit [OF wf d a ap [unfolded w] require_rule_list_get [OF k(2) l]] new
      require_rule_list_Inr(3) [OF l]
    unfolding entries_changed_def by (intro bexI [of _ l] exI [of _ "sorted_entries new"] conjI) simp_all
  show ?thesis
  proof (cases a)
    case (Remove_Blocked_Entries es i)
    with ap obtain r l where r: "require_rule i ?w = Inr r" and l: "require_rule_list r ?w g prefix = Inr l"
      and w: "w = put_list (l\<lparr>al_entries := sorted_entries (filter (\<lambda>e. ae_normalized_value e \<notin> set (entry_values es))
        (al_entries l))\<rparr>) ?w"
      by (auto simp: remove_entries_def res_simps Let_def)
    have "entries_changed s (dr_state d) (br_id r) (\<lambda>blocked. blocked - set (entry_values es))"
      by (rule edit [OF l w]) auto
    then show ?thesis using require_rule_id [OF k(1) r] by (simp add: Remove_Blocked_Entries)
  next
    case (Add_Blocked_Entries es notice target ou)
    with ap have add: "add_entries es notice target ou g prefix ?w = Inr w" by (auto simp: res_simps)
    then obtain found where f: "resolve_add_target notice target ?w g prefix = Inr found"
      unfolding add_entries_def by (rule and_thenE)
    note takes = resolve_add_target_takes [OF wf f]
    have rest: ?thesis if none: "\<not> (\<exists>r \<in> set (bs_rules s). takes_entries notice target r)"
        "create_rule es notice ou [] True prefix ?w = Inr w"
      using created_rule_added [OF wf d a ap none(2)] none(1) by (simp add: Add_Blocked_Entries)
    show ?thesis
    proof (cases "\<exists>r l. found = Some (r, l) \<and> (notice = None \<or> notice = br_notice r)")
      case True
      then obtain r l where rl: "found = Some (r, l)" "notice = None \<or> notice = br_notice r" by blast
      have r: "r \<in> set (bs_rules s)" "takes_entries notice target r"
        using takes rl by (auto simp: takes_entries_def split: option.splits)
      have l: "require_rule_list r ?w g prefix = Inr l" using takes rl by simp
      have w: "w = put_list (l\<lparr>al_entries := sorted_entries (combine_entries (al_entries l) es)\<rparr>) ?w"
        using add f rl by (auto simp: add_entries_def)
      have "entries_changed s (dr_state d) (br_id r) (\<lambda>blocked. blocked \<union> set (entry_values es))"
        by (rule edit [OF l w]) (rule combine_values)
      with r have "\<exists>r \<in> set (bs_rules s). takes_entries notice target r \<and>
          entries_changed s (dr_state d) (br_id r) (\<lambda>blocked. blocked \<union> set (entry_values es))"
        by (intro bexI [of _ r] conjI)
      moreover have "\<exists>r \<in> set (bs_rules s). takes_entries notice target r" using r by (intro bexI [of _ r])
      ultimately show ?thesis unfolding Add_Blocked_Entries action.case by (simp only: if_True)
    next
      case False
      have "create_rule es notice ou [] True prefix ?w = Inr w"
        using add f False by (auto simp: add_entries_def split: option.splits prod.splits if_splits)
      moreover have "\<not> (\<exists>r \<in> set (bs_rules s). takes_entries notice target r)"
      proof (cases found)
        case None
        with takes show ?thesis by (auto simp: takes_entries_def)
      next
        case (Some rl)
        obtain r l where rl: "found = Some (r, l)" using Some by (cases rl) simp
        with takes have r: "r \<in> set (bs_rules s)" "case target of None \<Rightarrow> br_notice r = notice | Some i \<Rightarrow> br_id r = i"
          by simp_all
        have differs: "notice \<noteq> None" "notice \<noteq> br_notice r" using False rl by simp_all
        have "inj_on br_id (set (bs_rules s))" using wf by (simp add: wf_blocked_state_def distinct_map)
        then have same: "br_id r' = br_id r \<Longrightarrow> r' \<in> set (bs_rules s) \<Longrightarrow> r' = r" for r'
          using r(1) by (meson inj_onD)
        show ?thesis
        proof (cases target)
          case None
          with r(2) differs(2) show ?thesis by simp
        next
          case (Some i)
          with r(2) differs same show ?thesis by (fastforce simp: takes_entries_def)
        qed
      qed
      ultimately show ?thesis using rest by blast
    qed
  qed simp_all
qed

text \<open>The same addition with a notice that rule 1 does not have.\<close>

definition ex_noticed :: task_plan where
  "ex_noticed = ex_plan [Add_Blocked_Entries [ex_entry ''a.com''] (Some ''No'') (Some 1) ''/'']"

definition ex_extended :: blocked_state where
  "ex_extended = ex_state\<lparr>
     bs_rules := bs_rules ex_state @ [(ex_rule 9 (fst (managed_resource_names ''GWA'' 9))
       (snd (managed_resource_names ''GWA'' 9)) [])\<lparr>br_notice := Some ''No''\<rparr>],
     bs_lists := bs_lists ex_state @ [ex_list 9 (snd (managed_resource_names ''GWA'' 9)) [''a.com'']]\<rparr>"

lemma ex_texts: "py_strip ''No'' = ''No''" "length (short_id 9) \<le> 185"
  by code_simp+

lemma ex_noticed_run:
  "calculate_desired_state ex_state ex_noticed ex_registry [9] ''GWA'' =
     Inr \<lparr>dr_state = ex_extended, dr_notice_affected = 0\<rparr>"
  using ex_texts
  by (simp add: calculate_defs ex_defs ex_noticed_def ex_extended_def sort_by_hex sort_key_simps not_less)

theorem entry_edits_exact_witness:
  "entries_changed ex_state ex_added 1 (\<lambda>blocked. blocked \<union> {''a.com''}) \<and>
   rule_added ex_state ex_extended [ex_entry ''a.com''] (Some ''No'') ''/''"
proof (rule conjI)
  let ?a = "Add_Blocked_Entries [ex_entry ''a.com''] None (Some 1) ''/''"
  have "tp_actions ex_add = [?a]" by (simp add: ex_add_def ex_plan_def)
  from entry_edits_exact [OF ex_state_wf ex_add_run this]
  show "entries_changed ex_state ex_added 1 (\<lambda>blocked. blocked \<union> {''a.com''})"
    by (auto simp: takes_entries_def ex_entry_def ex_state_def ex_rule_def)
next
  let ?a = "Add_Blocked_Entries [ex_entry ''a.com''] (Some ''No'') (Some 1) ''/''"
  have "tp_actions ex_noticed = [?a]" by (simp add: ex_noticed_def ex_plan_def)
  from entry_edits_exact [OF ex_state_wf ex_noticed_run this]
  show "rule_added ex_state ex_extended [ex_entry ''a.com''] (Some ''No'') ''/''"
    by (auto simp: takes_entries_def ex_state_def ex_rule_def)
qed

section \<open>Exceptions\<close>

definition calculation_error :: "exn \<Rightarrow> bool" where
  "calculation_error e \<longleftrightarrow> e \<in> {AmbiguousTarget, OwnershipNotEstablished, ValueError, ValidationError}"

definition raises_only :: "'a res \<Rightarrow> bool" where
  "raises_only m \<longleftrightarrow> (\<forall>e. m = Inl e \<longrightarrow> calculation_error e)"

lemma raises_only_basic [simp]:
  "raises_only (Inr x)" "raises_only (Inl e) \<longleftrightarrow> calculation_error e"
  "calculation_error AmbiguousTarget" "calculation_error OwnershipNotEstablished"
  "calculation_error ValueError" "calculation_error ValidationError"
  by (auto simp: raises_only_def calculation_error_def)

lemma raises_only_then [intro!]:
  "raises_only m \<Longrightarrow> (\<And>x. m = Inr x \<Longrightarrow> raises_only (f x)) \<Longrightarrow> raises_only (and_then m f)"
  by (cases m) auto

lemma raises_only_map [intro!]: "(\<And>x. raises_only (f x)) \<Longrightarrow> raises_only (map_res f xs)"
  by (induction xs) auto

lemma raises_only_fold [intro!]: "(\<And>x s. raises_only (f x s)) \<Longrightarrow> raises_only (fold_res f xs s)"
  by (induction xs arbitrary: s) auto

lemma raises_only_tests [intro, simp]:
  "raises_only (require_owned_rule r g prefix)" "raises_only (require_owned_address_list l g prefix)"
  "raises_only (make_address_list i n es)" "raises_only (make_blocked_rule i n ou ls bs no en inh)"
  "raises_only (make_blocked_state ou rs als us)" "raises_only (require_rule i w)"
  "raises_only (next_id w)"
  using require_owned_Inl make_address_list_Inl make_blocked_rule_Inl make_blocked_state_Inl
  by (fastforce simp: raises_only_def calculation_error_def require_rule_def next_id_def
      split: option.splits list.splits)+

lemma raises_only_lists [intro, simp]:
  "raises_only (require_rule_list r w g prefix)" "raises_only (owned_bypass_lists r w g prefix)"
  "raises_only (make_bypass_list es prefix w)"
  by (auto simp: require_rule_list_def owned_bypass_lists_def owned_bypass_list_def
      make_bypass_list_def Let_def case_prod_unfold split: list.splits)

lemma raises_only_candidates [intro, simp]: "raises_only (add_candidates g prefix notice w rs)"
  by (induction rs) auto

lemma raises_only_resolve [intro, simp]: "raises_only (resolve_add_target notice target w g prefix)"
  by (auto simp: resolve_add_target_def split: option.splits list.splits)

lemma raises_only_create [intro, simp]: "raises_only (create_rule es notice ou bs en prefix w)"
  by (auto simp: create_rule_def Let_def case_prod_unfold)

lemma raises_only_apply [intro, simp]: "raises_only (apply_action g prefix a w)"
proof (cases a)
  case (Remove_Blocked_Sender_Rule i b)
  have "raises_only (remove_bypass g prefix name u)" for name u
    by (auto simp: remove_bypass_def split: list.splits)
  then show ?thesis
    unfolding Remove_Blocked_Sender_Rule by (auto simp: remove_rule_def Let_def)
next
  case (Update_Blocked_Sender_Rule i es bs no en)
  have "raises_only (update_bypass bs existing prefix u)" for existing u
    by (auto simp: update_bypass_def Let_def)
  then show ?thesis
    unfolding Update_Blocked_Sender_Rule by (auto simp: update_rule_def Let_def case_prod_unfold)
qed (auto simp: add_entries_def remove_entries_def set_notice_def set_enabled_def Let_def
    split: option.splits)

text \<open>
  The calculation is total on every observed state, plan, registry and list of fresh
  identifiers: it returns a state or raises one of four exceptions, an ambiguous target, an
  ownership that is not established, or a value error.
\<close>

theorem desired_state_exceptions:
  "case calculate_desired_state s plan g ids prefix of
     Inl e \<Rightarrow> e \<in> {AmbiguousTarget, OwnershipNotEstablished, ValueError, ValidationError}
   | Inr d \<Rightarrow> bs_ou (dr_state d) = bs_ou s"
proof -
  have "raises_only (plan_step ou g prefix a t)" for ou a t
    by (auto simp: plan_step_def case_prod_unfold)
  then have "raises_only (calculate_desired_state s plan g ids prefix)"
    unfolding calculate_desired_state_def by (intro raises_only_then raises_only_fold) auto
  then show ?thesis
    using desired_state_ou by (auto simp: raises_only_def calculation_error_def split: sum.splits)
qed


section \<open>Corner cases\<close>

text \<open>
  Two owned rules share an owned bypass list. Removing a rule refuses to delete a list another
  rule names, but updating a rule without bypass entries deletes it: the desired state has a
  rule that names a list which is not there.
\<close>

definition ex_shared :: blocked_state where
  "ex_shared = \<lparr>bs_ou = ''/'',
     bs_rules = [ex_rule 1 ''GWA Rule 1'' ''GWA List 1'' [''GWA Shared''],
       ex_rule 3 ''GWA Rule 3'' ''GWA List 3'' [''GWA Shared'']],
     bs_lists = [ex_list 1 ''GWA List 1'' [''b.com''], ex_list 3 ''GWA List 3'' [''c.com''],
       ex_list 9 ''GWA Shared'' [''d.com'']],
     bs_unmanaged = []\<rparr>"

definition ex_shared_registry :: registry where
  "ex_shared_registry = \<lparr>rg_schema = ''2.0'', rg_resources = [ex_record 1 ''GWA Rule 1'' ''GWA List 1'',
       ex_record 3 ''GWA Rule 3'' ''GWA List 3''],
     rg_lists = [\<lparr>lr_id = 9, lr_name = ''GWA Shared'', lr_ou = ''/'', lr_purpose = For_Bypass,
       lr_created = Aware 0, lr_snapshot = None\<rparr>], rg_compliance = []\<rparr>"

lemmas ex_shared_defs = ex_shared_def ex_shared_registry_def

lemma remove_rule_keeps_shared_bypass:
  "calculate_desired_state ex_shared (ex_plan [Remove_Blocked_Sender_Rule 1 True])
     ex_shared_registry [] ''GWA'' = Inl AmbiguousTarget"
  by (simp add: calculate_defs ex_defs ex_shared_defs)

lemma update_rule_drops_shared_bypass:
  "\<exists>d. calculate_desired_state ex_shared
      (ex_plan [Update_Blocked_Sender_Rule 1 [ex_entry ''b.com''] [] None True])
      ex_shared_registry [] ''GWA'' = Inr d \<and>
    ex_rule 3 ''GWA Rule 3'' ''GWA List 3'' [''GWA Shared''] \<in> set (bs_rules (dr_state d)) \<and>
    ''GWA Shared'' \<notin> al_name ` set (bs_lists (dr_state d))"
  by (simp add: calculate_defs ex_defs ex_shared_defs sort_by_hex sort_key_simps)

text \<open>
  Removing a rule refuses to delete a bypass list another rule names; updating a rule
  without bypass entries deletes it, and the state it asks for has a rule that names a list
  which is not there.
\<close>

theorem shared_bypass_list:
  "calculate_desired_state ex_shared (ex_plan [Remove_Blocked_Sender_Rule 1 True])
     ex_shared_registry [] ''GWA'' = Inl AmbiguousTarget \<and>
   (\<exists>d. calculate_desired_state ex_shared
      (ex_plan [Update_Blocked_Sender_Rule 1 [ex_entry ''b.com''] [] None True])
      ex_shared_registry [] ''GWA'' = Inr d \<and>
    (\<exists>r \<in> set (bs_rules (dr_state d)). \<exists>n \<in> set (br_bypass r). n \<notin> al_name ` set (bs_lists (dr_state d))))"
proof -
  have "''GWA Shared'' \<in> set (br_bypass (ex_rule 3 ''GWA Rule 3'' ''GWA List 3'' [''GWA Shared'']))"
    by (simp add: ex_rule_def)
  then show ?thesis using remove_rule_keeps_shared_bypass update_rule_drops_shared_bypass by blast
qed

text \<open>
  A plan whose bypass entries are duplicated passes the plan's validator, and the desired
  state gets an address list its own constructor would refuse.
\<close>

definition ex_duplicate_bypass :: action where
  "ex_duplicate_bypass =
     Update_Blocked_Sender_Rule 1 [ex_entry ''b.com''] [ex_entry ''e.com'', ex_entry ''e.com''] None True"

lemma duplicate_bypass_reaches_state:
  "check_action ex_duplicate_bypass = Inr ex_duplicate_bypass"
  "make_task_plan (ex_plan [ex_duplicate_bypass]) = Inr (ex_plan [ex_duplicate_bypass])"
  "\<exists>d. calculate_desired_state ex_shared (ex_plan [ex_duplicate_bypass]) ex_shared_registry [] ''GWA'' = Inr d \<and>
    (\<exists>l \<in> set (bs_lists (dr_state d)). \<not> wf_address_list l)"
  by (simp_all add: ex_duplicate_bypass_def calculate_defs ex_defs ex_shared_defs make_task_plan_def
      validate_status_def given_def check_optional_notice_def disjoint_entries_def wf_address_list_def
      sort_by_hex sort_key_simps)

text \<open>An inherited rule cannot be switched off, but it can be removed.\<close>

definition ex_inherited :: blocked_state where
  "ex_inherited = ex_state\<lparr>bs_rules := [(ex_rule 1 ''GWA Rule 1'' ''GWA List 1'' [])\<lparr>br_inherited := True\<rparr>]\<rparr>"

lemma inherited_rule_is_removable:
  "calculate_desired_state ex_inherited (ex_plan [Set_Blocked_Sender_Rule_Enabled 1 False])
     ex_registry [] ''GWA'' = Inl AmbiguousTarget"
  "\<exists>d. calculate_desired_state ex_inherited (ex_plan [Remove_Blocked_Sender_Rule 1 True])
     ex_registry [] ''GWA'' = Inr d \<and> bs_rules (dr_state d) = []"
  by (simp_all add: calculate_defs ex_defs ex_inherited_def sort_by_hex sort_key_simps)

end
