(* ===== verification/Change_Claims.thy ===== *)
theory Change_Claims
  imports Data_Claims Desired_Claims Verification Compliance_Desired
begin

text \<open>
  The properties of the change set, of the read-back comparison, of the reconciliation of an
  uncertain mutation, of the terminal status and of the content-compliance calculation, each
  with a concrete run.
\<close>

section \<open>The change set\<close>

text \<open>
  C12. The change set of two states is exact: an exact writer that removes, replaces and
  creates what it lists turns the rules and the address lists of the one into those of the
  other, and it asks for a mutation exactly when they differ.
\<close>

theorem change_set_exact:
  assumes "wf_blocked_state s" and "wf_blocked_state t"
  shows "rules_after s (calculate_change_set s t) = set (bs_rules t) \<and>
    lists_after s (calculate_change_set s t) = set (bs_lists t) \<and>
    (has_mutations (calculate_change_set s t) \<longleftrightarrow>
       set (bs_rules s) \<noteq> set (bs_rules t) \<or> set (bs_lists s) \<noteq> set (bs_lists t))"
  using change_set_applied [OF assms] no_mutations_iff [OF assms] by simp

lemma ex_lists_differ: "set (bs_lists ex_state) \<noteq> set (bs_lists ex_added)"
proof -
  have "ex_list 1 ''GWA List 1'' [''a.com'', ''b.com''] \<in> set (bs_lists ex_added)"
    "ex_list 1 ''GWA List 1'' [''a.com'', ''b.com''] \<notin> set (bs_lists ex_state)"
    by (simp_all add: ex_added_def ex_state_def ex_list_def)
  then show ?thesis by metis
qed

lemma ex_added_wf [simp]: "wf_blocked_state ex_added"
  by (simp add: wf_blocked_state_def ex_added_def ex_defs)

theorem change_set_exact_witness:
  "has_mutations (calculate_change_set ex_state ex_added) \<and>
   lists_after ex_state (calculate_change_set ex_state ex_added) = set (bs_lists ex_added)"
  using change_set_exact [OF ex_state_wf ex_added_wf] ex_lists_differ by simp

section \<open>The read-back\<close>

text \<open>
  C11. The read-back comparison accepts exactly the states an exact application of the
  change set of the calculated desired state leads to: their rules and address lists are the
  observed ones with the listed changes made, the rules' names are distinct, and the
  unmanaged names are the observed ones.
\<close>

theorem matched_is_exact_application:
  assumes "wf_blocked_state s" and "wf_blocked_state t"
    and "calculate_desired_state s plan g ids prefix = Inr d"
  shows "(\<exists>v. verify_state (dr_state d) (Some t) = Inr v \<and> vr_status v = Matched) \<longleftrightarrow>
    distinct (map br_name (bs_rules t)) \<and>
    set (bs_rules t) = rules_after s (calculate_change_set s (dr_state d)) \<and>
    set (bs_lists t) = lists_after s (calculate_change_set s (dr_state d)) \<and>
    mset (bs_unmanaged t) = mset (bs_unmanaged s)"
proof -
  from assms(3) have d: "wf_blocked_state (dr_state d)" "bs_unmanaged (dr_state d) = sort (bs_unmanaged s)"
    by (auto elim!: calculate_Inr)
  have "(\<exists>v. verify_state (dr_state d) (Some t) = Inr v \<and> vr_status v = Matched) \<longleftrightarrow>
      distinct (map br_name (bs_rules t)) \<and> same_configuration (dr_state d) t"
    using verify_state_matched [OF d(1), of "Some t"] assms(2) by simp
  then show ?thesis
    unfolding change_set_applied [OF assms(1) d(1)] same_configuration_def d(2) mset_sort by auto
qed

theorem matched_is_exact_application_witness:
  "(\<exists>v. verify_state ex_added (Some ex_added) = Inr v \<and> vr_status v = Matched) \<and>
   \<not> (\<exists>v. verify_state ex_added (Some ex_state) = Inr v \<and> vr_status v = Matched)"
proof -
  have "\<exists>v. verify_state ex_added (Some ex_added) = Inr v \<and> vr_status v = Matched"
    using matched_is_exact_application [OF ex_state_wf ex_added_wf ex_add_run]
      change_set_applied [OF ex_state_wf ex_added_wf]
    by (simp add: ex_added_def ex_defs)
  moreover have "\<not> (\<exists>v. verify_state ex_added (Some ex_state) = Inr v \<and> vr_status v = Matched)"
    using matched_is_exact_application [OF ex_state_wf ex_state_wf ex_add_run]
      change_set_applied [OF ex_state_wf ex_added_wf] ex_lists_differ by simp
  ultimately show ?thesis ..
qed

section \<open>Reconciliation\<close>

text \<open>What a read-back shows of an uncertain mutation.\<close>

definition desired_present :: "blocked_state \<Rightarrow> blocked_state \<Rightarrow> bool" where
  "desired_present s t \<longleftrightarrow> distinct (map br_name (bs_rules t)) \<and> same_configuration s t"

definition digest_unchanged :: "(string \<Rightarrow> string) \<Rightarrow> blocked_state \<Rightarrow> blocked_state \<Rightarrow> bool" where
  "digest_unchanged H b t \<longleftrightarrow> canonical_hash H (dump_blocked_state b) = canonical_hash H (dump_blocked_state t)"

definition some_change_made :: "blocked_state \<Rightarrow> blocked_state \<Rightarrow> blocked_state \<Rightarrow> bool" where
  "some_change_made b s t \<longleftrightarrow> (\<exists>i. rule_at b i \<noteq> rule_at s i \<and> rule_at t i = rule_at s i) \<or>
     (\<exists>i. list_at b i \<noteq> list_at s i \<and> list_at t i = list_at s i)"

text \<open>
  C13. After an uncertain mutation the reconciliation always decides, with or without a
  read-back. It reports success only for a read-back that matches the desired state; it
  authorises a retry exactly when there is a read-back that does not match and has the digest
  of the state before, the mutation was never retried and is idempotent, and ownership, root
  unit and confirmation still hold; it reports a partial application exactly when the
  read-back neither matches nor is unchanged and some resource that was to change is as
  desired; in every other case, a missing read-back included, the outcome is indeterminate.
\<close>

theorem reconciliation_decides:
  assumes "wf_blocked_state b" and "wf_blocked_state s" and "\<And>t. seen = Some t \<Longrightarrow> wf_blocked_state t"
  shows "\<exists>d. reconcile_mutation H b s seen x = Inr d \<and> rd_observed d = seen \<and>
    (rd_outcome d = Desired_State_Present \<longleftrightarrow> (\<exists>t. seen = Some t \<and> desired_present s t)) \<and>
    (rd_outcome d = Mutation_Not_Applied \<longleftrightarrow>
       (\<exists>t. seen = Some t \<and> \<not> desired_present s t \<and> digest_unchanged H b t)) \<and>
    (rd_retry d \<longleftrightarrow> rd_outcome d = Mutation_Not_Applied \<and> rx_retry_count x = 0 \<and> rx_idempotent x \<and>
       rx_ownership x \<and> rx_root_ou x \<and> rx_confirmation x) \<and>
    (rd_outcome d = Partially_Applied_Outcome \<longleftrightarrow>
       (\<exists>t. seen = Some t \<and> \<not> desired_present s t \<and> \<not> digest_unchanged H b t \<and> some_change_made b s t)) \<and>
    (rd_outcome d = Outcome_Indeterminate \<longleftrightarrow>
       (\<forall>t. seen = Some t \<longrightarrow> \<not> desired_present s t \<and> \<not> digest_unchanged H b t \<and> \<not> some_change_made b s t))"
proof (cases seen)
  case None
  then show ?thesis by (simp add: reconcile_mutation_def make_decision_def)
next
  case (Some t)
  note wf = assms(1,2) assms(3) [OF Some]
  obtain v where v: "verify_state s (Some t) = Inr v" using verify_state_total by blast
  then have "vr_status v = Matched \<longleftrightarrow> desired_present s t"
    using verify_state_matched [OF wf(2), of "Some t"] wf(3) by (simp add: desired_present_def)
  moreover have "has_any_desired_change b s t \<longleftrightarrow> some_change_made b s t"
    unfolding some_change_made_def by (rule has_any_desired_change_iff [OF wf])
  ultimately show ?thesis
    using v Some by (simp add: reconcile_mutation_def make_decision_def digest_unchanged_def retry_preconditions_hold_def)
qed

definition ex_context :: reconciliation_context where
  "ex_context = \<lparr>rx_retry_count = 0, rx_idempotent = True, rx_ownership = True, rx_root_ou = True,
     rx_confirmation = True\<rparr>"

theorem reconciliation_decides_witness:
  "\<exists>d. reconcile_mutation id ex_state ex_added (Some ex_state) ex_context = Inr d \<and> rd_retry d"
proof -
  have "\<not> same_configuration ex_added ex_state" using ex_lists_differ by (auto simp: same_configuration_def)
  then show ?thesis
    using reconciliation_decides [OF ex_state_wf ex_added_wf, of "Some ex_state" id ex_context] ex_state_wf
    by (auto simp: ex_context_def desired_present_def digest_unchanged_def)
qed

section \<open>The terminal status\<close>

text \<open>
  A run always ends with a result. It is reported as applied (pending propagation)
  exactly when the run was supported, confirmed and needed a change, the mutation was
  attempted and not partial, and a verification matched; a mutation whose outcome is unknown
  and that no read-back verified is reported as indeterminate, never as unchanged.
\<close>

theorem terminal_status_is_honest:
  "\<exists>r. determine_run_result m v rejected unsupported unneeded = Inr r \<and>
     (rr_status r = Applied_Pending_Propagation \<longleftrightarrow>
        \<not> unsupported \<and> \<not> rejected \<and> \<not> unneeded \<and>
        (\<exists>m' v'. m = Some m' \<and> v = Some v' \<and> mr_status m' \<noteq> Partial \<and> vr_status v' = Matched)) \<and>
     (rr_status r = Indeterminate \<longleftrightarrow>
        \<not> unsupported \<and> \<not> rejected \<and> \<not> unneeded \<and>
        (\<exists>m'. m = Some m' \<and> mr_status m' \<noteq> Partial \<and>
           (v = None \<or> (\<exists>v'. v = Some v' \<and> vr_status v' \<noteq> Matched \<and> mr_status m' \<noteq> Unchanged)))) \<and>
     (rr_pending r \<longleftrightarrow> rr_status r = Applied_Pending_Propagation)"
  by (cases m; cases v)
    (auto simp: determine_run_result_def make_run_result_def plain_result_def)

section \<open>Content compliance\<close>

text \<open>
  C29. A content-compliance calculation keeps every observed rule that is not owned, or is
  inherited from a parent organizational unit, exactly as observed; the desired rules are
  sorted by identifier with distinct identifiers, and their names are distinct among
  themselves and from the unmanaged rules.
\<close>

theorem compliance_rules_protected:
  assumes "distinct (map cr_id (cs_rules s))" and "list_all valid_action (tp_actions plan)"
    and "calculate_compliance_desired_state re2_ok s plan g ids prefix = Inr d"
  shows "(\<forall>r \<in> set (cs_rules s). owned_compliance g prefix r \<and> \<not> cr_inherited r \<or> r \<in> set (cs_rules d)) \<and>
    sorted (map cr_id (cs_rules d)) \<and> distinct (map cr_id (cs_rules d)) \<and>
    distinct (map cr_name (cs_rules d) @ cs_unmanaged d)"
proof -
  from assms(3) have "sorted (map cr_id (cs_rules d)) \<and> distinct (map cr_id (cs_rules d)) \<and>
    distinct (map cr_name (cs_rules d) @ cs_unmanaged d)"
    by (rule calculate_compliance_Inr) (simp only: sorted_sort_key simp_thms)
  then show ?thesis
    using compliance_unowned_kept [OF assms] by (auto simp: editable_compliance_def)
qed

definition ex_compliance_rule :: "uuid \<Rightarrow> string \<Rightarrow> compliance_rule" where
  "ex_compliance_rule i name = compliance_draft.extend ex_draft \<lparr>cr_id = i, cr_name = name\<rparr>"

definition ex_compliance_state :: compliance_state where
  "ex_compliance_state = \<lparr>cs_rules = [ex_compliance_rule 2 ''GWA DLP'',
       (ex_compliance_rule 1 ''GWA Rule'')\<lparr>cr_inherited := False\<rparr>],
     cs_unmanaged = [], cs_capabilities = []\<rparr>"

definition ex_compliance_registry :: registry where
  "ex_compliance_registry = \<lparr>rg_schema = ''2.0'', rg_resources = [], rg_lists = [],
     rg_compliance = [\<lparr>co_id = 1, co_name = ''GWA Rule'', co_ou = ''/'', co_created = Aware 0, co_snapshot = None\<rparr>]\<rparr>"

definition ex_compliance_plan :: task_plan where
  "ex_compliance_plan = ex_plan [Remove_Content_Compliance_Rule 1]"

lemmas ex_compliance_defs = ex_compliance_rule_def ex_compliance_state_def ex_compliance_registry_def
  ex_compliance_plan_def ex_plan_def ex_draft_def compliance_draft.defs

lemma ex_compliance_run:
  "calculate_compliance_desired_state (\<lambda>_. True) ex_compliance_state ex_compliance_plan
     ex_compliance_registry [] ''GWA'' =
   Inr \<lparr>cs_rules = [ex_compliance_rule 2 ''GWA DLP''], cs_unmanaged = [], cs_capabilities = []\<rparr>"
  by (simp add: calculate_compliance_desired_state_def require_editable_def require_compliance_rule_def
      require_owned_compliance_rule_def find_compliance_def make_compliance_state_def dict_of_def
      ex_compliance_defs sort_key_simps)

theorem compliance_rules_protected_witness:
  "\<not> owned_compliance ex_compliance_registry ''GWA'' (ex_compliance_rule 2 ''GWA DLP'') \<and>
   ex_compliance_rule 2 ''GWA DLP'' \<in> set (cs_rules ex_compliance_state) \<and>
   length (cs_rules ex_compliance_state) = 2 \<and>
   sorted (map cr_id [ex_compliance_rule 2 ''GWA DLP''])"
proof -
  have d: "distinct (map cr_id (cs_rules ex_compliance_state))" and
    v: "list_all valid_action (tp_actions ex_compliance_plan)"
    by (simp_all add: ex_compliance_defs valid_action_def)
  show ?thesis
    using compliance_rules_protected [OF d v ex_compliance_run]
    by (simp add: owned_compliance_def ex_compliance_defs)
qed

end
