(* ===== verification/Audit_Claims.thy ===== *)
theory Audit_Claims
  imports Audit_Chain
begin

text \<open>The properties of the audit stream, with concrete streams.\<close>

section \<open>A small stream\<close>

text \<open>The digits of a text as its digest, and a readable time stamp.\<close>

definition ex_digest :: "string \<Rightarrow> string" where
  "ex_digest = filter is_digit_char"

fun ex_iso :: "py_datetime \<Rightarrow> string" where
  "ex_iso (Naive i) = ''N'' @ show_int i"
| "ex_iso (Aware i) = ''A'' @ show_int i"

lemma show_int_inj: "show_int i = show_int j \<Longrightarrow> i = j"
  using show_int_stop [of i "[]" j "[]"] by simp

lemma ex_iso_inj: "inj ex_iso"
proof (rule injI)
  fix x y assume "ex_iso x = ex_iso y"
  then show "x = y" by (cases x; cases y) (auto dest: show_int_inj)
qed

definition ex_event :: "int \<Rightarrow> string \<Rightarrow> audit_event" where
  "ex_event n t = \<lparr>ev_run_id = ''r'', ev_sequence = n, ev_timestamp = Aware n, ev_type = t,
     ev_component = ''planner'', ev_outcome = ''recorded'', ev_plan_hash = None, ev_before_hash = None,
     ev_change_hash = None, ev_ownership_id = None, ev_ou = None, ev_error = None,
     ev_correlation = None, ev_previous = None, ev_hash = None\<rparr>"

definition ex_writer :: "disk_outcome list \<Rightarrow> audit_writer" where
  "ex_writer disk = \<lparr>aw_stream = [], aw_artifacts = [], aw_last_sequence = 0, aw_last_hash = None,
     aw_run_id = None, aw_disk = disk\<rparr>"

text \<open>A reader that knows the lines of some events.\<close>

definition reader_of :: "(py_datetime \<Rightarrow> string) \<Rightarrow> audit_event list \<Rightarrow> string \<Rightarrow> audit_event option" where
  "reader_of isofmt es l = find (\<lambda>e. event_line isofmt e = l) es"

lemma reader_of_line: "inj isofmt \<Longrightarrow> e \<in> set es \<Longrightarrow> reader_of isofmt es (event_line isofmt e) = Some e"
  unfolding reader_of_def by (induction es) (auto dest: event_line_inj)

text \<open>What the writer makes of the two events, the second refused once by the disk.\<close>

definition ex_first :: audit_event where
  "ex_first = (ex_event 1 ''request'')\<lparr>ev_hash := Some ''11''\<rparr>"

definition ex_second :: audit_event where
  "ex_second = (ex_event 2 ''plan'')\<lparr>ev_previous := Some ''11'', ev_hash := Some ''1122''\<rparr>"

definition ex_run :: "disk_outcome list \<Rightarrow> audit_event list \<times> audit_writer" where
  "ex_run disk = append_each ex_digest ex_iso [ex_event 1 ''request'', ex_event 2 ''plan'', ex_event 2 ''plan''] (ex_writer disk)"

lemma ex_digest_first: "ex_digest (canonical_event_json ex_iso (ex_event 1 ''request'')) = ''11''"
  by code_simp

lemma ex_digest_second:
  "ex_digest (canonical_event_json ex_iso ((ex_event 2 ''plan'')\<lparr>ev_previous := Some ''11''\<rparr>)) = ''1122''"
  by code_simp

lemma ex_event_simps [simp]:
  "ev_sequence (ex_event n t) = n" "ev_run_id (ex_event n t) = ''r''" "ev_previous (ex_event n t) = None"
  "(ex_event n t)\<lparr>ev_previous := None\<rparr> = ex_event n t"
  by (simp_all add: ex_event_def)

lemmas ex_run_simps = ex_run_def append_event_unfold acceptable_def finalized_def ex_writer_def
  next_disk_def bind_def andthen_def ex_digest_first ex_digest_second ex_first_def ex_second_def

lemma ex_runs:
  "fst (ex_run [Done, No_Directory]) = [ex_first, ex_second]"
  "fst (ex_run []) = [ex_first, ex_second]"
  by (simp_all add: ex_run_simps)

lemma ex_safe [simp]: "line_safe ex_iso ex_first" "line_safe ex_iso ex_second"
  by (rule line_safe_plain; simp add: event_members_def ex_first_def ex_second_def ex_event_def show_int_def
      show_nat_plain)+

lemma ex_reads [simp]:
  "reader_of ex_iso [ex_first, ex_second] (event_line ex_iso ex_first) = Some ex_first"
  "reader_of ex_iso [ex_first, ex_second] (event_line ex_iso ex_second) = Some ex_second"
  by (simp_all add: reader_of_line ex_iso_inj)

lemma ex_new: "new_writer False disk = Inr (ex_writer disk)"
  by (simp add: new_writer_def ex_writer_def)

section \<open>The stream verifies\<close>

text \<open>
  C14. While no call to the file system fails once text has reached the stream, whatever
  appends the writer accepts or refuses and whatever calls fail before that, the stream it
  leaves verifies: every event it returned is there, in order, with its sequence number and
  its link to the previous hash. After that, whatever is appended and whatever then fails, in
  the middle of a line or after it, the lines of these events stay at the head of the stream.
\<close>

theorem written_stream_verifies:
  assumes "new_writer False disk = Inr w" and "list_all clean disk"
    and "append_each H isofmt es w = (f # fs, v)"
    and "list_all (\<lambda>e. read (event_line isofmt e) = Some e \<and> line_safe isofmt e) (f # fs)"
  shows "verify_event_chain H isofmt read (Some (aw_stream v)) = [] \<and>
    split_lines (aw_stream v) = map (event_line isofmt) (f # fs) \<and>
    map ev_sequence (f # fs) = map int [1 ..< 2 + length fs] \<and>
    (\<forall>later failures. take (Suc (length fs)) (split_lines (aw_stream (snd (append_each H isofmt later (v\<lparr>aw_disk := failures\<rparr>))))) =
       map (event_line isofmt) (f # fs))"
proof -
  have "list_all clean (aw_disk w)" using assms(1,2) by (auto simp: new_writer_def)
  then have c: "consistent H isofmt (f # fs) v"
    using append_each_consistent [OF assms(3) consistent_new [OF assms(1)]] by simp
  have safe: "list_all (line_safe isofmt) (f # fs)" using assms(4) by (auto simp: list_all_iff)
  have lines: "split_lines (aw_stream v) = map (event_line isofmt) (f # fs)"
    using c split_stream_of [OF safe] by (simp add: consistent_def)
  moreover have "map read (split_lines (aw_stream v)) = map Some (f # fs)"
    using assms(4) unfolding lines by (simp add: list_all_iff)
  moreover have "linked H isofmt (ev_run_id f) 1 None (f # fs)"
    using c unfolding consistent_def list.sel by blast
  moreover from this have "map ev_sequence (f # fs) = map int [1 ..< 2 + length fs]"
    by (rule linked_sequences)
  moreover have "take (Suc (length fs)) (split_lines (aw_stream (snd (append_each H isofmt later (v\<lparr>aw_disk := failures\<rparr>))))) =
      map (event_line isofmt) (f # fs)" for later failures
  proof -
    obtain rest where "aw_stream (snd (append_each H isofmt later (v\<lparr>aw_disk := failures\<rparr>))) = aw_stream v @ rest"
      using append_each_extends [of H isofmt later "v\<lparr>aw_disk := failures\<rparr>"] by auto
    moreover have "aw_stream v = stream_of isofmt (f # fs)" using c by (simp add: consistent_def)
    ultimately show ?thesis using split_stream_append [OF safe, of rest] by simp
  qed
  ultimately show ?thesis unfolding verify_event_chain_ok by blast
qed

theorem written_stream_verifies_witness:
  "fst (ex_run [Done, No_Directory]) = [ex_first, ex_second] \<and>
   verify_event_chain ex_digest ex_iso (reader_of ex_iso [ex_first, ex_second])
     (Some (aw_stream (snd (ex_run [Done, No_Directory])))) = []"
proof -
  have run: "append_each ex_digest ex_iso [ex_event 1 ''request'', ex_event 2 ''plan'', ex_event 2 ''plan'']
      (ex_writer [Done, No_Directory]) = ([ex_first, ex_second], snd (ex_run [Done, No_Directory]))"
    using ex_runs(1) unfolding ex_run_def by (simp only: prod_eq_iff fst_conv snd_conv simp_thms)
  show ?thesis
    using written_stream_verifies [OF ex_new _ run] ex_runs(1) by (simp add: clean_def)
qed

section \<open>The stream is tamper evident\<close>

text \<open>
  Two streams that verify and end in the same event hash hold the same events, when
  the digest has no collision among them: no event of a verified stream can be changed,
  inserted, dropped or reordered without changing the last hash.
\<close>

theorem verified_streams_agree:
  assumes "verify_event_chain H isofmt read (Some s) = []" and "map read (split_lines s) = map Some es"
    and "verify_event_chain H isofmt read (Some t) = []" and "map read (split_lines t) = map Some fs"
    and "ev_hash (last es) = ev_hash (last fs)" and "inj isofmt"
    and "collision_free H (canonical_event_json isofmt ` (set es \<union> set fs))"
  shows "es = fs"
proof -
  have chain: "\<exists>run. us \<noteq> [] \<and> linked H isofmt run 1 None us"
    if "verify_event_chain H isofmt read (Some u) = []" "map read (split_lines u) = map Some us" for u us
  proof -
    from that(1) obtain e vs where "map read (split_lines u) = map Some (e # vs)"
      "linked H isofmt (ev_run_id e) 1 None (e # vs)" unfolding verify_event_chain_ok by blast
    moreover from this that(2) have "us = e # vs" by (metis inj_map_eq_map inj_Some)
    ultimately show ?thesis by blast
  qed
  from chain [OF assms(1,2)] obtain r where r: "es \<noteq> []" "linked H isofmt r 1 None es" by blast
  from chain [OF assms(3,4)] obtain q where q: "fs \<noteq> []" "linked H isofmt q 1 None fs" by blast
  show ?thesis
    by (rule linked_determined [OF assms(6,7) r(2) q(2)])
      (use assms(5) r q in \<open>auto simp: last_hash_def\<close>)
qed

lemma ex_verified:
  "verify_event_chain ex_digest ex_iso (reader_of ex_iso [ex_first, ex_second])
     (Some (stream_of ex_iso [ex_first, ex_second])) = []"
  "map (reader_of ex_iso [ex_first, ex_second]) (split_lines (stream_of ex_iso [ex_first, ex_second])) =
     map Some [ex_first, ex_second]"
proof -
  show r: "map (reader_of ex_iso [ex_first, ex_second]) (split_lines (stream_of ex_iso [ex_first, ex_second])) =
      map Some [ex_first, ex_second]"
    using split_stream_of [of ex_iso "[ex_first, ex_second]"] by simp
  have "consistent ex_digest ex_iso [ex_first, ex_second] (snd (ex_run []))"
    using append_each_consistent [OF _ consistent_new [OF ex_new], of ex_digest ex_iso _ "[]"] ex_runs(2)
    unfolding ex_run_def by (metis append_Nil ex_writer_def audit_writer.select_convs(6) list.pred_inject(1) prod.collapse)
  then have "linked ex_digest ex_iso (ev_run_id ex_first) 1 None [ex_first, ex_second]"
    unfolding consistent_def list.sel by blast
  with r show "verify_event_chain ex_digest ex_iso (reader_of ex_iso [ex_first, ex_second])
      (Some (stream_of ex_iso [ex_first, ex_second])) = []"
    unfolding verify_event_chain_ok by blast
qed

lemma ex_collision_free: "collision_free ex_digest (canonical_event_json ex_iso ` {ex_first, ex_second})"
  by (auto simp: collision_free_def ex_first_def ex_second_def ex_digest_first ex_digest_second)

theorem verified_streams_agree_witness:
  "map (reader_of ex_iso [ex_first, ex_second]) (split_lines (stream_of ex_iso [ex_first, ex_second])) =
     map Some [ex_first, ex_second] \<and> fst (ex_run []) = fst (ex_run [Done, No_Directory])"
proof -
  have "fst (ex_run []) = fst (ex_run [Done, No_Directory])"
    by (rule verified_streams_agree [OF ex_verified(1) _ ex_verified(1) _ _ ex_iso_inj])
      (use ex_verified(2) ex_collision_free in \<open>simp_all add: ex_runs\<close>)
  with ex_verified(2) show ?thesis by simp
qed

section \<open>A failure after the text is written\<close>

text \<open>
  An append whose text reaches the file and whose flush then fails is reported as not
  written: the writer keeps its sequence number and its last hash. Whatever event the next
  successful append adds, the stream then no longer verifies.
\<close>

theorem failed_flush_breaks_stream:
  assumes "consistent H isofmt es w" and "aw_disk w = Written_Then_Failed # ds"
    and "acceptable e w" and "append_event H isofmt e w = (r, w')"
    and "append_event H isofmt e' w' = (Inr f, v)"
    and "list_all (\<lambda>e. read (event_line isofmt e) = Some e \<and> line_safe isofmt e) (es @ [finalized H isofmt e w, f])"
  shows "r = Inl AuditWriteFailure \<and> verify_event_chain H isofmt read (Some (aw_stream v)) \<noteq> []"
proof -
  let ?g = "finalized H isofmt e w"
  have r: "r = Inl AuditWriteFailure"
    "w' = w\<lparr>aw_stream := aw_stream w @ event_line isofmt ?g @ [CHR 0x0A], aw_disk := ds\<rparr>"
    using assms(2-4) by (auto simp: append_event_unfold next_disk_def act_defs)
  have "aw_stream v = stream_of isofmt (es @ [?g, f])"
    using append_event_Inr(3) [OF assms(5)] assms(1) r(2) by (simp add: consistent_def stream_of_def)
  then have lines: "map read (split_lines (aw_stream v)) = map Some (es @ [?g, f])"
    using split_stream_of [of isofmt "es @ [?g, f]"] assms(6) by (auto simp: list_all_iff)
  have "ev_sequence f = int (length es) + 1"
    using append_event_Inr(1,2) [OF assms(5)] assms(1) r(2) by (simp add: acceptable_def consistent_def)
  then have "\<not> linked H isofmt run 1 None (es @ [?g, f])" for run
    using linked_snoc [of H isofmt run 1 None "es @ [?g]" f] by simp
  moreover have "vs = es @ [?g, f]" if "map read (split_lines (aw_stream v)) = map Some vs" for vs
    using that lines by (metis inj_map_eq_map inj_Some)
  ultimately have "verify_event_chain H isofmt read (Some (aw_stream v)) \<noteq> []"
    unfolding verify_event_chain_ok by fastforce
  with r show ?thesis by blast
qed

theorem failed_flush_breaks_stream_witness:
  "\<exists>r w' f v. append_event ex_digest ex_iso (ex_event 1 ''request'') (ex_writer [Written_Then_Failed]) = (r, w') \<and>
     append_event ex_digest ex_iso (ex_event 1 ''plan'') w' = (Inr f, v) \<and>
     verify_event_chain ex_digest ex_iso (reader_of ex_iso [ex_first, f]) (Some (aw_stream v)) \<noteq> []"
proof -
  let ?w = "ex_writer [Written_Then_Failed]" and ?e = "ex_event 1 ''request''" and ?e' = "ex_event 1 ''plan''"
  obtain r w' where a: "append_event ex_digest ex_iso ?e ?w = (r, w')" by fastforce
  then have w': "w' = ?w\<lparr>aw_stream := event_line ex_iso ex_first @ [CHR 0x0A], aw_disk := []\<rparr>"
    by (auto simp: ex_run_simps act_simps)
  obtain f v where b: "append_event ex_digest ex_iso ?e' w' = (Inr f, v)" and f: "f = finalized ex_digest ex_iso ?e' w'"
    unfolding w' by (simp add: append_event_unfold acceptable_def next_disk_def bind_def andthen_def ex_writer_def)
  have g: "finalized ex_digest ex_iso ?e ?w = ex_first"
    by (simp add: finalized_def ex_writer_def ex_digest_first ex_first_def)
  have "ev_hash f = Some ''11''"
    unfolding f w' finalized_def by (simp add: ex_writer_def) code_simp
  then have "line_safe ex_iso f"
    by (intro line_safe_plain)
      (simp add: f w' finalized_def ex_writer_def event_members_def ex_event_def show_int_def show_nat_plain)
  then have "list_all (\<lambda>e. reader_of ex_iso [ex_first, f] (event_line ex_iso e) = Some e \<and> line_safe ex_iso e)
      ([] @ [finalized ex_digest ex_iso ?e ?w, f])"
    unfolding g by (simp add: reader_of_line ex_iso_inj)
  from failed_flush_breaks_stream [OF consistent_new [OF ex_new] _ _ a b this] a b show ?thesis
    by (auto simp: ex_writer_def acceptable_def)
qed

end
