(* ===== verification/Ownership_Claims.thy ===== *)
theory Ownership_Claims
  imports Ownership_Recovery Change_Claims Audit_Claims
begin

text \<open>The properties of the ownership commits, of recovery and of the health report.\<close>

section \<open>Commits\<close>

definition ex_verification :: "blocked_state \<Rightarrow> verification_result" where
  "ex_verification s = \<lparr>vr_status = Matched, vr_desired = s, vr_observed = Some s, vr_differences = []\<rparr>"

definition ex_store :: "registry \<Rightarrow> store" where
  "ex_store g = \<lparr>st_registry = Some g, st_faults = [], st_ticks = 0\<rparr>"

text \<open>Creating a rule in the small console.\<close>

definition ex_create :: task_plan where
  "ex_create = ex_plan [Create_Blocked_Sender_Rule [ex_entry ''z.com''] None ''/'' [] True]"

definition ex_created :: blocked_state where
  "ex_created = ex_state\<lparr>
     bs_rules := bs_rules ex_state @ [ex_rule 7 (fst (managed_resource_names ''GWA'' 7)) (snd (managed_resource_names ''GWA'' 7)) []],
     bs_lists := bs_lists ex_state @ [ex_list 7 (snd (managed_resource_names ''GWA'' 7)) [''z.com'']]\<rparr>"

lemma length_short_id [simp]: "length (short_id i) = 8"
  by (simp add: short_id_def)

lemma ex_create_run:
  "calculate_desired_state ex_state ex_create ex_registry [7] ''GWA'' =
     Inr \<lparr>dr_state = ex_created, dr_notice_affected = 0\<rparr>"
  by (simp add: calculate_defs ex_defs ex_create_def ex_created_def sort_by_hex sort_key_simps)

definition ex_changes :: change_set where
  "ex_changes = calculate_change_set ex_state ex_created"

lemma ex_created_wf [simp]: "wf_blocked_state ex_created"
  by (simp add: wf_blocked_state_def ex_created_def ex_defs)

lemma ex_after [simp]: "ch_after (calculate_change_set s t) = t"
  by (simp add: calculate_change_set_fields)

definition ex_rule7 :: blocked_rule where
  "ex_rule7 = ex_rule 7 (fst (managed_resource_names ''GWA'' 7)) (snd (managed_resource_names ''GWA'' 7)) []"

definition ex_list7 :: address_list where
  "ex_list7 = ex_list 7 (snd (managed_resource_names ''GWA'' 7)) [''z.com'']"

lemma ex_changes_eq:
  "calculate_change_set ex_state ex_created = \<lparr>ch_before = ex_state, ch_after = ex_created,
     ch_rules_create = [ex_rule7], ch_rules_update = [], ch_rules_remove = [],
     ch_lists_create = [ex_list7], ch_lists_update = [], ch_lists_remove = []\<rparr>"
  by (simp add: calculate_change_set_def partition_by_def pick_def List.map_filter_simps dict_of_def
      ex_created_def ex_defs ex_rule7_def ex_list7_def sort_key_simps)

definition ex_clock :: "nat \<Rightarrow> py_datetime" where
  "ex_clock n = Aware (int n)"

definition ex_record7 :: ownership_record where
  "ex_record7 = ex_record 7 (br_name ex_rule7) (al_name ex_list7)"

definition ex_committed :: store where
  "ex_committed = \<lparr>st_registry = Some (ex_registry\<lparr>rg_resources := rg_resources ex_registry @ [ex_record7]\<rparr>),
     st_faults = [], st_ticks = 1\<rparr>"

lemmas commit_defs = commit_verified_def created_resources_def created_pair_def created_auxiliary_def
  fully_removed_ids_def settle_commit_def commit_pair_def commit_auxiliary_def clock_now_def
  load_registry_def save_registry_def next_fault_def make_registry_def registry_ids_def
  check_ownership_record_def check_list_record_def

lemma ex_commit:
  "commit_verified ex_clock (calculate_change_set ex_state ex_created) (ex_verification ex_created) (ex_store ex_registry) =
     (Inr \<lparr>ou_added = [7], ou_removed = []\<rparr>, ex_committed)"
  unfolding ex_changes_eq
  by (simp add: commit_defs ex_verification_def ex_store_def ex_committed_def ex_record7_def ex_rule7_def
      ex_list7_def ex_clock_def ex_defs dict_of_def act_defs sort_by_hex sort_key_simps managed_resource_names_def)

text \<open>
  C30. After a commit of a verified change every rule the change created is owned: its
  record names the rule, its list and its unit, so the next plan may edit the pair. The
  records of rules that were not removed stay, the content-compliance records are untouched
  and the identifiers of the registry stay distinct.
\<close>

theorem commit_establishes_ownership:
  assumes "wf_blocked_state a" and "wf_blocked_state b"
    and "commit_verified clock (calculate_change_set a b) v s = (Inr u, s')" and "vr_status v = Matched"
    and "st_registry s = Some g" and "wf_registry g"
  shows "\<exists>g'. st_registry s' = Some g' \<and> wf_registry g' \<and> rg_compliance g' = rg_compliance g \<and>
    (\<forall>r \<in> set (bs_rules b). br_id r \<notin> br_id ` set (bs_rules a) \<longrightarrow>
       py_startswith (br_name r) (prefix @ '' '') \<longrightarrow> owned_rule g' prefix r \<and>
       (\<exists>l \<in> set (bs_lists b). al_id l = br_id r \<and> br_lists r = [al_name l] \<and>
          (py_startswith (al_name l) (prefix @ '' '') \<longrightarrow> owned_list g' prefix l))) \<and>
    (\<forall>x \<in> set (rg_resources g). or_id x \<in> br_id ` set (bs_rules b) \<longrightarrow> x \<in> set (rg_resources g'))"
proof -
  let ?c = "calculate_change_set a b"
  have ids: "distinct (map br_id (bs_rules a))" "distinct (map br_id (bs_rules b))"
    "distinct (map al_id (bs_lists a))" "distinct (map al_id (bs_lists b))"
    using assms(1,2) by (simp_all add: wf_blocked_state_def)
  have created: "r \<in> set (ch_rules_create ?c) \<longleftrightarrow> r \<in> set (bs_rules b) \<and> br_id r \<notin> br_id ` set (bs_rules a)" for r
    unfolding calculate_change_set_fields rule_diff.created [OF ids(1,2)] by blast
  have listed: "l \<in> set (ch_lists_create ?c) \<Longrightarrow> l \<in> set (bs_lists b)" for l
    unfolding calculate_change_set_fields list_diff.created [OF ids(3,4)] by blast
  have removed: "br_id ` set (ch_rules_remove ?c) \<inter> br_id ` set (bs_rules b) = {}"
    unfolding calculate_change_set_fields rule_diff.removed [OF ids(1,2)] by blast
  from commit_keeps_or_owns [OF assms(1,2) refl assms(3-6)] obtain g' where
    g': "st_registry s' = Some g'" "wf_registry g'" "rg_compliance g' = rg_compliance g"
    and keep: "\<And>x. x \<in> set (rg_resources g) \<Longrightarrow> or_id x \<notin> br_id ` set (ch_rules_remove ?c) \<Longrightarrow> x \<in> set (rg_resources g')"
    and own: "\<And>r. r \<in> set (ch_rules_create ?c) \<Longrightarrow> \<exists>l \<in> set (ch_lists_create ?c). \<exists>x \<in> set (rg_resources g').
       al_id l = br_id r \<and> br_lists r = [al_name l] \<and> or_id x = br_id r \<and> or_rule_name x = br_name r \<and>
       or_list_name x = al_name l \<and> or_ou x = br_ou r" by blast
  have "owned_rule g' prefix r \<and> (\<exists>l \<in> set (bs_lists b). al_id l = br_id r \<and> br_lists r = [al_name l] \<and>
      (py_startswith (al_name l) (prefix @ '' '') \<longrightarrow> owned_list g' prefix l))"
    if "r \<in> set (bs_rules b)" "br_id r \<notin> br_id ` set (bs_rules a)" "py_startswith (br_name r) (prefix @ '' '')" for r
  proof -
    from own created that obtain l x where "l \<in> set (ch_lists_create ?c)" "x \<in> set (rg_resources g')"
      "al_id l = br_id r" "br_lists r = [al_name l]" "or_id x = br_id r" "or_rule_name x = br_name r"
      "or_list_name x = al_name l" "or_ou x = br_ou r" by blast
    then show ?thesis using that(3) listed unfolding owned_rule_def owned_list_def by metis
  qed
  then show ?thesis using g' keep removed by blast
qed

theorem commit_establishes_ownership_witness:
  "owned_rule (the (st_registry ex_committed)) ''GWA'' ex_rule7"
proof -
  have wf: "wf_registry ex_registry" by (simp add: wf_registry_def registry_ids_def ex_defs)
  have r: "ex_rule7 \<in> set (bs_rules ex_created)" "br_id ex_rule7 \<notin> br_id ` set (bs_rules ex_state)"
    "py_startswith (br_name ex_rule7) (''GWA'' @ '' '')"
    by (simp_all add: ex_rule7_def ex_created_def ex_defs managed_resource_names_def)
  show ?thesis
    using commit_establishes_ownership [OF ex_state_wf ex_created_wf ex_commit _ _ wf, of "''GWA''"] r
    by (simp add: ex_verification_def ex_store_def ex_committed_def)
qed

definition ex_bypass :: task_plan where
  "ex_bypass = ex_plan [Update_Blocked_Sender_Rule 1 [ex_entry ''b.com''] [ex_entry ''y.com''] None True]"

definition ex_bypass_name :: string where
  "ex_bypass_name = snd (managed_resource_names ''GWA'' 8) @ '' bypass''"

definition ex_bypassed :: blocked_state where
  "ex_bypassed = ex_state\<lparr>
     bs_rules := [ex_rule 1 ''GWA Rule 1'' ''GWA List 1'' [ex_bypass_name], ex_rule 2 ''GWA Rule 2'' ''GWA List 2'' []],
     bs_lists := bs_lists ex_state @ [ex_list 8 ex_bypass_name [''y.com'']]\<rparr>"

lemma ex_bypass_run:
  "calculate_desired_state ex_state ex_bypass ex_registry [8] ''GWA'' =
     Inr \<lparr>dr_state = ex_bypassed, dr_notice_affected = 0\<rparr>"
  by (simp add: Let_def calculate_defs ex_defs ex_bypass_def ex_bypassed_def ex_bypass_name_def sort_by_hex sort_key_simps)

lemma ex_bypass_changes:
  "calculate_change_set ex_state ex_bypassed = \<lparr>ch_before = ex_state, ch_after = ex_bypassed,
     ch_rules_create = [], ch_rules_update = [ex_rule 1 ''GWA Rule 1'' ''GWA List 1'' [ex_bypass_name]], ch_rules_remove = [],
     ch_lists_create = [ex_list 8 ex_bypass_name [''y.com'']], ch_lists_update = [], ch_lists_remove = []\<rparr>"
  by (simp add: calculate_change_set_def partition_by_def pick_def List.map_filter_simps dict_of_def
      ex_bypassed_def ex_defs sort_key_simps)

text \<open>
  A plan that gives an existing rule bypass entries is calculated, and once the console
  shows exactly its expected state the commit refuses it: only the bypass lists of rules the
  same change creates are accepted. The list it created is then owned by no record, and no
  later plan may change it.
\<close>

theorem new_bypass_list_is_never_owned:
  "calculate_desired_state ex_state ex_bypass ex_registry [8] ''GWA'' =
     Inr \<lparr>dr_state = ex_bypassed, dr_notice_affected = 0\<rparr> \<and>
   commit_verified ex_clock (calculate_change_set ex_state ex_bypassed) (ex_verification ex_bypassed)
     (ex_store ex_registry) = (Inl OwnershipNotEstablished, ex_store ex_registry) \<and>
   (\<exists>l \<in> set (bs_lists ex_bypassed). al_id l = 8 \<and> \<not> owned_list ex_registry ''GWA'' l)"
proof (intro conjI)
  show "commit_verified ex_clock (calculate_change_set ex_state ex_bypassed) (ex_verification ex_bypassed)
     (ex_store ex_registry) = (Inl OwnershipNotEstablished, ex_store ex_registry)"
    unfolding ex_bypass_changes
    by (simp add: commit_defs ex_verification_def ex_store_def ex_defs dict_of_def act_defs)
  show "\<exists>l \<in> set (bs_lists ex_bypassed). al_id l = 8 \<and> \<not> owned_list ex_registry ''GWA'' l"
    by (simp add: ex_bypassed_def owned_list_def ex_defs)
qed (rule ex_bypass_run)

section \<open>Recovery\<close>

text \<open>An intact audit of the run that created rule 7, its stream one event long.\<close>

definition ex_sha :: "string \<Rightarrow> string" where
  "ex_sha t = take 64 (filter is_digit_char t @ replicate 64 (CHR ''0''))"

lemma sha256_ex_sha [simp]: "sha256_digest (ex_sha t)"
proof -
  have "is_digit_char c \<Longrightarrow> is_hex_char c" for c by (simp add: is_digit_char_def is_hex_char_def Let_def)
  moreover have "is_hex_char (CHR ''0'')" by (simp add: is_hex_char_def)
  ultimately show ?thesis by (auto simp: sha256_digest_def ex_sha_def list_all_iff dest!: in_set_takeD)
qed

definition ex_final :: audit_event where
  "ex_final = finalized ex_sha ex_iso (ex_event 1 ''run_finalized'') (ex_writer [])"

lemma ex_final_line: "line_safe ex_iso ex_final"
proof -
  have "ev_hash ex_final = Some (ex_sha (canonical_event_json ex_iso (ex_event 1 ''run_finalized'')))"
    by (simp add: ex_final_def finalized_def ex_writer_def)
  moreover have "CHR 0x85 \<notin> set (ex_sha t)" for t
    by (auto simp: ex_sha_def is_digit_char_def dest!: in_set_takeD)
  ultimately show ?thesis
    by (intro line_safe_plain) (simp add: event_members_def ex_final_def finalized_def ex_event_def ex_writer_def
      show_int_def show_nat_plain)
qed

definition ex_reader :: "string \<Rightarrow> audit_event option" where
  "ex_reader = reader_of ex_iso [ex_final]"

lemma ex_final_verified: "verify_event_chain ex_sha ex_iso ex_reader (Some (stream_of ex_iso [ex_final])) = []"
proof -
  have "linked ex_sha ex_iso (ev_run_id ex_final) 1 None [ex_final]"
    unfolding ex_final_def by (simp add: ex_writer_def)
  moreover have "map ex_reader (split_lines (stream_of ex_iso [ex_final])) = map Some [ex_final]"
    using split_stream_of [of ex_iso "[ex_final]"] ex_final_line reader_of_line [OF ex_iso_inj, of ex_final "[ex_final]"]
    by (simp add: ex_reader_def)
  ultimately show ?thesis unfolding verify_event_chain_ok by blast
qed

definition ex_audit :: audit_run where
  "ex_audit = \<lparr>ar_manifest = Some \<lparr>mn_start = Aware 0, mn_end = Aware 9, mn_status = Applied_Pending_Propagation,
       mn_artifacts = [\<lparr>ad_path = ''run.jsonl'', ad_sha = ex_sha (stream_of ex_iso [ex_final]),
         ad_size = length (stream_of ex_iso [ex_final])\<rparr>]\<rparr>,
     ar_files = [(''run.jsonl'', stream_of ex_iso [ex_final]), (''manifest.json'', [])],
     ar_stream = Some (stream_of ex_iso [ex_final]), ar_after = Some ex_created,
     ar_report = Some \<lparr>rr_status = Applied_Pending_Propagation, rr_requested = [], rr_verified = [],
       rr_warnings = [], rr_error = None, rr_pending = True\<rparr>,
     ar_change = Some (calculate_change_set ex_state ex_created)\<rparr>"

lemma ex_manifest_ok: "validated_manifest ex_sha ex_iso ex_reader ex_audit = Inr (the (ar_manifest ex_audit))"
proof -
  have "py_split (CHR 0x2F) ''run.jsonl'' = [''run.jsonl'']" "py_split (CHR 0x2F) ''manifest.json'' = [''manifest.json'']"
    by code_simp+
  then show ?thesis
    by (simp add: validated_manifest_def verify_manifest_def digest_artifacts_def is_manifest_file_def
      make_artifact_digest_def safe_relative_path_def path_parts_def dict_of_def ex_audit_def ex_final_verified)
qed

definition ex_recovered :: ownership_record where
  "ex_recovered = ex_record7\<lparr>or_created := Aware 9\<rparr>"

text \<open>A registry that also has a record of its own for a list.\<close>

definition ex_rich_registry :: registry where
  "ex_rich_registry = ex_registry\<lparr>rg_lists := [\<lparr>lr_id = 9, lr_name = ''GWA Shared'', lr_ou = ''/'',
     lr_purpose = For_Bypass, lr_created = Aware 0, lr_snapshot = None\<rparr>]\<rparr>"

definition ex_recovered_store :: store where
  "ex_recovered_store = ex_store (ex_registry\<lparr>rg_resources := rg_resources ex_registry @ [ex_recovered]\<rparr>)"

lemma ex_recover:
  "recover ex_sha ex_iso ex_reader 7 ex_created ex_audit (recovery_phrase 7) (ex_store ex_rich_registry) =
     (Inr ex_recovered, ex_recovered_store)"
proof -
  have "audited_after_state ex_audit = Inr ex_created" by (simp add: audited_after_state_def ex_audit_def)
  moreover have "exact_pair ex_created 7 = Inr (ex_rule7, ex_list7)"
    by (simp add: exact_pair_def ex_created_def ex_rule7_def ex_list7_def ex_defs)
  moreover from this have "verified_creation_pair ex_audit (the (ar_manifest ex_audit)) ex_created 7 = Inr (ex_rule7, ex_list7)"
    by (simp add: verified_creation_pair_def ex_audit_def ex_changes_eq)
      (simp add: ex_rule7_def ex_list7_def ex_defs)
  moreover have "py_strip (recovery_phrase 7) = recovery_phrase 7" by code_simp
  ultimately show ?thesis
    by (simp add: recover_def ex_manifest_ok bind_def andthen_def)
      (simp add: ex_audit_def load_registry_def next_fault_def ex_store_def andthen_def bind_def find_record_def
        ex_rich_registry_def ex_registry_def ex_record_def check_ownership_record_def make_registry_def registry_ids_def
        save_registry_def sort_by_hex sort_key_simps ex_recovered_store_def ex_recovered_def ex_record7_def
        ex_rule7_def ex_list7_def ex_rule_def ex_list_def managed_resource_names_def)
qed

definition intact :: "(string \<Rightarrow> string) \<Rightarrow> (py_datetime \<Rightarrow> string) \<Rightarrow> (string \<Rightarrow> audit_event option) \<Rightarrow> audit_run \<Rightarrow> bool" where
  "intact H isofmt read a \<longleftrightarrow> (\<exists>m. ar_manifest a = Some m \<and> verify_manifest H (ar_files a) m = Inr [] \<and>
     verify_event_chain H isofmt read (ar_stream a) = [] \<and>
     mn_status m \<in> {Applied_UI_Verified, Applied_Pending_Propagation})"

lemma exact_pair_Inr:
  "exact_pair s i = Inr (r, l) \<Longrightarrow> r \<in> set (bs_rules s) \<and> l \<in> set (bs_lists s) \<and> br_id r = i \<and> al_id l = i \<and>
     br_lists r = [al_name l]"
  by (auto simp: exact_pair_def filter_eq_Cons_iff split: list.splits if_splits)

lemma recover_Inr:
  assumes "recover H isofmt read i s a confirmation st = (Inr x, st')"
  obtains r l c g g' where "py_strip confirmation = recovery_phrase i" "intact H isofmt read a"
    "ar_change a = Some c" "r \<in> set (ch_rules_create c)" "l \<in> set (ch_lists_create c)"
    "exact_pair s i = Inr (r, l)" "g = (case st_registry st of None \<Rightarrow> empty_registry | Some g \<Rightarrow> g)"
    "find_record g i = None" "or_id x = i" "or_rule_name x = br_name r" "or_list_name x = al_name l" "or_ou x = ''/''"
    "make_registry (sort_key or_id (rg_resources g @ [x])) [] [] = Inr g'" "st_registry st' = Some g'"
proof -
  from assms have phrase: "py_strip confirmation = recovery_phrase i" by (auto simp: recover_def split: if_splits)
  from assms obtain m audited p q where m: "validated_manifest H isofmt read a = Inr m"
    and audited: "audited_after_state a = Inr audited" and p: "verified_creation_pair a m audited i = Inr p"
    and q: "exact_pair s i = Inr q" and same: "p = q"
    by (auto simp: recover_def bind_Inr_iff split: if_splits)
  from assms phrase m audited p q same obtain g st1 y g' st2 where
    load: "load_registry st = (Inr g, st1)" "find_record g i = None"
    and y: "check_ownership_record \<lparr>or_id = i, or_rule_name = br_name (fst q),
              or_list_name = al_name (snd q), or_ou = ''/'', or_created = mn_end m,
              or_rule_snapshot = None, or_list_snapshot = None\<rparr> = Inr y"
    and g': "make_registry (sort_key (\<lambda>r. uuid_hex (or_id r)) (rg_resources g @ [y])) [] [] = Inr g'"
    and save: "save_registry g' st1 = (Inr (), st2)" "st' = st2" "x = y"
    by (auto simp: recover_def bind_Inr_iff andthen_Inr_iff split: if_splits)
  obtain r l where rl: "q = (r, l)" by fastforce
  have "intact H isofmt read a"
    using m p by (auto simp: intact_def validated_manifest_def and_then_Inr_iff verified_creation_pair_def split: option.splits if_splits)
  moreover obtain c where "ar_change a = Some c" "r \<in> set (ch_rules_create c)" "l \<in> set (ch_lists_create c)"
    using p same rl by (auto simp: verified_creation_pair_def and_then_Inr_iff filter_eq_Cons_iff split: option.splits list.splits if_splits)
  moreover have "st_registry st' = Some g'" using save save_registry_Inr by blast
  ultimately show thesis
    using phrase q rl load_registry_Inr [OF load(1)] load(2) y g' save(3)
    by (intro that) (auto simp: check_ownership_record_def sort_by_hex split: if_splits)
qed

text \<open>
  C23. A recovered record rests on intact evidence: the exact phrase was given, the manifest
  agrees with the files, the event stream verifies, the run ended applied, and the pair it
  created is the pair the console shows now. Only the record of that pair is added.
\<close>

theorem recovery_rests_on_evidence:
  assumes "recover H isofmt read i s a confirmation st = (Inr x, st')"
  shows "py_strip confirmation = recovery_phrase i \<and> intact H isofmt read a \<and>
    (\<exists>c r l. ar_change a = Some c \<and> r \<in> set (ch_rules_create c) \<and> l \<in> set (ch_lists_create c) \<and>
       r \<in> set (bs_rules s) \<and> l \<in> set (bs_lists s) \<and> br_lists r = [al_name l] \<and> br_id r = i \<and> al_id l = i \<and>
       or_id x = i \<and> or_rule_name x = br_name r \<and> or_list_name x = al_name l)"
  using assms by (rule recover_Inr) (auto dest: exact_pair_Inr)

theorem recovery_rests_on_evidence_witness:
  "intact ex_sha ex_iso ex_reader ex_audit \<and> or_rule_name ex_recovered = br_name ex_rule7"
  using recovery_rests_on_evidence [OF ex_recover]
  by (auto simp: ex_recovered_def ex_record7_def ex_record_def)

text \<open>
  A recovery throws away the rest of the evidence: the registry it writes has no record of
  an independent address list and none of a content-compliance rule, whatever it had before.
\<close>

theorem recovery_drops_other_records:
  assumes "recover H isofmt read i s a confirmation st = (Inr x, st')"
  shows "\<exists>g'. st_registry st' = Some g' \<and> rg_lists g' = [] \<and> rg_compliance g' = []"
  using assms by (rule recover_Inr) (auto simp: make_registry_Inr_iff)

theorem recovery_drops_other_records_witness:
  "rg_lists ex_rich_registry \<noteq> [] \<and> rg_lists (the (st_registry ex_recovered_store)) = []"
  using recovery_drops_other_records [OF ex_recover] by (auto simp: ex_rich_registry_def)

section \<open>Health\<close>

text \<open>The report calls a pair healthy exactly when record, rule and list agree.\<close>

lemma record_health_healthy:
  assumes "wf_blocked_state s"
  shows "oh_status (record_health (dict_of br_id (bs_rules s)) (dict_of al_id (bs_lists s)) x) = Healthy \<longleftrightarrow>
    (\<exists>r \<in> set (bs_rules s). \<exists>l \<in> set (bs_lists s). br_id r = or_id x \<and> al_id l = or_id x \<and>
       br_name r = or_rule_name x \<and> al_name l = or_list_name x \<and> br_lists r = [al_name l])"
proof -
  have ids: "distinct (map br_id (bs_rules s))" "distinct (map al_id (bs_lists s))"
    using assms by (simp_all add: wf_blocked_state_def)
  have "oh_status (record_health (dict_of br_id (bs_rules s)) (dict_of al_id (bs_lists s)) x) = Healthy \<longleftrightarrow>
      (\<exists>r l. dict_get (dict_of br_id (bs_rules s)) (or_id x) = Some r \<and>
        dict_get (dict_of al_id (bs_lists s)) (or_id x) = Some l \<and>
        br_name r = or_rule_name x \<and> al_name l = or_list_name x \<and> br_lists r = [al_name l])"
    by (simp add: record_health_def split: option.splits)
  then show ?thesis unfolding dict_of_get_iff [OF ids(1)] dict_of_get_iff [OF ids(2)] by blast
qed

text \<open>
  An independent list whose record and visible name agree may be changed, and the report still
  says that its local evidence is missing: it looks at the paired records only.
\<close>

lemma owned_bypass_list_reported_missing:
  defines "s \<equiv> ex_state\<lparr>bs_lists := bs_lists ex_state @ [ex_list 9 ''GWA Shared'' [''d.com'']]\<rparr>"
  shows "owned_list ex_rich_registry ''GWA'' (ex_list 9 ''GWA Shared'' [''d.com''])"
    "\<lparr>oh_id = Some 9, oh_name = ''GWA Shared'', oh_status = Registry_Missing\<rparr> \<in>
      set (assess_ownership_health s ex_rich_registry ''GWA'')"
  by (simp_all add: s_def owned_list_def ex_rich_registry_def assess_ownership_health_def visible_health_def
      ex_defs dict_of_def sort_key_simps)

end
