(* ===== verification/Workflow_Liveness.thy ===== *)
theory Workflow_Liveness
  imports Workflow_Simulation Ownership_Claims
begin

text \<open>
  When the file system works, records succeed and an approved change goes through: the
  conditions under which each record of the auditor returns, and the run that leads from the
  request to the verified result.
\<close>

section \<open>Records that succeed\<close>

definition artifact_name :: "string \<Rightarrow> bool" where
  "artifact_name p \<longleftrightarrow> safe_target p = Inr [p] \<and> safe_relative_path p \<and> p \<noteq> ''run.jsonl''"

text \<open>An environment whose digests, clock and metadata satisfy the models' validators.\<close>

definition sound_env :: "audit_env \<Rightarrow> bool" where
  "sound_env env \<longleftrightarrow> (\<forall>t. sha256_digest (en_hash env t)) \<and> (\<forall>t. sha256_digest (en_sha env t)) \<and>
     (\<forall>n. is_aware (en_clock env n) \<and> instant (mm_start (en_metadata env)) \<le> instant (en_clock env n)) \<and>
     is_aware (mm_start (en_metadata env)) \<and> bounded_text (en_run_id env)"

text \<open>An auditor whose file system works from here on.\<close>

definition healthy :: "audit_env \<Rightarrow> auditor \<Rightarrow> bool" where
  "healthy env a \<longleftrightarrow> (let w = au_writer a in aw_disk w = [] \<and> 0 \<le> aw_last_sequence w \<and>
     (aw_run_id w = None \<or> aw_run_id w = Some (en_run_id env)) \<and>
     distinct (dict_keys (aw_artifacts w)) \<and> list_all artifact_name (dict_keys (aw_artifacts w)))"

definition bounded_facts :: "event_facts \<Rightarrow> bool" where
  "bounded_facts f \<longleftrightarrow> bounded_text (ef_type f) \<and> bounded_text (ef_component f) \<and> bounded_text (ef_outcome f) \<and>
     digest_or_none (ef_plan_hash f) \<and> digest_or_none (ef_before_hash f) \<and> digest_or_none (ef_change_hash f)"

text \<open>What is kept of an auditor by a record that succeeds.\<close>

definition recorded :: "audit_env \<Rightarrow> auditor \<Rightarrow> 'a res \<Rightarrow> auditor \<Rightarrow> bool" where
  "recorded env a r b \<longleftrightarrow> (\<exists>x. r = Inr x) \<and> healthy env b \<and> au_started b = au_started a \<and>
     au_warnings b = au_warnings a"

lemma recorded_refl: "healthy env a \<Longrightarrow> recorded env a (Inr x) a"
  by (simp add: recorded_def)

lemma recorded_andthen:
  assumes "wp m (recorded env a) a" and "\<And>b. healthy env b \<Longrightarrow> wp n (recorded env b) b"
  shows "wp (andthen m n) (recorded env a) a"
proof -
  obtain x b where b: "m a = (Inr x, b)" "recorded env a (Inr x) b"
    using assms(1) by (cases "m a") (auto simp: wp_def recorded_def)
  then have "wp n (recorded env b) b" by (intro assms(2)) (simp add: recorded_def)
  then show ?thesis using b by (simp add: wp_def andthen_def bind_def recorded_def)
qed

lemma wp_Pair [wp_simps]: "wp (Pair r) Q s \<longleftrightarrow> Q r s"
  by (simp add: wp_def)

lemma put_artifact_ok:
  assumes "healthy env a" and "artifact_name p"
  shows "wp (put_artifact (p, c)) (recorded env a) a"
proof -
  have t: "safe_target p = Inr [p]" using assms(2) by (simp add: artifact_name_def)
  have "write_text p c (au_writer a) = (Inr p, (au_writer a)\<lparr>aw_artifacts := dict_put p c (aw_artifacts (au_writer a))\<rparr>)"
    using assms(1) by (simp add: write_text_def t act_defs next_disk_def healthy_def Let_def)
  moreover have "list_all artifact_name (dict_keys (dict_put p c d)) \<longleftrightarrow> list_all artifact_name (p # dict_keys d)"
    for d :: "(string, string) dict"
    by (simp only: list_all_iff list.set_map AList.dom_update) auto
  ultimately show ?thesis
    using assms by (auto simp: put_artifact_def wp_simps wp_def [of "on_writer m" for m] on_writer_def recorded_def
        healthy_def Let_def AList.distinct_update)
qed

lemma each_put_ok:
  "healthy env a \<Longrightarrow> list_all (\<lambda>pc. artifact_name (fst pc)) arts \<Longrightarrow> wp (each put_artifact arts) (recorded env a) a"
proof (induction arts arbitrary: a)
  case Nil
  then show ?case by (simp add: wp_simps recorded_refl)
next
  case (Cons pc arts)
  then show ?case
    by (cases pc) (auto intro!: recorded_andthen put_artifact_ok)
qed

lemma append_ok:
  assumes "healthy env a" "sound_env env" "make_event e = Inr e" "ev_run_id e = en_run_id env"
    "ev_sequence e = next_sequence (au_writer a)" "ev_previous e = None"
  shows "wp (on_writer (append_event (en_hash env) (en_iso env) e)) (recorded env a) a"
proof -
  have "acceptable e (au_writer a)"
    using assms by (auto simp: acceptable_def healthy_def Let_def next_sequence_def)
  then show ?thesis using assms
    by (auto simp: wp_def on_writer_def append_event_unfold bind_def andthen_def next_disk_def recorded_def
        healthy_def Let_def next_sequence_def)
qed

lemma event_of_ok:
  "bounded_facts f \<Longrightarrow> sound_env env \<Longrightarrow> healthy env a \<Longrightarrow>
     make_event (event_of env f (next_sequence (au_writer a)) (en_clock env n)) =
       Inr (event_of env f (next_sequence (au_writer a)) (en_clock env n))"
  by (simp add: make_event_def event_of_def bounded_facts_def sound_env_def healthy_def Let_def
      next_sequence_def digest_or_none_def)

lemma append_facts_ok:
  assumes "healthy env a" "sound_env env" "bounded_facts f"
  shows "wp (append_facts env f) (recorded env a) a"
proof -
  let ?b = "a\<lparr>au_ticks := Suc (au_ticks a)\<rparr>"
  let ?e = "event_of env f (next_sequence (au_writer a)) (en_clock env (au_ticks a))"
  have b: "healthy env ?b" using assms(1) by (simp add: healthy_def)
  have "wp (on_writer (append_event (en_hash env) (en_iso env) ?e)) (recorded env ?b) ?b"
    by (rule append_ok [OF b assms(2) event_of_ok]) (use assms in \<open>simp_all add: event_of_def\<close>)
  then show ?thesis
    by (simp add: append_facts_def wp_simps audit_now_def wp_def [of "audit_now env"]
        event_of_ok [OF assms(3,2,1)]) (simp add: wp_def recorded_def)
qed

lemma audit_record_ok:
  assumes "healthy env a" "sound_env env" "bounded_facts f" "list_all (\<lambda>pc. artifact_name (fst pc)) arts"
  shows "wp (audit_record env f arts) (recorded env a) a"
proof -
  have "wp (record_attempt env f arts) (recorded env a) a"
    unfolding record_attempt_def
    by (intro recorded_andthen each_put_ok append_facts_ok assms) (simp_all add: wp_simps recorded_refl assms(2,3))
  then show ?thesis unfolding audit_record_def wp_catch
    by (rule wp_mono) (auto simp: recorded_def)
qed

section \<open>The records of a run\<close>

lemmas name_simps = artifact_name_def safe_target_def safe_relative_path_def path_parts_def numbered_def

lemma show_small [simp]: "show_nat (Suc 0) = ''1''" "show_nat 2 = ''2''"
  by code_simp+

lemma artifact_names [simp]:
  "artifact_name ''request.txt''" "artifact_name ''plan.json''" "artifact_name ''plan.schema.json''"
  "artifact_name ''preflight.json''" "artifact_name ''before.json''" "artifact_name ''prewrite.json''"
  "artifact_name ''after.json''" "artifact_name ''desired.json''" "artifact_name ''desired-result.json''"
  "artifact_name ''expected_after.json''" "artifact_name ''change_set.json''"
  "artifact_name ''confirmation.json''" "artifact_name ''verification.json''"
  "artifact_name ''ownership-update.json''" "artifact_name ''report.json''" "artifact_name ''report.md''"
  "artifact_name ''manifest.json''"
  by (simp_all add: name_simps)

lemma numbered_names [simp]:
  "artifact_name (numbered ''mutation-command-'' (Suc 0))" "artifact_name (numbered ''mutation-result-'' (Suc 0))"
  "artifact_name (numbered ''mutation-command-'' 2)" "artifact_name (numbered ''mutation-result-'' 2)"
  "artifact_name (numbered ''reconciliation-'' (Suc 0))" "artifact_name (numbered ''reconciliation-after-'' (Suc 0))"
  "artifact_name (numbered ''reconciliation-'' 2)" "artifact_name (numbered ''reconciliation-after-'' 2)"
  by (simp_all add: name_simps)

definition digests :: "prepared_change \<Rightarrow> bool" where
  "digests p \<longleftrightarrow> sha256_digest (pc_plan_hash p) \<and> sha256_digest (pc_before_hash p) \<and> sha256_digest (pc_change_hash p)"

lemmas fact_simps = facts_def with_hashes_def hashes_of_def bounded_facts_def bounded_text_def digest_or_none_def
  digests_def

lemma records_ok_before:
  assumes "healthy env a" "sound_env env"
  shows "wp (record_request env t) (recorded env a) a"
    "wp (record_plan env plan) (recorded env a) a"
    "wp (record_preflight env pr) (recorded env a) a"
    "wp (record_state env stage s) (recorded env a) a"
    "digests p \<Longrightarrow> wp (record_prepared_change env p) (recorded env a) a"
  unfolding record_request_def record_plan_def record_preflight_def record_state_def record_prepared_change_def
      apply (rule audit_record_ok [OF assms]; simp add: fact_simps)
     apply (rule audit_record_ok [OF assms]; cases "tp_status plan"; simp add: fact_simps)
    apply (rule audit_record_ok [OF assms]; cases "pf_status pr"; simp add: fact_simps)
   apply (rule audit_record_ok [OF assms]; cases stage; simp add: fact_simps)
  apply (rule audit_record_ok [OF assms]; simp add: fact_simps)
  done

lemma records_ok_after:
  assumes "healthy env a" "sound_env env"
  shows "wp (record_ownership_update env u) (recorded env a) a"
    "digests p \<Longrightarrow> wp (record_verification env p v) (recorded env a) a"
    "digests p \<Longrightarrow> attempt = 1 \<or> attempt = 2 \<Longrightarrow> wp (record_mutation_result env p attempt m) (recorded env a) a"
    "digests p \<Longrightarrow> attempt = 1 \<or> attempt = 2 \<Longrightarrow> wp (record_reconciliation env p attempt d) (recorded env a) a"
  unfolding record_ownership_update_def record_verification_def record_mutation_result_def record_reconciliation_def
     apply (rule audit_record_ok [OF assms]; simp add: fact_simps)
    apply (rule audit_record_ok [OF assms]; cases "vr_status v"; simp add: fact_simps split: option.split)
   apply (rule audit_record_ok [OF assms]; cases "mr_status m"; elim disjE; simp add: fact_simps)
  apply (rule audit_record_ok [OF assms]; cases "rd_outcome d"; elim disjE; simp add: fact_simps split: option.split)
  done

lemma record_confirmation_ok:
  assumes "healthy env a" "sound_env env"
    and "sha256_digest (cf_plan_hash c)" "sha256_digest (cf_before_hash c)" "sha256_digest (cf_change_hash c)"
  shows "wp (record_confirmation env c) (recorded env a) a"
  unfolding record_confirmation_def
  by (rule audit_record_ok [OF assms(1,2)]) (use assms(3-) in \<open>simp_all add: fact_simps\<close>)

lemma record_mutation_started_ok:
  assumes "healthy env a" "sound_env env" "digests p" "attempt = 1 \<or> attempt = 2"
  shows "wp (record_mutation_started env p attempt)
    (\<lambda>r b. r = Inr () \<and> healthy env b \<and> au_started b \<and> au_warnings b = au_warnings a) a"
proof -
  have "wp (audit_record env (hashes_of p ((facts ''mutation_attempted'' ''mutation_service'' (''attempt_'' @ show_nat attempt))
        \<lparr>ef_ou := Some (bs_ou (ch_before (pc_change p)))\<rparr>))
      [(numbered ''mutation-command-'' attempt, json_text (dump_change_set (pc_change p)))]) (recorded env a) a"
    by (rule audit_record_ok [OF assms(1,2)]) (use assms(3,4) in \<open>auto simp: fact_simps\<close>)
  then show ?thesis unfolding record_mutation_started_def wp_andthen
    by (rule wp_mono) (auto simp: recorded_def healthy_def wp_simps)
qed

section \<open>Finalisation\<close>

text \<open>The digests of a directory's artifacts do not see its manifest.\<close>

lemma filter_manifest_update:
  "is_manifest_file p \<Longrightarrow> filter (\<lambda>x. \<not> is_manifest_file (fst x)) (dict_put p c d) = filter (\<lambda>x. \<not> is_manifest_file (fst x)) d"
  by (induction d) auto

lemma digest_artifacts_manifest:
  assumes "is_manifest_file p"
  shows "digest_artifacts H (writer_files (w\<lparr>aw_artifacts := dict_put p c (aw_artifacts w)\<rparr>)) = digest_artifacts H (writer_files w)"
proof -
  have "filter (\<lambda>(p, content). \<not> is_manifest_file p) (map (\<lambda>(p, content). (p, utf8_bytes content)) xs) =
      map (\<lambda>(p, content). (p, utf8_bytes content)) (filter (\<lambda>x. \<not> is_manifest_file (fst x)) xs)" for xs
    by (induction xs) auto
  then show ?thesis
    using filter_manifest_update [OF assms, of c "aw_artifacts w"]
    by (simp add: digest_artifacts_def writer_files_def)
qed

text \<open>A manifest made of the current digests verifies.\<close>

lemma verify_own_digests:
  "digest_artifacts H files = Inr ds \<Longrightarrow> mn_artifacts m = ds \<Longrightarrow> verify_manifest H files m = Inr []"
  by (auto simp: verify_manifest_def Let_def filter_empty_conv map_of_eq_None_iff split: option.splits)


lemma artifact_digests_ok:
  assumes "healthy env a" "\<forall>t. sha256_digest (H t)"
  shows "\<exists>ds. digest_artifacts H (writer_files (au_writer a)) = Inr ds \<and> distinct (map ad_path ds)"
proof -
  let ?files = "sort_key (\<lambda>(p, content). py_split (CHR 0x2F) p)
      (filter (\<lambda>(p, content). \<not> is_manifest_file p) (writer_files (au_writer a)))"
  let ?keys = "dict_keys (writer_files (au_writer a))"
  have keys: "distinct ?keys" "list_all safe_relative_path ?keys"
    using assms(1)
    by (auto simp: healthy_def Let_def writer_files_def artifact_name_def list_all_iff safe_relative_path_def
        path_parts_def comp_def case_prod_unfold)
  have "map_res (\<lambda>(p, content). make_artifact_digest p (H content) (length content)) xs =
      Inr (map (\<lambda>(p, content). \<lparr>ad_path = p, ad_sha = H content, ad_size = length content\<rparr>) xs)"
    if "list_all safe_relative_path (dict_keys xs)" for xs
    using that by (induction xs) (auto simp: make_artifact_digest_def assms(2))
  moreover have "list_all safe_relative_path (dict_keys ?files)"
    using keys(2) by (auto simp: list_all_iff)
  moreover have "distinct (dict_keys ?files)"
  proof -
    have "distinct (dict_keys (filter P (writer_files (au_writer a))))" for P
      using keys(1) by (rule distinct_map_filter)
    moreover have "mset (dict_keys (sort_key k xs)) = mset (dict_keys xs)"
      for k :: "string \<times> string \<Rightarrow> string list" and xs by simp
    ultimately show ?thesis by (metis mset_eq_imp_distinct_iff)
  qed
  moreover have "map ad_path (map (\<lambda>(p, content). \<lparr>ad_path = p, ad_sha = H content, ad_size = length content\<rparr>) xs) = dict_keys xs" for xs
    by (induction xs) auto
  ultimately show ?thesis unfolding digest_artifacts_def by (intro exI conjI) (assumption | simp only:)+
qed

lemma render_facts:
  "bounded_facts ((facts ''run_finalized'' ''audit_finalization_service'' (run_status_value st))\<lparr>ef_error := err\<rparr>)"
  by (cases st) (simp_all add: fact_simps)

lemma recorded_ticks [simp]: "recorded env (b\<lparr>au_ticks := n\<rparr>) = recorded env b"
  by (simp add: recorded_def fun_eq_iff)

lemma wp_audit_now:
  "wp (bind (audit_now env) F) Q a = wp (F (en_clock env (au_ticks a))) Q (a\<lparr>au_ticks := Suc (au_ticks a)\<rparr>)"
  by (simp add: wp_def bind_def audit_now_def)

lemma finalize_ok:
  assumes "healthy env a" "sound_env env"
  shows "wp (finalize env r) (recorded env a) a"
proof -
  have tail: "wp (bind (get (\<lambda>a. writer_files (au_writer a))) (\<lambda>files.
       bind (lift (digest_artifacts (en_sha env) files)) (\<lambda>digests.
       bind (lift (make_manifest (manifest_of (en_metadata env) (en_clock env n) r digests))) (\<lambda>m.
       put_artifact (''manifest.json'',
         json_pretty 0 (dump_manifest (en_iso env) (en_metadata env) m) @ line_end))))) (recorded env b) b"
    if b: "healthy env b" for b n
  proof -
    obtain ds where "digest_artifacts (en_sha env) (writer_files (au_writer b)) = Inr ds" "distinct (map ad_path ds)"
      using artifact_digests_ok [OF b, of "en_sha env"] assms(2) by (auto simp: sound_env_def)
    moreover from this(2) have "make_manifest (manifest_of (en_metadata env) (en_clock env n) r ds) =
        Inr (manifest_of (en_metadata env) (en_clock env n) r ds)"
      using assms(2) by (auto simp: make_manifest_def manifest_of_def sound_env_def linorder_not_less)
    ultimately show ?thesis by (simp add: wp_simps put_artifact_ok [OF b])
  qed
  let ?f = "(facts ''run_finalized'' ''audit_finalization_service'' (run_status_value (rr_status r)))\<lparr>ef_error := rr_error r\<rparr>"
  have mid: "wp (bind (audit_now env) (\<lambda>end_time.
      bind (get (\<lambda>a. next_sequence (au_writer a))) (\<lambda>n.
      bind (lift (make_event (event_of env ?f n end_time))) (\<lambda>e.
      andthen (on_writer (append_event (en_hash env) (en_iso env) e)) (T end_time))))) (recorded env b) b"
    if b: "healthy env b" and T: "\<And>n c. healthy env c \<Longrightarrow> wp (T (en_clock env n)) (recorded env c) c" for b T
  proof -
    let ?b = "b\<lparr>au_ticks := Suc (au_ticks b)\<rparr>"
    let ?e = "event_of env ?f (next_sequence (au_writer b)) (en_clock env (au_ticks b))"
    have h: "healthy env ?b" using b by (simp add: healthy_def)
    have "wp (andthen (on_writer (append_event (en_hash env) (en_iso env) ?e)) (T (en_clock env (au_ticks b))))
        (recorded env ?b) ?b"
      by (intro recorded_andthen append_ok [OF h assms(2) event_of_ok [OF render_facts assms(2) b]] T)
        (simp_all add: event_of_def)
    then show ?thesis unfolding wp_audit_now
      by (simp add: wp_bind wp_get wp_lift event_of_ok [OF render_facts assms(2) b])
  qed
  show ?thesis unfolding finalize_def
    by (intro recorded_andthen put_artifact_ok mid tail assms) simp_all
qed

section \<open>The run of an approved change\<close>

text \<open>The environment is sound, the file system works and nothing has gone wrong so far.\<close>

definition works :: "workflow_env \<Rightarrow> world \<Rightarrow> bool" where
  "works env w \<longleftrightarrow> sound_env (we_audit env) \<and> healthy (we_audit env) (wd_auditor w) \<and> au_warnings (wd_auditor w) = []"

lemma works_world [simp]:
  "works env (w\<lparr>wd_store := s\<rparr>) = works env w" "works env (w\<lparr>wd_ids := n\<rparr>) = works env w"
  "works env (w\<lparr>wd_calls := cs\<rparr>) = works env w"
  by (simp_all add: works_def)

lemma wp_works:
  assumes "works env w" and "\<And>a. healthy (we_audit env) a \<Longrightarrow> wp m (recorded (we_audit env) a) a"
    and "\<And>x a. works env (w\<lparr>wd_auditor := a\<rparr>) \<Longrightarrow> Q (Inr x) (w\<lparr>wd_auditor := a\<rparr>)"
  shows "wp (on_auditor m) Q w"
proof -
  obtain r a where a: "m (wd_auditor w) = (r, a)" by fastforce
  then have "recorded (we_audit env) (wd_auditor w) r a"
    using assms(2) [of "wd_auditor w"] assms(1) by (simp add: works_def wp_def)
  then show ?thesis using assms(1) assms(3) [of a] a
    by (auto simp: wp_def on_auditor_def works_def recorded_def)
qed

text \<open>The world went on with the calls \<open>cs\<close> and nothing else the run depends on changed.\<close>

definition follows :: "workflow_env \<Rightarrow> world \<Rightarrow> call list \<Rightarrow> world \<Rightarrow> bool" where
  "follows env w cs v \<longleftrightarrow> works env v \<and> wd_store v = wd_store w \<and> wd_calls v = wd_calls w @ cs"

lemma sends:
  assumes "wp act (\<lambda>r v. r = Inr (Send m') \<and> R v) w" and "run_node env an n m = Some act"
    and "deliver n m' = Deliver n' m'"
  shows "\<exists>v. step env (Deliver n m, w) (Deliver n' m', v) \<and> R v"
  using handled [of env n m w an] assms by (auto simp: wp_def run_deliver_def after_act_def)

lemma works_sound: "works env w \<Longrightarrow> sound_env (we_audit env)"
  by (simp add: works_def)

lemma digest_hash: "works env w \<Longrightarrow> sha256_digest (canonical_hash (text_hash env) j)"
  by (simp add: works_def sound_env_def canonical_hash_def)

lemma planner_runs:
  assumes "works env w" "make_request_text t = Inr t" "an_plan an = Inr plan"
  shows "wp (planner_handle env an t) (\<lambda>r v. r = Inr (Send (Planned_Task t plan)) \<and>
    follows env w [Plan_Call t (Inr plan)] v \<and> wd_ids v = wd_ids w) w"
  using assms records_ok_before [OF _ works_sound [OF assms(1)]]
  by (auto simp: planner_handle_def wp_simps follows_def intro!: wp_works)

lemma preflight_runs:
  assumes "works env w" "an_preflight an = Inr pr" "pf_status pr = Ready" "pf_identity pr = Some i"
    "py_casefold (pi_email i) = py_casefold (we_email env)" "py_casefold (pi_domain i) = py_casefold (we_domain env)"
  shows "wp (preflight_handle env an plan) (\<lambda>r v. r = Inr (Send (Preflight_Ready plan i)) \<and>
    follows env w [Preflight_Call (Inr pr)] v \<and> wd_ids v = wd_ids w) w"
  using assms records_ok_before [OF _ works_sound [OF assms(1)]]
  by (auto simp: preflight_handle_def wp_simps follows_def intro!: wp_works)

lemma read_current_runs:
  assumes "works env w" "an_state an = Inr s"
  shows "wp (read_current_handle env an plan i) (\<lambda>r v. r = Inr (Send (Current_State plan i s)) \<and>
    follows env w [Read_Call (Inr s)] v \<and> wd_ids v = wd_ids w) w"
  using assms records_ok_before [OF _ works_sound [OF assms(1)]]
  by (auto simp: read_current_handle_def wp_simps Let_def follows_def intro!: wp_works)

definition prepared_of ::
    "workflow_env \<Rightarrow> task_plan \<Rightarrow> preflight_identity \<Rightarrow> blocked_state \<Rightarrow> desired_state_result \<Rightarrow> change_set \<Rightarrow> prepared_message" where
  "prepared_of env plan i s d c = prepared_change.extend
     \<lparr>pc_plan = plan, pc_current = s, pc_desired = d, pc_change = c,
      pc_plan_hash = canonical_hash (text_hash env) (dump_task_plan plan),
      pc_before_hash = canonical_hash (text_hash env) (dump_blocked_state s),
      pc_change_hash = canonical_hash (text_hash env) (dump_change_set c)\<rparr>
     (prepared_message.fields i (we_directory env))"

lemma prepared_of_simps [simp]:
  "pc_plan (prepared_of env plan i s d c) = plan" "pc_current (prepared_of env plan i s d c) = s"
  "pc_desired (prepared_of env plan i s d c) = d" "pc_change (prepared_of env plan i s d c) = c"
  "pm_identity (prepared_of env plan i s d c) = i"
  "pc_plan_hash (prepared_of env plan i s d c) = canonical_hash (text_hash env) (dump_task_plan plan)"
  "pc_before_hash (prepared_of env plan i s d c) = canonical_hash (text_hash env) (dump_blocked_state s)"
  "pc_change_hash (prepared_of env plan i s d c) = canonical_hash (text_hash env) (dump_change_set c)"
  by (simp_all add: prepared_of_def prepared_change.defs prepared_message.defs)

lemma digests_audited [simp]: "works env w \<Longrightarrow> digests (audited (prepared_of env plan i s d c))"
  using digest_hash [of env w]
  by (simp add: digests_def prepared_of_def prepared_change.defs prepared_message.defs)

lemma compute_runs:
  assumes "works env w" "has_mutations c"
    "change_service_calculate (we_supply env) (we_prefix env) plan s (we_registry env) (wd_ids w) = (k, Inr (d, c))"
  shows "wp (compute_handle env plan i s) (\<lambda>r v. r = Inr (Send (Prepared (prepared_of env plan i s d c))) \<and>
    follows env w [] v) w"
proof -
  have "wp (calculate_change env plan s) Q w \<longleftrightarrow> Q (Inr (d, c)) (w\<lparr>wd_ids := k\<rparr>)" for Q
    using assms(3) by (simp add: wp_def calculate_change_def)
  then show ?thesis
    using assms(1,2) records_ok_before(5) [OF _ works_sound [OF assms(1)]] digest_hash [OF assms(1)]
    by (auto simp: compute_handle_def wp_simps Let_def follows_def prepared_of_def digests_def intro!: wp_works)
qed

lemma confirmation_request_runs:
  assumes "works env w"
  shows "wp (confirmation_request_handle (prepared_of env plan i s d c))
    (\<lambda>r v. r = Inr (Pause (Ask_Confirmation (presented (prepared_of env plan i s d c)) (prepared_of env plan i s d c))) \<and> v = w) w"
  using digest_hash [OF assms]
  by (simp add: confirmation_request_handle_def wp_simps make_confirmation_request_def presented_def)

text \<open>The operator approves what was shown.\<close>

definition approval :: "prepared_message \<Rightarrow> string \<Rightarrow> confirmation_response" where
  "approval p i = \<lparr>cf_approved = True, cf_approval_id = i, cf_plan_hash = pc_plan_hash p,
     cf_before_hash = pc_before_hash p, cf_change_hash = pc_change_hash p\<rparr>"

lemma approval_simps [simp]:
  "cf_approved (approval p i)" "cf_plan_hash (approval p i) = pc_plan_hash p"
  "cf_before_hash (approval p i) = pc_before_hash p" "cf_change_hash (approval p i) = pc_change_hash p"
  by (simp_all add: approval_def)

lemma confirmation_runs:
  assumes "works env w" and p: "p = prepared_of env plan i s d c"
  shows "wp (confirmation_resume env (presented p) p (approval p n))
    (\<lambda>r v. r = Inr (Send (Approved \<lparr>ap_prepared = p, ap_response = approval p n\<rparr>)) \<and>
      follows env w [Confirmation_Call (presented p) (approval p n)] v) w"
  using assms(1) record_confirmation_ok [OF _ works_sound [OF assms(1)], of _ "approval p n"] digest_hash [OF assms(1)]
  by (auto simp: confirmation_resume_def wp_simps Let_def follows_def p intro!: wp_works)

lemma reread_runs:
  assumes "works env w" "an_state an = Inr s"
  shows "wp (reread_handle env an ap) (\<lambda>r v. r = Inr (Send (Fresh ap s)) \<and> follows env w [Read_Call (Inr s)] v) w"
  using assms records_ok_before [OF _ works_sound [OF assms(1)]]
  by (auto simp: reread_handle_def wp_simps Let_def follows_def intro!: wp_works)

lemma drift_runs:
  assumes "bs_ou s = ''/''" "p = prepared_of env plan i s d c" "ap_prepared ap = p" "ap_response ap = approval p n"
  shows "wp (drift_handle env ap s) (\<lambda>r v. r = Inr (Send (Command \<lparr>cm_approved = ap, cm_retry = 0\<rparr>)) \<and> v = w) w"
proof -
  have "validate_confirmation (text_hash env) (ap_response ap) (pc_plan p) s (pc_change p) = Inr ()"
    using assms by (simp add: validate_confirmation_iff)
  then show ?thesis using assms(2,3)
    by (simp add: drift_handle_def wp_simps Let_def state_has_drifted_def)
qed

lemma mutation_runs:
  assumes "works env w" "an_mutation an = Inr m" "mr_status m = Completed" "cm_retry k = 0"
    and p: "command_change k = prepared_of env plan i s d c"
  shows "wp (mutation_handle env an k) (\<lambda>r v. r = Inr (Send (Verification_Request \<lparr>mo_command = k, mo_result = m\<rparr>)) \<and>
    follows env w [Apply_Call c (Inr m)] v) w"
proof -
  let ?p = "audited (prepared_of env plan i s d c)"
  obtain r a where a: "record_mutation_started (we_audit env) ?p 1 (wd_auditor w) = (r, a)" by fastforce
  then have ra: "r = Inr ()" "works env (w\<lparr>wd_auditor := a\<rparr>)"
    using record_mutation_started_ok [of "we_audit env" "wd_auditor w" ?p 1] assms(1) digests_audited [OF assms(1)]
    by (auto simp: works_def wp_def)
  have start: "wp (on_auditor (record_mutation_started (we_audit env) ?p (Suc 0))) Q w = Q (Inr ()) (w\<lparr>wd_auditor := a\<rparr>)" for Q
    using a ra(1) by (simp add: wp_def on_auditor_def)
  show ?thesis
    using ra(2) assms(2,3,4) p records_ok_after(3) [OF _ works_sound [OF assms(1)] digests_audited [OF assms(1)], of _ "Suc 0"]
    by (auto simp: mutation_handle_def Let_def wp_simps start follows_def intro!: wp_works)
qed

lemma verification_runs:
  assumes "works env w" "an_state an = Inr s'" "verify_state (dr_state d) (Some s') = Inr v"
    and p: "command_change (mo_command mo) = prepared_of env plan i s d c"
  shows "wp (verification_handle env an mo)
    (\<lambda>r u. r = Inr (Send (Verification_Outcome (prepared_of env plan i s d c) (mo_result mo) v)) \<and>
      follows env w [Verification_Read_Call (Inr s')] u) w"
  using assms records_ok_after(2) [OF _ works_sound [OF assms(1)] digests_audited [OF assms(1)]]
  by (auto simp: verification_handle_def Let_def wp_simps follows_def intro!: wp_works)

lemma decision_runs:
  assumes "works env w" "mr_status m = Completed" "vr_status v = Matched"
    and "fst (lifecycle_commit env (pc_change p) v w) = Inr u"
  shows "wp (decision_handle env p m v) (\<lambda>r x. (\<exists>t. r = Inr (Send (Terminal t)) \<and>
     rr_status t = Applied_Pending_Propagation \<and> rr_warnings t = [propagation_warning]) \<and>
     works env x \<and> wd_calls x = wd_calls w) w"
proof -
  define t where "t = (plain_result Applied_Pending_Propagation None)\<lparr>rr_warnings := [propagation_warning], rr_pending := True\<rparr>"
  have d: "determine_run_result (Some m) (Some v) False False False = Inr t"
    using assms(2,3) by (simp add: determine_run_result_def make_run_result_def t_def plain_result_def)
  have "wp (lifecycle_commit env (pc_change p) v) (\<lambda>r x. (\<exists>u. r = Inr u) \<and> works env x \<and> wd_calls x = wd_calls w) w"
    using assms(1,4)
    by (cases "we_lifecycle env") (auto simp: lifecycle_commit_def wp_def on_store_def split: prod.splits)
  then show ?thesis unfolding decision_handle_def wp_simps d sum.case
    by (elim wp_mono)
      (auto simp: wp_simps t_def dest: works_sound
        intro!: wp_works records_ok_after(1) split: sum.splits)
qed

lemma audit_runs:
  assumes "works env w"
  shows "wp (audit_handle env t) (\<lambda>r x. r = Inr (Output (with_warnings t [])) \<and> wd_calls x = wd_calls w) w"
  using assms finalize_ok [OF _ works_sound [OF assms]]
  by (auto simp: audit_handle_def wp_simps audit_warnings_def works_def intro!: wp_works [OF assms])

end
