(* ===== verification/Workflow_Evidence.thy ===== *)
theory Workflow_Evidence
  imports Workflow_Liveness
begin

text \<open>
  The write-ahead rule: before a change set reaches the console, the command that applies it
  is a file of the run directory, and no later record overwrites that file.
\<close>

section \<open>Records that leave an artifact alone\<close>

definition artifact_of :: "string \<Rightarrow> auditor \<Rightarrow> string option" where
  "artifact_of p a = dict_get (aw_artifacts (au_writer a)) p"

definition spares :: "string \<Rightarrow> (auditor, 'a) act \<Rightarrow> bool" where
  "spares p m \<longleftrightarrow> (\<forall>v. keeps (\<lambda>a. artifact_of p a = v) m)"

lemma sparesD: "spares p m \<Longrightarrow> artifact_of p (snd (m a)) = artifact_of p a"
  by (simp add: spares_def keeps_def)

lemma spares_comp:
  "spares p m \<Longrightarrow> (\<And>x. spares p (f x)) \<Longrightarrow> spares p (bind m f)"
  "spares p m \<Longrightarrow> spares p n \<Longrightarrow> spares p (andthen m n)"
  "spares p m \<Longrightarrow> (\<And>e. spares p (h e)) \<Longrightarrow> spares p (catch m t h)"
  by (auto simp: spares_def intro: keeps_bind keeps_andthen keeps_catch)

lemma append_text_artifacts: "append_text l d w = (r, v) \<Longrightarrow> aw_artifacts v = aw_artifacts w"
  by (cases d) (auto simp: act_defs)

lemma append_event_artifacts: "append_event H isofmt e w = (r, v) \<Longrightarrow> aw_artifacts v = aw_artifacts w"
  by (auto simp: append_event_unfold bind_def andthen_def dest!: append_text_artifacts
      elim!: next_disk_fields split: if_splits prod.splits sum.splits)

lemma spares_basic [simp]:
  "spares p (return x)" "spares p (raise e)" "spares p (lift r)" "spares p (get f)" "spares p (audit_now env)"
  "spares p (update (\<lambda>a. a\<lparr>au_warnings := g a\<rparr>))" "spares p (update (\<lambda>a. a\<lparr>au_started := b\<rparr>))"
  "spares p (on_writer (append_event H isofmt ev))"
  by (auto simp: spares_def keeps_def on_writer_def audit_now_def artifact_of_def
      split: prod.splits dest: append_event_artifacts)

lemma spares_put: "artifact_name p' \<Longrightarrow> p' \<noteq> p \<Longrightarrow> spares p (put_artifact (p', c))"
  unfolding put_artifact_def
  by (intro spares_comp)
    (auto simp: spares_def keeps_def on_writer_def write_text_def artifact_of_def artifact_name_def act_defs
      next_disk_def Let_def AList.update_conv' split: prod.splits list.splits disk_outcome.splits)

lemma spares_each: "(\<And>x. x \<in> set xs \<Longrightarrow> spares p (f x)) \<Longrightarrow> spares p (each f xs)"
  by (induction xs) (auto intro: spares_comp)

lemma spares_record:
  assumes "list_all (\<lambda>pc. artifact_name (fst pc) \<and> fst pc \<noteq> p) arts"
  shows "spares p (audit_record env f arts)"
  unfolding audit_record_def record_attempt_def append_facts_def
  by (intro spares_comp spares_each spares_basic)
    (use assms in \<open>auto simp: list_all_iff intro!: spares_put spares_comp\<close>)

definition command_name :: string where
  "command_name = ''mutation-command-1.json''"

lemma spares_records [simp]:
  "spares command_name (record_request env t)" "spares command_name (record_plan env plan)"
  "spares command_name (record_preflight env pr)" "spares command_name (record_state env stage s)"
  "spares command_name (record_prepared_change env pc)" "spares command_name (record_confirmation env c)"
  "spares command_name (record_verification env pc v)" "spares command_name (record_ownership_update env u)"
  unfolding record_request_def record_plan_def record_preflight_def record_state_def record_prepared_change_def
    record_confirmation_def record_verification_def record_ownership_update_def
  by (rule spares_record; cases stage; simp add: command_name_def split: option.split)+

lemma numbered_differ [simp]:
  "numbered ''mutation-result-'' (Suc 0) \<noteq> command_name" "numbered ''mutation-result-'' 2 \<noteq> command_name"
  "numbered ''reconciliation-'' (Suc 0) \<noteq> command_name" "numbered ''reconciliation-'' 2 \<noteq> command_name"
  "numbered ''reconciliation-after-'' (Suc 0) \<noteq> command_name" "numbered ''reconciliation-after-'' 2 \<noteq> command_name"
  "numbered ''mutation-command-'' 2 \<noteq> command_name"
  by (simp_all add: numbered_def command_name_def)

lemma spares_numbered [simp]:
  "attempt = Suc 0 \<or> attempt = 2 \<Longrightarrow> spares command_name (record_mutation_result env pc attempt m)"
  "attempt = Suc 0 \<or> attempt = 2 \<Longrightarrow> spares command_name (record_reconciliation env pc attempt d)"
  "spares command_name (record_mutation_started env pc 2)"
  unfolding record_mutation_result_def record_reconciliation_def record_mutation_started_def
  by (elim disjE; simp; rule spares_record; simp split: option.split)+
    (intro spares_comp spares_basic spares_record; simp)

lemma spares_finalize [simp]: "spares command_name (finalize env r)"
  unfolding finalize_def by (intro spares_comp spares_basic spares_put) (simp_all add: command_name_def)

section \<open>Executors that write nothing\<close>

text \<open>Neither an application nor a change of the recorded command.\<close>

definition calm :: "(world, 'a) act \<Rightarrow> bool" where
  "calm m \<longleftrightarrow> (\<forall>x y. keeps (\<lambda>w. applied_sets (wd_calls w) = x \<and> artifact_of command_name (wd_auditor w) = y) m)"

lemma calmD:
  "calm m \<Longrightarrow> applied_sets (wd_calls (snd (m w))) = applied_sets (wd_calls w) \<and>
     artifact_of command_name (wd_auditor (snd (m w))) = artifact_of command_name (wd_auditor w)"
  by (simp add: calm_def keeps_def)

lemma calm_comp:
  "calm m \<Longrightarrow> (\<And>x. calm (f x)) \<Longrightarrow> calm (bind m f)"
  "calm m \<Longrightarrow> calm n \<Longrightarrow> calm (andthen m n)"
  "calm m \<Longrightarrow> (\<And>e. calm (h e)) \<Longrightarrow> calm (catch m t h)"
  by (auto simp: calm_def intro: keeps_bind keeps_andthen keeps_catch)

lemma calm_basic [simp]:
  "calm (return x)" "calm (raise e)" "calm (lift r)" "calm (get f)" "calm (on_store n)" "calm (send m)"
  "calm (send_result status code)" "calm (failed_preflight_message reason)" "calm (calculate_change env plan s)"
  by (auto simp: calm_def keeps_def on_store_def send_def send_result_def failed_preflight_message_def calculate_change_def
      split: prod.splits)

lemma calm_ask [simp]:
  "calm (ask (Plan_Call t) r1)" "calm (ask Preflight_Call r2)" "calm (ask Read_Call r3)"
  "calm (ask Verification_Read_Call r3)" "calm (ask (\<lambda>_. Confirmation_Call q a) r4)"
  by (auto simp: calm_def keeps_def ask_def act_defs split: sum.splits)

lemma calm_read [simp]: "calm (read_console Read_Call an)" "calm (read_console Verification_Read_Call an)"
  unfolding read_console_def by (intro calm_comp; simp)+

lemma calm_auditor [simp]: "spares command_name m \<Longrightarrow> calm (on_auditor m)"
  using sparesD [of command_name m] by (auto simp: calm_def keeps_def on_auditor_def split: prod.splits) (metis snd_conv)

lemmas calm_intros = calm_comp calm_basic calm_ask calm_read calm_auditor

lemma calm_handlers:
  "calm (planner_handle env an t)" "calm (plan_decision_handle t plan)" "calm (clarification_resume t u)"
  "calm (preflight_handle env an plan)" "calm (login_resume plan b)" "calm (read_current_handle env an plan i)"
  "calm (compute_handle env plan i s)" "calm (confirmation_request_handle p)"
  "calm (confirmation_resume env q p a)" "calm (reread_handle env an ap)" "calm (drift_handle env ap s)"
  unfolding planner_handle_def plan_decision_handle_def clarification_resume_def preflight_handle_def
    login_resume_def read_current_handle_def compute_handle_def confirmation_request_handle_def
    confirmation_resume_def reread_handle_def drift_handle_def Let_def
  by (auto intro!: calm_comp split: plan_status.split option.split preflight_status.split sum.split prod.split)

lemma calm_after_write:
  "cm_retry (mo_command mo) \<le> Suc 0 \<Longrightarrow> calm (reconciliation_handle env an mo)" "calm (verification_handle env an mo)"
  "calm (decision_handle env p m v)" "calm (audit_handle env r)"
  unfolding reconciliation_handle_def route_decision_def verification_handle_def decision_handle_def
    lifecycle_commit_def audit_handle_def Let_def
  by (auto intro!: calm_comp spares_numbered
      split: option.split reconciliation_outcome.split lifecycle.split simp: le_Suc_eq)

section \<open>The rule\<close>

lemma put_artifact_put:
  "artifact_name p \<Longrightarrow> put_artifact (p, c) a = (Inr (), b) \<Longrightarrow> artifact_of p b = Some c"
  by (auto simp: put_artifact_def andthen_Inr_iff on_writer_def write_text_def artifact_name_def bind_Inr_iff
      next_disk_def Let_def artifact_of_def act_defs AList.update_conv' split: prod.splits list.splits disk_outcome.splits)

lemma put_artifact_files:
  assumes "artifact_name p" and "put_artifact (p, c) a = (Inr (), b)"
  shows "writer_files (au_writer b) =
    writer_files ((au_writer a)\<lparr>aw_artifacts := dict_put p c (aw_artifacts (au_writer a))\<rparr>)"
  using assms
  by (auto simp: put_artifact_def andthen_Inr_iff on_writer_def write_text_def artifact_name_def bind_Inr_iff
      next_disk_def Let_def writer_files_def act_defs split: prod.splits list.splits disk_outcome.splits)

lemma append_facts_spares [simp]: "spares p (append_facts env f)"
  unfolding append_facts_def by (intro spares_comp spares_basic)

lemma first_command_recorded:
  assumes "record_mutation_started env p 1 a = (Inr (), b)" and "\<not> au_started a"
  shows "artifact_of command_name b = Some (json_text (dump_change_set (pc_change p)))"
proof -
  let ?text = "json_text (dump_change_set (pc_change p))"
  have n: "numbered ''mutation-command-'' (Suc 0) = command_name" "artifact_name command_name"
    using numbered_names(1) by (simp_all add: numbered_def command_name_def)
  from assms(1) obtain f c where c: "audit_record env f [(command_name, ?text)] a = (Inr (), c)"
      "b = c\<lparr>au_started := True\<rparr>"
    by (auto simp: record_mutation_started_def andthen_Inr_iff n)
  have "au_started d = au_started a" if "record_attempt env f [(command_name, ?text)] a = (r, d)" for r d
  proof -
    have "keeps_started (record_attempt env f [(command_name, ?text)])"
      unfolding record_attempt_def append_facts_def
      by (intro keeps_started_comp keeps_started_each) auto
    from keeps_startedD [OF this, of a] that show ?thesis by simp
  qed
  then have "record_attempt env f [(command_name, ?text)] a = (Inr (), c)"
    using c(1) assms(2) by (auto simp: audit_record_def act_defs split: prod.splits sum.splits if_splits)
  then obtain d e x where "put_artifact (command_name, ?text) a = (Inr (), d)" "append_facts env f d = (Inr x, c)"
    by (auto simp: record_attempt_def andthen_Inr_iff)
  with put_artifact_put [OF n(2), of ?text a d] sparesD [OF append_facts_spares, of command_name env f d]
  show ?thesis using c(2) by (simp add: artifact_of_def)
qed

definition evidenced :: "world \<Rightarrow> bool" where
  "evidenced w \<longleftrightarrow> (\<forall>c \<in> set (applied_sets (wd_calls w)).
     artifact_of command_name (wd_auditor w) = Some (json_text (dump_change_set c)))"

lemma calm_evidenced: "calm m \<Longrightarrow> evidenced w \<Longrightarrow> wp m (\<lambda>_. evidenced) w"
  using calmD [of m w] by (simp add: evidenced_def wp_def)

lemma mutation_evidenced:
  assumes "stands env q w" "backed (text_hash env) (Command c) q" "evidenced w"
  shows "wp (mutation_handle env an c) (\<lambda>_. evidenced) w"
proof -
  let ?p = "command_change c" and ?text = "json_text (dump_change_set (pc_change (command_change c)))"
  obtain r a where a: "record_mutation_started (we_audit env) (audited ?p) (Suc (cm_retry c)) (wd_auditor w) = (r, a)"
    by fastforce
  have h: "history (text_hash env) (wd_calls w) q" using assms(1) protocol_history by (auto simp: stands_def)
  have change: "pc_change (audited ?p) = pc_change ?p" by (simp add: prepared_change.defs)
  have "(r = Inr () \<longrightarrow> artifact_of command_name a = Some ?text) \<and>
      (r \<noteq> Inr () \<longrightarrow> evidenced (w\<lparr>wd_auditor := a\<rparr>)) \<and> set (applied_sets (wd_calls w)) \<subseteq> {pc_change ?p}"
  proof (cases "cm_retry c = 0")
    case True
    then have "\<not> au_started (wd_auditor w)" "applied_sets (wd_calls w) = []"
      using assms(1,2) h by (auto simp: Let_def stands_def)
    then show ?thesis
      using first_command_recorded [of "we_audit env" "audited ?p" "wd_auditor w" a] a True change
      by (auto simp: evidenced_def)
  next
    case False
    then have one: "cm_retry c = 1" "applied_sets (wd_calls w) = [pc_change ?p]"
      using assms(2) h by (auto simp: Let_def)
    then have "artifact_of command_name a = artifact_of command_name (wd_auditor w)"
      using sparesD [OF spares_numbered(3), of "we_audit env" "audited ?p" "wd_auditor w"] a by (simp add: numeral_2_eq_2)
    then show ?thesis using one(2) assms(3) by (simp add: evidenced_def)
  qed
  note start = this
  define rest where "rest m = andthen (on_auditor (record_mutation_result (we_audit env) (audited ?p) (Suc (cm_retry c)) m))
      (if mr_status m = Partial then send_result Partially_Applied (mr_error m)
       else if mr_status m = Uncertain then send (Reconciliation_Request \<lparr>mo_command = c, mo_result = m\<rparr>)
       else send (Verification_Request \<lparr>mo_command = c, mo_result = m\<rparr>))" for m
  have calm_rest: "calm (rest m)" for m
    unfolding rest_def using assms(2) by (intro calm_comp calm_auditor spares_numbered) (auto simp: Let_def)
  have ev: "r = Inr () \<Longrightarrow> evidenced (w\<lparr>wd_auditor := a, wd_calls := wd_calls w @ [Apply_Call (pc_change ?p) x]\<rparr>)" for x
    using start by (auto simp: evidenced_def)
  have "mutation_handle env an c = andthen (on_auditor (record_mutation_started (we_audit env) (audited ?p) (Suc (cm_retry c))))
      (bind (ask (Apply_Call (pc_change ?p)) (an_mutation an)) rest)"
    by (simp add: mutation_handle_def Let_def rest_def [abs_def])
  moreover have "wp (on_auditor (record_mutation_started (we_audit env) (audited ?p) (Suc (cm_retry c)))) Q w =
      Q r (w\<lparr>wd_auditor := a\<rparr>)" for Q
    using a by (simp add: wp_def on_auditor_def)
  ultimately show ?thesis
    using start ev calm_evidenced [OF calm_rest]
    by (cases r; cases "an_mutation an") (simp_all add: wp_andthen wp_bind wp_ask)
qed

lemma run_deliver_evidenced:
  assumes "simulated env (Deliver n m) w" "evidenced w"
  shows "evidenced (snd (run_deliver env an n m w))"
proof -
  from assms(1) obtain q where q: "stands env q w" "n = taker m" "backed (text_hash env) m q"
    by (auto simp: simulated_def)
  have "\<exists>act. run_node env an n m = Some act \<and> wp act (\<lambda>_. evidenced) w"
    using q assms(2)
    by (cases m)
      (auto simp: run_node_def Let_def intro: calm_evidenced calm_handlers calm_after_write calm_basic
        mutation_evidenced [OF q(1)])
  then show ?thesis by (auto simp: run_deliver_def after_act_def wp_def)
qed

end
