(* ===== verification/Workflow_Runs.thy ===== *)
theory Workflow_Runs
  imports Workflow_Evidence
begin

text \<open>
  Whole runs: the invariants hold in every reachable configuration, the automatic part of a
  run is bounded, and the run of an approved change, once in general and once for the console
  of the earlier examples.
\<close>

section \<open>Reachable configurations\<close>

lemma simulated_start: "starts (x, w) \<Longrightarrow> simulated env x w \<and> evidenced w"
  by (auto simp: starts_def evidenced_def stands_def intro!: simulatedI)

lemma simulated_step:
  assumes "step env (x, w) (y, v)" "simulated env x w" "evidenced w"
  shows "simulated env y v \<and> evidenced v"
  using assms(1)
proof cases
  case (handled n m an)
  then have d: "run_deliver env an n m w = (y, v)" "simulated env (Deliver n m) w" using assms(2) by simp_all
  from run_deliver_simulated [OF d(2,1)] run_deliver_evidenced [OF d(2) assms(3), of an]
  show ?thesis unfolding d(1) by simp
next
  case (clarified original question response)
  then have "stands env Idle w" using assms(2) by (auto simp: simulated_def)
  from clarification_simulated [OF this, of original response] calm_evidenced [OF calm_handlers(3) assms(3), of original response]
  show ?thesis using clarified by (auto simp: after_act_def wp_def)
next
  case (logged_in plan reason email completed)
  then have "stands env Idle w" using assms(2) by (auto simp: simulated_def)
  from login_simulated [OF this, of plan completed] calm_evidenced [OF calm_handlers(5) assms(3), of plan completed]
  show ?thesis using logged_in by (auto simp: after_act_def wp_def)
next
  case (confirmed presentation p response)
  then have "stands env Idle w" "wf_prepared (text_hash env) p" "presentation = presented p"
    using assms(2) by (auto simp: simulated_def)
  from confirmation_simulated [OF this(1,2), of response] this(3)
    calm_evidenced [OF calm_handlers(9) assms(3), of env presentation p response]
  show ?thesis using confirmed by (auto simp: after_act_def wp_def)
qed

lemma reachable_invariant: "reachable env c \<Longrightarrow> simulated env (fst c) (snd c) \<and> evidenced (snd c)"
proof (induction rule: reachable.induct)
  case (reachable_start c)
  then show ?case using simulated_start [of "fst c" "snd c" env] by simp
next
  case (reachable_step c d)
  then show ?case using simulated_step [of env "fst c" "snd c" "fst d" "snd d"] by simp
qed

lemma reachable_protocol:
  assumes "reachable env (x, w)"
  obtains q where "stands env q w" "holds (text_hash env) x q" "history (text_hash env) (wd_calls w) q" "evidenced w"
  using reachable_invariant [OF assms] protocol_history by (auto simp: simulated_def stands_def)

lemma reachable_steps: "reachable env c \<Longrightarrow> (step env)\<^sup>*\<^sup>* c d \<Longrightarrow> reachable env d"
  by (rotate_tac, induction rule: rtranclp_induct) (auto intro: reachable_step)

section \<open>The automatic part of a run\<close>

text \<open>How many executors can still run before the run pauses or ends.\<close>

fun rank :: "message \<Rightarrow> nat" where
  "rank (User_Request _) = 7"
| "rank (Planned_Task _ _) = 6"
| "rank (Clarification_Pause _ _) = 1"
| "rank (Preflight_Request _) = 5"
| "rank (Login_Pause _ _ _) = 1"
| "rank (Preflight_Ready _ _) = 4"
| "rank (Current_State _ _ _) = 3"
| "rank (Prepared _) = 2"
| "rank (Approved _) = 9"
| "rank (Fresh _ _) = 8"
| "rank (Command c) = (if cm_retry c = 0 then 7 else 5)"
| "rank (Reconciliation_Request m) = (if cm_retry (mo_command m) = 0 then 6 else 4)"
| "rank (Verification_Request _) = 3"
| "rank (Verification_Outcome _ _ _) = 2"
| "rank (Terminal _) = 1"

definition bounded_by :: "nat \<Rightarrow> pending \<Rightarrow> bool" where
  "bounded_by k x \<longleftrightarrow> (\<forall>n m. x = Deliver n m \<longrightarrow> rank m < k)"

lemma bounded_by_simps [simp]:
  "bounded_by k (Deliver n m) \<longleftrightarrow> rank m < k" "bounded_by k (Paused p)" "bounded_by k (Finished r)"
  "bounded_by k (Failed e)" "bounded_by k (Undelivered m)"
  by (simp_all add: bounded_by_def)

lemma bounded_deliver: "rank m < k \<Longrightarrow> bounded_by k (deliver n m)"
  by (auto simp: bounded_by_def deliver_def split: list.splits)

text \<open>Every outcome of an executor is below the message it ran on.\<close>

definition sends_below :: "nat \<Rightarrow> (world, outcome) act \<Rightarrow> bool" where
  "sends_below k act \<longleftrightarrow> (\<forall>w m. fst (act w) = Inr (Send m) \<longrightarrow> rank m < k)"

lemma sends_below_bind: "(\<And>x. sends_below k (f x)) \<Longrightarrow> sends_below k (bind m f)"
  by (auto simp: sends_below_def bind_def split: prod.splits sum.splits)

lemma sends_below_andthen: "sends_below k f \<Longrightarrow> sends_below k (andthen m f)"
  unfolding andthen_def by (rule sends_below_bind)

lemma sends_below_catch: "sends_below k m \<Longrightarrow> (\<And>e. sends_below k (h e)) \<Longrightarrow> sends_below k (catch m t h)"
  by (auto simp: sends_below_def catch_def split: prod.splits sum.splits) (metis fst_conv)+

lemma sends_below_basic [simp]:
  "sends_below k (send m) \<longleftrightarrow> rank m < k" "sends_below k (send_result status code) \<longleftrightarrow> 1 < k"
  "sends_below k (failed_preflight_message reason) \<longleftrightarrow> 1 < k"
  "sends_below k (raise e)" "sends_below k (return (Pause p))" "sends_below k (return (Output r))"
  by (simp_all add: sends_below_def send_def send_result_def failed_preflight_message_def)

lemmas sends_below_intros = sends_below_bind sends_below_andthen sends_below_catch

lemma route_below:
  assumes "reconcile_mutation H b d (Some s) (reconciliation_context_of (mo_command mo) s valid) = Inr r"
  shows "sends_below (if cm_retry (mo_command mo) = 0 then 6 else 4) (route_decision mo s r)"
proof -
  have "cm_retry (mo_command mo) = 0" if "rd_retry r"
    using reconcile_retry(2) [OF assms that]
    by (simp add: retry_preconditions_hold_def reconciliation_context_of_def)
  then show ?thesis
    by (auto simp: route_decision_def Let_def intro!: sends_below_bind split: reconciliation_outcome.split)
qed

lemma sends_below_lift: "(\<And>x. r = Inr x \<Longrightarrow> sends_below k (f x)) \<Longrightarrow> sends_below k (bind (lift r) f)"
  by (cases r) (auto simp: sends_below_def bind_def)

lemma executor_below:
  assumes "run_node env an n m = Some act"
  shows "sends_below (rank m) act"
proof -
  have r: "sends_below (if cm_retry (mo_command mo) = 0 then 6 else 4) (reconciliation_handle env an mo)" for mo
    unfolding reconciliation_handle_def Let_def
    by (intro sends_below_bind)
      (auto intro!: sends_below_andthen sends_below_lift dest!: route_below split: option.split)
  show ?thesis
  proof (cases "n = Reconciliation")
    case True
    then obtain mo where "m = Reconciliation_Request mo" "act = reconciliation_handle env an mo"
      using assms by (cases m) (auto simp: run_node_def)
    then show ?thesis using r [of mo] by (simp only: rank.simps)
  next
    case False
    then show ?thesis using assms
    by (cases n; cases m)
      (auto simp: run_node_def planner_handle_def plan_decision_handle_def preflight_handle_def read_current_handle_def
        compute_handle_def confirmation_request_handle_def reread_handle_def drift_handle_def mutation_handle_def
        verification_handle_def decision_handle_def audit_handle_def Let_def
        intro!: sends_below_intros split: plan_status.split option.split preflight_status.split sum.split prod.split)
  qed
qed

lemma run_deliver_bounded:
  assumes "run_deliver env an n m w = (y, v)"
  shows "bounded_by (rank m) y"
proof (cases "run_node env an n m")
  case None
  then show ?thesis using assms by (auto simp: run_deliver_def)
next
  case (Some act)
  obtain r u where r: "act w = (r, u)" by fastforce
  have "bounded_by (rank m) (after_node n r)"
    using executor_below [OF Some] r
    by (cases "(n, r)" rule: after_node.cases) (auto simp: sends_below_def intro!: bounded_deliver dest: spec [of _ w])
  then show ?thesis using assms Some r by (auto simp: run_deliver_def after_act_def)
qed

text \<open>The executors run on their own, \<open>an i\<close> the answers the \<open>i\<close>-th of them gets.\<close>

fun run_auto :: "workflow_env \<Rightarrow> (nat \<Rightarrow> answers) \<Rightarrow> nat \<Rightarrow> config \<Rightarrow> config" where
  "run_auto env an 0 c = c"
| "run_auto env an (Suc k) (Deliver n m, w) = run_auto env (\<lambda>i. an (Suc i)) k (run_deliver env (an 0) n m w)"
| "run_auto env an (Suc k) c = c"

lemma rank_pos: "0 < rank m"
  by (cases m) auto

lemma run_auto_settles: "bounded_by (Suc k) (fst c) \<Longrightarrow> bounded_by 1 (fst (run_auto env an k c))"
proof (induction k arbitrary: c an)
  case (Suc k)
  show ?case
  proof (cases "fst c")
    case (Deliver n m)
    then obtain y v where y: "run_deliver env (an 0) n m (snd c) = (y, v)" "c = (Deliver n m, snd c)"
      by (metis prod.collapse)
    have "bounded_by (Suc k) y"
      using run_deliver_bounded [OF y(1)] Suc.prems Deliver by (cases y) auto
    then have "bounded_by 1 (fst (run_auto env (\<lambda>i. an (Suc i)) k (y, v)))" using Suc.IH [of "(y, v)"] by simp
    then show ?thesis by (subst y(2)) (simp add: y(1))
  qed (cases c; simp)+
qed simp

section \<open>The run of an approved change\<close>

text \<open>What the planner, the browser and the operator answer in that run.\<close>

record script =
  sc_text :: string
  sc_plan :: task_plan
  sc_preflight :: preflight_result
  sc_identity :: preflight_identity
  sc_state :: blocked_state
  sc_desired :: desired_state_result
  sc_change :: change_set
  sc_approval :: string
  sc_mutation :: mutation_result
  sc_observed :: blocked_state
  sc_verification :: verification_result

definition consistent_script :: "workflow_env \<Rightarrow> world \<Rightarrow> script \<Rightarrow> bool" where
  "consistent_script env w x \<longleftrightarrow>
     make_request_text (sc_text x) = Inr (sc_text x) \<and> tp_status (sc_plan x) = Plan \<and>
     pf_status (sc_preflight x) = Ready \<and> pf_identity (sc_preflight x) = Some (sc_identity x) \<and>
     py_casefold (pi_email (sc_identity x)) = py_casefold (we_email env) \<and>
     py_casefold (pi_domain (sc_identity x)) = py_casefold (we_domain env) \<and>
     bs_ou (sc_state x) = ''/'' \<and>
     snd (change_service_calculate (we_supply env) (we_prefix env) (sc_plan x) (sc_state x) (we_registry env) (wd_ids w)) =
       Inr (sc_desired x, sc_change x) \<and> has_mutations (sc_change x) \<and>
     mr_status (sc_mutation x) = Completed \<and>
     verify_state (dr_state (sc_desired x)) (Some (sc_observed x)) = Inr (sc_verification x) \<and>
     vr_status (sc_verification x) = Matched \<and>
     (we_lifecycle env = Local_Lifecycle \<longrightarrow>
       (\<exists>u. fst (commit_verified (we_clock env) (sc_change x) (sc_verification x) (wd_store w)) = Inr u))"

definition script_prepared :: "workflow_env \<Rightarrow> script \<Rightarrow> prepared_message" where
  "script_prepared env x = prepared_of env (sc_plan x) (sc_identity x) (sc_state x) (sc_desired x) (sc_change x)"

definition script_calls :: "workflow_env \<Rightarrow> script \<Rightarrow> call list" where
  "script_calls env x =
     [Plan_Call (sc_text x) (Inr (sc_plan x)), Preflight_Call (Inr (sc_preflight x)), Read_Call (Inr (sc_state x)),
      Confirmation_Call (presented (script_prepared env x)) (approval (script_prepared env x) (sc_approval x)),
      Read_Call (Inr (sc_state x)), Apply_Call (sc_change x) (Inr (sc_mutation x)),
      Verification_Read_Call (Inr (sc_observed x))]"

lemma pauses:
  assumes "wp act (\<lambda>r v. r = Inr (Pause p) \<and> R v) w" and "run_node env an n m = Some act"
  shows "\<exists>v. step env (Deliver n m, w) (Paused p, v) \<and> R v"
  using handled [of env n m w an] assms by (auto simp: wp_def run_deliver_def after_act_def)

lemma outputs:
  assumes "wp act (\<lambda>r v. r = Inr (Output p) \<and> R v) w" and "run_node env an n m = Some act"
  shows "\<exists>v. step env (Deliver n m, w) (Finished p, v) \<and> R v"
  using handled [of env n m w an] assms by (auto simp: wp_def run_deliver_def after_act_def)

lemma follows_trans: "follows env w cs v \<Longrightarrow> follows env v ds u \<Longrightarrow> follows env w (cs @ ds) u"
  by (simp add: follows_def)

lemma follows_works: "follows env w cs v \<Longrightarrow> works env v"
  by (simp add: follows_def)

lemma approved_run_first:
  assumes w: "works env w" and x: "consistent_script env w x"
  shows "\<exists>v. (step env)\<^sup>*\<^sup>* (Deliver Planner (User_Request (sc_text x)), w)
      (Paused (Ask_Confirmation (presented (script_prepared env x)) (script_prepared env x)), v) \<and>
    follows env w (take 3 (script_calls env x)) v"
proof -
  define an where "an = \<lparr>an_plan = Inr (sc_plan x), an_preflight = Inr (sc_preflight x), an_state = Inr (sc_state x),
     an_mutation = Inr (sc_mutation x)\<rparr>"
  let ?t = "sc_text x" and ?plan = "sc_plan x" and ?i = "sc_identity x" and ?s = "sc_state x"
  obtain w1 where w1: "step env (Deliver Planner (User_Request ?t), w) (Deliver Plan_Decision (Planned_Task ?t ?plan), w1)"
      "follows env w [Plan_Call ?t (Inr ?plan)] w1" "wd_ids w1 = wd_ids w"
    using sends [where env = env and an = an and n = Planner and m = "User_Request ?t" and n' = Plan_Decision, OF planner_runs [OF w, of ?t an ?plan]] x by (auto simp: consistent_script_def an_def run_node_def)
  have s2: "step env (Deliver Plan_Decision (Planned_Task ?t ?plan), w1) (Deliver Preflight (Preflight_Request ?plan), w1)"
    using handled [of env Plan_Decision "Planned_Task ?t ?plan" w1] x
    by (simp add: run_deliver_def run_node_def plan_decision_handle_def after_act_def send_def consistent_script_def)
  obtain w2 where w2: "step env (Deliver Preflight (Preflight_Request ?plan), w1) (Deliver Read_Current (Preflight_Ready ?plan ?i), w2)"
      "follows env w1 [Preflight_Call (Inr (sc_preflight x))] w2" "wd_ids w2 = wd_ids w1"
    using sends [where env = env and an = an and n = Preflight and m = "Preflight_Request ?plan" and n' = Read_Current, OF preflight_runs [OF follows_works [OF w1(2)], of an "sc_preflight x" ?i ?plan]] x
    by (auto simp: consistent_script_def an_def run_node_def)
  obtain w3 where w3: "step env (Deliver Read_Current (Preflight_Ready ?plan ?i), w2) (Deliver Compute (Current_State ?plan ?i ?s), w3)"
      "follows env w2 [Read_Call (Inr ?s)] w3" "wd_ids w3 = wd_ids w2"
    using sends [where env = env and an = an and n = Read_Current and m = "Preflight_Ready ?plan ?i" and n' = Compute, OF read_current_runs [OF follows_works [OF w2(2)], of an ?s ?plan ?i]] by (auto simp: an_def run_node_def)
  obtain k where "change_service_calculate (we_supply env) (we_prefix env) ?plan ?s (we_registry env) (wd_ids w3) =
      (k, Inr (sc_desired x, sc_change x))"
    using x w1(3) w2(3) w3(3) by (cases "change_service_calculate (we_supply env) (we_prefix env) ?plan ?s (we_registry env) (wd_ids w3)")
      (auto simp: consistent_script_def)
  from sends [where env = env and an = an and n = Compute and m = "Current_State ?plan ?i ?s" and n' = Confirmation, OF compute_runs [OF follows_works [OF w3(2)] _ this, where i = ?i]]
  obtain w4 where w4: "step env (Deliver Compute (Current_State ?plan ?i ?s), w3) (Deliver Confirmation (Prepared (script_prepared env x)), w4)"
      "follows env w3 [] w4"
    using x by (auto simp: consistent_script_def run_node_def script_prepared_def)
  obtain w5 where w5: "step env (Deliver Confirmation (Prepared (script_prepared env x)), w4)
      (Paused (Ask_Confirmation (presented (script_prepared env x)) (script_prepared env x)), w5)" "w5 = w4"
    using pauses [where env = env and an = an and n = Confirmation and m = "Prepared (script_prepared env x)", OF confirmation_request_runs [OF follows_works [OF w4(2)]]]
    by (auto simp: run_node_def script_prepared_def)
  have "follows env w (take 3 (script_calls env x)) w5"
    using follows_trans [OF follows_trans [OF follows_trans [OF w1(2) w2(2)] w3(2)] w4(2)] w5(2)
    by (simp add: script_calls_def)
  moreover have "(step env)\<^sup>*\<^sup>* (Deliver Planner (User_Request ?t), w)
      (Paused (Ask_Confirmation (presented (script_prepared env x)) (script_prepared env x)), w5)"
    using w1(1) s2 w2(1) w3(1) w4(1) w5(1) by (meson converse_rtranclp_into_rtranclp rtranclp.rtrancl_refl)
  ultimately show ?thesis by blast
qed

lemma approved_run_second:
  assumes w: "works env w" and x: "consistent_script env w' x" "wd_store w = wd_store w'"
  shows "\<exists>v r. (step env)\<^sup>*\<^sup>* (Paused (Ask_Confirmation (presented (script_prepared env x)) (script_prepared env x)), w)
      (Finished r, v) \<and> rr_status r = Applied_Pending_Propagation \<and> rr_warnings r = [propagation_warning] \<and>
    wd_calls v = wd_calls w @ drop 3 (script_calls env x)"
proof -
  define an where "an = \<lparr>an_plan = Inr (sc_plan x), an_preflight = Inr (sc_preflight x), an_state = Inr (sc_state x),
     an_mutation = Inr (sc_mutation x)\<rparr>"
  define an' where "an' = an\<lparr>an_state := Inr (sc_observed x)\<rparr>"
  let ?p = "script_prepared env x" and ?s = "sc_state x" and ?m = "sc_mutation x" and ?v = "sc_verification x"
  define ap where "ap = \<lparr>ap_prepared = ?p, ap_response = approval ?p (sc_approval x)\<rparr>"
  define cm where "cm = \<lparr>cm_approved = ap, cm_retry = 0\<rparr>"
  define mo where "mo = \<lparr>mo_command = cm, mo_result = ?m\<rparr>"
  note p = script_prepared_def [of env x]
  obtain w1 where w1: "step env (Paused (Ask_Confirmation (presented ?p) ?p), w) (Deliver Reread (Approved ap), w1)"
      "follows env w [Confirmation_Call (presented ?p) (approval ?p (sc_approval x))] w1"
    using confirmed [of env "presented ?p" ?p w "approval ?p (sc_approval x)"] confirmation_runs [OF w p, of "sc_approval x"]
    by (auto simp: after_act_def wp_def ap_def)
  obtain w2 where w2: "step env (Deliver Reread (Approved ap), w1) (Deliver Drift (Fresh ap ?s), w2)"
      "follows env w1 [Read_Call (Inr ?s)] w2"
    using sends [where env = env and an = an and n = Reread and m = "Approved ap" and n' = Drift, OF reread_runs [OF follows_works [OF w1(2)], of an ?s ap]] by (auto simp: an_def run_node_def)
  have s3: "step env (Deliver Drift (Fresh ap ?s), w2) (Deliver Mutation (Command cm), w2)"
    using sends [where env = env and an = an and n = Drift and m = "Fresh ap ?s" and n' = Mutation, OF drift_runs [OF _ p, of ap "sc_approval x" w2]] x(1)
    by (auto simp: run_node_def ap_def cm_def consistent_script_def)
  obtain w4 where w4: "step env (Deliver Mutation (Command cm), w2) (Deliver Verification (Verification_Request mo), w4)"
      "follows env w2 [Apply_Call (sc_change x) (Inr ?m)] w4"
    using sends [where env = env and an = an and n = Mutation and m = "Command cm" and n' = Verification, OF mutation_runs [OF follows_works [OF w2(2)], of an ?m cm]] x(1)
    by (fastforce simp: an_def run_node_def mo_def cm_def ap_def p consistent_script_def)
  obtain w5 where w5: "step env (Deliver Verification (Verification_Request mo), w4)
      (Deliver Verification_Decision (Verification_Outcome ?p ?m ?v), w5)"
      "follows env w4 [Verification_Read_Call (Inr (sc_observed x))] w5"
    using sends [where env = env and an = an' and n = Verification and m = "Verification_Request mo" and n' = Verification_Decision, OF verification_runs [OF follows_works [OF w4(2)], of an' "sc_observed x" "sc_desired x" ?v mo]] x(1)
    by (fastforce simp: an'_def run_node_def mo_def cm_def ap_def p consistent_script_def)
  have "wd_store w5 = wd_store w'" using w1(2) w2(2) w4(2) w5(2) x(2) by (simp add: follows_def)
  then obtain u where "fst (lifecycle_commit env (pc_change ?p) ?v w5) = Inr u"
    using x(1) by (cases "we_lifecycle env")
      (auto simp: lifecycle_commit_def on_store_def consistent_script_def p case_prod_unfold)
  from decision_runs [OF follows_works [OF w5(2)] _ _ this, of ?m] x(1)
  obtain t w6 where t: "decision_handle env ?p ?m ?v w5 = (Inr (Send (Terminal t)), w6)"
      "rr_status t = Applied_Pending_Propagation" "rr_warnings t = [propagation_warning]" "works env w6" "wd_calls w6 = wd_calls w5"
    by (cases "decision_handle env ?p ?m ?v w5") (auto simp: wp_def consistent_script_def)
  have s6: "step env (Deliver Verification_Decision (Verification_Outcome ?p ?m ?v), w5) (Deliver Audit_Finalization (Terminal t), w6)"
    using handled [of env Verification_Decision "Verification_Outcome ?p ?m ?v" w5] t(1)
    by (simp add: run_deliver_def run_node_def after_act_def)
  obtain w7 where w7: "step env (Deliver Audit_Finalization (Terminal t), w6) (Finished (with_warnings t []), w7)"
      "wd_calls w7 = wd_calls w6"
    using outputs [where env = env and an = an and n = Audit_Finalization and m = "Terminal t", OF audit_runs [OF t(4), of t]] by (auto simp: run_node_def)
  have "wd_calls w7 = wd_calls w @ drop 3 (script_calls env x)"
    using w1(2) w2(2) w4(2) w5(2) w7(2) t(5) by (simp add: follows_def script_calls_def)
  moreover have "(step env)\<^sup>*\<^sup>* (Paused (Ask_Confirmation (presented ?p) ?p), w) (Finished (with_warnings t []), w7)"
    using w1(1) w2(1) s3 w4(1) w5(1) s6 w7(1) by (meson converse_rtranclp_into_rtranclp rtranclp.rtrancl_refl)
  moreover have "rr_warnings (with_warnings t []) = [propagation_warning]"
    using t(3) by (simp add: with_warnings_def first_of_each_def)
  ultimately show ?thesis using t(2)
    by (intro exI [of _ w7] exI [of _ "with_warnings t []"]) simp
qed

lemma approved_run:
  assumes "works env w" and "consistent_script env w x"
  shows "\<exists>v r. (step env)\<^sup>*\<^sup>* (Deliver Planner (User_Request (sc_text x)), w) (Finished r, v) \<and>
    rr_status r = Applied_Pending_Propagation \<and> rr_warnings r = [propagation_warning] \<and>
    wd_calls v = wd_calls w @ script_calls env x"
proof -
  obtain u where u: "(step env)\<^sup>*\<^sup>* (Deliver Planner (User_Request (sc_text x)), w)
      (Paused (Ask_Confirmation (presented (script_prepared env x)) (script_prepared env x)), u)"
      "follows env w (take 3 (script_calls env x)) u"
    using approved_run_first [OF assms] by blast
  then have "works env u" "wd_store u = wd_store w" by (simp_all add: follows_def)
  from approved_run_second [OF this(1) assms(2) this(2)] u show ?thesis
    by (metis append.assoc append_take_drop_id follows_def rtranclp_trans)
qed

end
