(* ===== verification/Workflow_Claims.thy ===== *)
theory Workflow_Claims
  imports Workflow_Runs
begin

text \<open>The properties of the workflow, and a run of it that meets their hypotheses.\<close>

section \<open>A run on the small console\<close>

definition ex_metadata :: manifest_metadata where
  "ex_metadata = \<lparr>mm_application_version = ''1'', mm_commit = None, mm_dirty = None, mm_python_version = ''3'',
     mm_framework_version = ''1'', mm_playwright_version = ''1'', mm_browser_version = None,
     mm_pydantic_version = ''2'', mm_ollama_version = None, mm_model_tag = None, mm_model_digest = None,
     mm_contract_digest = None, mm_system = ''os'', mm_start = Aware 0\<rparr>"

definition ex_audit_env :: audit_env where
  "ex_audit_env = \<lparr>en_hash = ex_sha, en_sha = ex_sha, en_iso = ex_iso, en_clock = ex_clock, en_run_id = ''r'',
     en_schema = JNull, en_metadata = ex_metadata\<rparr>"

definition ex_workflow :: workflow_env where
  "ex_workflow = \<lparr>we_audit = ex_audit_env, we_supply = (\<lambda>n. 7), we_prefix = ''GWA'', we_registry = ex_registry,
     we_email = ''A@x.com'', we_domain = ''x.com'', we_directory = ''runs/r'', we_lifecycle = Local_Lifecycle,
     we_clock = ex_clock\<rparr>"

definition ex_world :: world where
  "ex_world = \<lparr>wd_auditor = new_auditor (ex_writer []), wd_store = ex_store ex_registry, wd_ids = 0, wd_calls = []\<rparr>"

definition ex_identity :: preflight_identity where
  "ex_identity = \<lparr>pi_email = ''a@x.com'', pi_domain = ''X.com'', pi_ou = ''/''\<rparr>"

definition ex_script :: script where
  "ex_script = \<lparr>sc_text = ''block z.com'', sc_plan = ex_create,
     sc_preflight = \<lparr>pf_status = Ready, pf_identity = Some ex_identity, pf_reason = None, pf_login = None\<rparr>,
     sc_identity = ex_identity, sc_state = ex_state,
     sc_desired = \<lparr>dr_state = ex_created, dr_notice_affected = 0\<rparr>,
     sc_change = calculate_change_set ex_state ex_created, sc_approval = ''1'',
     sc_mutation = \<lparr>mr_status = Completed, mr_operation = ''create'', mr_ids = [], mr_error = None\<rparr>,
     sc_observed = ex_created, sc_verification = ex_verification ex_created\<rparr>"

text \<open>Answers for executors that ask nothing, or whose adapters fail.\<close>

definition ex_answers :: answers where
  "ex_answers = \<lparr>an_plan = Inl PlannerFailure, an_preflight = Inl UnknownPageState,
     an_state = Inl StateReadFailure, an_mutation = Inl MutationOutcomeUnknown\<rparr>"

lemma ex_works: "works ex_workflow ex_world"
  by (simp add: works_def sound_env_def healthy_def ex_workflow_def ex_audit_env_def ex_world_def ex_metadata_def
      new_auditor_def ex_writer_def ex_clock_def bounded_text_def)

lemma ex_created_verified: "verify_state ex_created (Some ex_created) = Inr (ex_verification ex_created)"
proof -
  have "state_differences ex_created ex_created = []"
    using state_differences_empty [of ex_created ex_created] by (simp add: same_configuration_def)
  moreover have "duplicate_rule_names ex_created = []"
    unfolding duplicate_rule_names_empty by (simp add: ex_created_def ex_defs managed_resource_names_def)
  ultimately show ?thesis by (simp add: verify_state_def make_verification_result_def ex_verification_def)
qed

lemma ex_consistent: "consistent_script ex_workflow ex_world ex_script"
proof -
  have "change_service_calculate (\<lambda>n. 7) ''GWA'' ex_create ex_state ex_registry 0 =
      (1, Inr (\<lparr>dr_state = ex_created, dr_notice_affected = 0\<rparr>, calculate_change_set ex_state ex_created))"
    using ex_create_run by (simp add: change_service_calculate_def identifiers_needed_def ex_create_def ex_plan_def)
  moreover have "has_mutations (calculate_change_set ex_state ex_created)"
    by (simp add: ex_changes_eq has_mutations_def)
  moreover have "make_request_text ''block z.com'' = Inr ''block z.com''" by code_simp
  moreover have "py_casefold ''a@x.com'' = py_casefold ''A@x.com''" "py_casefold ''X.com'' = py_casefold ''x.com''"
    by code_simp+
  moreover have "tp_status ex_create = Plan" by (simp add: ex_create_def ex_plan_def)
  ultimately show ?thesis
    using ex_created_verified ex_commit
    by (simp add: consistent_script_def ex_workflow_def ex_world_def ex_script_def ex_identity_def)
      (simp add: ex_state_def ex_verification_def)
qed

lemma ex_parts [simp]:
  "text_hash ex_workflow = ex_sha" "sc_change ex_script = calculate_change_set ex_state ex_created"
  "applied_sets (script_calls env x) = [sc_change x]"
  "ch_before (calculate_change_set ex_state ex_created) = ex_state"
  by (simp_all add: ex_workflow_def ex_audit_env_def ex_script_def script_calls_def calculate_change_set_fields)

lemma ex_reached:
  obtains r v where "reachable ex_workflow (Finished r, v)" "rr_status r = Applied_Pending_Propagation"
    "wd_calls v = script_calls ex_workflow ex_script"
proof -
  obtain r v where v: "(step ex_workflow)\<^sup>*\<^sup>* (Deliver Planner (User_Request (sc_text ex_script)), ex_world) (Finished r, v)"
      "rr_status r = Applied_Pending_Propagation" "wd_calls v = wd_calls ex_world @ script_calls ex_workflow ex_script"
    using approved_run [OF ex_works ex_consistent] by blast
  have "reachable ex_workflow (Deliver Planner (User_Request (sc_text ex_script)), ex_world)"
    using ex_consistent
    by (intro reachable_start) (auto simp: starts_def consistent_script_def ex_world_def new_auditor_def)
  from reachable_steps [OF this v(1)] show thesis
    using v(2,3) by (intro that) (simp_all add: ex_world_def)
qed

section \<open>What a run does to the console\<close>

text \<open>
  C8. The graph refines the abstract protocol: the calls of every reachable configuration are
  a run of the protocol, and the audit flag that decides whether a failed record stops the run
  is set exactly when the console may have been changed.
\<close>

theorem workflow_refines_protocol:
  assumes "reachable env (x, w)"
  shows "\<exists>q. protocol_run (text_hash env) (wd_calls w) = Some q \<and> written q = au_started (wd_auditor w)"
  using reachable_protocol [OF assms] by (auto simp: stands_def)

theorem workflow_refines_protocol_witness:
  "\<exists>(v :: world) q. protocol_run ex_sha (wd_calls v) = Some q \<and> written q = au_started (wd_auditor v) \<and>
     applied_sets (wd_calls v) = [calculate_change_set ex_state ex_created]"
proof -
  obtain r v where v: "reachable ex_workflow (Finished r, v)" "wd_calls v = script_calls ex_workflow ex_script"
    by (rule ex_reached)
  with workflow_refines_protocol [OF v(1)] show ?thesis by (intro exI [of _ v]) auto
qed

text \<open>
  C1. A change set reaches the console only when the operator approved it: an approval of
  exactly the digest of this change set and of the state it was calculated from was received,
  and the last call before the write is a read of a state that has the approved digest.
\<close>

theorem write_needs_approval:
  assumes "reachable env (x, w)" and "wd_calls w = us @ Apply_Call c r # vs"
  shows "\<exists>q a ws s. Confirmation_Call q a \<in> set us \<and> cf_approved a \<and> cq_change_set q = c \<and>
    cf_change_hash a = canonical_hash (text_hash env) (dump_change_set c) \<and>
    cf_before_hash a = canonical_hash (text_hash env) (dump_blocked_state (ch_before c)) \<and>
    (us = ws @ [Read_Call (Inr s)] \<or> us = ws @ [Verification_Read_Call (Inr s)]) \<and>
    canonical_hash (text_hash env) (dump_blocked_state s) = cf_before_hash a"
proof -
  obtain q where "protocol_run (text_hash env) (us @ Apply_Call c r # vs) = Some q"
    using reachable_protocol [OF assms(1)] assms(2) by (metis stands_def)
  from protocol_write [OF this] obtain p a ws s where "approved_for (text_hash env) us p a" "c = cq_change_set p"
      "us = ws @ [Read_Call (Inr s)] \<or> us = ws @ [Verification_Read_Call (Inr s)]" "approved_state (text_hash env) a s"
    by metis
  then show ?thesis
    by (intro exI [of _ p] exI [of _ a] exI [of _ ws] exI [of _ s])
      (auto simp: approved_for_def grants_def well_presented_def approved_state_def)
qed

theorem write_needs_approval_witness:
  "\<exists>(q :: confirmation_request) (a :: confirmation_response). cf_approved a \<and> cq_change_set q = calculate_change_set ex_state ex_created \<and>
     cf_before_hash a = canonical_hash ex_sha (dump_blocked_state ex_state)"
proof -
  obtain r v where v: "reachable ex_workflow (Finished r, v)" "wd_calls v = script_calls ex_workflow ex_script"
    by (rule ex_reached)
  have calls: "wd_calls v = take 5 (script_calls ex_workflow ex_script) @
      Apply_Call (sc_change ex_script) (Inr (sc_mutation ex_script)) #
      [Verification_Read_Call (Inr (sc_observed ex_script))]"
    using v(2) by (simp add: script_calls_def)
  from write_needs_approval [OF v(1) calls] show ?thesis
    unfolding ex_parts by blast
qed

text \<open>
  C6. Whatever the browser answers, a run applies at most two change sets, and they are the
  same change set: one approval, one write and at most one retry.
\<close>

theorem at_most_two_writes:
  assumes "reachable env (x, w)"
  shows "length (applied_sets (wd_calls w)) \<le> 2 \<and> (\<exists>c. set (applied_sets (wd_calls w)) \<subseteq> {c})"
proof -
  obtain q where "protocol_run (text_hash env) (wd_calls w) = Some q"
    using reachable_protocol [OF assms] by (metis stands_def)
  from protocol_bound [OF this] show ?thesis by (cases "applied_sets (wd_calls w)") auto
qed

theorem at_most_two_writes_witness:
  "\<exists>v :: world. wd_calls v = script_calls ex_workflow ex_script \<and> length (applied_sets (wd_calls v)) \<le> 2"
  using ex_reached at_most_two_writes by metis

text \<open>
  C7. The write-ahead rule: when a change set has been applied, the command that applies it is
  a file of the run directory, whatever records failed before or after.
\<close>

theorem writes_are_recorded_first:
  assumes "reachable env (x, w)" and "c \<in> set (applied_sets (wd_calls w))"
  shows "dict_get (aw_artifacts (au_writer (wd_auditor w))) ''mutation-command-1.json'' =
    Some (json_text (dump_change_set c))"
  using reachable_protocol [OF assms(1)] assms(2)
  by (auto simp: evidenced_def artifact_of_def command_name_def)

theorem writes_are_recorded_first_witness:
  "\<exists>v :: world. wd_calls v = script_calls ex_workflow ex_script \<and>
     dict_get (aw_artifacts (au_writer (wd_auditor v))) ''mutation-command-1.json'' =
       Some (json_text (dump_change_set (calculate_change_set ex_state ex_created)))"
proof -
  obtain r v where v: "reachable ex_workflow (Finished r, v)" "wd_calls v = script_calls ex_workflow ex_script"
    by (rule ex_reached)
  have "calculate_change_set ex_state ex_created \<in> set (applied_sets (wd_calls v))"
    using v(2) by simp
  from writes_are_recorded_first [OF v(1) this] v(2) show ?thesis by blast
qed

section \<open>How a run goes on and ends\<close>

text \<open>
  Every message of a run reaches exactly one executor, and one that takes its type: no
  message is lost, duplicated or rejected.
\<close>

theorem messages_reach_one_handler:
  assumes "reachable env (x, w)"
  shows "case x of Deliver n m \<Rightarrow> run_node env an n m \<noteq> None | Undelivered m \<Rightarrow> False | _ \<Rightarrow> True"
proof -
  obtain q where "holds (text_hash env) x q" using reachable_protocol [OF assms] by metis
  then show ?thesis
    by (cases x) (auto simp: run_node_def split: message.split)
qed

theorem messages_reach_one_handler_witness:
  "run_node ex_workflow ex_answers Planner (User_Request ''block z.com'') \<noteq> None"
proof -
  have "reachable ex_workflow (Deliver Planner (User_Request ''block z.com''), ex_world)"
    using ex_consistent
    by (intro reachable_start) (auto simp: starts_def consistent_script_def ex_world_def new_auditor_def ex_script_def)
  from messages_reach_one_handler [OF this] show ?thesis by simp
qed

text \<open>
  C15. The status of a finished run is backed by the calls it made. A run that reports the
  change applied ended on a read of a state that matches the expected state of the applied
  change set; one that reports a failure without change, after a write, ended on a read of the
  approved state or its last write was reported as changing nothing; the other statuses
  without change are reported only when nothing was applied.
\<close>

theorem reported_status_is_observed:
  assumes "reachable env (Finished r, w)"
  shows "case rr_status r of
      Applied_Pending_Propagation \<Rightarrow>
        (\<exists>us s c v. wd_calls w = us @ [Verification_Read_Call (Inr s)] \<and> set (applied_sets (wd_calls w)) = {c} \<and>
          verify_state (ch_after c) (Some s) = Inr v \<and> vr_status v = Matched)
    | Failed_Unchanged \<Rightarrow> applied_sets (wd_calls w) = [] \<or>
        (\<exists>us s q a m k. wd_calls w = us @ [Verification_Read_Call (Inr s)] \<and> Confirmation_Call q a \<in> set us \<and>
          protocol_run (text_hash env) (wd_calls w) = Some (Observed q a k m (Some s)) \<and>
          (canonical_hash (text_hash env) (dump_blocked_state s) = cf_before_hash a \<or> mr_status m = Unchanged))
    | Partially_Applied \<Rightarrow> applied_sets (wd_calls w) \<noteq> []
    | Indeterminate \<Rightarrow> applied_sets (wd_calls w) \<noteq> []
    | Applied_UI_Verified \<Rightarrow> False
    | Dry_Run_Preview_Ready \<Rightarrow> False
    | _ \<Rightarrow> applied_sets (wd_calls w) = []"
proof -
  obtain q where q: "stands env q w" "honest (text_hash env) (rr_status r) q"
      "history (text_hash env) (wd_calls w) q"
    using reachable_protocol [OF assms] by (metis holds.simps(5))
  have wr: "written q \<longleftrightarrow> applied_sets (wd_calls w) \<noteq> []" by (rule history_written [OF q(3)])
  have "rr_status r = Applied_Pending_Propagation \<Longrightarrow>
      \<exists>us s c v. wd_calls w = us @ [Verification_Read_Call (Inr s)] \<and> set (applied_sets (wd_calls w)) = {c} \<and>
        verify_state (ch_after c) (Some s) = Inr v \<and> vr_status v = Matched"
    using q(2,3) by (fastforce simp: honest_def read_matches_def)
  moreover have "rr_status r = Failed_Unchanged \<Longrightarrow> applied_sets (wd_calls w) = [] \<or>
        (\<exists>us s q a m k. wd_calls w = us @ [Verification_Read_Call (Inr s)] \<and> Confirmation_Call q a \<in> set us \<and>
          protocol_run (text_hash env) (wd_calls w) = Some (Observed q a k m (Some s)) \<and>
          (canonical_hash (text_hash env) (dump_blocked_state s) = cf_before_hash a \<or> mr_status m = Unchanged))"
    using q wr by (fastforce simp: honest_def read_unchanged_def stands_def approved_for_def approved_state_def)
  ultimately show ?thesis using q(2) wr by (cases "rr_status r") (simp_all add: honest_def)
qed

theorem reported_status_is_observed_witness:
  "\<exists>s v. s = ex_created \<and> verify_state ex_created (Some s) = Inr v \<and> vr_status v = Matched"
proof -
  obtain r v where v: "reachable ex_workflow (Finished r, v)" "rr_status r = Applied_Pending_Propagation"
      "wd_calls v = script_calls ex_workflow ex_script"
    by (rule ex_reached)
  from reported_status_is_observed [OF v(1)] v(2,3)
  obtain us s c x where "script_calls ex_workflow ex_script = us @ [Verification_Read_Call (Inr s)]"
      "{sc_change ex_script} = {c}" "verify_state (ch_after c) (Some s) = Inr x" "vr_status x = Matched"
    by auto
  then show ?thesis by (auto simp: script_calls_def ex_script_def calculate_change_set_fields)
qed

text \<open>
  C17. The executors never run on without end: from any configuration, and whatever the
  planner and the browser answer, at most nine executors run before the run asks the operator,
  finishes or fails.
\<close>

theorem runs_settle:
  "case fst (run_auto env an 9 (x, w)) of Deliver n m \<Rightarrow> False | _ \<Rightarrow> True"
proof -
  have "bounded_by (Suc 9) x"
  proof (cases x)
    case (Deliver n m)
    then show ?thesis by (cases m) auto
  qed simp_all
  then have "bounded_by 1 (fst (run_auto env an 9 (x, w)))" using run_auto_settles [of 9 "(x, w)"] by simp
  moreover have "rank m \<noteq> 0" for m using rank_pos [of m] by simp
  ultimately show ?thesis
    by (cases "fst (run_auto env an 9 (x, w))") (simp_all add: bounded_by_def)
qed

text \<open>
  C16. An approved change goes through: when the file system works and the digests, the clock
  and the registry are in order, the planner returns a plan, the preflight identifies the
  configured administrator, the change is not empty, the operator approves what is shown, the
  state has not drifted, the write is reported complete and the fresh read matches, then the
  run finishes and reports the change applied, after exactly these calls.
\<close>

theorem approved_change_completes:
  assumes "works env w" and "consistent_script env w x"
  shows "\<exists>v r. (step env)\<^sup>*\<^sup>* (Deliver Planner (User_Request (sc_text x)), w) (Finished r, v) \<and>
    rr_status r = Applied_Pending_Propagation \<and> rr_warnings r = [propagation_warning] \<and>
    wd_calls v = wd_calls w @ script_calls env x"
  using assms by (rule approved_run)

theorem approved_change_completes_witness:
  "\<exists>v r. (step ex_workflow)\<^sup>*\<^sup>* (Deliver Planner (User_Request ''block z.com''), ex_world) (Finished r, v) \<and>
    rr_status r = Applied_Pending_Propagation"
  using approved_change_completes [OF ex_works ex_consistent] by (auto simp: ex_script_def)

section \<open>Corner cases and the terminal evidence\<close>

text \<open>
  When the approved state has a target unit other than the root and nothing drifted, the
  drift check does not end in a terminal message: the exception leaves the executor, the run
  fails without its terminal evidence.
\<close>

theorem other_unit_escapes:
  assumes "bs_ou s \<noteq> ''/''" and "pc_before_hash (ap_prepared ap) = canonical_hash (text_hash env) (dump_blocked_state s)"
  shows "run_deliver env an Drift (Fresh ap s) w = (Failed RootOuNotConfirmed, w)"
  using assms
  by (simp add: run_deliver_def run_node_def drift_handle_def Let_def state_has_drifted_def validate_confirmation_def
      require_root_ou_def after_act_def act_defs)

definition ex_unit_state :: blocked_state where
  "ex_unit_state = ex_state\<lparr>bs_ou := ''/Sales''\<rparr>"

definition ex_unit_prepared :: prepared_message where
  "ex_unit_prepared = prepared_of ex_workflow ex_create ex_identity ex_unit_state
     \<lparr>dr_state = ex_created, dr_notice_affected = 0\<rparr> (calculate_change_set ex_unit_state ex_created)"

theorem other_unit_escapes_witness:
  "run_deliver ex_workflow ex_answers Drift
     (Fresh \<lparr>ap_prepared = ex_unit_prepared, ap_response = approval ex_unit_prepared ''1''\<rparr> ex_unit_state) ex_world =
   (Failed RootOuNotConfirmed, ex_world)"
  by (rule other_unit_escapes) (simp_all add: ex_unit_prepared_def ex_unit_state_def)

text \<open>
  C31. What the finalisation writes is self-consistent: when it returns, the manifest it wrote
  records the reported status and verifies against the files of the run directory.
\<close>

theorem finalized_run_verifies:
  assumes "finalize env r a = (Inr (), b)"
  shows "\<exists>m. dict_get (aw_artifacts (au_writer b)) ''manifest.json'' =
      Some (json_pretty 0 (dump_manifest (en_iso env) (en_metadata env) m) @ line_end) \<and>
    mn_status m = rr_status r \<and> make_manifest m = Inr m \<and>
    verify_manifest (en_sha env) (writer_files (au_writer b)) m = Inr []"
proof -
  obtain c ds e m where d: "digest_artifacts (en_sha env) (writer_files (au_writer c)) = Inr ds"
      "make_manifest (manifest_of (en_metadata env) e r ds) = Inr m"
      "put_artifact (''manifest.json'', json_pretty 0 (dump_manifest (en_iso env) (en_metadata env) m) @ line_end) c = (Inr (), b)"
    using assms by (auto simp: finalize_def andthen_Inr_iff bind_Inr_iff)
  have m: "m = manifest_of (en_metadata env) e r ds" using d(2) by (auto simp: make_manifest_def split: if_splits)
  have "digest_artifacts (en_sha env) (writer_files (au_writer b)) = Inr ds"
    using put_artifact_files [OF _ d(3)] digest_artifacts_manifest [of "''manifest.json''"] d(1)
    by (simp add: is_manifest_file_def)
  then have "verify_manifest (en_sha env) (writer_files (au_writer b)) m = Inr []"
    by (rule verify_own_digests) (simp add: m manifest_of_def)
  moreover have "make_manifest m = Inr m" using d(2) m by simp
  moreover have "mn_status m = rr_status r" by (simp add: m manifest_of_def)
  ultimately show ?thesis using put_artifact_put [OF _ d(3)] by (auto simp: artifact_of_def)
qed

definition ex_result :: run_result where
  "ex_result = plain_result No_Change_Required None"

theorem finalized_run_verifies_witness:
  "\<exists>b m. finalize ex_audit_env ex_result (new_auditor (ex_writer [])) = (Inr (), b) \<and>
     verify_manifest ex_sha (writer_files (au_writer b)) m = Inr [] \<and> mn_status m = No_Change_Required"
proof -
  have "healthy ex_audit_env (new_auditor (ex_writer []))" "sound_env ex_audit_env"
    using ex_works by (simp_all add: works_def ex_workflow_def ex_world_def)
  from finalize_ok [OF this, of ex_result]
  obtain b where b: "finalize ex_audit_env ex_result (new_auditor (ex_writer [])) = (Inr (), b)"
    by (cases "finalize ex_audit_env ex_result (new_auditor (ex_writer []))") (auto simp: wp_def recorded_def)
  from finalized_run_verifies [OF b] b show ?thesis by (auto simp: ex_result_def ex_audit_env_def)
qed

end
