(* ===== verification/Approval_Claims.thy ===== *)
theory Approval_Claims
  imports Approvals Workflow_Claims
begin

text \<open>The properties of previews and approvals, with a dry run that meets their hypotheses.\<close>

section \<open>A dry run that completes\<close>

lemma wp_load_registry:
  "st_faults (wd_store w) = [] \<Longrightarrow> wp (on_store load_registry) Q w \<longleftrightarrow>
     Q (Inr (case st_registry (wd_store w) of None \<Rightarrow> empty_registry | Some g \<Rightarrow> g)) w"
  by (simp add: wp_def on_store_def load_registry_def act_defs next_fault_def)

lemma works_calls_auditor [simp]:
  "works env (v\<lparr>wd_calls := x, wd_auditor := a\<rparr>) = works env (v\<lparr>wd_auditor := a\<rparr>)"
  by (simp add: works_def)

lemma dry_run_runs:
  assumes "works env w" and "st_faults (wd_store w) = []" and "an_preflight an = Inr p"
    and "preflight_block_reason (we_email env) (we_domain env) p = None" and "an_state an = Inr s"
    and "change_service_calculate (we_supply env) (we_prefix env) plan s
      (case st_registry (wd_store w) of None \<Rightarrow> empty_registry | Some g \<Rightarrow> g) (wd_ids w) = (k, Inr (d, c))"
  shows "wp (dry_run_preview env an plan) (\<lambda>r v. \<exists>x. r = Inr x \<and>
    dy_status x = (if has_mutations c then Preview_Ready else Preview_No_Change) \<and> dy_change x = Some c) w"
proof -
  have calculated: "wp (calculate_change (env\<lparr>we_registry := case st_registry (wd_store w) of None \<Rightarrow> empty_registry | Some g \<Rightarrow> g\<rparr>) plan s) Q v \<longleftrightarrow>
      Q (Inr (d, c)) (v\<lparr>wd_ids := k\<rparr>)" if "wd_ids v = wd_ids w" for Q v
    using assms(6) that by (simp add: wp_def calculate_change_def)
  note records = records_ok_before [OF _ works_sound [OF assms(1)]]
  have prepared: "healthy (we_audit env) a \<Longrightarrow> wp (record_prepared_change (we_audit env)
      \<lparr>pc_plan = plan, pc_current = s, pc_desired = d, pc_change = c,
        pc_plan_hash = canonical_hash (text_hash env) (dump_task_plan plan),
        pc_before_hash = canonical_hash (text_hash env) (dump_blocked_state s),
        pc_change_hash = canonical_hash (text_hash env) (dump_change_set c)\<rparr>) (recorded (we_audit env) a) a" for a
    by (rule records(5)) (simp_all add: digests_def digest_hash [OF assms(1)])
  show ?thesis
    using assms(1-5) digest_hash [OF assms(1)] calculated records(2-4) prepared
    by (auto simp: dry_run_preview_def dry_run_calculation_def wp_simps Let_def wp_load_registry
        make_dry_run_result_def digest_or_none_def ask_def intro!: wp_works)
qed

definition ex_dry_answers :: answers where
  "ex_dry_answers = ex_answers\<lparr>an_preflight := Inr \<lparr>pf_status = Ready, pf_identity = Some ex_identity,
     pf_reason = None, pf_login = None\<rparr>, an_state := Inr ex_state\<rparr>"

lemma ex_dry_run:
  "\<exists>r v. dry_run_preview ex_workflow ex_dry_answers ex_create ex_world = (Inr r, v) \<and>
     dy_status r = Preview_Ready \<and> dy_change r = Some (calculate_change_set ex_state ex_created)"
proof -
  note consistent = ex_consistent [unfolded consistent_script_def]
  have "change_service_calculate (\<lambda>n. 7) ''GWA'' ex_create ex_state ex_registry 0 =
      (1, Inr (\<lparr>dr_state = ex_created, dr_notice_affected = 0\<rparr>, calculate_change_set ex_state ex_created))"
    using ex_create_run by (simp add: change_service_calculate_def identifiers_needed_def ex_create_def ex_plan_def)
  note this [simp]
  have "wp (dry_run_preview ex_workflow ex_dry_answers ex_create) (\<lambda>r v. \<exists>x. r = Inr x \<and>
      dy_status x = (if has_mutations (calculate_change_set ex_state ex_created) then Preview_Ready else Preview_No_Change) \<and>
      dy_change x = Some (calculate_change_set ex_state ex_created)) ex_world"
    by (rule dry_run_runs [OF ex_works, where k = 1 and d = "\<lparr>dr_state = ex_created, dr_notice_affected = 0\<rparr>"])
      (use consistent in \<open>auto simp: ex_dry_answers_def ex_workflow_def ex_world_def ex_store_def ex_script_def
         preflight_block_reason_def\<close>)
  moreover have "has_mutations (calculate_change_set ex_state ex_created)"
    by (simp add: ex_changes_eq has_mutations_def)
  ultimately show ?thesis by (cases "dry_run_preview ex_workflow ex_dry_answers ex_create ex_world") (auto simp: wp_def)
qed

section \<open>Previews\<close>

text \<open>
  C32. A dry run is read-only and its evidence is exact: it asks for a preflight and at most one
  read; a preview that is not blocked rests on a ready preflight of the configured
  administrator and carries the state that was read, the change calculated on it with the
  registry of the store, and their digests; a blocked one carries no change and says why.
\<close>

theorem dry_run_is_exact:
  assumes "dry_run_preview env an plan w = (Inr r, v)"
  shows "\<exists>cs. wd_calls v = wd_calls w @ cs \<and> read_only cs \<and> dy_plan r = plan \<and>
    dy_plan_hash r = canonical_hash (text_hash env) (dump_task_plan plan) \<and>
    (if dy_status r = Preview_Blocked then dy_change r = None \<and> given (dy_reason r)
     else \<exists>s g d c p n. exact_evidence (text_hash env) g s d c r \<and> an_state an = Inr s \<and>
       cs = [Preflight_Call (Inr p), Read_Call (Inr s)] \<and>
       preflight_block_reason (we_email env) (we_domain env) p = None \<and>
       g = (case st_registry (wd_store w) of None \<Rightarrow> empty_registry | Some g \<Rightarrow> g) \<and>
       snd (change_service_calculate (we_supply env) (we_prefix env) plan s g n) = Inr (d, c))"
  using dry_run_preview_cases [OF assms] by (fastforce split: if_splits)

theorem dry_run_is_exact_witness:
  "\<exists>r v cs. dry_run_preview ex_workflow ex_dry_answers ex_create ex_world = (Inr r, v) \<and>
     dy_status r = Preview_Ready \<and> wd_calls v = wd_calls ex_world @ cs \<and> read_only cs"
proof -
  obtain r v where r: "dry_run_preview ex_workflow ex_dry_answers ex_create ex_world = (Inr r, v)"
      "dy_status r = Preview_Ready"
    using ex_dry_run by blast
  from dry_run_is_exact [OF r(1)] r show ?thesis by blast
qed

section \<open>Approvals\<close>

text \<open>
  C10. Whatever requests the approval service gets and in whatever order, an approval it grants
  was issued before for the same run and not replaced or spent since, for a preview that is
  ready; it is granted before it expires, on the exact phrase of the run, and carries the three
  digests of that preview. So one preview leads to at most one approval.
\<close>

theorem approval_is_single_use:
  assumes "serve (issue_approval ttl) approve_run approval_upkeep_step xs [] = (us @ Spent k phrase r now # vs, d)"
  shows "\<exists>past preview t since. us = past @ Issued k preview t # since \<and> k \<notin> event_run ` set since \<and>
    dy_status preview = Preview_Ready \<and> time_reached now (plus_seconds t ttl) = Inr False \<and>
    py_strip phrase = apply_phrase k \<and> cf_approved r \<and> cf_plan_hash r = dy_plan_hash preview \<and>
    dy_before_hash preview = Some (cf_before_hash r) \<and> dy_change_hash preview = Some (cf_change_hash r)"
proof -
  from run_approval.granted_once [OF assms] obtain past preview t since a
    where "us = past @ Issued k preview t # since" "k \<notin> event_run ` set since"
      "made_for ttl k preview t a" "spent_as a phrase r now"
    by (auto simp: run_approval.licence_def run_approval.standing_def)
  then show ?thesis
    by (intro exI [of _ past] exI [of _ preview] exI [of _ t] exI [of _ since])
      (auto simp: made_for_def spent_as_def)
qed

definition ex_preview :: dry_run_result where
  "ex_preview = \<lparr>dy_status = Preview_Ready, dy_plan = ex_create, dy_current = Some ex_state,
     dy_desired = Some ex_created, dy_change = Some (calculate_change_set ex_state ex_created), dy_impact = None,
     dy_plan_hash = ex_sha [], dy_before_hash = Some (ex_sha ''1''), dy_change_hash = Some (ex_sha ''2''),
     dy_reason = None\<rparr>"

definition ex_response :: confirmation_response where
  "ex_response = \<lparr>cf_approved = True, cf_approval_id = ''1'', cf_plan_hash = ex_sha [],
     cf_before_hash = ex_sha ''1'', cf_change_hash = ex_sha ''2''\<rparr>"

lemma ex_served:
  "serve (issue_approval 60) approve_run approval_upkeep_step
     [Issue ''ab'' ex_preview (Aware 0), Approve ''ab'' '' APPLY AB '' True ''1'' (Aware 1),
      Approve ''ab'' ''APPLY AB'' True ''1'' (Aware 2)] [] =
   ([Issued ''ab'' ex_preview (Aware 0), Spent ''ab'' '' APPLY AB '' ex_response (Aware 1)], [])"
proof -
  have "apply_phrase ''ab'' = ''APPLY AB''" "py_strip '' APPLY AB '' = ''APPLY AB''" "is_ascii ''APPLY AB''"
    by code_simp+
  then show ?thesis
    by (simp add: issue_approval_def approve_run_def ex_preview_def ex_response_def make_pending_approval_def
        make_confirmation_response_def phrase_accepted_def compare_digest_def act_defs)
qed

theorem approval_is_single_use_witness:
  "\<exists>(preview :: dry_run_result) t. dy_status preview = Preview_Ready \<and> time_reached (Aware 1) (plus_seconds t 60) = Inr False \<and>
     cf_plan_hash ex_response = dy_plan_hash preview"
proof -
  have "serve (issue_approval 60) approve_run approval_upkeep_step
     [Issue ''ab'' ex_preview (Aware 0), Approve ''ab'' '' APPLY AB '' True ''1'' (Aware 1),
      Approve ''ab'' ''APPLY AB'' True ''1'' (Aware 2)] [] =
     ([Issued ''ab'' ex_preview (Aware 0)] @ Spent ''ab'' '' APPLY AB '' ex_response (Aware 1) # [], [])"
    using ex_served by simp
  from approval_is_single_use [OF this] show ?thesis by blast
qed

text \<open>The same of the compliance service, and of the permits at the browser.\<close>

lemma compliance_approval_is_single_use:
  assumes "serve (issue_compliance_approval H ttl) approve_compliance no_upkeep xs [] = (us @ Spent k phrase p now # vs, d)"
  shows "\<exists>past preview t since. us = past @ Issued k preview t # since \<and> k \<notin> event_run ` set since \<and>
    cd_status preview = Preview_Ready \<and> time_reached now (plus_seconds t ttl) = Inr False \<and>
    py_strip phrase = apply_phrase k \<and> pe_plan_hash p = cd_plan_hash preview \<and>
    mutation_operations (cd_plan preview) = [pe_operation p]"
proof -
  from compliance_approval.granted_once [OF assms] obtain past preview t since a
    where "us = past @ Issued k preview t # since" "k \<notin> event_run ` set since"
      "compliance_made_for H ttl k preview t a" "permit_for a phrase p now"
    by (auto simp: compliance_approval.licence_def compliance_approval.standing_def)
  then show ?thesis
    by (intro exI [of _ past] exI [of _ preview] exI [of _ t] exI [of _ since])
      (auto simp: compliance_made_for_def permit_for_def)
qed

lemma permit_dispatched_once:
  "execute_permit page rule permit consumed = (r, v) \<Longrightarrow>
     execute_permit page' rule' (permit\<lparr>pe_operation := x\<rparr>) v = (Inl StaleConfirmation, v)"
  by (auto simp: execute_permit_def act_defs split: if_splits)

end
