(* ===== verification/Attended_Claims.thy ===== *)
theory Attended_Claims
  imports Attended_Properties Approval_Claims
begin

text \<open>The properties of attended runs, and a run of the service that meets their hypotheses.\<close>

section \<open>An audit package on a working file system\<close>

definition ready :: "attended_audit \<Rightarrow> bool" where
  "ready a \<longleftrightarrow> aw_disk (xa_writer a) = [] \<and> 0 \<le> aw_last_sequence (xa_writer a) \<and> bounded_text (xa_run_id a) \<and>
     (aw_run_id (xa_writer a) = None \<or> aw_run_id (xa_writer a) = Some (xa_run_id a))"

lemma put_text_ok: "ready a \<Longrightarrow> safe_target p = Inr [q] \<Longrightarrow> wp (put_text p v) (\<lambda>r b. r = Inr () \<and> ready b) a"
  by (simp add: put_text_def wp_def on_run_writer_def write_text_def act_defs next_disk_def Let_def ready_def)

lemma attended_append_ok:
  assumes "ready a" and "is_aware (te_clock env (xa_ticks a))" "bounded_text ty" "bounded_text co" "bounded_text ou"
    "digest_or_none p" "digest_or_none b" "digest_or_none c"
  shows "wp (attended_append env ty co ou p b c) (\<lambda>r b. r = Inr () \<and> ready b) a"
proof -
  define e where "e = \<lparr>ev_run_id = xa_run_id a, ev_sequence = next_sequence (xa_writer a),
    ev_timestamp = te_clock env (xa_ticks a), ev_type = ty, ev_component = co, ev_outcome = ou, ev_plan_hash = p,
    ev_before_hash = b, ev_change_hash = c, ev_ownership_id = None, ev_ou = None, ev_error = None,
    ev_correlation = None, ev_previous = None, ev_hash = None\<rparr>"
  have "make_event e = Inr e"
    using assms by (simp add: make_event_def e_def ready_def next_sequence_def digest_or_none_def)
  moreover have "acceptable e (xa_writer a)"
    using assms(1) by (auto simp: acceptable_def e_def ready_def next_sequence_def)
  moreover have "ev_run_id e = xa_run_id a" "0 \<le> ev_sequence e"
    using assms(1) by (simp_all add: e_def ready_def next_sequence_def)
  ultimately show ?thesis
    using assms(1)
    by (simp add: attended_append_def wp_def bind_def andthen_def attended_now_def on_run_writer_def
        append_event_unfold next_disk_def ready_def flip: e_def)
qed

lemma preview_names:
  "safe_target ''plan.json'' = Inr [''plan.json'']" "safe_target ''preview.json'' = Inr [''preview.json'']"
  "safe_target ''before.json'' = Inr [''before.json'']" "safe_target ''expected_after.json'' = Inr [''expected_after.json'']"
  "safe_target ''change_set.json'' = Inr [''change_set.json'']"
  by code_simp+

lemma wp_step: "wp m (\<lambda>r b. r = Inr () \<and> P b) a \<Longrightarrow> (\<And>b. P b \<Longrightarrow> wp n Q b) \<Longrightarrow> wp (andthen m n) Q a"
  unfolding wp_andthen by (erule wp_mono) auto

lemma record_preview_ok:
  assumes "ready a" and "\<And>n. is_aware (te_clock env n)" and "preview_evidence p \<noteq> None"
    and "sha256_digest (av_plan_hash p)" "sha256_digest (av_before_hash p)" "sha256_digest (av_change_hash p)"
  shows "wp (attended_record_preview env p) (\<lambda>r b. r = Inr () \<and> ready b) a"
proof -
  obtain x y z where e: "preview_evidence p = Some (x, y, z)" using assms(3) by auto
  show ?thesis unfolding attended_record_preview_def e option.case prod.case
    by (rule wp_step put_text_ok preview_names attended_append_ok assms | assumption |
        (simp add: bounded_text_def digest_or_none_def assms; fail))+
qed

section \<open>A run of the service\<close>

definition ex_service :: service_env where
  "ex_service = \<lparr>te_hash = ex_sha, te_sha = ex_sha, te_iso = ex_iso, te_clock = (\<lambda>n. Aware 0), te_supply = (\<lambda>n. 7),
     te_re2 = (\<lambda>r. True), te_facts = ex_metadata, te_directory_exists = (\<lambda>k. False), te_disk = (\<lambda>k. [])\<rparr>"

definition ex_settings :: attended_settings where
  "ex_settings = \<lparr>ts_mode = Live_Mode, ts_email = Some ''a@x.com'', ts_domain = Some ''x.com'', ts_prefix = ''GWA'',
     ts_ttl = 60, ts_model = ''m''\<rparr>"

definition ex_browser :: browser_answers where
  "ex_browser = \<lparr>ba_enter = Inr (), ba_standard = Inr ex_state, ba_compliance = Inl UnknownPageState,
     ba_apply = Inr \<lparr>br_completed = True, br_steps = [], br_page = Page_Senders_Section\<rparr>,
     ba_standard_after = Inr ex_created, ba_compliance_after = Inl UnknownPageState, ba_exit = Inr ()\<rparr>"

definition ex_front :: attended_world where
  "ex_front = \<lparr>tw_pending = [], tw_audits = (\<lambda>k. \<lparr>xa_run_id = k, xa_writer = ex_writer [], xa_metadata = ex_metadata,
     xa_finalized = False, xa_ticks = 0\<rparr>), tw_store = ex_store empty_registry, tw_ids = 0, tw_ticks = 0,
     tw_started = False, tw_log = []\<rparr>"

definition ex_run_id :: string where "ex_run_id = uuid_hex 7"

definition ex_shown :: attended_preview where
  "ex_shown = (bare_preview ex_service ex_settings ex_run_id (Aware 0) ex_create Blocked_Senders
       (dump_blocked_state ex_state) (dump_change_set (calculate_change_set ex_state ex_created)))
     \<lparr>av_standard_before := Some ex_state, av_standard_after := Some ex_created,
      av_standard_change := Some (calculate_change_set ex_state ex_created)\<rparr>"

lemma ex_run_identifier: "run_identifier ex_run_id" "bounded_text ex_run_id" "apply_phrase ex_run_id = ''APPLY 0000''"
  "is_ascii ''APPLY 0000''" "py_strip ''APPLY 0000'' = ''APPLY 0000''"
  by code_simp+

lemma ex_shown_simps [simp]:
  "av_run_id ex_shown = ex_run_id" "av_mode ex_shown = Live_Mode" "av_surface ex_shown = Blocked_Senders"
  "av_plan ex_shown = ex_create" "av_phrase ex_shown = Some ''APPLY 0000''" "av_expires ex_shown = Some (Aware 60000000)"
  "av_standard_before ex_shown = Some ex_state" "av_standard_after ex_shown = Some ex_created"
  "av_standard_change ex_shown = Some (calculate_change_set ex_state ex_created)"
  "av_plan_hash ex_shown = canonical_hash ex_sha (dump_task_plan ex_create)"
  "av_before_hash ex_shown = canonical_hash ex_sha (dump_blocked_state ex_state)"
  "av_change_hash ex_shown = canonical_hash ex_sha (dump_change_set (calculate_change_set ex_state ex_created))"
  "av_has_mutations ex_shown" "preview_evidence ex_shown \<noteq> None"
  by (simp_all add: ex_shown_def bare_preview_def approval_evidence_def ex_settings_def ex_service_def ex_clock_def
      ex_run_identifier av_has_mutations_def has_mutations_def ex_changes_eq preview_evidence_def)

lemma ex_standard_preview:
  "standard_preview ex_service ex_settings ex_run_id (Aware 0) ex_create ex_state ex_created
     (calculate_change_set ex_state ex_created) = Inr ex_shown"
  by (simp add: standard_preview_def ex_shown_def make_attended_preview_def bare_preview_def approval_evidence_def
      ex_settings_def ex_service_def ex_clock_def ex_run_identifier canonical_hash_def)

lemma ex_calculated:
  "change_service_calculate (\<lambda>n. 7) ''GWA'' ex_create ex_state empty_registry n =
     (Suc n, Inr (\<lparr>dr_state = ex_created, dr_notice_affected = 0\<rparr>, calculate_change_set ex_state ex_created))"
proof -
  have "calculate_desired_state ex_state ex_create empty_registry [7] ''GWA'' =
     Inr \<lparr>dr_state = ex_created, dr_notice_affected = 0\<rparr>"
    by (simp add: calculate_defs ex_defs ex_create_def ex_created_def empty_registry_def sort_by_hex sort_key_simps)
  then show ?thesis
    by (simp add: change_service_calculate_def identifiers_needed_def ex_create_def ex_plan_def)
qed

definition ex_expected :: blocked_state where
  "ex_expected = \<lparr>bs_ou = ''/'', bs_rules = [], bs_lists = [], bs_unmanaged = []\<rparr>"

lemma ex_snapshot: "standard_snapshot empty_registry ''/'' = Inr ex_expected"
  by (simp add: standard_snapshot_def empty_registry_def make_blocked_state_def ex_expected_def Let_def List.map_filter_simps)

lemma ex_in_session:
  "preview_in_session ex_service ex_browser ex_settings ex_run_id (Aware 0) ex_create Blocked_Senders empty_registry w =
     (Inr ex_shown, w\<lparr>tw_log := tw_log w @ [Standard_Read ex_run_id ex_expected (Inr ex_state)], tw_ids := Suc (tw_ids w)\<rparr>)"
proof -
  have unit: "target_unit ex_create empty_registry = Inr ''/''"
    by (simp add: target_unit_def ex_create_def ex_plan_def action_unit_def one_of_def)
  have "calculate_standard ex_service ex_settings ex_create ex_state empty_registry v =
      (Inr (ex_created, calculate_change_set ex_state ex_created), v\<lparr>tw_ids := Suc (tw_ids v)\<rparr>)" for v
    by (simp add: calculate_standard_def ex_service_def ex_settings_def ex_calculated)
  then show ?thesis
    by (simp add: preview_in_session_def unit ex_snapshot bind_def browse_def note_event_def andthen_def ex_browser_def
        ex_standard_preview)
qed

lemma ex_presented:
  "\<exists>w. attend ex_service (Do_Preview ex_browser ex_settings ex_create None None) ex_front = w \<and>
     tw_log w = [Standard_Read ex_run_id ex_expected (Inr ex_state), Presented ex_run_id ex_shown] \<and>
     tw_pending w = [(ex_run_id, \<lparr>pr_settings = ex_settings, pr_preview = ex_shown\<rparr>)] \<and>
     tw_store w = ex_store empty_registry"
proof -
  have surface: "plan_surface ex_create = Inr Blocked_Senders"
    by (simp add: plan_surface_def ex_create_def ex_plan_def)
  define d where "d = ex_metadata\<lparr>mm_model_tag := Some ''m'', mm_start := Aware 0\<rparr>"
  have d: "make_metadata d = Inr d" by (simp add: make_metadata_def d_def ex_metadata_def ex_clock_def digest_or_none_def)
  define a where "a = \<lparr>xa_run_id = ex_run_id, xa_writer = \<lparr>aw_stream = [], aw_artifacts = [], aw_last_sequence = 0,
    aw_last_hash = None, aw_run_id = None, aw_disk = []\<rparr>, xa_metadata = d, xa_finalized = False, xa_ticks = 1\<rparr>"
  have "ready a" by (simp add: a_def ready_def ex_run_identifier)
  then have "wp (attended_record_preview (attended_env.truncate ex_service) ex_shown) (\<lambda>r b. r = Inr () \<and> ready b) a"
    by (rule record_preview_ok) (simp_all add: ex_service_def attended_env.defs ex_clock_def canonical_hash_def)
  then obtain b where b: "attended_record_preview (attended_env.truncate ex_service) ex_shown a = (Inr (), b)"
    by (cases "attended_record_preview (attended_env.truncate ex_service) ex_shown a") (auto simp: wp_def)
  have audit: "new_audit ex_service ex_settings ex_run_id (Aware 0) w = (Inr (), w\<lparr>tw_audits := (tw_audits w)(ex_run_id := a)\<rparr>)"
    if "tw_ticks w = 1" for w
    using that d by (simp add: new_audit_def ex_service_def ex_settings_def new_writer_def bind_def a_def d_def)
  have again [simp]: "a\<lparr>xa_ticks := Suc 0\<rparr> = a" by (simp add: a_def)
  have "\<exists>w. attended_preview_run ex_service ex_browser ex_settings ex_create None None ex_front = (Inr ex_shown, w) \<and>
     tw_log w = [Standard_Read ex_run_id ex_expected (Inr ex_state), Presented ex_run_id ex_shown] \<and>
     tw_pending w = [(ex_run_id, \<lparr>pr_settings = ex_settings, pr_preview = ex_shown\<rparr>)] \<and>
     tw_store w = ex_store empty_registry"
    using b
    by (simp add: attended_preview_run_def Let_def bind_def andthen_def next_uuid_def system_now_def surface audit ex_in_session
        on_registry_def ex_front_def ex_store_def load_registry_def next_fault_def get_def on_exception_def catch_def
        with_session_def on_audit_def put_pending_def note_event_def given_def
        ex_settings_def [THEN arg_cong, of ts_mode] ex_settings_def [THEN arg_cong, of ts_email]
        ex_settings_def [THEN arg_cong, of ts_domain] ex_service_def [THEN arg_cong, of te_supply]
        ex_service_def [THEN arg_cong, of te_clock] ex_browser_def [THEN arg_cong, of ba_enter]
        ex_browser_def [THEN arg_cong, of ba_exit] flip: ex_run_id_def)
  then show ?thesis by auto
qed

definition ex_permit :: admin_permit where
  "ex_permit = \<lparr>dp_approval_id = ex_run_id, dp_plan_hash = av_plan_hash ex_shown, dp_before_hash = av_before_hash ex_shown,
     dp_change_hash = av_change_hash ex_shown, dp_ou = ''/'', dp_target = 7, dp_surface = Blocked_Senders, dp_approved = True\<rparr>"

lemma ex_permitted: "attended_permit ex_service ex_shown w = (Inr ex_permit, w\<lparr>tw_ids := Suc (tw_ids w)\<rparr>)"
proof -
  have "preview_unit ex_shown = Inr ''/''" by (simp add: preview_unit_def ex_created_def ex_defs)
  moreover have "preview_target ex_shown = Inr 7"
    by (simp add: preview_target_def ex_create_def ex_plan_def ex_changes_eq ex_rule7_def ex_rule_def List.map_filter_simps)
  moreover have "make_admin_permit ex_permit = Inr ex_permit"
    by (simp add: make_admin_permit_def ex_permit_def ex_run_id_def canonical_hash_def)
  ultimately show ?thesis
    by (simp add: attended_permit_def next_uuid_def bind_def ex_permit_def ex_service_def [THEN arg_cong, of te_supply]
        flip: ex_run_id_def)
qed

lemma ex_executed_in_session:
  "\<exists>u. execute_in_session ex_service ex_browser ex_run_id ex_shown empty_registry w =
       (Inr (Inr (canonical_hash ex_sha (dump_blocked_state ex_state), \<lparr>br_completed = True, br_steps = [], br_page = Page_Senders_Section\<rparr>,
          Standard_State ex_created)), u) \<and>
     tw_log u = tw_log w @ [Standard_Read ex_run_id ex_expected (Inr ex_state),
       Standard_Apply ex_run_id (calculate_change_set ex_state ex_created) ex_permit (ba_apply ex_browser),
       Standard_Read ex_run_id ex_created (Inr ex_created)]"
proof -
  have "preview_unit ex_shown = Inr ''/''" by (simp add: preview_unit_def ex_created_def ex_defs)
  then show ?thesis
    by (simp add: execute_in_session_def fresh_read_def ex_snapshot apply_change_def verification_read_def ex_permitted
        bind_def andthen_def browse_def note_event_def ex_browser_def ex_service_def [THEN arg_cong, of te_hash] Let_def)
qed

lemma ex_executed:
  assumes "tw_pending w = [(ex_run_id, \<lparr>pr_settings = ex_settings, pr_preview = ex_shown\<rparr>)]"
    and "tw_store w = ex_store empty_registry"
  shows "tw_log (attend ex_service (Do_Execute ex_browser ex_run_id ''APPLY 0000'' True) w) =
    tw_log w @ [Accepted ex_run_id ''APPLY 0000'' (Aware 0), Standard_Read ex_run_id ex_expected (Inr ex_state),
       Standard_Apply ex_run_id (calculate_change_set ex_state ex_created) ex_permit (ba_apply ex_browser),
       Standard_Read ex_run_id ex_created (Inr ex_created)]"
proof -
  have phrase: "phrase_accepted True ''APPLY 0000'' ''APPLY 0000'' = Inr True"
    using ex_run_identifier by (simp add: phrase_accepted_def compare_digest_def)
  have early: "time_reached (Aware 0) (Aware 60000000) = Inr False"
    by simp
  define v where "v = w\<lparr>tw_ticks := Suc (tw_ticks w), tw_pending := [],
    tw_log := tw_log w @ [Accepted ex_run_id ''APPLY 0000'' (Aware 0)], tw_store := ex_store empty_registry, tw_started := False\<rparr>"
  obtain u where u: "execute_in_session ex_service ex_browser ex_run_id ex_shown empty_registry v =
       (Inr (Inr (canonical_hash ex_sha (dump_blocked_state ex_state), \<lparr>br_completed = True, br_steps = [], br_page = Page_Senders_Section\<rparr>,
          Standard_State ex_created)), u)"
     "tw_log u = tw_log v @ [Standard_Read ex_run_id ex_expected (Inr ex_state),
       Standard_Apply ex_run_id (calculate_change_set ex_state ex_created) ex_permit (ba_apply ex_browser),
       Standard_Read ex_run_id ex_created (Inr ex_created)]"
    using ex_executed_in_session by blast
  have "execute_run ex_service ex_browser ex_run_id ''APPLY 0000'' True w =
      settle_run ex_service ex_run_id ex_shown empty_registry (Aware 0) (canonical_hash ex_sha (dump_blocked_state ex_state),
        \<lparr>br_completed = True, br_steps = [], br_page = Page_Senders_Section\<rparr>, Standard_State ex_created) u"
    using assms(1,2) u(1)
    by (simp add: execute_run_def Let_def bind_def andthen_def system_now_def discard_pending_def note_event_def phrase early
        on_registry_def ex_store_def load_registry_def next_fault_def get_def on_exception_def catch_def with_session_def
        ex_service_def [THEN arg_cong, of te_clock] ex_browser_def [THEN arg_cong, of ba_enter]
        ex_browser_def [THEN arg_cong, of ba_exit] v_def)
  then show ?thesis
    using u(2) same_frontD(1) [OF settle_run_front [OF surjective_pairing]] by (simp add: v_def)
qed

section \<open>Writes\<close>

text \<open>
  C4. Whatever the calls of the service and whatever the browser answers: when an attended run
  writes to the console, the operator was last shown, for this run, a live preview whose digests
  are those of its plan, state and change; accepted it once, with the phrase of the run and
  before it expired; the state was read again after that and has the digest of the preview; and
  what is written is the change shown, under a permit with the digests of the preview.
\<close>

theorem attended_writes_are_approved:
  assumes "tw_pending w = []" and "tw_log w = []" and "tw_log (fold (attend env) xs w) = us @ y # vs"
    and "write_of y = Some (k, change, permit)"
  shows "\<exists>past p since phrase now x s t. us = past @ Presented k p # since @ [Accepted k phrase now, x] \<and>
    Some k \<notin> front_run ` set since \<and> live_preview env k p \<and> py_strip phrase = apply_phrase k \<and>
    av_expires p = Some t \<and> time_reached now t = Inr False \<and> read_of x = Some (k, Inr s) \<and>
    canonical_hash (te_hash env) (dump_surface_state s) = av_before_hash p \<and> change_of p = Some change \<and> permits p permit"
proof -
  have "licensed env us k change permit"
    using attend_ok [OF fresh_service_ok [OF assms(1,2)]] assms(3,4) unfolding attended_ok_def all_licensed_def by blast
  then show ?thesis unfolding licensed_def open_preview_def live_preview_def by fastforce
qed

theorem attended_writes_are_approved_witness:
  "\<exists>p. live_preview ex_service ex_run_id p \<and> change_of p = Some (dump_change_set (calculate_change_set ex_state ex_created)) \<and>
     permits p ex_permit"
proof -
  let ?xs = "[Do_Preview ex_browser ex_settings ex_create None None, Do_Execute ex_browser ex_run_id ''APPLY 0000'' True]"
  obtain w where w: "attend ex_service (Do_Preview ex_browser ex_settings ex_create None None) ex_front = w"
      "tw_log w = [Standard_Read ex_run_id ex_expected (Inr ex_state), Presented ex_run_id ex_shown]"
      "tw_pending w = [(ex_run_id, \<lparr>pr_settings = ex_settings, pr_preview = ex_shown\<rparr>)]"
      "tw_store w = ex_store empty_registry"
    using ex_presented by blast
  from w(1) have "tw_log (fold (attend ex_service) ?xs ex_front) =
      tw_log (attend ex_service (Do_Execute ex_browser ex_run_id ''APPLY 0000'' True) w)"
    by (simp only: fold_simps)
  then have "tw_log (fold (attend ex_service) ?xs ex_front) =
      [Standard_Read ex_run_id ex_expected (Inr ex_state), Presented ex_run_id ex_shown, Accepted ex_run_id ''APPLY 0000'' (Aware 0),
        Standard_Read ex_run_id ex_expected (Inr ex_state)] @
      Standard_Apply ex_run_id (calculate_change_set ex_state ex_created) ex_permit (ba_apply ex_browser) #
        [Standard_Read ex_run_id ex_created (Inr ex_created)]"
    unfolding ex_executed [OF w(3,4)] w(2) by simp
  from attended_writes_are_approved [OF _ _ this] show ?thesis by (fastforce simp: ex_front_def)
qed

end
