(* ===== verification/Console_Claims.thy ===== *)
theory Console_Claims
  imports Console_Properties Attended_Claims
begin

text \<open>The properties of the console's coordinator and of its journal, with a session that meets their hypotheses.\<close>

section \<open>Restarts\<close>

definition restored_from :: "console_run \<Rightarrow> console_run \<Rightarrow> bool" where
  "restored_from r x \<longleftrightarrow> kr_id x = kr_id r \<and> kr_text x = kr_text r \<and> kr_mode x = kr_mode r \<and> kr_plan x = kr_plan r \<and>
     kr_created x = kr_created r \<and> \<not> browser_active (kr_phase x) \<and> kr_phase x \<noteq> Planning \<and>
     take (length (kr_history r)) (kr_history x) = kr_history r \<and>
     (if terminal_phase (kr_phase r) \<or> kr_phase r = Plan_Ready then x = r
      else kr_error x = Some (if kr_phase r = Awaiting_Approval then ''approval_expired''
             else if kr_phase r = Executing \<or> kr_phase r = Verifying then ''console_restarted_execution_uncertain''
             else ''console_restarted'') \<and>
        (kr_phase r = Executing \<or> kr_phase r = Verifying \<longleftrightarrow> kr_phase x = Interrupted))"

lemma restore_run_ok:
  assumes "is_aware now"
  shows "\<exists>x. restore_run now r = Inr x \<and> restored_from r x"
  using assms
  by (cases "kr_phase r") (auto simp: restore_run_def downgrade_def make_transition_def restored_from_def terminal_phase_def
      browser_active_def)

lemma restore_run_passive: "restore_run now r = Inr x \<Longrightarrow> \<not> browser_active (kr_phase x)"
  by (auto simp: restore_run_def downgrade_def make_transition_def browser_active_def split: if_splits)

lemma restore_snapshots:
  assumes "is_aware now"
  shows "\<exists>xs. fold_res (restore_envelope now) (map Snapshot runs) done = Inr (done @ xs) \<and> list_all2 restored_from runs xs"
proof (induction runs arbitrary: "done")
  case (Cons r runs)
  obtain x where x: "restore_run now r = Inr x" "restored_from r x" using restore_run_ok [OF assms] by blast
  from Cons.IH [of "done @ [x]"] obtain xs where
    "fold_res (restore_envelope now) (map Snapshot runs) (done @ [x]) = Inr ((done @ [x]) @ xs)" "list_all2 restored_from runs xs"
    by blast
  moreover have "restore_envelope now (Snapshot r) done = Inr (done @ [x])" using x by (simp add: restore_envelope_def)
  ultimately show ?case using x by (intro exI [of _ "x # xs"]) simp
qed simp

lemma restore_unknown:
  "list_all is_other_version es \<Longrightarrow> fold_res (restore_envelope now) (es @ fs) done = fold_res (restore_envelope now) fs done"
  by (induction es) (auto simp: restore_envelope_def split: envelope.splits elim!: is_other_version.elims)

lemma restored_passive:
  "fold_res (restore_envelope now) es done = Inr xs \<Longrightarrow> \<forall>r \<in> set done. \<not> browser_active (kr_phase r) \<Longrightarrow>
     \<forall>r \<in> set xs. \<not> browser_active (kr_phase r)"
proof (induction es arbitrary: "done")
  case (Cons e es)
  then obtain ys where ys: "restore_envelope now e done = Inr ys" "fold_res (restore_envelope now) es ys = Inr xs"
    by (cases "restore_envelope now e done") auto
  have "\<forall>r \<in> set ys. \<not> browser_active (kr_phase r)"
  proof (cases e)
    case (Snapshot r)
    then show ?thesis using ys(1) Cons.prems(2) restore_run_passive [of now r]
      by (cases "restore_run now r") (auto simp: restore_envelope_def)
  qed (use ys(1) Cons.prems(2) in \<open>auto simp: restore_envelope_def\<close>)
  from Cons.IH [OF ys(2) this] show ?case .
qed simp

lemma load_journal_passive:
  assumes "load_journal now stored = Inr (j, runs)"
  shows "\<forall>r \<in> set runs. \<not> browser_active (kr_phase r)"
proof (cases stored)
  case (Inr es)
  then have "fold_res (restore_envelope now) es [] = Inr runs"
    using assms by (cases "fold_res (restore_envelope now) es []") (auto simp: load_journal_def)
  from restored_passive [OF this] show ?thesis by simp
qed (use assms in \<open>auto simp: load_journal_def split: if_splits\<close>)

lemma journal_unknown: "load_journal now stored = Inr (j, runs) \<Longrightarrow> list_all is_other_version (jn_unknown j)"
proof (cases stored)
  case (Inr es)
  moreover assume "load_journal now stored = Inr (j, runs)"
  ultimately show ?thesis by (cases "fold_res (restore_envelope now) es []") (auto simp: load_journal_def list_all_iff)
qed (auto simp: load_journal_def split: if_splits)

lemma newest_first_sorted:
  "i < k \<Longrightarrow> k < length (newest_first runs) \<Longrightarrow>
     instant (kr_created (newest_first runs ! k)) \<le> instant (kr_created (newest_first runs ! i))"
  using sorted_nth_mono [of "map (\<lambda>r. - instant (kr_created r)) (newest_first runs)" i k]
  by (simp add: newest_first_def)

text \<open>
  What the coordinator saves comes back after a restart: every run that is not terminal and
  the newest hundred terminal ones, in order, with the same request, mode, plan and history; a
  run that was active is stopped, and one that was executing is marked interrupted; snapshots of
  other versions are kept as they were.
\<close>

theorem journal_restores_runs:
  assumes "load_journal before stored = Inr (j, old)" and "jn_writable j" and "is_aware now"
  shows "\<exists>k restored. load_journal now (Inr (jn_stored (save_journal False (newest_first runs) j))) = Inr (k, restored) \<and>
    jn_writable k \<and> jn_unknown k = jn_unknown j \<and>
    list_all2 restored_from
      (filter (\<lambda>r. \<not> terminal_phase (kr_phase r)) (newest_first runs) @
       take 100 (filter (\<lambda>r. terminal_phase (kr_phase r)) (newest_first runs))) restored"
proof -
  note u = journal_unknown [OF assms(1)]
  then have known: "filter is_other_version (jn_unknown j) = jn_unknown j" "filter is_other_version (map Snapshot rs) = []" for rs
    by (auto simp: list_all_iff intro!: filter_True filter_False)
  show ?thesis
    using restore_snapshots [OF assms(3), of "filter (\<lambda>r. \<not> terminal_phase (kr_phase r)) (newest_first runs) @
       take terminal_limit (filter (\<lambda>r. terminal_phase (kr_phase r)) (newest_first runs))" "[]"] known assms(2)
    by (auto simp: save_journal_def load_journal_def restore_unknown [OF u] journal_entries_def [of "newest_first runs"] terminal_limit_def)
qed

section \<open>A session of the console\<close>

definition opens :: "run_journal option \<Rightarrow> console_run list \<Rightarrow> coordinator \<Rightarrow> bool" where
  "opens j runs w \<longleftrightarrow> (\<exists>dry live. w = new_coordinator j runs dry live) \<and> (\<forall>r \<in> set runs. \<not> browser_active (kr_phase r))"

lemma dict_of_members:
  "dict_get (dict_of key items) k = Some v \<Longrightarrow> v \<in> set items"
  "fst ` set (dict_of key items) = key ` set items"
proof -
  have "dict_get (fold (\<lambda>v d. dict_put (key v) v d) items d) k = Some v \<Longrightarrow> v \<in> set items \<or> dict_get d k = Some v" for d
  proof (induction items arbitrary: d)
    case (Cons x items)
    then show ?case using Cons.IH [of "dict_put (key x) x d"] by (auto simp: update_conv' split: if_splits)
  qed simp
  from this [of "[]"] show "dict_get (dict_of key items) k = Some v \<Longrightarrow> v \<in> set items" by (simp add: dict_of_def)
  have "fst ` set (fold (\<lambda>v d. dict_put (key v) v d) items d) = key ` set items \<union> fst ` set d" for d
    by (induction items arbitrary: d) (simp_all add: put_keys)
  from this [of "[]"] show "fst ` set (dict_of key items) = key ` set items" by (simp add: dict_of_def)
qed

lemma opens_inv:
  assumes "opens j runs w"
  shows "console_inv env w" "ids_known env (kr_id ` set runs) w" "kc_ids w = 0"
proof -
  obtain dry live where w: "w = new_coordinator j runs dry live" using assms unfolding opens_def by blast
  have "\<not> browser_active (kr_phase r)" if "dict_get (dict_of kr_id runs) k = Some r" for k r
    using assms dict_of_members(1) [OF that] unfolding opens_def by blast
  then show "console_inv env w" "ids_known env (kr_id ` set runs) w" "kc_ids w = 0"
    using keyed_dict_of [of kr_id runs] dict_of_members(2) [of kr_id runs]
    by (auto simp: w new_coordinator_def console_inv_def runs_ok_def one_active_def flights_ok_def live_modes_def browser_active_def
        approvals_ok_def run_approval.pending_as_logged_def run_approval.authorised_def live_calls_follow_def ids_known_def)
qed


text \<open>
  C18. Under any requests and answers, every live execution follows at once an approval that was
  granted for its run; that approval was issued before, for a ready preview of the same run,
  and neither replaced nor spent since; it was granted on the exact phrase before it expired
  and carries the digests of that preview. So a live execution never starts twice on one preview.
\<close>

theorem live_calls_are_approved:
  assumes "load_journal before stored = Inr (j, runs)" and "w = new_coordinator (Some j) runs dry live"
    and "fresh_ids env (kr_id ` set runs) (length xs)"
    and "kc_log (console_session env xs w) = us @ Live_Call k c # vs"
  shows "\<exists>past preview t since phrase now.
    us = past @ Approval_Event (Issued k preview t) # since @ [Approval_Event (Spent k phrase c now)] \<and>
    (\<forall>e. Approval_Event e \<in> set since \<longrightarrow> event_run e \<noteq> k) \<and> dy_status preview = Preview_Ready \<and>
    time_reached now (plus_seconds t (ke_ttl env)) = Inr False \<and> py_strip phrase = apply_phrase k \<and> cf_approved c \<and>
    cf_plan_hash c = dy_plan_hash preview \<and> dy_before_hash preview = Some (cf_before_hash c) \<and>
    dy_change_hash preview = Some (cf_change_hash c)"
proof -
  have o: "opens (Some j) runs w" using assms(2) load_journal_passive [OF assms(1)] by (auto simp: opens_def)
  have "console_inv env (console_session env xs w)"
    by (rule session_keeps(1) [OF opens_inv(1,2) [OF o], where P = "\<lambda>_. True"]) (use opens_inv(3) [OF o] assms(3) in simp_all)
  then have ok: "run_approval.authorised (ke_ttl env) (approval_events (us @ Live_Call k c # vs))"
      "live_calls_follow (us @ Live_Call k c # vs)"
    using assms(4) by (auto simp: console_inv_def approvals_ok_def)
  from ok(2) obtain front phrase now where us: "us = front @ [Approval_Event (Spent k phrase c now)]"
    unfolding live_calls_follow_def by blast
  have "run_approval.licence (ke_ttl env) (approval_events front) k phrase c now"
    using ok(1) unfolding us run_approval.authorised_def by simp
  then obtain ps preview t ws a where split: "approval_events front = ps @ Issued k preview t # ws" "k \<notin> event_run ` set ws"
      and made: "made_for (ke_ttl env) k preview t a" "spent_as a phrase c now"
    by (auto simp: run_approval.licence_def run_approval.standing_def)
  from approval_events_split [OF split(1)] obtain past since
    where "front = past @ Approval_Event (Issued k preview t) # since" "approval_events since = ws" by blast
  moreover have "event_run e \<noteq> k" if "Approval_Event e \<in> set since" for e
    using that split(2) \<open>approval_events since = ws\<close> approval_events_mem by auto
  ultimately show ?thesis using us made
    by (intro exI [of _ past] exI [of _ preview] exI [of _ t] exI [of _ since] exI [of _ phrase] exI [of _ now])
      (auto simp: made_for_def spent_as_def)
qed

text \<open>
  A run that has ended stays as it is: whatever is asked of the console afterwards and
  whatever answers arrive late, its record does not change.
\<close>

theorem ended_runs_stay:
  assumes "load_journal before stored = Inr (j, runs)" and "w = new_coordinator (Some j) runs dry live"
    and "fresh_ids env (kr_id ` set runs) (length (xs @ ys))"
    and "dict_get (kc_runs (console_session env xs w)) k = Some r" and "terminal_phase (kr_phase r)"
  shows "dict_get (kc_runs (console_session env (xs @ ys) w)) k = Some r"
proof -
  have o: "opens (Some j) runs w" using assms(2) load_journal_passive [OF assms(1)] by (auto simp: opens_def)
  have fewer: "fresh_ids env old n" if "fresh_ids env old m" "n \<le> m" for old n m
    using that unfolding fresh_ids_def handed_out_def by (auto intro: inj_on_subset dest: disjoint_iff [THEN iffD1])
  note first = session_keeps [OF opens_inv(1,2) [OF o], where P = "\<lambda>_. True" and xs = xs]
  have one: "fresh_ids env (kr_id ` set runs) (kc_ids w + length xs)"
    using fewer [OF assms(3)] opens_inv(3) [OF o] by simp
  have two: "fresh_ids env (kr_id ` set runs) (kc_ids (console_session env xs w) + length ys)"
    using fewer [OF assms(3)] first(3) [OF one] opens_inv(3) [OF o] by simp
  have "dict_get (kc_runs (console_session env ys (console_session env xs w))) k = Some r"
    by (rule session_keeps(4) [OF first(1) [OF one] first(2) [OF one] two, where P = "\<lambda>w. dict_get (kc_runs w) k = Some r"])
      (use assms(4,5) ended_step in simp_all)
  then show ?thesis by (simp add: session_append)
qed

section \<open>A session\<close>

definition ex_console :: console_env where
  "ex_console = \<lparr>ke_clock = (\<lambda>n. Aware (int n)), ke_supply = (\<lambda>n. 7 + word_of_nat n), ke_ttl = 60, ke_save_fails = (\<lambda>n. False)\<rparr>"

definition ex_journal :: run_journal where
  "ex_journal = \<lparr>jn_unknown = [Other_Version ''2'' ''x''], jn_writable = True, jn_stored = [Other_Version ''2'' ''x'']\<rparr>"

lemma ex_opened: "load_journal (Aware 0) (Inr [Other_Version ''2'' ''x'']) = Inr (ex_journal, [])"
  by (simp add: load_journal_def ex_journal_def restore_envelope_def)

definition ex_requests :: "console_request list" where
  "ex_requests = [From_Plan ''block'' Live_Mode ex_create, Begin_Preview ex_run_id,
     Finish_Preview ex_run_id Live_Mode (Inr ex_preview), Begin_Approve ex_run_id ''APPLY 0000'' True ''1'']"

definition ex_session :: "console_request list \<Rightarrow> coordinator" where
  "ex_session xs = console_session ex_console xs (new_coordinator (Some ex_journal) [] True True)"

lemma ex_fresh: "n \<le> 4 \<Longrightarrow> fresh_ids ex_console (kr_id ` set []) n"
proof -
  assume "n \<le> 4"
  have "7 + word_of_nat i = (7 + word_of_nat j :: uuid) \<longleftrightarrow> i = j" if "i < 4" "j < 4" for i j
    using that by (auto simp: word_of_nat_eq_iff take_bit_nat_eq_self)
  with \<open>n \<le> 4\<close> show ?thesis
    by (auto simp: fresh_ids_def inj_on_def ex_console_def)
qed

lemmas console_runs_defs = console_start_def create_from_plan_def start_run_def begin_preview_def finish_preview_def begin_approve_def
  cancel_console_run_def require_run_def require_browser_slot_def advance_def advance_with_def store_run_def save_runs_def
  console_now_def console_id_def on_approvals_def note_console_def take_off_def land_def make_transition_def make_console_run_def
  arrives_def

lemma ex_block_text: "py_strip ''block'' = ''block''" "uuid_hex 7 = ex_run_id"
  by (code_simp, simp add: ex_run_id_def)

lemma ex_session_runs:
  "\<exists>us. kc_log (ex_session ex_requests) = us @ [Live_Call ex_run_id ex_response]"
  "kc_flights (ex_session ex_requests) = [Live_Flight ex_run_id]"
  by (simp_all add: ex_session_def ex_requests_def console_runs_defs act_defs new_coordinator_def ex_console_def dict_of_def ex_block_text
      ex_run_identifier Let_def preview_phase_def ex_preview_def issue_approval_def make_pending_approval_def
      ex_response_def approve_run_def phrase_accepted_def compare_digest_def make_confirmation_response_def)

definition ex_run :: "run_phase \<Rightarrow> console_run" where
  "ex_run p = \<lparr>kr_id = ex_run_id, kr_text = ''block'', kr_mode = Live_Mode, kr_phase = p, kr_created = Aware 0, kr_updated = Aware 1,
     kr_plan = Some ex_create, kr_preview = None, kr_result = None, kr_error = None, kr_source = None, kr_history = []\<rparr>"

definition ex_stop :: "console_request list" where
  "ex_stop = [From_Plan ''block'' Live_Mode ex_create, Cancel_Run ex_run_id]"

lemma ex_stopped: "\<exists>r. dict_get (kc_runs (ex_session ex_stop)) ex_run_id = Some r \<and> kr_phase r = Cancelled"
  by (simp add: ex_session_def ex_stop_def console_runs_defs act_defs new_coordinator_def ex_console_def dict_of_def ex_block_text
      ex_run_identifier Let_def cancel_approval_def)

theorem journal_restores_runs_witness:
  "\<exists>k restored. load_journal (Aware 9) (Inr (jn_stored (save_journal False (newest_first
      [ex_run Executing, ex_run Completed_Run]) ex_journal))) = Inr (k, restored) \<and>
    jn_unknown k = [Other_Version ''2'' ''x''] \<and> map kr_phase restored = [Interrupted, Completed_Run]"
proof -
  have order: "newest_first [ex_run Executing, ex_run Completed_Run] = [ex_run Executing, ex_run Completed_Run]"
    by (simp add: newest_first_def ex_run_def)
  from journal_restores_runs [OF ex_opened, where runs = "[ex_run Executing, ex_run Completed_Run]" and now = "Aware 9"]
  obtain k restored where k: "load_journal (Aware 9) (Inr (jn_stored (save_journal False (newest_first
      [ex_run Executing, ex_run Completed_Run]) ex_journal))) = Inr (k, restored)" "jn_unknown k = jn_unknown ex_journal"
    "list_all2 restored_from [ex_run Executing, ex_run Completed_Run] restored"
    unfolding order by (auto simp: ex_journal_def terminal_phase_def ex_run_def)
  from k(3) have "map kr_phase restored = [Interrupted, Completed_Run]"
    by (auto simp: list_all2_Cons1 restored_from_def ex_run_def terminal_phase_def)
  with k show ?thesis by (auto simp: ex_journal_def)
qed


theorem live_calls_are_approved_witness:
  "\<exists>past preview t since phrase now. kc_log (ex_session ex_requests) = past @ Approval_Event (Issued ex_run_id preview t) # since @
     [Approval_Event (Spent ex_run_id phrase ex_response now), Live_Call ex_run_id ex_response] \<and> dy_status preview = Preview_Ready"
proof -
  obtain us where us: "kc_log (ex_session ex_requests) = us @ Live_Call ex_run_id ex_response # []"
    using ex_session_runs(1) by auto
  have "fresh_ids ex_console (kr_id ` set []) (length ex_requests)" by (rule ex_fresh) (simp add: ex_requests_def)
  from live_calls_are_approved [OF ex_opened refl this us [unfolded ex_session_def]] us show ?thesis by fastforce
qed

theorem ended_runs_stay_witness:
  "\<exists>r. kr_phase r = Cancelled \<and> dict_get (kc_runs (ex_session ex_stop)) ex_run_id = Some r \<and>
     dict_get (kc_runs (ex_session (ex_stop @ [Begin_Preview ex_run_id]))) ex_run_id = Some r"
proof -
  obtain r where r: "dict_get (kc_runs (ex_session ex_stop)) ex_run_id = Some r" "kr_phase r = Cancelled"
    using ex_stopped by blast
  have "fresh_ids ex_console (kr_id ` set []) (length (ex_stop @ [Begin_Preview ex_run_id]))" by (rule ex_fresh) (simp add: ex_stop_def)
  from ended_runs_stay [OF ex_opened refl this r(1) [unfolded ex_session_def]] r show ?thesis
    by (auto simp: terminal_phase_def ex_session_def)
qed

end
