(* ===== verification/Server_Claims.thy ===== *)
theory Server_Claims
  imports Console_Server Setup_Claims Settings_Claims Console_Claims
begin

text \<open>
  The console behind HTTP: every request acts on the coordinator as its own calls do, only
  the signed-in operator acts at all, and only in live mode with reviewed adapters does a
  live execution start.
\<close>

section \<open>What a handler asks of the coordinator\<close>

fun asks :: "web_env \<Rightarrow> post \<Rightarrow> console_request \<Rightarrow> bool" where
  "asks env (Post_Run_Mode _) x = (\<exists>d l. x = Configure d l)"
| "asks env (Post_Identities _ _) x = False"
| "asks env (Post_Run t) x = (\<exists>m. x = Start_Run t m)"
| "asks env (Post_Direct_Add _ _ _) x = (\<exists>t m p. x = From_Plan t m p)"
| "asks env (Post_Preview k) x = (x = Begin_Preview k \<or> (\<exists>m. x = Promote k m))"
| "asks env (Post_Cancel k) x = (x = Cancel_Run k)"
| "asks env (Post_Approve k p a) x = (x = Begin_Approve k p a (we_approval_id env))"
| "asks env (Post_Prune _) x = False"

definition within :: "console_env \<Rightarrow> nat \<Rightarrow> (console_request \<Rightarrow> bool) \<Rightarrow> (web_state, 'a) act \<Rightarrow> bool" where
  "within ke n A m \<longleftrightarrow> (\<forall>w. ws_security (snd (m w)) = ws_security w \<and>
     (\<exists>xs. length xs \<le> n \<and> list_all A xs \<and> ws_coordinator (snd (m w)) = console_session ke xs (ws_coordinator w)))"

lemma within_basic: "within ke 0 A (return x)" "within ke 0 A (lift r)" "within ke 0 A (get f)" "within ke 0 A (on_config c)"
  "within ke 0 A (raise e)"
  by (auto simp: within_def on_config_def split: option.splits prod.splits intro!: exI [of _ "[]"])

lemma within_update: "(\<And>w. ws_coordinator (f w) = ws_coordinator w \<and> ws_security (f w) = ws_security w) \<Longrightarrow> within ke 0 A (update f)"
  by (auto simp: within_def intro!: exI [of _ "[]"])

lemma within_bind:
  assumes "within ke n A m" and "\<And>x. within ke k A (f x)"
  shows "within ke (n + k) A (bind m f)"
  unfolding within_def
proof
  fix w
  obtain r v where m: "m w = (r, v)" by fastforce
  from assms(1) m obtain xs where xs: "ws_security v = ws_security w" "length xs \<le> n" "list_all A xs"
      "ws_coordinator v = console_session ke xs (ws_coordinator w)" unfolding within_def by (metis snd_conv)
  show "ws_security (snd (bind m f w)) = ws_security w \<and>
     (\<exists>xs. length xs \<le> n + k \<and> list_all A xs \<and> ws_coordinator (snd (bind m f w)) = console_session ke xs (ws_coordinator w))"
  proof (cases r)
    case (Inl e)
    with m xs show ?thesis by (auto simp: bind_def intro: exI [of _ xs])
  next
    case (Inr x)
    from assms(2) [of x] obtain ys where "ws_security (snd (f x v)) = ws_security v" "length ys \<le> k" "list_all A ys"
      "ws_coordinator (snd (f x v)) = console_session ke ys (ws_coordinator v)" unfolding within_def by metis
    with m xs Inr show ?thesis
      by (auto simp: bind_def session_append intro!: exI [of _ "xs @ ys"])
  qed
qed

lemma within_andthen: "within ke n A m \<Longrightarrow> within ke k A m' \<Longrightarrow> within ke (n + k) A (andthen m m')"
  unfolding andthen_def by (rule within_bind)

lemma within_more: "within ke n A m \<Longrightarrow> n \<le> k \<Longrightarrow> within ke k A m"
  unfolding within_def by (meson order_trans)

lemma within_coordinator:
  assumes "\<And>c. snd (m c) = console_step ke x c" and "A x"
  shows "within ke (Suc 0) A (on_coordinator m)"
  using assms by (auto simp: within_def on_coordinator_def split: prod.splits intro!: exI [of _ "[x]"])
    (metis snd_conv)

lemma within_if: "within ke n A m \<Longrightarrow> within ke n A m' \<Longrightarrow> within ke n A (if b then m else m')"
  by simp

lemma within_option: "within ke n A m \<Longrightarrow> (\<And>x. within ke n A (f x)) \<Longrightarrow> within ke n A (case v of None \<Rightarrow> m | Some x \<Rightarrow> f x)"
  by (cases v) auto

lemma within_return: "within ke n A (return x)"
  by (rule within_more [OF within_basic(1)]) simp

lemma within_first:
  "(\<And>x. within ke n A (f x)) \<Longrightarrow> within ke n A (bind (get g) f)"
  "(\<And>x. within ke n A (f x)) \<Longrightarrow> within ke n A (bind (lift r) f)"
  "(\<And>x. within ke n A (f x)) \<Longrightarrow> within ke n A (bind (on_config c) f)"
  "within ke n A m \<Longrightarrow> within ke n A (andthen (on_config d) m)"
  "(\<And>w. ws_coordinator (h w) = ws_coordinator w \<and> ws_security (h w) = ws_security w) \<Longrightarrow> within ke n A m \<Longrightarrow>
    within ke n A (andthen (update h) m)"
  by (rule within_bind [where n = 0, simplified] within_andthen [where n = 0, simplified];
      (rule within_basic within_update)?; simp)+

lemma within_last:
  "within ke n A m \<Longrightarrow> within ke n A (bind m (\<lambda>x. return (g x)))"
  "within ke n A m \<Longrightarrow> within ke n A (andthen m (return x))"
  by (rule within_bind [where k = 0, simplified] within_andthen [where k = 0, simplified]; (rule within_basic)?; simp)+

lemma within_sum: "(\<And>e. within ke n A (f e)) \<Longrightarrow> (\<And>x. within ke n A (g x)) \<Longrightarrow> within ke n A (case v of Inl e \<Rightarrow> f e | Inr x \<Rightarrow> g x)"
  by (cases v) auto

lemma within_pair: "(\<And>a b. within ke n A (f a b)) \<Longrightarrow> within ke n A (case v of (a, b) \<Rightarrow> f a b)"
  by (cases v) auto

lemmas within_intros = within_if within_option within_sum within_pair within_return within_last within_first

lemma handler_within: "within ke 2 (asks env p) (handle_post ke env r p)"
proof -
  have "within ke (Suc 0) (asks env p) (handle_post ke env r p)" if "\<And>k. p \<noteq> Post_Preview k"
  proof (cases p)
    case (Post_Run_Mode asked)
    have "within ke (Suc 0) (asks env p) (on_coordinator (configure_execution d l))" for d l
      by (rule within_coordinator [where x = "Configure d l"]) (simp_all add: Post_Run_Mode)
    then have "within ke (Suc 0) (asks env p) (andthen (on_coordinator (configure_execution d l))
        (andthen (update (\<lambda>w. w\<lparr>ws_capabilities := c, ws_health := h w\<rparr>)) (return x)))" for d l c h and x :: reply
      by (rule within_andthen [where k = 0, simplified]) (auto intro!: within_first within_basic)
    then show ?thesis
      unfolding Post_Run_Mode handle_post.simps configure_run_mode_def Let_def
      by (intro within_intros) simp_all
  next
    case (Post_Identities e d)
    show ?thesis unfolding Post_Identities handle_post.simps configure_google_identities_def Let_def
      by (intro within_intros) simp_all
  next
    case (Post_Run t)
    have "within ke (Suc 0) (asks env p) (on_coordinator (console_start ke t m))" for m
      by (rule within_coordinator [where x = "Start_Run t m"]) (simp_all add: Post_Run)
    then show ?thesis unfolding Post_Run handle_post.simps create_run_def by (intro within_intros) simp_all
  next
    case (Post_Direct_Add t k n)
    have "within ke (Suc 0) (asks env p) (on_coordinator (create_from_plan ke u m plan))" for u m plan
      by (rule within_coordinator [where x = "From_Plan u m plan"]) (simp_all add: Post_Direct_Add)
    then show ?thesis unfolding Post_Direct_Add handle_post.simps create_direct_add_run_def Let_def
      by (intro within_intros) simp_all
  next
    case (Post_Cancel k)
    have "within ke (Suc 0) (asks env p) (on_coordinator (cancel_console_run ke k))"
      by (rule within_coordinator [where x = "Cancel_Run k"]) (simp_all add: Post_Cancel)
    then show ?thesis unfolding Post_Cancel handle_post.simps cancel_run_post_def by (intro within_intros) simp_all
  next
    case (Post_Approve k ph a)
    have "within ke (Suc 0) (asks env p) (on_coordinator (begin_approve ke k ph a (we_approval_id env)))"
      by (rule within_coordinator [where x = "Begin_Approve k ph a (we_approval_id env)"]) (simp_all add: Post_Approve)
    then show ?thesis unfolding Post_Approve handle_post.simps approve_run_post_def by (intro within_intros) simp_all
  next
    case (Post_Prune c)
    show ?thesis unfolding Post_Prune handle_post.simps prune_audits_def by (intro within_intros) simp_all
  qed (use that in simp)
  moreover have "within ke 2 (asks env p) (handle_post ke env r p)" if p: "p = Post_Preview k" for k
  proof -
    have "within ke (Suc 0) (asks env p) (andthen (on_coordinator (promote_plan ke k m)) (return ()))" for m
      by (intro within_last within_coordinator [where x = "Promote k m"]) (simp_all add: p)
    moreover have "within ke (Suc 0) (asks env p) (andthen (on_coordinator (begin_preview ke k)) (return x))" for x :: reply
      by (intro within_last within_coordinator [where x = "Begin_Preview k"]) (simp_all add: p)
    ultimately have "within ke (Suc 0 + Suc 0) (asks env p) (handle_post ke env r p)"
      unfolding p handle_post.simps preview_run_def
      by (intro within_first within_option within_if within_return within_andthen) (simp_all add: within_return)
    then show ?thesis by (simp add: numeral_2_eq_2)
  qed
  ultimately show ?thesis by (metis within_more one_le_numeral One_nat_def)
qed

text \<open>An admitted and authorized request.\<close>

definition permitted :: "web_state \<Rightarrow> web_request \<Rightarrow> string option \<Rightarrow> bool" where
  "permitted w r csrf \<longleftrightarrow> protect (ws_security w) r = Inr Admitted \<and> authorize_post (ws_security w) r csrf = Inr ()"

lemma serve_post_cases:
  "serve_post ke env r csrf p w = (answer, v) \<Longrightarrow> v = w \<or> permitted w r csrf \<and> v = snd (handle_post ke env r p w)"
  by (auto simp: serve_post_def permitted_def split: sum.splits gate.splits if_splits prod.splits)

text \<open>What an event asks of the coordinator.\<close>

fun event_asks :: "web_event \<Rightarrow> web_state \<Rightarrow> console_request \<Rightarrow> bool" where
  "event_asks (Web_Post env r csrf p) w x = (rq_method r = ''POST'' \<and> rq_path r = post_path p \<and> permitted w r csrf \<and> asks env p x)"
| "event_asks (Web_Run_Page r k) w x = (x = Ask_Pending k)"
| "event_asks (Web_Door c) w x = False"
| "event_asks (Web_Answer y) w x = (background y \<and> x = y)"

lemma event_requests:
  "\<exists>xs. length xs \<le> 2 \<and> list_all (event_asks e w) xs \<and>
     ws_coordinator (web_step tok ke e w) = console_session ke xs (ws_coordinator w)"
proof (cases e)
  case (Web_Post env r csrf p)
  show ?thesis
  proof (cases "rq_method r = ''POST'' \<and> rq_path r = post_path p \<and> permitted w r csrf")
    case True
    obtain answer v where v: "serve_post ke env r csrf p w = (answer, v)" by fastforce
    obtain xs where xs: "length xs \<le> 2" "list_all (asks env p) xs"
        "ws_coordinator (snd (handle_post ke env r p w)) = console_session ke xs (ws_coordinator w)"
      using handler_within [of ke env p r] unfolding within_def by blast
    have "list_all (event_asks e w) xs" using xs(2) True by (auto simp: Web_Post list_all_iff)
    with serve_post_cases [OF v] xs True v show ?thesis
      by (auto simp: Web_Post intro: exI [of _ "[]"] exI [of _ xs])
  next
    case False
    obtain answer v where v: "serve_post ke env r csrf p w = (answer, v)" by fastforce
    have "web_step tok ke e w = w" using False serve_post_cases [OF v] v by (auto simp: Web_Post)
    then show ?thesis by (intro exI [of _ "[]"]) simp
  qed
next
  case (Web_Run_Page r k)
  have "ws_coordinator (snd (serve_run_page ke r k w)) = ws_coordinator w \<or>
      ws_coordinator (snd (serve_run_page ke r k w)) = console_step ke (Ask_Pending k) (ws_coordinator w)"
    by (auto simp: serve_run_page_def on_coordinator_def split: sum.splits gate.splits prod.splits)
  then show ?thesis
    by (auto simp: Web_Run_Page intro: exI [of _ "[]"] exI [of _ "[Ask_Pending k]"])
next
  case (Web_Door c)
  then show ?thesis by (intro exI [of _ "[]"]) simp
next
  case (Web_Answer x)
  then show ?thesis by (cases "background x") (auto intro: exI [of _ "[]"] exI [of _ "[x]"])
qed

lemma web_session_snoc: "web_session tok ke (es @ [e]) w = web_step tok ke e (web_session tok ke es w)"
  by (simp add: web_session_def)

text \<open>
  C22. The web console refines the coordinator. Whatever requests, sign-ins and answers
  arrive, the coordinator behind the pages is in a state that its own calls reach, with at most
  two for each event: what holds of every sequence of calls of the coordinator holds of the
  console on the web. The session is changed by the door alone.
\<close>

theorem web_console_refines_coordinator:
  "(\<exists>xs. length xs \<le> 2 * length events \<and>
     ws_coordinator (web_session tok ke events w) = console_session ke xs (ws_coordinator w)) \<and>
   ws_security (web_session tok ke events w) =
     door_after tok (concat (map (\<lambda>e. case e of Web_Door c \<Rightarrow> [c] | _ \<Rightarrow> []) events)) (ws_security w)"
proof (induction events rule: rev_induct)
  case Nil
  show ?case by (auto simp: web_session_def door_after_def intro!: exI [of _ "[]"])
next
  case (snoc e events)
  let ?v = "web_session tok ke events w"
  from snoc obtain xs where xs: "length xs \<le> 2 * length events" "ws_coordinator ?v = console_session ke xs (ws_coordinator w)"
    by blast
  obtain ys where ys: "length ys \<le> 2" "ws_coordinator (web_step tok ke e ?v) = console_session ke ys (ws_coordinator ?v)"
    using event_requests [of e ?v tok ke] by blast
  have "ws_security (web_step tok ke e ?v) = (case e of Web_Door c \<Rightarrow> door_step tok c (ws_security ?v) | _ \<Rightarrow> ws_security ?v)"
  proof (cases e)
    case (Web_Post env r csrf p)
    obtain answer u where u: "serve_post ke env r csrf p ?v = (answer, u)" by fastforce
    have "ws_security (snd (handle_post ke env r p ?v)) = ws_security ?v"
      using handler_within [of ke env p r] unfolding within_def by blast
    with serve_post_cases [OF u] u show ?thesis by (auto simp: Web_Post)
  next
    case (Web_Run_Page r k)
    then show ?thesis by (auto simp: serve_run_page_def on_coordinator_def split: sum.splits gate.splits prod.splits)
  qed auto
  then have "ws_security (web_session tok ke (events @ [e]) w) =
      door_after tok (concat (map (\<lambda>e. case e of Web_Door c \<Rightarrow> [c] | _ \<Rightarrow> []) (events @ [e]))) (ws_security w)"
    using snoc by (cases e) (auto simp: web_session_snoc door_after_snoc)
  moreover have "ws_coordinator (web_session tok ke (events @ [e]) w) = console_session ke (xs @ ys) (ws_coordinator w)"
    using xs ys by (simp add: web_session_snoc session_append)
  moreover have "length (xs @ ys) \<le> 2 * length (events @ [e])" using xs(1) ys(1) by simp
  ultimately show ?case by blast
qed

section \<open>Live executions\<close>

text \<open>What a call adds to the log.\<close>

definition adds :: "(console_event \<Rightarrow> bool) \<Rightarrow> console_event list \<Rightarrow> coordinator \<Rightarrow> bool" where
  "adds L old w \<longleftrightarrow> (\<exists>new. kc_log w = old @ new \<and> (\<forall>e \<in> set new. L e))"

lemma adds_same: "kc_log v = kc_log w \<Longrightarrow> adds L old w \<Longrightarrow> adds L old v"
  by (simp add: adds_def)

lemma adds_basic:
  "keeps (adds L old) (require_run k)" "keeps (adds L old) (console_now ke)" "keeps (adds L old) (console_id ke)"
  "keeps (adds L old) (on_approvals m)" "keeps (adds L old) (take_off f)" "keeps (adds L old) (land f)"
  "keeps (adds L old) (require_browser_slot k)" "keeps (adds L old) (save_runs ke)" "keeps (adds L old) (store_run ke r)"
  by (auto simp: keeps_def adds_def require_run_def console_now_def console_id_def on_approvals_def take_off_def land_def
      require_browser_slot_def save_runs_def store_run_def andthen_def bind_def split: option.splits prod.splits)

lemma adds_note: "L e \<Longrightarrow> keeps (adds L old) (note_console e)"
  by (auto simp: keeps_def adds_def note_console_def)

lemma adds_if: "keeps P m \<Longrightarrow> keeps P n \<Longrightarrow> keeps P (if b then m else n)"
  by simp

lemma adds_option: "keeps P m \<Longrightarrow> (\<And>x. keeps P (f x)) \<Longrightarrow> keeps P (case v of None \<Rightarrow> m | Some x \<Rightarrow> f x)"
  by (cases v) auto

lemma adds_sum: "(\<And>e. keeps P (f e)) \<Longrightarrow> (\<And>x. keeps P (g x)) \<Longrightarrow> keeps P (case v of Inl e \<Rightarrow> f e | Inr x \<Rightarrow> g x)"
  by (cases v) auto

lemma adds_pair: "(\<And>a b. keeps P (f a b)) \<Longrightarrow> keeps P (case v of (a, b) \<Rightarrow> f a b)"
  by (cases v) auto

lemma adds_advance: "keeps (adds L old) (advance ke r p e f)"
  unfolding advance_def Let_def by (intro adds_if adds_basic keeps_bind keeps_andthen keeps_basic)

lemmas adds_intros = adds_if adds_option adds_sum adds_pair adds_basic adds_advance keeps_bind keeps_andthen keeps_basic

fun starts_live :: "console_event \<Rightarrow> bool" where
  "starts_live (Live_Call _ _) = True"
| "starts_live _ = False"

lemma quiet_requests:
  assumes "\<And>k p a i. x \<noteq> Begin_Approve k p a i"
  shows "adds (\<lambda>e. \<not> starts_live e) (kc_log w) (console_step ke x w)"
proof -
  let ?P = "adds (\<lambda>e. \<not> starts_live e) (kc_log w)"
  have start: "?P w" by (simp add: adds_def)
  have stepped: "keeps ?P m \<Longrightarrow> ?P (snd (m w))" for m :: "(coordinator, 'a) act" using start by (simp add: keeps_def)
  have arrived: "keeps ?P m \<Longrightarrow> ?P (arrives f m w)" for f and m :: "(coordinator, 'a) act"
    using start by (simp add: keeps_def arrives_def)
  have run: "keeps ?P (start_run ke t m p plan)" for t m p plan
    unfolding start_run_def by (intro adds_intros)
  have "keeps ?P (configure_execution d l)" for d l
    by (auto simp: keeps_def adds_def configure_execution_def bind_def)
  moreover have "keeps ?P (begin_plan k)" "keeps ?P (finish_plan ke k a)" "keeps ?P (promote_plan ke k m)"
    "keeps ?P (pending_approval_of ke k)" "keeps ?P (cancel_console_run ke k)" for k a m
    unfolding begin_plan_def finish_plan_def promote_plan_def pending_approval_of_def cancel_console_run_def advance_with_def Let_def
    by (intro adds_intros)+
  moreover have "keeps ?P (begin_preview ke k)" "keeps ?P (finish_preview ke k m b)" "keeps ?P (finish_approve ke k c)" for k m b c
    unfolding begin_preview_def finish_preview_def finish_approve_def advance_with_def Let_def
    by (intro adds_intros adds_note; simp)+
  ultimately show ?thesis
    using run
  proof (cases x)
    case (Begin_Approve k p a i)
    with assms show ?thesis by blast
  qed (auto simp: console_start_def create_from_plan_def intro!: stepped arrived)
qed

lemma approve_adds: "adds (\<lambda>e. starts_live e \<longrightarrow> (\<exists>c. e = Live_Call k c)) (kc_log w) (console_step ke (Begin_Approve k p a i) w)"
proof -
  let ?P = "adds (\<lambda>e. starts_live e \<longrightarrow> (\<exists>c. e = Live_Call k c)) (kc_log w)"
  have "keeps ?P (begin_approve ke k p a i)"
    unfolding begin_approve_def advance_with_def by (intro adds_intros adds_note; simp)
  moreover have "?P w" by (simp add: adds_def)
  ultimately show ?thesis by (simp add: keeps_def)
qed

lemma step_adds:
  "\<exists>new. kc_log (console_step ke x w) = kc_log w @ new \<and>
     (\<forall>k c. Live_Call k c \<in> set new \<longrightarrow> (\<exists>p a i. x = Begin_Approve k p a i))"
proof (cases "\<exists>k p a i. x = Begin_Approve k p a i")
  case True
  then obtain k p a i where x: "x = Begin_Approve k p a i" by blast
  from approve_adds [of k w ke p a i] obtain new where new: "kc_log (console_step ke x w) = kc_log w @ new"
    "\<forall>e \<in> set new. starts_live e \<longrightarrow> (\<exists>c. e = Live_Call k c)" unfolding x adds_def by blast
  have "j = k" if "Live_Call j c \<in> set new" for j c using new(2) that by force
  with new(1) x show ?thesis by (intro exI [of _ new]) simp
next
  case False
  with quiet_requests [of x w ke] obtain new where new: "kc_log (console_step ke x w) = kc_log w @ new"
    "\<forall>e \<in> set new. \<not> starts_live e" unfolding adds_def by blast
  then show ?thesis by (intro exI [of _ new]) auto
qed

lemma session_adds:
  "\<exists>new. kc_log (console_session ke xs w) = kc_log w @ new \<and>
     (\<forall>k c. Live_Call k c \<in> set new \<longrightarrow> (\<exists>p a i. Begin_Approve k p a i \<in> set xs))"
proof (induction xs arbitrary: w)
  case Nil
  show ?case by simp
next
  case (Cons x xs)
  obtain old where old: "kc_log (console_step ke x w) = kc_log w @ old"
    "\<forall>k c. Live_Call k c \<in> set old \<longrightarrow> (\<exists>p a i. x = Begin_Approve k p a i)" using step_adds by blast
  from Cons [of "console_step ke x w"] obtain new where new: "kc_log (console_session ke (x # xs) w) = kc_log (console_step ke x w) @ new"
    "\<forall>k c. Live_Call k c \<in> set new \<longrightarrow> (\<exists>p a i. Begin_Approve k p a i \<in> set xs)" by auto
  have "\<exists>p a i. Begin_Approve k p a i \<in> set (x # xs)" if "Live_Call k c \<in> set (old @ new)" for k c
    using that old(2) new(2) by (metis Un_iff list.set_intros set_append)
  with old(1) new(1) show ?case by (intro exI [of _ "old @ new"]) simp
qed

text \<open>The capabilities are those resolved for the mode.\<close>

definition installed :: "web_state \<Rightarrow> bool" where
  "installed w \<longleftrightarrow> (\<exists>contracts entries. ws_capabilities w = Some (resolve_capabilities contracts (ws_mode w) entries))"

definition keeps_install :: "(web_state, 'a) act \<Rightarrow> bool" where
  "keeps_install m \<longleftrightarrow> (\<forall>w. ws_mode (snd (m w)) = ws_mode w \<and> ws_capabilities (snd (m w)) = ws_capabilities w)"

lemma install_basic:
  "keeps_install (return x)" "keeps_install (lift r)" "keeps_install (get f)" "keeps_install (raise e)"
  "keeps_install (on_coordinator m)" "keeps_install (on_config c)"
  by (auto simp: keeps_install_def on_coordinator_def on_config_def split: prod.splits option.splits)

lemma install_update: "(\<And>w. ws_mode (h w) = ws_mode w \<and> ws_capabilities (h w) = ws_capabilities w) \<Longrightarrow> keeps_install (update h)"
  by (simp add: keeps_install_def)

lemma install_bind: "keeps_install m \<Longrightarrow> (\<And>x. keeps_install (f x)) \<Longrightarrow> keeps_install (bind m f)"
  by (auto simp: keeps_install_def bind_def split: prod.splits sum.splits) (metis snd_conv)+

lemma install_andthen: "keeps_install m \<Longrightarrow> keeps_install n \<Longrightarrow> keeps_install (andthen m n)"
  unfolding andthen_def by (rule install_bind)

lemma install_cases:
  "keeps_install m \<Longrightarrow> keeps_install n \<Longrightarrow> keeps_install (if b then m else n)"
  "keeps_install m \<Longrightarrow> (\<And>x. keeps_install (f x)) \<Longrightarrow> keeps_install (case v of None \<Rightarrow> m | Some x \<Rightarrow> f x)"
  "(\<And>e. keeps_install (g e)) \<Longrightarrow> (\<And>x. keeps_install (f x)) \<Longrightarrow> keeps_install (case u of Inl e \<Rightarrow> g e | Inr x \<Rightarrow> f x)"
  "(\<And>a b. keeps_install (k a b)) \<Longrightarrow> keeps_install (case z of (a, b) \<Rightarrow> k a b)"
  by (simp_all split: option.splits sum.splits prod.splits)

lemmas install_intros = install_cases install_basic install_bind install_andthen

lemma handlers_keep_install: "(\<And>m. p \<noteq> Post_Run_Mode m) \<Longrightarrow> keeps_install (handle_post ke env r p)"
  by (cases p) (auto simp: configure_google_identities_def create_run_def create_direct_add_run_def preview_run_def cancel_run_post_def
      approve_run_post_def prune_audits_def Let_def intro!: install_intros install_update split del: if_split)

lemma run_mode_installs: "installed w \<Longrightarrow> installed (snd (configure_run_mode env asked w))"
  by (auto simp: configure_run_mode_def installed_def bind_def andthen_def on_config_def on_coordinator_def configure_execution_def
      Let_def split: option.splits prod.splits sum.splits if_splits)

lemma installed_step:
  assumes "installed w"
  shows "installed (web_step tok ke e w)"
proof (cases e)
  case (Web_Post env r csrf p)
  obtain answer v where v: "serve_post ke env r csrf p w = (answer, v)" by fastforce
  have "installed (snd (handle_post ke env r p w))"
  proof (cases "\<exists>m. p = Post_Run_Mode m")
    case True
    with assms show ?thesis by (auto intro: run_mode_installs)
  next
    case False
    then have "keeps_install (handle_post ke env r p)" by (intro handlers_keep_install) auto
    with assms show ?thesis by (simp add: keeps_install_def installed_def)
  qed
  with assms serve_post_cases [OF v] v show ?thesis by (auto simp: Web_Post)
next
  case (Web_Run_Page r k)
  have "ws_mode (web_step tok ke e w) = ws_mode w \<and> ws_capabilities (web_step tok ke e w) = ws_capabilities w"
    by (auto simp: Web_Run_Page serve_run_page_def on_coordinator_def split: sum.splits gate.splits prod.splits)
  with assms show ?thesis by (simp add: installed_def)
qed (use assms in \<open>auto simp: installed_def\<close>)

lemma installed_session: "installed w \<Longrightarrow> installed (web_session tok ke es w)"
  by (induction es rule: rev_induct) (simp_all add: web_session_snoc installed_step, simp add: web_session_def)

text \<open>What a permitted request carries.\<close>

lemma permitted_session:
  assumes "permitted w r csrf" and "sc_host (ws_security w) \<noteq> []"
  shows "\<exists>opened. sc_session (ws_security w) = Some opened \<and> rq_cookie r = Some (cs_session opened) \<and>
    csrf = Some (cs_csrf opened) \<and> rq_host r = Some (sc_host (ws_security w))"
  using assms by (auto simp: permitted_def protect_def authorize_post_def authenticated_def require_csrf_def csrf_token_def
      host_allowed_def digest_same res_simps split: option.splits list.splits if_splits)

text \<open>
  C3. A live execution needs the operator, the mode and the evidence. From the console as
  it is created, whatever requests and answers come, an event that starts a live execution of
  a run is a request to approve that run which names the console's host and carries the
  session and the form token of the open session, in live mode, with a live runner installed
  for an accepted pack.
\<close>

theorem live_execution_needs_the_operator:
  assumes "create_console_app tok br port origin s contracts entries now stored save_fails file ttl = Inr start"
    and "w = web_session tok ke events start"
    and "kc_log (ws_coordinator (web_step tok ke e w)) = kc_log (ws_coordinator w) @ new" and "Live_Call k c \<in> set new"
  shows "\<exists>env r phrase acknowledged opened. e = Web_Post env r (Some (cs_csrf opened)) (Post_Approve k phrase acknowledged) \<and>
    rq_method r = ''POST'' \<and> rq_host r = Some (sc_host (ws_security start)) \<and>
    sc_session (ws_security w) = Some opened \<and> rq_cookie r = Some (cs_session opened) \<and> ws_mode w = Live_Mode \<and>
    (\<exists>contracts entries p pack. ws_capabilities w = Some (resolve_capabilities contracts Live_Mode entries) \<and>
      cb_live (resolve_capabilities contracts Live_Mode entries) = Some p \<and>
      load_contract contracts = Inr (Some pack) \<and> uc_status pack = Accepted_Pack)"
proof -
  have made: "ws_capabilities start = Some (resolve_capabilities contracts (st_mode s) entries)" "ws_mode start = st_mode s"
      "new_security tok br port origin = Inr (ws_security start)"
    using assms(1) by (auto simp: create_console_app_def Let_def res_simps)
  then have start: "installed start" "sc_host (ws_security start) \<noteq> []"
    using new_security_start(3) by (auto simp: installed_def)
  have w: "installed w" unfolding assms(2) by (rule installed_session [OF start(1)])
  have host: "sc_host (ws_security w) = sc_host (ws_security start)"
  proof -
    have "sc_host (ws_security (web_session tok ke es v)) = sc_host (ws_security v)" for es v
    proof (induction es rule: rev_induct)
      case (snoc x es)
      let ?v = "web_session tok ke es v"
      have "sc_host (ws_security (web_step tok ke x ?v)) = sc_host (ws_security ?v)"
      proof (cases x)
        case (Web_Post env r csrf p)
        obtain answer u where u: "serve_post ke env r csrf p ?v = (answer, u)" by fastforce
        have "ws_security (snd (handle_post ke env r p ?v)) = ws_security ?v"
          using handler_within [of ke env p r] unfolding within_def by blast
        with serve_post_cases [OF u] u show ?thesis by (auto simp: Web_Post)
      next
        case (Web_Door d)
        then show ?thesis using door_keeps_address [of tok "[d]" "ws_security ?v"] by (simp add: door_after_def)
      qed (auto simp: serve_run_page_def on_coordinator_def split: sum.splits gate.splits prod.splits)
      with snoc show ?case by (simp add: web_session_snoc)
    qed (simp add: web_session_def)
    then show ?thesis by (simp add: assms(2))
  qed
  obtain xs where xs: "list_all (event_asks e w) xs" "ws_coordinator (web_step tok ke e w) = console_session ke xs (ws_coordinator w)"
    using event_requests by blast
  obtain added where "kc_log (console_session ke xs (ws_coordinator w)) = kc_log (ws_coordinator w) @ added"
    "\<forall>k c. Live_Call k c \<in> set added \<longrightarrow> (\<exists>p a i. Begin_Approve k p a i \<in> set xs)" using session_adds by blast
  then obtain phrase a i where "Begin_Approve k phrase a i \<in> set xs" using assms(3,4) xs(2) by auto
  then have "event_asks e w (Begin_Approve k phrase a i)" using xs(1) by (simp add: list_all_iff)
  then obtain env r csrf where e: "e = Web_Post env r csrf (Post_Approve k phrase a)" "rq_method r = ''POST''" "permitted w r csrf"
    by (cases e; (rename_tac p)?) (auto elim!: asks.elims)
  from permitted_session [OF e(3)] host start(2) obtain opened where opened: "sc_session (ws_security w) = Some opened"
    "rq_cookie r = Some (cs_session opened)" "csrf = Some (cs_csrf opened)" "rq_host r = Some (sc_host (ws_security start))" by auto
  have guard: "ws_mode w = Live_Mode \<and> (\<exists>caps p. ws_capabilities w = Some caps \<and> cb_live caps = Some p)"
  proof (rule ccontr)
    assume not: "\<not> ?thesis"
    then have "handle_post ke env r (Post_Approve k phrase a) w = (Inr (Error_Page 409), w)"
      by (auto simp: approve_run_post_def bind_def split: option.splits)
    moreover obtain answer v where v: "serve_post ke env r csrf (Post_Approve k phrase a) w = (answer, v)" by fastforce
    ultimately have "web_step tok ke e w = w" using serve_post_cases [OF v] by (auto simp: e(1) v)
    with assms(3,4) show False by simp
  qed
  obtain cs en where caps: "ws_capabilities w = Some (resolve_capabilities cs (ws_mode w) en)" using w by (auto simp: installed_def)
  with guard obtain p where p: "cb_live (resolve_capabilities cs Live_Mode en) = Some p" by auto
  obtain pack where "load_contract cs = Inr (Some pack)" "uc_status pack = Accepted_Pack"
    using live_is_evidence [OF refl, of cs Live_Mode en] p by auto
  with caps p guard have "\<exists>contracts entries p pack. ws_capabilities w = Some (resolve_capabilities contracts Live_Mode entries) \<and>
      cb_live (resolve_capabilities contracts Live_Mode entries) = Some p \<and>
      load_contract contracts = Inr (Some pack) \<and> uc_status pack = Accepted_Pack" by metis
  with e opened guard show ?thesis by blast
qed

section \<open>An approved run on the web\<close>

definition ex_signed_in :: console_security where
  "ex_signed_in = door_step ex_tok (Sign_In (ex_post ''/bootstrap'' None) (ex_tok 0)) ex_door"

lemma ex_signed_in_eq:
  "ex_signed_in = ex_door\<lparr>sc_session := Some \<lparr>cs_session = ex_tok 1, cs_csrf = ex_tok 2\<rparr>, sc_launch := ex_tok 3, sc_drawn := 4\<rparr>"
  by code_simp

lemma ex_admitted:
  assumes "ws_security v = ex_signed_in"
  shows "permitted v (ex_post p (Some (ex_tok 1))) (Some (ex_tok 2))"
proof -
  have same: "compare_digest ''console.example.org'' ''console.example.org'' = Inr True"
    "compare_digest (without_slashes ''https://console.example.org/'') ''https://console.example.org'' = Inr True"
    "compare_digest (ex_tok 1) (ex_tok 1) = Inr True" "compare_digest (ex_tok 2) (ex_tok 2) = Inr True"
    by code_simp+
  have "host_allowed ex_signed_in (ex_post p (Some (ex_tok 1))) = Inr True"
    using same(1) by (simp add: host_allowed_def ex_signed_in_eq ex_door_def ex_post_def)
  moreover have "origin_allowed ex_signed_in (ex_post p (Some (ex_tok 1))) = Inr True"
    using same(2) by (simp add: origin_allowed_def ex_signed_in_eq ex_door_def ex_post_def)
  moreover have "authenticated ex_signed_in (ex_post p (Some (ex_tok 1))) = Inr True"
    using same(3) by (simp add: authenticated_def ex_signed_in_eq ex_post_def ex_tok_def)
  moreover have "require_csrf ex_signed_in (ex_tok 2) = Inr ()"
    using same(4) by (simp add: require_csrf_def csrf_token_def ex_signed_in_eq)
  ultimately show ?thesis by (simp add: permitted_def protect_def authorize_post_def assms)
qed

definition ex_web_env :: web_env where
  "ex_web_env = \<lparr>we_idna = Some, we_contracts = ex_contracts, we_entries = ex_entries, we_save_fails = None,
     we_retention = ex_retention, we_approval_id = ''1''\<rparr>"

definition ex_start :: web_state where
  "ex_start = \<lparr>ws_security = ex_door,
     ws_coordinator = new_coordinator (Some (save_journal False [] ex_journal)) [] True True, ws_mode = Live_Mode, ws_headless = False,
     ws_admin = ''admin@example.org'', ws_domain = ''example.org'', ws_config = Some ex_env_file, ws_capabilities = Some ex_capabilities,
     ws_health = \<lparr>rc_ttl = 30, rc_capabilities = Some ex_capabilities, rc_cached = None\<rparr>, ws_removed = []\<rparr>"

lemma ex_start_made:
  "create_console_app ex_tok (\<lambda>_. False) 8765 (Some ''https://console.example.org/'') ex_app_settings ex_contracts ex_entries
     (Aware 0) (Inr [Other_Version ''2'' ''x'']) False ex_env_file 30 = Inr ex_start"
  using ex_door_new ex_opened ex_pack_admitted
  by (simp add: create_console_app_def Let_def ex_app_settings_def ex_capabilities_def ex_start_def)

definition ex_form :: "post \<Rightarrow> web_event" where
  "ex_form p = Web_Post ex_web_env (ex_post (post_path p) (Some (ex_tok 1))) (Some (ex_tok 2)) p"

definition ex_at :: "coordinator \<Rightarrow> web_state" where
  "ex_at c = ex_start\<lparr>ws_security := ex_signed_in, ws_coordinator := c\<rparr>"

lemma ex_form_step:
  "web_step ex_tok ex_console (ex_form p) (ex_at c) = snd (handle_post ex_console ex_web_env (ex_post (post_path p) (Some (ex_tok 1))) p (ex_at c))"
proof -
  have "permitted (ex_at c) (ex_post q (Some (ex_tok 1))) (Some (ex_tok 2))" for q
    by (rule ex_admitted) (simp add: ex_at_def)
  then show ?thesis
    by (auto simp: ex_form_def serve_post_def permitted_def ex_post_def split: prod.splits sum.splits)
qed

lemma ex_at_step [simp]: "(ex_at c)\<lparr>ws_coordinator := d\<rparr> = ex_at d"
  by (simp add: ex_at_def)

lemma ex_run_step:
  "web_step ex_tok ex_console (ex_form (Post_Run ''block'')) (ex_at c) = ex_at (console_step ex_console (Start_Run ''block'' Live_Mode) c)"
  unfolding ex_form_step by (auto simp: create_run_def bind_def on_coordinator_def ex_at_def ex_start_def split: prod.splits sum.splits)

lemma ex_preview_step:
  assumes "dict_get (kc_runs c) k = Some run" and "kr_mode run = Live_Mode"
  shows "web_step ex_tok ex_console (ex_form (Post_Preview k)) (ex_at c) = ex_at (console_step ex_console (Begin_Preview k) c)"
  unfolding ex_form_step using assms
  by (auto simp: preview_run_def bind_def andthen_def on_coordinator_def ex_at_def ex_start_def ex_capabilities_def
      split: prod.splits sum.splits)

lemma ex_approve_step:
  "web_step ex_tok ex_console (ex_form (Post_Approve k p a)) (ex_at c) = ex_at (console_step ex_console (Begin_Approve k p a ''1'') c)"
  unfolding ex_form_step
  by (auto simp: approve_run_post_def bind_def andthen_def on_coordinator_def ex_at_def ex_start_def ex_capabilities_def ex_web_env_def
      split: prod.splits sum.splits)

lemma ex_answer_step:
  "background x \<Longrightarrow> web_step ex_tok ex_console (Web_Answer x) (ex_at c) = ex_at (console_step ex_console x c)"
  by (simp add: ex_at_def)

definition ex_asked :: "console_request list" where
  "ex_asked = [Start_Run ''block'' Live_Mode, Begin_Plan ex_run_id, Finish_Plan ex_run_id (Inr ex_create)]"

definition ex_shown_run :: "console_request list" where
  "ex_shown_run = [Begin_Preview ex_run_id, Finish_Preview ex_run_id Live_Mode (Inr ex_preview)]"

definition ex_events :: "web_event list" where
  "ex_events = [Web_Door (Sign_In (ex_post ''/bootstrap'' None) (ex_tok 0)), ex_form (Post_Run ''block''),
     Web_Answer (Begin_Plan ex_run_id), Web_Answer (Finish_Plan ex_run_id (Inr ex_create)), ex_form (Post_Preview ex_run_id),
     Web_Answer (Finish_Preview ex_run_id Live_Mode (Inr ex_preview))]"

lemma ex_asked_run:
  "\<exists>r. dict_get (kc_runs (console_session ex_console ex_asked (ws_coordinator ex_start))) ex_run_id = Some r \<and> kr_mode r = Live_Mode"
  by (simp add: ex_start_def ex_asked_def console_runs_defs begin_plan_def finish_plan_def act_defs new_coordinator_def ex_console_def
      dict_of_def ex_block_text ex_run_identifier Let_def)

lemma ex_approved_log:
  "\<exists>now. kc_log (console_session ex_console (ex_asked @ ex_shown_run @ [Begin_Approve ex_run_id ''APPLY 0000'' True ''1'']) (ws_coordinator ex_start)) =
   kc_log (console_session ex_console (ex_asked @ ex_shown_run) (ws_coordinator ex_start)) @
     [Approval_Event (Spent ex_run_id ''APPLY 0000'' ex_response now), Live_Call ex_run_id ex_response]"
  by (simp add: ex_start_def ex_asked_def ex_shown_run_def console_runs_defs begin_plan_def finish_plan_def act_defs
      new_coordinator_def ex_console_def dict_of_def ex_block_text ex_run_identifier Let_def preview_phase_def ex_preview_def
      issue_approval_def make_pending_approval_def ex_response_def approve_run_def phrase_accepted_def compare_digest_def
      make_confirmation_response_def)

lemma ex_events_run:
  "web_session ex_tok ex_console ex_events ex_start =
     ex_at (console_session ex_console (ex_asked @ ex_shown_run) (ws_coordinator ex_start))"
proof -
  let ?c = "ws_coordinator ex_start"
  have door: "web_step ex_tok ex_console (Web_Door (Sign_In (ex_post ''/bootstrap'' None) (ex_tok 0))) ex_start = ex_at ?c"
    by (simp add: ex_at_def ex_signed_in_def ex_start_def)
  obtain r where r: "dict_get (kc_runs (console_session ex_console ex_asked ?c)) ex_run_id = Some r" "kr_mode r = Live_Mode"
    using ex_asked_run by blast
  have asked: "web_step ex_tok ex_console (Web_Answer (Finish_Plan ex_run_id (Inr ex_create)))
      (web_step ex_tok ex_console (Web_Answer (Begin_Plan ex_run_id)) (web_step ex_tok ex_console (ex_form (Post_Run ''block'')) (ex_at ?c))) =
      ex_at (console_session ex_console ex_asked ?c)"
    unfolding ex_run_step by (simp add: ex_answer_step ex_asked_def del: web_step.simps console_step.simps)
  have "web_session ex_tok ex_console ex_events ex_start =
      web_step ex_tok ex_console (Web_Answer (Finish_Preview ex_run_id Live_Mode (Inr ex_preview)))
        (web_step ex_tok ex_console (ex_form (Post_Preview ex_run_id)) (ex_at (console_session ex_console ex_asked ?c)))"
    unfolding asked [symmetric] door [symmetric] by (simp add: web_session_def ex_events_def del: web_step.simps)
  also have "\<dots> = ex_at (console_session ex_console (ex_asked @ ex_shown_run) ?c)"
    unfolding ex_preview_step [OF r]
    by (simp add: ex_answer_step session_append ex_shown_run_def del: web_step.simps console_step.simps)
  finally show ?thesis .
qed

theorem live_execution_needs_the_operator_witness:
  "\<exists>opened. sc_session (ws_security (web_session ex_tok ex_console ex_events ex_start)) = Some opened \<and>
     Some (ex_tok 1) = Some (cs_session opened) \<and>
     ws_mode (web_session ex_tok ex_console ex_events ex_start) = Live_Mode"
proof -
  let ?w = "web_session ex_tok ex_console ex_events ex_start"
  let ?e = "ex_form (Post_Approve ex_run_id ''APPLY 0000'' True)"
  obtain now where "kc_log (ws_coordinator (web_step ex_tok ex_console ?e ?w)) = kc_log (ws_coordinator ?w) @
      [Approval_Event (Spent ex_run_id ''APPLY 0000'' ex_response now), Live_Call ex_run_id ex_response]"
    using ex_approved_log unfolding ex_events_run ex_approve_step
    by (auto simp: session_append ex_at_def simp del: console_step.simps)
  from live_execution_needs_the_operator [OF ex_start_made refl this, of ex_run_id ex_response] show ?thesis
    by (auto simp: ex_form_def ex_post_def)
qed

end
