(* ===== verification/Structured_Output.thy ===== *)
theory Structured_Output
  imports Task_Plan Effects
begin

text \<open>
  \<^verbatim>\<open>llm/structured.py\<close>: one JSON object out of the reply of a language model, and the
  bounded loop that asks again with the validation errors. The reader of the JSON text
  (\<^verbatim>\<open>model_validate_json\<close>, which gives the value or the text of its error), the client
  and the texts of \<^verbatim>\<open>llm/prompts.py\<close> and \<^verbatim>\<open>llm/examples.py\<close> are parameters.
\<close>

abbreviation line_feed :: char where "line_feed \<equiv> CHR 0x0A"

section \<open>Extraction of one object\<close>

text \<open>The reply without a surrounding fence; \<^verbatim>\<open>candidate[first_newline + 1 : -3]\<close>.\<close>

definition candidate_text :: "string \<Rightarrow> string" where
  "candidate_text raw =
     (let c = py_strip raw
      in if py_startswith c ''```'' \<and> py_endswith c ''```'' \<and> line_feed \<in> set c
         then py_strip (drop (Suc (length (takeWhile (\<lambda>x. x \<noteq> line_feed) c))) (take (length c - 3) c))
         else c)"

text \<open>
  The scan: the depth of braces, whether a string is open, whether the last character of it
  was a backslash. The result is the number of characters up to the closing brace.
\<close>

fun scan_block :: "int \<Rightarrow> bool \<Rightarrow> bool \<Rightarrow> string \<Rightarrow> nat option" where
  "scan_block depth in_string escaped [] = None"
| "scan_block depth True escaped (c # cs) =
     map_option Suc
       (if escaped then scan_block depth True False cs
        else if c = CHR 0x5C then scan_block depth True True cs
        else if c = CHR 0x22 then scan_block depth False escaped cs
        else scan_block depth True escaped cs)"
| "scan_block depth False escaped (c # cs) =
     (if c = CHR 0x22 then map_option Suc (scan_block depth True escaped cs)
      else if c = CHR 0x7B then map_option Suc (scan_block (depth + 1) False escaped cs)
      else if c = CHR 0x7D then
        (if depth - 1 = 0 then Some 1
         else if depth - 1 < 0 then None
         else map_option Suc (scan_block (depth - 1) False escaped cs))
      else map_option Suc (scan_block depth False escaped cs))"

definition extract_json_block :: "string \<Rightarrow> string + string" where
  "extract_json_block raw =
     (let c = candidate_text raw; rest = dropWhile (\<lambda>x. x \<noteq> CHR 0x7B) c
      in if rest = [] then Inl ''model output does not contain a JSON object''
         else case scan_block 0 False False rest of
             None \<Rightarrow> Inl ''model output contains an incomplete JSON object''
           | Some n \<Rightarrow>
               if CHR 0x7B \<in> set (drop n rest) then Inl ''model output contains several competing JSON objects''
               else Inr (take n rest))"

section \<open>The model's answers\<close>

text \<open>What a call of the API gives; \<^verbatim>\<open>APITimeoutError\<close> is a connection error.\<close>

datatype 'c answer = Answer 'c | Connection_Error | Timeout_Error | Status_Error int string | Other_Error exn

definition is_grammar_rejection :: "int \<Rightarrow> string \<Rightarrow> bool" where
  "is_grammar_rejection status message \<longleftrightarrow> status = 400 \<and> py_contains (py_casefold message) ''failed to parse grammar''"

fun completion_content :: "string option answer \<Rightarrow> string answer" where
  "completion_content (Answer (Some content)) = Answer content"
| "completion_content (Answer None) = Other_Error PlannerFailure"
| "completion_content Connection_Error = Connection_Error"
| "completion_content Timeout_Error = Timeout_Error"
| "completion_content (Status_Error status message) = Status_Error status message"
| "completion_content (Other_Error e) = Other_Error e"

text \<open>\<^verbatim>\<open>OllamaOpenAIClient.complete\<close>: \<open>request strict\<close> is the call with the schema or with any JSON object.\<close>

definition ollama_complete :: "(bool \<Rightarrow> string option answer) \<Rightarrow> string answer" where
  "ollama_complete request =
     (case request True of
        Status_Error status message \<Rightarrow>
          if is_grammar_rejection status message then completion_content (request False)
          else Status_Error status message
      | first \<Rightarrow> completion_content first)"

text \<open>\<^verbatim>\<open>str.isascii() and str.isalnum()\<close>.\<close>

definition ascii_alnum :: "char \<Rightarrow> bool" where
  "ascii_alnum c \<longleftrightarrow> (let n = (of_char c :: nat) in 48 \<le> n \<and> n \<le> 57 \<or> 65 \<le> n \<and> n \<le> 90 \<or> 97 \<le> n \<and> n \<le> 122)"

definition schema_name :: "string option \<Rightarrow> string" where
  "schema_name title =
     (let candidate = (case title of None \<Rightarrow> ''structured_output'' | Some t \<Rightarrow> t);
          visible = map (\<lambda>c. if ascii_alnum c \<or> c = CHR ''-'' \<or> c = CHR ''_'' then c else CHR ''_'') candidate;
          stripped = rev (dropWhile (\<lambda>c. c = CHR ''_'') (rev (dropWhile (\<lambda>c. c = CHR ''_'') visible)))
      in if take 64 stripped = [] then ''structured_output'' else take 64 stripped)"

section \<open>Asking again\<close>

record planner_attempt =
  pa_raw :: string
  pa_extracted :: bool
  pa_errors :: "string list"

text \<open>A chat message: its role and its content.\<close>

type_synonym chat_line = "string \<times> string"

type_synonym 'a checked = "string \<Rightarrow> 'a option \<times> planner_attempt"

text \<open>The state is the list of the conversations sent so far.\<close>

type_synonym client = "nat \<Rightarrow> chat_line list \<Rightarrow> string answer"

definition ask_model :: "client \<Rightarrow> chat_line list \<Rightarrow> (chat_line list list, string answer) act" where
  "ask_model client messages sent = (Inr (client (length sent) messages), sent @ [messages])"

fun attempt_loop ::
    "client \<Rightarrow> 'a checked \<Rightarrow> (string \<Rightarrow> string list \<Rightarrow> chat_line list) \<Rightarrow> nat \<Rightarrow> chat_line list \<Rightarrow>
      planner_attempt list \<Rightarrow> (chat_line list list, 'a \<times> planner_attempt list) act" where
  "attempt_loop client check correct 0 messages attempts = raise PlannerFailure"
| "attempt_loop client check correct (Suc k) messages attempts =
     bind (ask_model client messages) (\<lambda>reply. case reply of
         Answer raw \<Rightarrow>
           (case check raw of (outcome, attempt) \<Rightarrow>
             (case outcome of
                Some x \<Rightarrow> return (x, attempts @ [attempt])
              | None \<Rightarrow> attempt_loop client check correct k (correct raw (pa_errors attempt)) (attempts @ [attempt])))
       | Other_Error e \<Rightarrow> raise e
       | _ \<Rightarrow> raise PlannerFailure)"

text \<open>
  Both readers of a reply: the text as it is, then the one object in it. \<open>reads\<close> gives the
  value or the text of the error.
\<close>

definition read_reply :: "(string \<Rightarrow> string + 'a) \<Rightarrow> 'a checked" where
  "read_reply reads raw =
     (case reads raw of
        Inr x \<Rightarrow> (Some x, \<lparr>pa_raw = raw, pa_extracted = False, pa_errors = []\<rparr>)
      | Inl direct \<Rightarrow>
          (case (case extract_json_block raw of Inl e \<Rightarrow> Inl e | Inr block \<Rightarrow> reads block) of
             Inl e \<Rightarrow> (None, \<lparr>pa_raw = raw, pa_extracted = True, pa_errors = [direct, e]\<rparr>)
           | Inr x \<Rightarrow> (Some x, \<lparr>pa_raw = raw, pa_extracted = True, pa_errors = []\<rparr>)))"

section \<open>The planner\<close>

record dialogue =
  dg_client :: client
  dg_prompt :: string
  dg_examples :: "(string \<times> string) list"

record structured_planner =
  sp_model :: string
  sp_retries :: nat

text \<open>The constructor; \<open>warm\<close> says that the temperature is not zero.\<close>

definition make_structured_planner :: "string \<Rightarrow> bool \<Rightarrow> int \<Rightarrow> structured_planner res" where
  "make_structured_planner model warm max_retries =
     (if py_strip model = [] then Inl ValueError
      else if warm then Inl ValueError
      else if \<not> (0 \<le> max_retries \<and> max_retries \<le> 3) then Inl ValueError
      else Inr \<lparr>sp_model = py_strip model, sp_retries = nat max_retries\<rparr>)"

record 'a planner_result =
  pl_value :: 'a
  pl_model :: string
  pl_attempts :: "planner_attempt list"

definition initial_messages :: "'d dialogue_scheme \<Rightarrow> string \<Rightarrow> chat_line list" where
  "initial_messages d request =
     (''system'', dg_prompt d) #
     concat (map (\<lambda>(question, reply). [(''user'', question), (''assistant'', reply)]) (dg_examples d)) @
     [(''user'', request)]"

definition correction_text :: "string \<Rightarrow> string \<Rightarrow> string \<Rightarrow> string list \<Rightarrow> string" where
  "correction_text label request invalid_output errors =
     label @ [line_feed] @ request @ [line_feed, line_feed] @ ''Invalid output:'' @ [line_feed] @ invalid_output @
     [line_feed, line_feed] @ ''Validation errors:'' @ [line_feed] @ py_join [line_feed] errors @
     [line_feed, line_feed] @ ''Return only one corrected object matching the unchanged supplied JSON Schema.''"

definition corrective_messages :: "'d dialogue_scheme \<Rightarrow> string \<Rightarrow> string \<Rightarrow> string list \<Rightarrow> chat_line list" where
  "corrective_messages d request invalid_output errors =
     [(''system'', dg_prompt d), (''user'', correction_text ''Original request:'' request invalid_output errors)]"

definition structured_plan ::
    "'d dialogue_scheme \<Rightarrow> (string \<Rightarrow> string + task_plan) \<Rightarrow> structured_planner \<Rightarrow> string \<Rightarrow>
      (chat_line list list, task_plan planner_result) act" where
  "structured_plan d reads planner request_text =
     (let request = py_strip request_text
      in if request = [] \<or> length request > 10000 then raise PlannerFailure
         else bind (attempt_loop (dg_client d) (read_reply reads) (corrective_messages d request) (Suc (sp_retries planner))
             (initial_messages d request) []) (\<lambda>(plan, attempts).
           return \<lparr>pl_value = plan, pl_model = sp_model planner, pl_attempts = attempts\<rparr>))"

text \<open>\<^verbatim>\<open>PlanningService.create_plan\<close>.\<close>

definition create_plan ::
    "'d dialogue_scheme \<Rightarrow> (string \<Rightarrow> string + task_plan) \<Rightarrow> structured_planner \<Rightarrow> string \<Rightarrow>
      (chat_line list list, task_plan) act" where
  "create_plan d reads planner request_text =
     bind (structured_plan d reads planner request_text) (\<lambda>r. return (pl_value r))"

section \<open>What the extraction finds\<close>

text \<open>One character of the scan, and the depth never below a bound.\<close>

type_synonym scan_state = "int \<times> bool \<times> bool"

fun scan_step :: "char \<Rightarrow> scan_state \<Rightarrow> scan_state" where
  "scan_step c (d, True, e) =
     (if e then (d, True, False) else if c = CHR 0x5C then (d, True, True)
      else if c = CHR 0x22 then (d, False, e) else (d, True, e))"
| "scan_step c (d, False, e) =
     (if c = CHR 0x22 then (d, True, e) else if c = CHR 0x7B then (d + 1, False, e)
      else if c = CHR 0x7D then (d - 1, False, e) else (d, False, e))"

definition scan_text :: "string \<Rightarrow> scan_state \<Rightarrow> scan_state" where
  "scan_text t st = fold scan_step t st"

fun stays_above :: "int \<Rightarrow> string \<Rightarrow> scan_state \<Rightarrow> bool" where
  "stays_above m [] st = (m \<le> fst st)"
| "stays_above m (c # cs) st = (m \<le> fst st \<and> stays_above m cs (scan_step c st))"

text \<open>
  A text is one object when it opens a brace, closes it at the end, and closes none of the
  outer ones before; braces in strings do not count.
\<close>

definition one_object :: "string \<Rightarrow> bool" where
  "one_object b \<longleftrightarrow> 2 \<le> length b \<and> hd b = CHR 0x7B \<and> last b = CHR 0x7D \<and>
     (let inner = butlast (tl b)
      in stays_above 1 inner (1, False, False) \<and> scan_text inner (1, False, False) = (1, False, False))"

lemma scan_text_simps [simp]:
  "scan_text [] st = st" "scan_text (c # cs) st = scan_text cs (scan_step c st)"
  "scan_text (s @ t) st = scan_text t (scan_text s st)"
  by (simp_all add: scan_text_def)

lemma stays_above_append [simp]:
  "stays_above m (s @ t) st \<longleftrightarrow> stays_above m s st \<and> stays_above m t (scan_text s st)"
proof (induction s arbitrary: st)
  case Nil
  show ?case by (cases t) auto
qed auto

lemma scan_block_step:
  assumes "1 \<le> d" and "scan_step c (d, s, e) = (d', s', e')"
  shows "scan_block d s e (c # cs) = (if d' = 0 then Some 1 else map_option Suc (scan_block d' s' e' cs))"
  using assms by (cases s) (auto split: if_splits)

lemma scan_step_depth:
  assumes "1 \<le> d" and "scan_step c (d, s, e) = (d', s', e')"
  shows "0 \<le> d'" and "d' = 0 \<longleftrightarrow> \<not> s \<and> c = CHR 0x7D \<and> d = 1" and "(\<not> s \<longrightarrow> \<not> e) \<Longrightarrow> (\<not> s' \<longrightarrow> \<not> e')"
  using assms by (cases s; auto split: if_splits)+

text \<open>Outside of strings nothing is escaped.\<close>

definition closes :: "scan_state \<Rightarrow> string \<Rightarrow> nat \<Rightarrow> bool" where
  "closes st cs n \<longleftrightarrow> (\<exists>inner rest. cs = inner @ CHR 0x7D # rest \<and> n = Suc (length inner) \<and> stays_above 1 inner st \<and>
     scan_text inner st = (1, False, False))"

lemma closes_Nil: "\<not> closes st [] n"
  by (simp add: closes_def)

lemma closes_Cons:
  assumes "1 \<le> fst st"
  shows "closes st (c # cs) n \<longleftrightarrow> c = CHR 0x7D \<and> st = (1, False, False) \<and> n = 1 \<or>
    (\<exists>m. n = Suc m \<and> closes (scan_step c st) cs m)"
proof
  assume "closes st (c # cs) n"
  then obtain inner rest where b: "c # cs = inner @ CHR 0x7D # rest" "n = Suc (length inner)"
    "stays_above 1 inner st" "scan_text inner st = (1, False, False)" unfolding closes_def by blast
  show "c = CHR 0x7D \<and> st = (1, False, False) \<and> n = 1 \<or> (\<exists>m. n = Suc m \<and> closes (scan_step c st) cs m)"
  proof (cases inner)
    case Nil
    with b show ?thesis by simp
  next
    case (Cons x xs)
    with b show ?thesis by (auto simp: closes_def)
  qed
next
  assume "c = CHR 0x7D \<and> st = (1, False, False) \<and> n = 1 \<or> (\<exists>m. n = Suc m \<and> closes (scan_step c st) cs m)"
  then show "closes st (c # cs) n"
  proof
    assume "c = CHR 0x7D \<and> st = (1, False, False) \<and> n = 1"
    then show ?thesis unfolding closes_def by (intro exI [of _ "[]"] exI [of _ cs]) simp
  next
    assume "\<exists>m. n = Suc m \<and> closes (scan_step c st) cs m"
    then obtain inner rest where "cs = inner @ CHR 0x7D # rest" "n = Suc (Suc (length inner))"
      "stays_above 1 inner (scan_step c st)" "scan_text inner (scan_step c st) = (1, False, False)"
      unfolding closes_def by blast
    then show ?thesis unfolding closes_def using assms by (intro exI [of _ "c # inner"] exI [of _ rest]) simp
  qed
qed

lemma not_closes_below: "fst st < 1 \<Longrightarrow> \<not> closes st cs n"
  unfolding closes_def by (metis stays_above.elims(2) not_less)

lemma scan_block_closes:
  "1 \<le> d \<Longrightarrow> (\<not> s \<longrightarrow> \<not> e) \<Longrightarrow> scan_block d s e cs = Some n \<longleftrightarrow> closes (d, s, e) cs n"
proof (induction cs arbitrary: d s e n)
  case (Cons c cs)
  obtain d' s' e' where st: "scan_step c (d, s, e) = (d', s', e')" by (cases "scan_step c (d, s, e)")
  note depth = scan_step_depth [OF Cons.prems(1) st]
  note step = scan_block_step [OF Cons.prems(1) st, of cs] and split = closes_Cons [of "(d, s, e)" c cs n, simplified fst_conv, OF Cons.prems(1)]
  show ?case
  proof (cases "d' = 0")
    case True
    then have "\<not> closes (scan_step c (d, s, e)) cs m" for m using not_closes_below st by simp
    then show ?thesis using step split True depth(2) Cons.prems(2) by auto
  next
    case False
    then have "1 \<le> d'" using depth(1) by linarith
    note ih = Cons.IH [OF this depth(3) [OF Cons.prems(2)]]
    have "\<not> (c = CHR 0x7D \<and> (d, s, e) = (1, False, False))" using False depth(2) by auto
    then show ?thesis using step split False ih st by (cases n) auto
  qed
qed (simp add: closes_Nil)

lemma one_object_iff:
  "one_object b \<longleftrightarrow> (\<exists>inner. b = CHR 0x7B # inner @ [CHR 0x7D] \<and> stays_above 1 inner (1, False, False) \<and>
     scan_text inner (1, False, False) = (1, False, False))"
proof
  assume b: "one_object b"
  then have "b = hd b # butlast (tl b) @ [last b]"
    by (cases b; cases "tl b" rule: rev_cases) (auto simp: one_object_def)
  with b show "\<exists>inner. b = CHR 0x7B # inner @ [CHR 0x7D] \<and> stays_above 1 inner (1, False, False) \<and>
     scan_text inner (1, False, False) = (1, False, False)"
    unfolding one_object_def Let_def by metis
qed (auto simp: one_object_def)

lemma scan_from_brace:
  "scan_block 0 False False (CHR 0x7B # cs) = Some n \<longleftrightarrow> (\<exists>m. n = Suc m \<and> closes (1, False, False) cs m)"
  using scan_block_closes [of 1 False False cs] by auto

lemma extract_iff:
  "extract_json_block raw = Inr b \<longleftrightarrow> (\<exists>pre post. candidate_text raw = pre @ b @ post \<and> CHR 0x7B \<notin> set pre \<and>
     CHR 0x7B \<notin> set post \<and> one_object b)"
proof
  let ?c = "candidate_text raw" and ?p = "\<lambda>x. x \<noteq> CHR 0x7B"
  assume "extract_json_block raw = Inr b"
  then obtain n where n: "dropWhile ?p ?c \<noteq> []" "scan_block 0 False False (dropWhile ?p ?c) = Some n"
    "CHR 0x7B \<notin> set (drop n (dropWhile ?p ?c))" "b = take n (dropWhile ?p ?c)"
    by (auto simp: extract_json_block_def Let_def split: if_splits option.splits)
  obtain cs where cs: "dropWhile ?p ?c = CHR 0x7B # cs"
    using n(1) hd_dropWhile [OF n(1)] by (cases "dropWhile ?p ?c") auto
  then obtain inner rest where i: "cs = inner @ CHR 0x7D # rest" "n = Suc (Suc (length inner))"
      "stays_above 1 inner (1, False, False)" "scan_text inner (1, False, False) = (1, False, False)"
    using n(2) unfolding cs scan_from_brace closes_def by blast
  then have b: "b = CHR 0x7B # inner @ [CHR 0x7D]" "drop n (dropWhile ?p ?c) = rest" using n(4) cs by simp_all
  have "?c = takeWhile ?p ?c @ b @ rest"
    using takeWhile_dropWhile_id [of ?p ?c] b cs i(1) by (metis append_Cons append_Nil append.assoc)
  moreover have "CHR 0x7B \<notin> set (takeWhile ?p ?c)" by (auto dest: set_takeWhileD)
  moreover have "one_object b" using b(1) i(3,4) unfolding one_object_iff by blast
  ultimately show "\<exists>pre post. ?c = pre @ b @ post \<and> CHR 0x7B \<notin> set pre \<and> CHR 0x7B \<notin> set post \<and> one_object b"
    using n(3) b(2) by metis
next
  assume "\<exists>pre post. candidate_text raw = pre @ b @ post \<and> CHR 0x7B \<notin> set pre \<and> CHR 0x7B \<notin> set post \<and> one_object b"
  then obtain pre post inner where c: "candidate_text raw = pre @ CHR 0x7B # inner @ CHR 0x7D # post"
      "b = CHR 0x7B # inner @ [CHR 0x7D]" "CHR 0x7B \<notin> set pre" "CHR 0x7B \<notin> set post"
      "stays_above 1 inner (1, False, False)" "scan_text inner (1, False, False) = (1, False, False)"
    unfolding one_object_iff by auto
  have d: "dropWhile (\<lambda>x. x \<noteq> CHR 0x7B) (candidate_text raw) = CHR 0x7B # inner @ CHR 0x7D # post"
    unfolding c(1) using c(3) by (subst dropWhile_append2) auto
  moreover have "scan_block 0 False False (CHR 0x7B # inner @ CHR 0x7D # post) = Some (Suc (Suc (length inner)))"
    unfolding scan_from_brace closes_def using c(5,6) by blast
  ultimately show "extract_json_block raw = Inr b"
    using c(2,4) by (simp add: extract_json_block_def Let_def del: scan_block.simps dropWhile_eq_Nil_conv)
qed

section \<open>Rendered objects\<close>

text \<open>A text that leaves the scan where it was and never goes below its depth.\<close>

definition level :: "string \<Rightarrow> bool" where
  "level t \<longleftrightarrow> (\<forall>d. stays_above d t (d, False, False) \<and> scan_text t (d, False, False) = (d, False, False))"

lemma stays_above_mono: "stays_above m t st \<Longrightarrow> k \<le> m \<Longrightarrow> stays_above k t st"
  by (induction t arbitrary: st) auto

lemma level_Nil [simp]: "level []"
  by (simp add: level_def)

lemma level_append: "level s \<Longrightarrow> level t \<Longrightarrow> level (s @ t)"
  by (simp add: level_def)

lemma level_join: "level sep \<Longrightarrow> (\<And>t. t \<in> set ts \<Longrightarrow> level t) \<Longrightarrow> level (py_join sep ts)"
  by (induction sep ts rule: py_join.induct) (auto intro: level_append)

lemma level_plain: "set t \<inter> {CHR 0x22, CHR 0x7B, CHR 0x7D} = {} \<Longrightarrow> level t"
proof (induction t)
  case (Cons c t)
  then show ?case by (auto simp: level_def)
qed simp

lemma level_braces: "level t \<Longrightarrow> level (CHR 0x7B # t @ [CHR 0x7D])"
  unfolding level_def by (auto intro: stays_above_mono)

lemma level_brackets: "level t \<Longrightarrow> level (CHR 0x5B # t @ [CHR 0x5D])"
  unfolding level_def by auto

lemma scan_escape:
  "scan_text (json_escape c) (d, True, False) = (d, True, False) \<and> stays_above d (json_escape c) (d, True, False)"
proof (cases "\<exists>k. json_escape c = CHR 0x5C # CHR ''u'' # hex_digits 4 k")
  case True
  have plain: "scan_text t (d, True, False) = (d, True, False) \<and> stays_above d t (d, True, False)"
    if "CHR 0x5C \<notin> set t" "CHR 0x22 \<notin> set t" for t
    using that by (induction t) auto
  have "CHR 0x5C \<notin> set (hex_digits 4 k) \<and> CHR 0x22 \<notin> set (hex_digits 4 k)" for k
  proof -
    have digit: "hex_char n \<noteq> CHR 0x5C \<and> hex_char n \<noteq> CHR 0x22" if "n < 16" for n
      using of_char_hex_char [OF that] that by (auto split: if_splits)
    have "x \<noteq> CHR 0x5C \<and> x \<noteq> CHR 0x22" if "x \<in> set (hex_digits j m)" for x j m
      using that digit by (induction j arbitrary: m) auto
    then show ?thesis by blast
  qed
  with True plain show ?thesis by auto
next
  case False
  then show ?thesis by (auto simp: json_escape_def Let_def split: if_splits)
qed

lemma level_json_string: "level (json_string s)"
proof -
  have "scan_text (concat (map json_escape s)) (d, True, False) = (d, True, False) \<and>
    stays_above d (concat (map json_escape s)) (d, True, False)" for d
    by (induction s) (simp_all add: scan_escape)
  then show ?thesis by (simp add: level_def json_string_def)
qed

lemma level_show_int: "level (show_int i)"
proof -
  have "set (show_nat n) \<inter> {CHR 0x22, CHR 0x7B, CHR 0x7D} = {}" for n
    using show_nat_digits [of n] by (auto simp: is_digit_char_def)
  then show ?thesis by (intro level_plain) (auto simp: show_int_def)
qed

lemma level_json_render:
  assumes "level a" and "level k"
  shows "level (json_render a k v)"
  using assms
proof (induction a k v rule: json_render.induct)
  case (5 a k xs)
  then show ?case by (auto intro!: level_brackets level_join)
next
  case (6 a k kvs)
  then show ?case by (auto intro!: level_braces level_join level_append level_json_string)
qed (auto simp: level_json_string level_show_int intro: level_plain)

lemma one_object_render:
  assumes "level a" and "level k"
  shows "one_object (json_render a k (JObj kvs))"
proof -
  have "level (py_join a (map (\<lambda>(key, v). json_string key @ k @ json_render a k v) kvs))" (is "level ?t")
    using assms level_json_render [OF assms] by (auto intro!: level_join level_append level_json_string)
  then have "stays_above 1 ?t (1, False, False) \<and> scan_text ?t (1, False, False) = (1, False, False)"
    unfolding level_def by simp
  then show ?thesis unfolding one_object_iff by auto
qed

section \<open>What the loop does\<close>

text \<open>
  A run of the loop over the replies \<open>raws\<close>: all but the last are refused, the attempts are
  theirs, and each conversation after the first corrects the reply before it.
\<close>

definition conversations :: "'a checked \<Rightarrow> (string \<Rightarrow> string list \<Rightarrow> chat_line list) \<Rightarrow> chat_line list \<Rightarrow> string list \<Rightarrow> chat_line list list" where
  "conversations check correct messages raws =
     messages # map (\<lambda>raw. correct raw (pa_errors (snd (check raw)))) (butlast raws)"

lemma attempt_loop_accepts:
  assumes "attempt_loop client check correct n messages before sent = (Inr (x, attempts), log)"
  shows "\<exists>raws. raws \<noteq> [] \<and> length raws \<le> n \<and> attempts = before @ map (snd \<circ> check) raws \<and>
    log = sent @ conversations check correct messages raws \<and> fst (check (last raws)) = Some x \<and>
    (\<forall>raw \<in> set (butlast raws). fst (check raw) = None) \<and>
    (\<forall>i < length raws. client (length sent + i) (conversations check correct messages raws ! i) = Answer (raws ! i))"
  using assms
proof (induction n arbitrary: messages before sent)
  case (Suc n)
  let ?reply = "client (length sent) messages"
  obtain raw where raw: "?reply = Answer raw"
    using Suc.prems by (cases ?reply) (auto simp: bind_def ask_model_def)
  show ?case
  proof (cases "fst (check raw)")
    case None
    let ?next = "correct raw (pa_errors (snd (check raw)))"
    have "attempt_loop client check correct n ?next (before @ [snd (check raw)]) (sent @ [messages]) = (Inr (x, attempts), log)"
      using Suc.prems raw None by (cases "check raw") (simp add: bind_def ask_model_def)
    from Suc.IH [OF this] obtain raws where r: "raws \<noteq> []" "length raws \<le> n"
      "attempts = (before @ [snd (check raw)]) @ map (snd \<circ> check) raws"
      "log = (sent @ [messages]) @ conversations check correct ?next raws" "fst (check (last raws)) = Some x"
      "\<forall>raw \<in> set (butlast raws). fst (check raw) = None"
      "\<forall>i < length raws. client (length (sent @ [messages]) + i) (conversations check correct ?next raws ! i) = Answer (raws ! i)"
      by blast
    have c: "conversations check correct messages (raw # raws) = messages # conversations check correct ?next raws"
      using r(1) by (simp add: conversations_def)
    have "client (length sent + i) (conversations check correct messages (raw # raws) ! i) = Answer ((raw # raws) ! i)"
      if "i < length (raw # raws)" for i
      using that r(7) raw unfolding c by (cases i) auto
    then show ?thesis using r None c by (intro exI [of _ "raw # raws"]) auto
  next
    case (Some y)
    have "x = y" "attempts = before @ [snd (check raw)]" "log = sent @ [messages]"
      using Suc.prems raw Some by (cases "check raw"; simp add: bind_def ask_model_def)+
    then show ?thesis using Some raw by (intro exI [of _ "[raw]"]) (simp add: conversations_def)
  qed
qed simp

lemma attempt_loop_refuses:
  assumes "attempt_loop client check correct n messages before sent = (Inl e, log)"
  shows "length log \<le> length sent + n \<and> (e = PlannerFailure \<or> (\<exists>i m. client i m = Other_Error e))"
  using assms
proof (induction n arbitrary: messages before sent)
  case (Suc n)
  let ?reply = "client (length sent) messages"
  show ?case
  proof (cases "\<exists>raw. ?reply = Answer raw \<and> fst (check raw) = None")
    case True
    then obtain raw where raw: "?reply = Answer raw" "fst (check raw) = None" by blast
    have "attempt_loop client check correct n (correct raw (pa_errors (snd (check raw)))) (before @ [snd (check raw)])
        (sent @ [messages]) = (Inl e, log)"
      using Suc.prems raw by (cases "check raw") (simp add: bind_def ask_model_def)
    from Suc.IH [OF this] show ?thesis by simp
  next
    case False
    then show ?thesis using Suc.prems
      by (cases ?reply) (auto simp: bind_def ask_model_def split: prod.splits option.splits)
  qed
qed simp

lemma read_reply_accepts:
  assumes "read_reply reads raw = (Some x, attempt)"
  shows "pa_raw attempt = raw \<and> pa_errors attempt = [] \<and>
    (if pa_extracted attempt then \<exists>block. extract_json_block raw = Inr block \<and> reads block = Inr x else reads raw = Inr x)"
  using assms by (auto simp: read_reply_def split: sum.splits)

end
