(* ===== verification/Policy_Draft.thy ===== *)
theory Policy_Draft
  imports Structured_Output Blocked_State
begin

text \<open>
  \<^verbatim>\<open>schemas/policy_draft.py\<close> and \<^verbatim>\<open>llm/policy_draft.py\<close>: the drafts a local model may
  recommend, their validators, the words that decide whether a request leaves the location of
  the content open, and the composer that asks the model for a draft.
\<close>

section \<open>Drafts\<close>

record sender_draft =
  sd_ou :: string
  sd_entries :: "address_entry list"
  sd_bypass :: "address_entry list"
  sd_default_ou :: bool

definition check_sender_draft :: "sender_draft \<Rightarrow> sender_draft res" where
  "check_sender_draft d =
     (if length (sd_ou d) < 1 \<or> length (sd_ou d) > 1000 then Inl ValidationError
      else and_then (validated (normalized_ou (sd_ou d))) (\<lambda>ou.
        if sd_entries d = [] then Inl ValidationError
        else if \<not> distinct (entry_values (sd_entries d)) \<or> \<not> distinct (entry_values (sd_bypass d)) then Inl ValidationError
        else if set (entry_values (sd_entries d)) \<inter> set (entry_values (sd_bypass d)) \<noteq> {} then Inl ValidationError
        else Inr (d\<lparr>sd_ou := ou\<rparr>)))"

record content_draft =
  xd_ou :: ou_ref
  xd_directions :: "message_direction list"
  xd_combiner :: combiner
  xd_expressions :: "expression list"
  xd_condition :: "list_condition option"
  xd_filters :: "envelope_filter list"
  xd_default_ou :: bool
  xd_default_directions :: bool

definition check_content_draft :: "content_draft \<Rightarrow> content_draft res" where
  "check_content_draft d =
     and_then (check_ou_ref (xd_ou d)) (\<lambda>ou.
     and_then (map_res check_expression (xd_expressions d)) (\<lambda>expressions.
     and_then (check_option check_list_condition (xd_condition d)) (\<lambda>condition.
     and_then (map_res check_envelope_filter (xd_filters d)) (\<lambda>filters.
     if xd_directions d = [] \<or> \<not> distinct (xd_directions d) then Inl ValidationError
     else if expressions = [] \<or> length expressions > max_compliance_expressions then Inl ValidationError
     else if \<not> distinct (map ef_party filters) then Inl ValidationError
     else Inr (d\<lparr>xd_ou := ou, xd_expressions := expressions, xd_condition := condition, xd_filters := filters\<rparr>)))))"

datatype draft_selection = Sender_Selection sender_draft | Content_Selection content_draft

fun check_selection :: "draft_selection \<Rightarrow> draft_selection res" where
  "check_selection (Sender_Selection d) = and_then (check_sender_draft d) (\<lambda>x. Inr (Sender_Selection x))"
| "check_selection (Content_Selection d) = and_then (check_content_draft d) (\<lambda>x. Inr (Content_Selection x))"

text \<open>\<^verbatim>\<open>strip_whitespace\<close> of Pydantic trims Unicode white space, not the separators 28 to 31.\<close>

definition trimmed_space :: "char \<Rightarrow> bool" where
  "trimmed_space c \<longleftrightarrow> (let n = (of_char c :: nat) in 9 \<le> n \<and> n \<le> 13 \<or> n = 32 \<or> n = 133 \<or> n = 160)"

definition check_trimmed :: "nat \<Rightarrow> string \<Rightarrow> string res" where
  "check_trimmed limit text =
     (let t = rev (dropWhile trimmed_space (rev (dropWhile trimmed_space text)))
      in if length t < 1 \<or> length t > limit then Inl ValidationError else Inr t)"

datatype draft_status = Draft_Ready | Draft_Clarification | Draft_Unsupported

record recommendation =
  rc_status :: draft_status
  rc_selection :: "draft_selection option"
  rc_routing :: "string option"
  rc_assumptions :: "string list"
  rc_question :: "string option"
  rc_reason :: "string option"

definition check_outcome :: "recommendation \<Rightarrow> recommendation res" where
  "check_outcome r =
     (if rc_status r = Draft_Ready then
        (if rc_selection r = None \<or> rc_routing r = None then Inl ValidationError
         else if given (rc_question r) \<or> given (rc_reason r) then Inl ValidationError
         else Inr r)
      else if rc_selection r \<noteq> None \<or> rc_routing r \<noteq> None \<or> rc_assumptions r \<noteq> [] then Inl ValidationError
      else if rc_status r = Draft_Clarification then
        (if rc_question r = None \<or> rc_reason r \<noteq> None then Inl ValidationError else Inr r)
      else if rc_reason r = None \<or> rc_question r \<noteq> None then Inl ValidationError
      else Inr r)"

definition check_recommendation :: "recommendation \<Rightarrow> recommendation res" where
  "check_recommendation r =
     and_then (check_option check_selection (rc_selection r)) (\<lambda>selection.
     and_then (check_option (check_trimmed 1000) (rc_routing r)) (\<lambda>routing.
     and_then (map_res (check_trimmed 300) (rc_assumptions r)) (\<lambda>assumptions.
     and_then (check_option (check_trimmed 1000) (rc_question r)) (\<lambda>question.
     and_then (check_option (check_trimmed 1000) (rc_reason r)) (\<lambda>reason.
     if length assumptions > 8 then Inl ValidationError
     else check_outcome (r\<lparr>rc_selection := selection, rc_routing := routing, rc_assumptions := assumptions,
            rc_question := question, rc_reason := reason\<rparr>))))))"

text \<open>\<^verbatim>\<open>PolicyDraftAuditEvidence\<close>.\<close>

record draft_evidence =
  de_request :: string
  de_recommendation :: recommendation
  de_model :: string
  de_version :: string
  de_edited :: bool

definition make_draft_evidence :: "draft_evidence \<Rightarrow> draft_evidence res" where
  "make_draft_evidence e =
     (if 1 \<le> length (de_request e) \<and> length (de_request e) \<le> 2000 \<and> 1 \<le> length (de_model e) \<and>
         length (de_model e) \<le> 200 \<and> 1 \<le> length (de_version e) \<and> length (de_version e) \<le> 40
      then Inr e else Inl ValidationError)"

section \<open>Words of a request\<close>

text \<open>\<^verbatim>\<open>\w\<close> for the code points below 256.\<close>

definition word_char :: "char \<Rightarrow> bool" where
  "word_char c \<longleftrightarrow>
     (let n = (of_char c :: nat)
      in ascii_alnum c \<or> n = 95 \<or> n \<in> {170, 178, 179, 181, 185, 186, 188, 189, 190} \<or> n \<ge> 192 \<and> n \<noteq> 215 \<and> n \<noteq> 247)"

text \<open>
  \<^verbatim>\<open>re.search(r"\b(?:w1|w2|...)\b", text, re.IGNORECASE)\<close> for words that begin and end with
  a word character: at some place one of them, with no word character before and after it.
\<close>

definition word_at :: "string \<Rightarrow> string \<Rightarrow> bool" where
  "word_at w s \<longleftrightarrow> py_startswith (py_lower s) w \<and>
     (case drop (length w) s of [] \<Rightarrow> True | c # _ \<Rightarrow> \<not> word_char c)"

fun search_words :: "string list \<Rightarrow> bool \<Rightarrow> string \<Rightarrow> bool" where
  "search_words ws inside [] = False"
| "search_words ws inside (c # cs) =
     (\<not> inside \<and> list_ex (\<lambda>w. word_at w (c # cs)) ws \<or> search_words ws (word_char c) cs)"

definition content_location_terms :: "string list" where
  "content_location_terms = [''subject'', ''body'', ''header'', ''sender'', ''recipient'', ''envelope'', ''attachment'',
     ''raw message'', ''anywhere'', ''entire message'', ''whole message'']"

definition content_match_terms :: "string list" where
  "content_match_terms = [''word'', ''phrase'', ''text'', ''content'', ''contain'', ''contains'', ''containing'',
     ''include'', ''includes'', ''including'']"

definition message_target_terms :: "string list" where
  "message_target_terms = [''email'', ''e-mail'', ''emails'', ''e-mails'', ''mail'', ''message'', ''messages'', ''them'', ''it'']"

definition requires_implicit_location :: "string \<Rightarrow> bool" where
  "requires_implicit_location description \<longleftrightarrow>
     \<not> search_words content_location_terms False description \<and>
     search_words content_match_terms False description \<and> search_words message_target_terms False description"

definition reject_location_only_clarification :: "recommendation \<Rightarrow> string \<Rightarrow> unit res" where
  "reject_location_only_clarification r description =
     (if rc_status r = Draft_Clarification \<and> requires_implicit_location description then Inl ValueError else Inr ())"

definition check_filter_regex :: "(string \<Rightarrow> bool) \<Rightarrow> envelope_filter \<Rightarrow> unit res" where
  "check_filter_regex re2_ok f =
     (if ef_selector f = Pattern then and_then (validate_google_regex re2_ok (ef_value f)) (\<lambda>_. Inr ()) else Inr ())"

definition validate_recommendation_regex :: "(string \<Rightarrow> bool) \<Rightarrow> recommendation \<Rightarrow> unit res" where
  "validate_recommendation_regex re2_ok r =
     (case rc_selection r of
        Some (Content_Selection d) \<Rightarrow>
          and_then (fold_res (\<lambda>e _. and_then (validate_expression_regex re2_ok e) (\<lambda>_. Inr ())) (xd_expressions d) ()) (\<lambda>_.
            fold_res (\<lambda>f _. check_filter_regex re2_ok f) (xd_filters d) ())
      | _ \<Rightarrow> Inr ())"

section \<open>The composer\<close>

definition make_draft_composer :: "string \<Rightarrow> bool \<Rightarrow> int \<Rightarrow> structured_planner res" where
  "make_draft_composer model warm max_retries =
     (if py_strip model = [] then Inl ValueError
      else if warm then Inl ValueError
      else if \<not> (0 \<le> max_retries \<and> max_retries \<le> 3) then Inl ValueError
      else Inr \<lparr>sp_model = py_strip model, sp_retries = nat max_retries\<rparr>)"

text \<open>\<^verbatim>\<open>json.dumps\<close> of the request, which escapes what is not printable ASCII.\<close>

definition ascii_escape :: "char \<Rightarrow> string" where
  "ascii_escape c = (let n = (of_char c :: nat) in if n < 127 then json_escape c else CHR 0x5C # CHR ''u'' # hex_digits 4 n)"

definition ascii_json_string :: "string \<Rightarrow> string" where
  "ascii_json_string s = CHR 0x22 # concat (map ascii_escape s) @ [CHR 0x22]"

definition request_json :: "string \<Rightarrow> string \<Rightarrow> message_direction list \<Rightarrow> string" where
  "request_json description ou directions =
     ''{'' @ py_join '', '' (map (\<lambda>(key, text). ascii_json_string key @ '': '' @ text)
       [(''default_directions'', ''['' @ py_join '', '' (map (\<lambda>d. ascii_json_string (direction_value d)) directions) @ '']''),
        (''default_ou'', ascii_json_string ou), (''description'', ascii_json_string description)]) @ ''}''"

text \<open>
  A recommendation read from a text, its patterns validated and a clarification about the
  location alone refused; \<open>complaint\<close> gives the text of the exception these tests raise.
\<close>

definition read_recommendation ::
    "(string \<Rightarrow> string + recommendation) \<Rightarrow> (string \<Rightarrow> bool) \<Rightarrow> (recommendation \<Rightarrow> string) \<Rightarrow> string \<Rightarrow> string \<Rightarrow>
      string + recommendation" where
  "read_recommendation reads re2_ok complaint description text =
     (case reads text of
        Inl e \<Rightarrow> Inl e
      | Inr r \<Rightarrow>
          (case and_then (validate_recommendation_regex re2_ok r) (\<lambda>_. reject_location_only_clarification r description) of
             Inl _ \<Rightarrow> Inl (complaint r)
           | Inr _ \<Rightarrow> Inr r))"

definition draft_correction :: "'d dialogue_scheme \<Rightarrow> string \<Rightarrow> string \<Rightarrow> string list \<Rightarrow> chat_line list" where
  "draft_correction d request invalid_output errors =
     [(''system'', dg_prompt d), (''user'', correction_text ''Original application request:'' request invalid_output errors)]"

definition compose_draft ::
    "'d dialogue_scheme \<Rightarrow> (string \<Rightarrow> string + recommendation) \<Rightarrow> (string \<Rightarrow> bool) \<Rightarrow> (recommendation \<Rightarrow> string) \<Rightarrow>
      structured_planner \<Rightarrow> string \<Rightarrow> string \<Rightarrow> message_direction list \<Rightarrow>
      (chat_line list list, recommendation planner_result) act" where
  "compose_draft d reads re2_ok complaint composer description_text default_ou directions =
     (let description = py_strip description_text
      in if description = [] \<or> length description > 2000 then raise PlannerFailure
         else bind (lift (check_ou_ref \<lparr>ou_path = default_ou, ou_organization = None\<rparr>)) (\<lambda>ou.
           if directions = [] \<or> \<not> distinct directions then raise ValueError
           else
             let request = request_json description (ou_path ou) directions
             in bind (attempt_loop (dg_client d) (read_reply (read_recommendation reads re2_ok complaint description))
                  (draft_correction d request) (Suc (sp_retries composer)) (initial_messages d request) [])
                (\<lambda>(r, attempts). return \<lparr>pl_value = r, pl_model = sp_model composer, pl_attempts = attempts\<rparr>)))"

section \<open>What an accepted recommendation satisfies\<close>

fun selection_ok :: "draft_selection \<Rightarrow> bool" where
  "selection_ok (Sender_Selection d) \<longleftrightarrow> ou_path_ok (sd_ou d) \<and> sd_entries d \<noteq> [] \<and> distinct (entry_values (sd_entries d)) \<and>
     distinct (entry_values (sd_bypass d)) \<and> set (entry_values (sd_entries d)) \<inter> set (entry_values (sd_bypass d)) = {}"
| "selection_ok (Content_Selection d) \<longleftrightarrow> ou_path_ok (ou_path (xd_ou d)) \<and> xd_directions d \<noteq> [] \<and> distinct (xd_directions d) \<and>
     1 \<le> length (xd_expressions d) \<and> length (xd_expressions d) \<le> 10 \<and> distinct (map ef_party (xd_filters d))"

fun regexes_ok :: "(string \<Rightarrow> bool) \<Rightarrow> draft_selection \<Rightarrow> bool" where
  "regexes_ok re2_ok (Sender_Selection d) = True"
| "regexes_ok re2_ok (Content_Selection d) \<longleftrightarrow>
     (\<forall>location mt v description minimum. Advanced_Match location mt v description minimum \<in> set (xd_expressions d) \<and> is_regex_match mt \<longrightarrow>
        (\<exists>pattern. v = Some pattern \<and> re2_ok pattern \<and> 1 \<le> length pattern \<and> length pattern \<le> 10000)) \<and>
     (\<forall>f \<in> set (xd_filters d). ef_selector f = Pattern \<longrightarrow>
        re2_ok (ef_value f) \<and> 1 \<le> length (ef_value f) \<and> length (ef_value f) \<le> 10000)"

text \<open>The three outcomes exclude each other, and a draft is one its own validators accept.\<close>

definition outcome_ok :: "recommendation \<Rightarrow> bool" where
  "outcome_ok r \<longleftrightarrow>
     (case rc_status r of
        Draft_Ready \<Rightarrow> rc_question r = None \<and> rc_reason r = None \<and> rc_routing r \<noteq> None \<and>
          (\<exists>s. rc_selection r = Some s \<and> selection_ok s)
      | Draft_Clarification \<Rightarrow> rc_question r \<noteq> None \<and> rc_reason r = None \<and> rc_selection r = None \<and> rc_assumptions r = []
      | Draft_Unsupported \<Rightarrow> rc_reason r \<noteq> None \<and> rc_question r = None \<and> rc_selection r = None \<and> rc_assumptions r = [])"

lemma check_selection_ok: "check_selection s = Inr t \<Longrightarrow> selection_ok t"
proof (cases s)
  case (Sender_Selection d)
  assume "check_selection s = Inr t"
  moreover have "validated r = Inr u \<longleftrightarrow> r = Inr u" for r :: "string res" and u by (cases r) auto
  ultimately show ?thesis using Sender_Selection
    by (auto simp: check_sender_draft_def normalized_ou_def res_simps split: if_splits)
next
  case (Content_Selection d)
  assume "check_selection s = Inr t"
  then show ?thesis using Content_Selection check_ou_ref_Inr(2)
    by (auto simp: check_content_draft_def max_compliance_expressions_def res_simps Suc_le_eq split: if_splits)
qed

lemma check_trimmed_given: "check_option (check_trimmed n) v = Inr u \<Longrightarrow> \<not> given u \<Longrightarrow> u = None"
  by (cases v) (auto simp: check_trimmed_def given_def Let_def split: if_splits)

lemma check_recommendation_ok:
  assumes "check_recommendation r = Inr s"
  shows "outcome_ok s \<and> length (rc_assumptions s) \<le> 8"
proof -
  obtain selection routing assumptions question reason where parts:
    "check_option check_selection (rc_selection r) = Inr selection"
    "check_option (check_trimmed 1000) (rc_question r) = Inr question" "check_option (check_trimmed 1000) (rc_reason r) = Inr reason"
    "\<not> length assumptions > 8"
    "check_outcome (r\<lparr>rc_selection := selection, rc_routing := routing, rc_assumptions := assumptions,
       rc_question := question, rc_reason := reason\<rparr>) = Inr s"
    using assms by (auto simp: check_recommendation_def res_simps split: if_splits)
  have "selection_ok t" if "selection = Some t" for t
    using parts(1) that check_selection_ok by (cases "rc_selection r") (auto simp: res_simps)
  then show ?thesis using parts(4,5) check_trimmed_given [OF parts(2)] check_trimmed_given [OF parts(3)]
    by (cases "rc_status r") (auto simp: check_outcome_def outcome_ok_def split: if_splits)
qed

lemma fold_unit_iff: "fold_res (\<lambda>x _. f x) xs () = Inr () \<longleftrightarrow> (\<forall>x \<in> set xs. f x = Inr ())"
proof (induction xs)
  case (Cons x xs)
  then show ?case by (cases "f x") auto
qed simp

lemma google_regex_iff:
  "validate_google_regex re2_ok p = Inr q \<longleftrightarrow> q = p \<and> re2_ok p \<and> 1 \<le> length p \<and> length p \<le> 10000"
  by (cases p) (auto simp: validate_google_regex_def max_google_regex_characters_def)

lemma expression_regex_iff:
  "and_then (validate_expression_regex re2_ok e) (\<lambda>_. Inr ()) = Inr () \<longleftrightarrow>
     (\<forall>location mt v description minimum. e = Advanced_Match location mt v description minimum \<and> is_regex_match mt \<longrightarrow>
        (\<exists>pattern. v = Some pattern \<and> re2_ok pattern \<and> 1 \<le> length pattern \<and> length pattern \<le> 10000))"
  by (cases e) (auto simp: res_simps google_regex_iff split: option.splits)

lemma recommendation_regex_iff:
  "validate_recommendation_regex re2_ok r = Inr () \<longleftrightarrow> (\<forall>s. rc_selection r = Some s \<longrightarrow> regexes_ok re2_ok s)"
proof -
  have filters: "fold_res (\<lambda>f _. check_filter_regex re2_ok f) fs () = Inr () \<longleftrightarrow> (\<forall>f \<in> set fs. ef_selector f = Pattern \<longrightarrow>
        re2_ok (ef_value f) \<and> 1 \<le> length (ef_value f) \<and> length (ef_value f) \<le> 10000)" for fs
    unfolding fold_unit_iff by (auto simp: check_filter_regex_def res_simps google_regex_iff)
  have both: "validate_recommendation_regex re2_ok r = Inr () \<longleftrightarrow> regexes_ok re2_ok (Content_Selection d)"
    if "rc_selection r = Some (Content_Selection d)" for d
  proof -
    have "validate_recommendation_regex re2_ok r = Inr () \<longleftrightarrow>
        fold_res (\<lambda>e _. and_then (validate_expression_regex re2_ok e) (\<lambda>_. Inr ())) (xd_expressions d) () = Inr () \<and>
        fold_res (\<lambda>f _. check_filter_regex re2_ok f) (xd_filters d) () = Inr ()"
      using that by (auto simp: validate_recommendation_regex_def res_simps)
    then show ?thesis unfolding fold_unit_iff [of "\<lambda>e. and_then (validate_expression_regex re2_ok e) (\<lambda>_. Inr ())"]
        filters expression_regex_iff regexes_ok.simps by blast
  qed
  show ?thesis
  proof (cases "rc_selection r")
    case (Some s)
    then show ?thesis using both by (cases s) (auto simp: validate_recommendation_regex_def)
  qed (simp add: validate_recommendation_regex_def)
qed

lemma read_recommendation_ok:
  assumes "read_recommendation reads re2_ok complaint description text = Inr r"
  shows "reads text = Inr r" and "\<forall>s. rc_selection r = Some s \<longrightarrow> regexes_ok re2_ok s"
    and "rc_status r = Draft_Clarification \<Longrightarrow> \<not> requires_implicit_location description"
proof -
  have r: "reads text = Inr r" "validate_recommendation_regex re2_ok r = Inr ()" "reject_location_only_clarification r description = Inr ()"
    using assms by (auto simp: read_recommendation_def and_then_def split: sum.splits)
  then show "reads text = Inr r" "\<forall>s. rc_selection r = Some s \<longrightarrow> regexes_ok re2_ok s"
    "rc_status r = Draft_Clarification \<Longrightarrow> \<not> requires_implicit_location description"
    unfolding recommendation_regex_iff by (auto simp: reject_location_only_clarification_def split: if_splits)
qed

end
