(* ===== verification/Drafting_Claims.thy ===== *)
theory Drafting_Claims
  imports Policy_Draft
begin

text \<open>The properties of the language-model boundary: what is taken from a reply, and what is accepted.\<close>

section \<open>The object in a reply\<close>

text \<open>
  C38. The extraction decides its specification: a reply, without its fence, gives a text
  exactly when the text is one balanced object and no other brace opens before or after it.
\<close>

theorem extraction_is_exact:
  "extract_json_block raw = Inr b \<longleftrightarrow> (\<exists>pre post. candidate_text raw = pre @ b @ post \<and> CHR 0x7B \<notin> set pre \<and>
     CHR 0x7B \<notin> set post \<and> one_object b)"
  by (rule extract_iff)

text \<open>White space around a text that begins and ends with other characters is white space of the rest.\<close>

lemma strip_around:
  assumes "t \<noteq> []" and "\<not> py_space (hd t)" and "\<not> py_space (last t)"
  shows "py_strip (pre @ t @ post) = dropWhile py_space pre @ t @ rev (dropWhile py_space (rev post))"
proof -
  obtain y ys where y: "t = y # ys" "\<not> py_space y" using assms(1,2) by (cases t) auto
  obtain z zs where z: "rev t = z # zs" "\<not> py_space z" using assms(1,3) by (cases t rule: rev_cases) auto
  have "dropWhile py_space (pre @ t @ post) = dropWhile py_space pre @ t @ post"
    using y by (simp add: dropWhile_append3)
  moreover have "dropWhile py_space (rev post @ rev t @ x) = dropWhile py_space (rev post) @ rev t @ x" for x
    using z by (simp add: dropWhile_append3)
  ultimately show ?thesis by (simp add: py_strip_def)
qed

lemma py_endswith_iff: "py_endswith s e \<longleftrightarrow> (\<exists>r. s = r @ e)"
proof -
  have "rev s = rev e @ r \<longleftrightarrow> s = rev r @ e" for r by (metis rev_append rev_rev_ident)
  then show ?thesis unfolding py_endswith_def py_startswith_iff by (metis rev_rev_ident)
qed

lemma candidate_around:
  assumes "one_object t" and "line_feed \<in> set (dropWhile py_space pre) \<or> \<not> py_startswith (dropWhile py_space pre @ t) ''```''"
  shows "\<exists>before after. candidate_text (pre @ t @ post) = before @ t @ after \<and> set before \<subseteq> set pre \<and> set after \<subseteq> set post"
proof -
  obtain inner where t: "t = CHR 0x7B # inner @ [CHR 0x7D]" using assms(1) unfolding one_object_iff by blast
  have ends: "t \<noteq> []" "\<not> py_space (hd t)" "\<not> py_space (last t)" by (simp_all add: t py_space_def)
  define p q where "p = dropWhile py_space pre" and "q = rev (dropWhile py_space (rev post))"
  note c = strip_around [OF ends, of pre post, folded p_def q_def]
  have pq: "set p \<subseteq> set pre" "set q \<subseteq> set post"
    by (auto simp: p_def q_def dest!: set_dropWhileD)
  show ?thesis
  proof (cases "py_startswith (p @ t @ q) ''```'' \<and> py_endswith (p @ t @ q) ''```'' \<and> line_feed \<in> set (p @ t @ q)")
    case False
    then show ?thesis using pq c by (auto simp: candidate_text_def Let_def)
  next
    case True
    have lf: "line_feed \<in> set p"
    proof (rule ccontr)
      assume "line_feed \<notin> set p"
      then have no: "\<not> py_startswith (p @ t) ''```''" using assms(2) by (simp add: p_def)
      obtain r where "(p @ t) @ q = ''```'' @ r" using True by (auto simp: py_startswith_iff)
      then obtain us where "p @ t = ''```'' @ us \<or> (p @ t) @ us = ''```''" unfolding append_eq_append_conv2 by blast
      then show False
      proof
        assume "p @ t = ''```'' @ us"
        then show False using no unfolding py_startswith_iff by blast
      next
        assume "(p @ t) @ us = ''```''"
        then have "CHR 0x7B \<in> set ''```''" unfolding t by (metis in_set_conv_decomp append_Cons append_assoc)
        then show False by simp
      qed
    qed
    obtain p1 p2 where p: "p = p1 @ line_feed # p2" "line_feed \<notin> set p1" using split_list_first [OF lf] by blast
    obtain r where "(p @ t) @ q = r @ ''```''"
      using True unfolding py_endswith_iff by auto
    then obtain us where us: "p @ t = r @ us \<and> us @ q = ''```'' \<or> q = us @ ''```''" unfolding append_eq_append_conv2 by blast
    have "us = []" if "p @ t = r @ us" "us @ q = ''```''"
    proof (rule ccontr)
      assume "us \<noteq> []"
      then have "last us = CHR 0x7D" using arg_cong [OF that(1), of last] by (simp add: t)
      then have "CHR 0x7D \<in> set ''```''" using \<open>us \<noteq> []\<close> that(2) by (metis UnI1 last_in_set set_append)
      then show False by simp
    qed
    then obtain q1 where q: "q = q1 @ ''```''" using us by auto
    have cut: "drop (Suc (length (takeWhile (\<lambda>x. x \<noteq> line_feed) (p @ t @ q)))) (take (length (p @ t @ q) - 3) (p @ t @ q)) = p2 @ t @ q1"
      using p by (simp add: q takeWhile_append)
    have "candidate_text (pre @ t @ post) = py_strip (p2 @ t @ q1)"
      using True cut by (simp add: candidate_text_def c Let_def)
    also have "\<dots> = dropWhile py_space p2 @ t @ rev (dropWhile py_space (rev q1))" by (rule strip_around [OF ends])
    finally have "candidate_text (pre @ t @ post) = dropWhile py_space p2 @ t @ rev (dropWhile py_space (rev q1))" .
    moreover have "set (dropWhile py_space p2) \<subseteq> set pre" "set (rev (dropWhile py_space (rev q1))) \<subseteq> set post"
      using pq p q by (auto dest!: set_dropWhileD)
    ultimately show ?thesis by blast
  qed
qed

text \<open>
  The object in prose or in a fence comes back exactly: a rendered JSON object, whatever its
  strings hold, is what the extraction gives, when no brace opens in the text around it and an
  opening fence is closed by a line break before it.
\<close>

theorem rendered_object_is_extracted:
  assumes "CHR 0x7B \<notin> set pre" and "CHR 0x7B \<notin> set post"
    and "line_feed \<in> set (dropWhile py_space pre) \<or> \<not> py_startswith (dropWhile py_space pre @ model_json (JObj kvs)) ''```''"
  shows "extract_json_block (pre @ model_json (JObj kvs) @ post) = Inr (model_json (JObj kvs))"
proof -
  have object: "one_object (model_json (JObj kvs))"
    unfolding model_json_def by (rule one_object_render) (simp_all add: level_plain)
  obtain before after where "candidate_text (pre @ model_json (JObj kvs) @ post) = before @ model_json (JObj kvs) @ after"
    "set before \<subseteq> set pre" "set after \<subseteq> set post"
    using candidate_around [OF object assms(3)] by blast
  then show ?thesis using assms(1,2) object unfolding extract_iff by blast
qed

definition ex_object :: json where
  "ex_object = JObj [(''a'', JStr [CHR 0x7D, CHR 0x22, CHR 0x5C]), (''b'', JObj [])]"

theorem rendered_object_is_extracted_witness:
  "extract_json_block (''```json'' @ [line_feed] @ model_json ex_object @ [line_feed] @ ''```'') = Inr (model_json ex_object)"
proof -
  have "extract_json_block ((''```json'' @ [line_feed]) @ model_json ex_object @ [line_feed] @ ''```'') = Inr (model_json ex_object)"
    unfolding ex_object_def by (rule rendered_object_is_extracted) (simp_all add: py_space_def)
  then show ?thesis by simp
qed

section \<open>What is accepted\<close>

text \<open>
  \<open>reads\<close> is the JSON reader of Pydantic; that it returns only what the validators return is
  the documented behaviour of \<^verbatim>\<open>model_validate_json\<close>.
\<close>

definition validating :: "('a \<Rightarrow> 'a res) \<Rightarrow> (string \<Rightarrow> string + 'a) \<Rightarrow> bool" where
  "validating check reads \<longleftrightarrow> (\<forall>text x. reads text = Inr x \<longrightarrow> (\<exists>raw. check raw = Inr x))"

text \<open>The last reply was taken as it is or as the object in it; the ones before were refused.\<close>

definition taken_from :: "(string \<Rightarrow> string + 'a) \<Rightarrow> planner_attempt list \<Rightarrow> 'a \<Rightarrow> bool" where
  "taken_from reads attempts x \<longleftrightarrow> attempts \<noteq> [] \<and> pa_errors (last attempts) = [] \<and>
     (\<forall>a \<in> set (butlast attempts). length (pa_errors a) = 2) \<and>
     (if pa_extracted (last attempts)
      then \<exists>block. extract_json_block (pa_raw (last attempts)) = Inr block \<and> reads block = Inr x
      else reads (pa_raw (last attempts)) = Inr x)"

lemma loop_takes:
  assumes "attempt_loop client (read_reply reads) correct (Suc k) messages [] [] = (Inr (x, attempts), log)"
  shows "1 \<le> length log" "length log \<le> Suc k" "length attempts = length log" "taken_from reads attempts x" "hd log = messages"
    "\<forall>i < length log. client i (log ! i) = Answer (pa_raw (attempts ! i))"
    "\<forall>i < length log - 1. log ! Suc i = correct (pa_raw (attempts ! i)) (pa_errors (attempts ! i))"
proof -
  let ?c = "read_reply reads"
  obtain raws where r: "raws \<noteq> []" "length raws \<le> Suc k" "attempts = map (snd \<circ> ?c) raws"
    "log = conversations ?c correct messages raws" "fst (?c (last raws)) = Some x"
    "\<forall>raw \<in> set (butlast raws). fst (?c raw) = None"
    "\<forall>i < length raws. client i (conversations ?c correct messages raws ! i) = Answer (raws ! i)"
    using attempt_loop_accepts [OF assms] by auto
  have len: "length log = length raws" using r(1,4) by (cases raws rule: rev_cases) (auto simp: conversations_def)
  have raw: "pa_raw (snd (?c t)) = t" for t by (auto simp: read_reply_def split: sum.splits)
  show "1 \<le> length log" "length log \<le> Suc k" "length attempts = length log" "hd log = messages"
    using r(1-4) len by (simp_all add: conversations_def Suc_le_eq)
  show "\<forall>i < length log. client i (log ! i) = Answer (pa_raw (attempts ! i))"
    using r(3,4,7) raw len by simp
  show "\<forall>i < length log - 1. log ! Suc i = correct (pa_raw (attempts ! i)) (pa_errors (attempts ! i))"
    using r(3,4) raw len by (simp add: conversations_def nth_butlast)
  obtain a where a: "?c (last raws) = (Some x, a)" using r(5) by (cases "?c (last raws)") auto
  have last: "last attempts = a" using r(1,3) a by (simp add: last_map)
  have refused: "length (pa_errors (snd (?c t))) = 2" if "fst (?c t) = None" for t
    using that by (auto simp: read_reply_def split: sum.splits)
  show "taken_from reads attempts x"
    using read_reply_accepts [OF a] r(1,3,6) raw [of "last raws"] a refused unfolding taken_from_def last
    by (auto simp: map_butlast [symmetric])
qed

text \<open>The dialogue of an accepted value: each request after the first corrects the reply before it.\<close>

definition corrected_dialogue ::
    "client \<Rightarrow> (string \<Rightarrow> string list \<Rightarrow> chat_line list) \<Rightarrow> chat_line list \<Rightarrow> planner_attempt list \<Rightarrow> chat_line list list \<Rightarrow> bool" where
  "corrected_dialogue client correct messages attempts log \<longleftrightarrow> hd log = messages \<and> length attempts = length log \<and>
     (\<forall>i < length log. client i (log ! i) = Answer (pa_raw (attempts ! i))) \<and>
     (\<forall>i < length log - 1. log ! Suc i = correct (pa_raw (attempts ! i)) (pa_errors (attempts ! i)))"

text \<open>
  C39. A plan the planner returns satisfies the contract of the planner boundary and was read as the whole last reply or
  as the one object in it; every reply before was refused with both its errors, which the next
  request repeats; the model was asked at most four times.
\<close>

theorem accepted_plan_is_valid:
  assumes "make_structured_planner model warm n = Inr planner" and "validating make_task_plan reads"
    and "structured_plan d reads planner text [] = (Inr r, log)"
  shows "1 \<le> length log \<and> length log \<le> 4 \<and> wf_plan (pl_value r) \<and>
    taken_from reads (pl_attempts r) (pl_value r) \<and>
    corrected_dialogue (dg_client d) (corrective_messages d (py_strip text)) (initial_messages d (py_strip text)) (pl_attempts r) log"
proof -
  have loop: "attempt_loop (dg_client d) (read_reply reads) (corrective_messages d (py_strip text)) (Suc (sp_retries planner))
      (initial_messages d (py_strip text)) [] [] = (Inr (pl_value r, pl_attempts r), log)"
    using assms(3) by (auto simp: structured_plan_def Let_def bind_Inr_iff simp del: attempt_loop.simps split: if_splits)
  note l = loop_takes [OF loop]
  have "sp_retries planner \<le> 3" using assms(1) by (auto simp: make_structured_planner_def split: if_splits)
  moreover have "wf_plan (pl_value r)"
    using l(4) assms(2) make_task_plan_wf by (auto simp: taken_from_def validating_def split: if_splits)
  ultimately show ?thesis using l by (auto simp: corrected_dialogue_def)
qed

text \<open>
  C40. A recommendation the composer returns passed its validators: of the three outcomes
  exactly one is given, a draft is well-formed for its surface, every pattern in it compiles
  under RE2 and keeps the length limit, and a question is not about a location the request
  leaves to be inferred; it comes from the last of at most four replies as a plan does.
\<close>

theorem accepted_draft_is_valid:
  assumes "make_draft_composer model warm n = Inr composer" and "validating check_recommendation reads"
    and "compose_draft d reads re2_ok complaint composer text ou directions [] = (Inr r, log)"
  shows "1 \<le> length log \<and> length log \<le> 4 \<and> outcome_ok (pl_value r) \<and>
    (\<forall>s. rc_selection (pl_value r) = Some s \<longrightarrow> regexes_ok re2_ok s) \<and>
    (rc_status (pl_value r) = Draft_Clarification \<longrightarrow> \<not> requires_implicit_location (py_strip text)) \<and>
    taken_from (read_recommendation reads re2_ok complaint (py_strip text)) (pl_attempts r) (pl_value r) \<and>
    (\<exists>request. corrected_dialogue (dg_client d) (draft_correction d request) (initial_messages d request) (pl_attempts r) log)"
proof -
  let ?reads = "read_recommendation reads re2_ok complaint (py_strip text)"
  obtain request where loop: "attempt_loop (dg_client d) (read_reply ?reads) (draft_correction d request) (Suc (sp_retries composer))
      (initial_messages d request) [] [] = (Inr (pl_value r, pl_attempts r), log)"
    using assms(3) by (auto simp: compose_draft_def Let_def bind_Inr_iff simp del: attempt_loop.simps split: if_splits)
  note l = loop_takes [OF loop]
  obtain block where block: "?reads block = Inr (pl_value r)"
    using l(4) by (auto simp: taken_from_def split: if_splits)
  note ok = read_recommendation_ok [OF block]
  obtain raw where "check_recommendation raw = Inr (pl_value r)" using ok(1) assms(2) by (auto simp: validating_def)
  note valid = check_recommendation_ok [OF this]
  have "sp_retries composer \<le> 3" using assms(1) by (auto simp: make_draft_composer_def split: if_splits)
  moreover have "corrected_dialogue (dg_client d) (draft_correction d request) (initial_messages d request) (pl_attempts r) log"
    using l by (auto simp: corrected_dialogue_def)
  ultimately show ?thesis using l(1,2,4) ok(2,3) valid by auto
qed

section \<open>Two dialogues\<close>

definition ex_dialogue :: "unit dialogue_scheme" where
  "ex_dialogue = \<lparr>dg_client = (\<lambda>i m. if i = 0 then Answer ''no'' else Answer '' {} ''), dg_prompt = ''p'', dg_examples = []\<rparr>"

definition ex_listing :: task_plan where
  "ex_listing = \<lparr>tp_schema = ''2.0'', tp_status = Plan, tp_actions = [List_Blocked_Sender_Rules], tp_question = None, tp_reason = None\<rparr>"

lemma ex_listing_valid: "make_task_plan ex_listing = Inr ex_listing"
  unfolding ex_listing_def by code_simp

definition ex_question :: recommendation where
  "ex_question = \<lparr>rc_status = Draft_Clarification, rc_selection = None, rc_routing = None, rc_assumptions = [],
     rc_question = Some ''which'', rc_reason = None\<rparr>"

definition reads_only :: "'a \<Rightarrow> string \<Rightarrow> string + 'a" where
  "reads_only x text = (if text = ''{}'' then Inr x else Inl ''invalid'')"

lemma ex_blocks:
  "extract_json_block ''no'' = Inl ''model output does not contain a JSON object''" "extract_json_block '' {} '' = Inr ''{}''"
  by (simp_all add: extract_json_block_def candidate_text_def py_strip_def py_space_def)

theorem accepted_plan_is_valid_witness:
  "\<exists>r log. structured_plan ex_dialogue (reads_only ex_listing) \<lparr>sp_model = ''m'', sp_retries = 3\<rparr> ''list'' [] = (Inr r, log) \<and>
     pl_value r = ex_listing \<and> length log \<le> 4"
proof -
  have make: "make_structured_planner '' m '' False 3 = Inr \<lparr>sp_model = ''m'', sp_retries = 3\<rparr>"
    by (simp add: make_structured_planner_def py_strip_def py_space_def)
  have reads: "validating make_task_plan (reads_only ex_listing)"
    using ex_listing_valid by (auto simp: validating_def reads_only_def split: if_splits)
  obtain r log where run: "structured_plan ex_dialogue (reads_only ex_listing) \<lparr>sp_model = ''m'', sp_retries = 3\<rparr> ''list'' [] = (Inr r, log)"
      "pl_value r = ex_listing"
    by (simp add: structured_plan_def ex_dialogue_def bind_def ask_model_def read_reply_def reads_only_def ex_blocks
        py_strip_def py_space_def numeral_3_eq_3 Let_def)
  from accepted_plan_is_valid [OF make reads run(1)] run show ?thesis by blast
qed

theorem accepted_draft_is_valid_witness:
  "\<exists>r log. compose_draft ex_dialogue (reads_only ex_question) (\<lambda>p. True) (\<lambda>r. []) \<lparr>sp_model = ''m'', sp_retries = 1\<rparr> ''Block x'' ''/''
     [Inbound] [] = (Inr r, log) \<and> outcome_ok (pl_value r) \<and> length log \<le> 4"
proof -
  have make: "make_draft_composer ''m'' False 1 = Inr \<lparr>sp_model = ''m'', sp_retries = 1\<rparr>"
    by (simp add: make_draft_composer_def py_strip_def py_space_def)
  have question: "check_recommendation ex_question = Inr ex_question"
    by (simp add: ex_question_def check_recommendation_def check_outcome_def check_trimmed_def trimmed_space_def)
  have reads: "validating check_recommendation (reads_only ex_question)"
    using question by (auto simp: validating_def reads_only_def split: if_splits)
  have words: "\<not> requires_implicit_location ''Block x''" by code_simp
  have ou: "check_ou_ref \<lparr>ou_path = ''/'', ou_organization = None\<rparr> = Inr \<lparr>ou_path = ''/'', ou_organization = None\<rparr>" by code_simp
  have stripped: "py_strip ''Block x'' = ''Block x''" by code_simp
  obtain r log where run: "compose_draft ex_dialogue (reads_only ex_question) (\<lambda>p. True) (\<lambda>r. []) \<lparr>sp_model = ''m'', sp_retries = 1\<rparr>
      ''Block x'' ''/'' [Inbound] [] = (Inr r, log)"
    using words by (simp add: compose_draft_def stripped ou ex_dialogue_def bind_def ask_model_def read_reply_def read_recommendation_def
        reads_only_def ex_blocks validate_recommendation_regex_def reject_location_only_clarification_def ex_question_def Let_def)
  from accepted_draft_is_valid [OF make reads run] run show ?thesis by blast
qed

end
