(* ===== verification/Registry_Evidence.thy ===== *)
theory Registry_Evidence
  imports Ownership_Claims Attended_Claims
begin

text \<open>
  Every way the program writes the ownership registry, over one store: the commits of the
  workflow (\<^verbatim>\<open>application/ownership_service.py\<close>,
  \<^verbatim>\<open>application/compliance_ownership_service.py\<close>), the recovery
  (\<^verbatim>\<open>application/ownership_recovery_service.py\<close>) and the calls of the attended service
  (\<^verbatim>\<open>application/attended_policy_service.py\<close>). Each change of the registry is followed to
  the evidence it rests on, also when the save reports an error after it replaced the file.
\<close>

section \<open>The records of a registry\<close>

datatype evidence_record =
    Rule_Record ownership_record
  | List_Record list_record
  | Compliance_Record compliance_record

definition records_of :: "registry \<Rightarrow> evidence_record set" where
  "records_of g = Rule_Record ` set (rg_resources g) \<union> List_Record ` set (rg_lists g) \<union>
     Compliance_Record ` set (rg_compliance g)"

text \<open>What a load of the store returns.\<close>

definition held :: "store \<Rightarrow> registry" where
  "held s = (case st_registry s of None \<Rightarrow> empty_registry | Some g \<Rightarrow> g)"

text \<open>The registry stays, or only records that are vouched for are added to it.\<close>

definition extends :: "(evidence_record \<Rightarrow> bool) \<Rightarrow> store \<Rightarrow> store \<Rightarrow> bool" where
  "extends V s t \<longleftrightarrow> st_registry t = st_registry s \<or>
     (\<exists>g. st_registry t = Some g \<and> records_of g \<subseteq> records_of (held s) \<union> Collect V)"

lemma extendsI: "st_registry t = st_registry s \<Longrightarrow> extends V s t" by (simp add: extends_def)

lemma saved_extends:
  assumes "save_registry g s = (r, t)" and "st_registry s = st_registry s0"
    and "records_of g \<subseteq> records_of (held s0) \<union> Collect V"
  shows "extends V s0 t"
  using save_registry_cases [OF assms(1)] assms(2,3) by (auto simp: extends_def)

section \<open>The commits of a workflow\<close>

text \<open>The records a change set of blocked senders vouches for, and one of content compliance.\<close>

definition created_record :: "change_set \<Rightarrow> ownership_record \<Rightarrow> bool" where
  "created_record c x \<longleftrightarrow> (\<exists>r \<in> set (ch_rules_create c). \<exists>l \<in> set (ch_lists_create c).
     al_id l = br_id r \<and> br_lists r = [al_name l] \<and> or_id x = br_id r \<and> or_rule_name x = br_name r \<and>
     or_list_name x = al_name l \<and> or_ou x = br_ou r)"

definition created_bypass :: "change_set \<Rightarrow> list_record \<Rightarrow> bool" where
  "created_bypass c y \<longleftrightarrow> (\<exists>r \<in> set (ch_rules_create c). \<exists>l \<in> set (ch_lists_create c).
     al_name l \<in> set (br_bypass r) \<and> lr_id y = al_id l \<and> lr_name y = al_name l \<and> lr_ou y = br_ou r)"

definition created_compliance :: "compliance_change_set \<Rightarrow> compliance_record \<Rightarrow> bool" where
  "created_compliance c z \<longleftrightarrow> (\<exists>r \<in> set (cc_create c). co_id z = cr_id r \<and> co_name z = cr_name r \<and>
     co_ou z = ou_path (cr_ou r))"

lemma fold_res_keeps:
  "fold_res f xs b = Inr c \<Longrightarrow> I b \<Longrightarrow> (\<And>x b c. x \<in> set xs \<Longrightarrow> I b \<Longrightarrow> f x b = Inr c \<Longrightarrow> I c) \<Longrightarrow> I c"
  by (rule fold_res_Inr [where Q = "\<lambda>_ _. True", THEN conjunct1]) simp_all

lemma fold_act_keeps_value:
  "fold_act f xs b s = (Inr c, t) \<Longrightarrow> I b \<Longrightarrow> (\<And>x b s c t. x \<in> set xs \<Longrightarrow> I b \<Longrightarrow> f x b s = (Inr c, t) \<Longrightarrow> I c) \<Longrightarrow> I c"
  by (rule fold_act_Inr [where Q = "\<lambda>_ _. True", THEN conjunct1]) simp_all

lemma dict_get_of: "dict_get (dict_of key xs) k = Some x \<Longrightarrow> x \<in> set xs \<and> key x = k"
  using dict_of_values [of key xs] keyed_get [OF keyed_dict_of, of key xs k x] map_of_SomeD [of "dict_of key xs" k x] by force

lemma created_pairs_from:
  assumes "fold_res (created_pair (dict_of br_id rules) (dict_of al_id ls)) ks ([], []) = Inr (pairs, names)"
  shows "\<forall>(i, rn, ln, ou) \<in> set pairs. \<exists>r \<in> set rules. \<exists>l \<in> set ls. al_id l = br_id r \<and> br_lists r = [al_name l] \<and>
      i = br_id r \<and> rn = br_name r \<and> ln = al_name l \<and> ou = br_ou r"
    and "dict_get names n = Some ou \<Longrightarrow> \<exists>r \<in> set rules. n \<in> set (br_bypass r) \<and> ou = br_ou r"
proof -
  let ?I = "\<lambda>acc :: (uuid \<times> string \<times> string \<times> string) list \<times> (string, string) dict.
    (\<forall>(i, rn, ln, ou) \<in> set (fst acc). \<exists>r \<in> set rules. \<exists>l \<in> set ls. al_id l = br_id r \<and> br_lists r = [al_name l] \<and>
      i = br_id r \<and> rn = br_name r \<and> ln = al_name l \<and> ou = br_ou r) \<and>
    (\<forall>n ou. dict_get (snd acc) n = Some ou \<longrightarrow> (\<exists>r \<in> set rules. n \<in> set (br_bypass r) \<and> ou = br_ou r))"
  have put: "dict_get (fold (\<lambda>n. dict_put n v) ns d) n = (if n \<in> set ns then Some v else dict_get d n)" for ns and v :: string and d n
    by (induction ns arbitrary: d) (auto simp: update_conv')
  have "?I (pairs, names)"
  proof (rule fold_res_keeps [OF assms])
    fix k acc acc'
    assume "?I acc" and step: "created_pair (dict_of br_id rules) (dict_of al_id ls) k acc = Inr acc'"
    from step obtain r l where r: "dict_get (dict_of br_id rules) k = Some r" "dict_get (dict_of al_id ls) k = Some l"
        "br_lists r = [al_name l]" "acc' = (fst acc @ [(k, br_name r, al_name l, br_ou r)],
          fold (\<lambda>n. dict_put n (br_ou r)) (br_bypass r) (snd acc))"
      by (auto simp: created_pair_def split: option.splits if_splits)
    have "r \<in> set rules" "br_id r = k" "l \<in> set ls" "al_id l = k"
      using dict_get_of [OF r(1)] dict_get_of [OF r(2)] by simp_all
    with \<open>?I acc\<close> r(3) show "?I acc'" unfolding r(4) by (auto simp: put)
  qed simp
  then show "\<forall>(i, rn, ln, ou) \<in> set pairs. \<exists>r \<in> set rules. \<exists>l \<in> set ls. al_id l = br_id r \<and> br_lists r = [al_name l] \<and>
      i = br_id r \<and> rn = br_name r \<and> ln = al_name l \<and> ou = br_ou r"
    and "dict_get names n = Some ou \<Longrightarrow> \<exists>r \<in> set rules. n \<in> set (br_bypass r) \<and> ou = br_ou r" by simp_all
qed

lemma created_resources_from:
  assumes "created_resources c = Inr (pairs, auxiliary)"
  shows "(i, rn, ln, ou) \<in> set pairs \<Longrightarrow> \<exists>r \<in> set (ch_rules_create c). \<exists>l \<in> set (ch_lists_create c).
      al_id l = br_id r \<and> br_lists r = [al_name l] \<and> i = br_id r \<and> rn = br_name r \<and> ln = al_name l \<and> ou = br_ou r"
    and "(i, n, ou) \<in> set auxiliary \<Longrightarrow> \<exists>r \<in> set (ch_rules_create c). \<exists>l \<in> set (ch_lists_create c).
      al_name l \<in> set (br_bypass r) \<and> i = al_id l \<and> n = al_name l \<and> ou = br_ou r"
proof -
  let ?rules = "dict_of br_id (ch_rules_create c)" and ?lists = "dict_of al_id (ch_lists_create c)"
  from assms obtain names ks js where
    f: "fold_res (created_pair ?rules ?lists) ks ([], []) = Inr (pairs, names)"
    and m: "map_res (created_auxiliary ?lists names) js = Inr auxiliary"
    by (auto simp: created_resources_def Let_def and_then_Inr_iff split: if_splits)
  note from_rules = created_pairs_from [OF f]
  show "(i, rn, ln, ou) \<in> set pairs \<Longrightarrow> \<exists>r \<in> set (ch_rules_create c). \<exists>l \<in> set (ch_lists_create c).
      al_id l = br_id r \<and> br_lists r = [al_name l] \<and> i = br_id r \<and> rn = br_name r \<and> ln = al_name l \<and> ou = br_ou r"
    using from_rules(1) by blast
  assume "(i, n, ou) \<in> set auxiliary"
  from map_res_set [OF m this] obtain j where "created_auxiliary ?lists names j = Inr (i, n, ou)" by blast
  then obtain l where l: "dict_get ?lists j = Some l" "i = j" "n = al_name l" "dict_get names (al_name l) = Some ou"
    by (auto simp: created_auxiliary_def split: option.splits)
  then show "\<exists>r \<in> set (ch_rules_create c). \<exists>l \<in> set (ch_lists_create c).
      al_name l \<in> set (br_bypass r) \<and> i = al_id l \<and> n = al_name l \<and> ou = br_ou r"
    using from_rules(2) [OF l(4)] dict_get_of [OF l(1)] by blast
qed

definition commit_vouches :: "change_set \<Rightarrow> evidence_record \<Rightarrow> bool" where
  "commit_vouches c e \<longleftrightarrow> (case e of Rule_Record x \<Rightarrow> created_record c x | List_Record y \<Rightarrow> created_bypass c y
     | Compliance_Record z \<Rightarrow> False)"

text \<open>The evidence gathered for a commit is old or vouched for by the change set.\<close>

definition gathered :: "registry \<Rightarrow> change_set \<Rightarrow> evidence \<Rightarrow> bool" where
  "gathered g c ev \<longleftrightarrow> set (dict_values (fst ev)) \<subseteq> set (rg_resources g) \<union> Collect (created_record c) \<and>
     set (dict_values (fst (snd ev))) \<subseteq> set (rg_lists g) \<union> Collect (created_bypass c)"

lemma put_values_subset: "set (dict_values d) \<subseteq> A \<Longrightarrow> v \<in> A \<Longrightarrow> set (dict_values (dict_put k v d)) \<subseteq> A"
  using dict_values_put [of k v d] by blast

lemma del_values_subset: "set (dict_values d) \<subseteq> A \<Longrightarrow> set (dict_values (fold dict_del ks d)) \<subseteq> A"
proof (induction ks arbitrary: d)
  case (Cons k ks)
  have "set (dict_values (dict_del k d)) \<subseteq> A" using Cons.prems dict_values_del [of k d] by blast
  from Cons.IH [OF this] show ?case by simp
qed simp

lemma commit_pair_gathered:
  assumes "commit_pair clock (i, rn, ln, ou) ev s = (Inr ev', t)" and "gathered g c ev"
    and "\<exists>r \<in> set (ch_rules_create c). \<exists>l \<in> set (ch_lists_create c).
      al_id l = br_id r \<and> br_lists r = [al_name l] \<and> i = br_id r \<and> rn = br_name r \<and> ln = al_name l \<and> ou = br_ou r"
  shows "gathered g c ev'"
proof -
  obtain records alists added where ev: "ev = (records, alists, added)" by (cases ev)
  from assms(1) obtain now x where x: "x = \<lparr>or_id = i, or_rule_name = rn, or_list_name = ln,
      or_ou = ou, or_created = now, or_rule_snapshot = None, or_list_snapshot = None\<rparr>"
    and ev': "ev' = ev \<or> ev' = (dict_put i x records, alists, added @ [i])"
    unfolding ev by (fastforce simp: commit_pair_def act_simps check_ownership_record_def split: option.splits if_splits)
  have "created_record c x" unfolding created_record_def x using assms(3) by simp
  then have "set (dict_values (dict_put i x records)) \<subseteq> set (rg_resources g) \<union> Collect (created_record c)"
    using assms(2) unfolding ev gathered_def by (intro put_values_subset) (simp_all del: set_map)
  with ev' assms(2) show ?thesis unfolding ev gathered_def by (auto simp del: set_map)
qed

lemma commit_auxiliary_gathered:
  assumes "commit_auxiliary clock (i, n, ou) ev s = (Inr ev', t)" and "gathered g c ev"
    and "\<exists>r \<in> set (ch_rules_create c). \<exists>l \<in> set (ch_lists_create c).
      al_name l \<in> set (br_bypass r) \<and> i = al_id l \<and> n = al_name l \<and> ou = br_ou r"
  shows "gathered g c ev'"
proof -
  obtain records alists added where ev: "ev = (records, alists, added)" by (cases ev)
  from assms(1) obtain now y where y: "y = \<lparr>lr_id = i, lr_name = n, lr_ou = ou,
      lr_purpose = For_Bypass, lr_created = now, lr_snapshot = None\<rparr>"
    and ev': "ev' = ev \<or> ev' = (records, dict_put i y alists, added @ [i])"
    unfolding ev by (fastforce simp: commit_auxiliary_def act_simps check_list_record_def split: option.splits if_splits)
  have "created_bypass c y" unfolding created_bypass_def y using assms(3) by simp
  then have "set (dict_values (dict_put i y alists)) \<subseteq> set (rg_lists g) \<union> Collect (created_bypass c)"
    using assms(2) unfolding ev gathered_def by (intro put_values_subset) (simp_all del: set_map)
  with ev' assms(2) show ?thesis unfolding ev gathered_def by (auto simp del: set_map)
qed

text \<open>The end of a commit, whatever becomes of the save.\<close>

lemma settle_commit_extends:
  assumes run: "settle_commit c g ks ev s = (r, t)" and "gathered g c ev"
    and "st_registry s = st_registry s0" and "g = held s0"
  shows "extends (commit_vouches c) s0 t"
proof -
  obtain records alists added where ev: "ev = (records, alists, added)" by (cases ev)
  define gone where "gone = filter (\<lambda>i. i \<in> set (dict_keys records)) ks"
  define aux where "aux = remdups (filter (\<lambda>i. i \<in> set (dict_keys (dict_of lr_id (rg_lists g)))) (map al_id (ch_lists_remove c)))"
  from run consider "t = s"
    | g' q where "make_registry (sort_key or_id (dict_values (fold dict_del gone records)))
        (sort_key lr_id (dict_values (fold dict_del aux alists))) (rg_compliance g) = Inr g'" "save_registry g' s = (q, t)"
    unfolding settle_commit_def ev prod.case Let_def gone_def [symmetric] aux_def [symmetric]
    by (auto simp: bind_def andthen_def sort_by_hex split: if_splits sum.splits prod.splits)
  then show ?thesis
  proof cases
    case 1
    then show ?thesis using assms(3) by (simp add: extendsI)
  next
    case 2
    from 2(1) have g': "rg_resources g' = sort_key or_id (dict_values (fold dict_del gone records))"
      "rg_lists g' = sort_key lr_id (dict_values (fold dict_del aux alists))" "rg_compliance g' = rg_compliance g"
      by (auto simp: make_registry_Inr_iff)
    have "set (dict_values (fold dict_del gone records)) \<subseteq> set (rg_resources g) \<union> Collect (created_record c)"
      "set (dict_values (fold dict_del aux alists)) \<subseteq> set (rg_lists g) \<union> Collect (created_bypass c)"
      using assms(2) unfolding ev gathered_def by (intro del_values_subset; simp del: set_map)+
    then have "records_of g' \<subseteq> records_of g \<union> Collect (commit_vouches c)"
      unfolding records_of_def g' by (auto simp: commit_vouches_def simp del: set_map)
    from saved_extends [OF 2(2) assms(3)] this show ?thesis unfolding assms(4) by blast
  qed
qed

section \<open>Triples\<close>

text \<open>
  What holds after an action that starts where \<open>P\<close> holds: \<open>R\<close> of the value it returns,
  \<open>E\<close> when it raises.
\<close>

definition triple :: "('s \<Rightarrow> bool) \<Rightarrow> ('s, 'a) act \<Rightarrow> ('a \<Rightarrow> 's \<Rightarrow> bool) \<Rightarrow> ('s \<Rightarrow> bool) \<Rightarrow> bool" where
  "triple P m R E \<longleftrightarrow> (\<forall>s r t. P s \<longrightarrow> m s = (r, t) \<longrightarrow> (case r of Inl e \<Rightarrow> E t | Inr x \<Rightarrow> R x t))"

lemma triple_bind:
  assumes "triple P m R E" and "\<And>x. triple (R x) (f x) S E"
  shows "triple P (bind m f) S E"
  unfolding triple_def
proof (intro allI impI)
  fix s r t
  assume s: "P s" and b: "bind m f s = (r, t)"
  obtain q u where q: "m s = (q, u)" by fastforce
  have "case q of Inl e \<Rightarrow> E u | Inr x \<Rightarrow> R x u" using assms(1) s q unfolding triple_def by blast
  then show "case r of Inl e \<Rightarrow> E t | Inr x \<Rightarrow> S x t"
  proof (cases q)
    case (Inr x)
    then have "R x u" "f x u = (r, t)" using \<open>case q of Inl e \<Rightarrow> E u | Inr x \<Rightarrow> R x u\<close> b q by (simp_all add: bind_def)
    with assms(2) [of x] show ?thesis unfolding triple_def by blast
  qed (use b q in \<open>auto simp: bind_def\<close>)
qed

lemma tripleI:
  assumes "\<And>s x t. P s \<Longrightarrow> m s = (Inr x, t) \<Longrightarrow> R x t" and "\<And>s e t. P s \<Longrightarrow> m s = (Inl e, t) \<Longrightarrow> E t"
  shows "triple P m R E"
  unfolding triple_def using assms by (auto split: sum.splits)

lemma triple_lift_bind:
  assumes "\<And>x. r = Inr x \<Longrightarrow> triple P (f x) R E" and "\<And>s. P s \<Longrightarrow> E s"
  shows "triple P (bind (lift r) f) R E"
  using assms by (cases r) (auto simp: triple_def bind_def)

lemma triple_andthen: "triple P m R E \<Longrightarrow> (\<And>x. triple (R x) n S E) \<Longrightarrow> triple P (andthen m n) S E"
  unfolding andthen_def by (rule triple_bind)

lemma triple_lift: "(\<And>s x. P s \<Longrightarrow> r = Inr x \<Longrightarrow> R x s) \<Longrightarrow> (\<And>s. P s \<Longrightarrow> E s) \<Longrightarrow> triple P (lift r) R E"
  by (cases r) (auto simp: triple_def)

lemma triple_return: "(\<And>s. P s \<Longrightarrow> R x s) \<Longrightarrow> triple P (return x) R E"
  by (auto simp: triple_def)

lemma triple_raise: "(\<And>s. P s \<Longrightarrow> E s) \<Longrightarrow> triple P (raise e) R E"
  by (auto simp: triple_def)

lemma triple_if: "(b \<Longrightarrow> triple P m R E) \<Longrightarrow> (\<not> b \<Longrightarrow> triple P n R E) \<Longrightarrow> triple P (if b then m else n) R E"
  by simp

lemma triple_pure: "(I \<Longrightarrow> triple P m R E) \<Longrightarrow> triple (\<lambda>s. I \<and> P s) m R E"
  by (auto simp: triple_def)

lemma triple_keeps: "keeps P m \<Longrightarrow> (\<And>s. P s \<Longrightarrow> E s) \<Longrightarrow> triple P m (\<lambda>_. P) E"
  by (auto simp: triple_def keeps_def split: sum.splits)

lemma triple_fold_act:
  assumes "I b" and "\<And>x b. x \<in> set xs \<Longrightarrow> I b \<Longrightarrow> triple P (f x b) (\<lambda>c t. I c \<and> P t) E"
  shows "triple P (fold_act f xs b) (\<lambda>c t. I c \<and> P t) E"
  using assms
proof (induction xs arbitrary: b)
  case (Cons x xs)
  show ?case unfolding fold_act.simps
    by (rule triple_bind [OF Cons.prems(2)]) (auto intro!: triple_pure Cons.IH Cons.prems)
qed (auto intro: triple_return)

text \<open>The registry untouched, and the file as a commit or a recovery leaves it.\<close>

definition untouched :: "store \<Rightarrow> store \<Rightarrow> bool" where
  "untouched s0 s \<longleftrightarrow> st_registry s = st_registry s0"

lemma untouched_extends: "untouched s0 s \<Longrightarrow> extends V s0 s"
  by (simp add: untouched_def extendsI)

lemma keeps_untouched: "(\<And>g. keeps (\<lambda>s. st_registry s = g) m) \<Longrightarrow> keeps (untouched s0) m"
  unfolding untouched_def .

lemma triple_load:
  "triple (untouched s0) load_registry (\<lambda>g s. g = held s0 \<and> untouched s0 s) (extends V s0)"
  unfolding triple_def
proof (intro allI impI)
  fix s r t
  assume s: "untouched s0 s" and l: "load_registry s = (r, t)"
  have t: "untouched s0 t" using keepsD [OF keeps_untouched [OF keeps_registry_basic(2)] s l] .
  show "case r of Inl e \<Rightarrow> extends V s0 t | Inr g \<Rightarrow> g = held s0 \<and> untouched s0 t"
    using t l load_registry_Inr s by (cases r) (fastforce simp: untouched_extends held_def untouched_def)+
qed

lemma triple_save:
  assumes "records_of g \<subseteq> records_of (held s0) \<union> Collect V"
  shows "triple (untouched s0) (save_registry g) (\<lambda>_. extends V s0) (extends V s0)"
  unfolding triple_def untouched_def using saved_extends [OF _ _ assms] by (auto split: sum.splits)

section \<open>What the commits and the recovery add\<close>

lemma triple_settle:
  assumes "gathered g c ev" and "g = held s0"
  shows "triple (untouched s0) (settle_commit c g ks ev) (\<lambda>_. extends (commit_vouches c) s0) (extends (commit_vouches c) s0)"
  unfolding triple_def untouched_def using settle_commit_extends [OF _ assms(1) _ assms(2)] by (auto split: sum.splits)

lemma triple_pairs:
  assumes "created_resources c = Inr created" and "gathered g c ev"
  shows "triple (untouched s0) (fold_act (commit_pair clock) (fst created) ev) (\<lambda>e s. gathered g c e \<and> untouched s0 s) (extends V s0)"
proof (rule triple_fold_act [where I = "gathered g c", OF assms(2)])
  fix p b
  assume p: "p \<in> set (fst created)" and b: "gathered g c b"
  obtain i rn ln ou where p': "p = (i, rn, ln, ou)" by (cases p)
  note from_change = created_resources_from(1) [of c "fst created" "snd created", unfolded prod.collapse, OF assms(1) p [unfolded p']]
  show "triple (untouched s0) (commit_pair clock p b) (\<lambda>c' t. gathered g c c' \<and> untouched s0 t) (extends V s0)"
    unfolding p'
  proof (rule tripleI)
    fix s x t
    assume s: "untouched s0 s" and step: "commit_pair clock (i, rn, ln, ou) b s = (Inr x, t)"
    show "gathered g c x \<and> untouched s0 t"
      using commit_pair_gathered [OF step b from_change] keepsD [OF keeps_untouched [OF keeps_registry_commit(1)] s step] by simp
  next
    fix s e t
    assume s: "untouched s0 s" and step: "commit_pair clock (i, rn, ln, ou) b s = (Inl e, t)"
    show "extends V s0 t"
      by (rule untouched_extends [OF keepsD [OF keeps_untouched [OF keeps_registry_commit(1)] s step]])
  qed
qed

lemma triple_auxiliary:
  assumes "created_resources c = Inr created" and "gathered g c ev"
  shows "triple (untouched s0) (fold_act (commit_auxiliary clock) (snd created) ev) (\<lambda>e s. gathered g c e \<and> untouched s0 s) (extends V s0)"
proof (rule triple_fold_act [where I = "gathered g c", OF assms(2)])
  fix p b
  assume p: "p \<in> set (snd created)" and b: "gathered g c b"
  obtain i n ou where p': "p = (i, n, ou)" by (cases p)
  note from_change = created_resources_from(2) [of c "fst created" "snd created", unfolded prod.collapse, OF assms(1) p [unfolded p']]
  show "triple (untouched s0) (commit_auxiliary clock p b) (\<lambda>c' t. gathered g c c' \<and> untouched s0 t) (extends V s0)"
    unfolding p'
  proof (rule tripleI)
    fix s x t
    assume s: "untouched s0 s" and step: "commit_auxiliary clock (i, n, ou) b s = (Inr x, t)"
    show "gathered g c x \<and> untouched s0 t"
      using commit_auxiliary_gathered [OF step b from_change] keepsD [OF keeps_untouched [OF keeps_registry_commit(2)] s step] by simp
  next
    fix s e t
    assume s: "untouched s0 s" and step: "commit_auxiliary clock (i, n, ou) b s = (Inl e, t)"
    show "extends V s0 t"
      by (rule untouched_extends [OF keepsD [OF keeps_untouched [OF keeps_registry_commit(2)] s step]])
  qed
qed

lemma gathered_start: "gathered g c (dict_of or_id (rg_resources g), dict_of lr_id (rg_lists g), [])"
  using dict_of_values [of or_id "rg_resources g"] dict_of_values [of lr_id "rg_lists g"]
  by (auto simp: gathered_def simp del: set_map)

text \<open>A commit of blocked-sender changes, whatever its result.\<close>

definition blocked_proof :: "change_set \<Rightarrow> verification_result \<Rightarrow> bool" where
  "blocked_proof c v \<longleftrightarrow> vr_status v = Matched \<and> vr_desired v = ch_after c \<and> vr_observed v = Some (ch_after c)"

text \<open>The registry is untouched, or there is a proof and what is added is vouched for.\<close>

definition proven :: "bool \<Rightarrow> (evidence_record \<Rightarrow> bool) \<Rightarrow> store \<Rightarrow> store \<Rightarrow> bool" where
  "proven B V s0 t \<longleftrightarrow> untouched s0 t \<or> B \<and> extends V s0 t"

lemma untouched_proven: "untouched s0 s \<Longrightarrow> proven B V s0 s" by (simp add: proven_def)

lemma triple_weaken:
  "triple P m R E \<Longrightarrow> (\<And>x s. R x s \<Longrightarrow> S x s) \<Longrightarrow> (\<And>s. E s \<Longrightarrow> F s) \<Longrightarrow> triple P m S F"
  by (fastforce simp: triple_def split: sum.splits)

lemma triple_proven:
  "B \<Longrightarrow> triple P m (\<lambda>_. extends V s0) (extends V s0) \<Longrightarrow> triple P m (\<lambda>_. proven B V s0) (proven B V s0)"
  by (rule triple_weaken, assumption) (auto simp: proven_def)

lemma commit_verified_proven:
  "triple (untouched s0) (commit_verified clock c v) (\<lambda>_. proven (blocked_proof c v) (commit_vouches c) s0)
     (proven (blocked_proof c v) (commit_vouches c) s0)"
proof (cases "blocked_proof c v")
  case True
  then have v: "vr_status v = Matched" "vr_desired v = ch_after c" "vr_observed v = Some (ch_after c)"
    by (simp_all add: blocked_proof_def)
  let ?V = "commit_vouches c" and ?g = "held s0"
  have settle: "triple (untouched s0) (bind (fold_act (commit_auxiliary clock) (snd created) ev) (settle_commit c ?g ks))
      (\<lambda>_. extends ?V s0) (extends ?V s0)" if "created_resources c = Inr created" "gathered ?g c ev" for created ev ks
    by (rule triple_bind [OF triple_auxiliary [OF that]], rule triple_pure, rule triple_settle) simp_all
  have gather: "triple (untouched s0) (bind (fold_act (commit_pair clock) (fst created)
        (dict_of or_id (rg_resources ?g), dict_of lr_id (rg_lists ?g), []))
      (\<lambda>ev. bind (fold_act (commit_auxiliary clock) (snd created) ev) (settle_commit c ?g ks)))
      (\<lambda>_. extends ?V s0) (extends ?V s0)" if "created_resources c = Inr created" for created ks
    by (rule triple_bind [OF triple_pairs [OF that gathered_start]], rule triple_pure, rule settle [OF that])
  have "triple (untouched s0) (bind load_registry (\<lambda>g. bind (lift (created_resources c)) (\<lambda>created.
        bind (lift (fully_removed_ids c)) (\<lambda>ks.
        bind (fold_act (commit_pair clock) (fst created)
          (dict_of or_id (rg_resources g), dict_of lr_id (rg_lists g), [])) (\<lambda>ev.
        bind (fold_act (commit_auxiliary clock) (snd created) ev) (settle_commit c g ks))))))
      (\<lambda>_. extends ?V s0) (extends ?V s0)"
    by (rule triple_bind [OF triple_load], rule triple_pure, hypsubst)
      (intro triple_lift_bind gather untouched_extends)
  with v have "triple (untouched s0) (commit_verified clock c v) (\<lambda>_. extends ?V s0) (extends ?V s0)"
    by (simp add: commit_verified_def)
  with True show ?thesis by (rule triple_proven)
qed (auto simp: commit_verified_def blocked_proof_def intro!: triple_return triple_raise untouched_proven)

text \<open>A commit of content-compliance changes.\<close>

definition compliance_proof :: "compliance_change_set \<Rightarrow> compliance_verification \<Rightarrow> bool" where
  "compliance_proof c v \<longleftrightarrow> cv_status v = C_Matched \<and> cv_desired v = cc_after c \<and> cv_observed v = Some (cc_after c)"

definition compliance_vouches :: "compliance_change_set \<Rightarrow> evidence_record \<Rightarrow> bool" where
  "compliance_vouches c e \<longleftrightarrow> (case e of Compliance_Record z \<Rightarrow> created_compliance c z | _ \<Rightarrow> False)"

definition gathered_compliance :: "registry \<Rightarrow> compliance_change_set \<Rightarrow> compliance_evidence \<Rightarrow> bool" where
  "gathered_compliance g c ev \<longleftrightarrow> set (dict_values (fst ev)) \<subseteq> set (rg_compliance g) \<union> Collect (created_compliance c)"

lemma commit_compliance_gathered:
  assumes "commit_compliance_rule clock r ev s = (Inr ev', t)" and "gathered_compliance g c ev" and "r \<in> set (cc_create c)"
  shows "gathered_compliance g c ev'"
proof -
  obtain records added where ev: "ev = (records, added)" by (cases ev)
  from assms(1) obtain now z where z: "z = \<lparr>co_id = cr_id r, co_name = cr_name r, co_ou = ou_path (cr_ou r),
      co_created = now, co_snapshot = None\<rparr>"
    and ev': "ev' = ev \<or> ev' = (dict_put (cr_id r) z records, added @ [cr_id r])"
    unfolding ev by (fastforce simp: commit_compliance_rule_def act_simps check_compliance_record_def split: option.splits if_splits)
  have "created_compliance c z" unfolding created_compliance_def z using assms(3) by auto
  then have "set (dict_values (dict_put (cr_id r) z records)) \<subseteq> set (rg_compliance g) \<union> Collect (created_compliance c)"
    using assms(2) unfolding ev gathered_compliance_def by (intro put_values_subset) (simp_all del: set_map)
  with ev' assms(2) show ?thesis unfolding ev gathered_compliance_def by (auto simp del: set_map)
qed

lemma triple_compliance_rules:
  assumes "gathered_compliance g c ev"
  shows "triple (untouched s0) (fold_act (commit_compliance_rule clock) (cc_create c) ev)
    (\<lambda>e s. gathered_compliance g c e \<and> untouched s0 s) (extends V s0)"
proof (rule triple_fold_act [where I = "gathered_compliance g c", OF assms])
  fix r b
  assume r: "r \<in> set (cc_create c)" and b: "gathered_compliance g c b"
  show "triple (untouched s0) (commit_compliance_rule clock r b) (\<lambda>e s. gathered_compliance g c e \<and> untouched s0 s) (extends V s0)"
  proof (rule tripleI)
    fix s x t
    assume s: "untouched s0 s" and step: "commit_compliance_rule clock r b s = (Inr x, t)"
    show "gathered_compliance g c x \<and> untouched s0 t"
      using commit_compliance_gathered [OF step b r] keepsD [OF keeps_untouched [OF keeps_registry_commit(3)] s step] by simp
  next
    fix s e t
    assume s: "untouched s0 s" and step: "commit_compliance_rule clock r b s = (Inl e, t)"
    show "extends V s0 t"
      by (rule untouched_extends [OF keepsD [OF keeps_untouched [OF keeps_registry_commit(3)] s step]])
  qed
qed

lemma commit_compliance_proven:
  "triple (untouched s0) (commit_compliance_verified clock c v) (\<lambda>_. proven (compliance_proof c v) (compliance_vouches c) s0)
     (proven (compliance_proof c v) (compliance_vouches c) s0)"
proof (cases "compliance_proof c v")
  case True
  then have v: "cv_status v = C_Matched" "cv_desired v = cc_after c" "cv_observed v = Some (cc_after c)"
    by (simp_all add: compliance_proof_def)
  let ?V = "compliance_vouches c" and ?g = "held s0"
  have start: "gathered_compliance ?g c (dict_of co_id (rg_compliance ?g), [])"
    using dict_of_values [of co_id "rg_compliance ?g"] by (auto simp: gathered_compliance_def simp del: set_map)
  have settle: "triple (untouched s0) (bind (lift (make_registry (rg_resources ?g) (rg_lists ?g)
        (sort_key (\<lambda>r. uuid_hex (co_id r)) (dict_values (fold dict_del removed records)))))
      (\<lambda>g'. andthen (save_registry g') (return u))) (\<lambda>_. extends ?V s0) (extends ?V s0)"
    if "gathered_compliance ?g c (records, added)" for records added removed and u :: ownership_update
  proof (rule triple_lift_bind [OF _ untouched_extends])
    fix g'
    assume g': "make_registry (rg_resources ?g) (rg_lists ?g)
        (sort_key (\<lambda>r. uuid_hex (co_id r)) (dict_values (fold dict_del removed records))) = Inr g'"
    have "set (dict_values (fold dict_del removed records)) \<subseteq> set (rg_compliance ?g) \<union> Collect (created_compliance c)"
      using that unfolding gathered_compliance_def by (intro del_values_subset) simp
    then have "records_of g' \<subseteq> records_of ?g \<union> Collect ?V"
      using g' by (auto simp: make_registry_Inr_iff records_of_def compliance_vouches_def simp del: set_map)
    from triple_save [OF this] show "triple (untouched s0) (andthen (save_registry g') (return u)) (\<lambda>_. extends ?V s0) (extends ?V s0)"
      by (rule triple_andthen) (rule triple_return)
  qed
  have "triple (untouched s0) (commit_compliance_verified clock c v) (\<lambda>_. extends ?V s0) (extends ?V s0)"
    unfolding commit_compliance_verified_def
    by (simp only: v not_True_eq_False if_False simp_thms, rule triple_bind [OF triple_load], rule triple_pure, hypsubst,
        rule triple_bind [OF triple_compliance_rules [OF start]], rule triple_pure)
      (auto simp: Let_def split: prod.split intro!: settle triple_return untouched_extends)
  with True show ?thesis by (rule triple_proven)
qed (auto simp: commit_compliance_verified_def compliance_proof_def intro!: triple_return triple_raise untouched_proven)

text \<open>A recovery.\<close>

definition recovery_proof ::
    "(string \<Rightarrow> string) \<Rightarrow> (py_datetime \<Rightarrow> string) \<Rightarrow> (string \<Rightarrow> audit_event option) \<Rightarrow> uuid \<Rightarrow> blocked_state \<Rightarrow>
      audit_run \<Rightarrow> string \<Rightarrow> bool" where
  "recovery_proof H isofmt read i s a confirmation \<longleftrightarrow> py_strip confirmation = recovery_phrase i \<and>
     intact H isofmt read a \<and> (\<exists>c r l. ar_change a = Some c \<and>
       r \<in> set (ch_rules_create c) \<inter> set (bs_rules s) \<and> l \<in> set (ch_lists_create c) \<inter> set (bs_lists s) \<and>
       br_id r = i \<and> al_id l = i \<and> br_lists r = [al_name l])"

definition recovery_vouches :: "uuid \<Rightarrow> blocked_state \<Rightarrow> audit_run \<Rightarrow> evidence_record \<Rightarrow> bool" where
  "recovery_vouches i s a e \<longleftrightarrow> (case e of
       Rule_Record x \<Rightarrow> or_id x = i \<and> or_ou x = ''/'' \<and> (\<exists>c. ar_change a = Some c \<and>
         (\<exists>r \<in> set (ch_rules_create c) \<inter> set (bs_rules s). \<exists>l \<in> set (ch_lists_create c) \<inter> set (bs_lists s).
           br_id r = i \<and> al_id l = i \<and> br_lists r = [al_name l] \<and>
           or_rule_name x = br_name r \<and> or_list_name x = al_name l))
     | _ \<Rightarrow> False)"

lemma verified_creation_pair_Inr:
  assumes "verified_creation_pair a m after i = Inr (r, l)"
  shows "mn_status m \<in> {Applied_UI_Verified, Applied_Pending_Propagation}"
    "\<exists>c. ar_change a = Some c \<and> r \<in> set (ch_rules_create c) \<and> l \<in> set (ch_lists_create c)"
  using assms
  by (auto simp: verified_creation_pair_def and_then_Inr_iff filter_eq_Cons_iff split: option.splits list.splits if_splits)

lemma recover_proven:
  "triple (untouched s0) (recover H isofmt read i s a confirmation)
     (\<lambda>_. proven (recovery_proof H isofmt read i s a confirmation) (recovery_vouches i s a) s0)
     (proven (recovery_proof H isofmt read i s a confirmation) (recovery_vouches i s a) s0)"
  (is "triple _ _ (\<lambda>_. ?E) _")
  unfolding recover_def
proof (intro triple_if triple_lift_bind triple_raise untouched_proven)
  fix m after p q
  assume phrase: "\<not> py_strip confirmation \<noteq> recovery_phrase i"
    and m: "validated_manifest H isofmt read a = Inr m" and p: "verified_creation_pair a m after i = Inr p"
    and q: "exact_pair s i = Inr q" and same: "\<not> p \<noteq> q"
  obtain r l where rl: "q = (r, l)" by (cases q)
  note pair = verified_creation_pair_Inr [OF p [unfolded not_not [THEN iffD1, OF same] rl]]
  note seen = exact_pair_Inr [OF q [unfolded rl]]
  have "intact H isofmt read a"
    using m pair(1) by (auto simp: intact_def validated_manifest_def and_then_Inr_iff split: option.splits if_splits)
  with phrase pair(2) seen have proof': "recovery_proof H isofmt read i s a confirmation"
    unfolding recovery_proof_def by blast
  show "triple (untouched s0) (bind load_registry (\<lambda>g. if find_record g i \<noteq> None then raise OwnershipNotEstablished
      else bind (lift (check_ownership_record \<lparr>or_id = i, or_rule_name = br_name (fst q),
          or_list_name = al_name (snd q), or_ou = ''/'', or_created = mn_end m,
          or_rule_snapshot = None, or_list_snapshot = None\<rparr>)) (\<lambda>record.
        bind (lift (make_registry (sort_key (\<lambda>r. uuid_hex (or_id r)) (rg_resources g @ [record])) [] [])) (\<lambda>g'.
        andthen (save_registry g') (return record))))) (\<lambda>_. ?E) ?E"
  proof (rule triple_proven [OF proof'], rule triple_bind [OF triple_load], rule triple_pure, hypsubst,
      intro triple_if triple_lift_bind triple_raise untouched_extends)
    fix x g'
    assume x: "check_ownership_record \<lparr>or_id = i, or_rule_name = br_name (fst q),
          or_list_name = al_name (snd q), or_ou = ''/'', or_created = mn_end m,
          or_rule_snapshot = None, or_list_snapshot = None\<rparr> = Inr x"
      and g': "make_registry (sort_key (\<lambda>r. uuid_hex (or_id r)) (rg_resources (held s0) @ [x])) [] [] = Inr g'"
    have "recovery_vouches i s a (Rule_Record x)"
      using x pair(2) seen rl by (fastforce simp: recovery_vouches_def check_ownership_record_def split: if_splits)
    then have "records_of g' \<subseteq> records_of (held s0) \<union> Collect (recovery_vouches i s a)"
      using g' by (auto simp: make_registry_Inr_iff records_of_def)
    from triple_save [OF this] show "triple (untouched s0) (andthen (save_registry g') (return x))
        (\<lambda>_. extends (recovery_vouches i s a) s0) (extends (recovery_vouches i s a) s0)"
      by (rule triple_andthen) (rule triple_return)
  qed
qed

section \<open>Attended runs\<close>

text \<open>The records a verified attended run vouches for: those of its preview's desired state.\<close>

definition attended_vouches :: "attended_preview \<Rightarrow> evidence_record \<Rightarrow> bool" where
  "attended_vouches p e \<longleftrightarrow> (case e of
       Rule_Record x \<Rightarrow> (\<exists>after. av_standard_after p = Some after \<and> (\<exists>r \<in> set (bs_rules after).
         or_id x = br_id r \<and> or_rule_name x = br_name r \<and> or_ou x = br_ou r \<and> or_rule_snapshot x = Some r \<and>
         ((\<exists>l \<in> set (bs_lists after). al_id l = br_id r \<and> or_list_name x = al_name l) \<or> or_list_name x = hd (br_lists r))))
     | List_Record y \<Rightarrow> (\<exists>after. av_standard_after p = Some after \<and> (\<exists>l \<in> set (bs_lists after).
         lr_id y = al_id l \<and> lr_name y = al_name l \<and> lr_ou y = bs_ou after \<and> lr_snapshot y = Some l))
     | Compliance_Record z \<Rightarrow> (\<exists>after. av_compliance_after p = Some after \<and> (\<exists>r \<in> set (cs_rules after).
         co_id z = cr_id r \<and> co_name z = cr_name r \<and> co_ou z = ou_path (cr_ou r) \<and> co_snapshot z = Some r)))"

lemma commit_rule_Inr:
  assumes "commit_rule (dict_of al_id ls) now r d = Inr d'"
  shows "\<exists>x. d' = dict_put (br_id r) x d \<and> or_id x = br_id r \<and> or_rule_name x = br_name r \<and> or_ou x = br_ou r \<and>
    or_rule_snapshot x = Some r \<and>
    ((\<exists>l \<in> set ls. al_id l = br_id r \<and> or_list_name x = al_name l) \<or> or_list_name x = hd (br_lists r))"
  using assms dict_get_of [of al_id ls "br_id r"]
  by (fastforce simp: commit_rule_def Let_def check_ownership_record_def and_then_Inr_iff split: option.splits if_splits)

lemma commit_list_Inr:
  assumes "commit_list ou ids now l d = Inr d'"
  shows "d' = d \<or> (\<exists>y. d' = dict_put (al_id l) y d \<and> lr_id y = al_id l \<and> lr_name y = al_name l \<and> lr_ou y = ou \<and>
    lr_snapshot y = Some l)"
  using assms by (fastforce simp: commit_list_def check_list_record_def and_then_Inr_iff split: if_splits)

lemma commit_advanced_rule_Inr:
  assumes "commit_advanced_rule now r d = Inr d'"
  shows "\<exists>z. d' = dict_put (cr_id r) z d \<and> co_id z = cr_id r \<and> co_name z = cr_name r \<and> co_ou z = ou_path (cr_ou r) \<and>
    co_snapshot z = Some r"
  using assms by (fastforce simp: commit_advanced_rule_def check_compliance_record_def and_then_Inr_iff split: if_splits)

lemma del_each_subset: "set (dict_values d) \<subseteq> A \<Longrightarrow> set (dict_values (fold (\<lambda>x. dict_del (key x)) xs d)) \<subseteq> A"
  using del_values_subset [of d A "map key xs"] by (simp add: fold_map comp_def del: set_map)

lemma commit_standard_from:
  assumes "commit_standard p now (dr, dl) = Inr (dr', dl')"
    and "set (dict_values dr) \<subseteq> R" "\<And>x. attended_vouches p (Rule_Record x) \<Longrightarrow> x \<in> R"
    and "set (dict_values dl) \<subseteq> L" "\<And>y. attended_vouches p (List_Record y) \<Longrightarrow> y \<in> L"
  shows "set (dict_values dr') \<subseteq> R \<and> set (dict_values dl') \<subseteq> L"
proof (cases "\<exists>after change. av_standard_after p = Some after \<and> av_standard_change p = Some change")
  case False
  then have "dr' = dr \<and> dl' = dl" using assms(1) by (auto simp: commit_standard_def split: option.splits)
  then show ?thesis using assms(2,4) by simp
next
  case True
  then obtain after change where p: "av_standard_after p = Some after" "av_standard_change p = Some change" by blast
  define lists_by_id where "lists_by_id = dict_of al_id (bs_lists after)"
  from assms(1) p have
    rules: "fold_res (commit_rule lists_by_id now) (bs_rules after) (fold (\<lambda>r. dict_del (br_id r)) (ch_rules_remove change) dr) = Inr dr'"
    and ls: "fold_res (commit_list (bs_ou after) (dict_keys dr') now) (dict_values lists_by_id)
      (fold (\<lambda>l. dict_del (al_id l)) (ch_lists_remove change) dl) = Inr dl'"
    by (auto simp: commit_standard_def Let_def and_then_Inr_iff lists_by_id_def)
  have "set (dict_values dr') \<subseteq> R"
  proof (rule fold_res_keeps [where I = "\<lambda>d. set (dict_values d) \<subseteq> R", OF rules del_each_subset [OF assms(2)]])
    fix r d d'
    assume r: "r \<in> set (bs_rules after)" and d: "set (dict_values d) \<subseteq> R"
      and step: "commit_rule lists_by_id now r d = Inr d'"
    from commit_rule_Inr [OF step [unfolded lists_by_id_def]] obtain x where x: "d' = dict_put (br_id r) x d"
      "attended_vouches p (Rule_Record x)"
      using r p(1) by (auto simp: attended_vouches_def)
    then show "set (dict_values d') \<subseteq> R" using put_values_subset [OF d assms(3)] by simp
  qed
  moreover have "set (dict_values dl') \<subseteq> L"
  proof (rule fold_res_keeps [where I = "\<lambda>d. set (dict_values d) \<subseteq> L", OF ls del_each_subset [OF assms(4)]])
    fix l d d'
    assume l: "l \<in> set (dict_values lists_by_id)" and d: "set (dict_values d) \<subseteq> L"
      and step: "commit_list (bs_ou after) (dict_keys dr') now l d = Inr d'"
    have "l \<in> set (bs_lists after)" using l dict_of_values [of al_id "bs_lists after"] by (auto simp: lists_by_id_def simp del: set_map)
    with commit_list_Inr [OF step] p(1) have "d' = d \<or> (\<exists>y. d' = dict_put (al_id l) y d \<and> attended_vouches p (List_Record y))"
      by (auto simp: attended_vouches_def)
    then show "set (dict_values d') \<subseteq> L" using put_values_subset [OF d assms(5)] d by auto
  qed
  ultimately show ?thesis ..
qed

lemma commit_advanced_from:
  assumes "commit_advanced p now dc = Inr dc'"
    and "set (dict_values dc) \<subseteq> C" "\<And>z. attended_vouches p (Compliance_Record z) \<Longrightarrow> z \<in> C"
  shows "set (dict_values dc') \<subseteq> C"
proof (cases "\<exists>after change. av_compliance_after p = Some after \<and> av_compliance_change p = Some change")
  case False
  then have "dc' = dc" using assms(1) by (auto simp: commit_advanced_def split: option.splits)
  then show ?thesis using assms(2) by simp
next
  case True
  then obtain after change where p: "av_compliance_after p = Some after" "av_compliance_change p = Some change" by blast
  from assms(1) p have "fold_res (commit_advanced_rule now) (cs_rules after)
      (fold (\<lambda>r. dict_del (cr_id r)) (cc_remove change) dc) = Inr dc'"
    by (simp add: commit_advanced_def)
  then show ?thesis
  proof (rule fold_res_keeps [where I = "\<lambda>d. set (dict_values d) \<subseteq> C", OF _ del_each_subset [OF assms(2)]])
    fix r d d'
    assume r: "r \<in> set (cs_rules after)" and d: "set (dict_values d) \<subseteq> C" and step: "commit_advanced_rule now r d = Inr d'"
    from commit_advanced_rule_Inr [OF step] obtain z where z: "d' = dict_put (cr_id r) z d"
      "attended_vouches p (Compliance_Record z)"
      using r p(1) by (auto simp: attended_vouches_def)
    then show "set (dict_values d') \<subseteq> C" using put_values_subset [OF d assms(3)] by simp
  qed
qed

lemma committed_registry_from:
  assumes "committed_registry g p now = Inr g'"
  shows "records_of g' \<subseteq> records_of g \<union> Collect (attended_vouches p)"
proof -
  from assms obtain dr dl dc where
    s: "commit_standard p now (dict_of or_id (rg_resources g), dict_of lr_id (rg_lists g)) = Inr (dr, dl)"
    and a: "commit_advanced p now (dict_of co_id (rg_compliance g)) = Inr dc"
    and g': "rg_resources g' = sort_key or_id (dict_values dr)" "rg_lists g' = sort_key lr_id (dict_values dl)"
      "rg_compliance g' = sort_key co_id (dict_values dc)"
    by (auto simp: committed_registry_def and_then_Inr_iff make_registry_Inr_iff sort_by_hex)
  have "set (dict_values dr) \<subseteq> set (rg_resources g) \<union> {x. attended_vouches p (Rule_Record x)} \<and>
      set (dict_values dl) \<subseteq> set (rg_lists g) \<union> {y. attended_vouches p (List_Record y)}"
    using dict_of_values [of or_id "rg_resources g"] dict_of_values [of lr_id "rg_lists g"]
    by (intro commit_standard_from [OF s]) (auto simp del: set_map)
  moreover have "set (dict_values dc) \<subseteq> set (rg_compliance g) \<union> {z. attended_vouches p (Compliance_Record z)}"
    using dict_of_values [of co_id "rg_compliance g"] by (intro commit_advanced_from [OF a]) (auto simp del: set_map)
  ultimately show ?thesis unfolding records_of_def g' by (auto simp del: set_map)
qed

text \<open>An action of the service that leaves the registry file alone, whatever its result.\<close>

definition rests :: "(attended_world, 'a) act \<Rightarrow> bool" where
  "rests m \<longleftrightarrow> (\<forall>w r v. m w = (r, v) \<longrightarrow> st_registry (tw_store v) = st_registry (tw_store w))"

lemma restsD: "rests m \<Longrightarrow> m w = (r, v) \<Longrightarrow> st_registry (tw_store v) = st_registry (tw_store w)"
  unfolding rests_def by blast

lemma rests_basic [simp, intro]:
  "rests (return x)" "rests (raise e)" "rests (lift a)" "rests (get f)" "rests (note_event ev)"
  "rests (system_now env)" "rests (next_uuid env)" "rests (discard_pending k)" "rests (put_pending settings p)"
  "rests (update (\<lambda>w. w\<lparr>tw_started := b\<rparr>))"
  by (auto simp: rests_def note_event_def system_now_def next_uuid_def discard_pending_def put_pending_def andthen_def bind_def)

lemma rests_bind: "rests m \<Longrightarrow> (\<And>x. rests (f x)) \<Longrightarrow> rests (bind m f)"
  unfolding rests_def bind_def by (auto split: prod.splits sum.splits)

lemma rests_andthen: "rests m \<Longrightarrow> rests n \<Longrightarrow> rests (andthen m n)"
  unfolding andthen_def by (rule rests_bind)

lemma rests_catch: "rests m \<Longrightarrow> (\<And>e. rests (h e)) \<Longrightarrow> rests (catch m takes h)"
  unfolding rests_def catch_def by (auto split: prod.splits sum.splits if_splits)

lemma rests_audit [simp, intro]: "rests (on_audit k m)" "rests (finalize_run env k status x)"
  by (auto simp: rests_def on_audit_def finalize_run_def split: prod.splits)

lemma rests_load [simp, intro]: "rests (on_registry load_registry)"
  using keepsD [OF keeps_registry_basic(2) refl] by (fastforce simp: rests_def on_registry_def split: prod.splits)

lemma rests_new_audit [simp, intro]: "rests (new_audit env settings k t)"
  by (auto simp: rests_def new_audit_def bind_def split: sum.splits)

lemma rests_calculate [simp, intro]:
  "rests (calculate_standard env settings plan s g)" "rests (calculate_advanced env settings plan c g)"
  by (auto simp: rests_def calculate_standard_def calculate_advanced_def split: prod.splits)

lemma rests_browse [simp, intro]: "rests (browse e a)"
  unfolding browse_def by (intro rests_andthen rests_basic)

lemma rests_session: "rests m \<Longrightarrow> rests (with_session an m)"
  unfolding with_session_def
  by (rule rests_andthen [OF rests_basic(3)]) (auto simp: rests_def split: prod.splits sum.splits)

lemma rests_exception: "rests m \<Longrightarrow> rests h \<Longrightarrow> rests (on_exception m h)"
  unfolding on_exception_def by (intro rests_catch rests_andthen rests_basic)

lemmas rests_intros = rests_bind rests_andthen rests_catch rests_session rests_exception

lemma rests_reads [simp, intro]:
  "rests (fresh_read an k p g)" "rests (verification_read an k p)" "rests (apply_change an k p permit)"
  "rests (attended_permit env p)"
  unfolding fresh_read_def verification_read_def apply_change_def attended_permit_def
  by (auto split: surface.split option.split intro!: rests_intros)

lemma rests_in_session [simp, intro]:
  "rests (execute_in_session env an k p g)" "rests (preview_in_session env an settings k t plan s g)"
  unfolding execute_in_session_def preview_in_session_def
  by (auto simp: Let_def split: surface.split prod.split intro!: rests_intros)

lemma rests_calls:
  "rests (attended_preview_run env an settings plan reviewed evidence)"
  "rests (record_plan_review env settings plan t evidence)" "rests (cancel_run env k)"
  unfolding attended_preview_run_def record_plan_review_def cancel_run_def
  by (auto simp: Let_def split: option.split intro!: rests_intros)

section \<open>An attended execution\<close>

text \<open>The answer of the browser to a write.\<close>

fun answer_of :: "attended_event \<Rightarrow> apply_result res option" where
  "answer_of (Standard_Apply _ _ _ r) = Some r"
| "answer_of (Compliance_Apply _ _ _ r) = Some r"
| "answer_of _ = None"

lemma execute_in_session_seen:
  assumes "execute_in_session env an k p g w = (Inr (Inr (h, b, observed)), v)"
  shows "\<exists>x y z t permit c. tw_log v = tw_log w @ [x, y, z] \<and> read_of x = Some (k, Inr t) \<and>
    canonical_hash (te_hash env) (dump_surface_state t) = av_before_hash p \<and>
    write_of y = Some (k, c, permit) \<and> change_of p = Some c \<and> permits p permit \<and> answer_of y = Some (Inr b) \<and>
    read_of z = Some (k, Inr observed)"
proof -
  from assms obtain t w1 permit w2 w3 where
    t: "fresh_read an k p g w = (Inr t, w1)" "canonical_hash (te_hash env) (dump_surface_state t) = av_before_hash p"
    and permit: "attended_permit env p w1 = (Inr permit, w2)"
    and b: "apply_change an k p permit (w2\<lparr>tw_started := True\<rparr>) = (Inr b, w3)"
    and z: "verification_read an k p w3 = (Inr observed, v)"
    by (auto simp: execute_in_session_def Let_def act_simps split: if_splits)
  obtain x where x: "tw_log w1 = tw_log w @ [x]" "read_of x = Some (k, Inr t)" using fresh_read_cases [OF t(1)] by auto
  note pf = attended_permit_front [OF permit]
  obtain y c where y: "tw_log w3 = tw_log w2 @ [y]" "write_of y = Some (k, c, permit)" "change_of p = Some c" "answer_of y = Some (Inr b)"
    using b by (auto simp: apply_change_def change_of_def browse_def note_event_def act_simps split: option.splits)
  obtain z' where z': "tw_log v = tw_log w3 @ [z']" "read_of z' = Some (k, Inr observed)"
    using z by (auto simp: verification_read_def browse_def note_event_def act_simps split: option.splits)
  show ?thesis using t(2) x y z' pf same_frontD(1) [of w1 w2]
    by (intro exI [of _ x] exI [of _ y] exI [of _ z'] exI [of _ t] exI [of _ permit] exI [of _ c]) (simp add: permits_def)
qed

text \<open>After the session only the ownership of a verified run is written.\<close>

lemma commit_ownership_extends:
  assumes "commit_ownership g p now u = (r, v)" and "g = held s0" and "untouched s0 (tw_store u)"
  shows "extends (attended_vouches p) s0 (tw_store v)"
proof (cases "committed_registry g p now")
  case (Inl e)
  then show ?thesis using assms by (auto simp: commit_ownership_def bind_def untouched_extends)
next
  case (Inr g')
  then obtain q where "save_registry g' (tw_store u) = (q, tw_store v)"
    using assms(1) by (auto simp: commit_ownership_def bind_def on_registry_def split: prod.splits)
  from saved_extends [OF this] committed_registry_from [OF Inr] assms(2,3) show ?thesis
    unfolding untouched_def by blast
qed

lemma settle_run_proven:
  assumes run: "settle_run env k p g now (h, b, observed) u = (r, v)" and "g = held s0" and "untouched s0 (tw_store u)"
  shows "proven (br_completed b \<and> desired_surface_state p = Some observed) (attended_vouches p) s0 (tw_store v)"
proof (cases "br_completed b \<and> Some observed = desired_surface_state p")
  case False
  have "rests (settle_run env k p g now (h, b, observed))"
    unfolding settle_run_def Let_def prod.case using False by (auto intro!: rests_intros)
  from restsD [OF this run] assms(3) show ?thesis by (intro untouched_proven) (simp add: untouched_def)
next
  case True
  define committing where "committing = catch (andthen (commit_ownership g p now) (return True)) (\<lambda>_. True) (\<lambda>_. return False)"
  obtain c u' where c: "committing u = (c, u')" by fastforce
  obtain q u'' where q: "commit_ownership g p now u = (q, u'')" by fastforce
  have "u' = u''" using c q by (auto simp: committing_def catch_def andthen_def bind_def split: sum.splits)
  then have e: "extends (attended_vouches p) s0 (tw_store u')" using commit_ownership_extends [OF q assms(2,3)] by simp
  have "\<exists>f. settle_run env k p g now (h, b, observed) = bind committing f \<and> (\<forall>x. rests (f x))"
    unfolding settle_run_def Let_def prod.case committing_def if_P [OF True]
    by (rule exI, rule conjI, rule refl) (auto intro!: rests_intros)
  then obtain f where f: "settle_run env k p g now (h, b, observed) = bind committing f" and rest: "\<And>x. rests (f x)"
    by blast
  have "st_registry (tw_store v) = st_registry (tw_store u')"
    using run c restsD [OF rest] unfolding f by (cases c) (auto simp: bind_def)
  then show ?thesis using e True by (auto simp: proven_def extends_def)
qed

text \<open>
  What stands behind an execution that changes the registry: the preview was accepted with its
  phrase before it expired, the fresh state has the digest of the preview, the previewed change
  was written under a permit with the digests of the preview, the browser completed it, and the
  state read back is the desired one.
\<close>

definition execution_proof ::
    "service_env \<Rightarrow> string \<Rightarrow> string \<Rightarrow> attended_preview \<Rightarrow> attended_event list \<Rightarrow> bool" where
  "execution_proof env k phrase p es \<longleftrightarrow> (\<exists>now expiry x y z t b s permit c. es = [Accepted k phrase now, x, y, z] \<and>
     av_phrase p = Some (py_strip phrase) \<and> av_expires p = Some expiry \<and> time_reached now expiry = Inr False \<and>
     read_of x = Some (k, Inr t) \<and> canonical_hash (te_hash env) (dump_surface_state t) = av_before_hash p \<and>
     write_of y = Some (k, c, permit) \<and> change_of p = Some c \<and> permits p permit \<and>
     answer_of y = Some (Inr b) \<and> br_completed b \<and>
     read_of z = Some (k, Inr s) \<and> desired_surface_state p = Some s)"

lemma accepted_run_proven:
  assumes "bind (on_registry load_registry) (\<lambda>g.
      andthen (update (\<lambda>w. w\<lparr>tw_started := False\<rparr>))
      (bind (on_exception (with_session an (execute_in_session env an k p g))
         (bind (get tw_started) (\<lambda>started.
            finalize_run env k (if started then Indeterminate else Failed_Unchanged) None))) (\<lambda>ended.
       case ended of Inl r \<Rightarrow> return r | Inr seen \<Rightarrow> settle_run env k p g now seen))) w = (r, v)"
  shows "untouched (tw_store w) (tw_store v) \<or> extends (attended_vouches p) (tw_store w) (tw_store v) \<and>
    (\<exists>x y z t permit c b s. tw_log v = tw_log w @ [x, y, z] \<and> read_of x = Some (k, Inr t) \<and>
      canonical_hash (te_hash env) (dump_surface_state t) = av_before_hash p \<and>
      write_of y = Some (k, c, permit) \<and> change_of p = Some c \<and> permits p permit \<and> answer_of y = Some (Inr b) \<and>
      br_completed b \<and> read_of z = Some (k, Inr s) \<and> desired_surface_state p = Some s)"
proof -
  obtain l u where l: "on_registry load_registry w = (l, u)" by fastforce
  have u: "untouched (tw_store w) (tw_store u)" "same_front w u"
    using restsD [OF rests_load l] on_registry_front [OF l] by (simp_all add: untouched_def)
  show ?thesis
  proof (cases l)
    case (Inl e)
    then show ?thesis using assms l u(1) by (simp add: bind_def)
  next
    case (Inr g)
    then have g: "g = held (tw_store w)"
      using l load_registry_Inr by (fastforce simp: on_registry_def held_def split: prod.splits)
    define u' where "u' = u\<lparr>tw_started := False\<rparr>"
    define session where "session = on_exception (with_session an (execute_in_session env an k p g))
         (bind (get tw_started) (\<lambda>started. finalize_run env k (if started then Indeterminate else Failed_Unchanged) None))"
    have "rests session" unfolding session_def by (intro rests_intros rests_in_session rests_basic rests_audit)
    obtain y s where y: "session u' = (y, s)" by fastforce
    have s: "untouched (tw_store w) (tw_store s)"
      using restsD [OF \<open>rests session\<close> y] u(1) by (simp add: u'_def untouched_def)
    have rest: "(case y of Inl e \<Rightarrow> (Inl e, s) | Inr (Inl q) \<Rightarrow> (Inr q, s) | Inr (Inr seen) \<Rightarrow> settle_run env k p g now seen s) = (r, v)"
    proof -
      have "bind session (\<lambda>ended. case ended of Inl r \<Rightarrow> return r | Inr seen \<Rightarrow> settle_run env k p g now seen) u' = (r, v)"
        using assms l Inr
        by (simp add: bind_def [of "on_registry m" for m] andthen_def bind_def [of "update f" for f] session_def u'_def)
      then show ?thesis using y by (auto simp: bind_def split: sum.splits)
    qed
    show ?thesis
    proof (cases "\<exists>h b observed. y = Inr (Inr (h, b, observed))")
      case False
      then have "v = s" using rest by (auto split: sum.splits)
      then show ?thesis using s by simp
    next
      case True
      then obtain h b observed where seen: "y = Inr (Inr (h, b, observed))" by blast
      then have inside: "execute_in_session env an k p g u' = (Inr (Inr (h, b, observed)), s)"
        using y by (auto simp: session_def on_exception_def catch_def with_session_def andthen_def bind_def
          split: sum.splits prod.splits)
      have settle: "settle_run env k p g now (h, b, observed) s = (r, v)" using rest seen by simp
      have "tw_log v = tw_log s" using same_frontD(1) [OF settle_run_front [OF settle]] .
      moreover have "tw_log u' = tw_log w" using u(2) by (simp add: u'_def same_front_def)
      ultimately show ?thesis
        using settle_run_proven [OF settle g s] execute_in_session_seen [OF inside]
        unfolding proven_def by metis
    qed
  qed
qed

lemma execute_run_proven:
  assumes run: "execute_run env an k phrase acknowledged w = (r, v)"
  shows "untouched (tw_store w) (tw_store v) \<or>
    (\<exists>pending es. dict_get (tw_pending w) k = Some pending \<and> tw_log v = tw_log w @ es \<and>
      execution_proof env k phrase (pr_preview pending) es \<and>
      extends (attended_vouches (pr_preview pending)) (tw_store w) (tw_store v))"
proof (cases "dict_get (tw_pending w) k")
  case None
  then show ?thesis using run by (simp add: execute_run_def bind_def untouched_def)
next
  case (Some pending)
  define p where "p = pr_preview pending"
  obtain now u where u: "system_now env w = (Inr now, u)" "same_front w u" "st_registry (tw_store u) = st_registry (tw_store w)"
    using system_now_front restsD [OF rests_basic(6)] by (metis surj_pair)
  have store: "tw_store u = tw_store w" using u(1) by (auto simp: system_now_def)
  let ?expired = "case av_expires p of None \<Rightarrow> return True | Some t \<Rightarrow> lift (time_reached now t)"
  let ?accepted = "case av_phrase p of None \<Rightarrow> Inr False | Some expected \<Rightarrow> phrase_accepted acknowledged phrase expected"
  obtain x where x: "?expired u = (x, u)" by (cases "av_expires p") auto
  show ?thesis
  proof (cases "x = Inr False \<and> ?accepted = Inr True")
    case True
    define u' where "u' = u\<lparr>tw_pending := dict_del k (tw_pending u), tw_log := tw_log u @ [Accepted k phrase now]\<rparr>"
    have tail: "bind (on_registry load_registry) (\<lambda>g.
      andthen (update (\<lambda>w. w\<lparr>tw_started := False\<rparr>))
      (bind (on_exception (with_session an (execute_in_session env an k p g))
         (bind (get tw_started) (\<lambda>started.
            finalize_run env k (if started then Indeterminate else Failed_Unchanged) None))) (\<lambda>ended.
       case ended of Inl r \<Rightarrow> return r | Inr seen \<Rightarrow> settle_run env k p g now seen))) u' = (r, v)"
      using run Some u(1) x True
      by (simp add: execute_run_def Let_def bind_def [of "system_now env"] bind_def [of "get f" for f] bind_def [of "lift c" for c]
          bind_def [of ?expired] andthen_def discard_pending_def note_event_def bind_def [of "update f" for f] u'_def flip: p_def)
    obtain t where t: "av_expires p = Some t" "time_reached now t = Inr False" using x True by (cases "av_expires p") auto
    have phrase: "av_phrase p = Some (py_strip phrase)"
      using True by (auto split: option.splits dest: accepted_phrase)
    have front: "tw_store u' = tw_store w" "tw_log u' = tw_log w @ [Accepted k phrase now]"
      using u(2) store by (simp_all add: u'_def same_front_def)
    show ?thesis
    proof (cases "untouched (tw_store w) (tw_store v)")
      case no: False
      with accepted_run_proven [OF tail] obtain x y z t' permit c b s where
        *: "extends (attended_vouches p) (tw_store w) (tw_store v)"
        "tw_log v = tw_log w @ [Accepted k phrase now, x, y, z]"
        "read_of x = Some (k, Inr t')" "canonical_hash (te_hash env) (dump_surface_state t') = av_before_hash p"
        "write_of y = Some (k, c, permit)" "change_of p = Some c" "permits p permit" "answer_of y = Some (Inr b)"
        "br_completed b" "read_of z = Some (k, Inr s)" "desired_surface_state p = Some s"
        unfolding front by auto
      have "execution_proof env k phrase p [Accepted k phrase now, x, y, z]"
        unfolding execution_proof_def using * t phrase by blast
      with *(1,2) Some show ?thesis unfolding p_def by blast
    qed simp
  next
    case False
    have "st_registry (tw_store v) = st_registry (tw_store u)"
    proof (cases "x = Inr True")
      case True
      obtain q u' where q: "finalize_run env k Confirmation_Rejected None u = (q, u')" by fastforce
      have "v = u'\<lparr>tw_pending := dict_del k (tw_pending u')\<rparr>"
        using run Some u(1) x True q
        by (cases q) (simp_all add: execute_run_def Let_def bind_def [of "system_now env"] bind_def [of "get f" for f] bind_def [of "lift c" for c]
          bind_def [of ?expired] andthen_def discard_pending_def bind_def [of "update f" for f] flip: p_def)
      then show ?thesis using restsD [OF rests_audit(2) q] by simp
    next
      case no: False
      have "v = u"
        using run Some u(1) x False no
        by (cases x; cases ?accepted)
          (auto simp: execute_run_def Let_def bind_def [of "system_now env"] bind_def [of "get f" for f] bind_def [of "lift c" for c]
            bind_def [of ?expired] simp flip: p_def)
      then show ?thesis by simp
    qed
    then show ?thesis using u(3) by (simp add: untouched_def)
  qed
qed

section \<open>The registry over any sequence of calls\<close>

datatype registry_call =
    Commit change_set verification_result
  | Commit_Compliance compliance_change_set compliance_verification
  | Recover uuid blocked_state audit_run string
  | Attended attended_request

text \<open>The world after a call; \<open>read\<close> is the reader of audit events the recovery uses.\<close>

fun registry_step :: "service_env \<Rightarrow> (string \<Rightarrow> audit_event option) \<Rightarrow> registry_call \<Rightarrow> attended_world \<Rightarrow> attended_world" where
  "registry_step env read (Commit c v) w = snd (on_registry (commit_verified (te_clock env) c v) w)"
| "registry_step env read (Commit_Compliance c v) w = snd (on_registry (commit_compliance_verified (te_clock env) c v) w)"
| "registry_step env read (Recover i s a confirmation) w =
     snd (on_registry (recover (te_hash env) (te_iso env) read i s a confirmation) w)"
| "registry_step env read (Attended x) w = attend env x w"

text \<open>What must stand behind a call that changes the registry, and the records it then vouches for.\<close>

fun grounds ::
    "service_env \<Rightarrow> (string \<Rightarrow> audit_event option) \<Rightarrow> registry_call \<Rightarrow> attended_world \<Rightarrow> attended_world \<Rightarrow> bool" where
  "grounds env read (Commit c v) w w' = blocked_proof c v"
| "grounds env read (Commit_Compliance c v) w w' = compliance_proof c v"
| "grounds env read (Recover i s a confirmation) w w' = recovery_proof (te_hash env) (te_iso env) read i s a confirmation"
| "grounds env read (Attended (Do_Execute an k phrase acknowledged)) w w' =
     (\<exists>pending es. dict_get (tw_pending w) k = Some pending \<and> tw_log w' = tw_log w @ es \<and>
        execution_proof env k phrase (pr_preview pending) es)"
| "grounds env read (Attended x) w w' = False"

fun vouches :: "registry_call \<Rightarrow> attended_world \<Rightarrow> evidence_record \<Rightarrow> bool" where
  "vouches (Commit c v) w e = commit_vouches c e"
| "vouches (Commit_Compliance c v) w e = compliance_vouches c e"
| "vouches (Recover i s a confirmation) w e = recovery_vouches i s a e"
| "vouches (Attended (Do_Execute an k phrase acknowledged)) w e =
     (\<exists>pending. dict_get (tw_pending w) k = Some pending \<and> attended_vouches (pr_preview pending) e)"
| "vouches (Attended x) w e = False"

lemma on_registry_proven:
  assumes "\<And>s0. triple (untouched s0) m (\<lambda>_. proven B V s0) (proven B V s0)"
  shows "proven B V (tw_store w) (tw_store (snd (on_registry m w)))"
proof -
  obtain r t where m: "m (tw_store w) = (r, t)" by fastforce
  have "untouched (tw_store w) (tw_store w)" by (simp add: untouched_def)
  with assms [of "tw_store w"] m have "proven B V (tw_store w) t" unfolding triple_def by (auto split: sum.splits)
  then show ?thesis by (simp add: on_registry_def m)
qed

lemma registry_step_proven:
  "proven (grounds env read x w (registry_step env read x w)) (vouches x w) (tw_store w) (tw_store (registry_step env read x w))"
proof (cases x)
  case (Commit c v)
  have "vouches x w = commit_vouches c" by (simp add: Commit fun_eq_iff)
  then show ?thesis using on_registry_proven [OF commit_verified_proven] by (simp add: Commit)
next
  case (Commit_Compliance c v)
  have "vouches x w = compliance_vouches c" by (simp add: Commit_Compliance fun_eq_iff)
  then show ?thesis using on_registry_proven [OF commit_compliance_proven] by (simp add: Commit_Compliance)
next
  case (Recover i s a confirmation)
  have "vouches x w = recovery_vouches i s a" by (simp add: Recover fun_eq_iff)
  then show ?thesis using on_registry_proven [OF recover_proven] by (simp add: Recover)
next
  case (Attended y)
  have quiet: "untouched (tw_store w) (tw_store (snd (m w)))" if "rests m" for m :: "(attended_world, 'a) act"
    unfolding untouched_def using restsD [OF that surjective_pairing] .
  show ?thesis
  proof (cases y)
    case (Do_Execute an k phrase acknowledged)
    obtain r v where "execute_run env an k phrase acknowledged w = (r, v)" by fastforce
    note run = this
    from execute_run_proven [OF run] show ?thesis
    proof (elim disjE exE conjE)
      fix pending es
      assume pending: "dict_get (tw_pending w) k = Some pending" "tw_log v = tw_log w @ es"
        "execution_proof env k phrase (pr_preview pending) es"
        and e: "extends (attended_vouches (pr_preview pending)) (tw_store w) (tw_store v)"
      have "vouches x w = attended_vouches (pr_preview pending)"
        using pending(1) by (simp add: Attended Do_Execute fun_eq_iff)
      with e pending run show ?thesis by (auto simp: proven_def Attended Do_Execute)
    qed (use run in \<open>simp add: proven_def Attended Do_Execute\<close>)
  qed (auto simp: Attended proven_def intro!: quiet rests_calls)
qed

text \<open>The world after the first \<open>n\<close> calls.\<close>

definition world_at ::
    "service_env \<Rightarrow> (string \<Rightarrow> audit_event option) \<Rightarrow> registry_call list \<Rightarrow> attended_world \<Rightarrow> nat \<Rightarrow> attended_world" where
  "world_at env read calls w n = fold (registry_step env read) (take n calls) w"

lemma world_at_Suc:
  "n < length calls \<Longrightarrow> world_at env read calls w (Suc n) = registry_step env read (calls ! n) (world_at env read calls w n)"
  by (simp add: world_at_def take_Suc_conv_app_nth)

text \<open>
  C5. The ownership registry changes only on evidence, whatever calls of the commits, of the
  recovery and of the attended service come in whatever order, and whatever fails in them (a save
  that reports an error after it replaced the file included). A call that leaves another registry
  is a commit of a matched verification whose desired and observed states are the change set's
  expected state; or a recovery with its phrase, from an intact audit whose run created the pair
  the console shows; or an attended execution of a pending run, accepted with its phrase in time,
  whose fresh read has the previewed digest, whose apply of the previewed change completed and
  whose read-back is the desired state. And every record of the registry was in it at first or was
  added by such a call for a resource this evidence shows.
\<close>

theorem registry_rests_on_evidence:
  "{n. n < length calls \<and> st_registry (tw_store (world_at env read calls w (Suc n))) \<noteq> st_registry (tw_store (world_at env read calls w n))}
     \<subseteq> {n. grounds env read (calls ! n) (world_at env read calls w n) (world_at env read calls w (Suc n))} \<and>
   records_of (held (tw_store (world_at env read calls w (length calls)))) \<subseteq>
     records_of (held (tw_store w)) \<union> {e. \<exists>n < length calls. vouches (calls ! n) (world_at env read calls w n) e \<and>
       grounds env read (calls ! n) (world_at env read calls w n) (world_at env read calls w (Suc n))}"
proof (rule conjI)
  let ?at = "world_at env read calls w"
  have step: "proven (grounds env read (calls ! n) (?at n) (?at (Suc n))) (vouches (calls ! n) (?at n)) (tw_store (?at n)) (tw_store (?at (Suc n)))"
    if "n < length calls" for n
    using registry_step_proven [where env = env and read = read and x = "calls ! n" and w = "?at n"] unfolding world_at_Suc [OF that] .
  show "{n. n < length calls \<and> st_registry (tw_store (?at (Suc n))) \<noteq> st_registry (tw_store (?at n))}
     \<subseteq> {n. grounds env read (calls ! n) (?at n) (?at (Suc n))}"
    using step unfolding proven_def untouched_def by blast
  have "records_of (held (tw_store (?at m))) \<subseteq> records_of (held (tw_store w)) \<union>
      {e. \<exists>n < m. vouches (calls ! n) (?at n) e \<and> grounds env read (calls ! n) (?at n) (?at (Suc n))}"
    if "m \<le> length calls" for m
    using that
  proof (induction m)
    case (Suc m)
    then have IH: "records_of (held (tw_store (?at m))) \<subseteq> records_of (held (tw_store w)) \<union>
      {e. \<exists>n < m. vouches (calls ! n) (?at n) e \<and> grounds env read (calls ! n) (?at n) (?at (Suc n))}" by simp
    have m: "m < length calls" using Suc.prems by simp
    from step [OF m] have "records_of (held (tw_store (?at (Suc m)))) \<subseteq> records_of (held (tw_store (?at m))) \<union>
      {e. vouches (calls ! m) (?at m) e \<and> grounds env read (calls ! m) (?at m) (?at (Suc m))}"
      unfolding proven_def untouched_def extends_def by (auto simp: held_def)
    with IH show ?case by (fastforce simp: less_Suc_eq)
  qed (simp add: world_at_def)
  from this [OF order_refl] show "records_of (held (tw_store (?at (length calls)))) \<subseteq> records_of (held (tw_store w)) \<union>
     {e. \<exists>n < length calls. vouches (calls ! n) (?at n) e \<and> grounds env read (calls ! n) (?at n) (?at (Suc n))}" .
qed

text \<open>The commit of the small console.\<close>

theorem registry_rests_on_evidence_witness:
  "let w = ex_front\<lparr>tw_store := ex_store ex_registry\<rparr>;
       call = Commit (calculate_change_set ex_state ex_created) (ex_verification ex_created);
       w' = w\<lparr>tw_store := ex_committed\<rparr>
   in registry_step (ex_service\<lparr>te_clock := ex_clock\<rparr>) ex_reader call w = w' \<and>
      st_registry (tw_store w') \<noteq> st_registry (tw_store w) \<and>
      grounds (ex_service\<lparr>te_clock := ex_clock\<rparr>) ex_reader call w w' \<and>
      Rule_Record ex_record7 \<in> records_of (held (tw_store w')) \<and> vouches call w (Rule_Record ex_record7)"
proof -
  define w where "w = ex_front\<lparr>tw_store := ex_store ex_registry\<rparr>"
  define call where "call = Commit (calculate_change_set ex_state ex_created) (ex_verification ex_created)"
  define env where "env = ex_service\<lparr>te_clock := ex_clock\<rparr>"
  define w' where "w' = w\<lparr>tw_store := ex_committed\<rparr>"
  have step: "registry_step env ex_reader call w = w'"
    by (simp add: call_def w_def w'_def env_def on_registry_def ex_commit)
  have at: "world_at env ex_reader [call] w (Suc 0) = w'" "world_at env ex_reader [call] w 0 = w"
    using step by (simp_all add: world_at_def)
  have changed: "st_registry (tw_store w') \<noteq> st_registry (tw_store w)"
    by (simp add: w_def w'_def ex_committed_def ex_store_def ex_registry_def)
  have new: "Rule_Record ex_record7 \<in> records_of (held (tw_store w'))"
    "Rule_Record ex_record7 \<notin> records_of (held (tw_store w))"
    by (simp_all add: records_of_def held_def ex_committed_def w_def w'_def ex_store_def ex_registry_def ex_record7_def
        ex_record_def image_iff ex_rule7_def)
  note proven = registry_rests_on_evidence [of "[call]" env ex_reader w]
  have "0 \<in> {n. n < length [call] \<and> st_registry (tw_store (world_at env ex_reader [call] w (Suc n))) \<noteq>
      st_registry (tw_store (world_at env ex_reader [call] w n))}"
    using changed by (simp add: at)
  then have "grounds env ex_reader call w w'"
    using proven [THEN conjunct1] at by auto
  moreover have "vouches call w (Rule_Record ex_record7)"
    using proven [THEN conjunct2] new at by (auto simp: subset_iff)
  ultimately show ?thesis using changed new step
    unfolding w_def w'_def call_def env_def Let_def by simp
qed

end
