(* ===== verification/Browser_Goals.thy ===== *)
theory Browser_Goals
  imports Attended_Audit
begin

text \<open>
  \<^verbatim>\<open>browser/navigation_agent.py\<close> and the goal loops of
  \<^verbatim>\<open>browser/admin_agent_driver.py\<close> and \<^verbatim>\<open>browser/pages/content_compliance.py\<close>: a local
  model proposes one action at a time on a bounded catalog of visible controls, and the program
  decides whether the action is performed. Page and model answer from a stream of turns, one per
  round of a loop; what is done to the page is logged. The prompts and screenshots only go to
  the model, whose answers are arbitrary.
\<close>

section \<open>Names of controls\<close>

text \<open>\<^verbatim>\<open>s.split()\<close> and \<^verbatim>\<open>" ".join(s.split())\<close>.\<close>

function py_words :: "string \<Rightarrow> string list" where
  "py_words s =
     (case dropWhile py_space s of
        [] \<Rightarrow> []
      | c # cs \<Rightarrow> (c # takeWhile (\<lambda>c. \<not> py_space c) cs) # py_words (dropWhile (\<lambda>c. \<not> py_space c) cs))"
  by pat_completeness auto
termination
proof (relation "measure length")
  fix s c cs assume "dropWhile py_space s = c # cs"
  then have "length (c # cs) \<le> length s" by (metis length_dropWhile_le)
  then show "(dropWhile (\<lambda>c. \<not> py_space c) cs, s) \<in> measure length"
    using length_dropWhile_le [of "\<lambda>c. \<not> py_space c" cs] by simp
qed simp

declare py_words.simps [simp del]

definition squash :: "string \<Rightarrow> string" where
  "squash s = py_join '' '' (py_words s)"

text \<open>
  \<^verbatim>\<open>re.fullmatch(r"(w1|w2|...)(?:\s+.*)?", name.strip(), re.IGNORECASE)\<close>: one of the words,
  alone or followed by white space and the rest of a line.
\<close>

definition starts_with_word :: "string \<Rightarrow> string \<Rightarrow> bool" where
  "starts_with_word s w \<longleftrightarrow> py_startswith (py_lower s) w \<and>
     (let rest = drop (length w) s
      in rest = [] \<or> py_space (hd rest) \<and> CHR 0x0A \<notin> set (dropWhile py_space rest))"

definition control_named :: "string list \<Rightarrow> string \<Rightarrow> bool" where
  "control_named words name = list_ex (starts_with_word (py_strip name)) words"

definition commit_words :: "string list" where
  "commit_words = [''save'', ''add setting'', ''update'', ''apply'', ''delete'', ''remove'', ''confirm'',
     ''enable'', ''disable'']"

definition navigation_words :: "string list" where
  "navigation_words = [''open'', ''view'', ''edit'', ''show'', ''expand'', ''collapse'', ''details'', ''back'',
     ''cancel'', ''close'', ''add'', ''configure'']"

section \<open>Candidates, inputs and steps\<close>

datatype browser_action = Click | Fill | Check | Uncheck | Choose | Go_Back | Complete

fun browser_action_value :: "browser_action \<Rightarrow> string" where
  "browser_action_value Click = ''click''"
| "browser_action_value Fill = ''fill''"
| "browser_action_value Check = ''check''"
| "browser_action_value Uncheck = ''uncheck''"
| "browser_action_value Choose = ''select''"
| "browser_action_value Go_Back = ''back''"
| "browser_action_value Complete = ''complete''"

datatype candidate_role = Button | Link | Textbox | Checkbox | Option | Combobox

definition catalog_roles :: "candidate_role list" where
  "catalog_roles = [Button, Link, Textbox, Checkbox, Option, Combobox]"

fun actions_for_role :: "candidate_role \<Rightarrow> browser_action list" where
  "actions_for_role Button = [Click]"
| "actions_for_role Link = [Click]"
| "actions_for_role Option = [Click]"
| "actions_for_role Textbox = [Fill]"
| "actions_for_role Combobox = [Click, Choose]"
| "actions_for_role Checkbox = [Check, Uncheck]"

text \<open>The patterns \<^verbatim>\<open>^c[0-9]{3}$\<close> and \<^verbatim>\<open>^i[0-9]{3}$\<close>, and \<^verbatim>\<open>f"{index:03d}"\<close>.\<close>

definition token_ok :: "char \<Rightarrow> string \<Rightarrow> bool" where
  "token_ok c s \<longleftrightarrow> length s = 4 \<and> hd s = c \<and> list_all is_digit_char (tl s)"

definition token :: "char \<Rightarrow> nat \<Rightarrow> string" where
  "token c n = c # (if n < 10 then ''00'' else if n < 100 then ''0'' else []) @ show_nat n"

record candidate =
  bc_id :: string
  bc_role :: candidate_role
  bc_name :: string
  bc_actions :: "browser_action list"

definition make_candidate :: "candidate \<Rightarrow> candidate res" where
  "make_candidate c =
     (if token_ok CHR ''c'' (bc_id c) \<and> 1 \<le> length (bc_name c) \<and> length (bc_name c) \<le> 500 then Inr c
      else Inl ValidationError)"

record browser_input =
  bi_id :: string
  bi_label :: string
  bi_value :: string

definition make_browser_input :: "browser_input \<Rightarrow> browser_input res" where
  "make_browser_input i =
     (if token_ok CHR ''i'' (bi_id i) \<and> 1 \<le> length (bi_label i) \<and> length (bi_label i) \<le> 200 \<and>
         length (bi_value i) \<le> 10000 then Inr i
      else Inl ValidationError)"

record browser_step =
  sp_action :: browser_action
  sp_candidate :: "string option"
  sp_input :: "string option"
  sp_rationale :: string

definition make_browser_step :: "browser_step \<Rightarrow> browser_step res" where
  "make_browser_step s =
     (if \<not> (\<forall>i \<in> set_option (sp_candidate s). token_ok CHR ''c'' i) \<or>
         \<not> (\<forall>i \<in> set_option (sp_input s). token_ok CHR ''i'' i) \<or>
         length (sp_rationale s) < 1 \<or> length (sp_rationale s) > 500 then Inl ValidationError
      else if sp_action s = Go_Back \<or> sp_action s = Complete then
        (if sp_candidate s \<noteq> None \<or> sp_input s \<noteq> None then Inl ValidationError else Inr s)
      else if sp_candidate s = None then Inl ValidationError
      else if (sp_action s = Fill \<or> sp_action s = Choose) \<noteq> (sp_input s \<noteq> None) then Inl ValidationError
      else Inr s)"

text \<open>\<^verbatim>\<open>step.model_dump_json()\<close>.\<close>

definition step_json :: "browser_step \<Rightarrow> string" where
  "step_json s = model_json (JObj [(''action'', JStr (browser_action_value (sp_action s))),
     (''candidate_id'', dump_option JStr (sp_candidate s)), (''input_id'', dump_option JStr (sp_input s)),
     (''rationale'', JStr (sp_rationale s))])"

section \<open>The page\<close>

text \<open>What the identity tests of a page ask of it; the counts answer the named locators.\<close>

record page_facts =
  pg_url :: string
  pg_scheme :: string
  pg_host :: "string option"
  pg_dialogs :: nat
  pg_dialog_label :: "string option"
  pg_editors :: nat
  pg_compliance_headings :: nat
  pg_gmail_headings :: nat
  pg_spam_headings :: nat
  pg_blocked_headings :: nat

text \<open>An element of a role: whether it is visible, its label, its text and its placeholder.\<close>

record page_element =
  el_visible :: bool
  el_label :: "string option"
  el_text :: string
  el_placeholder :: "string option"

text \<open>
  One round of a goal loop: the facts of the page, its snapshot and its elements, the model's
  step, the elements that match a role and a name with whether the match is actionable, what
  the action ends with, and what following a newly opened page ends with.
\<close>

record turn =
  tn_facts :: "page_facts res"
  tn_snapshot :: "string res"
  tn_elements :: "(candidate_role \<Rightarrow> page_element list) res"
  tn_step :: "browser_step res"
  tn_matches :: "candidate_role \<Rightarrow> string \<Rightarrow> nat res"
  tn_actionable :: "candidate_role \<Rightarrow> string \<Rightarrow> bool res"
  tn_performed :: "unit res"
  tn_adopted :: "unit res"

text \<open>\<^verbatim>\<open>ContentCompliancePage.detect_state\<close> and \<^verbatim>\<open>GmailSpamSettingsPage.detect_state\<close>.\<close>

definition compliance_state_of :: "page_facts \<Rightarrow> page_state" where
  "compliance_state_of f =
     (if pg_editors f = 1 then Page_Compliance_Editor
      else if pg_compliance_headings f = 1 then Page_Compliance_Section
      else if pg_gmail_headings f = 1 then Page_Compliance_Settings
      else Page_Unknown)"

definition spam_state_of :: "page_facts \<Rightarrow> page_state" where
  "spam_state_of f =
     (if pg_spam_headings f \<noteq> 1 then Page_Unknown
      else if pg_blocked_headings f = 1 then Page_Senders_Section
      else Page_Spam_Settings)"

text \<open>\<^verbatim>\<open>PlaywrightAdminAgentSession._detect_state\<close>.\<close>

definition admin_state_of :: "page_facts \<Rightarrow> page_state" where
  "admin_state_of f =
     (let on_compliance = py_contains (py_casefold (pg_url f)) ''compliance''
      in if pg_dialogs f = 1 then
           (let name = py_casefold (case pg_dialog_label f of None \<Rightarrow> [] | Some l \<Rightarrow> l)
            in if py_contains name ''list'' then Page_List_Editor
               else if on_compliance then Page_Compliance_Editor
               else Page_Rule_Editor)
         else if on_compliance then compliance_state_of f
         else spam_state_of f)"

section \<open>The catalog\<close>

definition element_name :: "page_element \<Rightarrow> string" where
  "element_name e =
     (let given_text = (\<lambda>v. py_strip (case v of None \<Rightarrow> [] | Some s \<Rightarrow> s));
          label = given_text (el_label e);
          text = (if label = [] then py_strip (el_text e) else label);
          name = (if text = [] then given_text (el_placeholder e) else text)
      in take 500 (squash name))"

definition capture_element ::
    "nat \<Rightarrow> candidate_role \<Rightarrow> page_element \<Rightarrow> candidate list \<Rightarrow> candidate list res" where
  "capture_element limit r e found =
     (let name = element_name e
      in if limit \<le> length found \<or> \<not> el_visible e \<or> name = [] \<or>
            (r, name) \<in> (\<lambda>c. (bc_role c, bc_name c)) ` set found then Inr found
         else and_then (make_candidate \<lparr>bc_id = token CHR ''c'' (length found), bc_role = r, bc_name = name,
                bc_actions = actions_for_role r\<rparr>)
              (\<lambda>c. Inr (found @ [c])))"

definition capture :: "nat \<Rightarrow> (candidate_role \<Rightarrow> page_element list) \<Rightarrow> candidate list res" where
  "capture limit elements =
     fold_res (\<lambda>r. fold_res (capture_element limit r) (take limit (elements r))) catalog_roles []"

definition find_candidate :: "candidate list \<Rightarrow> string option \<Rightarrow> candidate option" where
  "find_candidate cs i = (case i of None \<Rightarrow> None | Some k \<Rightarrow> find (\<lambda>c. bc_id c = k) cs)"

text \<open>\<^verbatim>\<open>SemanticCatalog.resolve\<close>.\<close>

definition resolve_candidate :: "turn \<Rightarrow> candidate list \<Rightarrow> string \<Rightarrow> candidate res" where
  "resolve_candidate t cs k =
     (case find_candidate cs (Some k) of
        None \<Rightarrow> Inl SelectorNotFound
      | Some c \<Rightarrow>
          and_then (tn_matches t (bc_role c) (bc_name c)) (\<lambda>n.
          if n = 0 then Inl SelectorNotFound
          else if n \<noteq> 1 then Inl SelectorAmbiguous
          else and_then (tn_actionable t (bc_role c) (bc_name c)) (\<lambda>actionable.
            if actionable then Inr c else Inl SelectorNotFound)))"

section \<open>Gates\<close>

definition is_commit :: "candidate \<Rightarrow> bool" where
  "is_commit c = control_named commit_words (bc_name c)"

definition is_navigation :: "candidate \<Rightarrow> bool" where
  "is_navigation c = control_named navigation_words (bc_name c)"

definition matches_identity :: "candidate \<Rightarrow> string option \<Rightarrow> bool" where
  "matches_identity c expected =
     (case expected of None \<Rightarrow> False
      | Some e \<Rightarrow> py_casefold (squash (bc_name c)) = py_casefold (squash e))"

definition changes_field :: "browser_action \<Rightarrow> bool" where
  "changes_field a \<longleftrightarrow> a \<in> {Fill, Check, Uncheck, Choose}"

definition mutates :: "browser_action \<Rightarrow> candidate option \<Rightarrow> string option \<Rightarrow> bool" where
  "mutates a cand identity =
     (if changes_field a then True
      else case cand of
          None \<Rightarrow> a = Click
        | Some c \<Rightarrow>
            if a \<noteq> Click then False
            else if bc_role c = Link then is_commit c \<or> \<not> (is_navigation c \<or> matches_identity c identity)
            else if bc_role c \<noteq> Button then True
            else \<not> is_navigation c \<and> \<not> matches_identity c identity)"

text \<open>\<^verbatim>\<open>_require_visible_identity\<close> and \<^verbatim>\<open>_require_target_ou\<close>.\<close>

definition shows_text :: "string \<Rightarrow> string \<Rightarrow> bool" where
  "shows_text snapshot s = py_contains (py_casefold (squash snapshot)) (py_casefold s)"

definition require_visible_identity :: "string \<Rightarrow> string \<Rightarrow> unit res" where
  "require_visible_identity snapshot expected =
     (if shows_text snapshot (squash expected) then Inr () else Inl StaleConfirmation)"

definition require_target_ou :: "string \<Rightarrow> string \<Rightarrow> unit res" where
  "require_target_ou snapshot ou =
     (let expected = (if ou = ''/'' then ''root organizational unit'' else ou)
      in if \<not> shows_text snapshot expected \<and> \<not> shows_text snapshot ou then Inl RootOuNotConfirmed else Inr ())"

section \<open>The loop\<close>

datatype browser_event =
    Opened string
  | Went_Back
  | Performed string browser_action candidate "string option"

text \<open>The answers read so far, what was done, and the permits the page object has consumed.\<close>

record browser_world =
  bw_tick :: nat
  bw_log :: "browser_event list"
  bw_consumed :: "string list"

definition next_answer :: "(nat \<Rightarrow> 'a) \<Rightarrow> (browser_world, 'a) act" where
  "next_answer answers w = (Inr (answers (bw_tick w)), w\<lparr>bw_tick := Suc (bw_tick w)\<rparr>)"

definition log_event :: "browser_event \<Rightarrow> (browser_world, unit) act" where
  "log_event e = update (\<lambda>w. w\<lparr>bw_log := bw_log w @ [e]\<rparr>)"

text \<open>\<^verbatim>\<open>execute_step\<close>; the snapshot of the round is kept with the event.\<close>

definition execute_step ::
    "turn \<Rightarrow> candidate list \<Rightarrow> browser_step \<Rightarrow> browser_input list \<Rightarrow> string \<Rightarrow> (browser_world, unit) act" where
  "execute_step t cs proposal inputs snapshot =
     (if sp_action proposal = Go_Back then andthen (log_event Went_Back) (lift (tn_performed t))
      else if sp_action proposal = Complete then return ()
      else case sp_candidate proposal of
          None \<Rightarrow> raise SelectorNotFound
        | Some k \<Rightarrow>
            bind (lift (resolve_candidate t cs k)) (\<lambda>c.
            if sp_action proposal \<notin> set (bc_actions c) then raise SelectorNotFound
            else
              bind (case sp_input proposal of None \<Rightarrow> return None
                 | Some i \<Rightarrow> (case find (\<lambda>x. bi_id x = i) inputs of
                      None \<Rightarrow> raise SelectorNotFound | Some x \<Rightarrow> return (Some (bi_value x)))) (\<lambda>v.
              andthen (log_event (Performed snapshot (sp_action proposal) c v)) (lift (tn_performed t)))))"

text \<open>
  What the two loops differ in: the test of host and page, the gate of a step on the snapshot,
  and whether a newly opened page is followed.
\<close>

record goal_loop =
  lp_limit :: nat
  lp_arrive :: "page_facts \<Rightarrow> page_state res"
  lp_gate :: "string \<Rightarrow> browser_step \<Rightarrow> candidate option \<Rightarrow> unit res"
  lp_after :: "turn \<Rightarrow> unit res"
  lp_inputs :: "browser_input list"

definition repeated_step_limit :: nat where "repeated_step_limit = 3"

text \<open>The constructor of the observation bounds the URL.\<close>

definition observed_url_ok :: "page_facts \<Rightarrow> unit res" where
  "observed_url_ok f = (if 1 \<le> length (pg_url f) \<and> length (pg_url f) \<le> 2000 then Inr () else Inl ValidationError)"

fun goal_rounds ::
    "goal_loop \<Rightarrow> (nat \<Rightarrow> turn) \<Rightarrow> nat \<Rightarrow> string list \<Rightarrow> string \<Rightarrow> nat \<Rightarrow> (browser_world, string list \<times> bool) act" where
  "goal_rounds g turns 0 history previous repeated = return (history, False)"
| "goal_rounds g turns (Suc n) history previous repeated =
     bind (next_answer turns) (\<lambda>t.
     bind (lift (tn_facts t)) (\<lambda>facts.
     bind (lift (lp_arrive g facts)) (\<lambda>state.
     if state = Page_Unknown then raise UnknownPageState
     else
       bind (lift (and_then (tn_snapshot t) (\<lambda>s. Inr (take 30000 s)))) (\<lambda>snapshot.
       bind (lift (and_then (tn_elements t) (capture (lp_limit g)))) (\<lambda>cs.
       andthen (lift (observed_url_ok facts))
       (bind (lift (and_then (tn_step t) make_browser_step)) (\<lambda>proposal.
        let rendered = step_json proposal;
            seen = history @ [rendered];
            times = (if rendered = previous then Suc repeated else 1)
        in if repeated_step_limit \<le> times then raise SelectorNotFound
           else if sp_action proposal = Complete then return (seen, True)
           else
             andthen (lift (lp_gate g snapshot proposal (find_candidate cs (sp_candidate proposal))))
             (andthen (execute_step t cs proposal (lp_inputs g) snapshot)
             (andthen (lift (lp_after g t)) (goal_rounds g turns n seen rendered times))))))))))"

definition run_loop :: "goal_loop \<Rightarrow> (nat \<Rightarrow> turn) \<Rightarrow> nat \<Rightarrow> (browser_world, string list \<times> bool) act" where
  "run_loop g turns max_steps = goal_rounds g turns max_steps [] [] 0"

section \<open>The goals of the driver\<close>

definition admin_host :: string where "admin_host = ''admin.google.com''"

definition admin_arrive :: "page_facts \<Rightarrow> page_state res" where
  "admin_arrive f = (if pg_host f \<noteq> Some admin_host then Inl UnknownPageState else Inr (admin_state_of f))"

record admin_goal =
  ag_inputs :: "browser_input list"
  ag_mutation :: bool
  ag_ou :: string
  ag_commit :: "string option"
  ag_commit_ou :: bool
  ag_navigation :: "string option"

definition admin_gate :: "admin_goal \<Rightarrow> string \<Rightarrow> browser_step \<Rightarrow> candidate option \<Rightarrow> unit res" where
  "admin_gate g snapshot proposal cand =
     (if \<not> ag_mutation g \<and> mutates (sp_action proposal) cand (ag_navigation g) then Inl SelectorNotFound
      else case cand of
          None \<Rightarrow> Inr ()
        | Some c \<Rightarrow>
            if \<not> ag_mutation g \<and> is_commit c then Inl SelectorNotFound
            else if ag_mutation g \<and>
                (is_commit c \<or> bc_role c = Button \<and> mutates (sp_action proposal) cand (ag_commit g)) then
              and_then (case ag_commit g of None \<Rightarrow> Inr () | Some i \<Rightarrow> require_visible_identity snapshot i) (\<lambda>_.
                if ag_commit_ou g then require_target_ou snapshot (ag_ou g) else Inr ())
            else Inr ())"

definition admin_run_goal :: "(nat \<Rightarrow> turn) \<Rightarrow> nat \<Rightarrow> nat \<Rightarrow> admin_goal \<Rightarrow> (browser_world, string list \<times> bool) act" where
  "admin_run_goal turns limit max_steps g =
     run_loop \<lparr>lp_limit = limit, lp_arrive = admin_arrive, lp_gate = admin_gate g, lp_after = tn_adopted,
       lp_inputs = ag_inputs g\<rparr> turns max_steps"

section \<open>The goals of the content-compliance page\<close>

definition compliance_arrive :: "page_facts \<Rightarrow> page_state res" where
  "compliance_arrive f =
     (if pg_scheme f \<noteq> ''https'' \<or> pg_host f \<noteq> Some admin_host then Inl UnknownPageState
      else Inr (compliance_state_of f))"

definition input_rule_identity :: "browser_input list \<Rightarrow> string option" where
  "input_rule_identity inputs = map_option bi_value (find (\<lambda>i. bi_label i = ''Managed rule name'') inputs)"

definition require_rule_identity :: "string \<Rightarrow> browser_input list \<Rightarrow> unit res" where
  "require_rule_identity snapshot inputs =
     (case input_rule_identity inputs of None \<Rightarrow> Inl StaleConfirmation
      | Some i \<Rightarrow> require_visible_identity snapshot i)"

definition compliance_gate ::
    "browser_input list \<Rightarrow> string \<Rightarrow> bool \<Rightarrow> string option \<Rightarrow> string \<Rightarrow> browser_step \<Rightarrow> candidate option \<Rightarrow> unit res" where
  "compliance_gate inputs ou mutation navigation snapshot proposal cand =
     (let visible = and_then (require_target_ou snapshot ou) (\<lambda>_. require_rule_identity snapshot inputs)
      in if \<not> mutation \<and> mutates (sp_action proposal) cand navigation then Inl SelectorNotFound
         else case cand of
             None \<Rightarrow> Inr ()
           | Some c \<Rightarrow>
               if is_commit c then (if \<not> mutation then Inl SelectorNotFound else visible)
               else if mutation \<and> bc_role c = Button \<and>
                   mutates (sp_action proposal) cand (input_rule_identity inputs) then visible
               else Inr ())"

definition compliance_run_goal ::
    "(nat \<Rightarrow> turn) \<Rightarrow> nat \<Rightarrow> nat \<Rightarrow> browser_input list \<Rightarrow> string \<Rightarrow> bool \<Rightarrow> string option \<Rightarrow>
      (browser_world, string list \<times> bool) act" where
  "compliance_run_goal turns limit max_steps inputs ou mutation navigation =
     run_loop \<lparr>lp_limit = limit, lp_arrive = compliance_arrive,
       lp_gate = compliance_gate inputs ou mutation navigation, lp_after = (\<lambda>_. Inr ()), lp_inputs = inputs\<rparr>
       turns max_steps"

end
