(* ===== verification/Admin_Driver.thy ===== *)
theory Admin_Driver
  imports Browser_Goals
begin

text \<open>
  The session of \<^verbatim>\<open>browser/admin_agent_driver.py\<close>: opening a page of the console,
  reading the managed resources of a surface and applying a change set, with the schemas of
  \<^verbatim>\<open>browser/ui_extraction.py\<close>. The vision model's transcriptions are answers of the
  environment that the schemas accept or refuse.
\<close>

section \<open>What is transcribed\<close>

record policy_index =
  pi_surface :: surface
  pi_names :: "string list"
  pi_capabilities :: "string list"

record observed_list =
  ol_name :: string
  ol_entries :: "string list"

definition make_observed_list :: "observed_list \<Rightarrow> observed_list res" where
  "make_observed_list l =
     (if 1 \<le> length (ol_name l) \<and> length (ol_name l) \<le> 200 then Inr l else Inl ValidationError)"

record observed_rule =
  ob_name :: string
  ob_ou :: string
  ob_lists :: "string list"
  ob_bypass :: "string list"
  ob_notice :: "string option"
  ob_enabled :: bool
  ob_inherited :: bool

definition make_observed_rule :: "observed_rule \<Rightarrow> observed_rule res" where
  "make_observed_rule r =
     (if 1 \<le> length (ob_name r) \<and> length (ob_name r) \<le> 200 \<and> 1 \<le> length (ob_ou r) \<and> length (ob_ou r) \<le> 1000 \<and>
         within (ob_notice r) 1000 then Inr r
      else Inl ValidationError)"

datatype observed_expression = Seen_Expression expression | Seen_Predefined string int "confidence option"

fun check_observed_expression :: "observed_expression \<Rightarrow> observed_expression res" where
  "check_observed_expression (Seen_Expression (Predefined_Match d n c k)) = Inl ValidationError"
| "check_observed_expression (Seen_Expression e) = and_then (check_expression e) (\<lambda>f. Inr (Seen_Expression f))"
| "check_observed_expression (Seen_Predefined d n c) =
     (if length d < 1 \<or> length d > 500 \<or> n < 1 \<or> n > 10000 then Inl ValidationError else Inr (Seen_Predefined d n c))"

record observed_compliance_rule =
  oc_name :: string
  oc_ou :: string
  oc_directions :: "message_direction list"
  oc_combiner :: combiner
  oc_expressions :: "observed_expression list"
  oc_notice :: string
  oc_condition :: "list_condition option"
  oc_filters :: "envelope_filter list"
  oc_enabled :: bool
  oc_inherited :: bool

definition make_observed_compliance_rule :: "observed_compliance_rule \<Rightarrow> observed_compliance_rule res" where
  "make_observed_compliance_rule r =
     (if \<not> (1 \<le> length (oc_name r) \<and> length (oc_name r) \<le> 200 \<and> 1 \<le> length (oc_ou r) \<and> length (oc_ou r) \<le> 1000 \<and>
         1 \<le> length (oc_notice r) \<and> length (oc_notice r) \<le> 1000) then Inl ValidationError
      else and_then (map_res check_observed_expression (oc_expressions r)) (\<lambda>es.
           and_then (check_option check_list_condition (oc_condition r)) (\<lambda>c.
           and_then (map_res check_envelope_filter (oc_filters r)) (\<lambda>fs.
           Inr (r\<lparr>oc_expressions := es, oc_condition := c, oc_filters := fs\<rparr>)))))"

definition make_identity_observation :: "string \<times> string \<Rightarrow> (string \<times> string) res" where
  "make_identity_observation i =
     (if 3 \<le> length (fst i) \<and> length (fst i) \<le> 320 \<and> 1 \<le> length (snd i) \<and> length (snd i) \<le> 253 then Inr i
      else Inl ValidationError)"

section \<open>The session\<close>

text \<open>
  Opening an address: what \<^verbatim>\<open>goto\<close> ends with, the host at each poll and whether the
  deadline has passed by then, the load state, and the identity transcribed from the page.
\<close>

record open_answer =
  oa_goto :: "unit res"
  oa_hosts :: "nat \<Rightarrow> string option"
  oa_late :: "nat \<Rightarrow> bool"
  oa_ready :: "unit res"
  oa_identity :: "(string \<times> string) res"

record browser_env =
  be_turn :: "nat \<Rightarrow> turn"
  be_open :: "nat \<Rightarrow> open_answer"
  be_facts :: "nat \<Rightarrow> page_facts res"
  be_snapshot :: "nat \<Rightarrow> string res"
  be_reload :: "nat \<Rightarrow> unit res"
  be_index :: "nat \<Rightarrow> policy_index res"
  be_rule :: "nat \<Rightarrow> observed_rule res"
  be_list :: "nat \<Rightarrow> observed_list res"
  be_compliance :: "nat \<Rightarrow> observed_compliance_rule res"
  be_senders_url :: string
  be_compliance_url :: string
  be_email :: string
  be_domain :: string
  be_timeout :: nat
  be_limit :: nat
  be_steps :: nat
  be_idna :: "string \<Rightarrow> string option"
  be_hash :: "string \<Rightarrow> string"

text \<open>
  The polls are a second apart, so the deadline has passed after as many polls as the time
  limit has seconds; the first argument counts them down.
\<close>

fun await_login :: "nat \<Rightarrow> nat \<Rightarrow> open_answer \<Rightarrow> unit res" where
  "await_login 0 k a = Inl TimeoutError"
| "await_login (Suc n) k a =
     (if oa_hosts a k = Some admin_host then Inr ()
      else if oa_late a k then Inl TimeoutError
      else await_login n (Suc k) a)"

definition open_admin :: "browser_env \<Rightarrow> string \<Rightarrow> (browser_world, unit) act" where
  "open_admin env url =
     bind (next_answer (be_open env)) (\<lambda>a.
     andthen (log_event (Opened url))
     (andthen (lift (oa_goto a))
     (andthen (lift (await_login (Suc (be_timeout env)) 0 a))
     (andthen (lift (oa_ready a))
     (bind (lift (and_then (oa_identity a) make_identity_observation)) (\<lambda>(email, domain).
      if py_casefold email \<noteq> py_casefold (be_email env) then raise StaleConfirmation
      else if py_casefold domain \<noteq> py_casefold (be_domain env) then raise StaleConfirmation
      else return ()))))))"

definition transcribe :: "(nat \<Rightarrow> 'a res) \<Rightarrow> ('a \<Rightarrow> 'b res) \<Rightarrow> (browser_world, 'b) act" where
  "transcribe answers schema = bind (next_answer answers) (\<lambda>r. lift (and_then r schema))"

definition detect_admin_state :: "browser_env \<Rightarrow> (browser_world, page_state) act" where
  "detect_admin_state env = transcribe (be_facts env) (\<lambda>f. Inr (admin_state_of f))"

definition run_goal :: "browser_env \<Rightarrow> admin_goal \<Rightarrow> (browser_world, string list \<times> bool) act" where
  "run_goal env g = admin_run_goal (be_turn env) (be_limit env) (be_steps env) g"

text \<open>A goal that only reads.\<close>

definition reading_goal :: "string \<Rightarrow> string \<Rightarrow> admin_goal" where
  "reading_goal ou name = \<lparr>ag_inputs = [], ag_mutation = False, ag_ou = ou, ag_commit = None, ag_commit_ou = False,
     ag_navigation = Some name\<rparr>"

definition require_expected_identity :: "string \<Rightarrow> string \<Rightarrow> unit res" where
  "require_expected_identity observed expected =
     (if py_casefold (squash observed) \<noteq> py_casefold (squash expected) then Inl StaleConfirmation else Inr ())"

definition unmanaged_names :: "string \<Rightarrow> string list \<Rightarrow> string list \<Rightarrow> string list" where
  "unmanaged_names prefix expected names =
     sort (filter (\<lambda>n. n \<notin> set expected \<or> \<not> py_startswith n (prefix @ '' '')) names)"

section \<open>Reading blocked senders\<close>

definition address_entry_of :: "(string \<Rightarrow> string option) \<Rightarrow> string \<Rightarrow> address_entry res" where
  "address_entry_of idna v =
     (let normalized = py_strip v
      in make_address_entry idna (if CHR ''@'' \<in> set normalized then Email else Domain) normalized [])"

definition read_address_list :: "browser_env \<Rightarrow> address_list \<Rightarrow> (browser_world, address_list) act" where
  "read_address_list env template =
     andthen (open_admin env (be_senders_url env))
     (bind (run_goal env (reading_goal ''/'' (al_name template))) (\<lambda>_.
      bind (transcribe (be_list env) make_observed_list) (\<lambda>observed.
      andthen (lift (require_expected_identity (ol_name observed) (al_name template)))
      (bind (lift (map_res (address_entry_of (be_idna env)) (ol_entries observed))) (\<lambda>entries.
       return (template\<lparr>al_entries := entries\<rparr>))))))"

definition read_linked_list ::
    "browser_env \<Rightarrow> (string, address_list) dict \<Rightarrow> string \<Rightarrow> (string, address_list) dict \<Rightarrow>
      (browser_world, (string, address_list) dict) act" where
  "read_linked_list env expected name seen =
     (case dict_get expected name of
        None \<Rightarrow> raise StaleConfirmation
      | Some template \<Rightarrow>
          if dict_get seen name \<noteq> None then return seen
          else bind (read_address_list env template) (\<lambda>l. return (dict_put name l seen)))"

definition observed_blocked_rule :: "blocked_rule \<Rightarrow> observed_rule \<Rightarrow> blocked_rule" where
  "observed_blocked_rule template o' =
     template\<lparr>br_lists := ob_lists o', br_bypass := ob_bypass o', br_notice := ob_notice o',
       br_enabled := ob_enabled o', br_inherited := ob_inherited o'\<rparr>"

definition read_blocked_rule ::
    "browser_env \<Rightarrow> (string, address_list) dict \<Rightarrow> blocked_rule \<Rightarrow> blocked_rule list \<times> (string, address_list) dict \<Rightarrow>
      (browser_world, blocked_rule list \<times> (string, address_list) dict) act" where
  "read_blocked_rule env expected template seen =
     andthen (open_admin env (be_senders_url env))
     (bind (run_goal env (reading_goal (br_ou template) (br_name template))) (\<lambda>_.
      bind (transcribe (be_rule env) make_observed_rule) (\<lambda>observed.
      andthen (lift (require_expected_identity (ob_name observed) (br_name template)))
      (andthen (lift (require_expected_identity (ob_ou observed) (br_ou template)))
      (bind (fold_act (read_linked_list env expected) (ob_lists observed @ ob_bypass observed) (snd seen)) (\<lambda>lists.
       return (fst seen @ [observed_blocked_rule template observed], lists)))))))"

definition read_blocked_sender_state ::
    "browser_env \<Rightarrow> blocked_state \<Rightarrow> string \<Rightarrow> (browser_world, blocked_state) act" where
  "read_blocked_sender_state env expected prefix =
     andthen (open_admin env (be_senders_url env))
     (bind (transcribe (be_index env) Inr) (\<lambda>index.
      if pi_surface index \<noteq> Blocked_Senders then raise UnknownPageState
      else
        bind (fold_act (read_blocked_rule env (dict_of al_name (bs_lists expected))) (bs_rules expected) ([], []))
          (\<lambda>(rules, lists).
        lift (make_blocked_state (bs_ou expected) rules (sort_key al_name (dict_values lists))
          (unmanaged_names prefix (map br_name (bs_rules expected)) (pi_names index))))))"

section \<open>Reading content compliance\<close>

text \<open>\<^verbatim>\<open>_restore_local_expression_metadata\<close>.\<close>

fun restore_expression :: "observed_expression \<times> expression \<Rightarrow> expression res" where
  "restore_expression (Seen_Predefined d n c, Predefined_Match _ _ _ capability) =
     check_expression (Predefined_Match d n c capability)"
| "restore_expression (Seen_Predefined d n c, _) = Inl StaleConfirmation"
| "restore_expression (Seen_Expression e, _) = Inr e"

definition restore_expressions :: "observed_expression list \<Rightarrow> expression list \<Rightarrow> expression list res" where
  "restore_expressions observed expected =
     (if length observed \<noteq> length expected then Inl StaleConfirmation
      else map_res restore_expression (zip observed expected))"

definition read_compliance_rule ::
    "browser_env \<Rightarrow> compliance_rule \<Rightarrow> compliance_rule list \<Rightarrow> (browser_world, compliance_rule list) act" where
  "read_compliance_rule env template seen =
     andthen (open_admin env (be_compliance_url env))
     (bind (run_goal env (reading_goal (ou_path (cr_ou template)) (cr_name template))) (\<lambda>_.
      bind (transcribe (be_compliance env) make_observed_compliance_rule) (\<lambda>observed.
      andthen (lift (require_expected_identity (oc_name observed) (cr_name template)))
      (andthen (lift (require_expected_identity (oc_ou observed) (ou_path (cr_ou template))))
      (bind (lift (restore_expressions (oc_expressions observed) (cr_expressions template))) (\<lambda>es.
       return (seen @ [template\<lparr>cr_directions := oc_directions observed, cr_combiner := oc_combiner observed,
         cr_expressions := es, cr_notice := (cr_notice template)\<lparr>gn_text := oc_notice observed\<rparr>,
         cr_condition := oc_condition observed, cr_filters := oc_filters observed,
         cr_enabled := oc_enabled observed, cr_inherited := oc_inherited observed\<rparr>])))))))"

definition read_content_compliance_state ::
    "browser_env \<Rightarrow> compliance_state \<Rightarrow> string \<Rightarrow> (browser_world, compliance_state) act" where
  "read_content_compliance_state env expected prefix =
     andthen (open_admin env (be_compliance_url env))
     (bind (transcribe (be_index env) Inr) (\<lambda>index.
      if pi_surface index \<noteq> Content_Compliance then raise UnknownPageState
      else
        bind (fold_act (read_compliance_rule env) (cs_rules expected) []) (\<lambda>rules.
        lift (make_compliance_state rules (unmanaged_names prefix (map cr_name (cs_rules expected)) (pi_names index))
          (pi_capabilities index)))))"

section \<open>Applying a blocked-sender change\<close>

text \<open>\<^verbatim>\<open>_validate_admin_permit\<close>; \<open>versions\<close> are the rules before and after with their units.\<close>

definition validate_admin_permit ::
    "(string \<Rightarrow> string) \<Rightarrow> surface \<Rightarrow> json \<Rightarrow> json \<Rightarrow> (uuid \<times> string) list \<Rightarrow> admin_permit \<Rightarrow> unit res" where
  "validate_admin_permit H s change before versions permit =
     (let policy_versions = filter (\<lambda>v. fst v = dp_target permit) versions
      in if \<not> dp_approved permit \<or> dp_surface permit \<noteq> s \<or> dp_change_hash permit \<noteq> canonical_hash H change
           then Inl StaleConfirmation
         else if dp_before_hash permit \<noteq> canonical_hash H before then Inl StaleConfirmation
         else if policy_versions = [] then Inl StaleConfirmation
         else if snd ` set policy_versions \<noteq> {dp_ou permit} then Inl StaleConfirmation
         else Inr ())"

definition blocked_versions :: "change_set \<Rightarrow> (uuid \<times> string) list" where
  "blocked_versions c = map (\<lambda>r. (br_id r, br_ou r)) (bs_rules (ch_before c) @ bs_rules (ch_after c))"

definition compliance_versions :: "compliance_change_set \<Rightarrow> (uuid \<times> string) list" where
  "compliance_versions c = map (\<lambda>r. (cr_id r, ou_path (cr_ou r))) (cs_rules (cc_before c) @ cs_rules (cc_after c))"

datatype console_resource = List_Resource address_list | Rule_Resource blocked_rule

fun resource_name :: "console_resource \<Rightarrow> string" where
  "resource_name (List_Resource l) = al_name l"
| "resource_name (Rule_Resource r) = br_name r"

fun is_rule_resource :: "console_resource \<Rightarrow> bool" where
  "is_rule_resource (Rule_Resource _) = True"
| "is_rule_resource (List_Resource _) = False"

definition browser_inputs :: "(string \<times> string) list \<Rightarrow> browser_input list res" where
  "browser_inputs labelled =
     map_res (\<lambda>(i, label, v). make_browser_input \<lparr>bi_id = token CHR ''i'' i, bi_label = label, bi_value = v\<rparr>)
       (List.enumerate 0 labelled)"

text \<open>\<^verbatim>\<open>(f"{label} {index}", item) for index, item in enumerate(items, start=1)\<close>.\<close>

definition numbered_fields :: "string \<Rightarrow> string list \<Rightarrow> (string \<times> string) list" where
  "numbered_fields label items = map (\<lambda>(i, v). (label @ '' '' @ show_nat i, v)) (List.enumerate 1 items)"

definition address_list_fields :: "string \<Rightarrow> address_list \<Rightarrow> (string \<times> string) list" where
  "address_list_fields operation l =
     (operation @ '' address list name'', al_name l) #
     numbered_fields ''Complete address-list entry'' (map ae_value (al_entries l))"

definition blocked_rule_fields :: "string \<Rightarrow> blocked_rule \<Rightarrow> (string \<times> string) list" where
  "blocked_rule_fields operation r =
     [(operation @ '' blocked-sender rule name'', br_name r), (''Organizational unit'', br_ou r),
      (''Enabled state'', if br_enabled r then ''true'' else ''false'')] @
     numbered_fields ''Blocked address list'' (br_lists r) @
     numbered_fields ''Bypass address list'' (br_bypass r) @
     (case br_notice r of None \<Rightarrow> [] | Some n \<Rightarrow> [(''Custom rejection notice'', n)])"

fun resource_fields :: "string \<Rightarrow> console_resource \<Rightarrow> (string \<times> string) list" where
  "resource_fields operation (List_Resource l) = address_list_fields operation l"
| "resource_fields operation (Rule_Resource r) = blocked_rule_fields operation r"

definition change_phases :: "change_set \<Rightarrow> (string \<times> console_resource) list" where
  "change_phases c =
     map (\<lambda>l. (''create'', List_Resource l)) (ch_lists_create c) @
     map (\<lambda>l. (''update'', List_Resource l)) (ch_lists_update c) @
     map (\<lambda>r. (''create'', Rule_Resource r)) (ch_rules_create c) @
     map (\<lambda>r. (''update'', Rule_Resource r)) (ch_rules_update c) @
     map (\<lambda>r. (''remove'', Rule_Resource r)) (ch_rules_remove c) @
     map (\<lambda>l. (''remove'', List_Resource l)) (ch_lists_remove c)"

definition writing_goal :: "admin_permit \<Rightarrow> console_resource \<Rightarrow> browser_input list \<Rightarrow> admin_goal" where
  "writing_goal permit x inputs = \<lparr>ag_inputs = inputs, ag_mutation = True, ag_ou = dp_ou permit,
     ag_commit = Some (resource_name x), ag_commit_ou = is_rule_resource x, ag_navigation = None\<rparr>"

fun apply_phases ::
    "browser_env \<Rightarrow> admin_permit \<Rightarrow> (string \<times> console_resource) list \<Rightarrow> string list \<Rightarrow>
      (browser_world, string list \<times> bool) act" where
  "apply_phases env permit [] history = return (history, True)"
| "apply_phases env permit ((operation, x) # phases) history =
     andthen (open_admin env (be_senders_url env))
     (bind (lift (browser_inputs (resource_fields operation x))) (\<lambda>inputs.
      bind (run_goal env (writing_goal permit x inputs)) (\<lambda>(steps, completed).
      if \<not> completed then return (history @ steps, False)
      else apply_phases env permit phases (history @ steps))))"

definition apply_blocked_sender_change ::
    "browser_env \<Rightarrow> change_set \<Rightarrow> admin_permit \<Rightarrow> (browser_world, apply_result) act" where
  "apply_blocked_sender_change env c permit =
     andthen (lift (validate_admin_permit (be_hash env) Blocked_Senders (dump_change_set c)
       (dump_blocked_state (ch_before c)) (blocked_versions c) permit))
     (bind (apply_phases env permit (change_phases c) []) (\<lambda>(history, completed).
      bind (detect_admin_state env) (\<lambda>s.
      return \<lparr>br_completed = completed, br_steps = history, br_page = s\<rparr>)))"

end
