(* ===== verification/Compliance_Page.thy ===== *)
theory Compliance_Page
  imports Admin_Driver
begin

text \<open>
  The page object of \<^verbatim>\<open>browser/pages/content_compliance.py\<close> and the driver's operation that
  uses it: a permit is validated and consumed, the goal runs through the gates, and a read-back
  compares the visible text with the rule.
\<close>

section \<open>Inputs of a rule\<close>

text \<open>\<^verbatim>\<open>str(value)\<close> of a member of a dumped expression that is not \<^verbatim>\<open>None\<close>.\<close>

fun member_str :: "json \<Rightarrow> string option" where
  "member_str (JStr s) = Some s"
| "member_str (JInt i) = Some (show_int i)"
| "member_str _ = None"

definition expression_fields :: "(string \<times> string) list" where
  "expression_fields = [(''type'', ''Type''), (''location'', ''Location''), (''match_type'', ''Match Type''),
     (''content'', ''Content''), (''attribute'', ''Attribute''), (''operator'', ''Operator''), (''value'', ''Value''),
     (''detector'', ''Detector''), (''minimum_match_count'', ''Minimum Match Count''), (''confidence'', ''Confidence'')]"

fun members_of :: "json \<Rightarrow> (string \<times> json) list" where
  "members_of (JObj kvs) = kvs"
| "members_of _ = []"

text \<open>The fields of an expression that are set, with their titles.\<close>

definition expression_values :: "expression \<Rightarrow> (string \<times> string) list" where
  "expression_values e =
     List.map_filter (\<lambda>(field, title).
       case dict_get (members_of (dump_expression e)) field of None \<Rightarrow> None
       | Some v \<Rightarrow> map_option (Pair title) (member_str v)) expression_fields"

definition identity_fields :: "compliance_rule \<Rightarrow> (string \<times> string) list" where
  "identity_fields r = [(''Managed rule name'', cr_name r), (''Organizational unit'', ou_path (cr_ou r))]"

definition filter_fields :: "nat \<times> envelope_filter \<Rightarrow> (string \<times> string) list" where
  "filter_fields = (\<lambda>(i, f). let label = ''Envelope filter '' @ show_nat i in
     [(label @ '' party'', party_value (ef_party f)), (label @ '' selector'', selector_value (ef_selector f)),
      (label @ '' value'', ef_value f)])"

definition rule_fields :: "compliance_rule \<Rightarrow> (string \<times> string) list" where
  "rule_fields r =
     identity_fields r @
     [(''Action'', ''Reject message''), (''Expression combiner'', combiner_value (cr_combiner r)),
      (''Rejection notice'', gn_text (cr_notice r))] @
     numbered_fields ''Message direction'' (map direction_value (cr_directions r)) @
     concat (map (\<lambda>(i, e). map (\<lambda>(title, v). (''Expression '' @ show_nat i @ '' '' @ title, v)) (expression_values e))
       (List.enumerate 1 (cr_expressions r))) @
     (case cr_condition r of None \<Rightarrow> []
      | Some c \<Rightarrow> (''Address list condition mode'', condition_mode_value (lc_mode c)) #
          numbered_fields ''Address list'' (lc_names c)) @
     concat (map filter_fields (List.enumerate 1 (cr_filters r)))"

section \<open>Permits\<close>

definition validate_compliance_permit ::
    "(string \<Rightarrow> string) \<Rightarrow> compliance_rule \<Rightarrow> compliance_permit \<Rightarrow> compliance_operation list \<Rightarrow> unit res" where
  "validate_compliance_permit H rule permit allowed =
     (if pe_ou permit \<noteq> ou_path (cr_ou rule) \<or> pe_target permit \<noteq> cr_id rule \<or>
         pe_rule_hash permit \<noteq> canonical_hash H (dump_compliance_rule rule) \<or> pe_operation permit \<notin> set allowed
      then Inl StaleConfirmation else Inr ())"

definition consume_permit :: "compliance_permit \<Rightarrow> (browser_world, unit) act" where
  "consume_permit permit =
     bind (get (\<lambda>w. pe_approval_id permit \<in> set (bw_consumed w))) (\<lambda>used.
     if used then raise StaleConfirmation
     else update (\<lambda>w. w\<lparr>bw_consumed := pe_approval_id permit # bw_consumed w\<rparr>))"

definition require_admin_host :: "browser_env \<Rightarrow> (browser_world, unit) act" where
  "require_admin_host env = transcribe (be_facts env) (\<lambda>f.
     if pg_scheme f \<noteq> ''https'' \<or> pg_host f \<noteq> Some admin_host then Inl UnknownPageState else Inr ())"

section \<open>Read-back\<close>

definition spaced :: "string \<Rightarrow> string" where
  "spaced s = map (\<lambda>c. if c = CHR ''_'' then CHR '' '' else c) s"

definition required_texts :: "compliance_rule \<Rightarrow> string list" where
  "required_texts r =
     [cr_name r, gn_text (cr_notice r), ''Reject message'', combiner_value (cr_combiner r),
      if ou_path (cr_ou r) = ''/'' then ''root organizational unit'' else ou_path (cr_ou r)] @
     map (\<lambda>d. spaced (direction_value d)) (cr_directions r) @
     concat (map (\<lambda>e. map (\<lambda>(title, v). spaced v) (expression_values e)) (cr_expressions r)) @
     (case cr_condition r of None \<Rightarrow> []
      | Some c \<Rightarrow> spaced (condition_mode_value (lc_mode c)) # lc_names c) @
     concat (map (\<lambda>f. [party_value (ef_party f), spaced (selector_value (ef_selector f)), ef_value f]) (cr_filters r))"

definition snapshot_matches_rule :: "string \<Rightarrow> compliance_rule \<Rightarrow> bool" where
  "snapshot_matches_rule snapshot r = list_all (\<lambda>s. shows_text snapshot (squash s)) (required_texts r)"

section \<open>Operations of the page\<close>

record page_result =
  pr_completed :: bool
  pr_verified :: bool
  pr_steps :: "string list"
  pr_page :: page_state
  pr_snapshot :: string

definition page_snapshot :: "browser_env \<Rightarrow> (browser_world, string) act" where
  "page_snapshot env = transcribe (be_snapshot env) (\<lambda>s. Inr (take 30000 s))"

definition detect_compliance_state :: "browser_env \<Rightarrow> (browser_world, page_state) act" where
  "detect_compliance_state env = transcribe (be_facts env) (\<lambda>f. Inr (compliance_state_of f))"

definition page_goal ::
    "browser_env \<Rightarrow> browser_input list \<Rightarrow> compliance_permit \<Rightarrow> bool \<Rightarrow> string option \<Rightarrow>
      (browser_world, string list \<times> bool) act" where
  "page_goal env inputs permit mutation navigation =
     compliance_run_goal (be_turn env) (be_limit env) (be_steps env) inputs (pe_ou permit) mutation navigation"

text \<open>What every operation does before its goal.\<close>

definition admit_permit ::
    "browser_env \<Rightarrow> compliance_rule \<Rightarrow> compliance_permit \<Rightarrow> compliance_operation list \<Rightarrow> (browser_world, unit) act" where
  "admit_permit env rule permit allowed =
     andthen (lift (validate_compliance_permit (be_hash env) rule permit allowed))
     (andthen (consume_permit permit) (require_admin_host env))"

definition page_apply_rule :: "browser_env \<Rightarrow> compliance_rule \<Rightarrow> compliance_permit \<Rightarrow> (browser_world, page_result) act" where
  "page_apply_rule env rule permit =
     andthen (admit_permit env rule permit [Op_Create, Op_Update])
     (bind (lift (browser_inputs (rule_fields rule))) (\<lambda>inputs.
      bind (page_goal env inputs permit True None) (\<lambda>(steps, completed).
      if \<not> completed then
        bind (detect_compliance_state env) (\<lambda>s.
        bind (page_snapshot env) (\<lambda>snapshot.
        return \<lparr>pr_completed = False, pr_verified = False, pr_steps = steps, pr_page = s, pr_snapshot = snapshot\<rparr>))
      else
        andthen (transcribe (be_reload env) Inr)
        (bind (page_goal env [] permit False (Some (cr_name rule))) (\<lambda>(verify_steps, opened).
         bind (page_snapshot env) (\<lambda>snapshot.
         bind (detect_compliance_state env) (\<lambda>s.
         return \<lparr>pr_completed = True, pr_verified = opened \<and> snapshot_matches_rule snapshot rule,
           pr_steps = steps @ verify_steps, pr_page = s, pr_snapshot = snapshot\<rparr>)))))))"

definition page_remove_rule :: "browser_env \<Rightarrow> compliance_rule \<Rightarrow> compliance_permit \<Rightarrow> (browser_world, page_result) act" where
  "page_remove_rule env rule permit =
     andthen (admit_permit env rule permit [Op_Remove])
     (bind (lift (browser_inputs (identity_fields rule))) (\<lambda>inputs.
      bind (page_goal env inputs permit True None) (\<lambda>(steps, completed).
      andthen (transcribe (be_reload env) Inr)
      (bind (page_snapshot env) (\<lambda>snapshot.
       bind (detect_compliance_state env) (\<lambda>s.
       return \<lparr>pr_completed = completed,
         pr_verified = (completed \<and> \<not> py_contains (py_casefold snapshot) (py_casefold (cr_name rule))),
         pr_steps = steps, pr_page = s, pr_snapshot = snapshot\<rparr>))))))"

definition page_set_rule_enabled ::
    "browser_env \<Rightarrow> compliance_rule \<Rightarrow> bool \<Rightarrow> compliance_permit \<Rightarrow> (browser_world, page_result) act" where
  "page_set_rule_enabled env rule enabled permit =
     (let state_label = if enabled then ''enabled'' else ''disabled''
      in andthen (admit_permit env rule permit [Op_Set_Enabled])
         (bind (lift (browser_inputs (identity_fields rule @ [(''Enabled state'', state_label)]))) (\<lambda>inputs.
          bind (page_goal env inputs permit True None) (\<lambda>(steps, completed).
          andthen (transcribe (be_reload env) Inr)
          (bind (page_snapshot env) (\<lambda>snapshot.
           bind (detect_compliance_state env) (\<lambda>s.
           return \<lparr>pr_completed = completed,
             pr_verified = (completed \<and> shows_text snapshot (cr_name rule) \<and>
               py_contains (py_casefold (squash snapshot)) state_label),
             pr_steps = steps, pr_page = s, pr_snapshot = snapshot\<rparr>)))))))"

section \<open>The driver's operation\<close>

text \<open>A new page object has consumed no permit.\<close>

definition driver_operation :: "compliance_change_set \<Rightarrow> compliance_operation" where
  "driver_operation c = (if cc_create c \<noteq> [] then Op_Create else if cc_remove c \<noteq> [] then Op_Remove else Op_Update)"

definition apply_content_compliance_change ::
    "browser_env \<Rightarrow> compliance_change_set \<Rightarrow> admin_permit \<Rightarrow> (browser_world, apply_result) act" where
  "apply_content_compliance_change env c permit =
     andthen (lift (validate_admin_permit (be_hash env) Content_Compliance (dump_compliance_change_set c)
       (dump_compliance_state (cc_before c)) (compliance_versions c) permit))
     (case touched_rules c of
        [rule] \<Rightarrow>
          andthen (open_admin env (be_compliance_url env))
          (andthen (update (\<lambda>w. w\<lparr>bw_consumed := []\<rparr>))
          (bind (lift (make_compliance_permit \<lparr>pe_approval_id = dp_approval_id permit,
              pe_plan_hash = dp_plan_hash permit, pe_before_hash = dp_before_hash permit,
              pe_change_hash = dp_change_hash permit, pe_rule_hash = canonical_hash (be_hash env) (dump_compliance_rule rule),
              pe_ou = dp_ou permit, pe_target = dp_target permit, pe_operation = driver_operation c,
              pe_approved = True\<rparr>)) (\<lambda>permit'.
           bind ((if driver_operation c = Op_Remove then page_remove_rule else page_apply_rule) env rule permit') (\<lambda>r.
           return \<lparr>br_completed = pr_completed r, br_steps = pr_steps r, br_page = pr_page r\<rparr>))))
      | _ \<Rightarrow> raise StaleConfirmation)"

end
