(* ===== verification/Browser_Safety.thy ===== *)
theory Browser_Safety
  imports Compliance_Page
begin

text \<open>
  What the gates of \<open>Browser_Goals\<close> let through, whatever the page and the model answer, for the
  goals of the driver and of the content-compliance page.
\<close>

section \<open>What a routine adds to the log\<close>

definition only :: "(browser_event \<Rightarrow> bool) \<Rightarrow> (browser_world, 'a) act \<Rightarrow> bool" where
  "only P m \<longleftrightarrow> (\<forall>w r v. m w = (r, v) \<longrightarrow> (\<exists>es. bw_log v = bw_log w @ es \<and> list_all P es))"

lemma onlyD: "only P m \<Longrightarrow> m w = (r, v) \<Longrightarrow> \<exists>es. bw_log v = bw_log w @ es \<and> list_all P es"
  by (simp add: only_def)

lemma only_mono: "only P m \<Longrightarrow> (\<And>e. P e \<Longrightarrow> Q e) \<Longrightarrow> only Q m"
  unfolding only_def list_all_iff by metis

lemma only_quiet: "(\<And>w. bw_log (snd (m w)) = bw_log w) \<Longrightarrow> only P m"
  unfolding only_def by (metis append_Nil2 list.pred_inject(1) snd_conv)

lemma only_bind:
  assumes "only P m" and "\<And>x. only P (f x)"
  shows "only P (bind m f)"
proof -
  have "\<exists>es. bw_log v = bw_log w @ es \<and> list_all P es" if m: "bind m f w = (r, v)" for w r v
  proof -
    obtain q u where q: "m w = (q, u)" by fastforce
    obtain es where es: "bw_log u = bw_log w @ es" "list_all P es" using onlyD [OF assms(1) q] by blast
    show ?thesis
    proof (cases q)
      case (Inl e)
      then show ?thesis using m q es by (auto simp: bind_def)
    next
      case (Inr x)
      then have "f x u = (r, v)" using m q by (simp add: bind_def)
      from onlyD [OF assms(2) this] es show ?thesis by auto
    qed
  qed
  then show ?thesis by (simp add: only_def)
qed

lemma only_andthen: "only P m \<Longrightarrow> only P n \<Longrightarrow> only P (andthen m n)"
  unfolding andthen_def by (rule only_bind)

lemma only_lift_bind: "(\<And>x. r = Inr x \<Longrightarrow> only P (f x)) \<Longrightarrow> only P (bind (lift r) f)"
  by (cases r) (auto simp: only_def bind_def)

lemma only_lift_then: "(\<And>x. r = Inr x \<Longrightarrow> only P n) \<Longrightarrow> only P (andthen (lift r) n)"
  unfolding andthen_def by (rule only_lift_bind)

lemma only_if: "(b \<Longrightarrow> only P m) \<Longrightarrow> (\<not> b \<Longrightarrow> only P n) \<Longrightarrow> only P (if b then m else n)"
  by simp

lemma only_basic [simp, intro]:
  "only P (return x)" "only P (raise e)" "only P (lift r)" "only P (get f)" "only P (next_answer a)"
  by (rule only_quiet, simp add: next_answer_def)+

lemma only_log: "P e \<Longrightarrow> only P (log_event e)"
  by (auto simp: only_def log_event_def)

lemma only_transcribe [simp, intro]: "only P (transcribe answers schema)"
  unfolding transcribe_def by (rule only_bind) auto

lemma only_fold_act: "(\<And>x b. x \<in> set xs \<Longrightarrow> only P (f x b)) \<Longrightarrow> only P (fold_act f xs b)"
  by (induction xs arbitrary: b) (auto intro!: only_bind)

lemmas only_intros = only_bind only_andthen only_fold_act

section \<open>Catalogs\<close>

definition known_candidate :: "candidate \<Rightarrow> bool" where
  "known_candidate c \<longleftrightarrow> bc_actions c = actions_for_role (bc_role c)"

lemma capture_known:
  assumes "capture limit elements = Inr cs"
  shows "\<forall>c \<in> set cs. known_candidate c"
proof -
  have one: "\<forall>c \<in> set t. known_candidate c"
    if "capture_element limit r e s = Inr t" "\<forall>c \<in> set s. known_candidate c" for r e s t
    using that by (auto simp: capture_element_def Let_def make_candidate_def known_candidate_def res_simps split: if_splits)
  have all: "\<forall>c \<in> set t. known_candidate c"
    if "fold_res (capture_element limit r) es s = Inr t" "\<forall>c \<in> set s. known_candidate c" for r es s t
    by (rule fold_res_invariant [OF that(1), where P = "\<lambda>s. \<forall>c \<in> set s. known_candidate c"])
      (use that(2) one in blast)+
  show ?thesis
    by (rule fold_res_invariant [OF assms [unfolded capture_def], where P = "\<lambda>s. \<forall>c \<in> set s. known_candidate c"])
      (simp, use all in blast)
qed

lemma find_candidate_in: "find_candidate cs i = Some c \<Longrightarrow> c \<in> set cs"
  by (auto simp: find_candidate_def find_Some_iff split: option.splits)

lemma resolve_candidate_Inr: "resolve_candidate t cs k = Inr c \<Longrightarrow> find_candidate cs (Some k) = Some c"
  by (auto simp: resolve_candidate_def res_simps split: option.splits if_splits)

section \<open>One goal\<close>

text \<open>
  An action that reached the page passed the gate on the snapshot of its round; a value that
  was typed is one of the inputs.
\<close>

fun gated :: "goal_loop \<Rightarrow> browser_event \<Rightarrow> bool" where
  "gated g (Opened u) = False"
| "gated g Went_Back = True"
| "gated g (Performed s a c v) =
     ((\<exists>p. sp_action p = a \<and> lp_gate g s p (Some c) = Inr ()) \<and> a \<in> set (actions_for_role (bc_role c)) \<and>
      (case v of None \<Rightarrow> a = Click \<or> a = Check \<or> a = Uncheck
       | Some x \<Rightarrow> (a = Fill \<or> a = Choose) \<and> x \<in> bi_value ` set (lp_inputs g)))"

lemma execute_step_cases:
  assumes "execute_step t cs p inputs s w = (r, v)" and "make_browser_step q = Inr p" and "\<forall>c \<in> set cs. known_candidate c"
    and "lp_gate g s p (find_candidate cs (sp_candidate p)) = Inr ()" and "lp_inputs g = inputs"
  shows "bw_log v = bw_log w \<or> (\<exists>e. bw_log v = bw_log w @ [e] \<and> gated g e)"
proof (cases "sp_action p = Go_Back \<or> sp_action p = Complete")
  case True
  then show ?thesis using assms(1)
    by (auto simp: execute_step_def andthen_def bind_def log_event_def split: if_splits)
next
  case False
  then obtain k where k: "sp_candidate p = Some k"
    using assms(2) by (auto simp: make_browser_step_def split: if_splits)
  show ?thesis
  proof (cases "resolve_candidate t cs k")
    case (Inl e)
    then show ?thesis using assms(1) False k by (auto simp: execute_step_def bind_def)
  next
    case (Inr c)
    note c = resolve_candidate_Inr [OF Inr]
    then have "known_candidate c" "lp_gate g s p (Some c) = Inr ()"
      using find_candidate_in assms(3,4) k by auto
    moreover have "(sp_action p = Fill \<or> sp_action p = Choose) = (sp_input p \<noteq> None)"
      using assms(2) False by (auto simp: make_browser_step_def split: if_splits)
    ultimately show ?thesis using assms(1,5) False k Inr
      by (cases "sp_action p")
        (auto simp: execute_step_def bind_def andthen_def log_event_def known_candidate_def find_Some_iff
          split: if_splits option.splits)
  qed
qed

lemma only_execute_step:
  assumes "and_then reply make_browser_step = Inr p" and "and_then elements (capture limit) = Inr cs"
    and "lp_gate g s p (find_candidate cs (sp_candidate p)) = Inr x"
  shows "only (gated g) (execute_step t cs p (lp_inputs g) s)"
proof -
  from assms obtain q es where "make_browser_step q = Inr p" "capture limit es = Inr cs"
    by (auto simp: res_simps)
  then show ?thesis unfolding only_def
    using execute_step_cases [of t cs p "lp_inputs g" s _ _ _ q g] capture_known assms(3) by fastforce
qed

lemma only_goal_rounds: "only (gated g) (goal_rounds g turns n history previous repeated)"
proof (induction n arbitrary: history previous repeated)
  case (Suc n)
  show ?case unfolding goal_rounds.simps Let_def
    by (rule only_basic only_if only_lift_bind only_lift_then only_bind only_andthen Suc.IH |
        (rule only_execute_step, assumption, assumption, assumption))+
qed simp


section \<open>Goals that only read\<close>

text \<open>A page of the console was opened, or a control that navigates was clicked.\<close>

fun reading_event :: "string \<Rightarrow> string set \<Rightarrow> browser_event \<Rightarrow> bool" where
  "reading_event url names (Opened u) = (u = url)"
| "reading_event url names Went_Back = True"
| "reading_event url names (Performed s a c v) =
     (a = Click \<and> v = None \<and> \<not> is_commit c \<and> (bc_role c = Button \<or> bc_role c = Link) \<and>
      (is_navigation c \<or> (\<exists>n \<in> names. matches_identity c (Some n))))"

lemma not_mutates:
  assumes "\<not> mutates a (Some c) (Some n)" and "\<not> is_commit c" and "a \<in> set (actions_for_role (bc_role c))"
  shows "a = Click \<and> (bc_role c = Button \<or> bc_role c = Link) \<and> (is_navigation c \<or> matches_identity c (Some n))"
  using assms by (cases "bc_role c") (auto simp: mutates_def changes_field_def split: if_splits)

lemma only_reading_goal: "n \<in> names \<Longrightarrow> only (reading_event url names) (run_goal env (reading_goal ou n))"
  unfolding run_goal_def admin_run_goal_def run_loop_def
proof (rule only_mono [OF only_goal_rounds])
  fix e
  assume n: "n \<in> names" and "gated \<lparr>lp_limit = be_limit env, lp_arrive = admin_arrive, lp_gate = admin_gate (reading_goal ou n),
      lp_after = tn_adopted, lp_inputs = ag_inputs (reading_goal ou n)\<rparr> e"
  then show "reading_event url names e"
  proof (cases e)
    case (Performed s a c v)
    then have "\<not> mutates a (Some c) (Some n)" "\<not> is_commit c" "a \<in> set (actions_for_role (bc_role c))" "v = None"
      using n \<open>gated _ e\<close>
      by (auto simp: admin_gate_def reading_goal_def split: if_splits option.splits)
    with not_mutates [OF this(1-3)] n Performed show ?thesis by auto
  qed simp_all
qed

lemma only_read_back:
  "only (reading_event url {n}) (page_goal env inputs permit False (Some n))"
  unfolding page_goal_def compliance_run_goal_def run_loop_def
proof (rule only_mono [OF only_goal_rounds])
  fix e
  assume "gated \<lparr>lp_limit = be_limit env, lp_arrive = compliance_arrive,
      lp_gate = compliance_gate inputs (pe_ou permit) False (Some n), lp_after = (\<lambda>_. Inr ()), lp_inputs = inputs\<rparr> e"
  then show "reading_event url {n} e"
  proof (cases e)
    case (Performed s a c v)
    then have "\<not> mutates a (Some c) (Some n)" "\<not> is_commit c" "a \<in> set (actions_for_role (bc_role c))"
        "v = None \<or> a = Fill \<or> a = Choose"
      using \<open>gated _ e\<close>
      by (auto simp: compliance_gate_def Let_def split: if_splits option.splits)
    with not_mutates [OF this(1-3)] Performed show ?thesis by auto
  qed simp_all
qed

lemma only_open_admin: "P (Opened url) \<Longrightarrow> only P (open_admin env url)"
  unfolding open_admin_def
  by (auto intro!: only_bind only_andthen only_log split: prod.split)

lemma only_read_address_list:
  "al_name t \<in> names \<Longrightarrow> only (reading_event (be_senders_url env) names) (read_address_list env t)"
  unfolding read_address_list_def
  by (intro only_bind only_andthen only_open_admin only_reading_goal only_basic only_transcribe) auto

lemma dict_of_name: "dict_get (dict_of key xs) n = Some v \<Longrightarrow> v \<in> set xs \<and> key v = n"
proof -
  assume n: "dict_get (dict_of key xs) n = Some v"
  have put: "set (dict_values (dict_put k x d)) \<subseteq> insert x (set (dict_values d))" for k x and d :: "('b, 'a) dict"
    by (induction d) auto
  have "set (dict_values (fold (\<lambda>v d. dict_put (key v) v d) xs d)) \<subseteq> set (dict_values d) \<union> set xs" for d
  proof (induction xs arbitrary: d)
    case (Cons x xs)
    show ?case using Cons [of "dict_put (key x) x d"] put [of "key x" x d] by (simp del: set_map) blast
  qed simp
  from this [of "[]"] have "set (dict_values (dict_of key xs)) \<subseteq> set xs" by (simp add: dict_of_def)
  moreover have "v \<in> set (dict_values (dict_of key xs))"
    using imageI [OF map_of_SomeD [OF n], of snd] by simp
  ultimately show ?thesis using keyed_get [OF keyed_dict_of n] by blast
qed

lemma only_read_blocked_rule:
  assumes "br_name t \<in> names" and "al_name ` set ls \<subseteq> names"
  shows "only (reading_event (be_senders_url env) names) (read_blocked_rule env (dict_of al_name ls) t seen)"
proof -
  have "only (reading_event (be_senders_url env) names) (read_linked_list env (dict_of al_name ls) n found)" for n found
    using assms(2) unfolding read_linked_list_def
    by (auto intro!: only_bind only_read_address_list split: option.split dest: dict_of_name)
  then show ?thesis unfolding read_blocked_rule_def
    by (auto intro!: only_bind only_andthen only_open_admin only_reading_goal only_fold_act assms(1))
qed

lemma only_read_blocked_sender_state:
  "only (reading_event (be_senders_url env) (br_name ` set (bs_rules expected) \<union> al_name ` set (bs_lists expected)))
     (read_blocked_sender_state env expected prefix)"
  unfolding read_blocked_sender_state_def
  by (auto intro!: only_bind only_andthen only_open_admin only_fold_act only_read_blocked_rule split: prod.split)

lemma only_read_content_compliance_state:
  "only (reading_event (be_compliance_url env) (cr_name ` set (cs_rules expected)))
     (read_content_compliance_state env expected prefix)"
  unfolding read_content_compliance_state_def read_compliance_rule_def
  by (auto intro!: only_bind only_andthen only_open_admin only_fold_act only_reading_goal)

section \<open>Goals that write\<close>

text \<open>
  What is written: a value of the fields given for the resource, and a control that commits,
  or a button that is not known to navigate, only with the resource visible on the page.
\<close>

fun writing_event ::
    "string \<Rightarrow> string \<Rightarrow> (string list \<times> string \<times> bool) set \<Rightarrow> browser_event \<Rightarrow> bool" where
  "writing_event url ou resources (Opened u) = (u = url)"
| "writing_event url ou resources Went_Back = True"
| "writing_event url ou resources (Performed s a c v) =
     (\<exists>(values, name, needs_ou) \<in> resources. (\<forall>x \<in> set_option v. x \<in> set values) \<and>
        (is_commit c \<or> bc_role c = Button \<and> mutates a (Some c) (Some name) \<longrightarrow>
           shows_text s (squash name) \<and> (needs_ou \<longrightarrow> require_target_ou s ou = Inr ())))"

lemma writing_event_mono: "writing_event url ou R e \<Longrightarrow> R \<subseteq> S \<Longrightarrow> writing_event url ou S e"
  by (cases e) (simp, simp, simp only: writing_event.simps, blast)

lemma browser_inputs_values: "browser_inputs fs = Inr inputs \<Longrightarrow> bi_value ` set inputs \<subseteq> snd ` set fs"
proof -
  assume b: "browser_inputs fs = Inr inputs"
  have "bi_value y \<in> snd ` set fs" if y: "y \<in> set inputs" for y
  proof -
    obtain i label x where "(i, label, x) \<in> set (List.enumerate 0 fs)"
        "make_browser_input \<lparr>bi_id = token CHR ''i'' i, bi_label = label, bi_value = x\<rparr> = Inr y"
      using map_res_set [OF b [unfolded browser_inputs_def] y] by auto
    then have "(label, x) \<in> set fs" "bi_value y = x"
      by (auto simp: in_set_enumerate_eq make_browser_input_def split: if_splits) (metis nth_mem)
    then show ?thesis by force
  qed
  then show ?thesis by blast
qed

definition phase_resource :: "string \<times> console_resource \<Rightarrow> string list \<times> string \<times> bool" where
  "phase_resource x = (map snd (resource_fields (fst x) (snd x)), resource_name (snd x), is_rule_resource (snd x))"

lemma only_writing_goal:
  assumes "browser_inputs (resource_fields op x) = Inr inputs"
  shows "only (writing_event url (dp_ou permit) {phase_resource (op, x)}) (run_goal env (writing_goal permit x inputs))"
  unfolding run_goal_def admin_run_goal_def run_loop_def
proof (rule only_mono [OF only_goal_rounds])
  fix e
  assume "gated \<lparr>lp_limit = be_limit env, lp_arrive = admin_arrive, lp_gate = admin_gate (writing_goal permit x inputs),
      lp_after = tn_adopted, lp_inputs = ag_inputs (writing_goal permit x inputs)\<rparr> e"
  then show "writing_event url (dp_ou permit) {phase_resource (op, x)} e"
  proof (cases e)
    case (Performed s a c v)
    have "\<forall>y \<in> set_option v. y \<in> set (map snd (resource_fields op x))"
      using \<open>gated _ e\<close> Performed browser_inputs_values [OF assms]
      by (auto simp: writing_goal_def split: option.splits)
    moreover obtain p where "sp_action p = a" "admin_gate (writing_goal permit x inputs) s p (Some c) = Inr ()"
      using \<open>gated _ e\<close> Performed by auto
    ultimately show ?thesis using Performed
      by (auto simp: admin_gate_def writing_goal_def require_visible_identity_def phase_resource_def res_simps
          split: if_splits)
  qed simp_all
qed

lemma only_apply_phases:
  "only (writing_event (be_senders_url env) (dp_ou permit) (phase_resource ` set phases)) (apply_phases env permit phases history)"
proof (induction phases arbitrary: history)
  case (Cons phase phases)
  obtain op x where phase: "phase = (op, x)" by (cases phase)
  note rest = only_mono [OF Cons.IH writing_event_mono [OF _ image_mono [OF set_subset_Cons]]]
  have goal: "only (writing_event (be_senders_url env) (dp_ou permit) (phase_resource ` set (phase # phases)))
      (run_goal env (writing_goal permit x inputs))" if "browser_inputs (resource_fields op x) = Inr inputs" for inputs
    by (rule only_mono [OF only_writing_goal [OF that] writing_event_mono]) (auto simp: phase)
  show ?case unfolding phase apply_phases.simps
    by (intro only_andthen only_open_admin only_lift_bind only_bind goal [unfolded phase])
      (auto split: prod.split intro: rest [unfolded phase, simplified])
qed simp


section \<open>The content-compliance page\<close>

lemma browser_inputs_first:
  assumes "browser_inputs ((''Managed rule name'', n) # fs) = Inr inputs"
  shows "input_rule_identity inputs = Some n"
  using assms by (auto simp: browser_inputs_def make_browser_input_def input_rule_identity_def res_simps split: if_splits)

text \<open>Both the rule and its unit are shown when a control that commits is used.\<close>

lemma only_compliance_goal:
  assumes "browser_inputs given_fields = Inr inputs" and "given_fields = (''Managed rule name'', n) # fs"
  shows "only (writing_event url (pe_ou permit) {(map snd given_fields, n, True)}) (page_goal env inputs permit True None)"
  unfolding page_goal_def compliance_run_goal_def run_loop_def
proof (rule only_mono [OF only_goal_rounds])
  fix e
  assume "gated \<lparr>lp_limit = be_limit env, lp_arrive = compliance_arrive,
      lp_gate = compliance_gate inputs (pe_ou permit) True None, lp_after = (\<lambda>_. Inr ()), lp_inputs = inputs\<rparr> e"
  then show "writing_event url (pe_ou permit) {(map snd given_fields, n, True)} e"
  proof (cases e)
    case (Performed s a c v)
    have "\<forall>y \<in> set_option v. y \<in> set (map snd given_fields)"
      using \<open>gated _ e\<close> Performed browser_inputs_values [OF assms(1)] by (auto split: option.splits)
    moreover obtain p where "sp_action p = a" "compliance_gate inputs (pe_ou permit) True None s p (Some c) = Inr ()"
      using \<open>gated _ e\<close> Performed by auto
    ultimately show ?thesis using Performed browser_inputs_first [OF assms(1) [unfolded assms(2)]]
      by (auto simp: compliance_gate_def Let_def require_rule_identity_def require_visible_identity_def res_simps
          split: if_splits)
  qed simp_all
qed

lemma only_admit_permit: "only P (admit_permit env rule permit allowed)"
  unfolding admit_permit_def consume_permit_def require_admin_host_def
  by (intro only_andthen only_bind only_basic only_transcribe only_if) (simp add: only_quiet)

definition page_event :: "string \<Rightarrow> compliance_rule \<Rightarrow> string \<Rightarrow> browser_event \<Rightarrow> bool" where
  "page_event url rule ou e \<longleftrightarrow> reading_event url {cr_name rule} e \<or>
     writing_event url ou {(map snd (rule_fields rule), cr_name rule, True)} e"

lemma fields_first:
  "identity_fields r = (''Managed rule name'', cr_name r) # tl (identity_fields r)"
  "rule_fields r = (''Managed rule name'', cr_name r) # tl (rule_fields r)"
  by (simp_all add: identity_fields_def rule_fields_def)

lemma writing_is_page_event:
  "set (map snd given_fields) \<subseteq> set (map snd (rule_fields rule)) \<Longrightarrow>
     writing_event url ou {(map snd given_fields, cr_name rule, True)} e \<Longrightarrow> page_event url rule ou e"
  unfolding page_event_def by (cases e) (auto simp: subset_iff)

lemma only_page_operations:
  "only (page_event url rule (pe_ou permit)) (page_apply_rule env rule permit)"
  "only (page_event url rule (pe_ou permit)) (page_remove_rule env rule permit)"
proof -
  have writes: "only (page_event url rule (pe_ou permit)) (page_goal env inputs permit True None)"
    if "browser_inputs given_fields = Inr inputs" "given_fields = (''Managed rule name'', cr_name rule) # fs"
      "set (map snd given_fields) \<subseteq> set (map snd (rule_fields rule))" for given_fields fs inputs
    by (rule only_mono [OF only_compliance_goal [OF that(1,2)] writing_is_page_event [OF that(3)]])
  have seen_back: "only (page_event url rule (pe_ou permit)) (page_goal env inputs permit False (Some (cr_name rule)))" for inputs
    by (rule only_mono [OF only_read_back [of url]]) (simp add: page_event_def)
  have sub: "set (map snd (identity_fields rule)) \<subseteq> set (map snd (rule_fields rule))"
    by (auto simp: rule_fields_def)
  show "only (page_event url rule (pe_ou permit)) (page_apply_rule env rule permit)"
    unfolding page_apply_rule_def page_snapshot_def detect_compliance_state_def
    by (intro only_andthen only_admit_permit only_lift_bind only_bind [OF writes [OF _ fields_first(2)]] subset_refl)
      (auto split: prod.split intro!: only_bind only_andthen seen_back)
  show "only (page_event url rule (pe_ou permit)) (page_remove_rule env rule permit)"
    unfolding page_remove_rule_def page_snapshot_def detect_compliance_state_def
    by (intro only_andthen only_admit_permit only_lift_bind only_bind [OF writes [OF _ fields_first(1) sub]])
      (auto split: prod.split intro!: only_bind only_andthen)
qed

section \<open>The driver's writes\<close>

text \<open>What a change may do to the console under a permit.\<close>

definition blocked_write :: "browser_env \<Rightarrow> change_set \<Rightarrow> admin_permit \<Rightarrow> browser_event \<Rightarrow> bool" where
  "blocked_write env c permit = writing_event (be_senders_url env) (dp_ou permit) (phase_resource ` set (change_phases c))"

definition compliance_write :: "browser_env \<Rightarrow> compliance_change_set \<Rightarrow> admin_permit \<Rightarrow> browser_event \<Rightarrow> bool" where
  "compliance_write env c permit e \<longleftrightarrow>
     (\<exists>rule. touched_rules c = [rule] \<and> page_event (be_compliance_url env) rule (dp_ou permit) e)"

lemma apply_blocked_only:
  assumes "apply_blocked_sender_change env c permit w = (r, v)"
  shows "\<exists>es. bw_log v = bw_log w @ es \<and> list_all (blocked_write env c permit) es \<and>
    (es = [] \<or> validate_admin_permit (be_hash env) Blocked_Senders (dump_change_set c) (dump_blocked_state (ch_before c))
       (blocked_versions c) permit = Inr ())"
proof (cases "validate_admin_permit (be_hash env) Blocked_Senders (dump_change_set c) (dump_blocked_state (ch_before c))
       (blocked_versions c) permit")
  case (Inl e)
  then show ?thesis using assms by (auto simp: apply_blocked_sender_change_def andthen_def bind_def)
next
  case (Inr x)
  have "only (blocked_write env c permit) (apply_blocked_sender_change env c permit)"
    unfolding apply_blocked_sender_change_def detect_admin_state_def blocked_write_def
    by (auto intro!: only_andthen only_bind only_apply_phases split: prod.split)
  from onlyD [OF this assms] Inr show ?thesis by auto
qed

lemma apply_compliance_only:
  assumes "apply_content_compliance_change env c permit w = (r, v)"
  shows "\<exists>es. bw_log v = bw_log w @ es \<and> list_all (compliance_write env c permit) es \<and>
    (es = [] \<or> validate_admin_permit (be_hash env) Content_Compliance (dump_compliance_change_set c)
       (dump_compliance_state (cc_before c)) (compliance_versions c) permit = Inr ())"
proof (cases "validate_admin_permit (be_hash env) Content_Compliance (dump_compliance_change_set c)
       (dump_compliance_state (cc_before c)) (compliance_versions c) permit")
  case (Inl e)
  then show ?thesis using assms by (auto simp: apply_content_compliance_change_def andthen_def bind_def)
next
  case (Inr x)
  have "only (compliance_write env c permit) (apply_content_compliance_change env c permit)"
  proof (cases "\<exists>rule. touched_rules c = [rule]")
    case True
    then obtain rule where rule: "touched_rules c = [rule]" by blast
    have op: "only (compliance_write env c permit) ((if driver_operation c = Op_Remove then page_remove_rule else page_apply_rule) env rule p)"
      if "pe_ou p = dp_ou permit" for p
      using only_page_operations [of "be_compliance_url env" rule p env] that rule
      by (auto intro: only_mono simp: compliance_write_def)
    have made: "pe_ou p = dp_ou permit"
      if "make_compliance_permit \<lparr>pe_approval_id = a, pe_plan_hash = b, pe_before_hash = d, pe_change_hash = f, pe_rule_hash = h,
            pe_ou = dp_ou permit, pe_target = t, pe_operation = x, pe_approved = True\<rparr> = Inr p" for a b d f h t x p
      using that by (auto simp: make_compliance_permit_def split: if_splits)
    have opened: "only (compliance_write env c permit) (open_admin env (be_compliance_url env))"
      by (rule only_open_admin) (simp add: compliance_write_def page_event_def rule)
    have reset: "only P (update (\<lambda>w. w\<lparr>bw_consumed := []\<rparr>))" for P
      by (rule only_quiet) simp
    show ?thesis unfolding apply_content_compliance_change_def rule list.case
      by (intro only_andthen opened reset only_lift_bind only_bind [OF op [OF made]] only_basic)
  next
    case False
    then have "(case touched_rules c of [rule] \<Rightarrow> k rule | _ \<Rightarrow> raise StaleConfirmation) = raise StaleConfirmation" for k :: "compliance_rule \<Rightarrow> (browser_world, apply_result) act"
      by (auto split: list.split)
    then show ?thesis unfolding apply_content_compliance_change_def by (auto intro!: only_andthen)
  qed
  from onlyD [OF this assms] Inr show ?thesis by auto
qed


section \<open>How much is done\<close>

definition spends :: "nat \<Rightarrow> (browser_world, 'a) act \<Rightarrow> bool" where
  "spends k m \<longleftrightarrow> (\<forall>w r v. m w = (r, v) \<longrightarrow> length (bw_log v) \<le> length (bw_log w) + k)"

lemma spends_only: "only P m \<Longrightarrow> spends k m \<Longrightarrow> m w = (r, v) \<Longrightarrow>
  \<exists>es. bw_log v = bw_log w @ es \<and> list_all P es \<and> length es \<le> k"
  unfolding spends_def only_def by fastforce

lemma spends_quiet: "(\<And>w. bw_log (snd (m w)) = bw_log w) \<Longrightarrow> spends k m"
  unfolding spends_def by (metis le_add1 snd_conv)

lemma spends_bind:
  assumes "spends j m" and "\<And>x. spends k (f x)"
  shows "spends (j + k) (bind m f)"
proof -
  have "length (bw_log v) \<le> length (bw_log w) + (j + k)" if "bind m f w = (r, v)" for w r v
  proof -
    obtain q u where q: "m w = (q, u)" by fastforce
    then have j: "length (bw_log u) \<le> length (bw_log w) + j" using assms(1) by (auto simp: spends_def)
    show ?thesis
    proof (cases q)
      case (Inl e)
      then show ?thesis using that q j by (simp add: bind_def)
    next
      case (Inr x)
      then have "f x u = (r, v)" using that q by (simp add: bind_def)
      then have "length (bw_log v) \<le> length (bw_log u) + k" using assms(2) by (auto simp: spends_def)
      then show ?thesis using j by simp
    qed
  qed
  then show ?thesis by (simp add: spends_def)
qed

lemma spends_bind0: "spends 0 m \<Longrightarrow> (\<And>x. spends k (f x)) \<Longrightarrow> spends k (bind m f)"
  using spends_bind [of 0 m k f] by simp

lemma spends_andthen0: "spends 0 m \<Longrightarrow> spends k n \<Longrightarrow> spends k (andthen m n)"
  unfolding andthen_def by (rule spends_bind0)

lemma spends_andthen: "spends j m \<Longrightarrow> spends k n \<Longrightarrow> spends (j + k) (andthen m n)"
  unfolding andthen_def by (rule spends_bind)

lemma spends_basic [simp, intro]:
  "spends k (return x)" "spends k (raise e)" "spends k (lift r)" "spends k (get f)" "spends k (next_answer a)"
  by (rule spends_quiet, simp add: next_answer_def)+

lemma spends_transcribe [simp, intro]: "spends k (transcribe answers schema)"
  unfolding transcribe_def by (rule spends_bind0) auto

lemma spends_if: "spends k m \<Longrightarrow> spends k n \<Longrightarrow> spends k (if b then m else n)"
  by simp

lemma spends_log: "spends 1 (log_event e)"
  by (simp add: spends_def log_event_def)

lemma spends_log_then: "spends (Suc 0) (andthen (log_event e) (lift x))"
  by (auto simp: spends_def andthen_def bind_def log_event_def split: sum.splits)

lemma spends_execute_step: "spends (Suc 0) (execute_step t cs p inputs s)"
  unfolding execute_step_def
  by (auto intro!: spends_log_then spends_bind0 split: option.split)

lemma spends_goal_rounds: "spends n (goal_rounds g turns n history previous repeated)"
proof (induction n arbitrary: history previous repeated)
  case (Suc n)
  have last: "spends (Suc n) (andthen (execute_step t cs p (lp_inputs g) s)
      (andthen (lift x) (goal_rounds g turns n h q k)))" for t cs p s x h q k
    using spends_andthen [OF spends_execute_step spends_andthen0 [OF _ Suc.IH], of "lift x" t cs p "lp_inputs g" s h q k]
    by simp
  show ?case unfolding goal_rounds.simps Let_def
    by (intro last spends_basic spends_if spends_andthen0 spends_bind0)
qed simp

lemma spends_log_first: "spends 0 n \<Longrightarrow> spends (Suc 0) (andthen (log_event e) n)"
  using spends_andthen [OF spends_log, of 0 n e] by simp

lemma spends_open_admin: "spends (Suc 0) (open_admin env url)"
  unfolding open_admin_def
  by (rule spends_bind0 spends_basic spends_log_first spends_andthen0 spends_if | simp split: prod.split)+

lemma spends_apply_phases:
  "spends (length phases * Suc (be_steps env)) (apply_phases env permit phases history)"
proof (induction phases arbitrary: history)
  case (Cons phase phases)
  obtain op x where phase: "phase = (op, x)" by (cases phase)
  have "spends (be_steps env) (run_goal env g)" for g
    unfolding run_goal_def admin_run_goal_def run_loop_def by (rule spends_goal_rounds)
  moreover have "spends (length phases * Suc (be_steps env)) (case y of (steps, completed) \<Rightarrow>
      if \<not> completed then return (history @ steps, False) else apply_phases env permit phases (history @ steps))" for y
    using Cons.IH by (auto split: prod.split)
  ultimately have "spends (be_steps env + length phases * Suc (be_steps env))
      (bind (lift (browser_inputs (resource_fields op x))) (\<lambda>inputs.
       bind (run_goal env (writing_goal permit x inputs)) (\<lambda>(steps, completed).
         if \<not> completed then return (history @ steps, False) else apply_phases env permit phases (history @ steps))))"
    by (intro spends_bind0 spends_basic spends_bind)
  from spends_andthen [OF spends_open_admin [of env "be_senders_url env"] this] show ?case
    by (simp add: phase add.assoc add.left_commute add.commute)
qed simp

lemma spends_apply_blocked:
  "spends (length (change_phases c) * Suc (be_steps env)) (apply_blocked_sender_change env c permit)"
proof -
  have "spends (length (change_phases c) * Suc (be_steps env) + 0) (bind (apply_phases env permit (change_phases c) []) f)"
    if "\<And>x. spends 0 (f x)" for f :: "string list \<times> bool \<Rightarrow> (browser_world, apply_result) act"
    by (rule spends_bind [OF spends_apply_phases that])
  from this [unfolded add_0_right] show ?thesis unfolding apply_blocked_sender_change_def detect_admin_state_def
    by (rule spends_andthen0 [OF spends_basic(3)]) (auto intro!: spends_bind0 split: prod.split)
qed

lemma spends_page_goal: "spends (be_steps env) (page_goal env inputs permit mutation navigation)"
  unfolding page_goal_def compliance_run_goal_def run_loop_def by (rule spends_goal_rounds)

lemma spends_admit_permit: "spends k (admit_permit env rule permit allowed)"
  unfolding admit_permit_def consume_permit_def require_admin_host_def
  by (intro spends_andthen0 spends_bind0 spends_basic spends_transcribe spends_if) (simp add: spends_quiet)

lemma spends_snapshots [simp, intro]:
  "spends k (page_snapshot env)" "spends k (detect_compliance_state env)"
  by (simp_all add: page_snapshot_def detect_compliance_state_def)

text \<open>Applying a rule pursues two goals, one that writes and one that reads back; removing it one.\<close>

lemma spends_page_operations:
  "spends (be_steps env + be_steps env) (page_apply_rule env rule permit)"
  "spends (be_steps env) (page_remove_rule env rule permit)"
proof -
  have first: "spends (be_steps env + k) (bind (page_goal env inputs permit m x) f)" if "\<And>y. spends k (f y)"
    for k inputs m x and f :: "string list \<times> bool \<Rightarrow> (browser_world, page_result) act"
    by (rule spends_bind [OF spends_page_goal that])
  have again: "spends (be_steps env) (bind (page_goal env inputs permit m x) f)" if "\<And>y. spends 0 (f y)"
    for inputs m x and f :: "string list \<times> bool \<Rightarrow> (browser_world, page_result) act"
    using first [OF that] by simp
  show "spends (be_steps env + be_steps env) (page_apply_rule env rule permit)"
    unfolding page_apply_rule_def
    by (intro spends_andthen0 [OF spends_admit_permit] spends_bind0 [OF spends_basic(3)] first)
      (auto split: prod.split intro!: spends_bind0 spends_andthen0 again)
  show "spends (be_steps env) (page_remove_rule env rule permit)"
    unfolding page_remove_rule_def
    by (intro spends_andthen0 [OF spends_admit_permit] spends_bind0 [OF spends_basic(3)] again)
      (auto split: prod.split intro!: spends_bind0 spends_andthen0)
qed

lemma spends_mono: "j \<le> k \<Longrightarrow> spends j m \<Longrightarrow> spends k m"
  unfolding spends_def by (meson add_left_mono le_trans)

lemma spends_apply_compliance:
  "spends (Suc (2 * be_steps env)) (apply_content_compliance_change env c permit)"
proof -
  have op: "spends (2 * be_steps env) ((if b then page_remove_rule else page_apply_rule) env rule p)" for b rule p
    using spends_page_operations [of env rule p] spends_mono [OF _ spends_page_operations(2), of env "2 * be_steps env" rule p]
    by (simp add: mult_2)
  have last: "spends (2 * be_steps env)
      (bind ((if b then page_remove_rule else page_apply_rule) env rule p) f)"
    if "\<And>y. spends 0 (f y)" for b rule p and f :: "page_result \<Rightarrow> (browser_world, apply_result) act"
    using spends_bind [OF op that] by simp
  have opened: "spends (Suc (2 * be_steps env)) (andthen (open_admin env url) n)" if "spends (2 * be_steps env) n"
    for url and n :: "(browser_world, apply_result) act"
    using spends_andthen [OF spends_open_admin that] by simp
  have reset: "spends 0 (update (\<lambda>w. w\<lparr>bw_consumed := []\<rparr>))" by (rule spends_quiet) simp
  have one: "spends (Suc (2 * be_steps env)) (case rules of [rule] \<Rightarrow> k rule | _ \<Rightarrow> raise StaleConfirmation)"
    if "\<And>rule. spends (Suc (2 * be_steps env)) (k rule)" for rules :: "compliance_rule list" and k :: "_ \<Rightarrow> (browser_world, apply_result) act"
    using that by (auto split: list.split)
  show ?thesis unfolding apply_content_compliance_change_def
    by (intro spends_andthen0 [OF spends_basic(3)] one opened spends_andthen0 [OF reset]
        spends_bind0 [OF spends_basic(3)] last spends_basic)
qed

section \<open>What a permit covers\<close>

text \<open>
  A permit covers a change when it is approved, for the surface, with the digests of the change
  and of its before-state, and names a rule of the change in the unit of every version of it.
\<close>

definition permit_covers ::
    "surface \<Rightarrow> string \<Rightarrow> string \<Rightarrow> (uuid \<times> string) set \<Rightarrow> admin_permit \<Rightarrow> bool" where
  "permit_covers s change before versions permit \<longleftrightarrow>
     dp_approved permit \<and> dp_surface permit = s \<and> dp_change_hash permit = change \<and> dp_before_hash permit = before \<and>
     (dp_target permit, dp_ou permit) \<in> versions \<and>
     (\<forall>ou. (dp_target permit, ou) \<in> versions \<longrightarrow> ou = dp_ou permit)"

lemma validated_permit_covers:
  "validate_admin_permit H s change before versions permit = Inr () \<longleftrightarrow>
     permit_covers s (canonical_hash H change) (canonical_hash H before) (set versions) permit"
proof -
  have "snd ` set (filter (\<lambda>v. fst v = dp_target permit) versions) = {ou. (dp_target permit, ou) \<in> set versions}"
    by force
  moreover have "filter (\<lambda>v. fst v = dp_target permit) versions = [] \<longleftrightarrow> {ou. (dp_target permit, ou) \<in> set versions} = {}"
    by (auto simp: filter_empty_conv)
  ultimately show ?thesis
    by (auto simp: validate_admin_permit_def permit_covers_def Let_def)
qed

end
