(* ===== verification/Browser_Claims.thy ===== *)
theory Browser_Claims
  imports Browser_Safety
begin

text \<open>The properties of the browser driver, and a goal that presses a control through the gate.\<close>

section \<open>Reads\<close>

text \<open>
  C33. Reading the console changes nothing, whatever the pages show and whatever the model
  proposes: besides opening the page of the surface and going back, a read only clicks buttons
  and links that do not commit and that either name a navigation or carry the name of a resource
  it is looking for; it never fills, checks or selects anything. This holds on every path, also
  when the read ends with an exception.
\<close>

theorem console_reads_change_nothing:
  "(\<exists>es. bw_log (snd (read_blocked_sender_state env expected prefix w)) = bw_log w @ es \<and>
      list_all (reading_event (be_senders_url env)
        (br_name ` set (bs_rules expected) \<union> al_name ` set (bs_lists expected))) es) \<and>
   (\<exists>es. bw_log (snd (read_content_compliance_state env policy prefix w)) = bw_log w @ es \<and>
      list_all (reading_event (be_compliance_url env) (cr_name ` set (cs_rules policy))) es)"
  using only_read_blocked_sender_state only_read_content_compliance_state unfolding only_def by (metis prod.collapse)

section \<open>Writes\<close>

text \<open>
  C9. Applying a change touches the console only under a permit that is approved for the surface,
  carries the digests of the change and of its before-state, and names a rule of the before- or
  after-state together with the unit of every version of that rule. Then, whatever the model
  proposes: every value typed is a field of a resource of the change; a control that commits, or a
  button not known to navigate, is used only while the resource's name is on the page, and for
  rules also the approved unit; a blocked-sender change of n resources takes at most n times one
  more than the limit of steps actions, and a content-compliance change at most one more than
  twice that limit.
\<close>

theorem console_writes_are_gated:
  "(\<exists>es. bw_log (snd (apply_blocked_sender_change env c permit w)) = bw_log w @ es \<and>
      list_all (blocked_write env c permit) es \<and> length es \<le> length (change_phases c) * Suc (be_steps env) \<and>
      (es = [] \<or> permit_covers Blocked_Senders (canonical_hash (be_hash env) (dump_change_set c))
         (canonical_hash (be_hash env) (dump_blocked_state (ch_before c)))
         ((\<lambda>r. (br_id r, br_ou r)) ` (set (bs_rules (ch_before c)) \<union> set (bs_rules (ch_after c)))) permit)) \<and>
   (\<exists>es. bw_log (snd (apply_content_compliance_change env d permit w)) = bw_log w @ es \<and>
      list_all (compliance_write env d permit) es \<and> length es \<le> Suc (2 * be_steps env) \<and>
      (es = [] \<or> permit_covers Content_Compliance (canonical_hash (be_hash env) (dump_compliance_change_set d))
         (canonical_hash (be_hash env) (dump_compliance_state (cc_before d)))
         ((\<lambda>r. (cr_id r, ou_path (cr_ou r))) ` (set (cs_rules (cc_before d)) \<union> set (cs_rules (cc_after d)))) permit))"
    (is "?blocked \<and> ?compliance")
proof (rule conjI)
  obtain r v where a: "apply_blocked_sender_change env c permit w = (r, v)" by fastforce
  have "length (bw_log v) \<le> length (bw_log w) + length (change_phases c) * Suc (be_steps env)"
    using spends_apply_blocked a unfolding spends_def by blast
  then show ?blocked
    using apply_blocked_only [OF a] a by (auto simp: validated_permit_covers blocked_versions_def image_Un)
next
  obtain r v where a: "apply_content_compliance_change env d permit w = (r, v)" by fastforce
  have "length (bw_log v) \<le> length (bw_log w) + Suc (2 * be_steps env)"
    using spends_apply_compliance a unfolding spends_def by blast
  then show ?compliance
    using apply_compliance_only [OF a] a by (auto simp: validated_permit_covers compliance_versions_def image_Un)
qed

text \<open>A goal that presses \<^verbatim>\<open>Save\<close> while the resource is on the page, and one that may not.\<close>

definition save_turn :: "string \<Rightarrow> turn" where
  "save_turn snapshot = \<lparr>tn_facts = Inr \<lparr>pg_url = ''https://admin.google.com/ac/apps/gmail/spam'', pg_scheme = ''https'',
       pg_host = Some admin_host, pg_dialogs = 0, pg_dialog_label = None, pg_editors = 0, pg_compliance_headings = 0,
       pg_gmail_headings = 0, pg_spam_headings = 1, pg_blocked_headings = 1\<rparr>,
     tn_snapshot = Inr snapshot,
     tn_elements = Inr (\<lambda>r. if r = Button then
       [\<lparr>el_visible = True, el_label = None, el_text = '' Save  '', el_placeholder = None\<rparr>] else []),
     tn_step = Inr \<lparr>sp_action = Click, sp_candidate = Some ''c000'', sp_input = None, sp_rationale = ''save''\<rparr>,
     tn_matches = (\<lambda>_ _. Inr 1), tn_actionable = (\<lambda>_ _. Inr True), tn_performed = Inr (), tn_adopted = Inr ()\<rparr>"

definition save_goal :: admin_goal where
  "save_goal = \<lparr>ag_inputs = [], ag_mutation = True, ag_ou = ''/'', ag_commit = Some ''GWA 7'', ag_commit_ou = True,
     ag_navigation = None\<rparr>"

definition save_button :: candidate where
  "save_button = \<lparr>bc_id = ''c000'', bc_role = Button, bc_name = ''Save'', bc_actions = [Click]\<rparr>"

lemma save_facts:
  "capture 10 (\<lambda>r. if r = Button then
     [\<lparr>el_visible = True, el_label = None, el_text = '' Save  '', el_placeholder = None\<rparr>] else []) = Inr [save_button]"
  "is_commit save_button"
  "token_ok CHR ''c'' ''c000''"
  "shows_text ''Rule gwa 7, Root  organizational unit'' (squash ''GWA 7'')"
  "require_target_ou ''Rule gwa 7, Root  organizational unit'' ''/'' = Inr ()"
  "require_visible_identity ''Rule gwa 7'' ''GWA 7'' = Inr ()"
  "require_target_ou ''Rule gwa 7'' ''/'' = Inl RootOuNotConfirmed"
  by code_simp+


lemma save_goal_runs:
  "let w = \<lparr>bw_tick = 0, bw_log = [], bw_consumed = []\<rparr>; page = ''Rule gwa 7, Root  organizational unit''
   in bw_log (snd (admin_run_goal (\<lambda>n. save_turn page) 10 2 save_goal w)) =
        [Performed page Click save_button None, Performed page Click save_button None] \<and>
      admin_run_goal (\<lambda>n. save_turn ''Rule gwa 7'') 10 2 save_goal w = (Inl RootOuNotConfirmed, w\<lparr>bw_tick := 1\<rparr>)"
proof -
  have "admin_state_of (projr (tn_facts (save_turn s))) = Page_Senders_Section" for s
    by (simp add: save_turn_def admin_state_of_def spam_state_of_def) code_simp
  moreover have "find_candidate [save_button] (Some ''c000'') = Some save_button"
    by (simp add: find_candidate_def save_button_def)
  moreover have "require_visible_identity ''Rule gwa 7, Root  organizational unit'' ''GWA 7'' = Inr ()"
    using save_facts(4) by (simp add: require_visible_identity_def)
  moreover have "step_json \<lparr>sp_action = Click, sp_candidate = Some ''c000'', sp_input = None, sp_rationale = ''save''\<rparr> \<noteq> []"
    by (simp add: step_json_def model_json_def)
  moreover have "bc_role save_button = Button" "bc_actions save_button = [Click]" by (simp_all add: save_button_def)
  moreover have "repeated_step_limit = 3" by (simp add: repeated_step_limit_def)
  ultimately show ?thesis
    by (simp add: admin_run_goal_def run_loop_def numeral_2_eq_2 save_turn_def save_goal_def bind_def andthen_def Let_def
        next_answer_def admin_arrive_def observed_url_ok_def make_browser_step_def save_facts execute_step_def
        resolve_candidate_def admin_gate_def log_event_def)
qed

section \<open>Inputs\<close>

lemma map_res_refused:
  assumes "x \<in> set xs" and "f x = Inl e" and "\<And>y a. f y = Inl a \<Longrightarrow> a = e"
  shows "map_res f xs = Inl e"
  using assms(1,2)
proof (induction xs)
  case (Cons z zs)
  then show ?case
    by (cases "f z"; cases "map_res f zs") (auto dest: assms(3))
qed simp

lemma long_token: "1000 \<le> n \<Longrightarrow> \<not> token_ok c (token c n)"
proof
  assume "1000 \<le> n" "token_ok c (token c n)"
  then have "length (show_nat n) = 3" by (simp add: token_ok_def token_def)
  moreover have "show_nat n = show_nat (n div 1000) @ [hex_char (n div 100 mod 10), hex_char (n div 10 mod 10), hex_char (n mod 10)]"
  proof -
    have "\<not> n < 10" "\<not> n div 10 < 10" "\<not> n div 100 < 10" using \<open>1000 \<le> n\<close> by presburger+
    then show ?thesis
      by (simp add: show_nat.simps [of n] show_nat.simps [of "n div 10"] show_nat.simps [of "n div 100"] flip: div_mult2_eq)
  qed
  moreover have "show_nat m \<noteq> []" for m by (simp add: show_nat.simps [of m])
  ultimately show False by (metis append_eq_append_conv append_Nil length_Cons list.size(3) numeral_3_eq_3)
qed

text \<open>
  The inputs of a goal are numbered with three digits: an address list of a thousand or more
  entries is refused with a validation error when its turn comes, so the change can never be
  applied, although the list itself is valid and its plan was previewed and approved.
\<close>

theorem long_list_cannot_be_entered:
  assumes "1000 \<le> length (al_entries l)"
  shows "browser_inputs (resource_fields operation (List_Resource l)) = Inl ValidationError \<and>
    (\<forall>r v. apply_phases env permit ((operation, List_Resource l) # phases) history w = (r, v) \<longrightarrow> (\<exists>e. r = Inl e))"
proof -
  let ?fs = "address_list_fields operation l"
  have long: "1000 < length ?fs" using assms by (simp add: address_list_fields_def numbered_fields_def)
  then have "(1000, ?fs ! 1000) \<in> set (List.enumerate 0 ?fs)" by (simp add: in_set_enumerate_eq)
  then have "browser_inputs ?fs = Inl ValidationError"
    unfolding browser_inputs_def
    by (rule map_res_refused) (auto simp: make_browser_input_def long_token split: prod.splits if_splits)
  moreover from this have "\<forall>r v. apply_phases env permit ((operation, List_Resource l) # phases) history w = (r, v) \<longrightarrow> (\<exists>e. r = Inl e)"
    by (auto simp: andthen_def bind_def split: prod.splits sum.splits)
  ultimately show ?thesis by simp
qed

definition thousand_entry :: "nat \<Rightarrow> address_entry" where
  "thousand_entry n = \<lparr>ae_kind = Domain, ae_value = ''d'' @ show_nat n @ ''.com'',
     ae_normalized_value = ''d'' @ show_nat n @ ''.com''\<rparr>"

theorem long_list_cannot_be_entered_witness:
  "browser_inputs (resource_fields ''create'' (List_Resource \<lparr>al_id = 7, al_name = ''GWA Senders'',
     al_entries = map thousand_entry [0 ..< 1000]\<rparr>)) =
   Inl ValidationError"
  using long_list_cannot_be_entered [of "\<lparr>al_id = 7, al_name = ''GWA Senders'',
     al_entries = map thousand_entry [0 ..< 1000]\<rparr>" "''create''"]
  by simp

text \<open>The enabled state of a content-compliance rule is not among its inputs.\<close>

lemma enabled_state_not_entered:
  "rule_fields (rule\<lparr>cr_enabled := b\<rparr>) = rule_fields rule" "driver_operation c \<noteq> Op_Set_Enabled"
  by (simp_all add: rule_fields_def identity_fields_def driver_operation_def)

end
