(* ===== verification/Spec2Isabelle.thy ===== *)
theory Spec2Isabelle
  imports Server_Claims Setup_Claims Console_Access Operator_Claims Drafting_Claims Registry_Evidence Browser_Claims Console_Claims Change_Claims Audit_Claims Ownership_Claims Workflow_Claims
begin

text \<open>
  A verification development for the Gmail compliance agent. Paths are relative to
  \<^verbatim>\<open>src/compliance_agent\<close>.

  The program changes two parts of a Google Workspace console, the blocked-sender settings and the
  content-compliance settings, on behalf of an operator. A request becomes a typed plan, written
  by a language model or by a direct command; the plan and the state read from the console give a
  desired state and a change set by pure calculation; the operator sees a preview and types a
  confirmation; the change is applied by driving a browser and read back; and what was done is
  written to an append-only audit and, when it was verified, to a registry of the resources the
  agent owns. Three front ends share these parts: the workflow graph, the attended service and the
  web console.

  Theories, in the order of the program:

  \<^item> \<open>Prelude\<close>, \<open>Effects\<close>, \<open>Identifiers\<close>: exceptions as a datatype and results as \<open>exn + 'a\<close>, Python
    strings, dictionaries as association lists; actions on a state that may raise, with
    \<open>keeps\<close> and \<open>wp\<close>; UUIDs. Shared hints and lemmas.
  \<^item> \<open>Canonical_Json\<close>, \<open>Addresses\<close>, \<open>Compliance_Schema\<close>, \<open>Blocked_State\<close>, \<open>Task_Plan\<close>: the data of
    \<^verbatim>\<open>domain/hashing.py\<close>, \<^verbatim>\<open>domain/normalization.py\<close>, \<^verbatim>\<open>schemas/resources.py\<close>, \<^verbatim>\<open>schemas/state.py\<close>,
    \<^verbatim>\<open>schemas/compliance.py\<close>, \<^verbatim>\<open>domain/regex_validation.py\<close>, \<^verbatim>\<open>schemas/plan.py\<close>,
    \<^verbatim>\<open>application/planning_service.py\<close>. A record per model class, a \<open>make_\<close> function per validating
    constructor, a \<open>wf_\<close> predicate for what it accepts and a \<open>dump_\<close> function for its JSON.
  \<^item> \<open>Ownership\<close>, \<open>Desired_State\<close>, \<open>Change_Sets\<close>, \<open>Verification\<close>, \<open>Compliance_Desired\<close>,
    \<open>Preconditions\<close>: the pure core, \<^verbatim>\<open>domain/ownership.py\<close>, \<^verbatim>\<open>domain/desired_state.py\<close>,
    \<^verbatim>\<open>domain/diff.py\<close>, \<^verbatim>\<open>domain/verification.py\<close>, \<^verbatim>\<open>domain/reconciliation.py\<close>, \<^verbatim>\<open>domain/reporting.py\<close>,
    \<^verbatim>\<open>domain/compliance_desired_state.py\<close>, \<^verbatim>\<open>domain/preflight.py\<close>, \<^verbatim>\<open>domain/preconditions.py\<close>,
    \<^verbatim>\<open>application/change_service.py\<close>. \<open>Desired_Properties\<close> and \<open>Desired_Order\<close> hold its lemmas,
    \<open>Desired_Claims\<close>, \<open>Data_Claims\<close> and \<open>Change_Claims\<close> its properties.
  \<^item> \<open>Audit_Log\<close>, \<open>Audit_Chain\<close>, \<open>Reports\<close>, \<open>Ownership_Lifecycle\<close>, \<open>Lifecycle_Properties\<close>,
    \<open>Ownership_Recovery\<close>: \<^verbatim>\<open>audit/writer.py\<close>, \<^verbatim>\<open>audit/manifest.py\<close>, \<^verbatim>\<open>audit/report.py\<close>,
    \<^verbatim>\<open>infrastructure/filesystem.py\<close>, the ownership commits, recovery and health of \<^verbatim>\<open>application\<close>;
    properties in \<open>Audit_Claims\<close> and \<open>Ownership_Claims\<close>, and over all writers of the registry
    together in \<open>Registry_Evidence\<close>.
  \<^item> \<open>Workflow_Audit\<close>, \<open>Workflow\<close>: \<^verbatim>\<open>application/workflow_audit_service.py\<close> and the graph of
    \<^verbatim>\<open>workflow\<close>; one action per executor on the world of a run, \<open>step\<close> the delivery of a message,
    \<open>reachable\<close> the configurations of a run. \<open>Workflow_Protocol\<close> is the abstract protocol and
    \<open>Workflow_Simulation\<close> the simulation; \<open>Workflow_Evidence\<close>, \<open>Workflow_Liveness\<close> and
    \<open>Workflow_Runs\<close> hold the write-ahead rule, progress and whole runs; properties in
    \<open>Workflow_Claims\<close>.
  \<^item> \<open>Previews\<close>, \<open>Approvals\<close>: the dry run, the impact assessment and the one-time approvals;
    properties in \<open>Approval_Claims\<close>.
  \<^item> \<open>Attended_Audit\<close>, \<open>Attended\<close>: \<^verbatim>\<open>application/attended_audit.py\<close>,
    \<^verbatim>\<open>application/attended_policy_service.py\<close>; \<open>Attended_Properties\<close>, \<open>Attended_Claims\<close>.
  \<^item> \<open>Browser_Goals\<close>, \<open>Admin_Driver\<close>, \<open>Compliance_Page\<close>: \<^verbatim>\<open>browser/navigation_agent.py\<close>,
    \<^verbatim>\<open>browser/admin_agent_driver.py\<close>, \<^verbatim>\<open>browser/pages\<close>; \<open>Browser_Safety\<close>, \<open>Browser_Claims\<close>.
  \<^item> \<open>Structured_Output\<close>, \<open>Specialist_Review\<close>, \<open>Policy_Draft\<close>: \<^verbatim>\<open>llm/structured.py\<close>,
    \<^verbatim>\<open>llm/group_chat.py\<close>, \<^verbatim>\<open>llm/policy_draft.py\<close>; \<open>Drafting_Claims\<close>.
  \<^item> \<open>Console_Runs\<close>, \<open>Console_Security\<close>, \<open>Console_Server\<close>: \<^verbatim>\<open>console/coordinator.py\<close>,
    \<^verbatim>\<open>console/journal.py\<close>, \<^verbatim>\<open>console/run_status.py\<close>, \<^verbatim>\<open>console/timeline.py\<close>, \<^verbatim>\<open>console/security.py\<close>,
    \<^verbatim>\<open>console/app.py\<close>, \<^verbatim>\<open>console/routes.py\<close>; \<open>Console_Properties\<close>, \<open>Console_Claims\<close>,
    \<open>Console_Access\<close>, \<open>Server_Claims\<close>.
  \<^item> \<open>Operator_Services\<close>, \<open>Contracts\<close>, \<open>Readiness\<close>, \<open>Local_Settings\<close>: retention, follow-ups, the
    protected store, the process lock, the contract packs and the composition of the runtime,
    readiness, \<^verbatim>\<open>settings.py\<close> and \<^verbatim>\<open>console/configuration.py\<close>; \<open>Operator_Claims\<close>, \<open>Setup_Claims\<close>,
    \<open>Settings_Claims\<close>.
\<close>

text \<open>
  How state is modelled. Pure functions are functions into \<open>exn + 'a\<close>: every raise and early return
  is a branch. Code that keeps state is an action \<open>('s, 'a) act\<close>, which returns the state it leaves
  also when it raises. What a component asks of the browser, the model or the operator is put on a
  log with the answer, and the answers are arguments, so a theorem over all arguments covers every
  behaviour of these parties. Calls on files consume the next of a list of outcomes; the audit
  writer may fail before or after text reached the stream, a save of the registry before or after
  the file was replaced. A call of the web console that waits is two operations with any others
  between them. A call of the attended service is taken as a whole, as its approval is consumed
  before it first waits.

  Interfaces. \<open>identity_diff\<close> (partition of two versions of a set of resources by identity) is
  interpreted on rules, address lists and content-compliance rules; \<open>owned_store\<close> (edits that only
  touch owned resources) on the working sets of both desired-state calculations;
  \<open>one_time_approval\<close> (a dictionary of approvals whose grants consume their entry) on the approval
  services of both surfaces.

  Lemma groups. \<open>wf_\<close> lemmas: constructors and calculations keep the bounds of the models.
  \<open>guarded\<close> lemmas: an observed resource differs only if it is owned. \<open>keeps\<close>, \<open>wp\<close>, \<open>triple\<close>,
  \<open>rests\<close>, \<open>spends\<close>, \<open>only\<close>: what an action keeps, establishes, leaves alone, how much and what it
  logs. \<open>linked\<close> lemmas: a stream verifies exactly when it is a hash chain. \<open>commit_\<close> lemmas: what a
  commit gathers and writes. The theories named \<open>_Claims\<close> state the properties, each with an
  instance that meets its hypotheses, and small runs of the code as concrete values (\<open>ex_\<close>
  definitions).

  Bounds. Between two questions a workflow runs at most nine executors, and it applies a change set
  at most twice, both proved of every reachable configuration, so no fuel is needed there. A goal of
  the browser is recursion on the configured limit of steps; a change of n blocked-sender resources
  takes at most n times one more than that limit actions, one of a content-compliance rule twice the
  limit and one more. A structured reply of the model is asked for at most four times. One event of
  the web console makes at most two calls of the coordinator. All other recursion is structural or
  has a termination proof; there is no fuel.

  Parameters, for what is not under the source directory: the digest \<open>H\<close> (SHA-256), \<open>isofmt\<close> (the
  text of a time), the readers of stored JSON models, \<open>idna\<close> (the IDNA codec, with the hypothesis
  \<open>idna_stable\<close> where its output is normalised again), \<open>re2_ok\<close> (the RE2 compiler), the clock, the
  supplies of identifiers and tokens, the operating system's answers, what the browser shows and
  does and what the models answer. Hypotheses on them are stated in the theorems that use them and
  have instances.

  Strings are lists of 8-bit characters. Where Python's tests on characters depend on Unicode tables
  the model covers the code points below 256; texts of messages and log lines shown to a person are
  not modelled.

  Not modelled: the Reflex front end (\<^verbatim>\<open>reflex_console\<close>), the command line and the launchers, the
  page templates and notices, the Playwright session and the tables of locators, the prompts and
  personas, system clock and metadata queries, the read-only audit catalogue and inspection, the
  redacted export, and the developer scripts. They present or transport what is modelled here, or
  are answers of the environment. Where the code does not do what its comments or checks suggest,
  a lemma next to the component shows the case (for instance
  \<open>duplicate_bypass_reaches_state\<close>, \<open>new_bypass_list_is_never_owned\<close>, \<open>failed_flush_breaks_stream\<close>,
  \<open>long_list_cannot_be_entered\<close>).
\<close>

end
